(* ===== verification/Prelude.thy ===== *)
theory Prelude
  imports Main "HOL-Library.Word" "HOL-Library.Multiset"
begin

text \<open>
  Shared ground of the development: the type names of Go's sized integers, the result of
  a Go function that may return an error or panic, byte-slice reading and writing, the
  big-endian codec of \<open>encoding/binary\<close>, and the list lemmas that several components use.
  Facts that most proofs want are declared \<open>[simp]\<close> or go into one of the collections below.
\<close>

named_theorems part_simps "reading and writing parts of a byte slice"
named_theorems codec_simps "big-endian encoding and decoding"

type_synonym byte = "8 word"
type_synonym bytes = "8 word list"
type_synonym u16 = "16 word"
type_synonym u32 = "32 word"
type_synonym u64 = "64 word"

text \<open>Every machine word is below its modulus.\<close>

lemma unat_bound: "unat (w :: 'a::len word) < 2 ^ LENGTH('a)"
  by (rule unsigned_less)

lemma uint_bound: "0 \<le> uint w \<and> uint (w :: 'a::len word) < 2 ^ LENGTH('a)"
  by simp

lemma uint_byte_bound [simp]: "uint (b :: byte) < 256"
  using uint_bound [of b] by simp

text \<open>
  The result of a Go function of type \<open>(T, error)\<close>: a value with a nil error, an error, or
  a run-time panic (an index out of range, a nil dereference, a refused argument).
\<close>

datatype ('e, 'a) res = Ok 'a | Err 'e | Crash string

definition is_ok :: "('e, 'a) res \<Rightarrow> bool" where
  "is_ok r = (case r of Ok _ \<Rightarrow> True | _ \<Rightarrow> False)"

definition crashes :: "('e, 'a) res \<Rightarrow> bool" where
  "crashes r = (case r of Crash _ \<Rightarrow> True | _ \<Rightarrow> False)"

lemma is_ok_simps [simp]: "is_ok (Ok a)" "\<not> is_ok (Err e)" "\<not> is_ok (Crash s)"
  by (simp_all add: is_ok_def)

lemma crashes_simps [simp]: "\<not> crashes (Ok a)" "\<not> crashes (Err e)" "crashes (Crash s)"
  by (simp_all add: crashes_def)

subsection \<open>Parts of a slice\<close>

text \<open>\<open>part xs i n\<close> is Go's \<open>xs[i : i+n]\<close>; \<open>put_part xs i ys\<close> overwrites that part in place.\<close>

definition part :: "'a list \<Rightarrow> nat \<Rightarrow> nat \<Rightarrow> 'a list" where
  "part xs i n = take n (drop i xs)"

definition put_part :: "'a list \<Rightarrow> nat \<Rightarrow> 'a list \<Rightarrow> 'a list" where
  "put_part xs i ys = take i xs @ ys @ drop (i + length ys) xs"

lemma length_part [part_simps]: "i + n \<le> length xs \<Longrightarrow> length (part xs i n) = n"
  by (simp add: part_def)

lemma length_put_part [part_simps]:
  "i + length ys \<le> length xs \<Longrightarrow> length (put_part xs i ys) = length xs"
  by (simp add: put_part_def)

lemma part_put_part_same [part_simps]:
  "i + length ys \<le> length xs \<Longrightarrow> n = length ys \<Longrightarrow> part (put_part xs i ys) i n = ys"
  by (simp add: part_def put_part_def)

lemma nth_put_part:
  assumes "i + length ys \<le> length xs" and "k < length xs"
  shows "put_part xs i ys ! k = (if i \<le> k \<and> k < i + length ys then ys ! (k - i) else xs ! k)"
  using assms by (auto simp: put_part_def nth_append min_def)

lemma part_eqI:
  assumes "length xs = length ys" and "i + n \<le> length xs"
    and "\<And>k. i \<le> k \<Longrightarrow> k < i + n \<Longrightarrow> xs ! k = ys ! k"
  shows "part xs i n = part ys i n"
  by (rule nth_equalityI) (use assms in \<open>auto simp: part_def\<close>)

lemma part_put_part_disjoint [part_simps]:
  assumes "i + length ys \<le> length xs" and "j + n \<le> length xs"
    and "j + n \<le> i \<or> i + length ys \<le> j"
  shows "part (put_part xs i ys) j n = part xs j n"
  by (rule part_eqI) (use assms in \<open>auto simp: length_put_part nth_put_part\<close>)

lemma put_part_part [simp]: "i + n \<le> length xs \<Longrightarrow> put_part xs i (part xs i n) = xs"
  by (simp add: put_part_def part_def min_def)
    (metis add.commute append_take_drop_id drop_drop)

subsection \<open>Big-endian numbers\<close>

text \<open>
  \<open>binary.BigEndian.UintN\<close> reads the first \<open>N div 8\<close> bytes, most significant first, and
  \<open>PutUintN\<close> writes them. Both are functions of the number, so one pair serves all widths.
\<close>

definition be_val :: "bytes \<Rightarrow> int" where
  "be_val bs = foldl (\<lambda>acc b. acc * 256 + uint b) 0 bs"

fun be_bytes :: "nat \<Rightarrow> int \<Rightarrow> bytes" where
  "be_bytes 0 n = []"
| "be_bytes (Suc k) n = be_bytes k (n div 256) @ [word_of_int (n mod 256)]"

lemma length_be_bytes [simp]: "length (be_bytes k n) = k"
  by (induction k arbitrary: n) auto

lemma be_val_snoc [codec_simps]: "be_val (bs @ [b]) = be_val bs * 256 + uint b"
  by (simp add: be_val_def)

lemma be_val_Nil [codec_simps]: "be_val [] = 0"
  by (simp add: be_val_def)

lemma uint_byte [codec_simps]: "uint (word_of_int (n mod 256) :: byte) = n mod 256"
  by (simp add: uint_word_of_int)

lemma be_val_be_bytes [codec_simps]: "be_val (be_bytes k n) = n mod 256 ^ k"
proof (induction k arbitrary: n)
  case 0
  show ?case by (simp add: codec_simps)
next
  case (Suc k)
  have "n mod (256 * 256 ^ k) = 256 * (n div 256 mod 256 ^ k) + n mod 256"
    by (rule zmod_zmult2_eq) simp
  then show ?case by (simp add: codec_simps Suc)
qed

lemma be_val_nonneg [simp]: "0 \<le> be_val bs"
  by (induction bs rule: rev_induct) (simp_all add: codec_simps)

lemma be_val_less: "be_val bs < 256 ^ length bs"
proof (induction bs rule: rev_induct)
  case Nil
  show ?case by (simp add: codec_simps)
next
  case (snoc b bs)
  have "be_val bs + 1 \<le> 256 ^ length bs" using snoc by simp
  then have "(be_val bs + 1) * 256 \<le> 256 ^ length bs * 256" by (rule mult_right_mono) simp
  then show ?case using uint_byte_bound [of b] by (simp add: codec_simps del: uint_byte_bound)
qed

lemma be_bytes_be_val: "length bs = k \<Longrightarrow> be_bytes k (be_val bs) = bs"
proof (induction bs arbitrary: k rule: rev_induct)
  case Nil
  then show ?case by simp
next
  case (snoc b bs)
  have b: "0 \<le> uint b" "uint b < 256" by simp_all
  from snoc.prems obtain k' where k: "k = Suc k'" "length bs = k'" by auto
  have "(be_val bs * 256 + uint b) div 256 = be_val bs" using b by simp
  moreover have "(be_val bs * 256 + uint b) mod 256 = uint b" using b by simp
  ultimately show ?case using snoc.IH [OF k(2)] k by (simp add: codec_simps)
qed

text \<open>The four widths of the code. A read of too short a slice panics, as the index does.\<close>

definition BE_Uint16 :: "bytes \<Rightarrow> u16" where
  "BE_Uint16 bs = word_of_int (be_val (take 2 bs))"

definition BE_Uint32 :: "bytes \<Rightarrow> u32" where
  "BE_Uint32 bs = word_of_int (be_val (take 4 bs))"

definition BE_Uint64 :: "bytes \<Rightarrow> u64" where
  "BE_Uint64 bs = word_of_int (be_val (take 8 bs))"

definition BE_PutUint16 :: "u16 \<Rightarrow> bytes" where
  "BE_PutUint16 w = be_bytes 2 (uint w)"

definition BE_PutUint32 :: "u32 \<Rightarrow> bytes" where
  "BE_PutUint32 w = be_bytes 4 (uint w)"

definition BE_PutUint64 :: "u64 \<Rightarrow> bytes" where
  "BE_PutUint64 w = be_bytes 8 (uint w)"

lemma length_BE_Put [simp]:
  "length (BE_PutUint16 w) = 2" "length (BE_PutUint32 d) = 4" "length (BE_PutUint64 q) = 8"
  by (simp_all add: BE_PutUint16_def BE_PutUint32_def BE_PutUint64_def)

lemma BE_get_put [codec_simps]:
  "BE_Uint16 (BE_PutUint16 w) = w" "BE_Uint32 (BE_PutUint32 d) = d" "BE_Uint64 (BE_PutUint64 q) = q"
  using uint_bound [of w] uint_bound [of d] uint_bound [of q]
  by (simp_all add: BE_Uint16_def BE_PutUint16_def BE_Uint32_def BE_PutUint32_def
      BE_Uint64_def BE_PutUint64_def be_val_be_bytes)

end
