(* ===== verification/GoFloat.thy ===== *)
theory GoFloat
  imports Prelude
begin

text \<open>
  Go's \<open>float64\<close> and \<open>float32\<close>: IEEE 754 binary formats with rounding to nearest, ties to
  even, computed on integers. A float is kept as its bit pattern (\<open>f64\<close>, \<open>f32\<close>), so
  \<open>math.Float64frombits\<close> and \<open>math.Float64bits\<close> are the identity; arithmetic decodes the
  operands, computes the exact result as a fraction and rounds it once. The payload of a
  computed NaN is not specified by Go; the pattern of \<open>math.NaN()\<close> is used. A conversion to
  an integer type that cannot hold the value is implementation-dependent in Go, so it is a
  parameter (\<open>oor\<close>) of the conversions.
\<close>

type_synonym f64 = "64 word"
type_synonym f32 = "32 word"

text \<open>A decoded float: sign, mantissa and exponent stand for \<open>(-1)^s * m * 2^e\<close>.\<close>

datatype fp = NaN | Inf bool | Fin bool int int

record float_format =
  frac_bits :: nat
  exp_bits :: nat

definition F64 :: float_format where
  "F64 = \<lparr>frac_bits = 52, exp_bits = 11\<rparr>"

definition F32 :: float_format where
  "F32 = \<lparr>frac_bits = 23, exp_bits = 8\<rparr>"

definition emin :: "float_format \<Rightarrow> int" where
  "emin F = 2 - 2 ^ (exp_bits F - 1) - int (frac_bits F)"

definition emax :: "float_format \<Rightarrow> int" where
  "emax F = 2 ^ (exp_bits F - 1) - 1 - int (frac_bits F)"

lemma format_simps [simp]:
  "frac_bits F64 = 52" "exp_bits F64 = 11" "emin F64 = -1074" "emax F64 = 971"
  "frac_bits F32 = 23" "exp_bits F32 = 8" "emin F32 = -149" "emax F32 = 104"
  by (simp_all add: F64_def F32_def emin_def emax_def)

subsection \<open>Bit patterns\<close>

definition decode_int :: "float_format \<Rightarrow> int \<Rightarrow> fp" where
  "decode_int F n =
     (let fb = frac_bits F; eb = exp_bits F;
          s = (n div 2 ^ (fb + eb)) mod 2 = 1;
          e = (n div 2 ^ fb) mod 2 ^ eb;
          f = n mod 2 ^ fb
      in if e = 2 ^ eb - 1 then (if f = 0 then Inf s else NaN)
         else if e = 0 then Fin s f (emin F)
         else Fin s (f + 2 ^ fb) (emin F + e - 1))"

fun encode_int :: "float_format \<Rightarrow> fp \<Rightarrow> int" where
  "encode_int F NaN = (2 ^ exp_bits F - 1) * 2 ^ frac_bits F + 2 ^ (frac_bits F - 1) + 1"
| "encode_int F (Inf s) =
     (if s then 2 ^ (frac_bits F + exp_bits F) else 0) + (2 ^ exp_bits F - 1) * 2 ^ frac_bits F"
| "encode_int F (Fin s m e) =
     (if s then 2 ^ (frac_bits F + exp_bits F) else 0) +
     (if m < 2 ^ frac_bits F then m else (e - emin F + 1) * 2 ^ frac_bits F + (m - 2 ^ frac_bits F))"

definition decode64 :: "f64 \<Rightarrow> fp" where
  "decode64 w = decode_int F64 (uint w)"

definition encode64 :: "fp \<Rightarrow> f64" where
  "encode64 x = word_of_int (encode_int F64 x)"

definition decode32 :: "f32 \<Rightarrow> fp" where
  "decode32 w = decode_int F32 (uint w)"

definition encode32 :: "fp \<Rightarrow> f32" where
  "encode32 x = word_of_int (encode_int F32 x)"

subsection \<open>Rounding\<close>

function bitlen :: "int \<Rightarrow> int" where
  "bitlen n = (if n \<le> 0 then 0 else 1 + bitlen (n div 2))"
  by pat_completeness auto
termination
  by (relation "measure nat") auto

declare bitlen.simps [simp del]

text \<open>The fraction \<open>num / den\<close> divided by \<open>2 ^ e\<close>, again as a fraction.\<close>

definition scaled :: "int \<Rightarrow> int \<Rightarrow> int \<Rightarrow> int \<times> int" where
  "scaled num den e =
     (if 0 \<le> e then (num, den * 2 ^ nat e) else (num * 2 ^ nat (- e), den))"

definition quot :: "int \<times> int \<Rightarrow> int" where
  "quot q = fst q div snd q"

text \<open>
  Round \<open>num / den\<close> to the format: the exponent is the one that leaves
  \<open>frac_bits + 1\<close> significant bits (or the least one), the quotient is rounded to nearest
  with ties to even, and a result past the largest exponent is an infinity.
\<close>

definition round_even :: "int \<times> int \<Rightarrow> int" where
  "round_even q =
     (let m = fst q div snd q; r = fst q mod snd q
      in if snd q < 2 * r \<or> (2 * r = snd q \<and> odd m) then m + 1 else m)"

definition rnd :: "float_format \<Rightarrow> bool \<Rightarrow> int \<Rightarrow> int \<Rightarrow> fp" where
  "rnd F s num den =
     (if num = 0 then Fin s 0 (emin F)
      else
        (let p = Suc (frac_bits F);
             e0 = max (emin F) (bitlen num - bitlen den - int p);
             e1 = (if quot (scaled num den e0) < 2 ^ p then e0 else e0 + 1);
             m = round_even (scaled num den e1);
             me = (if m = 2 ^ p then (2 ^ (p - 1), e1 + 1) else (m, e1))
         in if emax F < snd me then Inf s else Fin s (fst me) (snd me)))"

subsection \<open>Arithmetic\<close>

definition frac_of :: "int \<Rightarrow> int \<Rightarrow> int \<times> int" where
  "frac_of m e = (if 0 \<le> e then (m * 2 ^ nat e, 1) else (m, 2 ^ nat (- e)))"

fun fp_neg :: "fp \<Rightarrow> fp" where
  "fp_neg NaN = NaN"
| "fp_neg (Inf s) = Inf (\<not> s)"
| "fp_neg (Fin s m e) = Fin (\<not> s) m e"

fun fp_mul :: "float_format \<Rightarrow> fp \<Rightarrow> fp \<Rightarrow> fp" where
  "fp_mul F NaN _ = NaN"
| "fp_mul F _ NaN = NaN"
| "fp_mul F (Inf s) (Inf t) = Inf (s \<noteq> t)"
| "fp_mul F (Inf s) (Fin t m e) = (if m = 0 then NaN else Inf (s \<noteq> t))"
| "fp_mul F (Fin s m e) (Inf t) = (if m = 0 then NaN else Inf (s \<noteq> t))"
| "fp_mul F (Fin s m e) (Fin t n d) =
     (let q = frac_of (m * n) (e + d) in rnd F (s \<noteq> t) (fst q) (snd q))"

definition signed_mant :: "bool \<Rightarrow> int \<Rightarrow> int" where
  "signed_mant s m = (if s then - m else m)"

fun fp_add :: "float_format \<Rightarrow> fp \<Rightarrow> fp \<Rightarrow> fp" where
  "fp_add F NaN _ = NaN"
| "fp_add F _ NaN = NaN"
| "fp_add F (Inf s) (Inf t) = (if s = t then Inf s else NaN)"
| "fp_add F (Inf s) (Fin _ _ _) = Inf s"
| "fp_add F (Fin _ _ _) (Inf t) = Inf t"
| "fp_add F (Fin s m e) (Fin t n d) =
     (let k = min e d;
          a = signed_mant s (m * 2 ^ nat (e - k)) + signed_mant t (n * 2 ^ nat (d - k));
          q = frac_of \<bar>a\<bar> k
      in if a = 0 then Fin (s \<and> t) 0 (emin F) else rnd F (a < 0) (fst q) (snd q))"

definition fp_sub :: "float_format \<Rightarrow> fp \<Rightarrow> fp \<Rightarrow> fp" where
  "fp_sub F x y = fp_add F x (fp_neg y)"

fun fp_div :: "float_format \<Rightarrow> fp \<Rightarrow> fp \<Rightarrow> fp" where
  "fp_div F NaN _ = NaN"
| "fp_div F _ NaN = NaN"
| "fp_div F (Inf _) (Inf _) = NaN"
| "fp_div F (Inf s) (Fin t _ _) = Inf (s \<noteq> t)"
| "fp_div F (Fin s _ _) (Inf t) = Fin (s \<noteq> t) 0 (emin F)"
| "fp_div F (Fin s m e) (Fin t n d) =
     (if n = 0 then (if m = 0 then NaN else Inf (s \<noteq> t))
      else (let q = frac_of m (e - d) in rnd F (s \<noteq> t) (fst q) (snd q * n)))"

text \<open>Comparison of the exact values; a comparison with a NaN is false.\<close>

fun fp_lt :: "fp \<Rightarrow> fp \<Rightarrow> bool" where
  "fp_lt NaN _ = False"
| "fp_lt _ NaN = False"
| "fp_lt (Inf s) (Inf t) = (s \<and> \<not> t)"
| "fp_lt (Inf s) (Fin _ _ _) = s"
| "fp_lt (Fin _ _ _) (Inf t) = (\<not> t)"
| "fp_lt (Fin s m e) (Fin t n d) =
     (let k = min e d
      in signed_mant s (m * 2 ^ nat (e - k)) < signed_mant t (n * 2 ^ nat (d - k)))"

fun fp_eq :: "fp \<Rightarrow> fp \<Rightarrow> bool" where
  "fp_eq NaN _ = False"
| "fp_eq _ NaN = False"
| "fp_eq (Inf s) (Inf t) = (s = t)"
| "fp_eq (Inf s) (Fin _ _ _) = False"
| "fp_eq (Fin _ _ _) (Inf t) = False"
| "fp_eq (Fin s m e) (Fin t n d) =
     (let k = min e d
      in signed_mant s (m * 2 ^ nat (e - k)) = signed_mant t (n * 2 ^ nat (d - k)))"

text \<open>Conversions from and to integers; \<open>fp_trunc\<close> drops the fraction, as Go does.\<close>

definition fp_of_int :: "float_format \<Rightarrow> int \<Rightarrow> fp" where
  "fp_of_int F i = rnd F (i < 0) \<bar>i\<bar> 1"

fun fp_trunc :: "fp \<Rightarrow> int option" where
  "fp_trunc NaN = None"
| "fp_trunc (Inf _) = None"
| "fp_trunc (Fin s m e) =
     Some (if 0 \<le> e then signed_mant s (m * 2 ^ nat e) else signed_mant s (m div 2 ^ nat (- e)))"

fun fp_round_to :: "float_format \<Rightarrow> fp \<Rightarrow> fp" where
  "fp_round_to F NaN = NaN"
| "fp_round_to F (Inf s) = Inf s"
| "fp_round_to F (Fin s m e) = (let q = frac_of m e in rnd F s (fst q) (snd q))"

subsection \<open>The operations on bit patterns\<close>

definition f64_mul :: "f64 \<Rightarrow> f64 \<Rightarrow> f64" where
  "f64_mul a b = encode64 (fp_mul F64 (decode64 a) (decode64 b))"

definition f64_add :: "f64 \<Rightarrow> f64 \<Rightarrow> f64" where
  "f64_add a b = encode64 (fp_add F64 (decode64 a) (decode64 b))"

definition f64_sub :: "f64 \<Rightarrow> f64 \<Rightarrow> f64" where
  "f64_sub a b = encode64 (fp_sub F64 (decode64 a) (decode64 b))"

definition f64_div :: "f64 \<Rightarrow> f64 \<Rightarrow> f64" where
  "f64_div a b = encode64 (fp_div F64 (decode64 a) (decode64 b))"

definition f64_eq :: "f64 \<Rightarrow> f64 \<Rightarrow> bool" where
  "f64_eq a b = fp_eq (decode64 a) (decode64 b)"

definition f64_lt :: "f64 \<Rightarrow> f64 \<Rightarrow> bool" where
  "f64_lt a b = fp_lt (decode64 a) (decode64 b)"

definition f64_ge :: "f64 \<Rightarrow> f64 \<Rightarrow> bool" where
  "f64_ge a b = (fp_lt (decode64 b) (decode64 a) \<or> fp_eq (decode64 a) (decode64 b))"

definition f64_of_int :: "int \<Rightarrow> f64" where
  "f64_of_int i = encode64 (fp_of_int F64 i)"

definition f64_of_f32 :: "f32 \<Rightarrow> f64" where
  "f64_of_f32 x = encode64 (fp_round_to F64 (decode32 x))"

definition f32_of_f64 :: "f64 \<Rightarrow> f32" where
  "f32_of_f64 x = encode32 (fp_round_to F32 (decode64 x))"

definition f32_nonzero :: "f32 \<Rightarrow> bool" where
  "f32_nonzero x = (\<not> fp_eq (decode32 x) (Fin False 0 0))"

definition f64_nonzero :: "f64 \<Rightarrow> bool" where
  "f64_nonzero x = (\<not> fp_eq (decode64 x) (Fin False 0 0))"

definition fp_to_i64 :: "(fp \<Rightarrow> u64) \<Rightarrow> fp \<Rightarrow> u64" where
  "fp_to_i64 oor x =
     (case fp_trunc x of
        None \<Rightarrow> oor x
      | Some i \<Rightarrow> if - (2 ^ 63) \<le> i \<and> i < 2 ^ 63 then word_of_int i else oor x)"

definition fp_to_u64 :: "(fp \<Rightarrow> u64) \<Rightarrow> fp \<Rightarrow> u64" where
  "fp_to_u64 oor x =
     (case fp_trunc x of
        None \<Rightarrow> oor x
      | Some i \<Rightarrow> if 0 \<le> i \<and> i < 2 ^ 64 then word_of_int i else oor x)"

subsection \<open>Bit patterns round-trip\<close>

text \<open>The floats a bit pattern decodes to: subnormal or with a full mantissa.\<close>

definition canonical :: "float_format \<Rightarrow> int \<Rightarrow> int \<Rightarrow> bool" where
  "canonical F m e =
     ((0 \<le> m \<and> m < 2 ^ frac_bits F \<and> e = emin F) \<or>
      (2 ^ frac_bits F \<le> m \<and> m < 2 * 2 ^ frac_bits F \<and> emin F \<le> e \<and> e \<le> emax F))"

lemma bit_fields:
  fixes f E S :: int
  assumes "0 \<le> f" "f < 2 ^ b" "0 \<le> E" "E < 2 ^ k" "0 \<le> S" "S < 2"
    and x: "x = S * 2 ^ (b + k) + E * 2 ^ b + f"
  shows "x mod 2 ^ b = f" and "(x div 2 ^ b) mod 2 ^ k = E" and "(x div 2 ^ (b + k)) mod 2 = S"
    and "0 \<le> x" and "x < 2 * 2 ^ (b + k)"
proof -
  have x': "x = f + (E + S * 2 ^ k) * 2 ^ b"
    by (simp add: x algebra_simps power_add)
  show "x mod 2 ^ b = f" using assms(1,2) by (simp add: x')
  have d: "x div 2 ^ b = E + S * 2 ^ k" using assms(1,2) by (simp add: x')
  show "(x div 2 ^ b) mod 2 ^ k = E" using assms(3,4) by (simp add: d)
  have d2: "x div 2 ^ (b + k) = S"
    using assms(3,4) by (simp add: power_add zdiv_zmult2_eq d)
  then show "(x div 2 ^ (b + k)) mod 2 = S" using assms(5,6) by simp
  show "0 \<le> x" using assms by (simp add: x)
  have "x = S * 2 ^ (b + k) + x mod 2 ^ (b + k)"
    using d2 by (metis div_mult_mod_eq)
  moreover have "x mod 2 ^ (b + k) < 2 ^ (b + k)" by simp
  moreover have "S * 2 ^ (b + k) \<le> 1 * 2 ^ (b + k)"
    using assms(6) by (intro mult_right_mono) auto
  ultimately show "x < 2 * 2 ^ (b + k)" by linarith
qed

lemma decode_encode_int:
  fixes s :: bool
  assumes "canonical F m e" and "0 < exp_bits F"
  defines "x \<equiv> encode_int F (Fin s m e)"
  shows "decode_int F x = Fin s m e" and "0 \<le> x" and "x < 2 * 2 ^ (frac_bits F + exp_bits F)"
proof -
  let ?b = "frac_bits F" and ?k = "exp_bits F"
  define E where "E = (if m < 2 ^ ?b then 0 else e - emin F + 1)"
  define f where "f = (if m < 2 ^ ?b then m else m - 2 ^ ?b)"
  have two: "(2::int) ^ ?k = 2 * 2 ^ (?k - 1)"
    using assms(2) by (metis Suc_diff_1 power_Suc)
  have "(1::int) \<le> 2 ^ (?k - Suc 0)" by simp
  then have pos: "(1::int) < 2 * 2 ^ (?k - Suc 0)" by linarith
  have E: "0 \<le> E" "E < 2 ^ ?k - 1"
    using assms(1) two unfolding E_def canonical_def emin_def emax_def One_nat_def
    by (auto simp: pos)
  have f: "0 \<le> f" "f < 2 ^ ?b"
    using assms(1) by (auto simp: f_def canonical_def)
  have x: "x = of_bool s * 2 ^ (?b + ?k) + E * 2 ^ ?b + f"
    by (simp add: x_def E_def f_def)
  have E': "E < 2 ^ ?k" using E by simp
  note fields = bit_fields [OF f E(1) E' _ _ x]
  show "decode_int F x = Fin s m e"
    using fields(1-3) E f assms(1)
    by (auto simp: decode_int_def Let_def canonical_def E_def f_def split: if_splits)
  show "0 \<le> x" and "x < 2 * 2 ^ (?b + ?k)" using fields(4,5) by simp_all
qed

lemma decode64_encode64: "canonical F64 m e \<Longrightarrow> decode64 (encode64 (Fin s m e)) = Fin s m e"
  using decode_encode_int [of F64 m e s]
  by (simp add: decode64_def encode64_def uint_word_of_int del: encode_int.simps)

lemma decode32_encode32: "canonical F32 m e \<Longrightarrow> decode32 (encode32 (Fin s m e)) = Fin s m e"
  using decode_encode_int [of F32 m e s]
  by (simp add: decode32_def encode32_def uint_word_of_int del: encode_int.simps)

subsection \<open>Integers up to 53 bits are exact\<close>

lemma bitlen_bounds: "0 < n \<Longrightarrow> 2 ^ nat (bitlen n - 1) \<le> n \<and> n < 2 ^ nat (bitlen n) \<and> 0 < bitlen n"
proof (induction n rule: bitlen.induct)
  case (1 n)
  show ?case
  proof (cases "n = 1")
    case True
    then show ?thesis by (simp add: bitlen.simps [of 1] bitlen.simps [of 0])
  next
    case False
    with 1 have IH: "2 ^ nat (bitlen (n div 2) - 1) \<le> n div 2" "n div 2 < 2 ^ nat (bitlen (n div 2))"
      "0 < bitlen (n div 2)" by auto
    have b: "bitlen n = bitlen (n div 2) + 1" using 1 by (subst bitlen.simps) simp
    have "nat (bitlen n) = Suc (nat (bitlen (n div 2)))"
      "nat (bitlen n - 1) = Suc (nat (bitlen (n div 2) - 1))"
      using IH(3) b by auto
    then have p: "2 ^ nat (bitlen n) = 2 * (2::int) ^ nat (bitlen (n div 2))"
      "2 ^ nat (bitlen n - 1) = 2 * (2::int) ^ nat (bitlen (n div 2) - 1)"
      by simp_all
    have half: "2 * a \<le> n \<and> n < 2 * c" if "a \<le> n div 2" "n div 2 < c" for a c
      using that by presburger
    show ?thesis using half [OF IH(1,2)] IH(3) b p by simp
  qed
qed

lemma bitlen_le: "0 < n \<Longrightarrow> n < 2 ^ k \<Longrightarrow> bitlen n \<le> int k"
proof (rule ccontr)
  assume n: "0 < n" "n < 2 ^ k" and "\<not> bitlen n \<le> int k"
  then have "k \<le> nat (bitlen n - 1)" by simp
  then have "(2::int) ^ k \<le> 2 ^ nat (bitlen n - 1)" by (rule power_increasing) simp
  with bitlen_bounds [OF n(1)] n(2) show False by simp
qed

lemma scaled_neg: "e \<le> 0 \<Longrightarrow> scaled num 1 e = (num * 2 ^ nat (- e), 1)"
  by (cases "e = 0") (simp_all add: scaled_def)

text \<open>A positive integer below \<open>2^53\<close> is represented exactly.\<close>

lemma rnd_int_exact:
  assumes n: "0 < n" "n < 2 ^ 53"
  defines "e \<equiv> bitlen n - 54"
  defines "e' \<equiv> (if n * 2 ^ nat (- e) < 2 ^ 53 then e else e + 1)"
  shows "rnd F64 s n 1 = Fin s (n * 2 ^ nat (- e')) e'" and "canonical F64 (n * 2 ^ nat (- e')) e'"
    and "e' \<le> 0"
proof -
  have l: "0 < bitlen n" "bitlen n \<le> 53" "2 ^ nat (bitlen n - 1) \<le> n" "n < 2 ^ nat (bitlen n)"
    using bitlen_bounds [OF n(1)] bitlen_le [of n 53] n by auto
  have one: "bitlen 1 = 1" by (simp add: bitlen.simps [of 1] bitlen.simps [of 0])
  have e0: "max (emin F64) (bitlen n - bitlen 1 - int (Suc (frac_bits F64))) = e"
    using l(1) by (simp add: one e_def)
  have e_neg: "e < 0" using l(2) by (simp add: e_def)
  show e'_neg: "e' \<le> 0" using e_neg by (simp add: e'_def)
  have ne: "nat (- e) = 54 - nat (bitlen n)" using l(1,2) by (simp add: e_def nat_diff_distrib)
  have up: "n * 2 ^ nat (- e) < 2 ^ 54"
  proof -
    have "n * 2 ^ nat (- e) < 2 ^ nat (bitlen n) * 2 ^ nat (- e)"
      using l(4) by (rule mult_strict_right_mono) simp
    also have "\<dots> = 2 ^ 54" using l(1,2) by (simp add: ne flip: power_add)
    finally show ?thesis .
  qed
  have low: "2 ^ 53 \<le> n * 2 ^ nat (- e)"
  proof -
    have "2 ^ nat (bitlen n - 1) * 2 ^ nat (- e) \<le> n * 2 ^ nat (- e)"
      using l(3) by (rule mult_right_mono) simp
    moreover have "(2::int) ^ nat (bitlen n - 1) * 2 ^ nat (- e) = 2 ^ 53"
      using l(1,2) by (simp add: ne nat_diff_distrib flip: power_add)
    ultimately show ?thesis by simp
  qed
  have e1: "e' = e + 1" using low by (simp add: e'_def)
  have half: "n * 2 ^ nat (- e) = 2 * (n * 2 ^ nat (- e'))"
  proof -
    have "nat (- e) = Suc (nat (- e'))" using e_neg by (simp add: e1)
    then show ?thesis by simp
  qed
  have m: "2 ^ 52 \<le> n * 2 ^ nat (- e')" "n * 2 ^ nat (- e') < 2 ^ 53"
    using up low half by simp_all
  show can: "canonical F64 (n * 2 ^ nat (- e')) e'"
    using m e_neg l(1) by (simp add: canonical_def e1 e_def)
  show "rnd F64 s n 1 = Fin s (n * 2 ^ nat (- e')) e'"
    using n(1) m e'_neg e_neg low unfolding rnd_def Let_def e0
    by (simp add: scaled_neg quot_def round_even_def e1)
qed

lemma fp_trunc_of_int: "\<bar>i\<bar> < 2 ^ 53 \<Longrightarrow> fp_trunc (decode64 (f64_of_int i)) = Some i"
proof (cases "i = 0")
  case True
  then show ?thesis
    by (simp add: f64_of_int_def fp_of_int_def rnd_def decode64_encode64 canonical_def signed_mant_def)
next
  case False
  assume "\<bar>i\<bar> < 2 ^ 53"
  with False have n: "0 < \<bar>i\<bar>" "\<bar>i\<bar> < 2 ^ 53" by simp_all
  note ex = rnd_int_exact [OF n]
  show ?thesis
    unfolding f64_of_int_def fp_of_int_def ex(1) decode64_encode64 [OF ex(2)]
    using ex(3) False by (auto simp: signed_mant_def)
qed

text \<open>The constants the code compares with.\<close>

definition f64_one :: f64 where
  "f64_one = 0x3FF0000000000000"

definition f64_zero :: f64 where
  "f64_zero = 0"

end
