(* ===== verification/GoErrors.thy ===== *)
theory GoErrors
  imports Prelude "HOL-Library.Sublist"
begin

text \<open>
  The gateway's errors: the sentinel values of \<open>internal/domain/errors.go\<close>, one datatype
  per \<open>var\<close> group of that file, and the values of Go's \<open>error\<close> interface the gateway
  builds from them. An error that comes out of a library (the network stack, a protocol
  library, a context) is kept as the three things the gateway asks of it: whether it
  implements \<open>net.Error\<close> and then what \<open>Timeout()\<close> says, whether it is or wraps
  \<open>io.EOF\<close> or \<open>io.ErrUnexpectedEOF\<close>, and its text.
\<close>

datatype device_error = ErrDeviceIDRequired | ErrDeviceNameRequired | ErrProtocolRequired
  | ErrNoTagsDefined | ErrPollIntervalTooShort | ErrUNSPrefixRequired

datatype conn_error = ErrConnectionFailed | ErrConnectionTimeout | ErrConnectionClosed
  | ErrConnectionReset | ErrMaxRetriesExceeded | ErrCircuitBreakerOpen | ErrPoolExhausted
  | ErrInvalidSlaveID

datatype rw_error = ErrReadFailed | ErrWriteFailed | ErrInvalidAddress | ErrInvalidDataLength
  | ErrInvalidDataType | ErrInvalidRegisterType

datatype modbus_error = ErrModbusIllegalFunction | ErrModbusIllegalAddress | ErrModbusIllegalValue
  | ErrModbusDeviceFailure | ErrModbusAcknowledge | ErrModbusBusy | ErrModbusNegativeAck
  | ErrModbusMemoryParityError | ErrModbusGatewayPathUnavailable | ErrModbusGatewayTargetFailed
  | ErrModbusProtocolLimit | ErrInvalidRegisterCount

datatype mqtt_error = ErrMQTTConnectionFailed | ErrMQTTPublishFailed | ErrMQTTNotConnected
  | ErrMQTTSubscribeFailed

datatype opcua_error = ErrOPCUAInvalidNodeID | ErrOPCUASubscriptionFailed | ErrOPCUABadStatus
  | ErrOPCUASecurityFailed | ErrOPCUASessionExpired | ErrOPCUABrowseFailed | ErrOPCUANodeNotFound
  | ErrOPCUAAccessDenied | ErrOPCUAWriteNotPermitted

datatype s7_error = ErrS7ConnectionFailed | ErrS7InvalidAddress | ErrS7InvalidDBNumber
  | ErrS7InvalidArea | ErrS7InvalidOffset | ErrS7ReadFailed | ErrS7WriteFailed | ErrS7CPUError
  | ErrS7PDUSizeMismatch | ErrS7ItemNotAvailable | ErrS7AddressOutOfRange
  | ErrS7WriteDataSizeMismatch | ErrS7ObjectNotExist | ErrS7HardwareFault
  | ErrS7AccessingNotAllowed

datatype write_error = ErrTagNotWritable | ErrInvalidWriteValue | ErrWriteTimeout

datatype service_error = ErrServiceNotStarted | ErrServiceStopped | ErrServiceOverloaded
  | ErrDeviceNotFound | ErrDeviceExists | ErrTagNotFound | ErrInvalidConfig
  | ErrProtocolNotSupported

datatype sentinel = DeviceE device_error | ConnE conn_error | RWE rw_error | ModbusE modbus_error
  | MqttE mqtt_error | OpcuaE opcua_error | S7E s7_error | WriteE write_error | ServiceE service_error

primrec device_text :: "device_error \<Rightarrow> string" where
  "device_text ErrDeviceIDRequired = ''device ID is required''"
| "device_text ErrDeviceNameRequired = ''device name is required''"
| "device_text ErrProtocolRequired = ''protocol is required''"
| "device_text ErrNoTagsDefined = ''at least one tag must be defined''"
| "device_text ErrPollIntervalTooShort = ''poll interval must be at least 100ms''"
| "device_text ErrUNSPrefixRequired = ''UNS prefix is required''"

primrec conn_text :: "conn_error \<Rightarrow> string" where
  "conn_text ErrConnectionFailed = ''connection failed''"
| "conn_text ErrConnectionTimeout = ''connection timeout''"
| "conn_text ErrConnectionClosed = ''connection closed''"
| "conn_text ErrConnectionReset = ''connection reset by peer''"
| "conn_text ErrMaxRetriesExceeded = ''maximum retry attempts exceeded''"
| "conn_text ErrCircuitBreakerOpen = ''circuit breaker is open''"
| "conn_text ErrPoolExhausted = ''connection pool exhausted''"
| "conn_text ErrInvalidSlaveID = ''invalid slave ID''"

primrec rw_text :: "rw_error \<Rightarrow> string" where
  "rw_text ErrReadFailed = ''read operation failed''"
| "rw_text ErrWriteFailed = ''write operation failed''"
| "rw_text ErrInvalidAddress = ''invalid register address''"
| "rw_text ErrInvalidDataLength = ''invalid data length''"
| "rw_text ErrInvalidDataType = ''invalid data type''"
| "rw_text ErrInvalidRegisterType = ''invalid register type''"

primrec modbus_text :: "modbus_error \<Rightarrow> string" where
  "modbus_text ErrModbusIllegalFunction = ''modbus: illegal function''"
| "modbus_text ErrModbusIllegalAddress = ''modbus: illegal data address''"
| "modbus_text ErrModbusIllegalValue = ''modbus: illegal data value''"
| "modbus_text ErrModbusDeviceFailure = ''modbus: slave device failure''"
| "modbus_text ErrModbusAcknowledge = ''modbus: acknowledge - long operation in progress''"
| "modbus_text ErrModbusBusy = ''modbus: slave device busy''"
| "modbus_text ErrModbusNegativeAck = ''modbus: negative acknowledge''"
| "modbus_text ErrModbusMemoryParityError = ''modbus: memory parity error''"
| "modbus_text ErrModbusGatewayPathUnavailable = ''modbus: gateway path unavailable''"
| "modbus_text ErrModbusGatewayTargetFailed = ''modbus: gateway target device failed to respond''"
| "modbus_text ErrModbusProtocolLimit = ''modbus: protocol limit exceeded''"
| "modbus_text ErrInvalidRegisterCount = ''modbus: invalid register count''"

primrec mqtt_text :: "mqtt_error \<Rightarrow> string" where
  "mqtt_text ErrMQTTConnectionFailed = ''MQTT connection failed''"
| "mqtt_text ErrMQTTPublishFailed = ''MQTT publish failed''"
| "mqtt_text ErrMQTTNotConnected = ''MQTT client not connected''"
| "mqtt_text ErrMQTTSubscribeFailed = ''MQTT subscribe failed''"

primrec opcua_text :: "opcua_error \<Rightarrow> string" where
  "opcua_text ErrOPCUAInvalidNodeID = ''opcua: invalid node ID''"
| "opcua_text ErrOPCUASubscriptionFailed = ''opcua: subscription failed''"
| "opcua_text ErrOPCUABadStatus = ''opcua: bad status code''"
| "opcua_text ErrOPCUASecurityFailed = ''opcua: security negotiation failed''"
| "opcua_text ErrOPCUASessionExpired = ''opcua: session expired''"
| "opcua_text ErrOPCUABrowseFailed = ''opcua: browse failed''"
| "opcua_text ErrOPCUANodeNotFound = ''opcua: node not found''"
| "opcua_text ErrOPCUAAccessDenied = ''opcua: access denied''"
| "opcua_text ErrOPCUAWriteNotPermitted = ''opcua: write not permitted''"

primrec s7_text :: "s7_error \<Rightarrow> string" where
  "s7_text ErrS7ConnectionFailed = ''s7: connection failed''"
| "s7_text ErrS7InvalidAddress = ''s7: invalid address format''"
| "s7_text ErrS7InvalidDBNumber = ''s7: invalid data block number''"
| "s7_text ErrS7InvalidArea = ''s7: invalid memory area''"
| "s7_text ErrS7InvalidOffset = ''s7: invalid offset''"
| "s7_text ErrS7ReadFailed = ''s7: read operation failed''"
| "s7_text ErrS7WriteFailed = ''s7: write operation failed''"
| "s7_text ErrS7CPUError = ''s7: CPU error''"
| "s7_text ErrS7PDUSizeMismatch = ''s7: PDU size mismatch''"
| "s7_text ErrS7ItemNotAvailable = ''s7: item not available''"
| "s7_text ErrS7AddressOutOfRange = ''s7: address out of range''"
| "s7_text ErrS7WriteDataSizeMismatch = ''s7: write data size mismatch''"
| "s7_text ErrS7ObjectNotExist = ''s7: object does not exist''"
| "s7_text ErrS7HardwareFault = ''s7: hardware fault''"
| "s7_text ErrS7AccessingNotAllowed = ''s7: accessing not allowed''"

primrec write_text :: "write_error \<Rightarrow> string" where
  "write_text ErrTagNotWritable = ''tag is not writable''"
| "write_text ErrInvalidWriteValue = ''invalid value for write operation''"
| "write_text ErrWriteTimeout = ''write operation timed out''"

primrec service_text :: "service_error \<Rightarrow> string" where
  "service_text ErrServiceNotStarted = ''service not started''"
| "service_text ErrServiceStopped = ''service has been stopped''"
| "service_text ErrServiceOverloaded = ''service overloaded - brownout mode active''"
| "service_text ErrDeviceNotFound = ''device not found''"
| "service_text ErrDeviceExists = ''device already exists''"
| "service_text ErrTagNotFound = ''tag not found''"
| "service_text ErrInvalidConfig = ''invalid configuration''"
| "service_text ErrProtocolNotSupported = ''protocol not supported''"

primrec sentinel_text :: "sentinel \<Rightarrow> string" where
  "sentinel_text (DeviceE e) = device_text e"
| "sentinel_text (ConnE e) = conn_text e"
| "sentinel_text (RWE e) = rw_text e"
| "sentinel_text (ModbusE e) = modbus_text e"
| "sentinel_text (MqttE e) = mqtt_text e"
| "sentinel_text (OpcuaE e) = opcua_text e"
| "sentinel_text (S7E e) = s7_text e"
| "sentinel_text (WriteE e) = write_text e"
| "sentinel_text (ServiceE e) = service_text e"

text \<open>\<open>ModbusExceptionToError\<close>: the exception code of a Modbus response.\<close>

definition ModbusExceptionToError :: "byte \<Rightarrow> sentinel" where
  "ModbusExceptionToError code =
     (if code = 0x01 then ModbusE ErrModbusIllegalFunction
      else if code = 0x02 then ModbusE ErrModbusIllegalAddress
      else if code = 0x03 then ModbusE ErrModbusIllegalValue
      else if code = 0x04 then ModbusE ErrModbusDeviceFailure
      else if code = 0x05 then ModbusE ErrModbusAcknowledge
      else if code = 0x06 then ModbusE ErrModbusBusy
      else if code = 0x07 then ModbusE ErrModbusNegativeAck
      else if code = 0x08 then ModbusE ErrModbusMemoryParityError
      else if code = 0x0A then ModbusE ErrModbusGatewayPathUnavailable
      else if code = 0x0B then ModbusE ErrModbusGatewayTargetFailed
      else RWE ErrReadFailed)"

subsection \<open>Values of the error interface\<close>

record lib_error =
  net_timeout :: "bool option"
  is_eof :: bool
  lib_text :: string

text \<open>
  \<open>WrapV s t\<close> is \<open>fmt.Errorf("%w: t", s)\<close>, whose text is the sentinel's followed by \<open>t\<close>
  and which unwraps to the sentinel only; \<open>WrapW t e\<close> is \<open>fmt.Errorf("t: %w", e)\<close>, which
  unwraps to \<open>e\<close>; \<open>Text t\<close> is \<open>fmt.Errorf\<close> without a verb that wraps.
\<close>

datatype gerror = Sentinel sentinel | Lib lib_error | Text string
  | WrapV sentinel string | WrapW string gerror

fun error_text :: "gerror \<Rightarrow> string" where
  "error_text (Sentinel s) = sentinel_text s"
| "error_text (Lib l) = lib_text l"
| "error_text (Text t) = t"
| "error_text (WrapV s t) = sentinel_text s @ '': '' @ t"
| "error_text (WrapW t e) = t @ '': '' @ error_text e"

text \<open>\<open>errors.Is(err, s)\<close> for a sentinel, and for the end-of-file errors of \<open>io\<close>.\<close>

fun errors_is :: "gerror \<Rightarrow> sentinel \<Rightarrow> bool" where
  "errors_is (Sentinel t) s = (t = s)"
| "errors_is (Lib _) s = False"
| "errors_is (Text _) s = False"
| "errors_is (WrapV t _) s = (t = s)"
| "errors_is (WrapW _ e) s = errors_is e s"

fun errors_is_eof :: "gerror \<Rightarrow> bool" where
  "errors_is_eof (Lib l) = is_eof l"
| "errors_is_eof (WrapW _ e) = errors_is_eof e"
| "errors_is_eof _ = False"

text \<open>The type assertion \<open>err.(net.Error)\<close>: only on the outermost value, never unwrapping.\<close>

fun as_net_error :: "gerror \<Rightarrow> bool option" where
  "as_net_error (Lib l) = net_timeout l"
| "as_net_error _ = None"

text \<open>
  The two errors a context ends with: \<open>context.DeadlineExceeded\<close> implements \<open>net.Error\<close>
  and reports a timeout, \<open>context.Canceled\<close> does not.
\<close>

definition ctx_deadline :: gerror where
  "ctx_deadline = Lib \<lparr>net_timeout = Some True, is_eof = False, lib_text = ''context deadline exceeded''\<rparr>"

definition ctx_canceled :: gerror where
  "ctx_canceled = Lib \<lparr>net_timeout = None, is_eof = False, lib_text = ''context canceled''\<rparr>"

subsection \<open>Classification in the Modbus client\<close>

text \<open>\<open>contains\<close>: whether \<open>s\<close> has one of the substrings, by comparing every window.\<close>

definition contains :: "string \<Rightarrow> string list \<Rightarrow> bool" where
  "contains s substrs =
     list_ex (\<lambda>sub. length sub \<le> length s \<and>
       list_ex (\<lambda>i. part s i (length sub) = sub) [0..<length s - length sub + 1]) substrs"

lemma contains_iff: "contains s substrs \<longleftrightarrow> (\<exists>sub\<in>set substrs. sublist sub s)"
proof -
  have "(length sub \<le> length s \<and> (\<exists>i\<in>set [0..<length s - length sub + 1]. part s i (length sub) = sub))
    \<longleftrightarrow> sublist sub s" for sub
  proof
    assume "length sub \<le> length s \<and> (\<exists>i\<in>set [0..<length s - length sub + 1]. part s i (length sub) = sub)"
    then show "sublist sub s"
      unfolding part_def by (metis sublist_drop sublist_take sublist_order.order_trans)
  next
    assume "sublist sub s"
    then obtain p q where s: "s = p @ sub @ q" by (auto simp: sublist_def)
    then have "part s (length p) (length sub) = sub" by (simp add: part_def)
    moreover have "length p \<in> set [0..<length s - length sub + 1]" using s by simp
    ultimately show "length sub \<le> length s \<and>
      (\<exists>i\<in>set [0..<length s - length sub + 1]. part s i (length sub) = sub)"
      using s by (intro conjI bexI [of _ "length p"]) simp_all
  qed
  then show ?thesis unfolding contains_def list_ex_iff by blast
qed

definition isTimeout :: "gerror \<Rightarrow> bool" where
  "isTimeout e = (case as_net_error e of Some t \<Rightarrow> t | None \<Rightarrow> False)"

definition isConnectionError :: "gerror \<Rightarrow> bool" where
  "isConnectionError e =
     (if as_net_error e \<noteq> None then True
      else if errors_is_eof e then True
      else contains (error_text e)
        [''connection reset'', ''broken pipe'', ''connection refused'', ''no route to host''])"

definition isRetryableError :: "gerror \<Rightarrow> bool" where
  "isRetryableError e = (isTimeout e \<or> isConnectionError e)"

text \<open>\<open>translateModbusError\<close> formats the library's error with \<open>%v\<close>, which does not wrap it.\<close>

definition translateModbusError :: "lib_error \<Rightarrow> gerror" where
  "translateModbusError l = WrapV (RWE ErrReadFailed) (lib_text l)"

lemma translate_not_net: "as_net_error (translateModbusError l) = None"
  by (simp add: translateModbusError_def)

lemma translate_not_eof: "\<not> errors_is_eof (translateModbusError l)"
  by (simp add: translateModbusError_def)

end
