(* ===== verification/GoValue.thy ===== *)
theory GoValue
  imports GoFloat
begin

text \<open>
  Values of type \<open>interface{}\<close> as they flow from the protocol decoders to the publishers and
  from commands to the encoders, one constructor per dynamic type (\<open>int\<close> and \<open>uint\<close> are
  64 bits wide on the platforms the services are built for), and the numeric conversion
  helpers of \<open>modbus/conversion.go\<close>. Go's pair \<open>(value, ok)\<close> is an option.
\<close>

datatype goval = VNil | VBool bool
  | VInt u64 | VInt8 byte | VInt16 u16 | VInt32 u32 | VInt64 u64
  | VUint u64 | VUint8 byte | VUint16 u16 | VUint32 u32 | VUint64 u64
  | VFloat32 f32 | VFloat64 f64 | VString string

text \<open>What the machine gives for a float that the target integer type cannot hold.\<close>

record arch =
  cvt_i64 :: "fp \<Rightarrow> u64"
  cvt_u64 :: "fp \<Rightarrow> u64"

definition toBool :: "goval \<Rightarrow> bool option" where
  "toBool v =
     (case v of
        VBool b \<Rightarrow> Some b
      | VInt w \<Rightarrow> Some (w \<noteq> 0)
      | VInt8 w \<Rightarrow> Some (w \<noteq> 0)
      | VInt16 w \<Rightarrow> Some (w \<noteq> 0)
      | VInt32 w \<Rightarrow> Some (w \<noteq> 0)
      | VInt64 w \<Rightarrow> Some (w \<noteq> 0)
      | VUint w \<Rightarrow> Some (w \<noteq> 0)
      | VUint8 w \<Rightarrow> Some (w \<noteq> 0)
      | VUint16 w \<Rightarrow> Some (w \<noteq> 0)
      | VUint32 w \<Rightarrow> Some (w \<noteq> 0)
      | VUint64 w \<Rightarrow> Some (w \<noteq> 0)
      | VFloat32 x \<Rightarrow> Some (f32_nonzero x)
      | VFloat64 x \<Rightarrow> Some (f64_nonzero x)
      | _ \<Rightarrow> None)"

definition toInt64 :: "arch \<Rightarrow> goval \<Rightarrow> u64 option" where
  "toInt64 A v =
     (case v of
        VInt w \<Rightarrow> Some w
      | VInt8 w \<Rightarrow> Some (scast w)
      | VInt16 w \<Rightarrow> Some (scast w)
      | VInt32 w \<Rightarrow> Some (scast w)
      | VInt64 w \<Rightarrow> Some w
      | VUint w \<Rightarrow> Some w
      | VUint8 w \<Rightarrow> Some (ucast w)
      | VUint16 w \<Rightarrow> Some (ucast w)
      | VUint32 w \<Rightarrow> Some (ucast w)
      | VUint64 w \<Rightarrow> Some w
      | VFloat32 x \<Rightarrow> Some (fp_to_i64 (cvt_i64 A) (decode32 x))
      | VFloat64 x \<Rightarrow> Some (fp_to_i64 (cvt_i64 A) (decode64 x))
      | _ \<Rightarrow> None)"

definition toUint64 :: "arch \<Rightarrow> goval \<Rightarrow> u64 option" where
  "toUint64 A v =
     (case v of
        VInt w \<Rightarrow> Some w
      | VInt8 w \<Rightarrow> Some (scast w)
      | VInt16 w \<Rightarrow> Some (scast w)
      | VInt32 w \<Rightarrow> Some (scast w)
      | VInt64 w \<Rightarrow> Some w
      | VUint w \<Rightarrow> Some w
      | VUint8 w \<Rightarrow> Some (ucast w)
      | VUint16 w \<Rightarrow> Some (ucast w)
      | VUint32 w \<Rightarrow> Some (ucast w)
      | VUint64 w \<Rightarrow> Some w
      | VFloat32 x \<Rightarrow> Some (fp_to_u64 (cvt_u64 A) (decode32 x))
      | VFloat64 x \<Rightarrow> Some (fp_to_u64 (cvt_u64 A) (decode64 x))
      | _ \<Rightarrow> None)"

definition toFloat64 :: "goval \<Rightarrow> f64 option" where
  "toFloat64 v =
     (case v of
        VInt w \<Rightarrow> Some (f64_of_int (sint w))
      | VInt8 w \<Rightarrow> Some (f64_of_int (sint w))
      | VInt16 w \<Rightarrow> Some (f64_of_int (sint w))
      | VInt32 w \<Rightarrow> Some (f64_of_int (sint w))
      | VInt64 w \<Rightarrow> Some (f64_of_int (sint w))
      | VUint w \<Rightarrow> Some (f64_of_int (uint w))
      | VUint8 w \<Rightarrow> Some (f64_of_int (uint w))
      | VUint16 w \<Rightarrow> Some (f64_of_int (uint w))
      | VUint32 w \<Rightarrow> Some (f64_of_int (uint w))
      | VUint64 w \<Rightarrow> Some (f64_of_int (uint w))
      | VFloat32 x \<Rightarrow> Some (f64_of_f32 x)
      | VFloat64 x \<Rightarrow> Some x
      | _ \<Rightarrow> None)"

text \<open>The four helpers accept the same dynamic types, but for \<open>bool\<close>.\<close>

lemma toFloat64_iff_toInt64: "toFloat64 v = None \<longleftrightarrow> toInt64 A v = None"
  by (cases v) (simp_all add: toFloat64_def toInt64_def)

lemma toUint64_iff_toInt64: "toUint64 A v = None \<longleftrightarrow> toInt64 A v = None"
  by (cases v) (simp_all add: toUint64_def toInt64_def)

text \<open>
  An integer that a JSON number carries as a \<open>float64\<close> converts back exactly while it fits
  in 53 bits, whatever the machine does out of range.
\<close>

lemma toInt64_float_exact:
  "\<bar>i\<bar> < 2 ^ 53 \<Longrightarrow> toInt64 A (VFloat64 (f64_of_int i)) = Some (word_of_int i)"
  by (auto simp: toInt64_def fp_to_i64_def fp_trunc_of_int)

lemma toUint64_float_exact:
  "0 \<le> i \<Longrightarrow> i < 2 ^ 53 \<Longrightarrow> toUint64 A (VFloat64 (f64_of_int i)) = Some (word_of_int i)"
  by (auto simp: toUint64_def fp_to_u64_def fp_trunc_of_int)

end
