(* ===== verification/GoStrings.thy ===== *)
theory GoStrings
  imports Prelude "HOL-Library.Sublist"
begin

text \<open>
  Go strings as lists of bytes (\<open>char\<close> is a byte), with the functions of \<open>strings\<close>,
  \<open>strconv\<close> and \<open>fmt\<close> that the services call, and \<open>time.Duration\<close> division. A Go string is
  UTF-8, so \<open>strings.TrimSpace\<close> removes byte sequences: the encodings of the runes for which
  \<open>unicode.IsSpace\<close> holds.
\<close>

text \<open>Go's integer division truncates towards zero.\<close>

definition tdiv :: "int \<Rightarrow> int \<Rightarrow> int" where
  "tdiv a b = sgn a * sgn b * (\<bar>a\<bar> div \<bar>b\<bar>)"

lemma tdiv_nonneg [simp]: "0 \<le> a \<Longrightarrow> 0 < b \<Longrightarrow> tdiv a b = a div b"
  by (cases "a = 0") (simp_all add: tdiv_def)

text \<open>\<open>int64\<close> arithmetic wraps around.\<close>

definition wrap64 :: "int \<Rightarrow> int" where
  "wrap64 i = (i + 2 ^ 63) mod 2 ^ 64 - 2 ^ 63"

lemma wrap64_id: "- (2 ^ 63) \<le> i \<Longrightarrow> i < 2 ^ 63 \<Longrightarrow> wrap64 i = i"
  by (simp add: wrap64_def)

lemma wrap64_range: "- (2 ^ 63) \<le> wrap64 i \<and> wrap64 i < 2 ^ 63"
proof -
  have "0 \<le> (i + 2 ^ 63) mod 2 ^ 64" "(i + 2 ^ 63) mod 2 ^ 64 < 2 ^ 64" by simp_all
  then show ?thesis unfolding wrap64_def by simp
qed

subsection \<open>Numbers and quoting\<close>

fun dec_digits :: "nat \<Rightarrow> int \<Rightarrow> string" where
  "dec_digits 0 n = []"
| "dec_digits (Suc k) n =
     (if n < 10 then [char_of (48 + n)] else dec_digits k (n div 10) @ [char_of (48 + n mod 10)])"

text \<open>\<open>%d\<close>; 20 digits are enough for every 64-bit integer.\<close>

definition dec :: "int \<Rightarrow> string" where
  "dec n = (if n < 0 then ''-'' @ dec_digits 20 (- n) else dec_digits 20 n)"

definition hex_digit :: "int \<Rightarrow> char" where
  "hex_digit n = (if n < 10 then char_of (48 + n) else char_of (87 + n))"

text \<open>\<open>%q\<close>: a double-quoted string with Go escapes; bytes past ASCII are kept as they are.\<close>

definition quote_char :: "char \<Rightarrow> string" where
  "quote_char c =
     (let n = of_char c :: int
      in if n = 34 then [CHR 0x5C, CHR 0x22]
         else if n = 92 then [CHR 0x5C, CHR 0x5C]
         else if n = 7 then [CHR 0x5C, CHR ''a'']
         else if n = 8 then [CHR 0x5C, CHR ''b'']
         else if n = 12 then [CHR 0x5C, CHR ''f'']
         else if n = 10 then [CHR 0x5C, CHR ''n'']
         else if n = 13 then [CHR 0x5C, CHR ''r'']
         else if n = 9 then [CHR 0x5C, CHR ''t'']
         else if n = 11 then [CHR 0x5C, CHR ''v'']
         else if n < 32 \<or> n = 127 then [CHR 0x5C, CHR ''x'', hex_digit (n div 16), hex_digit (n mod 16)]
         else [c])"

definition quote :: "string \<Rightarrow> string" where
  "quote s = [CHR 0x22] @ concat (map quote_char s) @ [CHR 0x22]"

subsection \<open>The \<open>strings\<close> package\<close>

definition bytes_of :: "int list \<Rightarrow> string" where
  "bytes_of ns = map char_of ns"

text \<open>The UTF-8 encodings of the white-space runes.\<close>

definition space_runes :: "string list" where
  "space_runes = map bytes_of
     ([[9], [10], [11], [12], [13], [32], [0xC2, 0x85], [0xC2, 0xA0], [0xE1, 0x9A, 0x80]]
      @ map (\<lambda>i. [0xE2, 0x80, i])
          [0x80, 0x81, 0x82, 0x83, 0x84, 0x85, 0x86, 0x87, 0x88, 0x89, 0x8A, 0xA8, 0xA9, 0xAF]
      @ [[0xE2, 0x81, 0x9F], [0xE3, 0x80, 0x80]])"

lemma space_runes_nonempty: "r \<in> set space_runes \<Longrightarrow> r \<noteq> []"
  by (auto simp: space_runes_def bytes_of_def)

lemma find_space_rune:
  "find (\<lambda>r. prefix r s) space_runes = Some r \<Longrightarrow> length s - length r < length s"
proof -
  assume "find (\<lambda>r. prefix r s) space_runes = Some r"
  then have "r \<in> set space_runes" "prefix r s" by (auto simp: find_Some_iff)
  then have "0 < length r" "length r \<le> length s"
    using space_runes_nonempty prefix_length_le by auto
  then show ?thesis by linarith
qed

lemma find_space_suffix:
  "find (\<lambda>r. suffix r s) space_runes = Some r \<Longrightarrow> length s - length r < length s"
proof -
  assume "find (\<lambda>r. suffix r s) space_runes = Some r"
  then have "r \<in> set space_runes" "suffix r s" by (auto simp: find_Some_iff)
  then have "0 < length r" "length r \<le> length s"
    using space_runes_nonempty suffix_length_le by auto
  then show ?thesis by linarith
qed

function trim_left :: "string \<Rightarrow> string" where
  "trim_left s =
     (case find (\<lambda>r. prefix r s) space_runes of
        None \<Rightarrow> s
      | Some r \<Rightarrow> trim_left (drop (length r) s))"
  by pat_completeness auto
termination
  by (relation "measure length") (auto dest!: find_space_rune)

function trim_right :: "string \<Rightarrow> string" where
  "trim_right s =
     (case find (\<lambda>r. suffix r s) space_runes of
        None \<Rightarrow> s
      | Some r \<Rightarrow> trim_right (take (length s - length r) s))"
  by pat_completeness auto
termination
  by (relation "measure length") (auto dest!: find_space_suffix)

declare trim_left.simps [simp del] trim_right.simps [simp del]

definition TrimSpace :: "string \<Rightarrow> string" where
  "TrimSpace s = trim_right (trim_left s)"

text \<open>\<open>strings.ReplaceAll\<close> and \<open>strings.Trim\<close> for one-byte arguments.\<close>

definition ReplaceAll :: "string \<Rightarrow> char \<Rightarrow> char \<Rightarrow> string" where
  "ReplaceAll s a b = map (\<lambda>c. if c = a then b else c) s"

definition Trim :: "string \<Rightarrow> char \<Rightarrow> string" where
  "Trim s c = rev (dropWhile (\<lambda>d. d = c) (rev (dropWhile (\<lambda>d. d = c) s)))"

lemma set_ReplaceAll: "set (ReplaceAll s a b) \<subseteq> insert b (set s - {a})"
  by (auto simp: ReplaceAll_def)

lemma set_Trim: "set (Trim s c) \<subseteq> set s"
proof
  fix x
  assume "x \<in> set (Trim s c)"
  then show "x \<in> set s" by (auto simp: Trim_def dest!: set_dropWhileD)
qed

text \<open>\<open>strings.Split\<close> for a one-byte separator: never the empty list.\<close>

fun Split :: "string \<Rightarrow> char \<Rightarrow> string list" where
  "Split [] c = [[]]"
| "Split (d # s) c =
     (if d = c then [] # Split s c
      else (case Split s c of [] \<Rightarrow> [[d]] | p # ps \<Rightarrow> (d # p) # ps))"

lemma Split_nonempty [simp]: "Split s c \<noteq> []"
  by (induction s c rule: Split.induct) (auto split: list.splits)

lemma Split_no_sep: "c \<notin> set s \<Longrightarrow> Split s c = [s]"
  by (induction s) auto

lemma Split_append_sep: "Split (s @ c # t) c = Split s c @ Split t c"
  by (induction s) (auto split: list.splits)

definition ToLower :: "string \<Rightarrow> string" where
  "ToLower s = map (\<lambda>ch. let n = of_char ch :: int
     in if 65 \<le> n \<and> n \<le> 90 then char_of (n + 32) else ch) s"

end
