(* ===== verification/Domain.thy ===== *)
theory Domain
  imports GoErrors GoValue GoStrings
begin

text \<open>
  The gateway's domain package (\<open>internal/domain\<close>): tags and their validation, devices,
  data points and their pool, and the protocol manager. The string enumerations are
  datatypes with one constructor per constant of the source and an \<open>Other\<close> constructor for
  every other string (the empty string included); time is nanoseconds on one clock.
\<close>

section \<open>Enumerations\<close>

datatype protocol = ProtocolModbusTCP | ProtocolModbusRTU | ProtocolOPCUA | ProtocolS7
  | ProtocolMQTT | ProtocolOther string

primrec protocol_text :: "protocol \<Rightarrow> string" where
  "protocol_text ProtocolModbusTCP = ''modbus-tcp''"
| "protocol_text ProtocolModbusRTU = ''modbus-rtu''"
| "protocol_text ProtocolOPCUA = ''opcua''"
| "protocol_text ProtocolS7 = ''s7''"
| "protocol_text ProtocolMQTT = ''mqtt''"
| "protocol_text (ProtocolOther s) = s"

datatype device_status = DeviceStatusOnline | DeviceStatusOffline | DeviceStatusConnecting
  | DeviceStatusError | DeviceStatusUnknown

datatype data_type = DataTypeBool | DataTypeInt16 | DataTypeUInt16 | DataTypeInt32 | DataTypeUInt32
  | DataTypeInt64 | DataTypeUInt64 | DataTypeFloat32 | DataTypeFloat64 | DataTypeString
  | DataTypeOther string

primrec data_type_text :: "data_type \<Rightarrow> string" where
  "data_type_text DataTypeBool = ''bool''"
| "data_type_text DataTypeInt16 = ''int16''"
| "data_type_text DataTypeUInt16 = ''uint16''"
| "data_type_text DataTypeInt32 = ''int32''"
| "data_type_text DataTypeUInt32 = ''uint32''"
| "data_type_text DataTypeInt64 = ''int64''"
| "data_type_text DataTypeUInt64 = ''uint64''"
| "data_type_text DataTypeFloat32 = ''float32''"
| "data_type_text DataTypeFloat64 = ''float64''"
| "data_type_text DataTypeString = ''string''"
| "data_type_text (DataTypeOther s) = s"

datatype register_type = RegisterTypeCoil | RegisterTypeDiscreteInput
  | RegisterTypeHoldingRegister | RegisterTypeInputRegister | RegisterTypeOther string

primrec register_type_text :: "register_type \<Rightarrow> string" where
  "register_type_text RegisterTypeCoil = ''coil''"
| "register_type_text RegisterTypeDiscreteInput = ''discrete_input''"
| "register_type_text RegisterTypeHoldingRegister = ''holding_register''"
| "register_type_text RegisterTypeInputRegister = ''input_register''"
| "register_type_text (RegisterTypeOther s) = s"

datatype byte_order = ByteOrderBigEndian | ByteOrderLittleEndian | ByteOrderMidBigEndian
  | ByteOrderMidLitEndian | ByteOrderOther string

datatype access_mode = AccessModeReadOnly | AccessModeWriteOnly | AccessModeReadWrite
  | AccessModeOther string

datatype s7_area = S7AreaDB | S7AreaM | S7AreaI | S7AreaQ | S7AreaT | S7AreaC | S7AreaOther string

datatype deadband_type = DeadbandTypeNone | DeadbandTypeAbsolute | DeadbandTypePercent
  | DeadbandTypeOther string

datatype quality = QualityGood | QualityBad | QualityUncertain | QualityNotConnected
  | QualityConfigError | QualityDeviceFailure | QualityTimeout | QualityEmpty

section \<open>Tags\<close>

record tag =
  tag_ID :: string
  tag_Name :: string
  tag_Description :: string
  tag_Address :: u16
  tag_RegisterType :: register_type
  tag_DataType :: data_type
  tag_ByteOrder :: byte_order
  tag_RegisterCount :: u16
  tag_BitPosition :: "byte option"
  tag_ScaleFactor :: f64
  tag_Offset :: f64
  tag_Unit :: string
  tag_TopicSuffix :: string
  tag_PollInterval :: "int option"
  tag_DeadbandType :: deadband_type
  tag_DeadbandValue :: f64
  tag_Enabled :: bool
  tag_AccessMode :: access_mode
  tag_Priority :: byte
  tag_OPCNodeID :: string
  tag_OPCNamespaceURI :: string
  tag_OPCNamespaceIndex :: u16
  tag_S7Area :: s7_area
  tag_S7DBNumber :: int
  tag_S7Offset :: int
  tag_S7BitOffset :: int
  tag_S7Address :: string
  tag_Metadata :: "(string \<times> string) list"

definition ExpectedRegisterCount :: "tag \<Rightarrow> u16" where
  "ExpectedRegisterCount t =
     (case tag_DataType t of
        DataTypeBool \<Rightarrow> 1 | DataTypeInt16 \<Rightarrow> 1 | DataTypeUInt16 \<Rightarrow> 1
      | DataTypeInt32 \<Rightarrow> 2 | DataTypeUInt32 \<Rightarrow> 2 | DataTypeFloat32 \<Rightarrow> 2
      | DataTypeInt64 \<Rightarrow> 4 | DataTypeUInt64 \<Rightarrow> 4 | DataTypeFloat64 \<Rightarrow> 4
      | _ \<Rightarrow> 1)"

text \<open>The final step of the validation: a zero scale factor becomes \<open>1.0\<close>.\<close>

definition default_scale :: "tag \<Rightarrow> tag" where
  "default_scale t =
     (if f64_eq (tag_ScaleFactor t) f64_zero then t\<lparr>tag_ScaleFactor := f64_one\<rparr> else t)"

text \<open>The Modbus case of the switch: checks, then the defaults it stores into the tag.\<close>

definition validate_modbus :: "tag \<Rightarrow> (gerror, tag) res" where
  "validate_modbus t =
     (if tag_RegisterType t = RegisterTypeOther ''''
      then Err (Text (''register type is required for Modbus tag '' @ tag_ID t))
      else if (case tag_BitPosition t of Some bp \<Rightarrow> 7 < bp | None \<Rightarrow> False)
      then Err (Text (''bit position '' @ dec (uint (the (tag_BitPosition t))) @
                      '' is out of range (must be 0-7) for Modbus tag '' @ tag_ID t))
      else if tag_RegisterCount t \<noteq> 0 \<and> tag_RegisterCount t < ExpectedRegisterCount t
      then Err (Text (''register count '' @ dec (uint (tag_RegisterCount t)) @
                      '' is insufficient for data type '' @ data_type_text (tag_DataType t) @
                      '' (needs '' @ dec (uint (ExpectedRegisterCount t)) @ '')''))
      else Ok (let t1 = (if tag_RegisterCount t = 0
                         then t\<lparr>tag_RegisterCount := ExpectedRegisterCount t\<rparr> else t)
               in if tag_ByteOrder t1 = ByteOrderOther ''''
                  then t1\<lparr>tag_ByteOrder := ByteOrderBigEndian\<rparr> else t1))"

text \<open>
  \<open>ValidateForProtocol\<close> writes its defaults into the tag it checks: \<open>Ok\<close> carries the tag
  afterwards. Where it fails it has written nothing, since the checks of the Modbus case
  come before its defaults.
\<close>

definition ValidateForProtocol :: "protocol \<Rightarrow> tag \<Rightarrow> (gerror, tag) res" where
  "ValidateForProtocol p t =
     (if tag_ID t = '''' then Err (Text ''tag ID is required'')
      else if tag_Name t = '''' then Err (Text ''tag name is required'')
      else if tag_TopicSuffix t = '''' then Err (Text ''tag topic suffix is required'')
      else if tag_DataType t = DataTypeOther ''''
      then Err (Text (''data type is required for tag '' @ tag_ID t))
      else case p of
        ProtocolModbusTCP \<Rightarrow>
          (case validate_modbus t of Ok t1 \<Rightarrow> Ok (default_scale t1) | r \<Rightarrow> r)
      | ProtocolModbusRTU \<Rightarrow>
          (case validate_modbus t of Ok t1 \<Rightarrow> Ok (default_scale t1) | r \<Rightarrow> r)
      | ProtocolOPCUA \<Rightarrow>
          (if tag_OPCNodeID t = ''''
           then Err (Text (''opc node id is required for OPC UA tag '' @ tag_ID t))
           else Ok (default_scale t))
      | ProtocolS7 \<Rightarrow>
          (if tag_S7Address t = ''''
           then Err (Text (''s7 address is required for S7 tag '' @ tag_ID t))
           else Ok (default_scale t))
      | ProtocolMQTT \<Rightarrow> Ok (default_scale t)
      | ProtocolOther s \<Rightarrow>
          Err (Text (''unsupported protocol '' @ quote s @ '' for tag '' @ tag_ID t)))"

definition Validate_tag :: "tag \<Rightarrow> (gerror, tag) res" where
  "Validate_tag t =
     (if tag_OPCNodeID t \<noteq> '''' then ValidateForProtocol ProtocolOPCUA t
      else if tag_S7Address t \<noteq> '''' then ValidateForProtocol ProtocolS7 t
      else ValidateForProtocol ProtocolModbusTCP t)"

definition GetEffectivePollInterval :: "tag \<Rightarrow> int \<Rightarrow> int" where
  "GetEffectivePollInterval t deviceDefault =
     (case tag_PollInterval t of Some d \<Rightarrow> d | None \<Rightarrow> deviceDefault)"

definition IsWritable :: "tag \<Rightarrow> bool" where
  "IsWritable t =
     (if tag_AccessMode t \<noteq> AccessModeOther ''''
      then tag_AccessMode t = AccessModeWriteOnly \<or> tag_AccessMode t = AccessModeReadWrite
      else case tag_RegisterType t of
        RegisterTypeCoil \<Rightarrow> True
      | RegisterTypeHoldingRegister \<Rightarrow> True
      | RegisterTypeDiscreteInput \<Rightarrow> False
      | RegisterTypeInputRegister \<Rightarrow> False
      | _ \<Rightarrow> False)"

definition IsReadable :: "tag \<Rightarrow> bool" where
  "IsReadable t =
     (if tag_AccessMode t \<noteq> AccessModeOther ''''
      then tag_AccessMode t = AccessModeReadOnly \<or> tag_AccessMode t = AccessModeReadWrite
      else True)"

text \<open>What a validated Modbus tag satisfies; the decoder relies on it.\<close>

definition modbus_ready :: "tag \<Rightarrow> bool" where
  "modbus_ready t \<longleftrightarrow>
     tag_ID t \<noteq> '''' \<and> tag_RegisterType t \<noteq> RegisterTypeOther '''' \<and>
     (\<forall>bp. tag_BitPosition t = Some bp \<longrightarrow> bp \<le> 7) \<and>
     ExpectedRegisterCount t \<le> tag_RegisterCount t \<and>
     tag_ByteOrder t \<noteq> ByteOrderOther '''' \<and>
     \<not> f64_eq (tag_ScaleFactor t) f64_zero"

lemma f64_one_nonzero [simp]: "f64_eq f64_one f64_zero = False"
  by code_simp

lemma ExpectedRegisterCount_pos [simp]: "ExpectedRegisterCount t \<noteq> 0"
  by (simp add: ExpectedRegisterCount_def split: data_type.split)

lemma ExpectedRegisterCount_ge_1: "1 \<le> ExpectedRegisterCount t"
  by (simp add: ExpectedRegisterCount_def split: data_type.split)

lemma ExpectedRegisterCount_update [simp]:
  "ExpectedRegisterCount (t\<lparr>tag_RegisterCount := n\<rparr>) = ExpectedRegisterCount t"
  "ExpectedRegisterCount (t\<lparr>tag_ByteOrder := b\<rparr>) = ExpectedRegisterCount t"
  "ExpectedRegisterCount (t\<lparr>tag_ScaleFactor := s\<rparr>) = ExpectedRegisterCount t"
  by (simp_all add: ExpectedRegisterCount_def)

lemma validate_modbus_fields:
  assumes "validate_modbus t = Ok t'"
  shows "tag_ID t' = tag_ID t" and "tag_RegisterType t' \<noteq> RegisterTypeOther ''''"
    and "\<And>bp. tag_BitPosition t' = Some bp \<Longrightarrow> bp \<le> 7"
    and "ExpectedRegisterCount t' \<le> tag_RegisterCount t'"
    and "tag_ByteOrder t' \<noteq> ByteOrderOther ''''"
  using assms by (auto simp: validate_modbus_def Let_def not_less split: if_splits option.splits)

lemma default_scale_nonzero: "\<not> f64_eq (tag_ScaleFactor (default_scale t)) f64_zero"
  by (simp add: default_scale_def)

lemma default_scale_fields [simp]:
  "tag_ID (default_scale t) = tag_ID t" "tag_RegisterType (default_scale t) = tag_RegisterType t"
  "tag_BitPosition (default_scale t) = tag_BitPosition t"
  "tag_RegisterCount (default_scale t) = tag_RegisterCount t"
  "tag_ByteOrder (default_scale t) = tag_ByteOrder t"
  "ExpectedRegisterCount (default_scale t) = ExpectedRegisterCount t"
  by (simp_all add: default_scale_def)

lemma ValidateForProtocol_modbus:
  assumes "p = ProtocolModbusTCP \<or> p = ProtocolModbusRTU" and "ValidateForProtocol p t = Ok t'"
  obtains t1 where "validate_modbus t = Ok t1" "t' = default_scale t1"
    "tag_ID t \<noteq> ''''" "tag_Name t \<noteq> ''''" "tag_TopicSuffix t \<noteq> ''''"
    "tag_DataType t \<noteq> DataTypeOther ''''"
  using assms by (auto simp: ValidateForProtocol_def split: if_splits res.splits)

lemma validate_ready:
  assumes "p = ProtocolModbusTCP \<or> p = ProtocolModbusRTU" and "ValidateForProtocol p t = Ok t'"
  shows "modbus_ready t'"
proof -
  from assms obtain t1 where t1: "validate_modbus t = Ok t1" "t' = default_scale t1" "tag_ID t \<noteq> ''''"
    by (rule ValidateForProtocol_modbus)
  show ?thesis
    using validate_modbus_fields [OF t1(1)] t1(2,3) default_scale_nonzero
    by (auto simp: modbus_ready_def)
qed

text \<open>A tag that is ready is left alone, so validating twice is validating once.\<close>

lemma validate_modbus_ready: "modbus_ready t \<Longrightarrow> validate_modbus t = Ok t"
  by (auto simp: modbus_ready_def validate_modbus_def Let_def not_less
      dest: order_trans [OF ExpectedRegisterCount_ge_1] split: option.splits)

lemma validate_idempotent:
  assumes "p = ProtocolModbusTCP \<or> p = ProtocolModbusRTU" and "ValidateForProtocol p t = Ok t'"
  shows "ValidateForProtocol p t' = Ok t'"
proof -
  from assms obtain t1 where t1: "validate_modbus t = Ok t1" "t' = default_scale t1"
    "tag_ID t \<noteq> ''''" "tag_Name t \<noteq> ''''" "tag_TopicSuffix t \<noteq> ''''"
    "tag_DataType t \<noteq> DataTypeOther ''''"
    by (rule ValidateForProtocol_modbus)
  have keep: "tag_ID t' = tag_ID t \<and> tag_Name t' = tag_Name t \<and> tag_TopicSuffix t' = tag_TopicSuffix t \<and>
      tag_DataType t' = tag_DataType t"
    using t1(1,2) by (auto simp: validate_modbus_def default_scale_def Let_def split: if_splits)
  have r: "modbus_ready t'" by (rule validate_ready [OF assms])
  then have "default_scale t' = t'" by (simp add: modbus_ready_def default_scale_def)
  with keep t1(3-6) assms(1) validate_modbus_ready [OF r] show ?thesis
    by (auto simp: ValidateForProtocol_def)
qed

text \<open>A concrete tag: a 32-bit value in two holding registers, as it comes from a file.\<close>

definition sample_tag :: tag where
  "sample_tag = \<lparr>tag_ID = ''t1'', tag_Name = ''Temp'', tag_Description = '''', tag_Address = 10,
     tag_RegisterType = RegisterTypeHoldingRegister, tag_DataType = DataTypeInt32,
     tag_ByteOrder = ByteOrderOther '''', tag_RegisterCount = 0, tag_BitPosition = None,
     tag_ScaleFactor = 0, tag_Offset = 0, tag_Unit = ''C'', tag_TopicSuffix = ''temp'',
     tag_PollInterval = None, tag_DeadbandType = DeadbandTypeNone, tag_DeadbandValue = 0,
     tag_Enabled = True, tag_AccessMode = AccessModeOther '''', tag_Priority = 0,
     tag_OPCNodeID = '''', tag_OPCNamespaceURI = '''', tag_OPCNamespaceIndex = 0,
     tag_S7Area = S7AreaOther '''', tag_S7DBNumber = 0, tag_S7Offset = 0, tag_S7BitOffset = 0,
     tag_S7Address = '''', tag_Metadata = []\<rparr>"

lemma f64_zero_eq_zero [simp]: "f64_eq 0 f64_zero = True"
  by code_simp

definition sample_ready :: tag where
  "sample_ready = sample_tag\<lparr>tag_RegisterCount := 2, tag_ByteOrder := ByteOrderBigEndian,
     tag_ScaleFactor := f64_one\<rparr>"

lemma sample_tag_validates: "ValidateForProtocol ProtocolModbusTCP sample_tag = Ok sample_ready"
  by (simp add: ValidateForProtocol_def validate_modbus_def default_scale_def sample_tag_def
      sample_ready_def ExpectedRegisterCount_def Let_def)

end
