(* ===== verification/Device.thy ===== *)
theory Device
  imports Domain
begin

text \<open>
  Devices (\<open>internal/domain/device.go\<close>): the configuration records and their validation,
  which validates (and completes) every tag in turn and stops at the first that fails.
\<close>

record circuit_breaker_config =
  cb_MaxRequests :: u32
  cb_Interval :: int
  cb_Timeout :: int
  cb_FailureThreshold :: u32
  cb_FailureRatio :: f64

record connection_config =
  conn_Host :: string
  conn_Port :: int
  conn_Timeout :: int
  conn_RetryCount :: int
  conn_RetryDelay :: int
  conn_SlaveID :: byte
  conn_SerialPort :: string
  conn_BaudRate :: int
  conn_DataBits :: int
  conn_Parity :: string
  conn_StopBits :: int
  conn_OPCEndpointURL :: string
  conn_OPCSecurityPolicy :: string
  conn_OPCSecurityMode :: string
  conn_OPCAuthMode :: string
  conn_OPCUsername :: string
  conn_OPCPassword :: string
  conn_OPCCertFile :: string
  conn_OPCKeyFile :: string
  conn_OPCServerCertFile :: string
  conn_OPCInsecureSkipVerify :: bool
  conn_OPCAutoSelectEndpoint :: bool
  conn_OPCApplicationName :: string
  conn_OPCApplicationURI :: string
  conn_OPCPublishInterval :: int
  conn_OPCSamplingInterval :: int
  conn_OPCUseSubscriptions :: bool
  conn_S7Rack :: int
  conn_S7Slot :: int
  conn_S7PDUSize :: int
  conn_S7Timeout :: int
  conn_CircuitBreaker :: "circuit_breaker_config option"

record device =
  dev_ID :: string
  dev_Name :: string
  dev_Description :: string
  dev_Protocol :: protocol
  dev_Connection :: connection_config
  dev_Tags :: "tag list"
  dev_PollInterval :: int
  dev_Enabled :: bool
  dev_UNSPrefix :: string
  dev_Metadata :: "(string \<times> string) list"
  dev_CreatedAt :: int
  dev_UpdatedAt :: int
  dev_ConfigVersion :: u32
  dev_ActiveConfigVersion :: u32
  dev_LastKnownGoodVersion :: u32

text \<open>The loop over the tags: the tags as it leaves them, and the tag it stopped at.\<close>

fun validate_tags :: "protocol \<Rightarrow> tag list \<Rightarrow> tag list \<times> (tag \<times> gerror) option" where
  "validate_tags p [] = ([], None)"
| "validate_tags p (t # ts) =
     (case ValidateForProtocol p t of
        Ok t' \<Rightarrow> (let r = validate_tags p ts in (t' # fst r, snd r))
      | Err e \<Rightarrow> (t # ts, Some (t, e))
      | Crash m \<Rightarrow> (t # ts, None))"

definition Validate_device :: "device \<Rightarrow> gerror option \<times> device" where
  "Validate_device d =
     (if dev_ID d = '''' then (Some (Sentinel (DeviceE ErrDeviceIDRequired)), d)
      else if dev_Name d = '''' then (Some (Sentinel (DeviceE ErrDeviceNameRequired)), d)
      else if dev_Protocol d = ProtocolOther ''''
      then (Some (Sentinel (DeviceE ErrProtocolRequired)), d)
      else if dev_Tags d = [] then (Some (Sentinel (DeviceE ErrNoTagsDefined)), d)
      else if dev_PollInterval d < 100 * 10 ^ 6
      then (Some (Sentinel (DeviceE ErrPollIntervalTooShort)), d)
      else if dev_UNSPrefix d = '''' then (Some (Sentinel (DeviceE ErrUNSPrefixRequired)), d)
      else
        (let r = validate_tags (dev_Protocol d) (dev_Tags d)
         in (case snd r of
               None \<Rightarrow> None
             | Some (t, e) \<Rightarrow> Some (WrapW (''invalid tag '' @ quote (tag_ID t) @ '' for device '' @ quote (dev_ID d)) e),
             d\<lparr>dev_Tags := fst r\<rparr>)))"

definition GetAddress :: "device \<Rightarrow> string" where
  "GetAddress d =
     (if conn_Host (dev_Connection d) \<noteq> '''' then conn_Host (dev_Connection d)
      else conn_SerialPort (dev_Connection d))"

text \<open>Validation never panics, so \<open>Crash\<close> is not a case of the loop.\<close>

lemma ValidateForProtocol_no_crash [simp]: "ValidateForProtocol p t \<noteq> Crash m"
  by (auto simp: ValidateForProtocol_def validate_modbus_def Let_def split: protocol.splits if_splits res.splits)

lemma validate_tags_ok:
  "snd (validate_tags p ts) = None \<Longrightarrow>
     list_all2 (\<lambda>t t'. ValidateForProtocol p t = Ok t') ts (fst (validate_tags p ts))"
  by (induction p ts rule: validate_tags.induct) (auto split: res.splits simp: Let_def)

lemma validate_tags_length [simp]: "length (fst (validate_tags p ts)) = length ts"
  by (induction p ts rule: validate_tags.induct) (auto split: res.splits simp: Let_def)

lemma ValidateForProtocol_ID: "ValidateForProtocol p t = Ok t' \<Longrightarrow> tag_ID t' = tag_ID t"
  by (auto simp: ValidateForProtocol_def dest: validate_modbus_fields(1)
      split: if_splits protocol.splits res.splits)

text \<open>What the runtime relies on in a Modbus device.\<close>

definition modbus_device_ready :: "device \<Rightarrow> bool" where
  "modbus_device_ready d \<longleftrightarrow>
     dev_ID d \<noteq> '''' \<and> dev_UNSPrefix d \<noteq> '''' \<and> dev_Tags d \<noteq> [] \<and>
     100000000 \<le> dev_PollInterval d \<and> (\<forall>t\<in>set (dev_Tags d). modbus_ready t)"

lemma validate_tags_ready:
  assumes "p = ProtocolModbusTCP \<or> p = ProtocolModbusRTU" and "snd (validate_tags p ts) = None"
  shows "\<forall>t\<in>set (fst (validate_tags p ts)). modbus_ready t"
  using validate_tags_ok [OF assms(2)] validate_ready [OF assms(1)]
  by (fastforce simp: list_all2_conv_all_nth in_set_conv_nth)

lemma validate_tags_IDs:
  assumes "snd (validate_tags p ts) = None"
  shows "map tag_ID (fst (validate_tags p ts)) = map tag_ID ts"
  using validate_tags_ok [OF assms] ValidateForProtocol_ID
  by (auto simp: list_all2_conv_all_nth intro!: nth_equalityI)

lemma Validate_device_ok:
  assumes "Validate_device d = (None, d')"
  shows "snd (validate_tags (dev_Protocol d) (dev_Tags d)) = None"
    and "d' = d\<lparr>dev_Tags := fst (validate_tags (dev_Protocol d) (dev_Tags d))\<rparr>"
    and "dev_ID d \<noteq> ''''" "dev_UNSPrefix d \<noteq> ''''" "dev_Tags d \<noteq> []" "100 * 10 ^ 6 \<le> dev_PollInterval d"
  using assms by (auto simp: Validate_device_def Let_def not_less split: if_splits option.splits)

lemma validated_device:
  assumes "Validate_device d = (None, d')"
    and "dev_Protocol d = ProtocolModbusTCP \<or> dev_Protocol d = ProtocolModbusRTU"
  shows "modbus_device_ready d'" and "map tag_ID (dev_Tags d') = map tag_ID (dev_Tags d)"
proof -
  note ok = Validate_device_ok [OF assms(1)]
  have "fst (validate_tags (dev_Protocol d) (dev_Tags d)) \<noteq> []"
    using ok(5) validate_tags_length [of "dev_Protocol d" "dev_Tags d"] by (metis length_0_conv)
  then show "modbus_device_ready d'"
    using ok validate_tags_ready [OF assms(2) ok(1)] by (simp add: modbus_device_ready_def)
  show "map tag_ID (dev_Tags d') = map tag_ID (dev_Tags d)"
    using validate_tags_IDs [OF ok(1)] by (simp add: ok(2))
qed

text \<open>A concrete connection and device.\<close>

definition sample_connection :: connection_config where
  "sample_connection = \<lparr>conn_Host = ''plc'', conn_Port = 502, conn_Timeout = 0, conn_RetryCount = 0,
     conn_RetryDelay = 0, conn_SlaveID = 1, conn_SerialPort = '''', conn_BaudRate = 0,
     conn_DataBits = 0, conn_Parity = '''', conn_StopBits = 0, conn_OPCEndpointURL = '''',
     conn_OPCSecurityPolicy = '''', conn_OPCSecurityMode = '''', conn_OPCAuthMode = '''',
     conn_OPCUsername = '''', conn_OPCPassword = '''', conn_OPCCertFile = '''', conn_OPCKeyFile = '''',
     conn_OPCServerCertFile = '''', conn_OPCInsecureSkipVerify = False,
     conn_OPCAutoSelectEndpoint = False, conn_OPCApplicationName = '''', conn_OPCApplicationURI = '''',
     conn_OPCPublishInterval = 0, conn_OPCSamplingInterval = 0, conn_OPCUseSubscriptions = False,
     conn_S7Rack = 0, conn_S7Slot = 0, conn_S7PDUSize = 0, conn_S7Timeout = 0,
     conn_CircuitBreaker = None\<rparr>"

definition sample_device :: device where
  "sample_device = \<lparr>dev_ID = ''plc1'', dev_Name = ''PLC'', dev_Description = '''',
     dev_Protocol = ProtocolModbusTCP, dev_Connection = sample_connection,
     dev_Tags = [sample_tag], dev_PollInterval = 1000000000, dev_Enabled = True,
     dev_UNSPrefix = ''plant/line1'', dev_Metadata = [], dev_CreatedAt = 0, dev_UpdatedAt = 0,
     dev_ConfigVersion = 0, dev_ActiveConfigVersion = 0, dev_LastKnownGoodVersion = 0\<rparr>"

lemma sample_device_validates:
  "Validate_device sample_device = (None, sample_device\<lparr>dev_Tags := [sample_ready]\<rparr>)"
  by (simp add: Validate_device_def sample_device_def sample_tag_validates Let_def)

end
