(* ===== verification/DataPoint.thy ===== *)
theory DataPoint
  imports Device
begin

text \<open>
  Data points (\<open>internal/domain/datapoint.go\<close>). A point from the \<open>sync.Pool\<close> is whatever its
  last user left; \<open>AcquireDataPoint\<close> takes that object and the clock as arguments.
\<close>

record data_point =
  dp_DeviceID :: string
  dp_TagID :: string
  dp_Topic :: string
  dp_Value :: goval
  dp_RawValue :: goval
  dp_Unit :: string
  dp_Quality :: quality
  dp_Timestamp :: int
  dp_SourceTimestamp :: "int option"
  dp_GatewayTimestamp :: int
  dp_PublishTimestamp :: "int option"
  dp_LatencyMs :: "int option"
  dp_StalenessMs :: "int option"
  dp_Priority :: byte
  dp_Metadata :: "(string \<times> string) list option"

text \<open>The zero \<open>time.Time\<close> (year 1), in nanoseconds since 1970.\<close>

definition zero_time :: int where
  "zero_time = - 62135596800 * 10 ^ 9"

text \<open>\<open>Time.Sub\<close> saturates at the ends of \<open>int64\<close>; \<open>Duration.Milliseconds\<close> truncates.\<close>

definition time_Sub :: "int \<Rightarrow> int \<Rightarrow> int" where
  "time_Sub t u = max (- (2 ^ 63)) (min (2 ^ 63 - 1) (t - u))"

definition Milliseconds :: "int \<Rightarrow> int" where
  "Milliseconds d = tdiv d 1000000"

definition NewDataPoint ::
  "int \<Rightarrow> string \<Rightarrow> string \<Rightarrow> string \<Rightarrow> goval \<Rightarrow> string \<Rightarrow> quality \<Rightarrow> data_point" where
  "NewDataPoint now deviceID tagID topic value un q =
     \<lparr>dp_DeviceID = deviceID, dp_TagID = tagID, dp_Topic = topic, dp_Value = value,
      dp_RawValue = VNil, dp_Unit = un, dp_Quality = q, dp_Timestamp = now,
      dp_SourceTimestamp = None, dp_GatewayTimestamp = zero_time, dp_PublishTimestamp = None,
      dp_LatencyMs = None, dp_StalenessMs = None, dp_Priority = 0, dp_Metadata = None\<rparr>"

definition AcquireDataPoint ::
  "data_point \<Rightarrow> int \<Rightarrow> string \<Rightarrow> string \<Rightarrow> string \<Rightarrow> goval \<Rightarrow> string \<Rightarrow> quality \<Rightarrow> data_point" where
  "AcquireDataPoint pooled now deviceID tagID topic value un q =
     (let dp = pooled\<lparr>dp_DeviceID := deviceID, dp_TagID := tagID, dp_Topic := topic,
                      dp_Value := value, dp_Unit := un, dp_Quality := q, dp_Timestamp := now\<rparr>
      in dp\<lparr>dp_GatewayTimestamp := dp_Timestamp dp, dp_RawValue := VNil, dp_SourceTimestamp := None,
            dp_PublishTimestamp := None, dp_LatencyMs := None, dp_StalenessMs := None,
            dp_Priority := 0, dp_Metadata := None\<rparr>)"

text \<open>The fields \<open>ReleaseDataPoint\<close> clears before the point goes back to the pool.\<close>

definition ReleaseDataPoint :: "data_point \<Rightarrow> data_point" where
  "ReleaseDataPoint dp =
     dp\<lparr>dp_Value := VNil, dp_RawValue := VNil, dp_Metadata := None, dp_SourceTimestamp := None,
        dp_PublishTimestamp := None, dp_LatencyMs := None, dp_StalenessMs := None\<rparr>"

definition WithRawValue :: "data_point \<Rightarrow> goval \<Rightarrow> data_point" where
  "WithRawValue dp raw = dp\<lparr>dp_RawValue := raw\<rparr>"

definition WithMetadata :: "data_point \<Rightarrow> (string \<times> string) list option \<Rightarrow> data_point" where
  "WithMetadata dp meta = dp\<lparr>dp_Metadata := meta\<rparr>"

definition WithSourceTimestamp :: "data_point \<Rightarrow> int \<Rightarrow> data_point" where
  "WithSourceTimestamp dp ts = dp\<lparr>dp_SourceTimestamp := Some ts\<rparr>"

definition WithGatewayTimestamp :: "data_point \<Rightarrow> int \<Rightarrow> data_point" where
  "WithGatewayTimestamp dp ts = dp\<lparr>dp_GatewayTimestamp := ts\<rparr>"

definition WithPublishTimestamp :: "data_point \<Rightarrow> int \<Rightarrow> data_point" where
  "WithPublishTimestamp dp ts =
     dp\<lparr>dp_PublishTimestamp := Some ts,
        dp_LatencyMs := Some (Milliseconds (time_Sub ts (dp_Timestamp dp)))\<rparr>"

definition WithPriority :: "data_point \<Rightarrow> byte \<Rightarrow> data_point" where
  "WithPriority dp p = dp\<lparr>dp_Priority := p\<rparr>"

definition CalculateStaleness :: "int \<Rightarrow> int \<Rightarrow> data_point \<Rightarrow> data_point" where
  "CalculateStaleness now expectedInterval dp =
     (if expectedInterval \<le> 0 then dp
      else
        (let age = time_Sub now (dp_Timestamp dp)
         in if expectedInterval < age
            then dp\<lparr>dp_StalenessMs := Some (Milliseconds (age - expectedInterval))\<rparr>
            else dp))"

definition Reset_data_point :: "data_point \<Rightarrow> data_point" where
  "Reset_data_point dp =
     dp\<lparr>dp_DeviceID := '''', dp_TagID := '''', dp_Topic := '''', dp_Value := VNil, dp_RawValue := VNil,
        dp_Unit := '''', dp_Quality := QualityEmpty, dp_Timestamp := zero_time,
        dp_SourceTimestamp := None, dp_GatewayTimestamp := zero_time, dp_PublishTimestamp := None,
        dp_LatencyMs := None, dp_StalenessMs := None, dp_Priority := 0, dp_Metadata := None\<rparr>"

record mqtt_payload =
  mp_Value :: goval
  mp_Unit :: string
  mp_Quality :: quality
  mp_Timestamp :: int

text \<open>\<open>UnixMilli\<close> rounds down.\<close>

definition ToMQTTPayload :: "data_point \<Rightarrow> mqtt_payload" where
  "ToMQTTPayload dp = \<lparr>mp_Value = dp_Value dp, mp_Unit = dp_Unit dp, mp_Quality = dp_Quality dp,
     mp_Timestamp = dp_Timestamp dp div 1000000\<rparr>"

lemma Acquire_eq_New:
  "AcquireDataPoint pooled now d t topic v u q =
     (NewDataPoint now d t topic v u q)\<lparr>dp_GatewayTimestamp := now\<rparr>"
  by (simp add: AcquireDataPoint_def NewDataPoint_def Let_def)

lemma dp_New_simps [simp]:
  "dp_DeviceID (NewDataPoint now d t topic v u q) = d" "dp_TagID (NewDataPoint now d t topic v u q) = t"
  "dp_Topic (NewDataPoint now d t topic v u q) = topic" "dp_Value (NewDataPoint now d t topic v u q) = v"
  "dp_Quality (NewDataPoint now d t topic v u q) = q" "dp_RawValue (NewDataPoint now d t topic v u q) = VNil"
  by (simp_all add: NewDataPoint_def)

lemma dp_With_simps [simp]:
  "dp_TagID (WithRawValue dp r) = dp_TagID dp" "dp_Value (WithRawValue dp r) = dp_Value dp"
  "dp_Quality (WithRawValue dp r) = dp_Quality dp" "dp_RawValue (WithRawValue dp r) = r"
  "dp_TagID (WithPriority dp p) = dp_TagID dp" "dp_Value (WithPriority dp p) = dp_Value dp"
  "dp_Quality (WithPriority dp p) = dp_Quality dp" "dp_RawValue (WithPriority dp p) = dp_RawValue dp"
  by (simp_all add: WithRawValue_def WithPriority_def)

lemma CalculateStaleness_simps [simp]:
  "dp_TagID (CalculateStaleness now i dp) = dp_TagID dp"
  "dp_Topic (CalculateStaleness now i dp) = dp_Topic dp"
  "dp_Value (CalculateStaleness now i dp) = dp_Value dp"
  "dp_Quality (CalculateStaleness now i dp) = dp_Quality dp"
  by (simp_all add: CalculateStaleness_def Let_def)

end
