(* ===== verification/ModbusConversion.thy ===== *)
theory ModbusConversion
  imports DataPoint
begin

text \<open>
  The Modbus codec (\<open>internal/adapter/modbus/conversion.go\<close>): byte reordering, decoding of
  register contents, scaling, and encoding of values to write. \<open>reorderBytes\<close> works in place
  on the slice it is given, so the model returns the buffer as well; a caller that hands it a
  window of a larger buffer sees that window changed.
\<close>

unbundle bit_operations_syntax

section \<open>Byte order\<close>

text \<open>The three loops, on indices as in the code.\<close>

function swap_ends :: "nat \<Rightarrow> nat \<Rightarrow> 'a list \<Rightarrow> 'a list" where
  "swap_ends i j xs =
     (if i < j then swap_ends (i + 1) (j - 1) (xs[i := xs ! j, j := xs ! i]) else xs)"
  by pat_completeness auto
termination
  by (relation "measure (\<lambda>(i, j, xs). j - i)") auto

function swap_adjacent :: "nat \<Rightarrow> nat \<Rightarrow> 'a list \<Rightarrow> 'a list" where
  "swap_adjacent i n xs =
     (if i + 1 < n then swap_adjacent (i + 2) n (xs[i := xs ! (i + 1), i + 1 := xs ! i]) else xs)"
  by pat_completeness auto
termination
  by (relation "measure (\<lambda>(i, n, xs). n - i)") auto

function swap_halves :: "nat \<Rightarrow> nat \<Rightarrow> 'a list \<Rightarrow> 'a list" where
  "swap_halves i n xs =
     (if i + 3 < n
      then swap_halves (i + 4) n
             (xs[i := xs ! (i + 2), i + 1 := xs ! (i + 3), i + 2 := xs ! i, i + 3 := xs ! (i + 1)])
      else xs)"
  by pat_completeness auto
termination
  by (relation "measure (\<lambda>(i, n, xs). n - i)") auto

declare swap_ends.simps [simp del] swap_adjacent.simps [simp del] swap_halves.simps [simp del]

definition reorderBytes :: "'a list \<Rightarrow> byte_order \<Rightarrow> 'a list" where
  "reorderBytes data order =
     (let n = length data
      in if n \<le> 1 then data
         else case order of
           ByteOrderBigEndian \<Rightarrow> data
         | ByteOrderLittleEndian \<Rightarrow> swap_ends 0 (n - 1) data
         | ByteOrderMidBigEndian \<Rightarrow> swap_adjacent 0 n data
         | ByteOrderMidLitEndian \<Rightarrow> swap_halves 0 n data
         | ByteOrderOther _ \<Rightarrow> data)"

text \<open>What the loops compute, as functions on the list.\<close>

fun adjacent_ref :: "'a list \<Rightarrow> 'a list" where
  "adjacent_ref (a # b # xs) = b # a # adjacent_ref xs"
| "adjacent_ref xs = xs"

fun halves_ref :: "'a list \<Rightarrow> 'a list" where
  "halves_ref (a # b # c # d # xs) = c # d # a # b # halves_ref xs"
| "halves_ref xs = xs"

definition reorder_ref :: "'a list \<Rightarrow> byte_order \<Rightarrow> 'a list" where
  "reorder_ref data order =
     (case order of
        ByteOrderLittleEndian \<Rightarrow> rev data
      | ByteOrderMidBigEndian \<Rightarrow> adjacent_ref data
      | ByteOrderMidLitEndian \<Rightarrow> halves_ref data
      | _ \<Rightarrow> data)"

lemma length_swap_ends [simp]: "length (swap_ends i j xs) = length xs"
  by (induction i j xs rule: swap_ends.induct) (subst swap_ends.simps, simp)

lemma nth_swap_ends:
  "j < length xs \<Longrightarrow> k < length xs \<Longrightarrow>
     swap_ends i j xs ! k = (if i \<le> k \<and> k \<le> j then xs ! (i + j - k) else xs ! k)"
proof (induction i j xs rule: swap_ends.induct)
  case (1 i j xs)
  show ?case
  proof (cases "i < j")
    case True
    with 1 show ?thesis
      by (subst swap_ends.simps) (auto simp: nth_list_update)
  next
    case False
    then have "i \<le> k \<Longrightarrow> k \<le> j \<Longrightarrow> i + j - k = k" by simp
    with False show ?thesis by (subst swap_ends.simps) auto
  qed
qed

lemma swap_ends_rev: "xs \<noteq> [] \<Longrightarrow> swap_ends 0 (length xs - 1) xs = rev xs"
  by (rule nth_equalityI) (auto simp: nth_swap_ends rev_nth)

lemma swap_adjacent_ref: "swap_adjacent (length p) (length (p @ xs)) (p @ xs) = p @ adjacent_ref xs"
proof (induction xs arbitrary: p rule: adjacent_ref.induct)
  case (1 a b xs)
  have "(p @ a # b # xs)[length p := b, length p + 1 := a] = (p @ [b, a]) @ xs"
    by (simp add: list_update_append)
  then show ?case
    using 1 [of "p @ [b, a]"] by (subst swap_adjacent.simps) (simp add: nth_append)
qed (subst swap_adjacent.simps, simp)+

lemma swap_halves_ref: "swap_halves (length p) (length (p @ xs)) (p @ xs) = p @ halves_ref xs"
proof (induction xs arbitrary: p rule: halves_ref.induct)
  case (1 a b c d xs)
  have "(p @ a # b # c # d # xs)
      [length p := c, length p + 1 := d, length p + 2 := a, length p + 3 := b] = (p @ [c, d, a, b]) @ xs"
    by (simp add: list_update_append numeral_eq_Suc)
  then show ?case
    using 1 [of "p @ [c, d, a, b]"]
    by (subst swap_halves.simps) (simp add: nth_append numeral_eq_Suc)
qed (subst swap_halves.simps, simp)+

lemma reorderBytes_ref: "reorderBytes data order = reorder_ref data order"
proof (cases "length data \<le> 1")
  case True
  then have "data = [] \<or> (\<exists>x. data = [x])" by (cases data) auto
  then show ?thesis
    by (auto simp: reorderBytes_def reorder_ref_def split: byte_order.split)
next
  case False
  then have "data \<noteq> []" by auto
  with False show ?thesis
    using swap_ends_rev [of data] swap_adjacent_ref [of "[]" data] swap_halves_ref [of "[]" data]
    by (auto simp: reorderBytes_def reorder_ref_def Let_def split: byte_order.split)
qed

lemma adjacent_ref_props:
  "length (adjacent_ref xs) = length xs" "adjacent_ref (adjacent_ref xs) = xs"
  "mset (adjacent_ref xs) = mset xs"
  by (induction xs rule: adjacent_ref.induct) auto

lemma halves_ref_props:
  "length (halves_ref xs) = length xs" "halves_ref (halves_ref xs) = xs"
  "mset (halves_ref xs) = mset xs"
  by (induction xs rule: halves_ref.induct) auto

section \<open>The codec's interface to the byte orders\<close>

text \<open>
  Encoder and decoder share one reordering function; all either needs of it is that it keeps
  the length and is its own inverse.
\<close>

locale byte_reordering =
  fixes reorder :: "bytes \<Rightarrow> 'o \<Rightarrow> bytes"
  assumes reorder_length: "length (reorder bs ord) = length bs"
    and reorder_involutive: "reorder (reorder bs ord) ord = bs"
begin

lemma reorder_inj: "reorder bs ord = reorder cs ord \<Longrightarrow> bs = cs"
  by (metis reorder_involutive)

lemma reorder_put_back: "n = length bs \<Longrightarrow> reorder (take n (reorder bs ord @ ys)) ord = bs"
  by (simp add: reorder_length reorder_involutive)

lemma window_twice:
  assumes "i + n \<le> length buf"
  shows "put_part (put_part buf i (reorder (part buf i n) ord)) i
           (reorder (part (put_part buf i (reorder (part buf i n) ord)) i n) ord) = buf"
proof -
  have l: "length (reorder (part buf i n) ord) = n"
    using assms by (simp add: reorder_length part_simps)
  with assms have "part (put_part buf i (reorder (part buf i n) ord)) i n = reorder (part buf i n) ord"
    by (simp add: part_simps)
  then have "reorder (part (put_part buf i (reorder (part buf i n) ord)) i n) ord = part buf i n"
    by (simp add: reorder_involutive)
  moreover have "put_part (put_part buf i ys) i zs = put_part buf i zs"
    if "length ys = n" "length zs = n" for ys zs
    using assms that by (simp add: put_part_def)
  ultimately show ?thesis using assms l by (simp add: part_simps)
qed

end

interpretation mb: byte_reordering "reorderBytes :: bytes \<Rightarrow> byte_order \<Rightarrow> bytes"
  by unfold_locales
    (auto simp: reorderBytes_ref reorder_ref_def adjacent_ref_props halves_ref_props split: byte_order.split)

section \<open>Decoding\<close>

text \<open>
  \<open>decode_registers\<close> is the switch of \<open>parseValue\<close> on the data type. Reading past the slice
  panics, which the validation of tags rules out.
\<close>

definition out_of_range :: "('e, 'a) res" where
  "out_of_range = Crash ''index out of range''"

definition decode_registers :: "bytes \<Rightarrow> tag \<Rightarrow> (gerror, goval) res" where
  "decode_registers d t =
     (case tag_DataType t of
        DataTypeBool \<Rightarrow>
          (case tag_BitPosition t of
             Some bp \<Rightarrow>
               if length d < 2 then out_of_range
               else Ok (VBool (BE_Uint16 d AND push_bit (unat bp) 1 \<noteq> 0))
           | None \<Rightarrow>
               if length d < 1 then out_of_range
               else if d ! 0 \<noteq> 0 then Ok (VBool True)
               else if length d < 2 then out_of_range
               else Ok (VBool (d ! 1 \<noteq> 0)))
      | DataTypeInt16 \<Rightarrow> if length d < 2 then out_of_range else Ok (VInt16 (BE_Uint16 d))
      | DataTypeUInt16 \<Rightarrow> if length d < 2 then out_of_range else Ok (VUint16 (BE_Uint16 d))
      | DataTypeInt32 \<Rightarrow> if length d < 4 then out_of_range else Ok (VInt32 (BE_Uint32 d))
      | DataTypeUInt32 \<Rightarrow> if length d < 4 then out_of_range else Ok (VUint32 (BE_Uint32 d))
      | DataTypeInt64 \<Rightarrow> if length d < 8 then out_of_range else Ok (VInt64 (BE_Uint64 d))
      | DataTypeUInt64 \<Rightarrow> if length d < 8 then out_of_range else Ok (VUint64 (BE_Uint64 d))
      | DataTypeFloat32 \<Rightarrow> if length d < 4 then out_of_range else Ok (VFloat32 (BE_Uint32 d))
      | DataTypeFloat64 \<Rightarrow> if length d < 8 then out_of_range else Ok (VFloat64 (BE_Uint64 d))
      | _ \<Rightarrow> Err (Sentinel (RWE ErrInvalidDataType)))"

text \<open>\<open>parseValue\<close>: the buffer as it leaves it, and the value or the error.\<close>

definition is_bit_type :: "register_type \<Rightarrow> bool" where
  "is_bit_type r = (r = RegisterTypeCoil \<or> r = RegisterTypeDiscreteInput)"

definition parseValue :: "bytes \<Rightarrow> tag \<Rightarrow> bytes \<times> (gerror, goval) res" where
  "parseValue data t =
     (if data = [] then (data, Err (Sentinel (RWE ErrInvalidDataLength)))
      else if is_bit_type (tag_RegisterType t)
      then (data, Ok (VBool (case tag_BitPosition t of
                               Some bp \<Rightarrow> data ! 0 AND push_bit (unat bp) 1 \<noteq> 0
                             | None \<Rightarrow> data ! 0 \<noteq> 0)))
      else
        (let expectedLen = unat (tag_RegisterCount t) * 2
         in if length data < expectedLen then (data, Err (Sentinel (RWE ErrInvalidDataLength)))
            else (let ordered = reorderBytes (take expectedLen data) (tag_ByteOrder t)
                  in (ordered @ drop expectedLen data, decode_registers ordered t))))"

section \<open>Scaling\<close>

definition unscaled :: "tag \<Rightarrow> bool" where
  "unscaled t = (f64_eq (tag_ScaleFactor t) f64_one \<and> f64_eq (tag_Offset t) f64_zero)"

definition applyScaling :: "goval \<Rightarrow> tag \<Rightarrow> goval" where
  "applyScaling v t =
     (if unscaled t then v
      else
        (let scale = (\<lambda>f. VFloat64 (f64_add (f64_mul f (tag_ScaleFactor t)) (tag_Offset t)))
         in case v of
              VInt16 w \<Rightarrow> scale (f64_of_int (sint w))
            | VUint16 w \<Rightarrow> scale (f64_of_int (uint w))
            | VInt32 w \<Rightarrow> scale (f64_of_int (sint w))
            | VUint32 w \<Rightarrow> scale (f64_of_int (uint w))
            | VInt64 w \<Rightarrow> scale (f64_of_int (sint w))
            | VUint64 w \<Rightarrow> scale (f64_of_int (uint w))
            | VFloat32 x \<Rightarrow> scale (f64_of_f32 x)
            | VFloat64 x \<Rightarrow> scale x
            | VBool b \<Rightarrow> v
            | _ \<Rightarrow> v))"

definition reverseScaling :: "goval \<Rightarrow> tag \<Rightarrow> goval" where
  "reverseScaling v t =
     (if unscaled t then v
      else case toFloat64 v of
        None \<Rightarrow> v
      | Some f \<Rightarrow> VFloat64 (f64_div (f64_sub f (tag_Offset t)) (tag_ScaleFactor t)))"

section \<open>Encoding\<close>

text \<open>\<open>%T\<close>: the name of the dynamic type.\<close>

primrec type_name :: "goval \<Rightarrow> string" where
  "type_name VNil = ''<nil>''"
| "type_name (VBool b) = ''bool''"
| "type_name (VInt w) = ''int''"
| "type_name (VInt8 w) = ''int8''"
| "type_name (VInt16 w) = ''int16''"
| "type_name (VInt32 w) = ''int32''"
| "type_name (VInt64 w) = ''int64''"
| "type_name (VUint w) = ''uint''"
| "type_name (VUint8 w) = ''uint8''"
| "type_name (VUint16 w) = ''uint16''"
| "type_name (VUint32 w) = ''uint32''"
| "type_name (VUint64 w) = ''uint64''"
| "type_name (VFloat32 x) = ''float32''"
| "type_name (VFloat64 x) = ''float64''"
| "type_name (VString s) = ''string''"

definition cannot_convert :: "goval \<Rightarrow> string \<Rightarrow> gerror" where
  "cannot_convert v target =
     WrapV (WriteE ErrInvalidWriteValue) (''cannot convert '' @ type_name v @ '' to '' @ target)"

definition encode_registers :: "arch \<Rightarrow> goval \<Rightarrow> goval \<Rightarrow> tag \<Rightarrow> (gerror, bytes) res" where
  "encode_registers A v actual t =
     (case tag_DataType t of
        DataTypeBool \<Rightarrow> Ok (if toBool actual = Some True then BE_PutUint16 1 else [0, 0])
      | DataTypeInt16 \<Rightarrow>
          (case toInt64 A actual of Some w \<Rightarrow> Ok (BE_PutUint16 (ucast w))
           | None \<Rightarrow> Err (cannot_convert v ''int16''))
      | DataTypeUInt16 \<Rightarrow>
          (case toInt64 A actual of Some w \<Rightarrow> Ok (BE_PutUint16 (ucast w))
           | None \<Rightarrow> Err (cannot_convert v ''uint16''))
      | DataTypeInt32 \<Rightarrow>
          (case toInt64 A actual of Some w \<Rightarrow> Ok (BE_PutUint32 (ucast w))
           | None \<Rightarrow> Err (cannot_convert v ''int32''))
      | DataTypeUInt32 \<Rightarrow>
          (case toInt64 A actual of Some w \<Rightarrow> Ok (BE_PutUint32 (ucast w))
           | None \<Rightarrow> Err (cannot_convert v ''uint32''))
      | DataTypeInt64 \<Rightarrow>
          (case toInt64 A actual of Some w \<Rightarrow> Ok (BE_PutUint64 w)
           | None \<Rightarrow> Err (cannot_convert v ''int64''))
      | DataTypeUInt64 \<Rightarrow>
          (case toUint64 A actual of Some w \<Rightarrow> Ok (BE_PutUint64 w)
           | None \<Rightarrow> Err (cannot_convert v ''uint64''))
      | DataTypeFloat32 \<Rightarrow>
          (case toFloat64 actual of Some x \<Rightarrow> Ok (BE_PutUint32 (f32_of_f64 x))
           | None \<Rightarrow> Err (cannot_convert v ''float32''))
      | DataTypeFloat64 \<Rightarrow>
          (case toFloat64 actual of Some x \<Rightarrow> Ok (BE_PutUint64 x)
           | None \<Rightarrow> Err (cannot_convert v ''float64''))
      | dt \<Rightarrow> Err (WrapV (RWE ErrInvalidDataType) (''unsupported data type '' @ data_type_text dt)))"

definition valueToBytes :: "arch \<Rightarrow> goval \<Rightarrow> tag \<Rightarrow> (gerror, bytes) res" where
  "valueToBytes A v t =
     (case encode_registers A v (reverseScaling v t) t of
        Ok bs \<Rightarrow> Ok (reorderBytes bs (tag_ByteOrder t))
      | r \<Rightarrow> r)"

section \<open>Decoding never panics on a validated tag\<close>

lemma ready_register_count:
  assumes "modbus_ready t"
  shows "unat (ExpectedRegisterCount t) \<le> unat (tag_RegisterCount t)"
  using assms by (simp add: modbus_ready_def word_le_nat_alt)

lemma unat_Expected [simp]:
  "tag_DataType t = DataTypeInt32 \<Longrightarrow> unat (ExpectedRegisterCount t) = 2"
  "tag_DataType t = DataTypeUInt32 \<Longrightarrow> unat (ExpectedRegisterCount t) = 2"
  "tag_DataType t = DataTypeFloat32 \<Longrightarrow> unat (ExpectedRegisterCount t) = 2"
  "tag_DataType t = DataTypeInt64 \<Longrightarrow> unat (ExpectedRegisterCount t) = 4"
  "tag_DataType t = DataTypeUInt64 \<Longrightarrow> unat (ExpectedRegisterCount t) = 4"
  "tag_DataType t = DataTypeFloat64 \<Longrightarrow> unat (ExpectedRegisterCount t) = 4"
  "tag_DataType t = DataTypeInt16 \<Longrightarrow> unat (ExpectedRegisterCount t) = 1"
  "tag_DataType t = DataTypeUInt16 \<Longrightarrow> unat (ExpectedRegisterCount t) = 1"
  "tag_DataType t = DataTypeBool \<Longrightarrow> unat (ExpectedRegisterCount t) = 1"
  by (simp_all add: ExpectedRegisterCount_def)

lemma decode_registers_no_crash:
  assumes "unat (ExpectedRegisterCount t) * 2 \<le> length d"
  shows "\<not> crashes (decode_registers d t)"
  using assms unfolding decode_registers_def
  by (cases "tag_DataType t") (auto split: option.split)

lemma parseValue_no_crash:
  assumes "modbus_ready t"
  shows "\<not> crashes (snd (parseValue data t))"
proof -
  let ?n = "unat (tag_RegisterCount t) * 2"
  have "\<not> crashes (decode_registers (reorderBytes (take ?n data) (tag_ByteOrder t)) t)"
    if "?n \<le> length data"
  proof (rule decode_registers_no_crash)
    show "unat (ExpectedRegisterCount t) * 2 \<le> length (reorderBytes (take ?n data) (tag_ByteOrder t))"
      using ready_register_count [OF assms] that by (simp add: mb.reorder_length)
  qed
  then show ?thesis by (auto simp: parseValue_def Let_def not_less)
qed

lemma parseValue_length [simp]: "length (fst (parseValue data t)) = length data"
  by (simp add: parseValue_def Let_def mb.reorder_length)

section \<open>Write, then read back\<close>

text \<open>The value that a register of the tag's type holds after a value is written to it.\<close>

definition wire_value :: "arch \<Rightarrow> goval \<Rightarrow> data_type \<Rightarrow> goval option" where
  "wire_value A v dt =
     (case dt of
        DataTypeBool \<Rightarrow> Some (VBool (toBool v = Some True))
      | DataTypeInt16 \<Rightarrow> map_option (\<lambda>w. VInt16 (ucast w)) (toInt64 A v)
      | DataTypeUInt16 \<Rightarrow> map_option (\<lambda>w. VUint16 (ucast w)) (toInt64 A v)
      | DataTypeInt32 \<Rightarrow> map_option (\<lambda>w. VInt32 (ucast w)) (toInt64 A v)
      | DataTypeUInt32 \<Rightarrow> map_option (\<lambda>w. VUint32 (ucast w)) (toInt64 A v)
      | DataTypeInt64 \<Rightarrow> map_option VInt64 (toInt64 A v)
      | DataTypeUInt64 \<Rightarrow> map_option VUint64 (toUint64 A v)
      | DataTypeFloat32 \<Rightarrow> map_option (\<lambda>x. VFloat32 (f32_of_f64 x)) (toFloat64 v)
      | DataTypeFloat64 \<Rightarrow> map_option VFloat64 (toFloat64 v)
      | _ \<Rightarrow> None)"

lemma encode_registers_length:
  "encode_registers A v w t = Ok bs \<Longrightarrow> length bs = unat (ExpectedRegisterCount t) * 2"
  by (auto simp: encode_registers_def split: data_type.splits option.splits)

lemma put_one: "BE_PutUint16 1 = [0, 1]"
  by (simp add: BE_PutUint16_def numeral_2_eq_2)

lemma decode_encode_registers:
  assumes "encode_registers A v w t = Ok bs" and "tag_BitPosition t = None"
  shows "\<exists>x. wire_value A w (tag_DataType t) = Some x \<and> decode_registers bs t = Ok x"
  using assms
  by (auto simp: encode_registers_def decode_registers_def wire_value_def put_one codec_simps
      split: data_type.splits option.splits if_splits)

text \<open>A full read of what was encoded hands the decoder the bytes before reordering.\<close>

lemma parse_encoded:
  assumes "valueToBytes A v t = Ok bs" and "\<not> is_bit_type (tag_RegisterType t)"
    and "tag_RegisterCount t = ExpectedRegisterCount t"
  obtains raw where "encode_registers A v (reverseScaling v t) t = Ok raw"
    and "snd (parseValue bs t) = decode_registers raw t"
proof -
  from assms(1) obtain raw where raw: "encode_registers A v (reverseScaling v t) t = Ok raw"
    and bs: "bs = reorderBytes raw (tag_ByteOrder t)"
    by (auto simp: valueToBytes_def split: res.splits)
  have len: "length bs = unat (tag_RegisterCount t) * 2"
    using encode_registers_length [OF raw] assms(3) by (simp add: bs mb.reorder_length)
  have "0 < unat (ExpectedRegisterCount t)"
    by (simp add: unat_gt_0)
  then have "bs \<noteq> []" using len assms(3) by auto
  then have "snd (parseValue bs t) = decode_registers raw t"
    using assms(2) len by (simp add: parseValue_def Let_def bs mb.reorder_involutive)
  with raw show thesis by (rule that)
qed

lemma write_read_back:
  assumes "valueToBytes A v t = Ok bs" and "\<not> is_bit_type (tag_RegisterType t)"
    and "tag_RegisterCount t = ExpectedRegisterCount t"
    and "unscaled t" and "tag_BitPosition t = None"
  shows "\<exists>x. wire_value A v (tag_DataType t) = Some x \<and> snd (parseValue bs t) = Ok x"
proof -
  from assms(1-3) obtain raw where raw: "encode_registers A v (reverseScaling v t) t = Ok raw"
    and parse: "snd (parseValue bs t) = decode_registers raw t" by (rule parse_encoded)
  have "reverseScaling v t = v" using assms(4) by (simp add: reverseScaling_def)
  with decode_encode_registers [OF raw assms(5)] parse show ?thesis by simp
qed

text \<open>One bit of a register: the bit the encoder sets is always bit 0.\<close>

lemma one_and_power: "(1 :: u16) AND 2 ^ n \<noteq> 0 \<longleftrightarrow> n = 0"
proof (cases n)
  case 0
  then show ?thesis by simp
next
  case (Suc m)
  have "(1 :: u16) AND push_bit n 1 = 0"
    by (rule bit_word_eqI) (auto simp: Suc bit_and_iff bit_push_bit_iff bit_1_iff simp del: push_bit_of_1)
  with Suc show ?thesis by simp
qed

lemma write_bit_reads_back:
  assumes "valueToBytes A (VBool b) t = Ok bs" and "\<not> is_bit_type (tag_RegisterType t)"
    and "tag_RegisterCount t = ExpectedRegisterCount t"
    and "tag_DataType t = DataTypeBool" and "tag_BitPosition t = Some bp"
  shows "snd (parseValue bs t) = Ok (VBool (b \<and> bp = 0))"
proof -
  from assms(1-3) obtain raw
    where raw: "encode_registers A (VBool b) (reverseScaling (VBool b) t) t = Ok raw"
    and parse: "snd (parseValue bs t) = decode_registers raw t" by (rule parse_encoded)
  have rs: "reverseScaling (VBool b) t = VBool b"
    by (simp add: reverseScaling_def toFloat64_def)
  have one: "BE_Uint16 [0, 1] = 1" using BE_get_put(1) [of 1] by (simp add: put_one)
  have zero: "BE_Uint16 [0, 0] = 0" by (simp add: BE_Uint16_def be_val_def)
  show ?thesis
    using raw assms(4,5) unfolding parse rs
    by (cases b) (auto simp: encode_registers_def toBool_def put_one decode_registers_def one zero
        one_and_power unat_eq_0)
qed

section \<open>The properties of the codec\<close>

text \<open>
  C1. Decoding a validated Modbus tag never panics, whatever bytes the device sent: validation
  guarantees enough registers for every fixed-width read the decoder makes.
\<close>

theorem validated_tag_decodes_safely:
  assumes "p = ProtocolModbusTCP \<or> p = ProtocolModbusRTU"
    and "ValidateForProtocol p t = Ok t'"
  shows "\<not> crashes (snd (parseValue data t'))"
  using assms by (intro parseValue_no_crash validate_ready)

theorem validated_tag_decodes_safely_witness:
  "\<not> crashes (snd (parseValue [0, 1] sample_ready))"
  by (rule validated_tag_decodes_safely [OF _ sample_tag_validates]) simp


definition sample_arch :: arch where
  "sample_arch = \<lparr>cvt_i64 = (\<lambda>_. 0x8000000000000000), cvt_u64 = (\<lambda>_. 0x8000000000000000)\<rparr>"


text \<open>
  Writing a boolean tag that is one bit of a holding register does not set that bit: the
  encoder ignores the bit position and writes the whole register as 1 or 0, so writing true
  reads back true only for bit 0.
\<close>

theorem modbus_register_bit_write:
  assumes "valueToBytes A (VBool b) t = Ok bs" and "\<not> is_bit_type (tag_RegisterType t)"
    and "tag_RegisterCount t = ExpectedRegisterCount t"
    and "tag_DataType t = DataTypeBool" and "tag_BitPosition t = Some bp"
  shows "snd (parseValue bs t) = Ok (VBool (b \<and> bp = 0))"
  using assms by (rule write_bit_reads_back)

definition sample_bit :: tag where
  "sample_bit = sample_ready\<lparr>tag_DataType := DataTypeBool, tag_RegisterCount := 1,
     tag_BitPosition := Some 3\<rparr>"

theorem modbus_register_bit_write_witness:
  "snd (parseValue [0, 1] sample_bit) = Ok (VBool False)"
proof -
  have e: "valueToBytes sample_arch (VBool True) sample_bit = Ok [0, 1]" by code_simp
  show ?thesis
    using modbus_register_bit_write [OF e, of 3]
    by (simp add: sample_bit_def sample_ready_def sample_tag_def is_bit_type_def
        ExpectedRegisterCount_def)
qed

end
