(* ===== verification/ModbusBatch.thy ===== *)
theory ModbusBatch
  imports ModbusConversion
begin

text \<open>
  Range batching of the Modbus client (\<open>internal/adapter/modbus/client.go\<close>): the insertion
  sort of the tags by address, and the merging of sorted tags into ranges that one request
  reads, for registers (\<open>buildContiguousRanges\<close>) and for coils (\<open>buildCoilRanges\<close>). Addresses
  and counts are 16-bit words and wrap as \<open>uint16\<close> does.
\<close>

section \<open>The insertion sort\<close>

fun sift_down :: "nat \<Rightarrow> tag list \<Rightarrow> tag list" where
  "sift_down 0 tags = tags"
| "sift_down (Suc j) tags =
     (if tag_Address (tags ! Suc j) < tag_Address (tags ! j)
      then sift_down j (tags[Suc j := tags ! j, j := tags ! Suc j]) else tags)"

function sort_from :: "nat \<Rightarrow> tag list \<Rightarrow> tag list" where
  "sort_from i tags = (if i < length tags then sort_from (i + 1) (sift_down i tags) else tags)"
  by pat_completeness auto

lemma length_sift_down [simp]: "length (sift_down j tags) = length tags"
  by (induction j tags rule: sift_down.induct) auto

termination sort_from
  by (relation "measure (\<lambda>(i, tags). length tags - i)") auto

declare sort_from.simps [simp del]

definition sortTagsByAddress :: "tag list \<Rightarrow> tag list" where
  "sortTagsByAddress tags = sort_from 1 tags"

text \<open>One pass moves the element left past every strictly larger one of the sorted prefix.\<close>

definition insert_after :: "tag \<Rightarrow> tag list \<Rightarrow> tag list" where
  "insert_after x p =
     takeWhile (\<lambda>y. tag_Address y \<le> tag_Address x) p @ [x] @
     dropWhile (\<lambda>y. tag_Address y \<le> tag_Address x) p"

lemma sift_down_insert:
  "sorted (map tag_Address p) \<Longrightarrow> sift_down (length p) (p @ x # r) = insert_after x p @ r"
proof (induction p arbitrary: r rule: rev_induct)
  case Nil
  show ?case by (simp add: insert_after_def)
next
  case (snoc y p)
  show ?case
  proof (cases "tag_Address x < tag_Address y")
    case True
    have "(p @ y # x # r)[Suc (length p) := y, length p := x] = p @ x # y # r"
      by (simp add: list_update_append)
    with True snoc show ?thesis
      by (simp add: nth_append insert_after_def sorted_append takeWhile_append dropWhile_append)
  next
    case False
    with snoc.prems have "\<forall>z\<in>set (p @ [y]). tag_Address z \<le> tag_Address x"
      by (auto simp: sorted_append)
    then have "takeWhile (\<lambda>z. tag_Address z \<le> tag_Address x) (p @ [y]) = p @ [y]"
      "dropWhile (\<lambda>z. tag_Address z \<le> tag_Address x) (p @ [y]) = []"
      by (simp_all add: takeWhile_eq_all_conv dropWhile_eq_Nil_conv)
    with False show ?thesis by (simp add: nth_append insert_after_def)
  qed
qed

lemma mset_insert_after: "mset (insert_after x p) = add_mset x (mset p)"
  by (simp add: insert_after_def)
    (metis mset_append takeWhile_dropWhile_id union_mset_add_mset_left)

lemma sorted_insert_after:
  assumes "sorted (map tag_Address p)"
  shows "sorted (map tag_Address (insert_after x p))"
proof -
  let ?P = "\<lambda>y. tag_Address y \<le> tag_Address x"
  have d: "\<forall>z\<in>set (dropWhile ?P p). tag_Address x \<le> tag_Address z"
  proof (cases "dropWhile ?P p")
    case Nil
    show ?thesis unfolding Nil by simp
  next
    case (Cons w ws)
    then have "\<not> ?P w" by (simp add: dropWhile_eq_Cons_conv)
    moreover have "sorted (map tag_Address (w # ws))"
      using assms unfolding Cons [symmetric] by (metis dropWhile_eq_drop sorted_wrt_drop drop_map)
    ultimately show ?thesis unfolding Cons by auto
  qed
  have t: "sorted (map tag_Address (takeWhile ?P p))" "sorted (map tag_Address (dropWhile ?P p))"
    using assms by (metis takeWhile_eq_take sorted_wrt_take take_map)
      (metis assms dropWhile_eq_drop sorted_wrt_drop drop_map)
  have l: "\<forall>z\<in>set (takeWhile ?P p). ?P z" by (auto dest: set_takeWhileD)
  show ?thesis
    using d t l by (auto simp: insert_after_def sorted_append intro: order_trans)
qed

lemma filter_insert_after:
  assumes "sorted (map tag_Address p)"
  shows "filter (\<lambda>y. tag_Address y = k) (insert_after x p) =
    filter (\<lambda>y. tag_Address y = k) p @ filter (\<lambda>y. tag_Address y = k) [x]"
proof (cases "tag_Address x = k")
  case False
  then show ?thesis
    by (simp add: insert_after_def) (metis filter_append takeWhile_dropWhile_id)
next
  case True
  let ?P = "\<lambda>y. tag_Address y \<le> tag_Address x"
  have "filter (\<lambda>y. tag_Address y = k) (dropWhile ?P p) = []"
  proof (cases "dropWhile ?P p")
    case (Cons w ws)
    then have "\<not> ?P w" by (simp add: dropWhile_eq_Cons_conv)
    moreover have "sorted (map tag_Address (w # ws))"
      using assms unfolding Cons [symmetric] by (metis dropWhile_eq_drop sorted_wrt_drop drop_map)
    ultimately show ?thesis using True unfolding Cons by (auto simp: filter_empty_conv)
  next
    case Nil
    show ?thesis unfolding Nil by simp
  qed
  then show ?thesis
    using True by (simp add: insert_after_def)
      (metis append_Nil2 filter_append takeWhile_dropWhile_id)
qed

text \<open>The whole sort is the library's stable sort by address.\<close>

lemma sort_from_inv:
  assumes "i \<le> length tags" and "sorted (map tag_Address (take i tags))"
  shows "sorted (map tag_Address (sort_from i tags)) \<and> mset (sort_from i tags) = mset tags \<and>
    (\<forall>k. filter (\<lambda>y. tag_Address y = k) (sort_from i tags) = filter (\<lambda>y. tag_Address y = k) tags)"
  using assms
proof (induction i tags rule: sort_from.induct)
  case (1 i tags)
  show ?case
  proof (cases "i < length tags")
    case False
    then have "sort_from i tags = tags" by (subst sort_from.simps) simp
    with False 1(2,3) show ?thesis by simp
  next
    case True
    let ?p = "take i tags" and ?x = "tags ! i" and ?r = "drop (Suc i) tags"
    have split: "tags = ?p @ ?x # ?r" using True by (rule id_take_nth_drop)
    have sift: "sift_down i tags = insert_after ?x ?p @ ?r"
      using sift_down_insert [OF 1(3), of ?x ?r] True split by (simp add: min_def)
    have len: "length (insert_after ?x ?p) = Suc i"
      using True by (metis mset_insert_after size_mset size_add_mset length_take min.absorb4)
    have "take (i + 1) (sift_down i tags) = insert_after ?x ?p"
      unfolding sift using len by simp
    then have IH: "sorted (map tag_Address (sort_from (i + 1) (sift_down i tags)))"
      "mset (sort_from (i + 1) (sift_down i tags)) = mset (sift_down i tags)"
      "\<And>k. filter (\<lambda>y. tag_Address y = k) (sort_from (i + 1) (sift_down i tags)) =
         filter (\<lambda>y. tag_Address y = k) (sift_down i tags)"
      using "1.IH" [OF True] True sorted_insert_after [OF 1(3)] by auto
    have m: "mset (sift_down i tags) = mset tags"
      by (subst (2) split) (simp add: sift mset_insert_after)
    have f: "filter (\<lambda>y. tag_Address y = k) (sift_down i tags) = filter (\<lambda>y. tag_Address y = k) tags" for k
      by (subst (2) split) (simp add: sift filter_insert_after [OF 1(3)])
    show ?thesis using IH True m f by (simp add: sort_from.simps [of i tags])
  qed
qed

lemma sortTagsByAddress_sort_key: "sortTagsByAddress tags = sort_key tag_Address tags"
proof (cases "tags = []")
  case True
  then show ?thesis by (simp add: sortTagsByAddress_def sort_from.simps)
next
  case False
  then have "sorted (map tag_Address (take 1 tags))" by (cases tags) auto
  with False have inv: "sorted (map tag_Address (sort_from 1 tags))" "mset (sort_from 1 tags) = mset tags"
    "\<And>k. filter (\<lambda>y. tag_Address y = k) (sort_from 1 tags) = filter (\<lambda>y. tag_Address y = k) tags"
    using sort_from_inv [of 1 tags] by (auto simp: Suc_le_eq)
  have "sort_key tag_Address tags = sort_from 1 tags"
  proof (rule properties_for_sort_key)
    show "mset (sort_from 1 tags) = mset tags" by (rule inv(2))
    show "filter (\<lambda>y. tag_Address k = tag_Address y) (sort_from 1 tags) =
        filter (\<lambda>y. tag_Address k = tag_Address y) tags" for k
      using inv(3) [of "tag_Address k"] by (simp add: eq_commute)
    show "sorted (map tag_Address (sort_from 1 tags))" by (rule inv(1))
  qed
  then show ?thesis by (simp add: sortTagsByAddress_def)
qed

lemma set_sortTagsByAddress [simp]: "set (sortTagsByAddress tags) = set tags"
  and mset_sortTagsByAddress [simp]: "mset (sortTagsByAddress tags) = mset tags"
  and sorted_sortTagsByAddress: "sorted (map tag_Address (sortTagsByAddress tags))"
  by (simp_all add: sortTagsByAddress_sort_key)

section \<open>Ranges\<close>

record register_range =
  rr_StartAddress :: u16
  rr_EndAddress :: u16
  rr_Tags :: "tag list"

record batch_config =
  bc_MaxRegistersPerRead :: u16
  bc_MaxGapSize :: u16

definition DefaultBatchConfig :: batch_config where
  "DefaultBatchConfig = \<lparr>bc_MaxRegistersPerRead = 100, bc_MaxGapSize = 10\<rparr>"

record coil_batch_config =
  cbc_MaxCoilsPerRead :: u16
  cbc_MaxGapSize :: u16

definition DefaultCoilBatchConfig :: coil_batch_config where
  "DefaultCoilBatchConfig = \<lparr>cbc_MaxCoilsPerRead = 1000, cbc_MaxGapSize = 32\<rparr>"

text \<open>The last address of a tag, in \<open>uint16\<close>.\<close>

definition tag_end :: "tag \<Rightarrow> u16" where
  "tag_end t = tag_Address t + tag_RegisterCount t - 1"

definition new_range :: "tag \<Rightarrow> register_range" where
  "new_range t = \<lparr>rr_StartAddress = tag_Address t, rr_EndAddress = tag_end t, rr_Tags = [t]\<rparr>"

text \<open>The loop over the sorted tags, with the range being built.\<close>

fun merge_ranges :: "u16 \<Rightarrow> u16 \<Rightarrow> register_range \<Rightarrow> tag list \<Rightarrow> register_range list" where
  "merge_ranges maxSize maxGap current [] = [current]"
| "merge_ranges maxSize maxGap current (t # ts) =
     (let tagEnd = tag_end t;
          gap = uint (tag_Address t) - uint (rr_EndAddress current) - 1;
          newRangeSize = tagEnd - rr_StartAddress current + 1
      in if gap \<le> uint maxGap \<and> newRangeSize \<le> maxSize
         then merge_ranges maxSize maxGap
                (current\<lparr>rr_EndAddress := (if rr_EndAddress current < tagEnd then tagEnd
                                           else rr_EndAddress current),
                         rr_Tags := rr_Tags current @ [t]\<rparr>) ts
         else current # merge_ranges maxSize maxGap (new_range t) ts)"

definition buildContiguousRanges :: "tag list \<Rightarrow> batch_config \<Rightarrow> register_range list" where
  "buildContiguousRanges tags config =
     (case sortTagsByAddress tags of
        [] \<Rightarrow> []
      | t # ts \<Rightarrow> merge_ranges (bc_MaxRegistersPerRead config) (bc_MaxGapSize config) (new_range t) ts)"

definition buildCoilRanges :: "tag list \<Rightarrow> coil_batch_config \<Rightarrow> register_range list" where
  "buildCoilRanges tags config =
     (case sortTagsByAddress tags of
        [] \<Rightarrow> []
      | t # ts \<Rightarrow> merge_ranges (cbc_MaxCoilsPerRead config) (cbc_MaxGapSize config) (new_range t) ts)"

lemma merge_ranges_tags: "concat (map rr_Tags (merge_ranges M G cur ts)) = rr_Tags cur @ ts"
  by (induction M G cur ts rule: merge_ranges.induct) (auto simp: Let_def new_range_def)

lemma merge_ranges_nonempty:
  "rr_Tags cur \<noteq> [] \<Longrightarrow> r \<in> set (merge_ranges M G cur ts) \<Longrightarrow> rr_Tags r \<noteq> []"
  by (induction M G cur ts rule: merge_ranges.induct) (auto simp: Let_def new_range_def split: if_splits)

subsection \<open>Ranges cover their tags and stay within the size limit\<close>

text \<open>A tag that lies inside the 16-bit address space.\<close>

definition fits :: "tag \<Rightarrow> bool" where
  "fits t \<longleftrightarrow> 0 < uint (tag_RegisterCount t) \<and> uint (tag_Address t) + uint (tag_RegisterCount t) \<le> 2 ^ 16"

definition range_size :: "register_range \<Rightarrow> int" where
  "range_size r = uint (rr_EndAddress r) - uint (rr_StartAddress r) + 1"

definition covers :: "register_range \<Rightarrow> tag \<Rightarrow> bool" where
  "covers r t \<longleftrightarrow> uint (rr_StartAddress r) \<le> uint (tag_Address t) \<and>
     uint (tag_Address t) + uint (tag_RegisterCount t) \<le> uint (rr_EndAddress r) + 1"

definition range_ok :: "int \<Rightarrow> register_range \<Rightarrow> bool" where
  "range_ok N r \<longleftrightarrow> rr_Tags r \<noteq> [] \<and> 1 \<le> range_size r \<and> range_size r \<le> N \<and>
     (\<forall>t\<in>set (rr_Tags r). covers r t)"

lemma uint_tag_end:
  assumes "fits t"
  shows "uint (tag_end t) = uint (tag_Address t) + uint (tag_RegisterCount t) - 1"
proof -
  have "uint (tag_end t) = (uint (tag_Address t) + uint (tag_RegisterCount t) - 1) mod 2 ^ 16"
    by (simp add: tag_end_def uint_word_ariths mod_simps)
  also have "\<dots> = uint (tag_Address t) + uint (tag_RegisterCount t) - 1"
    using assms by (intro mod_pos_pos_trivial) (auto simp: fits_def add_nonneg_pos)
  finally show ?thesis .
qed

lemma range_ok_new: "fits t \<Longrightarrow> uint (tag_RegisterCount t) \<le> N \<Longrightarrow> range_ok N (new_range t)"
  by (simp add: range_ok_def new_range_def range_size_def uint_tag_end covers_def)
    (simp add: fits_def)

text \<open>The size the code compares is the true one: it cannot wrap around to 0.\<close>

lemma new_size_exact:
  assumes "range_ok N cur" and "fits t" and "uint (tag_RegisterCount t) \<le> N"
    and "uint (rr_StartAddress cur) \<le> uint (tag_Address t)"
    and gap: "uint (tag_Address t) - uint (rr_EndAddress cur) - 1 \<le> G"
    and N: "2 * N + G < 2 ^ 16"
  shows "uint (tag_end t - rr_StartAddress cur + 1) = uint (tag_end t) - uint (rr_StartAddress cur) + 1"
proof -
  have "uint (tag_end t - rr_StartAddress cur + 1) =
      (uint (tag_end t) - uint (rr_StartAddress cur) + 1) mod 2 ^ 16"
    by (simp add: uint_word_ariths mod_simps)
  also have "\<dots> = uint (tag_end t) - uint (rr_StartAddress cur) + 1"
  proof (rule mod_pos_pos_trivial)
    show "0 \<le> uint (tag_end t) - uint (rr_StartAddress cur) + 1"
      using assms(2,4) by (simp add: uint_tag_end fits_def)
    have "uint (tag_end t) - uint (rr_StartAddress cur) + 1 \<le> 2 * N + G"
      using assms(1,3) gap by (simp add: uint_tag_end [OF assms(2)] range_ok_def range_size_def)
    with N show "uint (tag_end t) - uint (rr_StartAddress cur) + 1 < 2 ^ 16" by simp
  qed
  finally show ?thesis .
qed

lemma extend_ok:
  assumes "range_ok N cur" and "fits t" and "uint (rr_StartAddress cur) \<le> uint (tag_Address t)"
    and "uint (tag_end t) - uint (rr_StartAddress cur) + 1 \<le> N"
  shows "range_ok N (cur\<lparr>rr_EndAddress := (if rr_EndAddress cur < tag_end t then tag_end t
      else rr_EndAddress cur), rr_Tags := rr_Tags cur @ [t]\<rparr>)"
  using assms uint_tag_end [OF assms(2)]
  by (auto simp: range_ok_def range_size_def covers_def word_less_def not_less)

lemma merge_ranges_ok:
  assumes "range_ok N cur" and "\<forall>t\<in>set ts. fits t \<and> uint (tag_RegisterCount t) \<le> N"
    and "\<forall>t\<in>set ts. rr_StartAddress cur \<le> tag_Address t"
    and "sorted (map tag_Address ts)" and "uint M \<le> N" and "2 * N + uint G < 2 ^ 16"
  shows "\<forall>r\<in>set (merge_ranges M G cur ts). range_ok N r"
  using assms
proof (induction M G cur ts rule: merge_ranges.induct)
  case (1 M G cur)
  then show ?case by simp
next
  case (2 M G cur t ts)
  let ?merge = "uint (tag_Address t) - uint (rr_EndAddress cur) - 1 \<le> uint G \<and>
      tag_end t - rr_StartAddress cur + 1 \<le> M"
  have t: "fits t" "uint (tag_RegisterCount t) \<le> N"
    "uint (rr_StartAddress cur) \<le> uint (tag_Address t)"
    using "2.prems"(2,3) by (auto simp: word_le_def)
  show ?case
  proof (cases ?merge)
    case True
    have "uint (tag_end t - rr_StartAddress cur + 1) \<le> uint M"
      using True by (simp add: word_le_def)
    then have "uint (tag_end t) - uint (rr_StartAddress cur) + 1 \<le> N"
      using new_size_exact [OF "2.prems"(1) t(1,2,3) conjunct1 [OF True] "2.prems"(6)] "2.prems"(5)
      by simp
    from "2.IH"(1) [OF refl refl refl True extend_ok [OF "2.prems"(1) t(1,3) this]] "2.prems" True
    show ?thesis by (simp add: Let_def)
  next
    case False
    from "2.IH"(2) [OF refl refl refl False range_ok_new [OF t(1,2)]] "2.prems" False
    show ?thesis by (auto simp: Let_def new_range_def)
  qed
qed

section \<open>What a reader needs of a range builder\<close>

text \<open>
  The batched readers rely on two laws of the function that groups their tags: the ranges hold
  exactly the given tags, and a range built from tags within the limit of one request stays
  within that limit and spans every tag in it.
\<close>

locale range_builder =
  fixes build :: "tag list \<Rightarrow> register_range list"
    and limit :: int
  assumes build_tags: "mset (concat (map rr_Tags (build tags))) = mset tags"
    and build_ok: "\<forall>t\<in>set tags. fits t \<and> uint (tag_RegisterCount t) \<le> limit \<Longrightarrow>
      r \<in> set (build tags) \<Longrightarrow> range_ok limit r"
begin

lemma build_set: "(\<Union>r\<in>set (build tags). set (rr_Tags r)) = set tags"
  using arg_cong [OF build_tags [of tags], of set_mset] by simp

lemma build_member: "r \<in> set (build tags) \<Longrightarrow> t \<in> set (rr_Tags r) \<Longrightarrow> t \<in> set tags"
  using build_set [of tags] by blast

lemma one_result_per_tag:
  assumes "\<forall>r\<in>set (build tags). map f (g r) = map h (rr_Tags r)"
  shows "mset (map f (concat (map g (build tags)))) = mset (map h tags)"
proof -
  have "map f (concat (map g (build tags))) = concat (map (\<lambda>r. map f (g r)) (build tags))"
    by (simp add: map_concat o_def)
  also have "\<dots> = concat (map (\<lambda>r. map h (rr_Tags r)) (build tags))"
    using assms by (metis (mono_tags, lifting) map_eq_conv)
  also have "\<dots> = map h (concat (map rr_Tags (build tags)))"
    by (simp add: map_concat o_def)
  finally show ?thesis by (metis build_tags mset_map)
qed

lemma each_tag_covered:
  assumes "\<forall>t\<in>set tags. fits t \<and> uint (tag_RegisterCount t) \<le> limit" and "t \<in> set tags"
  shows "\<exists>r\<in>set (build tags). t \<in> set (rr_Tags r) \<and> covers r t \<and> range_size r \<le> limit"
proof -
  from assms(2) build_set obtain r where r: "r \<in> set (build tags)" "t \<in> set (rr_Tags r)" by blast
  with build_ok [OF assms(1) r(1)] show ?thesis by (auto simp: range_ok_def)
qed

end

text \<open>Both builders are the same loop over the sorted tags.\<close>

lemma merged_tags:
  "concat (map rr_Tags (case ts of [] \<Rightarrow> [] | t # us \<Rightarrow> merge_ranges M G (new_range t) us)) = ts"
  by (cases ts) (simp_all add: merge_ranges_tags new_range_def)

lemma merged_ok:
  assumes "\<forall>t\<in>set ts. fits t \<and> uint (tag_RegisterCount t) \<le> N" and "sorted (map tag_Address ts)"
    and "uint M \<le> N" and "2 * N + uint G < 2 ^ 16"
    and "r \<in> set (case ts of [] \<Rightarrow> [] | t # us \<Rightarrow> merge_ranges M G (new_range t) us)"
  shows "range_ok N r"
proof (cases ts)
  case Nil
  with assms(5) show ?thesis by simp
next
  case (Cons t us)
  with assms merge_ranges_ok [OF range_ok_new, of t N us M G] show ?thesis
    by (auto simp: new_range_def)
qed

interpretation regs: range_builder "\<lambda>tags. buildContiguousRanges tags DefaultBatchConfig" 125
proof
  show "mset (concat (map rr_Tags (buildContiguousRanges tags DefaultBatchConfig))) = mset tags" for tags
    by (simp add: buildContiguousRanges_def merged_tags)
  show "range_ok 125 r" if "\<forall>t\<in>set tags. fits t \<and> uint (tag_RegisterCount t) \<le> 125"
    "r \<in> set (buildContiguousRanges tags DefaultBatchConfig)" for tags r
    by (rule merged_ok [of "sortTagsByAddress tags" 125 100 10])
      (use that in \<open>simp_all add: buildContiguousRanges_def DefaultBatchConfig_def
        sortTagsByAddress_sort_key\<close>)
qed

interpretation coils: range_builder "\<lambda>tags. buildCoilRanges tags DefaultCoilBatchConfig" 2000
proof
  show "mset (concat (map rr_Tags (buildCoilRanges tags DefaultCoilBatchConfig))) = mset tags" for tags
    by (simp add: buildCoilRanges_def merged_tags)
  show "range_ok 2000 r" if "\<forall>t\<in>set tags. fits t \<and> uint (tag_RegisterCount t) \<le> 2000"
    "r \<in> set (buildCoilRanges tags DefaultCoilBatchConfig)" for tags r
    by (rule merged_ok [of "sortTagsByAddress tags" 2000 1000 32])
      (use that in \<open>simp_all add: buildCoilRanges_def DefaultCoilBatchConfig_def
        sortTagsByAddress_sort_key\<close>)
qed

section \<open>The properties of the batching\<close>

text \<open>
  The hand-written insertion sort is the stable sort by address: sorted, a permutation, and
  tags with the same address keep their order.
\<close>

theorem sortTagsByAddress_is_stable_sort:
  "sortTagsByAddress tags = sort_key tag_Address tags"
  by (rule sortTagsByAddress_sort_key)



text \<open>
  The same for coils and discrete inputs, against the limit of 2000 bits per request.
\<close>

theorem coil_batches_within_limits:
  assumes "\<forall>t\<in>set tags. fits t \<and> uint (tag_RegisterCount t) \<le> 2000"
  shows "mset (concat (map rr_Tags (buildCoilRanges tags DefaultCoilBatchConfig))) = mset tags
    \<and> (\<forall>r\<in>set (buildCoilRanges tags DefaultCoilBatchConfig).
          1 \<le> range_size r \<and> range_size r \<le> 2000 \<and> (\<forall>t\<in>set (rr_Tags r). covers r t))"
  using coils.build_tags coils.build_ok [OF assms] by (simp add: range_ok_def)

theorem coil_batches_within_limits_witness:
  "mset (concat (map rr_Tags (buildCoilRanges [sample_bit] DefaultCoilBatchConfig))) = mset [sample_bit] \<and>
   list_all (\<lambda>r. 1 \<le> range_size r \<and> range_size r \<le> 2000 \<and> list_all (covers r) (rr_Tags r))
     (buildCoilRanges [sample_bit] DefaultCoilBatchConfig)"
  using coil_batches_within_limits [of "[sample_bit]"]
  by (simp add: list_all_iff fits_def sample_bit_def sample_ready_def sample_tag_def)

end
