(* ===== verification/GoProg.thy ===== *)
theory GoProg
  imports Prelude
begin

text \<open>
  Go code with effects, as functions of a state: a run ends with a value or with a panic, and
  in a state that keeps what was done before the panic. Go errors are ordinary values. The
  combinators are the statement forms the modelled functions use; \<open>preserves\<close> is the
  invariant rule for each of them, collected in \<open>preserving\<close>.
\<close>

named_theorems preserving "rules that an invariant survives a program"
named_theorems run_simps "running a program form"

datatype 'a run = Val 'a | Panic string

type_synonym ('s, 'a) prog = "'s \<Rightarrow> 'a run \<times> 's"

definition ret :: "'a \<Rightarrow> ('s, 'a) prog" where
  "ret a s = (Val a, s)"

definition panic :: "string \<Rightarrow> ('s, 'a) prog" where
  "panic p s = (Panic p, s)"

definition bnd :: "('s, 'a) prog \<Rightarrow> ('a \<Rightarrow> ('s, 'b) prog) \<Rightarrow> ('s, 'b) prog" where
  "bnd m f s = (case m s of (Val a, s') \<Rightarrow> f a s' | (Panic p, s') \<Rightarrow> (Panic p, s'))"

text \<open>\<open>defer\<close>: the second program runs when the first returns and when it panics.\<close>

definition deferred :: "('s, 'a) prog \<Rightarrow> ('s, unit) prog \<Rightarrow> ('s, 'a) prog" where
  "deferred m d s =
     (case m s of (r, s') \<Rightarrow> (case d s' of (Val _, s'') \<Rightarrow> (r, s'') | (Panic p, s'') \<Rightarrow> (Panic p, s'')))"

text \<open>What follows a call in either case, when it returned and when it panicked.\<close>

definition bnd_run :: "('s, 'a) prog \<Rightarrow> ('a run \<Rightarrow> ('s, 'b) prog) \<Rightarrow> ('s, 'b) prog" where
  "bnd_run m f s = (case m s of (r, s') \<Rightarrow> f r s')"

text \<open>The state is a pair: the object's fields, and the world that library calls act on.\<close>

definition upd :: "('c \<Rightarrow> 'c) \<Rightarrow> ('c \<times> 'w, unit) prog" where
  "upd f s = (Val (), (f (fst s), snd s))"

definition field :: "('c \<Rightarrow> 'a) \<Rightarrow> ('c \<times> 'w, 'a) prog" where
  "field f s = (Val (f (fst s)), s)"

definition call :: "('w \<Rightarrow> 'a \<times> 'w) \<Rightarrow> ('c \<times> 'w, 'a) prog" where
  "call g s = (case g (snd s) of (a, w) \<Rightarrow> (Val a, (fst s, w)))"

lemmas run_defs = ret_def panic_def bnd_def deferred_def upd_def field_def call_def

lemma run_forms [run_simps]:
  "ret a s = (Val a, s)"
  "panic p s = (Panic p, s)"
  "upd f (c, w) = (Val (), (f c, w))"
  "field f' (c, w) = (Val (f' c), (c, w))"
  "call g (c, w) = (case g w of (b, w') \<Rightarrow> (Val b, (c, w')))"
  by (simp_all add: run_defs)

lemma bnd_Val [run_simps]: "m s = (Val a, s') \<Longrightarrow> bnd m f s = f a s'"
  by (simp add: bnd_def)

lemma bnd_Panic [run_simps]: "m s = (Panic p, s') \<Longrightarrow> bnd m f s = (Panic p, s')"
  by (simp add: bnd_def)

lemma bnd_ret [simp]: "bnd (ret a) f = f a"
  by (simp add: run_defs fun_eq_iff)

lemma bnd_panic [simp]: "bnd (panic p) f = panic p"
  by (simp add: run_defs fun_eq_iff)

lemma bnd_assoc: "bnd (bnd m f) g = bnd m (\<lambda>a. bnd (f a) g)"
  by (auto simp: bnd_def fun_eq_iff split: run.splits prod.splits)

lemma bnd_upd [run_simps]: "bnd (upd f) k (c, w) = k () (f c, w)"
  by (simp add: run_defs)

lemma bnd_field [run_simps]: "bnd (field f) k (c, w) = k (f c) (c, w)"
  by (simp add: run_defs)

lemma bnd_call [run_simps]: "bnd (call g) k (c, w) = (case g w of (a, w') \<Rightarrow> k a (c, w'))"
  by (simp add: run_defs split: prod.split)

subsection \<open>Invariants\<close>

definition preserves :: "('s \<Rightarrow> bool) \<Rightarrow> ('s, 'a) prog \<Rightarrow> bool" where
  "preserves P m \<longleftrightarrow> (\<forall>s. P s \<longrightarrow> P (snd (m s)))"

lemma preservesI: "(\<And>s. P s \<Longrightarrow> P (snd (m s))) \<Longrightarrow> preserves P m"
  by (simp add: preserves_def)

lemma preservesD: "preserves P m \<Longrightarrow> P s \<Longrightarrow> P (snd (m s))"
  by (simp add: preserves_def)

lemma preserves_ret [preserving, intro!]: "preserves P (ret a)"
  by (simp add: preserves_def ret_def)

lemma preserves_panic [preserving, intro!]: "preserves P (panic p)"
  by (simp add: preserves_def panic_def)

lemma preserves_field [preserving, intro!]: "preserves P (field f)"
  by (simp add: preserves_def field_def)

lemma preserves_bnd [preserving, intro]:
  "preserves P m \<Longrightarrow> (\<And>a. preserves P (f a)) \<Longrightarrow> preserves P (bnd m f)"
  unfolding preserves_def bnd_def by (auto split: prod.split run.split)

lemma preserves_bnd_run [preserving]:
  "preserves P m \<Longrightarrow> (\<And>r. preserves P (f r)) \<Longrightarrow> preserves P (bnd_run m f)"
  unfolding preserves_def bnd_run_def by (auto split: prod.split)

lemma preserves_run [preserving]:
  "(\<And>a. preserves P (f a)) \<Longrightarrow> (\<And>p. preserves P (g p)) \<Longrightarrow>
   preserves P (case x of Val a \<Rightarrow> f a | Panic p \<Rightarrow> g p)"
  by (simp split: run.split)

lemma preserves_deferred [preserving, intro]:
  "preserves P m \<Longrightarrow> preserves P d \<Longrightarrow> preserves P (deferred m d)"
  unfolding preserves_def deferred_def by (auto split: prod.split run.split)

lemma preserves_upd:
  "(\<And>c w. P (c, w) \<Longrightarrow> P (f c, w)) \<Longrightarrow> preserves P (upd f)"
  by (simp add: preserves_def upd_def split_paired_all)

lemma preserves_call:
  "(\<And>c w w'. P (c, w) \<Longrightarrow> P (c, w')) \<Longrightarrow> preserves P (call g)"
  by (simp add: preserves_def call_def split_paired_all split: prod.split)

lemma preserves_if [preserving]:
  "preserves P m \<Longrightarrow> preserves P n \<Longrightarrow> preserves P (if b then m else n)"
  by simp

lemma preserves_sum [preserving]:
  "(\<And>a. preserves P (f a)) \<Longrightarrow> (\<And>b. preserves P (g b)) \<Longrightarrow> preserves P (case x of Inl a \<Rightarrow> f a | Inr b \<Rightarrow> g b)"
  by (simp split: sum.split)

lemma preserves_option [preserving]:
  "preserves P m \<Longrightarrow> (\<And>b. preserves P (g b)) \<Longrightarrow> preserves P (case x of None \<Rightarrow> m | Some b \<Rightarrow> g b)"
  by (simp split: option.split)

lemma preserves_res [preserving]:
  "(\<And>a. preserves P (f a)) \<Longrightarrow> (\<And>b. preserves P (g b)) \<Longrightarrow> (\<And>p. preserves P (h p)) \<Longrightarrow>
   preserves P (case x of Ok a \<Rightarrow> f a | Err b \<Rightarrow> g b | Crash p \<Rightarrow> h p)"
  by (simp split: res.split)

lemma preserves_prod [preserving]:
  "(\<And>a b. preserves P (f a b)) \<Longrightarrow> preserves P (case x of (a, b) \<Rightarrow> f a b)"
  by (simp split: prod.split)

text \<open>A property of the object alone, which no library call touches.\<close>

definition on_client :: "('c \<Rightarrow> bool) \<Rightarrow> 'c \<times> 'w \<Rightarrow> bool" where
  "on_client P s = P (fst s)"

lemma on_client_upd: "(\<And>c. P c \<Longrightarrow> P (f c)) \<Longrightarrow> preserves (on_client P) (upd f)"
  by (rule preserves_upd) (simp add: on_client_def)

lemma on_client_call [preserving, intro!]: "preserves (on_client P) (call g)"
  by (rule preserves_call) (simp add: on_client_def)

subsection \<open>Programs that return\<close>

text \<open>
  From a state in \<open>P\<close> the program returns, without a panic, a value in \<open>Q\<close> and a state in \<open>P\<close>.
\<close>

named_theorems yielding "rules that a program returns"

definition yields :: "('s \<Rightarrow> bool) \<Rightarrow> ('s, 'a) prog \<Rightarrow> ('a \<Rightarrow> bool) \<Rightarrow> bool" where
  "yields P m Q \<longleftrightarrow> (\<forall>s. P s \<longrightarrow> (\<exists>a s'. m s = (Val a, s') \<and> P s' \<and> Q a))"

lemma yieldsI: "(\<And>s. P s \<Longrightarrow> \<exists>a s'. m s = (Val a, s') \<and> P s' \<and> Q a) \<Longrightarrow> yields P m Q"
  by (simp add: yields_def)

lemma yieldsE:
  assumes "yields P m Q" and "P s"
  obtains a s' where "m s = (Val a, s')" "P s'" "Q a"
  using assms by (auto simp: yields_def)

lemma yields_ret [yielding]: "Q a \<Longrightarrow> yields P (ret a) Q"
  by (simp add: yields_def ret_def)

lemma yields_field: "yields P (field f) (\<lambda>_. True)"
  by (simp add: yields_def field_def)

lemma yields_upd: "(\<And>c w. P (c, w) \<Longrightarrow> P (f c, w)) \<Longrightarrow> yields P (upd f) (\<lambda>_. True)"
  by (simp add: yields_def upd_def split_paired_all)

lemma yields_call: "(\<And>c w w'. P (c, w) \<Longrightarrow> P (c, w')) \<Longrightarrow> yields P (call g) (\<lambda>_. True)"
  by (simp add: yields_def call_def split_paired_all split: prod.split)

lemma yields_bnd:
  assumes "yields P m R" and "\<And>a. R a \<Longrightarrow> yields P (f a) Q"
  shows "yields P (bnd m f) Q"
proof (rule yieldsI)
  fix s assume "P s"
  from assms(1) this obtain a s' where 1: "m s = (Val a, s')" "P s'" "R a" by (rule yieldsE)
  from assms(2) [OF 1(3)] 1(2) obtain b s'' where "f a s' = (Val b, s'')" "P s''" "Q b"
    by (rule yieldsE)
  with 1(1) show "\<exists>b s'. bnd m f s = (Val b, s') \<and> P s' \<and> Q b" by (simp add: run_simps)
qed

lemma yields_weaken: "yields P m R \<Longrightarrow> (\<And>a. R a \<Longrightarrow> Q a) \<Longrightarrow> yields P m Q"
  by (auto simp: yields_def)

lemma yields_and:
  "yields P m Q \<Longrightarrow> preserves R m \<Longrightarrow> yields (\<lambda>s. P s \<and> R s) m Q"
  by (fastforce simp: yields_def preserves_def)

lemma yields_option [yielding]:
  "(x = None \<Longrightarrow> yields P m Q) \<Longrightarrow> (\<And>b. x = Some b \<Longrightarrow> yields P (g b) Q) \<Longrightarrow>
   yields P (case x of None \<Rightarrow> m | Some b \<Rightarrow> g b) Q"
  by (simp split: option.split)

lemma yields_sum [yielding]:
  "(\<And>a. x = Inl a \<Longrightarrow> yields P (f a) Q) \<Longrightarrow> (\<And>b. x = Inr b \<Longrightarrow> yields P (g b) Q) \<Longrightarrow>
   yields P (case x of Inl a \<Rightarrow> f a | Inr b \<Rightarrow> g b) Q"
  by (simp split: sum.split)

lemma yields_if [yielding]:
  "(b \<Longrightarrow> yields P m Q) \<Longrightarrow> (\<not> b \<Longrightarrow> yields P n Q) \<Longrightarrow> yields P (if b then m else n) Q"
  by simp

end
