(* ===== verification/ModbusClient.thy ===== *)
theory ModbusClient
  imports GoProg ModbusBatch
begin

text \<open>
  The Modbus client of one device (\<open>adapter/modbus/client.go\<close>, \<open>types.go\<close>, \<open>health.go\<close>): its
  fields, the connection, retry backoff, error points and per-tag diagnostics. The library
  \<open>goburrow/modbus\<close>, the clock, the random source, contexts, \<open>sync.Pool\<close> and the order in which
  Go walks a map are the parameter \<open>modbus_env\<close>, whose functions act on an abstract world.
  Each method runs as one sequence: the client serialises its operations with \<open>opMu\<close>.
\<close>

section \<open>Fields\<close>

record client_config =
  cc_Address :: string
  cc_SlaveID :: byte
  cc_Timeout :: int
  cc_IdleTimeout :: int
  cc_MaxRetries :: int
  cc_RetryDelay :: int
  cc_Protocol :: protocol

record client_stats =
  st_ReadCount :: u64
  st_WriteCount :: u64
  st_ErrorCount :: u64
  st_RetryCount :: u64
  st_TotalReadTime :: int
  st_TotalWriteTime :: int

record tag_diagnostic =
  td_TagID :: string
  td_ReadCount :: u64
  td_ErrorCount :: u64
  td_LastError :: "gerror option"
  td_LastErrorTime :: "int option"
  td_LastSuccessTime :: "int option"

definition NewTagDiagnostic :: "string \<Rightarrow> tag_diagnostic" where
  "NewTagDiagnostic tagID = \<lparr>td_TagID = tagID, td_ReadCount = 0, td_ErrorCount = 0,
     td_LastError = None, td_LastErrorTime = None, td_LastSuccessTime = None\<rparr>"

text \<open>\<open>cl_handler\<close> and \<open>cl_client\<close> say whether the field is not nil.\<close>

record client =
  cl_config :: client_config
  cl_handler :: bool
  cl_client :: bool
  cl_connected :: bool
  cl_lastError :: "gerror option"
  cl_lastUsed :: int
  cl_stats :: client_stats
  cl_deviceID :: string
  cl_consecutiveFailures :: u32
  cl_tagDiagnostics :: "string \<rightharpoonup> tag_diagnostic"

section \<open>What the client uses of the libraries\<close>

text \<open>How the \<open>select\<close> between the dial and the context ends.\<close>

datatype dial_outcome = Dialed | DialFailed lib_error | DialCancelled gerror

record 'w modbus_env =
  env_Now :: "'w \<Rightarrow> int \<times> 'w"
  env_Int64N :: "int \<Rightarrow> 'w \<Rightarrow> int \<times> 'w"
  env_sleep :: "int \<Rightarrow> 'w \<Rightarrow> gerror option \<times> 'w"
  env_ctxErr :: "'w \<Rightarrow> gerror option \<times> 'w"
  env_poolGet :: "'w \<Rightarrow> data_point \<times> 'w"
  env_mapOrder :: "register_type list \<Rightarrow> 'w \<Rightarrow> register_type list \<times> 'w"
  env_Connect :: "client_config \<Rightarrow> 'w \<Rightarrow> dial_outcome \<times> 'w"
  env_Close :: "'w \<Rightarrow> lib_error option \<times> 'w"
  env_ReadCoils :: "u16 \<Rightarrow> u16 \<Rightarrow> 'w \<Rightarrow> (lib_error + bytes) \<times> 'w"
  env_ReadDiscreteInputs :: "u16 \<Rightarrow> u16 \<Rightarrow> 'w \<Rightarrow> (lib_error + bytes) \<times> 'w"
  env_ReadHoldingRegisters :: "u16 \<Rightarrow> u16 \<Rightarrow> 'w \<Rightarrow> (lib_error + bytes) \<times> 'w"
  env_ReadInputRegisters :: "u16 \<Rightarrow> u16 \<Rightarrow> 'w \<Rightarrow> (lib_error + bytes) \<times> 'w"
  env_WriteSingleCoil :: "u16 \<Rightarrow> u16 \<Rightarrow> 'w \<Rightarrow> lib_error option \<times> 'w"
  env_WriteSingleRegister :: "u16 \<Rightarrow> u16 \<Rightarrow> 'w \<Rightarrow> lib_error option \<times> 'w"
  env_WriteMultipleRegisters :: "u16 \<Rightarrow> u16 \<Rightarrow> bytes \<Rightarrow> 'w \<Rightarrow> lib_error option \<times> 'w"
  env_WriteMultipleCoils :: "u16 \<Rightarrow> u16 \<Rightarrow> bytes \<Rightarrow> 'w \<Rightarrow> lib_error option \<times> 'w"

type_synonym ('w, 'a) modbus = "(client \<times> 'w, 'a) prog"

section \<open>Connection\<close>

definition default_int :: "int \<Rightarrow> int \<Rightarrow> int" where
  "default_int d n = (if n = 0 then d else n)"

definition default_config :: "client_config \<Rightarrow> client_config" where
  "default_config config =
     config\<lparr>cc_Timeout := default_int 5000000000 (cc_Timeout config),
            cc_IdleTimeout := default_int 30000000000 (cc_IdleTimeout config),
            cc_MaxRetries := default_int 3 (cc_MaxRetries config),
            cc_RetryDelay := default_int 100000000 (cc_RetryDelay config)\<rparr>"

definition zero_stats :: client_stats where
  "zero_stats = \<lparr>st_ReadCount = 0, st_WriteCount = 0, st_ErrorCount = 0, st_RetryCount = 0,
     st_TotalReadTime = 0, st_TotalWriteTime = 0\<rparr>"

definition NewClient :: "string \<Rightarrow> client_config \<Rightarrow> int \<Rightarrow> gerror + client" where
  "NewClient deviceID config now =
     (if cc_Address config = '''' then Inl (Text ''modbus address is required'')
      else if cc_SlaveID config = 0 \<or> 247 < cc_SlaveID config
      then Inl (Sentinel (ConnE ErrInvalidSlaveID))
      else Inr \<lparr>cl_config = default_config config, cl_handler = False, cl_client = False,
                cl_connected = False, cl_lastError = None, cl_lastUsed = now,
                cl_stats = zero_stats, cl_deviceID = deviceID, cl_consecutiveFailures = 0,
                cl_tagDiagnostics = Map.empty\<rparr>)"

definition Connect :: "'w modbus_env \<Rightarrow> ('w, gerror option) modbus" where
  "Connect E =
     bnd (field cl_connected) (\<lambda>connected.
     if connected then ret None
     else
       bnd (field cl_config) (\<lambda>config.
       bnd (call (env_Connect E config)) (\<lambda>outcome.
       case outcome of
         DialFailed err \<Rightarrow>
           bnd (call (env_Close E)) (\<lambda>_.
           bnd (upd (cl_lastError_update (\<lambda>_. Some (Lib err)))) (\<lambda>_.
           ret (Some (WrapV (ConnE ErrConnectionFailed) (lib_text err)))))
       | DialCancelled err \<Rightarrow> ret (Some (WrapV (ConnE ErrConnectionTimeout) (error_text err)))
       | Dialed \<Rightarrow>
           bnd (call (env_Now E)) (\<lambda>now.
           bnd (upd (\<lambda>c. c\<lparr>cl_handler := True, cl_client := True, cl_connected := True,
                             cl_lastError := None, cl_lastUsed := now\<rparr>)) (\<lambda>_.
           ret None)))))"

definition Disconnect :: "'w modbus_env \<Rightarrow> ('w, gerror option) modbus" where
  "Disconnect E =
     bnd (field cl_connected) (\<lambda>connected.
     if \<not> connected then ret None
     else
       bnd (upd (cl_connected_update (\<lambda>_. False))) (\<lambda>_.
       bnd (field cl_handler) (\<lambda>handler.
       bnd (if handler then bnd (call (env_Close E)) (\<lambda>_. ret ()) else ret ()) (\<lambda>_.
       bnd (upd (\<lambda>c. c\<lparr>cl_handler := False, cl_client := False\<rparr>)) (\<lambda>_.
       ret None)))))"

definition IsConnected :: "client \<Rightarrow> bool" where
  "IsConnected c = cl_connected c"

definition reconnect :: "'w modbus_env \<Rightarrow> ('w, unit) modbus" where
  "reconnect E = bnd (Disconnect E) (\<lambda>_. bnd (Connect E) (\<lambda>_. ret ()))"

section \<open>Diagnostics\<close>

text \<open>
  \<open>LastError\<close> is an \<open>atomic.Value\<close>, whose \<open>Store\<close> panics when the dynamic type of the new
  value differs from that of the value it holds. The errors stored here are sentinels
  (\<open>*errors.errorString\<close>) and results of \<open>fmt.Errorf\<close>, which are \<open>*fmt.wrapError\<close> when the
  format has a \<open>%w\<close>.
\<close>

datatype dynamic_type = ErrorString | WrapError | LibraryType

fun dynamic_type_of :: "gerror \<Rightarrow> dynamic_type" where
  "dynamic_type_of (Sentinel _) = ErrorString"
| "dynamic_type_of (Text _) = ErrorString"
| "dynamic_type_of (WrapV _ _) = WrapError"
| "dynamic_type_of (WrapW _ _) = WrapError"
| "dynamic_type_of (Lib _) = LibraryType"

definition can_store :: "gerror option \<Rightarrow> gerror \<Rightarrow> bool" where
  "can_store old err = (case old of None \<Rightarrow> True | Some e \<Rightarrow> dynamic_type_of e = dynamic_type_of err)"

definition getOrCreateTagDiagnostic :: "string \<Rightarrow> client \<Rightarrow> tag_diagnostic" where
  "getOrCreateTagDiagnostic tagID c =
     (case cl_tagDiagnostics c tagID of Some diag \<Rightarrow> diag | None \<Rightarrow> NewTagDiagnostic tagID)"

definition put_diagnostic :: "string \<Rightarrow> tag_diagnostic \<Rightarrow> client \<Rightarrow> client" where
  "put_diagnostic tagID diag c = c\<lparr>cl_tagDiagnostics := (cl_tagDiagnostics c)(tagID \<mapsto> diag)\<rparr>"

definition recordTagSuccess :: "'w modbus_env \<Rightarrow> string \<Rightarrow> ('w, unit) modbus" where
  "recordTagSuccess E tagID =
     bnd (field (getOrCreateTagDiagnostic tagID)) (\<lambda>diag.
     bnd (call (env_Now E)) (\<lambda>now.
     upd (put_diagnostic tagID
            (diag\<lparr>td_ReadCount := td_ReadCount diag + 1, td_LastSuccessTime := Some now\<rparr>))))"

definition recordTagError :: "'w modbus_env \<Rightarrow> string \<Rightarrow> gerror \<Rightarrow> ('w, unit) modbus" where
  "recordTagError E tagID err =
     bnd (field (getOrCreateTagDiagnostic tagID)) (\<lambda>diag.
     let counted = diag\<lparr>td_ErrorCount := td_ErrorCount diag + 1\<rparr> in
     bnd (upd (put_diagnostic tagID counted)) (\<lambda>_.
     if \<not> can_store (td_LastError diag) err
     then panic ''sync/atomic: store of inconsistently typed value into Value''
     else bnd (call (env_Now E)) (\<lambda>now.
          upd (put_diagnostic tagID
                 (counted\<lparr>td_LastError := Some err, td_LastErrorTime := Some now\<rparr>)))))"

definition GetTagDiagnostic :: "client \<Rightarrow> string \<Rightarrow> tag_diagnostic option" where
  "GetTagDiagnostic c tagID = cl_tagDiagnostics c tagID"

section \<open>Counters\<close>

definition count_read :: "client \<Rightarrow> client" where
  "count_read c = c\<lparr>cl_stats := (cl_stats c)\<lparr>st_ReadCount := st_ReadCount (cl_stats c) + 1\<rparr>\<rparr>"

definition count_write :: "client \<Rightarrow> client" where
  "count_write c = c\<lparr>cl_stats := (cl_stats c)\<lparr>st_WriteCount := st_WriteCount (cl_stats c) + 1\<rparr>\<rparr>"

definition count_error :: "client \<Rightarrow> client" where
  "count_error c = c\<lparr>cl_stats := (cl_stats c)\<lparr>st_ErrorCount := st_ErrorCount (cl_stats c) + 1\<rparr>\<rparr>"

definition count_retry :: "client \<Rightarrow> client" where
  "count_retry c = c\<lparr>cl_stats := (cl_stats c)\<lparr>st_RetryCount := st_RetryCount (cl_stats c) + 1\<rparr>\<rparr>"

definition add_read_time :: "int \<Rightarrow> client \<Rightarrow> client" where
  "add_read_time d c = c\<lparr>cl_stats := (cl_stats c)\<lparr>st_TotalReadTime := wrap64 (st_TotalReadTime (cl_stats c) + d)\<rparr>\<rparr>"

definition add_write_time :: "int \<Rightarrow> client \<Rightarrow> client" where
  "add_write_time d c = c\<lparr>cl_stats := (cl_stats c)\<lparr>st_TotalWriteTime := wrap64 (st_TotalWriteTime (cl_stats c) + d)\<rparr>\<rparr>"

text \<open>The deferred function of \<open>ReadTag\<close> and \<open>WriteTag\<close>.\<close>

definition timed :: "'w modbus_env \<Rightarrow> (int \<Rightarrow> client \<Rightarrow> client) \<Rightarrow> ('w, 'a) modbus \<Rightarrow> ('w, 'a) modbus" where
  "timed E add body =
     bnd (call (env_Now E)) (\<lambda>startTime.
     deferred body (bnd (call (env_Now E)) (\<lambda>now. upd (add (time_Sub now startTime)))))"

definition touch :: "'w modbus_env \<Rightarrow> ('w, unit) modbus" where
  "touch E = bnd (call (env_Now E)) (\<lambda>now. upd (cl_lastUsed_update (\<lambda>_. now)))"

record device_stats =
  ds_DeviceID :: string
  ds_ReadCount :: u64
  ds_WriteCount :: u64
  ds_ErrorCount :: u64
  ds_RetryCount :: u64
  ds_AvgReadTimeMs :: f64
  ds_AvgWriteTimeMs :: f64
  ds_Connected :: bool

definition average_ms :: "int \<Rightarrow> u64 \<Rightarrow> f64" where
  "average_ms ns n =
     (if 0 < n then f64_div (f64_div (f64_of_int ns) (f64_of_int (uint n))) (f64_of_int 1000000)
      else f64_zero)"

definition GetDeviceStats :: "client \<Rightarrow> device_stats" where
  "GetDeviceStats c =
     (let st = cl_stats c in
      \<lparr>ds_DeviceID = cl_deviceID c, ds_ReadCount = st_ReadCount st, ds_WriteCount = st_WriteCount st,
       ds_ErrorCount = st_ErrorCount st, ds_RetryCount = st_RetryCount st,
       ds_AvgReadTimeMs = average_ms (st_TotalReadTime st) (st_ReadCount st),
       ds_AvgWriteTimeMs = average_ms (st_TotalWriteTime st) (st_WriteCount st),
       ds_Connected = cl_connected c\<rparr>)"

definition GetStats :: "client \<Rightarrow> string \<rightharpoonup> u64" where
  "GetStats c =
     (let st = cl_stats c in
      [''read_count'' \<mapsto> st_ReadCount st, ''write_count'' \<mapsto> st_WriteCount st,
       ''error_count'' \<mapsto> st_ErrorCount st, ''retry_count'' \<mapsto> st_RetryCount st,
       ''total_read_ns'' \<mapsto> word_of_int (st_TotalReadTime st),
       ''total_write_ns'' \<mapsto> word_of_int (st_TotalWriteTime st)])"

section \<open>Backoff\<close>

text \<open>
  The product wraps in \<open>int64\<close>; \<open>rand.Int64N\<close> panics when its argument is not positive. After
  that check \<open>delay\<close> lies between 2 ns and 10 s, so the last sums cannot wrap.
\<close>

definition calculateBackoff :: "'w modbus_env \<Rightarrow> int \<Rightarrow> ('w, int) modbus" where
  "calculateBackoff E attempt =
     bnd (field cl_config) (\<lambda>config.
     let product = wrap64 (cc_RetryDelay config * wrap64 (2 ^ nat attempt));
         delay = (if 10000000000 < product then 10000000000 else product)
     in if tdiv delay 2 \<le> 0 then panic ''invalid argument to Int64N''
        else bnd (call (env_Int64N E (tdiv delay 2))) (\<lambda>r.
             ret (delay + (r - tdiv delay 4))))"

text \<open>The wait before a retry: \<open>None\<close> when the delay has passed, else the context's error.\<close>

definition retry_wait :: "'w modbus_env \<Rightarrow> nat \<Rightarrow> ('w, gerror option) modbus" where
  "retry_wait E attempt =
     (if 0 < attempt then
        bnd (upd count_retry) (\<lambda>_.
        bnd (calculateBackoff E (int attempt)) (\<lambda>delay.
        call (env_sleep E delay)))
      else ret None)"

text \<open>The attempts of a loop \<open>for attempt := 0; attempt <= MaxRetries; attempt++\<close>.\<close>

definition attempts :: "client_config \<Rightarrow> nat list" where
  "attempts config = [0..<nat (cc_MaxRetries config + 1)]"

section \<open>Data points for a failed read\<close>

definition error_quality :: "gerror \<Rightarrow> quality" where
  "error_quality err =
     (if isTimeout err then QualityTimeout
      else if isConnectionError err then QualityNotConnected
      else QualityBad)"

definition acquire :: "'w modbus_env \<Rightarrow> tag \<Rightarrow> goval \<Rightarrow> quality \<Rightarrow> ('w, data_point) modbus" where
  "acquire E t value q =
     bnd (field cl_deviceID) (\<lambda>deviceID.
     bnd (call (env_poolGet E)) (\<lambda>pooled.
     bnd (call (env_Now E)) (\<lambda>now.
     ret (AcquireDataPoint pooled now deviceID (tag_ID t) '''' value (tag_Unit t) q))))"

definition createErrorDataPoint :: "'w modbus_env \<Rightarrow> tag \<Rightarrow> gerror \<Rightarrow> ('w, data_point) modbus" where
  "createErrorDataPoint E t err = acquire E t VNil (error_quality err)"

section \<open>Invariants of the fields\<close>

text \<open>The client is connected exactly when it holds a handler and a library client.\<close>

definition connection_ok :: "client \<Rightarrow> bool" where
  "connection_ok c \<longleftrightarrow> (cl_handler c \<longleftrightarrow> cl_connected c) \<and> (cl_client c \<longleftrightarrow> cl_connected c)"

text \<open>Updates that leave the connection, the configuration and the counters of retries alone.\<close>

lemma counter_simps [simp]:
  "cl_connected (count_read c) = cl_connected c" "cl_client (count_read c) = cl_client c"
  "cl_handler (count_read c) = cl_handler c" "cl_config (count_read c) = cl_config c"
  "cl_connected (count_write c) = cl_connected c" "cl_client (count_write c) = cl_client c"
  "cl_handler (count_write c) = cl_handler c" "cl_config (count_write c) = cl_config c"
  "cl_connected (count_error c) = cl_connected c" "cl_client (count_error c) = cl_client c"
  "cl_handler (count_error c) = cl_handler c" "cl_config (count_error c) = cl_config c"
  "cl_connected (count_retry c) = cl_connected c" "cl_client (count_retry c) = cl_client c"
  "cl_handler (count_retry c) = cl_handler c" "cl_config (count_retry c) = cl_config c"
  "cl_connected (add_read_time d c) = cl_connected c" "cl_client (add_read_time d c) = cl_client c"
  "cl_handler (add_read_time d c) = cl_handler c" "cl_config (add_read_time d c) = cl_config c"
  "cl_connected (add_write_time d c) = cl_connected c" "cl_client (add_write_time d c) = cl_client c"
  "cl_handler (add_write_time d c) = cl_handler c" "cl_config (add_write_time d c) = cl_config c"
  "cl_connected (put_diagnostic i g c) = cl_connected c" "cl_client (put_diagnostic i g c) = cl_client c"
  "cl_handler (put_diagnostic i g c) = cl_handler c" "cl_config (put_diagnostic i g c) = cl_config c"
  by (simp_all add: count_read_def count_write_def count_error_def count_retry_def add_read_time_def
      add_write_time_def put_diagnostic_def)

lemma deviceID_simps [simp]:
  "cl_deviceID (count_read c) = cl_deviceID c" "cl_deviceID (count_write c) = cl_deviceID c"
  "cl_deviceID (count_error c) = cl_deviceID c" "cl_deviceID (count_retry c) = cl_deviceID c"
  "cl_deviceID (add_read_time d c) = cl_deviceID c" "cl_deviceID (add_write_time d c) = cl_deviceID c"
  "cl_deviceID (put_diagnostic i g c) = cl_deviceID c"
  by (simp_all add: count_read_def count_write_def count_error_def count_retry_def add_read_time_def
      add_write_time_def put_diagnostic_def)

subsection \<open>What a method keeps of the client\<close>

text \<open>
  A property of the fields that the primitive updates keep is kept by every method built from
  them, whatever the library does. \<open>reading_frame\<close> is the contract of the updates that a batched
  read makes, \<open>connecting_frame\<close> adds reconnecting and \<open>retrying_frame\<close> the retry counter.
\<close>

locale reading_frame =
  fixes P :: "client \<Rightarrow> bool"
  assumes P_count: "P c \<Longrightarrow> P (count_read c) \<and> P (count_write c) \<and> P (count_error c)"
    and P_time: "P c \<Longrightarrow> P (add_read_time n c) \<and> P (add_write_time n c)"
    and P_diagnostic: "P c \<Longrightarrow> P (put_diagnostic i g c)"
    and P_fields: "P c \<Longrightarrow> P (c\<lparr>cl_lastUsed := n\<rparr>) \<and> P (c\<lparr>cl_lastError := e\<rparr>) \<and>
      P (c\<lparr>cl_consecutiveFailures := k\<rparr>)"
begin

lemma updates [preserving]:
  "preserves (on_client P) (upd count_read)" "preserves (on_client P) (upd count_write)"
  "preserves (on_client P) (upd count_error)"
  "preserves (on_client P) (upd (add_read_time n))" "preserves (on_client P) (upd (add_write_time n))"
  "preserves (on_client P) (upd (put_diagnostic i g))"
  "preserves (on_client P) (upd (cl_lastUsed_update (\<lambda>_. n)))"
  "preserves (on_client P) (upd (cl_lastError_update (\<lambda>_. e)))"
  "preserves (on_client P) (upd (cl_consecutiveFailures_update h))"
  using P_fields [of c for c]
  by (auto intro!: on_client_upd simp: P_count P_time P_diagnostic)
    (metis (mono_tags, lifting) client.surjective client.update_convs(9))

lemma recordTagSuccess [preserving]: "preserves (on_client P) (recordTagSuccess E i)"
  unfolding recordTagSuccess_def by (intro preserving)

lemma recordTagError [preserving]: "preserves (on_client P) (recordTagError E i err)"
  unfolding recordTagError_def Let_def by (intro preserving)

lemma touch [preserving]: "preserves (on_client P) (touch E)"
  unfolding touch_def by (intro preserving)

lemma acquire [preserving]: "preserves (on_client P) (acquire E t v q)"
  unfolding acquire_def by (intro preserving)

lemma createErrorDataPoint [preserving]: "preserves (on_client P) (createErrorDataPoint E t err)"
  unfolding createErrorDataPoint_def by (intro preserving)

lemma timed_read [preserving]:
  "preserves (on_client P) body \<Longrightarrow> preserves (on_client P) (timed E add_read_time body)"
  unfolding timed_def by (intro preserving)

lemma timed_write [preserving]:
  "preserves (on_client P) body \<Longrightarrow> preserves (on_client P) (timed E add_write_time body)"
  unfolding timed_def by (intro preserving)

end

locale connecting_frame = reading_frame +
  assumes P_connect: "P c \<Longrightarrow> P (c\<lparr>cl_handler := True, cl_client := True, cl_connected := True,
      cl_lastError := None, cl_lastUsed := n\<rparr>)"
    and P_disconnect: "P c \<Longrightarrow> P (c\<lparr>cl_connected := False, cl_handler := False, cl_client := False\<rparr>)"
begin

lemma Connect: "preserves (on_client P) (Connect E)"
  unfolding Connect_def by (auto intro!: preserving on_client_upd P_connect split: dial_outcome.split)

lemma Disconnect: "preserves (on_client P) (Disconnect E)"
proof (rule preservesI)
  fix s :: "client \<times> 'a"
  assume "on_client P s"
  then show "on_client P (snd (Disconnect E s))"
    using P_disconnect [of "fst s"]
    by (cases s) (auto simp: Disconnect_def on_client_def run_simps bnd_assoc split: prod.splits)
qed

lemma reconnect [preserving]: "preserves (on_client P) (reconnect E)"
  unfolding reconnect_def by (intro preserving Connect Disconnect)

end

locale retrying_frame = connecting_frame +
  assumes P_retry: "P c \<Longrightarrow> P (count_retry c)"
begin

lemma retry_wait [preserving]: "preserves (on_client P) (retry_wait E n)"
  unfolding retry_wait_def calculateBackoff_def Let_def
  by (intro preserving on_client_upd P_retry)

end

text \<open>
  What every method keeps: the connection invariant, and the configuration and name the client
  was built with.
\<close>

definition client_inv :: "client_config \<Rightarrow> string \<Rightarrow> client \<Rightarrow> bool" where
  "client_inv k d c \<longleftrightarrow> connection_ok c \<and> cl_config c = k \<and> cl_deviceID c = d"

interpretation inv: retrying_frame "client_inv k d" for k d
  by unfold_locales (auto simp: client_inv_def connection_ok_def)

text \<open>A batched read keeps the connection as it is.\<close>

definition link :: "client \<Rightarrow> bool \<times> bool \<times> client_config" where
  "link c = (cl_client c, cl_connected c, cl_config c)"

interpretation linked: reading_frame "\<lambda>c. link c = l" for l
  by unfold_locales (auto simp: link_def)

section \<open>How often a retry is counted\<close>

definition retries :: "client \<Rightarrow> u64" where
  "retries c = st_RetryCount (cl_stats c)"

interpretation uncounted: connecting_frame "\<lambda>c. retries c = r" for r
  by unfold_locales (auto simp: retries_def count_read_def count_write_def count_error_def add_read_time_def
      add_write_time_def put_diagnostic_def)

text \<open>A program that counts at most \<open>n\<close> retries.\<close>

definition retries_at_most :: "nat \<Rightarrow> ('w, 'a) modbus \<Rightarrow> bool" where
  "retries_at_most n m \<longleftrightarrow> (\<forall>s. \<exists>k\<le>n. retries (fst (snd (m s))) = retries (fst s) + of_nat k)"

lemma retries_at_most_frame:
  "(\<And>r. preserves (on_client (\<lambda>c. retries c = r)) m) \<Longrightarrow> retries_at_most n m"
  by (auto simp: retries_at_most_def preserves_def on_client_def intro: exI [of _ 0])

lemma retries_at_most_bnd:
  assumes "retries_at_most n m" and "\<And>a. retries_at_most n' (f a)"
  shows "retries_at_most (n + n') (bnd m f)"
  unfolding retries_at_most_def
proof
  fix s :: "client \<times> 'a"
  obtain r s' where m: "m s = (r, s')" by (cases "m s")
  with assms(1) obtain k where k: "k \<le> n" "retries (fst s') = retries (fst s) + of_nat k"
    unfolding retries_at_most_def by (metis snd_conv)
  show "\<exists>k\<le>n + n'. retries (fst (snd (bnd m f s))) = retries (fst s) + of_nat k"
  proof (cases r)
    case (Val a)
    from assms(2) obtain k' where "k' \<le> n'" "retries (fst (snd (f a s'))) = retries (fst s') + of_nat k'"
      unfolding retries_at_most_def by meson
    with k m Val show ?thesis by (intro exI [of _ "k + k'"]) (simp add: bnd_def add.assoc)
  next
    case (Panic p)
    with k m show ?thesis by (intro exI [of _ k]) (simp add: bnd_def)
  qed
qed

lemma retries_at_most_weaken: "retries_at_most n m \<Longrightarrow> n \<le> n' \<Longrightarrow> retries_at_most n' m"
  unfolding retries_at_most_def by (meson le_trans)

lemma retry_wait_counts: "retries_at_most (if 0 < n then 1 else 0) (retry_wait E n)"
proof (cases "0 < n")
  case True
  have "retries_at_most 1 (upd count_retry :: ('a, unit) modbus)"
    by (auto simp: retries_at_most_def upd_def retries_def count_retry_def intro!: exI [of _ 1])
  moreover have "retries_at_most 0 (bnd (calculateBackoff E (int n)) (\<lambda>delay. call (env_sleep E delay)))"
    unfolding calculateBackoff_def Let_def by (intro retries_at_most_frame preserving)
  ultimately have "retries_at_most (1 + 0) (bnd (upd count_retry) (\<lambda>_.
      bnd (calculateBackoff E (int n)) (\<lambda>delay. call (env_sleep E delay))))"
    by (rule retries_at_most_bnd)
  with True show ?thesis by (simp add: retry_wait_def)
next
  case False
  then show ?thesis by (auto simp: retry_wait_def intro!: retries_at_most_frame preserving)
qed

text \<open>The waits of a loop over the attempts \<open>0, 1, \<dots>, MaxRetries\<close>.\<close>

definition waits :: "nat list \<Rightarrow> nat" where
  "waits as = length (filter (\<lambda>a. 0 < a) as)"

lemma waits_simps [simp]: "waits [] = 0" "waits (a # as) = (if 0 < a then 1 else 0) + waits as"
  by (simp_all add: waits_def)

lemma waits_attempts: "waits (attempts k) = nat (cc_MaxRetries k)"
proof (cases "0 \<le> cc_MaxRetries k")
  case True
  then have "attempts k = 0 # [1..<nat (cc_MaxRetries k + 1)]" by (simp add: attempts_def upt_conv_Cons)
  moreover have "filter (\<lambda>a. 0 < a) [1..<nat (cc_MaxRetries k + 1)] = [1..<nat (cc_MaxRetries k + 1)]"
    by (rule filter_True) simp
  ultimately show ?thesis using True by (simp add: waits_def)
next
  case False
  then show ?thesis by (simp add: attempts_def)
qed

section \<open>Backoff: bounds and panics\<close>

text \<open>\<open>rand.Int64N n\<close> is documented to return a number from 0 below \<open>n\<close>.\<close>

definition random_in_range :: "'w modbus_env \<Rightarrow> bool" where
  "random_in_range E \<longleftrightarrow> (\<forall>n w. 0 < n \<longrightarrow> 0 \<le> fst (env_Int64N E n w) \<and> fst (env_Int64N E n w) < n)"

lemma backoff_product:
  assumes "0 \<le> d" and "d * 2 ^ n < 2 ^ 63" and "n < 63"
  shows "wrap64 (d * wrap64 (2 ^ n)) = d * 2 ^ n"
proof -
  have "(2::int) ^ n \<le> 2 ^ 62" using assms(3) by (intro power_increasing) auto
  then have "wrap64 (2 ^ n) = 2 ^ n" by (intro wrap64_id) (auto intro: order_trans [OF _ zero_le_power])
  moreover have "- (2 ^ 63) \<le> d * 2 ^ n" using assms(1) by (intro order_trans [OF _ mult_nonneg_nonneg]) auto
  ultimately show ?thesis using assms(2) by (simp add: wrap64_id)
qed

text \<open>
  For a positive base delay whose doubling does not overflow, the wait stays within a quarter of
  the capped exponential delay, so it is never above 12.5 seconds.
\<close>

definition capped_delay :: "int \<Rightarrow> nat \<Rightarrow> int" where
  "capped_delay d n = min 10000000000 (d * 2 ^ n)"

lemma calculateBackoff_eq:
  "calculateBackoff E (int n) (c, w) =
     (let delay = min 10000000000 (wrap64 (cc_RetryDelay (cl_config c) * wrap64 (2 ^ n)))
      in if tdiv delay 2 \<le> 0 then (Panic ''invalid argument to Int64N'', (c, w))
         else case env_Int64N E (tdiv delay 2) w of
           (r, w') \<Rightarrow> (Val (delay + (r - tdiv delay 4)), (c, w')))"
proof -
  have "(if a < b then a else b) = min a b" for a b :: int by auto
  then show ?thesis by (simp add: calculateBackoff_def run_simps Let_def)
qed

lemma tdiv_half: "a \<le> 1 \<Longrightarrow> tdiv a 2 \<le> 0"
  by (cases "0 < a") (auto simp: tdiv_def sgn_if)

lemma calculateBackoff_run:
  assumes "random_in_range E" and "0 \<le> cc_RetryDelay (cl_config c)"
    and "cc_RetryDelay (cl_config c) * 2 ^ n < 2 ^ 63" and "n < 63"
    and "2 \<le> cc_RetryDelay (cl_config c) * 2 ^ n"
  shows "\<exists>d w'. calculateBackoff E (int n) (c, w) = (Val d, (c, w')) \<and>
     4 * d \<le> 5 * capped_delay (cc_RetryDelay (cl_config c)) n \<and>
     3 * capped_delay (cc_RetryDelay (cl_config c)) n \<le> 4 * d"
proof -
  let ?k = "cl_config c"
  let ?D = "capped_delay (cc_RetryDelay ?k) n"
  have p: "wrap64 (cc_RetryDelay ?k * wrap64 (2 ^ n)) = cc_RetryDelay ?k * 2 ^ n"
    using assms(2-4) by (rule backoff_product)
  have D: "2 \<le> ?D" using assms(5) by (simp add: capped_delay_def)
  obtain r w' where r: "env_Int64N E (?D div 2) w = (r, w')" by fastforce
  have "0 < ?D div 2" using D by simp
  with assms(1) r have bounds: "0 \<le> r" "r < ?D div 2" unfolding random_in_range_def by (metis fst_conv)+
  have "calculateBackoff E (int n) (c, w) = (Val (?D + (r - ?D div 4)), (c, w'))"
    using D r by (simp add: calculateBackoff_eq p Let_def flip: capped_delay_def)
  moreover have "4 * (?D + (r - ?D div 4)) \<le> 5 * ?D" "3 * ?D \<le> 4 * (?D + (r - ?D div 4))"
    using bounds D by presburger+
  ultimately show ?thesis by blast
qed

lemma calculateBackoff_panics:
  assumes "wrap64 (cc_RetryDelay (cl_config c) * wrap64 (2 ^ n)) \<le> 1"
  shows "fst (calculateBackoff E (int n) (c, w)) = Panic ''invalid argument to Int64N''"
  using assms by (simp add: calculateBackoff_eq Let_def tdiv_half)

end
