(* ===== verification/ModbusRead.thy ===== *)
theory ModbusRead
  imports ModbusClient
begin

text \<open>
  Reading tags through the Modbus client (\<open>adapter/modbus/client.go\<close>): single reads with
  retries and reconnects, and batched reads of registers and coils. A Go pair
  \<open>(result, error)\<close> is a pair here, so that partial results on an error stay visible.
\<close>

section \<open>One request\<close>

text \<open>The checks of \<open>validateProtocolLimits\<close>, in their order.\<close>

definition exceeds :: "string \<Rightarrow> tag \<Rightarrow> string \<Rightarrow> gerror" where
  "exceeds what t limit =
     WrapV (ModbusE ErrModbusProtocolLimit)
       (what @ '' count '' @ dec (uint (tag_RegisterCount t)) @ '' exceeds max '' @ limit)"

definition count_limit :: "tag \<Rightarrow> gerror option" where
  "count_limit t =
     (case tag_RegisterType t of
        RegisterTypeHoldingRegister \<Rightarrow>
          if 125 < tag_RegisterCount t then Some (exceeds ''holding register'' t ''125'') else None
      | RegisterTypeInputRegister \<Rightarrow>
          if 125 < tag_RegisterCount t then Some (exceeds ''input register'' t ''125'') else None
      | RegisterTypeCoil \<Rightarrow>
          if 2000 < tag_RegisterCount t then Some (exceeds ''coil'' t ''2000'') else None
      | RegisterTypeDiscreteInput \<Rightarrow>
          if 2000 < tag_RegisterCount t then Some (exceeds ''discrete input'' t ''2000'') else None
      | RegisterTypeOther _ \<Rightarrow> None)"

definition validateProtocolLimits :: "tag \<Rightarrow> gerror option" where
  "validateProtocolLimits t =
     (if tag_RegisterCount t = 0
      then Some (WrapV (ModbusE ErrInvalidRegisterCount)
                   (''RegisterCount cannot be 0 for tag '' @ quote (tag_ID t)))
      else case count_limit t of
        Some e \<Rightarrow> Some e
      | None \<Rightarrow>
          let past = (ucast (tag_Address t) :: u32) + ucast (tag_RegisterCount t)
          in if 65535 < past
             then Some (WrapV (ModbusE ErrModbusProtocolLimit)
                   (''address range '' @ dec (uint (tag_Address t)) @ ''-'' @ dec (uint (past - 1)) @
                    '' exceeds 16-bit limit''))
             else None)"

text \<open>The library function for a register type, if there is one.\<close>

definition read_request ::
  "'w modbus_env \<Rightarrow> register_type \<Rightarrow> (u16 \<Rightarrow> u16 \<Rightarrow> 'w \<Rightarrow> (lib_error + bytes) \<times> 'w) option" where
  "read_request E rt =
     (case rt of
        RegisterTypeCoil \<Rightarrow> Some (env_ReadCoils E)
      | RegisterTypeDiscreteInput \<Rightarrow> Some (env_ReadDiscreteInputs E)
      | RegisterTypeHoldingRegister \<Rightarrow> Some (env_ReadHoldingRegisters E)
      | RegisterTypeInputRegister \<Rightarrow> Some (env_ReadInputRegisters E)
      | RegisterTypeOther _ \<Rightarrow> None)"

definition readRegisters :: "'w modbus_env \<Rightarrow> tag \<Rightarrow> ('w, gerror + bytes) modbus" where
  "readRegisters E t =
     bnd (field cl_client) (\<lambda>client.
     if \<not> client then ret (Inl (Sentinel (ConnE ErrConnectionClosed)))
     else case validateProtocolLimits t of
       Some e \<Rightarrow> ret (Inl e)
     | None \<Rightarrow>
        (case read_request E (tag_RegisterType t) of
           None \<Rightarrow> ret (Inl (Sentinel (RWE ErrInvalidRegisterType)))
         | Some request \<Rightarrow>
             bnd (call (request (tag_Address t) (tag_RegisterCount t))) (\<lambda>result.
             case result of
               Inl err \<Rightarrow>
                 bnd (upd (cl_consecutiveFailures_update (\<lambda>n. n + 1))) (\<lambda>_.
                 ret (Inl (translateModbusError err)))
             | Inr raw \<Rightarrow>
                 bnd (upd (cl_consecutiveFailures_update (\<lambda>_. 0))) (\<lambda>_.
                 ret (Inr raw)))))"

section \<open>One tag, with retries\<close>

text \<open>
  How the retry loop is left: with the function's return values, or with \<open>rawBytes\<close> and
  \<open>err\<close> for the code after it.
\<close>

datatype 'r loop_exit = Return 'r | Fallthrough bytes "gerror option"

definition tag_failed ::
  "'w modbus_env \<Rightarrow> tag \<Rightarrow> gerror \<Rightarrow> ('w, data_point option \<times> gerror option) modbus" where
  "tag_failed E t err =
     bnd (upd count_error) (\<lambda>_.
     bnd (recordTagError E (tag_ID t) err) (\<lambda>_.
     bnd (createErrorDataPoint E t err) (\<lambda>dp.
     ret (Some dp, Some err))))"

fun read_attempts ::
  "'w modbus_env \<Rightarrow> tag \<Rightarrow> gerror option \<Rightarrow> nat list \<Rightarrow>
   ('w, (data_point option \<times> gerror option) loop_exit) modbus" where
  "read_attempts E t err [] = ret (Fallthrough [] err)"
| "read_attempts E t err (attempt # rest) =
     bnd (retry_wait E attempt) (\<lambda>cancelled.
     case cancelled of
       Some e \<Rightarrow> ret (Return (None, Some e))
     | None \<Rightarrow>
         bnd (readRegisters E t) (\<lambda>result.
         case result of
           Inr raw \<Rightarrow> ret (Fallthrough raw None)
         | Inl e \<Rightarrow>
             if \<not> isRetryableError e then bnd (tag_failed E t e) (\<lambda>r. ret (Return r))
             else bnd (if isConnectionError e then reconnect E else ret ()) (\<lambda>_.
                  read_attempts E t (Some e) rest)))"

definition parsed_point ::
  "'w modbus_env \<Rightarrow> tag \<Rightarrow> bytes \<Rightarrow> ('w, data_point option \<times> gerror option) modbus" where
  "parsed_point E t raw =
     (case snd (parseValue raw t) of
        Crash p \<Rightarrow> panic p
      | Err err \<Rightarrow> bnd (createErrorDataPoint E t err) (\<lambda>dp. ret (Some dp, Some err))
      | Ok value \<Rightarrow>
          bnd (acquire E t (applyScaling value t) QualityGood) (\<lambda>dp.
          ret (Some (WithRawValue dp value), None)))"

definition ReadTag :: "'w modbus_env \<Rightarrow> tag \<Rightarrow> ('w, data_point option \<times> gerror option) modbus" where
  "ReadTag E t =
     timed E add_read_time (
     bnd (touch E) (\<lambda>_.
     bnd (field cl_connected) (\<lambda>connected.
     if \<not> connected then ret (None, Some (Sentinel (ConnE ErrConnectionClosed)))
     else
       bnd (field cl_config) (\<lambda>config.
       bnd (read_attempts E t None (attempts config)) (\<lambda>left.
       case left of
         Return r \<Rightarrow> ret r
       | Fallthrough raw (Some err) \<Rightarrow> tag_failed E t err
       | Fallthrough raw None \<Rightarrow>
           bnd (upd count_read) (\<lambda>_.
           bnd (recordTagSuccess E (tag_ID t)) (\<lambda>_.
           parsed_point E t raw)))))))"

section \<open>A range of registers\<close>

definition good_point :: "'w modbus_env \<Rightarrow> tag \<Rightarrow> goval \<Rightarrow> ('w, data_point) modbus" where
  "good_point E t value =
     bnd (recordTagSuccess E (tag_ID t)) (\<lambda>_.
     bnd (acquire E t (applyScaling value t) QualityGood) (\<lambda>dp.
     ret (WithPriority (WithRawValue dp value) (tag_Priority t))))"

definition bad_point :: "'w modbus_env \<Rightarrow> tag \<Rightarrow> gerror \<Rightarrow> ('w, data_point) modbus" where
  "bad_point E t err =
     bnd (recordTagError E (tag_ID t) err) (\<lambda>_. createErrorDataPoint E t err)"

text \<open>
  The loop that extracts the tags: \<open>parseValue\<close> reorders its window of \<open>rawData\<close> in place, so
  the buffer the next tag sees is the one it left. The 16-bit difference cannot be negative.
\<close>

fun extract_registers ::
  "'w modbus_env \<Rightarrow> u16 \<Rightarrow> bytes \<Rightarrow> tag list \<Rightarrow> ('w, data_point list) modbus" where
  "extract_registers E start raw [] = ret []"
| "extract_registers E start raw (t # ts) =
     (let offset = unat (tag_Address t - start) * 2;
          tagByteLen = unat (tag_RegisterCount t) * 2
      in if length raw < offset + tagByteLen then
           bnd (bad_point E t (Sentinel (RWE ErrInvalidDataLength))) (\<lambda>dp.
           bnd (extract_registers E start raw ts) (\<lambda>dps.
           ret (dp # dps)))
         else
           (let (tagData, result) = parseValue (part raw offset tagByteLen) t;
                raw' = put_part raw offset tagData
            in case result of
                 Crash p \<Rightarrow> panic p
               | Err err \<Rightarrow>
                   bnd (bad_point E t err) (\<lambda>dp.
                   bnd (extract_registers E start raw' ts) (\<lambda>dps.
                   ret (dp # dps)))
               | Ok value \<Rightarrow>
                   bnd (good_point E t value) (\<lambda>dp.
                   bnd (extract_registers E start raw' ts) (\<lambda>dps.
                   ret (dp # dps)))))"

text \<open>What the two range readers share: the request and the extraction of its result.\<close>

definition read_range ::
  "(u16 \<Rightarrow> u16 \<Rightarrow> 'w \<Rightarrow> (lib_error + bytes) \<times> 'w) option \<Rightarrow>
   (bytes \<Rightarrow> ('w, data_point list) modbus) \<Rightarrow> register_range \<Rightarrow>
   ('w, gerror + data_point list) modbus" where
  "read_range request decode rng =
     bnd (field cl_client) (\<lambda>client.
     if \<not> client then ret (Inl (Sentinel (ConnE ErrConnectionClosed)))
     else case request of
       None \<Rightarrow> ret (Inl (Sentinel (RWE ErrInvalidRegisterType)))
     | Some req \<Rightarrow>
         bnd (call (req (rr_StartAddress rng) (rr_EndAddress rng - rr_StartAddress rng + 1))) (\<lambda>result.
         case result of
           Inl err \<Rightarrow>
             bnd (upd (cl_consecutiveFailures_update (\<lambda>n. n + 1))) (\<lambda>_.
             ret (Inl (translateModbusError err)))
         | Inr raw \<Rightarrow>
             bnd (upd (cl_consecutiveFailures_update (\<lambda>_. 0))) (\<lambda>_.
             bnd (upd count_read) (\<lambda>_.
             bnd (decode raw) (\<lambda>dps. ret (Inr dps))))))"

definition readRegisterRange ::
  "'w modbus_env \<Rightarrow> register_type \<Rightarrow> register_range \<Rightarrow> ('w, gerror + data_point list) modbus" where
  "readRegisterRange E regType rng =
     read_range
       (case regType of
          RegisterTypeHoldingRegister \<Rightarrow> Some (env_ReadHoldingRegisters E)
        | RegisterTypeInputRegister \<Rightarrow> Some (env_ReadInputRegisters E)
        | _ \<Rightarrow> None)
       (\<lambda>raw. extract_registers E (rr_StartAddress rng) raw (rr_Tags rng)) rng"

section \<open>A range of coils\<close>

text \<open>Coil \<open>i\<close> of a response: bit \<open>i mod 8\<close>, from the least significant, of byte \<open>i div 8\<close>.\<close>

definition coil_at :: "bytes \<Rightarrow> nat \<Rightarrow> bool" where
  "coil_at raw i = (and (raw ! (i div 8)) (push_bit (i mod 8) 1) \<noteq> 0)"

fun extract_coils ::
  "'w modbus_env \<Rightarrow> u16 \<Rightarrow> bytes \<Rightarrow> tag list \<Rightarrow> ('w, data_point list) modbus" where
  "extract_coils E start raw [] = ret []"
| "extract_coils E start raw (t # ts) =
     (let bitOffset = unat (tag_Address t - start)
      in bnd (if length raw \<le> bitOffset div 8
              then bad_point E t (Sentinel (RWE ErrInvalidDataLength))
              else good_point E t (VBool (coil_at raw bitOffset))) (\<lambda>dp.
         bnd (extract_coils E start raw ts) (\<lambda>dps.
         ret (dp # dps))))"

definition readCoilRange ::
  "'w modbus_env \<Rightarrow> register_type \<Rightarrow> register_range \<Rightarrow> ('w, gerror + data_point list) modbus" where
  "readCoilRange E regType rng =
     read_range
       (case regType of
          RegisterTypeCoil \<Rightarrow> Some (env_ReadCoils E)
        | RegisterTypeDiscreteInput \<Rightarrow> Some (env_ReadDiscreteInputs E)
        | _ \<Rightarrow> None)
       (\<lambda>raw. extract_coils E (rr_StartAddress rng) raw (rr_Tags rng)) rng"

section \<open>A group of tags of one register type\<close>

fun error_points :: "'w modbus_env \<Rightarrow> gerror \<Rightarrow> tag list \<Rightarrow> ('w, data_point list) modbus" where
  "error_points E err [] = ret []"
| "error_points E err (t # ts) =
     bnd (createErrorDataPoint E t err) (\<lambda>dp.
     bnd (error_points E err ts) (\<lambda>dps.
     ret (dp # dps)))"

text \<open>The loop over the ranges; a done context ends it with what was read so far.\<close>

fun read_ranges ::
  "'w modbus_env \<Rightarrow> (register_range \<Rightarrow> ('w, gerror + data_point list) modbus) \<Rightarrow>
   register_range list \<Rightarrow> ('w, data_point list \<times> gerror option) modbus" where
  "read_ranges E read_one [] = ret ([], None)"
| "read_ranges E read_one (rng # rngs) =
     bnd (call (env_ctxErr E)) (\<lambda>done.
     case done of
       Some e \<Rightarrow> ret ([], Some e)
     | None \<Rightarrow>
         bnd (read_one rng) (\<lambda>result.
         bnd (case result of Inl err \<Rightarrow> error_points E err (rr_Tags rng) | Inr dps \<Rightarrow> ret dps) (\<lambda>dps.
         bnd (read_ranges E read_one rngs) (\<lambda>(more, err).
         ret (dps @ more, err)))))"

definition readCoilGroupBatched ::
  "'w modbus_env \<Rightarrow> tag list \<Rightarrow> ('w, data_point list \<times> gerror option) modbus" where
  "readCoilGroupBatched E tags =
     (case tags of
        [] \<Rightarrow> ret ([], None)
      | t # _ \<Rightarrow> read_ranges E (readCoilRange E (tag_RegisterType t))
                   (buildCoilRanges tags DefaultCoilBatchConfig))"

definition readTagGroup ::
  "'w modbus_env \<Rightarrow> tag list \<Rightarrow> ('w, data_point list \<times> gerror option) modbus" where
  "readTagGroup E tags =
     (case tags of
        [] \<Rightarrow> ret ([], None)
      | t # _ \<Rightarrow>
          if is_bit_type (tag_RegisterType t) then readCoilGroupBatched E tags
          else read_ranges E (readRegisterRange E (tag_RegisterType t))
                 (buildContiguousRanges tags DefaultBatchConfig))"

section \<open>All tags\<close>

text \<open>
  The groups by register type, in the order in which the map is walked (any order of its keys).
\<close>

definition group_keys :: "tag list \<Rightarrow> register_type list" where
  "group_keys tags = remdups (map tag_RegisterType tags)"

definition tags_of_type :: "tag list \<Rightarrow> register_type \<Rightarrow> tag list" where
  "tags_of_type tags rt = filter (\<lambda>t. tag_RegisterType t = rt) tags"

definition groupTagsByType :: "'w modbus_env \<Rightarrow> tag list \<Rightarrow> ('w, tag list list) modbus" where
  "groupTagsByType E tags =
     bnd (call (env_mapOrder E (group_keys tags))) (\<lambda>keys. ret (map (tags_of_type tags) keys))"

fun read_groups :: "'w modbus_env \<Rightarrow> tag list list \<Rightarrow> ('w, data_point list) modbus" where
  "read_groups E [] = ret []"
| "read_groups E (g # gs) =
     bnd (readTagGroup E g) (\<lambda>(groupResults, err).
     bnd (case err of None \<Rightarrow> ret groupResults | Some e \<Rightarrow> error_points E e g) (\<lambda>dps.
     bnd (read_groups E gs) (\<lambda>more.
     ret (dps @ more))))"

definition ReadTags :: "'w modbus_env \<Rightarrow> tag list \<Rightarrow> ('w, data_point list \<times> gerror option) modbus" where
  "ReadTags E tags =
     (if tags = [] then ret ([], None)
      else bnd (groupTagsByType E tags) (\<lambda>groups.
           bnd (read_groups E groups) (\<lambda>results.
           ret (results, None))))"

text \<open>The fallback reader, which no caller in the repository uses.\<close>

fun readTagGroupIndividually ::
  "'w modbus_env \<Rightarrow> tag list \<Rightarrow> ('w, data_point option list \<times> gerror option) modbus" where
  "readTagGroupIndividually E [] = ret ([], None)"
| "readTagGroupIndividually E (t # ts) =
     bnd (call (env_ctxErr E)) (\<lambda>done.
     case done of
       Some e \<Rightarrow> ret ([], Some e)
     | None \<Rightarrow>
         bnd (ReadTag E t) (\<lambda>(dp, err).
         bnd (readTagGroupIndividually E ts) (\<lambda>(dps, err).
         ret (dp # dps, err))))"

section \<open>What reads keep of the client\<close>

context reading_frame begin

lemma readRegisters [preserving]: "preserves (on_client P) (readRegisters E t)"
  unfolding readRegisters_def by (intro preserving)

lemma tag_failed [preserving]: "preserves (on_client P) (tag_failed E t err)"
  unfolding tag_failed_def by (intro preserving)

lemma parsed_point [preserving]: "preserves (on_client P) (parsed_point E t raw)"
  unfolding parsed_point_def by (intro preserving)

lemma good_point [preserving]: "preserves (on_client P) (good_point E t v)"
  unfolding good_point_def by (intro preserving)

lemma bad_point [preserving]: "preserves (on_client P) (bad_point E t err)"
  unfolding bad_point_def by (intro preserving)

lemma extract_registers [preserving]: "preserves (on_client P) (extract_registers E start raw ts)"
  by (induction ts arbitrary: raw) (auto simp: Let_def split: prod.split intro!: preserving)

lemma extract_coils [preserving]: "preserves (on_client P) (extract_coils E start raw ts)"
  by (induction ts) (auto simp: Let_def intro!: preserving)

lemma error_points [preserving]: "preserves (on_client P) (error_points E err ts)"
  by (induction ts) (auto intro!: preserving)

lemma read_range [preserving]:
  "(\<And>raw. preserves (on_client P) (decode raw)) \<Longrightarrow> preserves (on_client P) (read_range req decode rng)"
  unfolding read_range_def by (intro preserving)

lemma read_ranges [preserving]:
  "(\<And>rng. preserves (on_client P) (read_one rng)) \<Longrightarrow> preserves (on_client P) (read_ranges E read_one rngs)"
  by (induction rngs) (auto intro!: preserving)

lemma readTagGroup [preserving]: "preserves (on_client P) (readTagGroup E ts)"
  unfolding readTagGroup_def readCoilGroupBatched_def readRegisterRange_def readCoilRange_def
  by (auto split: list.split intro!: preserving)

lemma read_groups [preserving]: "preserves (on_client P) (read_groups E gs)"
  by (induction gs) (auto intro!: preserving)

lemma ReadTags: "preserves (on_client P) (ReadTags E ts)"
  unfolding ReadTags_def groupTagsByType_def by (intro preserving)

end

context retrying_frame begin

lemma read_attempts [preserving]: "preserves (on_client P) (read_attempts E t err as)"
  by (induction as arbitrary: err) (auto intro!: preserving)

lemma ReadTag: "preserves (on_client P) (ReadTag E t)"
  unfolding ReadTag_def
  by (intro preserving touch) (auto split: loop_exit.split option.split intro!: preserving)

end

end
