(* ===== verification/ModbusReports.thy ===== *)
theory ModbusReports
  imports ModbusRead
begin

text \<open>
  What the Modbus reads return: one point per tag and no panic (\<open>diagnostics_ok\<close>), and, on a
  device that answers (\<open>serves\<close>), the value that decoding the tag's own registers gives. The
  lemmas go up the call tree: a point, a range, a group, all groups.
\<close>

section \<open>Batched reads return one point per tag\<close>

text \<open>
  A tag's diagnostics accept the errors of a batched read when they hold none or a sentinel.
\<close>

definition diagnostics_ok :: "client \<Rightarrow> bool" where
  "diagnostics_ok c \<longleftrightarrow>
     (\<forall>i g e. cl_tagDiagnostics c i = Some g \<longrightarrow> td_LastError g = Some e \<longrightarrow> dynamic_type_of e = ErrorString)"

lemma diagnostics_ok_simps [simp]:
  "diagnostics_ok (count_read c) = diagnostics_ok c" "diagnostics_ok (count_error c) = diagnostics_ok c"
  "diagnostics_ok (cl_consecutiveFailures_update f c) = diagnostics_ok c"
  by (simp_all add: diagnostics_ok_def count_read_def count_error_def)

lemma diagnostics_ok_get:
  "diagnostics_ok c \<Longrightarrow> td_LastError (getOrCreateTagDiagnostic i c) = Some e \<Longrightarrow> dynamic_type_of e = ErrorString"
  by (auto simp: diagnostics_ok_def getOrCreateTagDiagnostic_def NewTagDiagnostic_def split: option.splits)

lemma diagnostics_ok_put:
  "diagnostics_ok c \<Longrightarrow> (\<And>e. td_LastError g = Some e \<Longrightarrow> dynamic_type_of e = ErrorString) \<Longrightarrow>
   diagnostics_ok (put_diagnostic i g c)"
  by (auto simp: diagnostics_ok_def put_diagnostic_def)

lemma on_client_yields [yielding]:
  "yields (on_client P) (field f) (\<lambda>_. True)" "yields (on_client P) (call g) (\<lambda>_. True)"
  "(\<And>c. P c \<Longrightarrow> P (h c)) \<Longrightarrow> yields (on_client P) (upd h) (\<lambda>_. True)"
  by (rule yields_field yields_call yields_upd; simp add: on_client_def)+

lemma recordTagSuccess_yields: "yields (on_client diagnostics_ok) (recordTagSuccess E i) (\<lambda>_. True)"
proof (rule yieldsI)
  fix s :: "client \<times> 'a"
  assume "on_client diagnostics_ok s"
  then show "\<exists>a s'. recordTagSuccess E i s = (Val a, s') \<and> on_client diagnostics_ok s' \<and> True"
    by (cases s) (auto simp: recordTagSuccess_def run_simps on_client_def split: prod.split
        intro!: diagnostics_ok_put dest: diagnostics_ok_get)
qed

lemma recordTagError_yields:
  assumes "dynamic_type_of err = ErrorString"
  shows "yields (on_client diagnostics_ok) (recordTagError E i err) (\<lambda>_. True)"
proof (rule yieldsI)
  fix s :: "client \<times> 'a"
  assume ok: "on_client diagnostics_ok s"
  obtain c w where s: "s = (c, w)" by (cases s)
  have "can_store (td_LastError (getOrCreateTagDiagnostic i c)) err"
    using ok assms by (auto simp: can_store_def on_client_def s dest: diagnostics_ok_get split: option.split)
  then show "\<exists>a s'. recordTagError E i err s = (Val a, s') \<and> on_client diagnostics_ok s' \<and> True"
    using ok assms by (auto simp: recordTagError_def run_simps on_client_def s Let_def split: prod.split
        intro!: diagnostics_ok_put dest: diagnostics_ok_get)
qed

text \<open>A point for a tag.\<close>

definition point_of :: "tag \<Rightarrow> data_point \<Rightarrow> bool" where
  "point_of t dp \<longleftrightarrow> dp_TagID dp = tag_ID t"

lemma acquire_yields: "yields (on_client P) (acquire E t v q)
    (\<lambda>dp. point_of t dp \<and> dp_Value dp = v \<and> dp_RawValue dp = VNil \<and> dp_Quality dp = q)"
  unfolding acquire_def
  by (intro yields_bnd [OF on_client_yields(1)] yields_bnd [OF on_client_yields(2)] yields_ret)
    (simp add: Acquire_eq_New point_of_def)

lemma createErrorDataPoint_yields: "yields (on_client P) (createErrorDataPoint E t err)
    (\<lambda>dp. point_of t dp \<and> dp_Value dp = VNil \<and> dp_RawValue dp = VNil \<and> dp_Quality dp = error_quality err)"
  unfolding createErrorDataPoint_def by (rule acquire_yields)

lemma good_point_yields: "yields (on_client diagnostics_ok) (good_point E t v)
    (\<lambda>dp. point_of t dp \<and> dp_Value dp = applyScaling v t \<and> dp_RawValue dp = v \<and> dp_Quality dp = QualityGood)"
  unfolding good_point_def
  by (intro yields_bnd [OF recordTagSuccess_yields] yields_bnd [OF acquire_yields] yields_ret)
    (simp add: point_of_def)

lemma bad_point_yields:
  "dynamic_type_of err = ErrorString \<Longrightarrow> yields (on_client diagnostics_ok) (bad_point E t err)
    (\<lambda>dp. point_of t dp \<and> dp_Value dp = VNil \<and> dp_RawValue dp = VNil \<and> dp_Quality dp = error_quality err)"
  unfolding bad_point_def
  by (intro yields_bnd [OF recordTagError_yields] createErrorDataPoint_yields)

lemma parseValue_error_type: "snd (parseValue raw t) = Err err \<Longrightarrow> dynamic_type_of err = ErrorString"
  by (auto simp: parseValue_def decode_registers_def Let_def out_of_range_def
      split: if_splits data_type.splits option.splits)

section \<open>What a batched read reports\<close>

type_synonym tag_report = "string \<times> goval \<times> goval \<times> quality"

definition report :: "data_point \<Rightarrow> tag_report" where
  "report dp = (dp_TagID dp, dp_RawValue dp, dp_Value dp, dp_Quality dp)"

text \<open>What decoding its registers alone reports of a tag.\<close>

definition failed_report :: "tag \<Rightarrow> tag_report" where
  "failed_report t = (tag_ID t, VNil, VNil, QualityBad)"

definition value_report :: "tag \<Rightarrow> goval \<Rightarrow> tag_report" where
  "value_report t v = (tag_ID t, v, applyScaling v t, QualityGood)"

definition tag_report :: "tag \<Rightarrow> bytes \<Rightarrow> tag_report" where
  "tag_report t data = (case snd (parseValue data t) of Ok v \<Rightarrow> value_report t v | _ \<Rightarrow> failed_report t)"

definition window_start :: "u16 \<Rightarrow> tag \<Rightarrow> nat" where
  "window_start start t = unat (tag_Address t - start) * 2"

definition window_length :: "tag \<Rightarrow> nat" where
  "window_length t = unat (tag_RegisterCount t) * 2"

definition window_report :: "u16 \<Rightarrow> bytes \<Rightarrow> tag \<Rightarrow> tag_report" where
  "window_report start raw t =
     (if length raw < window_start start t + window_length t then failed_report t
      else tag_report t (part raw (window_start start t) (window_length t)))"

text \<open>The buffer after a tag's window was decoded in place.\<close>

definition buffer_after :: "u16 \<Rightarrow> bytes \<Rightarrow> tag \<Rightarrow> bytes" where
  "buffer_after start raw t =
     (if length raw < window_start start t + window_length t then raw
      else put_part raw (window_start start t)
             (fst (parseValue (part raw (window_start start t) (window_length t)) t)))"

fun window_reports :: "u16 \<Rightarrow> bytes \<Rightarrow> tag list \<Rightarrow> tag_report list" where
  "window_reports start raw [] = []"
| "window_reports start raw (t # ts) =
     window_report start raw t # window_reports start (buffer_after start raw t) ts"

lemma error_quality_sentinel [simp]:
  "error_quality (Sentinel (RWE ErrInvalidDataLength)) = QualityBad"
  "error_quality (Sentinel (RWE ErrInvalidDataType)) = QualityBad"
  by code_simp+

lemma parseValue_error: "snd (parseValue raw t) = Err err \<Longrightarrow>
    err = Sentinel (RWE ErrInvalidDataLength) \<or> err = Sentinel (RWE ErrInvalidDataType)"
  by (auto simp: parseValue_def decode_registers_def Let_def out_of_range_def
      split: if_splits data_type.splits option.splits)

lemma extract_registers_yields:
  assumes "\<forall>t\<in>set ts. modbus_ready t"
  shows "yields (on_client diagnostics_ok) (extract_registers E start raw ts)
    (\<lambda>dps. map report dps = window_reports start raw ts)"
  using assms
proof (induction ts arbitrary: raw)
  case Nil
  then show ?case by (simp add: yields_ret)
next
  case (Cons t ts)
  let ?off = "unat (tag_Address t - start) * 2" and ?len = "unat (tag_RegisterCount t) * 2"
  have rest: "yields (on_client diagnostics_ok)
      (bnd head (\<lambda>dp. bnd (extract_registers E start (buffer_after start raw t) ts) (\<lambda>dps. ret (dp # dps))))
      (\<lambda>dps. map report dps = window_reports start raw (t # ts))"
    if "yields (on_client diagnostics_ok) head (\<lambda>dp. report dp = window_report start raw t)" for head
    using Cons by (intro yields_bnd [OF that] yields_bnd [OF Cons.IH] yields_ret) auto
  show ?case
  proof (cases "length raw < ?off + ?len")
    case True
    let ?err = "Sentinel (RWE ErrInvalidDataLength)"
    have "yields (on_client diagnostics_ok) (bad_point E t ?err) (\<lambda>dp. report dp = window_report start raw t)"
      by (rule yields_weaken [OF bad_point_yields])
        (use True in \<open>simp_all add: window_start_def window_length_def window_report_def
          report_def failed_report_def point_of_def\<close>)
    from rest [OF this] True show ?thesis
      by (simp add: Let_def buffer_after_def window_start_def window_length_def)
  next
    case False
    obtain data result where p: "parseValue (part raw ?off ?len) t = (data, result)" by fastforce
    have after: "buffer_after start raw t = put_part raw ?off data"
      using False by (simp add: buffer_after_def window_start_def window_length_def p)
    show ?thesis
    proof (cases result)
      case (Ok v)
      have "yields (on_client diagnostics_ok) (good_point E t v) (\<lambda>dp. report dp = window_report start raw t)"
        by (rule yields_weaken [OF good_point_yields])
          (use False in \<open>simp add: window_start_def window_length_def window_report_def p Ok
            report_def tag_report_def value_report_def point_of_def\<close>)
      from rest [OF this] False show ?thesis by (simp add: Let_def p Ok after)
    next
      case (Err err)
      with p have err: "dynamic_type_of err = ErrorString" "error_quality err = QualityBad"
        using parseValue_error [of "part raw ?off ?len" t err] by auto
      have "yields (on_client diagnostics_ok) (bad_point E t err) (\<lambda>dp. report dp = window_report start raw t)"
        by (rule yields_weaken [OF bad_point_yields [OF err(1)]])
          (use False in \<open>simp add: window_start_def window_length_def window_report_def p Err
            report_def tag_report_def failed_report_def point_of_def err(2)\<close>)
      from rest [OF this] False show ?thesis by (simp add: Let_def p Err after)
    next
      case (Crash m)
      with p parseValue_no_crash [of t "part raw ?off ?len"] Cons.prems show ?thesis by simp
    qed
  qed
qed

subsection \<open>Windows that do not disturb each other\<close>

definition in_order :: "tag \<Rightarrow> bool" where
  "in_order t =
     (case tag_ByteOrder t of ByteOrderBigEndian \<Rightarrow> True | ByteOrderOther _ \<Rightarrow> True | _ \<Rightarrow> False)"

definition apart :: "tag \<Rightarrow> tag \<Rightarrow> bool" where
  "apart t u \<longleftrightarrow>
     uint (tag_Address t) + uint (tag_RegisterCount t) \<le> uint (tag_Address u) \<or>
     uint (tag_Address u) + uint (tag_RegisterCount u) \<le> uint (tag_Address t) \<or>
     in_order t \<and> in_order u"

lemma apart_sym: "apart t u \<Longrightarrow> apart u t"
  by (auto simp: apart_def)

lemma in_order_parse: "in_order t \<Longrightarrow> fst (parseValue data t) = data"
  by (auto simp: parseValue_def reorderBytes_def in_order_def Let_def split: byte_order.splits)

lemma in_order_buffer: "in_order t \<Longrightarrow> buffer_after start raw t = raw"
  by (simp add: buffer_after_def in_order_parse)

lemma length_buffer_after [simp]: "length (buffer_after start raw t) = length raw"
  by (simp add: buffer_after_def length_put_part length_part)

lemma window_start_exact:
  "start \<le> tag_Address t \<Longrightarrow> int (window_start start t) = (uint (tag_Address t) - uint start) * 2"
  by (simp add: window_start_def uint_sub_lem word_le_def flip: uint_nat)

lemma window_report_apart:
  assumes "apart t u" and "start \<le> tag_Address t" and "start \<le> tag_Address u"
  shows "window_report start (buffer_after start raw t) u = window_report start raw u"
proof (cases "in_order t \<or> length raw < window_start start t + window_length t \<or>
    length raw < window_start start u + window_length u")
  case True
  then show ?thesis
    by (auto simp: in_order_buffer window_report_def) (simp add: buffer_after_def)
next
  case False
  have len: "int (window_length v) = uint (tag_RegisterCount v) * 2" for v
    by (simp add: window_length_def)
  from assms False have "int (window_start start t) + int (window_length t) \<le> int (window_start start u) \<or>
      int (window_start start u) + int (window_length u) \<le> int (window_start start t)"
    by (auto simp: apart_def window_start_exact len)
  then have "window_start start u + window_length u \<le> window_start start t \<or>
      window_start start t + window_length t \<le> window_start start u" by linarith
  with False have "part (buffer_after start raw t) (window_start start u) (window_length u) =
      part raw (window_start start u) (window_length u)"
    by (auto simp: buffer_after_def intro!: part_put_part_disjoint simp: length_part)
  then show ?thesis by (simp add: window_report_def)
qed

lemma window_reports_apart:
  assumes "sorted_wrt apart ts" and "\<forall>t\<in>set ts. start \<le> tag_Address t"
  shows "window_reports start raw ts = map (window_report start raw) ts"
  using assms
proof (induction ts arbitrary: raw)
  case Nil
  then show ?case by simp
next
  case (Cons t ts)
  then have "window_reports start (buffer_after start raw t) ts =
      map (window_report start (buffer_after start raw t)) ts" by simp
  also have "\<dots> = map (window_report start raw) ts"
    using Cons.prems by (auto intro!: window_report_apart)
  finally show ?case by simp
qed

section \<open>A device that answers\<close>

text \<open>
  The device's registers as bytes, two per address, and a library function that reads them: the
  documented answer to a request inside the address space is exactly that part.
\<close>

definition serves :: "(u16 \<Rightarrow> u16 \<Rightarrow> 'w \<Rightarrow> (lib_error + bytes) \<times> 'w) \<Rightarrow> bytes \<Rightarrow> bool" where
  "serves request mem \<longleftrightarrow> length mem = 2 * 2 ^ 16 \<and>
     (\<forall>a n w. uint a + uint n \<le> 2 ^ 16 \<longrightarrow>
        fst (request a n w) = Inr (part mem (2 * unat a) (2 * unat n)))"

definition registers_of :: "bytes \<Rightarrow> tag \<Rightarrow> bytes" where
  "registers_of mem t = part mem (2 * unat (tag_Address t)) (2 * unat (tag_RegisterCount t))"

definition context_live :: "'w modbus_env \<Rightarrow> bool" where
  "context_live E \<longleftrightarrow> (\<forall>w. fst (env_ctxErr E w) = None)"

text \<open>A client in a given link state whose diagnostics accept the errors of a read.\<close>

definition usable :: "bool \<times> bool \<times> client_config \<Rightarrow> client \<Rightarrow> bool" where
  "usable l c \<longleftrightarrow> diagnostics_ok c \<and> link c = l"

lemma usable_yields:
  "yields (on_client diagnostics_ok) m Q \<Longrightarrow> preserves (on_client (\<lambda>c. link c = l)) m \<Longrightarrow>
   yields (on_client (usable l)) m Q"
  using yields_and [of "on_client diagnostics_ok" m Q "on_client (\<lambda>c. link c = l)"]
  by (simp add: on_client_def usable_def yields_def)

lemma usable_simps [simp]:
  "usable l (count_read c) = usable l c" "usable l (count_error c) = usable l c"
  "usable l (cl_consecutiveFailures_update f c) = usable l c"
  by (simp_all add: usable_def link_def)

lemma part_part: "j + m \<le> n \<Longrightarrow> part (part xs i n) j m = part xs (i + j) m"
  by (simp add: part_def take_drop min_def add.commute)

lemma window_report_served:
  assumes "covers rng t" and "range_size rng < 2 ^ 16" and "length mem = 2 * 2 ^ 16"
  shows "window_report (rr_StartAddress rng)
      (part mem (2 * unat (rr_StartAddress rng))
         (2 * unat (rr_EndAddress rng - rr_StartAddress rng + 1))) t = tag_report t (registers_of mem t)"
proof -
  let ?s = "rr_StartAddress rng" and ?e = "rr_EndAddress rng"
  have size: "uint (?e - ?s + 1) = range_size rng"
  proof -
    have "uint (?e - ?s + 1) = range_size rng mod 2 ^ 16"
      by (simp add: range_size_def uint_word_ariths mod_simps)
    also have "\<dots> = range_size rng"
    proof (rule mod_pos_pos_trivial)
      have "0 \<le> uint (tag_RegisterCount t)" by simp
      then show "0 \<le> range_size rng"
        using assms(1) unfolding covers_def range_size_def by linarith
    qed (rule assms(2))
    finally show ?thesis .
  qed
  have start: "int (window_start ?s t) = (uint (tag_Address t) - uint ?s) * 2"
    using assms(1) by (intro window_start_exact) (simp add: covers_def word_le_def)
  have n: "int (2 * unat (?e - ?s + 1)) = 2 * range_size rng" using size by simp
  have wl: "int (window_length t) = uint (tag_RegisterCount t) * 2" by (simp add: window_length_def)
  have fit: "window_start ?s t + window_length t \<le> 2 * unat (?e - ?s + 1)"
  proof -
    have "int (window_start ?s t) + int (window_length t) \<le> int (2 * unat (?e - ?s + 1))"
      unfolding start wl n using assms(1) by (simp add: covers_def range_size_def)
    then show ?thesis by linarith
  qed
  have len: "length (part mem (2 * unat ?s) (2 * unat (?e - ?s + 1))) = 2 * unat (?e - ?s + 1)"
  proof (rule length_part)
    have "int (2 * unat ?s) + int (2 * unat (?e - ?s + 1)) \<le> int (length mem)"
      unfolding n using assms(3) uint_bound [of ?e] by (simp add: range_size_def)
    then show "2 * unat ?s + 2 * unat (?e - ?s + 1) \<le> length mem" by linarith
  qed
  have addr: "2 * unat ?s + window_start ?s t = 2 * unat (tag_Address t)"
  proof -
    have "int (2 * unat ?s) + int (window_start ?s t) = int (2 * unat (tag_Address t))"
      unfolding start by simp
    then show ?thesis by linarith
  qed
  show ?thesis
    using fit by (simp add: window_report_def len part_part addr registers_of_def
        window_length_def mult.commute)
qed

text \<open>One request to a device that answers.\<close>

lemma request_yields:
  fixes request :: "u16 \<Rightarrow> u16 \<Rightarrow> 'w \<Rightarrow> (lib_error + bytes) \<times> 'w" and P :: "'c \<Rightarrow> bool"
  assumes "serves request mem" and "uint a + uint n \<le> 2 ^ 16"
  shows "yields (on_client P) (call (request a n)) (\<lambda>r. r = Inr (part mem (2 * unat a) (2 * unat n)))"
proof (rule yieldsI)
  fix s :: "'c \<times> 'w" assume "on_client P s"
  moreover have "fst (request a n (snd s)) = Inr (part mem (2 * unat a) (2 * unat n))"
    using assms by (simp add: serves_def)
  ultimately show "\<exists>r s'. call (request a n) s = (Val r, s') \<and> on_client P s' \<and>
      r = Inr (part mem (2 * unat a) (2 * unat n))"
    by (cases "request a n (snd s)") (simp add: call_def on_client_def)
qed

lemma field_yields: "(\<And>c. P c \<Longrightarrow> Q (f c)) \<Longrightarrow> yields (on_client P) (field f) Q"
  by (simp add: yields_def field_def on_client_def)

lemma usable_client: "fst l \<Longrightarrow> yields (on_client (usable l)) (field cl_client) (\<lambda>b. b)"
  by (rule field_yields) (auto simp: usable_def link_def)

lemma read_range_yields:
  assumes "serves request mem" and "1 \<le> range_size rng" and "range_size rng < 2 ^ 16" and "fst l"
    and "\<And>raw. yields (on_client (usable l)) (decode raw) (Q raw)"
  shows "yields (on_client (usable l)) (read_range (Some request) decode rng)
    (\<lambda>r. \<exists>dps. r = Inr dps \<and> Q (part mem (2 * unat (rr_StartAddress rng))
       (2 * unat (rr_EndAddress rng - rr_StartAddress rng + 1))) dps)"
proof -
  let ?a = "rr_StartAddress rng" and ?n = "rr_EndAddress rng - rr_StartAddress rng + 1"
  have "uint ?n = range_size rng mod 2 ^ 16" by (simp add: range_size_def uint_word_ariths mod_simps)
  with assms(2,3) have "uint ?n = range_size rng" by simp
  then have "uint ?a + uint ?n \<le> 2 ^ 16"
    using uint_bound [of "rr_EndAddress rng"] by (simp add: range_size_def)
  note req = request_yields [OF assms(1) this]
  show ?thesis
    unfolding read_range_def
    by (rule yields_bnd [OF usable_client [OF assms(4)]])
      (auto intro!: yields_bnd [OF req] yields_bnd [OF on_client_yields(3)] yields_bnd [OF assms(5)]
        yields_ret)
qed

lemma read_ranges_yields:
  assumes "context_live E"
    and "\<forall>rng\<in>set rngs. yields (on_client P) (read_one rng) (\<lambda>r. \<exists>dps. r = Inr dps \<and> map report dps = f rng)"
  shows "yields (on_client P) (read_ranges E read_one rngs)
    (\<lambda>(dps, err). err = None \<and> map report dps = concat (map f rngs))"
  using assms(2)
proof (induction rngs)
  case Nil
  then show ?case by (simp add: yields_ret)
next
  case (Cons rng rngs)
  have live: "yields (on_client P) (call (env_ctxErr E)) (\<lambda>d. d = None)"
    using assms(1) by (auto simp: yields_def call_def on_client_def context_live_def split: prod.split)
      (metis fst_conv)+
  show ?case
    unfolding read_ranges.simps
  proof (intro yields_bnd [OF live])
    fix d assume "d = (None :: gerror option)"
    moreover have "yields (on_client P)
      (bnd (read_one rng) (\<lambda>result.
         bnd (case result of Inl err \<Rightarrow> error_points E err (rr_Tags rng) | Inr dps \<Rightarrow> ret dps) (\<lambda>dps.
         bnd (read_ranges E read_one rngs) (\<lambda>(more, err). ret (dps @ more, err)))))
      (\<lambda>(dps, err). err = None \<and> map report dps = concat (map f (rng # rngs)))"
      using Cons.prems
      by (auto intro!: yields_bnd [of _ _ "\<lambda>r. \<exists>dps. r = Inr dps \<and> map report dps = f rng"]
          yields_bnd [OF Cons.IH] yields_ret)
    ultimately show "yields (on_client P)
      (case d of Some e \<Rightarrow> ret ([], Some e) | None \<Rightarrow>
        bnd (read_one rng) (\<lambda>result.
         bnd (case result of Inl err \<Rightarrow> error_points E err (rr_Tags rng) | Inr dps \<Rightarrow> ret dps) (\<lambda>dps.
         bnd (read_ranges E read_one rngs) (\<lambda>(more, err). ret (dps @ more, err)))))
      (\<lambda>(dps, err). err = None \<and> map report dps = concat (map f (rng # rngs)))" by simp
  qed
qed

subsection \<open>Groups and single reads\<close>

lemma limits_fit:
  assumes "validateProtocolLimits t = None"
  shows "fits t"
proof -
  let ?a = "uint (tag_Address t)" and ?n = "uint (tag_RegisterCount t)"
  have "uint ((ucast (tag_Address t) :: u32) + ucast (tag_RegisterCount t)) = (?a + ?n) mod 2 ^ 32"
    by (simp add: uint_word_ariths unsigned_ucast_eq take_bit_eq_mod mod_add_eq)
  also have "\<dots> = ?a + ?n"
  proof (rule mod_pos_pos_trivial)
    show "?a + ?n < 2 ^ 32"
      using uint_bound [of "tag_Address t"] uint_bound [of "tag_RegisterCount t"] by simp
  qed simp
  finally show ?thesis
    using assms unfolding validateProtocolLimits_def fits_def
    by (auto simp: Let_def word_less_def word_neq_0_conv split: if_splits option.splits)
qed

lemma limits_count:
  assumes "validateProtocolLimits t = None"
  shows "tag_RegisterType t \<in> {RegisterTypeHoldingRegister, RegisterTypeInputRegister} \<Longrightarrow>
      uint (tag_RegisterCount t) \<le> 125"
    and "is_bit_type (tag_RegisterType t) \<Longrightarrow> uint (tag_RegisterCount t) \<le> 2000"
  using assms by (auto simp: validateProtocolLimits_def count_limit_def is_bit_type_def word_less_def
      split: if_splits option.splits)

lemma distinct_concat_part: "distinct (concat xss) \<Longrightarrow> xs \<in> set xss \<Longrightarrow> distinct xs"
  by (induction xss) auto

lemma distinct_apart:
  "distinct ts \<Longrightarrow> \<forall>t\<in>set ts. \<forall>u\<in>set ts. t \<noteq> u \<longrightarrow> apart t u \<Longrightarrow> sorted_wrt apart ts"
  by (induction ts) auto

text \<open>One range of registers, read from a device that answers.\<close>

lemma register_range_yields:
  assumes "serves (env_ReadHoldingRegisters E) mem" and "range_ok 125 rng"
    and "\<forall>t\<in>set (rr_Tags rng). modbus_ready t" and "sorted_wrt apart (rr_Tags rng)" and "fst l"
  shows "yields (on_client (usable l)) (readRegisterRange E RegisterTypeHoldingRegister rng)
    (\<lambda>r. \<exists>dps. r = Inr dps \<and>
       map report dps = map (\<lambda>t. tag_report t (registers_of mem t)) (rr_Tags rng))"
proof -
  let ?decode = "\<lambda>raw. extract_registers E (rr_StartAddress rng) raw (rr_Tags rng)"
  have start: "\<forall>t\<in>set (rr_Tags rng). rr_StartAddress rng \<le> tag_Address t"
    using assms(2) by (simp add: range_ok_def covers_def word_le_def)
  have "yields (on_client (usable l)) (?decode raw)
      (\<lambda>dps. map report dps = map (window_report (rr_StartAddress rng) raw) (rr_Tags rng))" for raw
    by (rule yields_weaken [OF usable_yields [OF extract_registers_yields [OF assms(3)]
          linked.extract_registers]])
      (simp add: window_reports_apart [OF assms(4) start])
  note extracted = this
  have size: "1 \<le> range_size rng" "range_size rng < 2 ^ 16" using assms(2) by (auto simp: range_ok_def)
  have "length mem = 2 * 2 ^ 16" using assms(1) by (simp add: serves_def)
  then have "map (window_report (rr_StartAddress rng) (part mem (2 * unat (rr_StartAddress rng))
        (2 * unat (rr_EndAddress rng - rr_StartAddress rng + 1)))) (rr_Tags rng) =
      map (\<lambda>t. tag_report t (registers_of mem t)) (rr_Tags rng)"
    using assms(2) size(2) by (auto simp: range_ok_def intro!: window_report_served)
  moreover have "yields (on_client (usable l)) (read_range (Some (env_ReadHoldingRegisters E)) ?decode rng)
      (\<lambda>r. \<exists>dps. r = Inr dps \<and> map report dps =
         map (window_report (rr_StartAddress rng) (part mem (2 * unat (rr_StartAddress rng))
           (2 * unat (rr_EndAddress rng - rr_StartAddress rng + 1)))) (rr_Tags rng))"
    by (rule read_range_yields [OF assms(1) size assms(5) extracted])
  ultimately show ?thesis by (simp add: readRegisterRange_def del: map_eq_conv)
qed

lemma group_yields:
  assumes "serves (env_ReadHoldingRegisters E) mem" and "context_live E" and "fst l"
    and "\<forall>t\<in>set tags. modbus_ready t \<and> tag_RegisterType t = RegisterTypeHoldingRegister \<and>
       validateProtocolLimits t = None"
    and "distinct tags" and "\<forall>t\<in>set tags. \<forall>u\<in>set tags. t \<noteq> u \<longrightarrow> apart t u"
  shows "yields (on_client (usable l)) (readTagGroup E tags)
    (\<lambda>(dps, err). err = None \<and>
       mset (map report dps) = mset (map (\<lambda>t. tag_report t (registers_of mem t)) tags))"
proof (cases tags)
  case Nil
  then show ?thesis by (simp add: readTagGroup_def yields_ret)
next
  case (Cons t0 ts)
  let ?build = "buildContiguousRanges tags DefaultBatchConfig"
  let ?f = "\<lambda>rng. map (\<lambda>t. tag_report t (registers_of mem t)) (rr_Tags rng)"
  have limits: "\<forall>t\<in>set tags. fits t \<and> uint (tag_RegisterCount t) \<le> 125"
    using assms(4) limits_fit limits_count(1) by blast
  have one: "yields (on_client (usable l)) (readRegisterRange E RegisterTypeHoldingRegister rng)
      (\<lambda>r. \<exists>dps. r = Inr dps \<and> map report dps = ?f rng)" if rng: "rng \<in> set ?build" for rng
  proof (rule register_range_yields [OF assms(1) _ _ _ assms(3)])
    show "range_ok 125 rng" by (rule regs.build_ok [OF limits rng])
    have sub: "set (rr_Tags rng) \<subseteq> set tags" using regs.build_member [OF rng] by blast
    then show "\<forall>t\<in>set (rr_Tags rng). modbus_ready t" using assms(4) by blast
    have "distinct (concat (map rr_Tags ?build))"
      using mset_eq_imp_distinct_iff [OF regs.build_tags] assms(5) by blast
    then have "distinct (rr_Tags rng)" by (rule distinct_concat_part) (use rng in simp)
    with sub assms(6) show "sorted_wrt apart (rr_Tags rng)" by (intro distinct_apart) blast+
  qed
  have "mset (concat (map ?f ?build)) = mset (map (\<lambda>t. tag_report t (registers_of mem t)) tags)"
    using regs.one_result_per_tag [of tags id ?f "\<lambda>t. tag_report t (registers_of mem t)"] by simp
  then have reports: "map report dps = concat (map ?f ?build) \<Longrightarrow>
      mset (map report dps) = mset (map (\<lambda>t. tag_report t (registers_of mem t)) tags)" for dps
    by simp
  have "readTagGroup E tags = read_ranges E (readRegisterRange E RegisterTypeHoldingRegister) ?build"
    using assms(4) Cons by (simp add: readTagGroup_def is_bit_type_def)
  moreover have "yields (on_client (usable l))
      (read_ranges E (readRegisterRange E RegisterTypeHoldingRegister) ?build)
      (\<lambda>(dps, err). err = None \<and> map report dps = concat (map ?f ?build))"
    using one by (intro read_ranges_yields [OF assms(2)]) blast
  ultimately show ?thesis by (auto elim!: yields_weaken dest: reports simp del: mset_map)
qed

subsection \<open>Any group, whatever the device answers\<close>

lemma extract_points:
  assumes "\<forall>t\<in>set ts. modbus_ready t"
  shows "yields (on_client diagnostics_ok) (extract_registers E start raw ts)
    (\<lambda>dps. map dp_TagID dps = map tag_ID ts)"
proof (rule yields_weaken [OF extract_registers_yields [OF assms]])
  have ids: "map fst (window_reports start raw ts) = map tag_ID ts"
    by (induction ts arbitrary: raw)
      (simp_all add: window_report_def tag_report_def failed_report_def value_report_def split: res.split)
  fix dps assume "map report dps = window_reports start raw ts"
  then have "map fst (map report dps) = map fst (window_reports start raw ts)" by simp
  then show "map dp_TagID dps = map tag_ID ts" by (simp add: ids report_def o_def)
qed

lemma extract_coils_yields: "yields (on_client diagnostics_ok) (extract_coils E start raw ts)
    (\<lambda>dps. map dp_TagID dps = map tag_ID ts)"
proof (induction ts)
  case Nil
  then show ?case by (simp add: yields_ret)
next
  case (Cons t ts)
  have "yields (on_client diagnostics_ok)
      (if length raw \<le> unat (tag_Address t - start) div 8
       then bad_point E t (Sentinel (RWE ErrInvalidDataLength))
       else good_point E t (VBool (coil_at raw (unat (tag_Address t - start))))) (\<lambda>dp. point_of t dp)"
    by (auto intro: yields_weaken [OF good_point_yields] yields_weaken [OF bad_point_yields])
  then show ?case
    unfolding extract_coils.simps Let_def
    by (rule yields_bnd) (auto intro!: yields_bnd [OF Cons.IH] yields_ret simp: point_of_def)
qed

lemma error_points_yields: "yields (on_client P) (error_points E err ts) (\<lambda>dps. map dp_TagID dps = map tag_ID ts)"
  by (induction ts) (auto intro!: yields_ret yields_bnd [OF createErrorDataPoint_yields]
      elim!: yields_bnd simp: point_of_def)

definition points_for :: "tag list \<Rightarrow> gerror + data_point list \<Rightarrow> bool" where
  "points_for ts r = (case r of Inl _ \<Rightarrow> True | Inr dps \<Rightarrow> map dp_TagID dps = map tag_ID ts)"

lemma read_range_points:
  assumes "\<And>raw. yields (on_client diagnostics_ok) (f raw) (\<lambda>dps. map dp_TagID dps = map tag_ID ts)"
  shows "yields (on_client diagnostics_ok) (read_range request f rng) (points_for ts)"
  unfolding read_range_def
  by (rule yields_bnd [OF on_client_yields(1)])
    (auto simp: points_for_def split: option.split sum.split
      intro!: yields_ret yields_bnd [OF on_client_yields(2)] yields_bnd [OF on_client_yields(3)]
        yields_bnd [OF assms])

lemma read_ranges_points:
  assumes "\<forall>rng\<in>set rngs. yields (on_client P) (read_one rng) (points_for (rr_Tags rng))"
  shows "yields (on_client P) (read_ranges E read_one rngs)
    (\<lambda>(dps, err). err = None \<longrightarrow> map dp_TagID dps = map tag_ID (concat (map rr_Tags rngs)))"
  using assms
proof (induction rngs)
  case Nil
  then show ?case by (simp add: yields_ret)
next
  case (Cons rng rngs)
  have points: "yields (on_client P)
      (case r of Inl err \<Rightarrow> error_points E err (rr_Tags rng) | Inr dps \<Rightarrow> ret dps)
      (\<lambda>dps. map dp_TagID dps = map tag_ID (rr_Tags rng))" if "points_for (rr_Tags rng) r" for r
    using that by (auto simp: points_for_def split: sum.splits intro: error_points_yields yields_ret)
  have head: "yields (on_client P) (read_one rng) (points_for (rr_Tags rng))" using Cons.prems by simp
  from Cons.prems have tail: "yields (on_client P) (read_ranges E read_one rngs)
      (\<lambda>(dps, err). err = None \<longrightarrow> map dp_TagID dps = map tag_ID (concat (map rr_Tags rngs)))"
    by (intro Cons.IH) simp
  have rest: "yields (on_client P)
      (bnd (read_one rng) (\<lambda>result.
         bnd (case result of Inl err \<Rightarrow> error_points E err (rr_Tags rng) | Inr dps \<Rightarrow> ret dps) (\<lambda>dps.
         bnd (read_ranges E read_one rngs) (\<lambda>(more, err). ret (dps @ more, err)))))
      (\<lambda>(dps, err). err = None \<longrightarrow> map dp_TagID dps = map tag_ID (concat (map rr_Tags (rng # rngs))))"
    by (rule yields_bnd [OF head], rule yields_bnd [OF points], assumption, rule yields_bnd [OF tail])
      (auto intro!: yields_ret)
  show ?case
    unfolding read_ranges.simps
    by (rule yields_bnd [OF on_client_yields(2)], rule yields_option, rule rest, rule yields_ret) simp
qed

lemma readTagGroup_points:
  assumes "\<forall>t\<in>set tags. modbus_ready t"
  shows "yields (on_client diagnostics_ok) (readTagGroup E tags)
    (\<lambda>(dps, err). err = None \<longrightarrow> mset (map dp_TagID dps) = mset (map tag_ID tags))"
proof (cases tags)
  case Nil
  then show ?thesis by (simp add: readTagGroup_def yields_ret)
next
  case (Cons t0 ts)
  have ids: "mset (map tag_ID (concat (map rr_Tags (buildContiguousRanges tags DefaultBatchConfig)))) =
      mset (map tag_ID tags)"
    "mset (map tag_ID (concat (map rr_Tags (buildCoilRanges tags DefaultCoilBatchConfig)))) =
      mset (map tag_ID tags)"
    by (simp_all only: mset_map regs.build_tags coils.build_tags)
  have "yields (on_client diagnostics_ok) (readRegisterRange E rt rng) (points_for (rr_Tags rng))"
    if "rng \<in> set (buildContiguousRanges tags DefaultBatchConfig)" for rng rt
    unfolding readRegisterRange_def
    by (rule read_range_points, rule extract_points) (use regs.build_member [OF that] assms in blast)
  moreover have "yields (on_client diagnostics_ok) (readCoilRange E rt rng) (points_for (rr_Tags rng))" for rng rt
    unfolding readCoilRange_def by (rule read_range_points, rule extract_coils_yields)
  ultimately have ranges:
    "yields (on_client diagnostics_ok)
       (read_ranges E (readRegisterRange E rt) (buildContiguousRanges tags DefaultBatchConfig))
       (\<lambda>(dps, err). err = None \<longrightarrow> mset (map dp_TagID dps) = mset (map tag_ID tags))"
    "yields (on_client diagnostics_ok)
       (read_ranges E (readCoilRange E rt) (buildCoilRanges tags DefaultCoilBatchConfig))
       (\<lambda>(dps, err). err = None \<longrightarrow> mset (map dp_TagID dps) = mset (map tag_ID tags))" for rt
    by (auto intro!: yields_weaken [OF read_ranges_points] simp: ids simp del: mset_map)
  with Cons show ?thesis
    by (simp add: readTagGroup_def readCoilGroupBatched_def del: mset_map)
qed

end
