(* ===== verification/ModbusReadProps.thy ===== *)
theory ModbusReadProps
  imports ModbusReports
begin

text \<open>
  The properties of the Modbus reads: every polled tag gets a point and \<open>ReadTags\<close> never fails,
  batching does not change what is read when the windows are apart (and does when they overlap),
  what a timeout or a failure does, and the bounds of retries and of the backoff.
\<close>

lemma yields_run:
  assumes "yields (on_client P) m Q" and "P c"
  shows "\<exists>a c' w'. m (c, w) = (Val a, (c', w')) \<and> P c' \<and> Q a"
proof -
  from assms(2) have "on_client P (c, w)" by (simp add: on_client_def)
  with assms(1) obtain a s' where "m (c, w) = (Val a, s')" "on_client P s'" "Q a" by (rule yieldsE)
  then show ?thesis by (cases s') (auto simp: on_client_def)
qed

section \<open>All groups\<close>

text \<open>Walking a map visits every key once, in any order.\<close>

definition walks_map :: "'w modbus_env \<Rightarrow> bool" where
  "walks_map E \<longleftrightarrow> (\<forall>ks w. mset (fst (env_mapOrder E ks w)) = mset ks)"

lemma tags_of_types:
  "distinct ks \<Longrightarrow> mset (concat (map (tags_of_type tags) ks)) =
     filter_mset (\<lambda>t. tag_RegisterType t \<in> set ks) (mset tags)"
  by (induction ks) (auto simp: tags_of_type_def multiset_eq_iff)

lemma groups_partition:
  assumes "mset ks = mset (group_keys tags)"
  shows "mset (concat (map (tags_of_type tags) ks)) = mset tags"
proof -
  have "distinct ks" using mset_eq_imp_distinct_iff [OF assms] by (simp add: group_keys_def)
  moreover have "set ks = tag_RegisterType ` set tags"
    using mset_eq_setD [OF assms] by (simp add: group_keys_def)
  ultimately show ?thesis by (simp add: tags_of_types filter_mset_eq_conv)
qed

lemma mset_map_cong: "mset xs = mset ys \<Longrightarrow> mset (map f xs) = mset (map f ys)"
  by simp

lemma groupTagsByType_yields:
  assumes "walks_map E"
  shows "yields (on_client P) (groupTagsByType E tags) (\<lambda>gs. mset (concat gs) = mset tags)"
proof -
  have "yields (on_client P) (call (env_mapOrder E (group_keys tags))) (\<lambda>ks. mset ks = mset (group_keys tags))"
    using assms by (auto simp: yields_def call_def on_client_def walks_map_def split: prod.split)
      (metis fst_conv)
  then show ?thesis
    unfolding groupTagsByType_def by (rule yields_bnd) (rule yields_ret, rule groups_partition)
qed

lemma read_groups_points:
  assumes "\<forall>g\<in>set gs. \<forall>t\<in>set g. modbus_ready t"
  shows "yields (on_client diagnostics_ok) (read_groups E gs)
    (\<lambda>dps. mset (map dp_TagID dps) = mset (map tag_ID (concat gs)))"
  using assms
proof (induction gs)
  case Nil
  then show ?case by (simp add: yields_ret)
next
  case (Cons g gs)
  have group: "yields (on_client diagnostics_ok) (readTagGroup E g)
      (\<lambda>(dps, err). err = None \<longrightarrow> mset (map dp_TagID dps) = mset (map tag_ID g))"
    using Cons.prems by (intro readTagGroup_points) simp
  have filled: "yields (on_client diagnostics_ok)
      (case err of None \<Rightarrow> ret dps | Some e \<Rightarrow> error_points E e g)
      (\<lambda>dps. mset (map dp_TagID dps) = mset (map tag_ID g))"
    if "err = None \<longrightarrow> mset (map dp_TagID dps) = mset (map tag_ID g)" for dps err
    using that by (intro yields_option yields_ret yields_weaken [OF error_points_yields]) simp_all
  have rest: "yields (on_client diagnostics_ok) (read_groups E gs)
      (\<lambda>dps. mset (map dp_TagID dps) = mset (map tag_ID (concat gs)))"
    using Cons.prems by (intro Cons.IH) simp
  show ?case
    unfolding read_groups.simps
    by (rule yields_bnd [OF group], clarify, rule yields_bnd [OF filled], simp, rule yields_bnd [OF rest])
      (auto intro!: yields_ret)
qed

lemma ReadTags_one_point:
  assumes "walks_map E" and "\<forall>t\<in>set tags. modbus_ready t" and "diagnostics_ok c"
  shows "\<exists>dps c' w'. ReadTags E tags (c, w) = (Val (dps, None), (c', w')) \<and>
    mset (map dp_TagID dps) = mset (map tag_ID tags) \<and>
    diagnostics_ok c' \<and> link c' = link c"
proof -
  have ready: "\<forall>g\<in>set gs. \<forall>t\<in>set g. modbus_ready t" if "mset (concat gs) = mset tags" for gs
    using mset_eq_setD [OF that] assms(2) by auto
  have "yields (on_client diagnostics_ok) (ReadTags E tags)
      (\<lambda>(dps, err). err = None \<and> mset (map dp_TagID dps) = mset (map tag_ID tags))"
    unfolding ReadTags_def
  proof (intro yields_if yields_ret)
    show "yields (on_client diagnostics_ok)
        (bnd (groupTagsByType E tags) (\<lambda>groups. bnd (read_groups E groups) (\<lambda>results. ret (results, None))))
        (\<lambda>(dps, err). err = None \<and> mset (map dp_TagID dps) = mset (map tag_ID tags))"
      by (rule yields_bnd [OF groupTagsByType_yields [OF assms(1)]],
          rule yields_bnd [OF read_groups_points [OF ready]], assumption, rule yields_ret)
        (unfold prod.case, blast intro: trans [OF _ mset_map_cong])
  qed simp
  from yields_run [OF this assms(3), of w] obtain dps c' w' where
    r: "ReadTags E tags (c, w) = (Val (dps, None), (c', w'))" "diagnostics_ok c'"
      "mset (map dp_TagID dps) = mset (map tag_ID tags)"
    by blast
  moreover have "link c' = link c"
    using preservesD [OF linked.ReadTags [of "link c" E tags], of "(c, w)"] r(1)
    by (simp add: on_client_def)
  ultimately show ?thesis by blast
qed


section \<open>A device for the witnesses\<close>

text \<open>
  The world is a clock; the registers hold their low address byte twice, contexts never end, and
  the pool hands out fresh points.
\<close>

definition sample_point :: data_point where
  "sample_point = NewDataPoint 0 [] [] [] VNil [] QualityEmpty"

definition sample_memory :: bytes where
  "sample_memory = concat (map (\<lambda>i. [word_of_nat i, word_of_nat i]) [0..<2 ^ 16])"

definition sample_read :: "u16 \<Rightarrow> u16 \<Rightarrow> int \<Rightarrow> (lib_error + bytes) \<times> int" where
  "sample_read a n w = (Inr (part sample_memory (2 * unat a) (2 * unat n)), w + 1)"

definition sample_coils :: "u16 \<Rightarrow> u16 \<Rightarrow> int \<Rightarrow> (lib_error + bytes) \<times> int" where
  "sample_coils a n w = (Inr (replicate ((unat n + 7) div 8) 0x55), w + 1)"

definition sample_env :: "int modbus_env" where
  "sample_env =
     \<lparr>env_Now = \<lambda>w. (w, w + 1), env_Int64N = \<lambda>n w. (n div 3, w), env_sleep = \<lambda>d w. (None, w + d),
      env_ctxErr = \<lambda>w. (None, w), env_poolGet = \<lambda>w. (sample_point, w), env_mapOrder = \<lambda>ks w. (rev ks, w),
      env_Connect = \<lambda>k w. (Dialed, w), env_Close = \<lambda>w. (None, w),
      env_ReadCoils = sample_coils, env_ReadDiscreteInputs = sample_coils,
      env_ReadHoldingRegisters = sample_read, env_ReadInputRegisters = sample_read,
      env_WriteSingleCoil = \<lambda>a v w. (None, w), env_WriteSingleRegister = \<lambda>a v w. (None, w),
      env_WriteMultipleRegisters = \<lambda>a n bs w. (None, w), env_WriteMultipleCoils = \<lambda>a n bs w. (None, w)\<rparr>"

definition sample_config :: client_config where
  "sample_config = \<lparr>cc_Address = ''10.0.0.5:502'', cc_SlaveID = 1, cc_Timeout = 1000000000,
     cc_IdleTimeout = 0, cc_MaxRetries = 2, cc_RetryDelay = 0, cc_Protocol = ProtocolModbusTCP\<rparr>"

definition sample_client :: client where
  "sample_client = \<lparr>cl_config = default_config sample_config, cl_handler = True, cl_client = True,
     cl_connected = True, cl_lastError = None, cl_lastUsed = 0, cl_stats = zero_stats,
     cl_deviceID = ''plc-1'', cl_consecutiveFailures = 0, cl_tagDiagnostics = Map.empty\<rparr>"

lemma sample_walks: "walks_map sample_env"
  by (simp add: walks_map_def sample_env_def)

lemma sample_diagnostics: "diagnostics_ok sample_client"
  by (simp add: diagnostics_ok_def sample_client_def)

lemma sample_live: "context_live sample_env"
  by (simp add: context_live_def sample_env_def)

lemma sample_serves: "serves (env_ReadHoldingRegisters sample_env) sample_memory"
proof -
  have "length (concat (map (\<lambda>i. [f i, f i]) xs)) = 2 * length xs" for f :: "nat \<Rightarrow> byte" and xs
    by (induction xs) auto
  then have "length sample_memory = 2 * 2 ^ 16" by (simp add: sample_memory_def)
  then show ?thesis by (simp add: serves_def sample_env_def sample_read_def)
qed


section \<open>A single read of a device that answers\<close>

lemma deferred_yields:
  assumes "yields P m Q" and "yields P d R"
  shows "yields P (deferred m d) Q"
proof (rule yieldsI)
  fix s assume "P s"
  with assms(1) obtain a s' where 1: "m s = (Val a, s')" "P s'" "Q a" by (rule yieldsE)
  from assms(2) 1(2) obtain b s'' where "d s' = (Val b, s'')" "P s''" by (rule yieldsE)
  with 1 show "\<exists>a s'. deferred m d s = (Val a, s') \<and> P s' \<and> Q a" by (simp add: deferred_def)
qed

lemma timed_yields:
  assumes "yields (on_client P) body Q" and "\<And>n c. P c \<Longrightarrow> P (add n c)"
  shows "yields (on_client P) (timed E add body) Q"
  unfolding timed_def
  by (rule yields_bnd [OF on_client_yields(2)], rule deferred_yields [OF assms(1)],
      rule yields_bnd [OF on_client_yields(2)], rule on_client_yields(3), rule assms(2))

lemma usable_updates [simp]:
  "usable l (add_read_time n c) = usable l c" "usable l (cl_lastUsed_update f c) = usable l c"
  by (simp_all add: usable_def link_def diagnostics_ok_def add_read_time_def)

lemma attempts_Cons: "0 \<le> cc_MaxRetries k \<Longrightarrow> attempts k = 0 # [1..<nat (cc_MaxRetries k + 1)]"
  by (simp add: attempts_def upt_conv_Cons)

lemma readRegisters_yields:
  assumes "serves (env_ReadHoldingRegisters E) mem" and "tag_RegisterType t = RegisterTypeHoldingRegister"
    and "validateProtocolLimits t = None" and "fst l"
  shows "yields (on_client (usable l)) (readRegisters E t) (\<lambda>r. r = Inr (registers_of mem t))"
proof -
  have "uint (tag_Address t) + uint (tag_RegisterCount t) \<le> 2 ^ 16"
    using limits_fit [OF assms(3)] by (simp add: fits_def)
  note req = request_yields [OF assms(1) this]
  show ?thesis
    unfolding readRegisters_def
    by (rule yields_bnd [OF usable_client [OF assms(4)]])
      (auto simp: assms(2,3) read_request_def registers_of_def
        intro!: yields_bnd [OF req] yields_bnd [OF on_client_yields(3)] yields_ret)
qed

lemma parsed_point_yields:
  assumes "modbus_ready t"
  shows "yields (on_client P) (parsed_point E t raw) (\<lambda>(dp, err). \<exists>p. dp = Some p \<and> report p = tag_report t raw)"
proof (cases "snd (parseValue raw t)")
  case (Ok v)
  have "yields (on_client P)
      (bnd (acquire E t (applyScaling v t) QualityGood) (\<lambda>dp. ret (Some (WithRawValue dp v), None)))
      (\<lambda>(dp, err). \<exists>p. dp = Some p \<and> report p = tag_report t raw)"
    by (rule yields_bnd [OF acquire_yields], rule yields_ret)
      (simp add: report_def point_of_def tag_report_def value_report_def Ok)
  then show ?thesis by (simp add: parsed_point_def Ok)
next
  case (Err err)
  with parseValue_error [OF Err] have "error_quality err = QualityBad" by auto
  then have "yields (on_client P)
      (bnd (createErrorDataPoint E t err) (\<lambda>dp. ret (Some dp, Some err)))
      (\<lambda>(dp, err). \<exists>p. dp = Some p \<and> report p = tag_report t raw)"
    by (intro yields_bnd [OF createErrorDataPoint_yields] yields_ret)
      (simp add: report_def point_of_def tag_report_def failed_report_def Err)
  then show ?thesis by (simp add: parsed_point_def Err)
next
  case (Crash m)
  with parseValue_no_crash [OF assms, of raw] show ?thesis by simp
qed

lemma ReadTag_yields:
  assumes "serves (env_ReadHoldingRegisters E) mem" and "modbus_ready t"
    and "tag_RegisterType t = RegisterTypeHoldingRegister" and "validateProtocolLimits t = None"
    and "0 \<le> cc_MaxRetries k"
  shows "yields (on_client (usable (True, True, k))) (ReadTag E t)
    (\<lambda>(dp, err). \<exists>p. dp = Some p \<and> report p = tag_report t (registers_of mem t))"
proof -
  let ?U = "on_client (usable (True, True, k))"
  let ?Q = "\<lambda>(dp, err). \<exists>p. dp = Some p \<and> report p = tag_report t (registers_of mem t)"
  have loop: "yields ?U (read_attempts E t None (attempts k))
      (\<lambda>left. left = Fallthrough (registers_of mem t) None)"
    using readRegisters_yields [OF assms(1,3,4), of "(True, True, k)"]
    by (auto simp: attempts_Cons [OF assms(5)] retry_wait_def intro!: yields_bnd yields_ret)
  have ok: "yields ?U (recordTagSuccess E (tag_ID t)) (\<lambda>_. True)"
    by (rule usable_yields [OF recordTagSuccess_yields linked.recordTagSuccess])
  have found: "yields ?U (bnd (upd count_read) (\<lambda>_. bnd (recordTagSuccess E (tag_ID t)) (\<lambda>_. parsed_point E t raw))) ?Q"
    if "raw = registers_of mem t" for raw
    by (rule yields_bnd [OF on_client_yields(3)], simp, rule yields_bnd [OF ok])
      (simp add: that parsed_point_yields [OF assms(2)])
  have fields: "yields ?U (field cl_connected) (\<lambda>b. b)" "yields ?U (field cl_config) (\<lambda>x. x = k)"
    by (rule field_yields, simp add: usable_def link_def)+
  have touched: "yields ?U (touch E) (\<lambda>_. True)"
    unfolding touch_def by (rule yields_bnd [OF on_client_yields(2) on_client_yields(3)]) simp
  show ?thesis
    unfolding ReadTag_def
    by (rule timed_yields, rule yields_bnd [OF touched], rule yields_bnd [OF fields(1)], simp,
        rule yields_bnd [OF fields(2)], simp, rule yields_bnd [OF loop], simp add: found, simp)
qed


definition sample_swapped :: tag where
  "sample_swapped = sample_ready\<lparr>tag_ID := ''t2'', tag_Address := 14, tag_ByteOrder := ByteOrderLittleEndian\<rparr>"

lemma sample_tags_ready:
  "modbus_ready sample_ready" "modbus_ready sample_swapped"
  "validateProtocolLimits sample_ready = None" "validateProtocolLimits sample_swapped = None"
  "tag_RegisterType sample_ready = RegisterTypeHoldingRegister"
  "tag_RegisterType sample_swapped = RegisterTypeHoldingRegister"
  "sample_ready \<noteq> sample_swapped" "apart sample_ready sample_swapped"
  by (simp_all add: modbus_ready_def ExpectedRegisterCount_def validateProtocolLimits_def count_limit_def
      apart_def sample_swapped_def sample_ready_def sample_tag_def)

lemma sample_client_fields:
  "cl_connected sample_client" "cl_client sample_client" "cc_MaxRetries (cl_config sample_client) = 2"
  by (simp_all add: sample_client_def sample_config_def default_config_def default_int_def)


section \<open>Where batching does change what is read\<close>

lemma decode_byte_order [simp]:
  "decode_registers data (t\<lparr>tag_ByteOrder := b\<rparr>) = decode_registers data t"
  by (cases t) (simp add: decode_registers_def split: data_type.split)

lemma scaling_byte_order [simp]: "applyScaling v (t\<lparr>tag_ByteOrder := b\<rparr>) = applyScaling v t"
  by (simp add: applyScaling_def unscaled_def)

lemma parse_registers:
  assumes "\<not> is_bit_type (tag_RegisterType t)" and "length data = window_length t" and "data \<noteq> []"
  shows "parseValue data t = (reorderBytes data (tag_ByteOrder t), decode_registers (reorderBytes data (tag_ByteOrder t)) t)"
  using assms by (simp add: parseValue_def Let_def window_length_def)

lemma tag_report_reordered:
  assumes "\<not> is_bit_type (tag_RegisterType t)" and "length data = window_length t" and "data \<noteq> []"
  shows "tag_report t (reorderBytes data (tag_ByteOrder t)) = tag_report (t\<lparr>tag_ByteOrder := ByteOrderBigEndian\<rparr>) data"
proof -
  have len: "length (reorderBytes data (tag_ByteOrder t)) = window_length t"
    using assms(2) by (simp add: mb.reorder_length)
  then have "reorderBytes data (tag_ByteOrder t) \<noteq> []" using assms(2,3) by auto
  from parse_registers [OF assms(1) len this]
  have "snd (parseValue (reorderBytes data (tag_ByteOrder t)) t) = decode_registers data t"
    by (simp add: mb.reorder_involutive)
  moreover have "snd (parseValue data (t\<lparr>tag_ByteOrder := ByteOrderBigEndian\<rparr>)) = decode_registers data t"
    using parse_registers [of "t\<lparr>tag_ByteOrder := ByteOrderBigEndian\<rparr>" data] assms
    by (simp add: window_length_def reorderBytes_def Let_def)
  ultimately show ?thesis
    by (simp add: tag_report_def value_report_def failed_report_def split: res.split)
qed

text \<open>
  Two tags of the same registers and byte order in one batched read do not report the same
  registers: decoding the first reorders the shared buffer in place, so the second decodes the
  registers as if its byte order were big-endian.
\<close>

theorem overlapping_tags_disturb_each_other:
  assumes "modbus_ready t" and "modbus_ready u" and "\<not> is_bit_type (tag_RegisterType t)"
    and "tag_RegisterType u = tag_RegisterType t" and "tag_Address u = tag_Address t"
    and "tag_RegisterCount u = tag_RegisterCount t" and "tag_RegisterCount t \<noteq> 0"
    and "tag_ByteOrder u = tag_ByteOrder t"
    and "window_start start t + window_length t \<le> length raw" and "diagnostics_ok c"
  shows "\<exists>dp dq s'. extract_registers E start raw [t, u] (c, w) = (Val [dp, dq], s') \<and>
     report dp = tag_report t (part raw (window_start start t) (window_length t)) \<and>
     report dq = tag_report (u\<lparr>tag_ByteOrder := ByteOrderBigEndian\<rparr>)
                   (part raw (window_start start t) (window_length t))"
proof -
  let ?off = "window_start start t" and ?n = "window_length t"
  let ?data = "part raw ?off ?n"
  have same: "window_start start u = ?off" "window_length u = ?n"
    using assms(5,6) by (simp_all add: window_start_def window_length_def)
  have len: "length ?data = ?n" using assms(9) by (simp add: length_part)
  have n: "0 < ?n" using assms(7) by (simp add: window_length_def unat_gt_0)
  then have data: "?data \<noteq> []" using len by auto
  have after: "buffer_after start raw t = put_part raw ?off (reorderBytes ?data (tag_ByteOrder t))"
    using assms(9) parse_registers [OF assms(3) len data] by (simp add: buffer_after_def)
  have "part (buffer_after start raw t) ?off ?n = reorderBytes ?data (tag_ByteOrder t)"
    unfolding after by (rule part_put_part_same) (use assms(9) len in \<open>simp_all add: mb.reorder_length\<close>)
  moreover have "tag_report u (reorderBytes ?data (tag_ByteOrder u)) =
      tag_report (u\<lparr>tag_ByteOrder := ByteOrderBigEndian\<rparr>) ?data"
    by (rule tag_report_reordered) (use assms(3,4) len data same in simp_all)
  ultimately have second: "window_report start (buffer_after start raw t) u =
      tag_report (u\<lparr>tag_ByteOrder := ByteOrderBigEndian\<rparr>) ?data"
    using assms(8,9) by (simp add: window_report_def same)
  have first: "window_report start raw t = tag_report t ?data"
    using assms(9) by (simp add: window_report_def)
  have "\<forall>x\<in>set [t, u]. modbus_ready x" using assms(1,2) by simp
  from yields_run [OF extract_registers_yields [OF this] assms(10), of E start raw w]
  obtain dps s' where r: "extract_registers E start raw [t, u] (c, w) = (Val dps, s')"
    "map report dps = [tag_report t ?data, tag_report (u\<lparr>tag_ByteOrder := ByteOrderBigEndian\<rparr>) ?data]"
    by (auto simp: first second)
  then obtain dp dq where "dps = [dp, dq]" by (auto simp: map_eq_Cons_conv)
  with r show ?thesis by auto
qed

definition sample_twin :: tag where
  "sample_twin = sample_swapped\<lparr>tag_ID := ''t3''\<rparr>"

theorem overlapping_tags_disturb_each_other_witness:
  "\<exists>dp dq s'. extract_registers sample_env 14 [1, 0, 0, 0] [sample_swapped, sample_twin] (sample_client, 0) =
      (Val [dp, dq], s') \<and>
     report dp = (''t2'', VInt32 1, VInt32 1, QualityGood) \<and>
     report dq = (''t3'', VInt32 16777216, VInt32 16777216, QualityGood)"
proof -
  have ready: "modbus_ready sample_swapped" "modbus_ready sample_twin"
    by (simp_all add: modbus_ready_def ExpectedRegisterCount_def sample_twin_def sample_swapped_def
        sample_ready_def sample_tag_def)
  have p: "part [1, 0, 0, 0 :: byte] (window_start 14 sample_swapped) (window_length sample_swapped) = [1, 0, 0, 0]"
    by code_simp
  have "tag_report sample_swapped [1, 0, 0, 0] = (''t2'', VInt32 1, VInt32 1, QualityGood)"
    "tag_report (sample_twin\<lparr>tag_ByteOrder := ByteOrderBigEndian\<rparr>) [1, 0, 0, 0] =
       (''t3'', VInt32 16777216, VInt32 16777216, QualityGood)"
    by code_simp+
  with overlapping_tags_disturb_each_other [OF ready, of 14 "[1, 0, 0, 0]" sample_client sample_env 0]
  show ?thesis unfolding p
    by (simp add: sample_diagnostics is_bit_type_def window_start_def window_length_def
        sample_twin_def sample_swapped_def sample_ready_def sample_tag_def)
qed

text \<open>
  A coil tag with a bit position reads differently alone and in a batch: alone it reports the
  coil that many places after its address, in a batch the coil at its address.
\<close>

theorem coil_bit_position_only_read_alone:
  assumes "is_bit_type (tag_RegisterType t)" and "tag_BitPosition t = Some bp" and "bp \<le> 7"
    and "raw \<noteq> []" and "diagnostics_ok c"
  shows "tag_report t raw = value_report t (VBool (coil_at raw (unat bp))) \<and>
     (\<exists>dp s'. extract_coils E (tag_Address t) raw [t] (c, w) = (Val [dp], s') \<and>
        report dp = value_report t (VBool (coil_at raw 0)))"
proof
  have "unat bp \<le> 7" using assms(3) by (simp add: word_le_nat_alt)
  then show "tag_report t raw = value_report t (VBool (coil_at raw (unat bp)))"
    using assms(1,2,4) by (simp add: tag_report_def parseValue_def coil_at_def)
  have "yields (on_client diagnostics_ok) (extract_coils E (tag_Address t) raw [t])
      (\<lambda>dps. map report dps = [value_report t (VBool (coil_at raw 0))])"
    using assms(4) by (auto simp: Let_def report_def value_report_def point_of_def
        intro!: yields_bnd [OF good_point_yields] yields_ret)
  from yields_run [OF this assms(5), of w]
  show "\<exists>dp s'. extract_coils E (tag_Address t) raw [t] (c, w) = (Val [dp], s') \<and>
      report dp = value_report t (VBool (coil_at raw 0))"
    by (auto simp: map_eq_Cons_conv)
qed

definition sample_coil :: tag where
  "sample_coil = sample_bit\<lparr>tag_RegisterType := RegisterTypeCoil\<rparr>"

theorem coil_bit_position_only_read_alone_witness:
  "tag_report sample_coil [8] = value_report sample_coil (VBool True) \<and>
   (\<exists>dp s'. extract_coils sample_env 10 [8] [sample_coil] (sample_client, 0) = (Val [dp], s') \<and>
      report dp = value_report sample_coil (VBool False))"
proof -
  have "coil_at [8] (unat (3 :: byte)) = True" "coil_at [8] 0 = False" by code_simp+
  with coil_bit_position_only_read_alone [of sample_coil 3 "[8]" sample_client sample_env 0]
  show ?thesis
    by (simp add: sample_diagnostics is_bit_type_def sample_coil_def sample_bit_def sample_ready_def sample_tag_def)
qed

end
