(* ===== verification/ModbusWrite.thy ===== *)
theory ModbusWrite
  imports ModbusRead
begin

text \<open>
  Writing through the Modbus client (\<open>adapter/modbus/client.go\<close>): \<open>WriteTag\<close> with its checks and
  retries, and the four direct writes.
\<close>

section \<open>Writing a tag\<close>

definition write_failed :: "lib_error \<Rightarrow> gerror" where
  "write_failed err = WrapV (RWE ErrWriteFailed) (lib_text err)"

definition writeSingleCoilLocked ::
  "'w modbus_env \<Rightarrow> u16 \<Rightarrow> goval \<Rightarrow> ('w, gerror option) modbus" where
  "writeSingleCoilLocked E address value =
     (case toBool value of
        None \<Rightarrow> ret (Some (WrapV (WriteE ErrInvalidWriteValue)
                        (''cannot convert '' @ type_name value @ '' to bool for coil'')))
      | Some b \<Rightarrow>
          bnd (call (env_WriteSingleCoil E address (if b then 0xFF00 else 0x0000))) (\<lambda>err.
          ret (map_option write_failed err)))"

definition writeHoldingRegisterLocked ::
  "'w modbus_env \<Rightarrow> arch \<Rightarrow> tag \<Rightarrow> goval \<Rightarrow> ('w, gerror option) modbus" where
  "writeHoldingRegisterLocked E A t value =
     (case valueToBytes A value t of
        Crash p \<Rightarrow> panic p
      | Err err \<Rightarrow> ret (Some err)
      | Ok bs \<Rightarrow>
          if length bs = 2 then
            bnd (call (env_WriteSingleRegister E (tag_Address t) (BE_Uint16 bs))) (\<lambda>err.
            ret (map_option write_failed err))
          else
            bnd (call (env_WriteMultipleRegisters E (tag_Address t) (of_nat (length bs div 2)) bs)) (\<lambda>err.
            ret (map_option write_failed err)))"

definition writeRegister :: "'w modbus_env \<Rightarrow> arch \<Rightarrow> tag \<Rightarrow> goval \<Rightarrow> ('w, gerror option) modbus" where
  "writeRegister E A t value =
     bnd (field cl_client) (\<lambda>client.
     if \<not> client then ret (Some (Sentinel (ConnE ErrConnectionClosed)))
     else
       let finish = (\<lambda>err. case err of
             Some e \<Rightarrow> bnd (upd (cl_consecutiveFailures_update (\<lambda>n. n + 1))) (\<lambda>_. ret (Some e))
           | None \<Rightarrow> bnd (upd (cl_consecutiveFailures_update (\<lambda>_. 0))) (\<lambda>_. ret None))
       in case tag_RegisterType t of
            RegisterTypeCoil \<Rightarrow> bnd (writeSingleCoilLocked E (tag_Address t) value) finish
          | RegisterTypeHoldingRegister \<Rightarrow> bnd (writeHoldingRegisterLocked E A t value) finish
          | _ \<Rightarrow> ret (Some (WrapV (WriteE ErrTagNotWritable)
                       (register_type_text (tag_RegisterType t) @ '' is read-only''))))"

fun write_attempts ::
  "'w modbus_env \<Rightarrow> arch \<Rightarrow> tag \<Rightarrow> goval \<Rightarrow> gerror option \<Rightarrow> nat list \<Rightarrow>
   ('w, gerror option loop_exit) modbus" where
  "write_attempts E A t value err [] = ret (Fallthrough [] err)"
| "write_attempts E A t value err (attempt # rest) =
     bnd (retry_wait E attempt) (\<lambda>cancelled.
     case cancelled of
       Some e \<Rightarrow> ret (Return (Some e))
     | None \<Rightarrow>
         bnd (writeRegister E A t value) (\<lambda>result.
         case result of
           None \<Rightarrow> ret (Fallthrough [] None)
         | Some e \<Rightarrow>
             if \<not> isRetryableError e then bnd (upd count_error) (\<lambda>_. ret (Return (Some e)))
             else bnd (if isConnectionError e then reconnect E else ret ()) (\<lambda>_.
                  write_attempts E A t value (Some e) rest)))"

definition WriteTag :: "'w modbus_env \<Rightarrow> arch \<Rightarrow> tag \<Rightarrow> goval \<Rightarrow> ('w, gerror option) modbus" where
  "WriteTag E A t value =
     timed E add_write_time (
     bnd (touch E) (\<lambda>_.
     bnd (field cl_connected) (\<lambda>connected.
     if \<not> connected then ret (Some (Sentinel (ConnE ErrConnectionClosed)))
     else if \<not> IsWritable t
     then ret (Some (WrapV (WriteE ErrTagNotWritable)
            (''tag '' @ tag_ID t @ '' (register type: '' @ register_type_text (tag_RegisterType t) @ '')'')))
     else
       bnd (field cl_config) (\<lambda>config.
       bnd (write_attempts E A t value None (attempts config)) (\<lambda>left.
       case left of
         Return r \<Rightarrow> ret r
       | Fallthrough _ (Some err) \<Rightarrow> bnd (upd count_error) (\<lambda>_. ret (Some err))
       | Fallthrough _ None \<Rightarrow> bnd (upd count_write) (\<lambda>_. ret None))))))"

section \<open>Direct writes\<close>

text \<open>The frame of the four direct writes around the library call of each.\<close>

definition direct_write :: "'w modbus_env \<Rightarrow> ('w \<Rightarrow> lib_error option \<times> 'w) \<Rightarrow> ('w, gerror option) modbus" where
  "direct_write E request =
     bnd (touch E) (\<lambda>_.
     bnd (field cl_connected) (\<lambda>connected.
     if \<not> connected then ret (Some (Sentinel (ConnE ErrConnectionClosed)))
     else
       bnd (field cl_client) (\<lambda>client.
       if \<not> client then ret (Some (Sentinel (ConnE ErrConnectionClosed)))
       else
         bnd (call request) (\<lambda>err.
         case err of
           Some e \<Rightarrow>
             bnd (upd count_error) (\<lambda>_.
             bnd (upd (cl_consecutiveFailures_update (\<lambda>n. n + 1))) (\<lambda>_.
             ret (Some (write_failed e))))
         | None \<Rightarrow>
             bnd (upd count_write) (\<lambda>_.
             bnd (upd (cl_consecutiveFailures_update (\<lambda>_. 0))) (\<lambda>_.
             ret None))))))"

definition WriteSingleCoil :: "'w modbus_env \<Rightarrow> u16 \<Rightarrow> bool \<Rightarrow> ('w, gerror option) modbus" where
  "WriteSingleCoil E address value =
     direct_write E (env_WriteSingleCoil E address (if value then 0xFF00 else 0))"

definition WriteSingleRegister :: "'w modbus_env \<Rightarrow> u16 \<Rightarrow> u16 \<Rightarrow> ('w, gerror option) modbus" where
  "WriteSingleRegister E address value =
     direct_write E (env_WriteSingleRegister E address value)"

definition register_bytes :: "u16 list \<Rightarrow> bytes" where
  "register_bytes values = concat (map BE_PutUint16 values)"

definition WriteMultipleRegisters :: "'w modbus_env \<Rightarrow> u16 \<Rightarrow> u16 list \<Rightarrow> ('w, gerror option) modbus" where
  "WriteMultipleRegisters E address values =
     direct_write E (env_WriteMultipleRegisters E address (of_nat (length values)) (register_bytes values))"

text \<open>The loop that packs coil \<open>i\<close> into bit \<open>i mod 8\<close> of byte \<open>i div 8\<close>.\<close>

fun pack_from :: "nat \<Rightarrow> bool list \<Rightarrow> bytes \<Rightarrow> bytes" where
  "pack_from i [] bs = bs"
| "pack_from i (v # vs) bs =
     pack_from (i + 1) vs (if v then bs[i div 8 := or (bs ! (i div 8)) (push_bit (i mod 8) 1)] else bs)"

definition pack_coils :: "bool list \<Rightarrow> bytes" where
  "pack_coils values = pack_from 0 values (replicate ((length values + 7) div 8) 0)"

definition WriteMultipleCoils :: "'w modbus_env \<Rightarrow> u16 \<Rightarrow> bool list \<Rightarrow> ('w, gerror option) modbus" where
  "WriteMultipleCoils E address values =
     direct_write E (env_WriteMultipleCoils E address (of_nat (length values)) (pack_coils values))"

section \<open>What writes keep of the client\<close>

context reading_frame begin

lemma writeRegister [preserving]: "preserves (on_client P) (writeRegister E A t v)"
  unfolding writeRegister_def writeSingleCoilLocked_def writeHoldingRegisterLocked_def Let_def
  by (auto split: register_type.split intro!: preserving)

lemma direct_write [preserving]: "preserves (on_client P) (direct_write E req)"
  unfolding direct_write_def by (intro preserving)

end

context retrying_frame begin

lemma write_attempts [preserving]: "preserves (on_client P) (write_attempts E A t v err as)"
  by (induction as arbitrary: err) (auto intro!: preserving)

lemma WriteTag: "preserves (on_client P) (WriteTag E A t v)"
  unfolding WriteTag_def
  by (intro preserving touch) (auto split: loop_exit.split option.split intro!: preserving)

end

section \<open>Packing coils\<close>

lemma length_pack_from [simp]: "length (pack_from i vs bs) = length bs"
  by (induction i vs bs rule: pack_from.induct) auto

lemma coil_at_update:
  assumes "k div 8 < length bs" and "j div 8 < length bs"
  shows "coil_at (bs[k div 8 := or (bs ! (k div 8)) (push_bit (k mod 8) 1)]) j = (coil_at bs j \<or> j = k)"
proof -
  have bit: "coil_at xs i = bit (xs ! (i div 8)) (i mod 8)" for xs :: bytes and i
    by (auto simp: coil_at_def and_exp_eq_0_iff_not_bit push_bit_eq_mult mult.commute
        simp flip: push_bit_eq_mult)
  have eq: "j = k \<longleftrightarrow> j div 8 = k div 8 \<and> j mod 8 = k mod 8" by (metis div_mult_mod_eq)
  show ?thesis
    using assms unfolding bit by (cases "j div 8 = k div 8") (auto simp: eq bit_or_iff bit_exp_iff)
qed

lemma coil_at_pack_from:
  assumes "(i + length vs + 7) div 8 \<le> length bs" and "j div 8 < length bs"
  shows "coil_at (pack_from i vs bs) j =
    (coil_at bs j \<or> i \<le> j \<and> j < i + length vs \<and> vs ! (j - i))"
  using assms
proof (induction i vs bs rule: pack_from.induct)
  case (1 i bs)
  then show ?case by auto
next
  case (2 i v vs bs)
  have i: "i div 8 < length bs" using 2(2) by simp
  have "coil_at (pack_from i (v # vs) bs) j =
      (coil_at (if v then bs[i div 8 := or (bs ! (i div 8)) (push_bit (i mod 8) 1)] else bs) j \<or>
       Suc i \<le> j \<and> j < Suc i + length vs \<and> vs ! (j - Suc i))"
    using 2 by simp
  also have "\<dots> = (coil_at bs j \<or> v \<and> j = i \<or> Suc i \<le> j \<and> j < Suc i + length vs \<and> vs ! (j - Suc i))"
    using coil_at_update [OF i 2(3)] by auto
  also have "\<dots> = (coil_at bs j \<or> i \<le> j \<and> j < i + length (v # vs) \<and> (v # vs) ! (j - i))"
    by (cases "j = i") (auto simp: nth_Cons' Suc_le_eq)
  finally show ?case .
qed

lemma coil_at_zeros: "j div 8 < n \<Longrightarrow> coil_at (replicate n 0) j = False"
  by (simp add: coil_at_def)

lemma pack_coils_at:
  assumes "j < length vs"
  shows "coil_at (pack_coils vs) j = vs ! j"
proof -
  have "j div 8 < (length vs + 7) div 8" using assms by simp
  then show ?thesis
    using assms coil_at_pack_from [of 0 vs "replicate ((length vs + 7) div 8) 0" j]
    by (simp add: pack_coils_def coil_at_zeros)
qed

end
