(* ===== verification/ModbusRetry.thy ===== *)
theory ModbusRetry
  imports ModbusReadProps ModbusWrite
begin

text \<open>
  Errors, retries and the connection of the Modbus client: what a failing device causes, how
  often and how long the client waits, which writes never reach the device, when it panics, and
  the invariant that every method keeps.
\<close>

section \<open>A device that fails\<close>

definition fails_with :: "(u16 \<Rightarrow> u16 \<Rightarrow> 'w \<Rightarrow> (lib_error + bytes) \<times> 'w) \<Rightarrow> lib_error \<Rightarrow> bool" where
  "fails_with request l \<longleftrightarrow> (\<forall>a n w. fst (request a n w) = Inl l)"

text \<open>The four fragments by which \<open>isConnectionError\<close> recognises a lost connection.\<close>

definition connection_fragments :: "string list" where
  "connection_fragments = [''connection reset'', ''broken pipe'', ''connection refused'', ''no route to host'']"

lemma translated_not_retryable:
  assumes "\<not> contains (error_text (translateModbusError l)) connection_fragments"
  shows "\<not> isRetryableError (translateModbusError l)" and "error_quality (translateModbusError l) = QualityBad"
  using assms by (simp_all add: isRetryableError_def isConnectionError_def isTimeout_def
      error_quality_def translate_not_net translate_not_eof connection_fragments_def)

lemma recordTagError_stores:
  assumes "can_store (td_LastError (getOrCreateTagDiagnostic i c)) err"
  shows "\<exists>g w'. recordTagError E i err (c, w) = (Val (), (put_diagnostic i g c, w'))"
proof -
  obtain n w' where "env_Now E w = (n, w')" by fastforce
  moreover have "put_diagnostic i g' (put_diagnostic i g c) = put_diagnostic i g' c" for g g'
    by (simp add: put_diagnostic_def)
  ultimately show ?thesis using assms by (auto simp: recordTagError_def run_simps Let_def)
qed

lemma tag_failed_run:
  assumes "can_store (td_LastError (getOrCreateTagDiagnostic (tag_ID t) c)) err"
  shows "\<exists>dp g w'. tag_failed E t err (c, w) =
      (Val (Some dp, Some err), (put_diagnostic (tag_ID t) g (count_error c), w')) \<and>
    dp_TagID dp = tag_ID t \<and> dp_Quality dp = error_quality err"
proof -
  have "getOrCreateTagDiagnostic (tag_ID t) (count_error c) = getOrCreateTagDiagnostic (tag_ID t) c"
    by (simp add: getOrCreateTagDiagnostic_def count_error_def)
  with assms have "can_store (td_LastError (getOrCreateTagDiagnostic (tag_ID t) (count_error c))) err" by simp
  from recordTagError_stores [OF this, of E w] obtain g w1 where
    "recordTagError E (tag_ID t) err (count_error c, w) = (Val (), (put_diagnostic (tag_ID t) g (count_error c), w1))"
    by blast
  moreover obtain dp0 w2 where "env_poolGet E w1 = (dp0, w2)" by fastforce
  moreover obtain n w3 where "env_Now E w2 = (n, w3)" by fastforce
  ultimately show ?thesis
    by (simp add: tag_failed_def createErrorDataPoint_def acquire_def run_simps Acquire_eq_New) blast
qed

lemma readRegisters_fails:
  assumes "cl_client c" and "validateProtocolLimits t = None"
    and "read_request E (tag_RegisterType t) = Some request" and "fails_with request l"
  shows "\<exists>w'. readRegisters E t (c, w) =
    (Val (Inl (translateModbusError l)), (c\<lparr>cl_consecutiveFailures := cl_consecutiveFailures c + 1\<rparr>, w'))"
proof -
  obtain w' where "request (tag_Address t) (tag_RegisterCount t) w = (Inl l, w')"
    using assms(4) unfolding fails_with_def by (metis prod.collapse)
  with assms(1-3) show ?thesis by (simp add: readRegisters_def run_simps)
qed

lemma can_store_frame [simp]:
  "getOrCreateTagDiagnostic i (c\<lparr>cl_lastUsed := n\<rparr>) = getOrCreateTagDiagnostic i c"
  "getOrCreateTagDiagnostic i (c\<lparr>cl_consecutiveFailures := k\<rparr>) = getOrCreateTagDiagnostic i c"
  by (simp_all add: getOrCreateTagDiagnostic_def)

text \<open>
  A read whose request the library refuses with an error, a network timeout included, is not
  retried: the client formats the error into a text before it asks whether to retry, so only four
  text fragments make it retry. The tag's point has quality \<open>bad\<close>, never \<open>timeout\<close>, the error count
  goes up by one, the retry count and the connection stay as they were.
\<close>

theorem failed_read_is_not_retried:
  assumes "cl_connected c" and "cl_client c" and "validateProtocolLimits t = None"
    and "read_request E (tag_RegisterType t) = Some request" and "fails_with request l"
    and "\<not> contains (error_text (translateModbusError l)) connection_fragments"
    and "can_store (td_LastError (getOrCreateTagDiagnostic (tag_ID t) c)) (translateModbusError l)"
    and "0 \<le> cc_MaxRetries (cl_config c)"
  shows "\<exists>dp c' w'. ReadTag E t (c, w) = (Val (Some dp, Some (translateModbusError l)), (c', w')) \<and>
    dp_TagID dp = tag_ID t \<and> dp_Quality dp = QualityBad \<and> retries c' = retries c \<and>
    st_ErrorCount (cl_stats c') = st_ErrorCount (cl_stats c) + 1 \<and> link c' = link c"
proof -
  obtain n0 w0 where now0: "env_Now E w = (n0, w0)" by fastforce
  obtain n1 w1 where now1: "env_Now E w0 = (n1, w1)" by fastforce
  let ?c1 = "c\<lparr>cl_lastUsed := n1\<rparr>"
  obtain w2 where rr: "readRegisters E t (?c1, w1) = (Val (Inl (translateModbusError l)),
      (?c1\<lparr>cl_consecutiveFailures := cl_consecutiveFailures c + 1\<rparr>, w2))"
    using readRegisters_fails [of ?c1 t E request l w1] assms(2-5) by auto
  let ?c2 = "?c1\<lparr>cl_consecutiveFailures := cl_consecutiveFailures c + 1\<rparr>"
  obtain dp g w3 where tf: "tag_failed E t (translateModbusError l) (?c2, w2) =
      (Val (Some dp, Some (translateModbusError l)), (put_diagnostic (tag_ID t) g (count_error ?c2), w3))"
    "dp_TagID dp = tag_ID t" "dp_Quality dp = QualityBad"
    using tag_failed_run [of t ?c2 "translateModbusError l" E w2] assms(7)
      translated_not_retryable(2) [OF assms(6)] by auto
  obtain n4 w4 where now4: "env_Now E w3 = (n4, w4)" by fastforce
  let ?c3 = "put_diagnostic (tag_ID t) g (count_error ?c2)"
  have "read_attempts E t None (attempts (cl_config c)) (?c1, w1) =
      (Val (Return (Some dp, Some (translateModbusError l))), (?c3, w3))"
    using rr tf(1) translated_not_retryable(1) [OF assms(6)]
    by (simp add: attempts_Cons [OF assms(8)] retry_wait_def run_simps)
  then have "ReadTag E t (c, w) = (Val (Some dp, Some (translateModbusError l)),
      (add_read_time (time_Sub n4 n0) ?c3, w4))"
    using assms(1) now0 now1 now4
    by (simp add: ReadTag_def timed_def touch_def run_simps deferred_def bnd_assoc)
  with tf(2,3) show ?thesis
    by (auto simp: retries_def link_def add_read_time_def put_diagnostic_def count_error_def)
qed

definition sample_timeout :: lib_error where
  "sample_timeout = \<lparr>net_timeout = Some True, is_eof = False, lib_text = ''i/o timeout''\<rparr>"

definition failing_env :: "int modbus_env" where
  "failing_env = sample_env\<lparr>env_ReadHoldingRegisters := \<lambda>a n w. (Inl sample_timeout, w + 1000000000)\<rparr>"

lemma sample_can_store: "can_store (td_LastError (getOrCreateTagDiagnostic i sample_client)) err"
  by (simp add: can_store_def getOrCreateTagDiagnostic_def NewTagDiagnostic_def sample_client_def)

theorem failed_read_is_not_retried_witness:
  "\<exists>dp c' w'. ReadTag failing_env sample_ready (sample_client, 0) =
      (Val (Some dp, Some (translateModbusError sample_timeout)), (c', w')) \<and>
    dp_TagID dp = ''t1'' \<and> dp_Quality dp = QualityBad \<and> retries c' = 0 \<and>
    st_ErrorCount (cl_stats c') = 1 \<and> link c' = link sample_client"
proof -
  have "\<not> contains (error_text (translateModbusError sample_timeout)) connection_fragments" by code_simp
  moreover have "tag_ID sample_ready = ''t1''" by (simp add: sample_ready_def sample_tag_def)
  moreover have "retries sample_client = 0" "st_ErrorCount (cl_stats sample_client) = 0"
    by (simp_all add: retries_def sample_client_def zero_stats_def)
  ultimately show ?thesis
    using failed_read_is_not_retried [of sample_client sample_ready failing_env
        "env_ReadHoldingRegisters failing_env" sample_timeout 0]
    by (simp add: sample_tags_ready sample_client_fields read_request_def fails_with_def failing_env_def
        sample_can_store)
qed

section \<open>Bounds of the retries\<close>

lemma retries_frame_bnd:
  assumes "\<And>r. preserves (on_client (\<lambda>c. retries c = r)) m" and "\<And>a. retries_at_most n (f a)"
  shows "retries_at_most n (bnd m f)"
  using retries_at_most_bnd [OF retries_at_most_frame [OF assms(1), of 0] assms(2)] by simp

lemma retries_option:
  "retries_at_most n m \<Longrightarrow> (\<And>b. retries_at_most n (g b)) \<Longrightarrow>
   retries_at_most n (case x of None \<Rightarrow> m | Some b \<Rightarrow> g b)"
  by (simp split: option.split)

lemma retries_sum:
  "(\<And>a. retries_at_most n (f a)) \<Longrightarrow> (\<And>b. retries_at_most n (g b)) \<Longrightarrow>
   retries_at_most n (case x of Inl a \<Rightarrow> f a | Inr b \<Rightarrow> g b)"
  by (simp split: sum.split)

lemma retries_if:
  "retries_at_most n m \<Longrightarrow> retries_at_most n m' \<Longrightarrow> retries_at_most n (if b then m else m')"
  by simp

text \<open>A step that cannot wait leaves the bound to what follows.\<close>

lemma read_attempts_counts: "retries_at_most (waits as) (read_attempts E t err as)"
proof (induction as arbitrary: err)
  case Nil
  show ?case unfolding read_attempts.simps by (rule retries_at_most_frame) (intro preserving)
next
  case (Cons a as)
  have reconnect: "preserves (on_client (\<lambda>c. retries c = r)) (if b then reconnect E else ret ())" for r b
    by (intro preserving)
  show ?case
    unfolding read_attempts.simps waits_simps
    by (rule retries_at_most_bnd [OF retry_wait_counts], rule retries_option,
        rule retries_frame_bnd, rule uncounted.readRegisters, rule retries_sum, rule retries_if,
        rule retries_at_most_frame, intro preserving, rule retries_frame_bnd [OF reconnect Cons.IH])
      (rule retries_at_most_frame, intro preserving)+
qed

lemma write_attempts_counts: "retries_at_most (waits as) (write_attempts E A t v err as)"
proof (induction as arbitrary: err)
  case Nil
  show ?case unfolding write_attempts.simps by (rule retries_at_most_frame) (intro preserving)
next
  case (Cons a as)
  have reconnect: "preserves (on_client (\<lambda>c. retries c = r)) (if b then reconnect E else ret ())" for r b
    by (intro preserving)
  show ?case
    unfolding write_attempts.simps waits_simps
    by (rule retries_at_most_bnd [OF retry_wait_counts], rule retries_option,
        rule retries_frame_bnd, rule uncounted.writeRegister, rule retries_option,
        rule retries_at_most_frame, intro preserving, rule retries_if,
        rule retries_at_most_frame, intro preserving, rule retries_frame_bnd [OF reconnect Cons.IH])
      (rule retries_at_most_frame, intro preserving)+
qed

lemma timed_counts:
  fixes E :: "'w modbus_env"
  assumes "retries_at_most n body"
    and "\<And>d r. preserves (on_client (\<lambda>c. retries c = r) :: client \<times> 'w \<Rightarrow> bool) (upd (add d))"
  shows "retries_at_most n (timed E add body)"
  unfolding timed_def
proof (rule retries_frame_bnd)
  fix start
  let ?d = "bnd (call (env_Now E)) (\<lambda>now. upd (add (time_Sub now start)))"
  have d: "retries (fst (snd (?d s))) = retries (fst s)" for s
    using preservesD [of "on_client (\<lambda>c. retries c = retries (fst s))" ?d s] assms(2)
    by (auto simp: on_client_def intro!: preserving)
  have "retries (fst (snd (deferred body ?d s))) = retries (fst (snd (body s)))" for s
  proof -
    obtain r s' where b: "body s = (r, s')" by (meson surj_pair)
    obtain q s'' where q: "?d s' = (q, s'')" by (meson surj_pair)
    show ?thesis using d [of s'] by (cases q) (simp_all add: deferred_def b q)
  qed
  with assms(1) show "retries_at_most n (deferred body ?d)" by (simp add: retries_at_most_def)
qed (intro preserving)

text \<open>
  A method that reads its configuration after the first clock reading: the bound holds for the
  configuration of the client it starts from.
\<close>

lemma method_counts:
  fixes E :: "'w modbus_env" and body :: "client_config \<Rightarrow> ('w, 'a) modbus"
  assumes "\<And>k. retries_at_most (nat (cc_MaxRetries k)) (body k)"
    and "\<And>r. preserves (on_client (\<lambda>c. retries c = r)) early"
    and "\<And>d r. preserves (on_client (\<lambda>c. retries c = r) :: client \<times> 'w \<Rightarrow> bool) (upd (add d))"
    and "\<And>d c. retries (add d c) = retries c"
  shows "\<exists>n\<le>nat (cc_MaxRetries (cl_config c)).
    retries (fst (snd (timed E add (bnd (touch E) (\<lambda>_. bnd (field cl_connected) (\<lambda>b.
      if x b then early else bnd (field cl_config) body))) (c, w)))) = retries c + of_nat n"
proof -
  let ?inner = "\<lambda>b. if x b then early else body (cl_config c)"
  let ?m = "timed E add (bnd (touch E) (\<lambda>_. bnd (field cl_connected) ?inner))"
  have early: "retries_at_most n early" for n
    by (rule retries_at_most_frame) (rule assms(2))
  have "retries_at_most (nat (cc_MaxRetries (cl_config c))) ?m"
    by (intro timed_counts retries_frame_bnd uncounted.touch preserves_field retries_if early assms(1,3))
  moreover have "timed E add (bnd (touch E) (\<lambda>_. bnd (field cl_connected) (\<lambda>b.
      if x b then early else bnd (field cl_config) body))) (c, w) = ?m (c, w)"
    by (auto simp: timed_def touch_def run_simps deferred_def bnd_assoc split: prod.split)
  ultimately show ?thesis unfolding retries_at_most_def by (metis fst_conv)
qed

lemma ReadTag_counts:
  "\<exists>n\<le>nat (cc_MaxRetries (cl_config c)). retries (fst (snd (ReadTag E t (c, w)))) = retries c + of_nat n"
  unfolding ReadTag_def
proof (rule method_counts)
  fix k
  have "retries_at_most (waits (attempts k) + 0) (bnd (read_attempts E t None (attempts k)) (\<lambda>left.
       case left of Return r \<Rightarrow> ret r
       | Fallthrough raw (Some err) \<Rightarrow> tag_failed E t err
       | Fallthrough raw None \<Rightarrow> bnd (upd count_read) (\<lambda>_.
           bnd (recordTagSuccess E (tag_ID t)) (\<lambda>_. parsed_point E t raw))))"
    by (rule retries_at_most_bnd [OF read_attempts_counts], rule retries_at_most_frame)
      (auto split: loop_exit.split option.split intro!: preserving)
  then show "retries_at_most (nat (cc_MaxRetries k)) (bnd (read_attempts E t None (attempts k)) (\<lambda>left.
       case left of Return r \<Rightarrow> ret r
       | Fallthrough raw (Some err) \<Rightarrow> tag_failed E t err
       | Fallthrough raw None \<Rightarrow> bnd (upd count_read) (\<lambda>_.
           bnd (recordTagSuccess E (tag_ID t)) (\<lambda>_. parsed_point E t raw))))"
    by (simp add: waits_attempts)
qed (rule preserves_ret, rule uncounted.updates, simp add: retries_def add_read_time_def)

lemma WriteTag_counts:
  "\<exists>n\<le>nat (cc_MaxRetries (cl_config c)). retries (fst (snd (WriteTag E A t v (c, w)))) = retries c + of_nat n"
proof -
  let ?early = "\<lambda>b. if \<not> b then ret (Some (Sentinel (ConnE ErrConnectionClosed)))
    else ret (Some (WrapV (WriteE ErrTagNotWritable)
            (''tag '' @ tag_ID t @ '' (register type: '' @ register_type_text (tag_RegisterType t) @ '')'')))"
  let ?body = "\<lambda>k. bnd (write_attempts E A t v None (attempts k)) (\<lambda>left.
       case left of Return r \<Rightarrow> ret r
       | Fallthrough _ (Some err) \<Rightarrow> bnd (upd count_error) (\<lambda>_. ret (Some err))
       | Fallthrough _ None \<Rightarrow> bnd (upd count_write) (\<lambda>_. ret None))"
  have body: "retries_at_most (nat (cc_MaxRetries k)) (?body k)" for k
  proof -
    have "retries_at_most (waits (attempts k) + 0) (?body k)"
      by (rule retries_at_most_bnd [OF write_attempts_counts], rule retries_at_most_frame)
        (auto split: loop_exit.split option.split intro!: preserving)
    then show ?thesis by (simp add: waits_attempts)
  qed
  have "\<exists>n\<le>nat (cc_MaxRetries (cl_config c)).
      retries (fst (snd (timed E add_write_time (bnd (touch E) (\<lambda>_. bnd (field cl_connected) (\<lambda>b.
        if \<not> cl_connected c \<or> \<not> IsWritable t then ?early (cl_connected c) else bnd (field cl_config) ?body))) (c, w)))) =
      retries c + of_nat n"
    by (rule method_counts [OF body], intro preserving, rule uncounted.updates)
      (simp add: retries_def add_write_time_def)
  moreover have "WriteTag E A t v (c, w) = timed E add_write_time (bnd (touch E) (\<lambda>_. bnd (field cl_connected) (\<lambda>b.
        if \<not> cl_connected c \<or> \<not> IsWritable t then ?early (cl_connected c) else bnd (field cl_config) ?body))) (c, w)"
    by (auto simp: WriteTag_def timed_def touch_def run_simps deferred_def bnd_assoc split: prod.split)
  ultimately show ?thesis by simp
qed

text \<open>
  One call retries at most \<open>MaxRetries\<close> times, whatever happens, reconnects and panics
  included, and a batched read never retries.
\<close>

theorem retries_bounded:
  "(\<exists>n\<le>nat (cc_MaxRetries (cl_config c)). retries (fst (snd (ReadTag E t (c, w)))) = retries c + of_nat n) \<and>
   (\<exists>n\<le>nat (cc_MaxRetries (cl_config c)). retries (fst (snd (WriteTag E A t v (c, w)))) = retries c + of_nat n) \<and>
   retries (fst (snd (ReadTags E ts (c, w)))) = retries c"
  using preservesD [OF uncounted.ReadTags [of "retries c" E ts], of "(c, w)"]
  by (intro conjI ReadTag_counts WriteTag_counts) (simp add: on_client_def)

section \<open>How long a retry waits\<close>

text \<open>
  Before retry \<open>n\<close> the client waits the exponential delay \<open>RetryDelay * 2^n\<close>, capped at 10 s,
  give or take a quarter, so never more than 12.5 s: the bound holds, and the call does not panic,
  while the product fits in 63 bits.
\<close>

theorem backoff_within_bounds:
  assumes "random_in_range E" and "1 \<le> cc_RetryDelay (cl_config c)"
    and "cc_RetryDelay (cl_config c) * 2 ^ n < 2 ^ 63" and "1 \<le> n" and "n < 63"
  shows "\<exists>d w'. calculateBackoff E (int n) (c, w) = (Val d, (c, w')) \<and>
    4 * d \<le> 5 * capped_delay (cc_RetryDelay (cl_config c)) n \<and>
    3 * capped_delay (cc_RetryDelay (cl_config c)) n \<le> 4 * d \<and> 0 < d \<and> d \<le> 12500000000"
proof -
  have "(2::int) ^ 1 \<le> 2 ^ n" using assms(4) by (rule power_increasing) simp
  then have "1 * 2 \<le> cc_RetryDelay (cl_config c) * 2 ^ n"
    using assms(2) by (intro mult_mono) auto
  then have "2 \<le> cc_RetryDelay (cl_config c) * 2 ^ n" by simp
  from calculateBackoff_run [OF assms(1) _ assms(3,5) this, of w] assms(2)
  obtain d w' where d: "calculateBackoff E (int n) (c, w) = (Val d, (c, w'))"
    "4 * d \<le> 5 * capped_delay (cc_RetryDelay (cl_config c)) n"
    "3 * capped_delay (cc_RetryDelay (cl_config c)) n \<le> 4 * d" by auto
  moreover have "2 \<le> capped_delay (cc_RetryDelay (cl_config c)) n"
    "capped_delay (cc_RetryDelay (cl_config c)) n \<le> 10000000000"
    using \<open>2 \<le> cc_RetryDelay (cl_config c) * 2 ^ n\<close> by (simp_all add: capped_delay_def)
  ultimately show ?thesis by (intro exI [of _ d] exI [of _ w']) auto
qed

lemma sample_random: "random_in_range sample_env"
  by (auto simp: random_in_range_def sample_env_def)

lemma sample_retry_delay: "cc_RetryDelay (cl_config sample_client) = 100000000"
  by (simp add: sample_client_def sample_config_def default_config_def default_int_def)

theorem backoff_within_bounds_witness:
  "\<exists>d w'. calculateBackoff sample_env (int 3) (sample_client, 0) = (Val d, (sample_client, w')) \<and>
     4 * d \<le> 5 * 800000000 \<and> 3 * 800000000 \<le> 4 * d \<and> 0 < d \<and> d \<le> 12500000000"
  using backoff_within_bounds [OF sample_random, of sample_client 3 0]
  by (simp add: sample_retry_delay capped_delay_def)

text \<open>
  With many retries the product overflows: with the default delay of 100 ms the retry number
  56 (and every later one) waits for a delay of 0, for which the random source panics.
\<close>

theorem backoff_panics_after_overflow:
  assumes "cc_RetryDelay (cl_config c) = 100000000" and "56 \<le> n"
  shows "fst (calculateBackoff E (int n) (c, w)) = Panic ''invalid argument to Int64N''"
proof (rule calculateBackoff_panics)
  obtain m where n: "n = 56 + m" using assms(2) le_Suc_ex by blast
  have high: "(2::int) ^ 56 dvd 2 ^ 63" "(2::int) ^ 56 dvd 2 ^ 64" by (rule le_imp_power_dvd; simp)+
  have "(2::int) ^ 56 dvd 2 ^ n" unfolding n by (rule le_imp_power_dvd) simp
  then have "2 ^ 56 dvd wrap64 (2 ^ n)"
    unfolding wrap64_def by (intro dvd_diff dvd_mod dvd_add high)
  then obtain q where "wrap64 (2 ^ n) = 2 ^ 56 * q" by (rule dvdE)
  then have eq: "cc_RetryDelay (cl_config c) * wrap64 (2 ^ n) = 2 ^ 64 * (390625 * q)" using assms(1) by simp
  have zero: "wrap64 (2 ^ 64 * x) = 0" for x by (simp add: wrap64_def)
  show "wrap64 (cc_RetryDelay (cl_config c) * wrap64 (2 ^ n)) \<le> 1" unfolding eq zero by simp
qed

theorem backoff_panics_after_overflow_witness:
  "fst (calculateBackoff sample_env (int 60) (sample_client, 0)) = Panic ''invalid argument to Int64N''"
  by (rule backoff_panics_after_overflow) (simp_all add: sample_retry_delay)

section \<open>A panic in the diagnostics\<close>

text \<open>
  The per-tag diagnostics can stop the process: once a batched read has stored a sentinel error
  for a tag (its answer was too short, say), a failed single read of the same tag stores an error of
  another dynamic type in the same \<open>atomic.Value\<close>, which panics.
\<close>

theorem mixed_errors_panic:
  assumes "diagnostics_ok c"
  shows "fst (bnd (bad_point E t (Sentinel (RWE ErrInvalidDataLength)))
      (\<lambda>_. tag_failed E t (translateModbusError l)) (c, w)) =
    Panic ''sync/atomic: store of inconsistently typed value into Value''"
proof -
  let ?g = "getOrCreateTagDiagnostic (tag_ID t) c"
  have store: "can_store (td_LastError ?g) (Sentinel (RWE ErrInvalidDataLength))"
    using diagnostics_ok_get [OF assms] by (auto simp: can_store_def split: option.split)
  obtain n w1 where now: "env_Now E w = (n, w1)" by fastforce
  obtain dp w2 where pool: "env_poolGet E w1 = (dp, w2)" by fastforce
  obtain n' w3 where now': "env_Now E w2 = (n', w3)" by fastforce
  have "getOrCreateTagDiagnostic i (count_error (put_diagnostic i g c')) = g" for i g c'
    by (simp add: getOrCreateTagDiagnostic_def count_error_def put_diagnostic_def)
  then show ?thesis
    using store now pool now'
    by (simp add: bad_point_def tag_failed_def recordTagError_def createErrorDataPoint_def acquire_def
        run_simps Let_def bnd_assoc can_store_def translateModbusError_def)
qed

theorem mixed_errors_panic_witness:
  "fst (bnd (bad_point sample_env sample_ready (Sentinel (RWE ErrInvalidDataLength)))
      (\<lambda>_. tag_failed sample_env sample_ready (translateModbusError sample_timeout)) (sample_client, 0)) =
    Panic ''sync/atomic: store of inconsistently typed value into Value''"
  by (rule mixed_errors_panic) (rule sample_diagnostics)

section \<open>Writes that do not reach the device\<close>

text \<open>
  A write to a tag that is not writable is refused before any request: the library's world
  has only been asked for the time, and no counter but the write time moves.
\<close>

theorem unwritable_tag_is_never_written:
  assumes "\<not> IsWritable t" and "cl_connected c"
  shows "\<exists>c'. WriteTag E A t v (c, w) =
      (Val (Some (WrapV (WriteE ErrTagNotWritable)
        (''tag '' @ tag_ID t @ '' (register type: '' @ register_type_text (tag_RegisterType t) @ '')''))),
       (c', snd (env_Now E (snd (env_Now E (snd (env_Now E w))))))) \<and>
    st_WriteCount (cl_stats c') = st_WriteCount (cl_stats c) \<and>
    st_ErrorCount (cl_stats c') = st_ErrorCount (cl_stats c) \<and> link c' = link c"
  using assms
  by (auto simp: WriteTag_def timed_def touch_def deferred_def bnd_assoc run_simps add_write_time_def
      link_def split: prod.split)

theorem unwritable_tag_is_never_written_witness:
  "\<exists>c'. WriteTag sample_env sample_arch (sample_ready\<lparr>tag_AccessMode := AccessModeReadOnly\<rparr>) (VInt 1) (sample_client, 5) =
      (Val (Some (WrapV (WriteE ErrTagNotWritable) ''tag t1 (register type: holding_register)'')), (c', 8)) \<and>
    st_WriteCount (cl_stats c') = st_WriteCount (cl_stats sample_client) \<and>
    st_ErrorCount (cl_stats c') = st_ErrorCount (cl_stats sample_client) \<and> link c' = link sample_client"
  using unwritable_tag_is_never_written [of "sample_ready\<lparr>tag_AccessMode := AccessModeReadOnly\<rparr>"
      sample_client sample_env sample_arch "VInt 1" 5]
  by (simp add: IsWritable_def sample_client_fields sample_ready_def sample_tag_def sample_env_def)

text \<open>
  A negative retry count, which no validation refuses, makes the loop over the attempts empty:
  the write sends nothing to the device, yet reports success and counts a write.
\<close>

theorem negative_retry_count_loses_writes:
  assumes "IsWritable t" and "cl_connected c" and "cc_MaxRetries (cl_config c) < 0"
  shows "\<exists>c'. WriteTag E A t v (c, w) =
      (Val None, (c', snd (env_Now E (snd (env_Now E (snd (env_Now E w))))))) \<and>
    st_WriteCount (cl_stats c') = st_WriteCount (cl_stats c) + 1"
  using assms
  by (auto simp: WriteTag_def timed_def touch_def deferred_def bnd_assoc run_simps add_write_time_def
      count_write_def attempts_def split: prod.split)

theorem negative_retry_count_loses_writes_witness:
  "\<exists>c'. WriteTag sample_env sample_arch sample_ready (VInt 7)
      (sample_client\<lparr>cl_config := sample_config\<lparr>cc_MaxRetries := - 1\<rparr>\<rparr>, 5) = (Val None, (c', 8)) \<and>
    st_WriteCount (cl_stats c') = 1"
proof -
  have "IsWritable sample_ready" by (simp add: IsWritable_def sample_ready_def sample_tag_def)
  then show ?thesis
    using negative_retry_count_loses_writes [of sample_ready
        "sample_client\<lparr>cl_config := sample_config\<lparr>cc_MaxRetries := - 1\<rparr>\<rparr>" sample_env sample_arch "VInt 7" 5]
    by (simp add: sample_client_fields sample_env_def) (simp add: sample_client_def zero_stats_def)
qed

section \<open>The invariant of the client\<close>

text \<open>
  C6. A new client satisfies the connection invariant (connected exactly when it holds a handler
  and a library client), and every method keeps it, and the configuration, whatever the library
  does, panics included.
\<close>

theorem client_invariant:
  "(NewClient d k0 n = Inr c \<longrightarrow> client_inv (default_config k0) d c) \<and>
   preserves (on_client (client_inv k d)) (Connect E) \<and>
   preserves (on_client (client_inv k d)) (Disconnect E) \<and>
   preserves (on_client (client_inv k d)) (ReadTag E t) \<and>
   preserves (on_client (client_inv k d)) (ReadTags E ts) \<and>
   preserves (on_client (client_inv k d)) (WriteTag E A t v) \<and>
   preserves (on_client (client_inv k d)) (WriteSingleCoil E a b) \<and>
   preserves (on_client (client_inv k d)) (WriteSingleRegister E a r) \<and>
   preserves (on_client (client_inv k d)) (WriteMultipleRegisters E a rs) \<and>
   preserves (on_client (client_inv k d)) (WriteMultipleCoils E a bs)"
  unfolding WriteSingleCoil_def WriteSingleRegister_def WriteMultipleRegisters_def WriteMultipleCoils_def
  by (intro conjI inv.Connect inv.Disconnect inv.ReadTag inv.ReadTags inv.WriteTag inv.direct_write)
    (auto simp: NewClient_def client_inv_def connection_ok_def split: if_splits)

theorem client_invariant_witness:
  "\<exists>c. NewClient ''plc-1'' sample_config 0 = Inr c \<and> client_inv (default_config sample_config) ''plc-1'' c"
proof -
  have "NewClient ''plc-1'' sample_config 0 = Inr c \<Longrightarrow> client_inv (default_config sample_config) ''plc-1'' c" for c
    using client_invariant by blast
  then show ?thesis by (simp add: NewClient_def sample_config_def word_less_def)
qed

section \<open>Multiple coils\<close>

text \<open>
  Writing several coils packs them the way reading unpacks them: bit \<open>i\<close> of the packed bytes, as
  \<open>readCoilRange\<close> extracts it, is value \<open>i\<close>, and no byte is missing or left over.
\<close>

theorem coils_pack_unpack:
  "length (pack_coils vs) = (length vs + 7) div 8 \<and>
   map (coil_at (pack_coils vs)) [0..<length vs] = vs"
proof
  show "length (pack_coils vs) = (length vs + 7) div 8" by (simp add: pack_coils_def)
  show "map (coil_at (pack_coils vs)) [0..<length vs] = vs"
    by (rule nth_equalityI) (simp_all add: pack_coils_at)
qed

end
