(* ===== verification/ModbusPool.thy ===== *)
theory ModbusPool
  imports Device ModbusRetry "HOL-Library.AList"
begin

text \<open>
  The pool of Modbus clients (\<open>adapter/modbus/pool.go\<close>): one client and one circuit breaker per
  device. The map of clients is an association list with one entry per key; where the code walks
  it, the order is a parameter. The breaker is the third-party package \<open>gobreaker\<close>: its state is
  the type \<open>'b\<close>, and the parameters say whether it admits a request and what it records of the
  outcome. Metrics and logging are left out. Each method runs as one sequence.
\<close>

section \<open>Fields\<close>

record pool_config =
  pl_MaxConnections :: int
  pl_IdleTimeout :: int
  pl_HealthCheckPeriod :: int
  pl_ConnectionTimeout :: int
  pl_RetryAttempts :: int
  pl_RetryDelay :: int
  pl_CircuitBreakerName :: string
  pl_MaxTTL :: int

definition DefaultPoolConfig :: pool_config where
  "DefaultPoolConfig = \<lparr>pl_MaxConnections = 500, pl_IdleTimeout = 300000000000,
     pl_HealthCheckPeriod = 30000000000, pl_ConnectionTimeout = 10000000000, pl_RetryAttempts = 3,
     pl_RetryDelay = 100000000, pl_CircuitBreakerName = ''modbus-pool'', pl_MaxTTL = 0\<rparr>"

record breaker_settings =
  br_Name :: string
  br_MaxRequests :: u32
  br_Interval :: int
  br_Timeout :: int
  br_failureThreshold :: u32
  br_failureRatio :: f64

record breaker_counts =
  ct_Requests :: u32
  ct_TotalFailures :: u32

text \<open>Why a breaker refuses: \<open>gobreaker.ErrOpenState\<close> or \<open>gobreaker.ErrTooManyRequests\<close>.\<close>

datatype refusal = OpenState | TooManyRequests

record 'b pooled_client =
  pc_client :: client
  pc_device :: device
  pc_breaker :: 'b
  pc_createdAt :: int
  pc_inUse :: bool
  pc_lastError :: "gerror option"

record 'b connection_pool =
  cp_config :: pool_config
  cp_clients :: "(string \<times> 'b pooled_client) list"
  cp_closed :: bool

record ('w, 'b) pool_env =
  pe_modbus :: "'w modbus_env"
  pe_arch :: arch
  pe_newBreaker :: "breaker_settings \<Rightarrow> 'b"
  pe_admit :: "'b \<Rightarrow> 'w \<Rightarrow> (refusal option \<times> 'b) \<times> 'w"
  pe_record :: "bool \<Rightarrow> 'b \<Rightarrow> 'w \<Rightarrow> 'b \<times> 'w"
  pe_breakerOpen :: "'b \<Rightarrow> bool"
  pe_order :: "string list \<Rightarrow> 'w \<Rightarrow> string list \<times> 'w"

type_synonym ('w, 'b, 'a) pool = "('b connection_pool \<times> 'w, 'a) prog"

section \<open>Creation\<close>

definition NewConnectionPool :: "pool_config \<Rightarrow> 'b connection_pool" where
  "NewConnectionPool config =
     \<lparr>cp_config = config\<lparr>pl_MaxConnections := default_int 500 (pl_MaxConnections config),
                         pl_IdleTimeout := default_int 300000000000 (pl_IdleTimeout config),
                         pl_HealthCheckPeriod := default_int 30000000000 (pl_HealthCheckPeriod config),
                         pl_ConnectionTimeout := default_int 10000000000 (pl_ConnectionTimeout config)\<rparr>,
      cp_clients = [], cp_closed = False\<rparr>"

definition f64_0_6 :: f64 where
  "f64_0_6 = 0x3FE3333333333333"

definition createCircuitBreaker :: "device \<Rightarrow> breaker_settings" where
  "createCircuitBreaker d =
     (let base = \<lparr>br_Name = ''modbus-'' @ dev_ID d, br_MaxRequests = 3, br_Interval = 10000000000,
                  br_Timeout = 30000000000, br_failureThreshold = 10, br_failureRatio = f64_0_6\<rparr>
      in case conn_CircuitBreaker (dev_Connection d) of
           None \<Rightarrow> base
         | Some cb \<Rightarrow>
             base\<lparr>br_MaxRequests := (if 0 < cb_MaxRequests cb then cb_MaxRequests cb else 3),
                  br_Interval := (if 0 < cb_Interval cb then cb_Interval cb else 10000000000),
                  br_Timeout := (if 0 < cb_Timeout cb then cb_Timeout cb else 30000000000),
                  br_failureThreshold := (if 0 < cb_FailureThreshold cb then cb_FailureThreshold cb else 10),
                  br_failureRatio := (if f64_lt f64_zero (cb_FailureRatio cb) then cb_FailureRatio cb else f64_0_6)\<rparr>)"

definition ReadyToTrip :: "breaker_settings \<Rightarrow> breaker_counts \<Rightarrow> bool" where
  "ReadyToTrip st counts =
     (let ratio = f64_div (f64_of_int (uint (ct_TotalFailures counts))) (f64_of_int (uint (ct_Requests counts)))
      in br_failureThreshold st \<le> ct_Requests counts \<and> f64_ge ratio (br_failureRatio st))"

section \<open>Running a client of the pool\<close>

text \<open>Run a client's method on the entry of a device.\<close>

definition on_pooled :: "string \<Rightarrow> ('w, 'a) modbus \<Rightarrow> ('w, 'b, 'a) pool" where
  "on_pooled deviceID m s =
     (case map_of (cp_clients (fst s)) deviceID of
        None \<Rightarrow> (Panic ''nil pointer dereference'', s)
      | Some pc \<Rightarrow>
          (case m (pc_client pc, snd s) of (r, (c, w)) \<Rightarrow>
             (r, ((fst s)\<lparr>cp_clients := AList.update deviceID (pc\<lparr>pc_client := c\<rparr>) (cp_clients (fst s))\<rparr>, w))))"

definition upd_pooled :: "string \<Rightarrow> ('b pooled_client \<Rightarrow> 'b pooled_client) \<Rightarrow> ('w, 'b, unit) pool" where
  "upd_pooled deviceID f =
     upd (\<lambda>p. case map_of (cp_clients p) deviceID of
                None \<Rightarrow> p
              | Some pc \<Rightarrow> p\<lparr>cp_clients := AList.update deviceID (f pc) (cp_clients p)\<rparr>)"

text \<open>Run a client's method on a client that is not in the pool yet.\<close>

definition on_client_value :: "client \<Rightarrow> ('w, 'a) modbus \<Rightarrow> ('w, 'b, 'a \<times> client) pool" where
  "on_client_value c m s =
     (case m (c, snd s) of
        (Val a, (c', w)) \<Rightarrow> (Val (a, c'), (fst s, w))
      | (Panic p, (c', w)) \<Rightarrow> (Panic p, (fst s, w)))"

section \<open>Getting a client\<close>

definition client_settings :: "pool_config \<Rightarrow> device \<Rightarrow> client_config" where
  "client_settings config d =
     (let conn = dev_Connection d in
      \<lparr>cc_Address = conn_Host conn @ '':'' @ dec (conn_Port conn), cc_SlaveID = conn_SlaveID conn,
       cc_Timeout = default_int 5000000000 (conn_Timeout conn), cc_IdleTimeout = pl_IdleTimeout config,
       cc_MaxRetries = default_int (pl_RetryAttempts config) (conn_RetryCount conn),
       cc_RetryDelay = default_int (pl_RetryDelay config) (conn_RetryDelay conn),
       cc_Protocol = dev_Protocol d\<rparr>)"

definition createClient :: "('w, 'b) pool_env \<Rightarrow> device \<Rightarrow> ('w, 'b, gerror + client) pool" where
  "createClient P d =
     bnd (field cp_config) (\<lambda>config.
     bnd (call (env_Now (pe_modbus P))) (\<lambda>now.
     case NewClient (dev_ID d) (client_settings config d) now of
       Inl err \<Rightarrow> ret (Inl err)
     | Inr c \<Rightarrow>
         bnd (on_client_value c (Connect (pe_modbus P))) (\<lambda>(err, c').
         case err of Some e \<Rightarrow> ret (Inl e) | None \<Rightarrow> ret (Inr c'))))"

text \<open>\<open>None\<close> when the pool now holds a connected client under the device's ID.\<close>

definition GetClient :: "('w, 'b) pool_env \<Rightarrow> device \<Rightarrow> ('w, 'b, gerror option) pool" where
  "GetClient P d =
     bnd (field cp_closed) (\<lambda>closed.
     if closed then ret (Some (Sentinel (ServiceE ErrServiceStopped)))
     else
       bnd (field (\<lambda>p. map_of (cp_clients p) (dev_ID d))) (\<lambda>entry.
       case entry of
         Some pc \<Rightarrow>
           if IsConnected (pc_client pc) then ret None
           else
             bnd (on_pooled (dev_ID d) (Connect (pe_modbus P))) (\<lambda>err.
             case err of
               Some e \<Rightarrow> bnd (upd_pooled (dev_ID d) (pc_lastError_update (\<lambda>_. Some e))) (\<lambda>_. ret (Some e))
             | None \<Rightarrow> ret None)
       | None \<Rightarrow>
           bnd (field (\<lambda>p. pl_MaxConnections (cp_config p) \<le> int (length (cp_clients p)))) (\<lambda>full.
           if full then ret (Some (Sentinel (ConnE ErrPoolExhausted)))
           else
             bnd (createClient P d) (\<lambda>created.
             case created of
               Inl err \<Rightarrow> ret (Some err)
             | Inr c \<Rightarrow>
                 bnd (call (env_Now (pe_modbus P))) (\<lambda>now.
                 bnd (upd (\<lambda>p. p\<lparr>cp_clients := AList.update (dev_ID d)
                        \<lparr>pc_client = c, pc_device = d, pc_breaker = pe_newBreaker P (createCircuitBreaker d),
                         pc_createdAt = now, pc_inUse = False, pc_lastError = None\<rparr> (cp_clients p)\<rparr>)) (\<lambda>_.
                 ret None))))))"

section \<open>Calls through the breaker\<close>

text \<open>
  \<open>breaker.Execute\<close>, as its documentation says: it refuses at once, or runs the request and
  records whether it failed; a panic counts as a failure and goes on.
\<close>

definition admit :: "('w, 'b) pool_env \<Rightarrow> string \<Rightarrow> ('w, 'b, refusal option) pool" where
  "admit P deviceID =
     bnd (field (\<lambda>p. map_of (cp_clients p) deviceID)) (\<lambda>entry.
     case entry of
       None \<Rightarrow> panic ''nil pointer dereference''
     | Some pc \<Rightarrow>
         bnd (call (pe_admit P (pc_breaker pc))) (\<lambda>(refused, b).
         bnd (upd_pooled deviceID (pc_breaker_update (\<lambda>_. b))) (\<lambda>_.
         ret refused)))"

definition record_outcome :: "('w, 'b) pool_env \<Rightarrow> string \<Rightarrow> bool \<Rightarrow> ('w, 'b, unit) pool" where
  "record_outcome P deviceID success =
     bnd (field (\<lambda>p. map_of (cp_clients p) deviceID)) (\<lambda>entry.
     case entry of
       None \<Rightarrow> ret ()
     | Some pc \<Rightarrow>
         bnd (call (pe_record P success (pc_breaker pc))) (\<lambda>b.
         upd_pooled deviceID (pc_breaker_update (\<lambda>_. b))))"

definition Execute ::
  "('w, 'b) pool_env \<Rightarrow> string \<Rightarrow> ('w, 'a \<times> gerror option) modbus \<Rightarrow> ('w, 'b, refusal + 'a \<times> gerror option) pool" where
  "Execute P deviceID request =
     bnd (admit P deviceID) (\<lambda>refused.
     case refused of
       Some r \<Rightarrow> ret (Inl r)
     | None \<Rightarrow>
         bnd_run (on_pooled deviceID request) (\<lambda>r. case r of
           Val (a, err) \<Rightarrow> bnd (record_outcome P deviceID (err = None)) (\<lambda>_. ret (Inr (a, err)))
         | Panic p \<Rightarrow> bnd (record_outcome P deviceID False) (\<lambda>_. panic p)))"

definition too_many_requests :: gerror where
  "too_many_requests = Lib \<lparr>net_timeout = None, is_eof = False, lib_text = ''too many requests''\<rparr>"

text \<open>The common shape of the seven methods: a client, its entry, the breaker, the error.\<close>

definition guarded ::
  "('w, 'b) pool_env \<Rightarrow> device \<Rightarrow> 'a \<Rightarrow> ('w, 'a \<times> gerror option) modbus \<Rightarrow> ('w, 'b, 'a \<times> gerror option) pool" where
  "guarded P d nothing request =
     bnd (GetClient P d) (\<lambda>err.
     case err of
       Some e \<Rightarrow> ret (nothing, Some e)
     | None \<Rightarrow>
         bnd (field (\<lambda>p. map_of (cp_clients p) (dev_ID d))) (\<lambda>entry.
         if entry = None then ret (nothing, Some (Sentinel (ServiceE ErrDeviceNotFound)))
         else
           bnd (Execute P (dev_ID d) request) (\<lambda>result.
           case result of
             Inl OpenState \<Rightarrow> ret (nothing, Some (Sentinel (ConnE ErrCircuitBreakerOpen)))
           | Inl TooManyRequests \<Rightarrow> ret (nothing, Some too_many_requests)
           | Inr (a, Some e) \<Rightarrow> ret (nothing, Some e)
           | Inr (a, None) \<Rightarrow> ret (a, None))))"

text \<open>A method that returns only an error, as a request with no value.\<close>

definition no_value :: "('w, gerror option) modbus \<Rightarrow> ('w, unit \<times> gerror option) modbus" where
  "no_value m = bnd m (\<lambda>err. ret ((), err))"

definition pool_ReadTags ::
  "('w, 'b) pool_env \<Rightarrow> device \<Rightarrow> tag list \<Rightarrow> ('w, 'b, data_point list \<times> gerror option) pool" where
  "pool_ReadTags P d tags = guarded P d [] (ReadTags (pe_modbus P) tags)"

definition pool_ReadTag ::
  "('w, 'b) pool_env \<Rightarrow> device \<Rightarrow> tag \<Rightarrow> ('w, 'b, data_point option \<times> gerror option) pool" where
  "pool_ReadTag P d t = guarded P d None (ReadTag (pe_modbus P) t)"

definition pool_WriteTag ::
  "('w, 'b) pool_env \<Rightarrow> device \<Rightarrow> tag \<Rightarrow> goval \<Rightarrow> ('w, 'b, unit \<times> gerror option) pool" where
  "pool_WriteTag P d t value = guarded P d () (no_value (WriteTag (pe_modbus P) (pe_arch P) t value))"

definition pool_WriteSingleCoil ::
  "('w, 'b) pool_env \<Rightarrow> device \<Rightarrow> u16 \<Rightarrow> bool \<Rightarrow> ('w, 'b, unit \<times> gerror option) pool" where
  "pool_WriteSingleCoil P d address value =
     guarded P d () (no_value (WriteSingleCoil (pe_modbus P) address value))"

definition pool_WriteSingleRegister ::
  "('w, 'b) pool_env \<Rightarrow> device \<Rightarrow> u16 \<Rightarrow> u16 \<Rightarrow> ('w, 'b, unit \<times> gerror option) pool" where
  "pool_WriteSingleRegister P d address value =
     guarded P d () (no_value (WriteSingleRegister (pe_modbus P) address value))"

definition pool_WriteMultipleRegisters ::
  "('w, 'b) pool_env \<Rightarrow> device \<Rightarrow> u16 \<Rightarrow> u16 list \<Rightarrow> ('w, 'b, unit \<times> gerror option) pool" where
  "pool_WriteMultipleRegisters P d address values =
     guarded P d () (no_value (WriteMultipleRegisters (pe_modbus P) address values))"

definition pool_WriteMultipleCoils ::
  "('w, 'b) pool_env \<Rightarrow> device \<Rightarrow> u16 \<Rightarrow> bool list \<Rightarrow> ('w, 'b, unit \<times> gerror option) pool" where
  "pool_WriteMultipleCoils P d address values =
     guarded P d () (no_value (WriteMultipleCoils (pe_modbus P) address values))"

section \<open>Removal, closing, health and reaping\<close>

definition delete_client :: "string \<Rightarrow> 'b connection_pool \<Rightarrow> 'b connection_pool" where
  "delete_client deviceID p = p\<lparr>cp_clients := AList.delete deviceID (cp_clients p)\<rparr>"

definition RemoveClient :: "('w, 'b) pool_env \<Rightarrow> string \<Rightarrow> ('w, 'b, gerror option) pool" where
  "RemoveClient P deviceID =
     bnd (field (\<lambda>p. map_of (cp_clients p) deviceID)) (\<lambda>entry.
     if entry = None then ret (Some (Sentinel (ServiceE ErrDeviceNotFound)))
     else
       bnd (on_pooled deviceID (Disconnect (pe_modbus P))) (\<lambda>_.
       bnd (upd (delete_client deviceID)) (\<lambda>_.
       ret None)))"

fun disconnect_all :: "('w, 'b) pool_env \<Rightarrow> string list \<Rightarrow> gerror option \<Rightarrow> ('w, 'b, gerror option) pool" where
  "disconnect_all P [] lastErr = ret lastErr"
| "disconnect_all P (deviceID # rest) lastErr =
     bnd (on_pooled deviceID (Disconnect (pe_modbus P))) (\<lambda>err.
     disconnect_all P rest (case err of Some e \<Rightarrow> Some e | None \<Rightarrow> lastErr))"

definition walk_clients :: "('w, 'b) pool_env \<Rightarrow> ('w, 'b, string list) pool" where
  "walk_clients P = bnd (field (\<lambda>p. map fst (cp_clients p))) (\<lambda>ids. call (pe_order P ids))"

text \<open>A second \<open>Close\<close> closes the channel \<open>done\<close> again, which panics.\<close>

definition Close :: "('w, 'b) pool_env \<Rightarrow> ('w, 'b, gerror option) pool" where
  "Close P =
     bnd (field cp_closed) (\<lambda>closed.
     bnd (upd (cp_closed_update (\<lambda>_. True))) (\<lambda>_.
     if closed then panic ''close of closed channel''
     else
       bnd (walk_clients P) (\<lambda>ids.
       bnd (disconnect_all P ids None) (\<lambda>lastErr.
       bnd (upd (cp_clients_update (\<lambda>_. []))) (\<lambda>_.
       ret lastErr)))))"

definition checkClientHealth :: "('w, 'b) pool_env \<Rightarrow> string \<Rightarrow> ('w, 'b, unit) pool" where
  "checkClientHealth P deviceID =
     bnd (field (\<lambda>p. map_of (cp_clients p) deviceID)) (\<lambda>entry.
     case entry of
       None \<Rightarrow> ret ()
     | Some pc \<Rightarrow>
         if IsConnected (pc_client pc) then ret ()
         else
           bnd (on_pooled deviceID (Connect (pe_modbus P))) (\<lambda>err.
           case err of
             Some e \<Rightarrow> upd_pooled deviceID (pc_lastError_update (\<lambda>_. Some e))
           | None \<Rightarrow> ret ()))"

fun check_all :: "('w, 'b) pool_env \<Rightarrow> string list \<Rightarrow> ('w, 'b, unit) pool" where
  "check_all P [] = ret ()"
| "check_all P (deviceID # rest) = bnd (checkClientHealth P deviceID) (\<lambda>_. check_all P rest)"

text \<open>One tick of \<open>healthCheckLoop\<close>: the loop ends when the pool is closed.\<close>

definition health_tick :: "('w, 'b) pool_env \<Rightarrow> ('w, 'b, unit) pool" where
  "health_tick P =
     bnd (field cp_closed) (\<lambda>closed.
     if closed then ret () else bnd (walk_clients P) (check_all P))"

definition is_idle :: "pool_config \<Rightarrow> int \<Rightarrow> 'b pooled_client \<Rightarrow> bool" where
  "is_idle config now pc \<longleftrightarrow> pl_IdleTimeout config < time_Sub now (cl_lastUsed (pc_client pc))"

definition is_expired :: "pool_config \<Rightarrow> int \<Rightarrow> 'b pooled_client \<Rightarrow> bool" where
  "is_expired config now pc \<longleftrightarrow>
     0 < pl_MaxTTL config \<and> pl_MaxTTL config < time_Sub now (pc_createdAt pc)"

fun reap :: "('w, 'b) pool_env \<Rightarrow> int \<Rightarrow> string list \<Rightarrow> ('w, 'b, unit) pool" where
  "reap P now [] = ret ()"
| "reap P now (deviceID # rest) =
     bnd (field cp_config) (\<lambda>config.
     bnd (field (\<lambda>p. map_of (cp_clients p) deviceID)) (\<lambda>entry.
     bnd (case entry of
            Some pc \<Rightarrow>
              if is_idle config now pc \<or> is_expired config now pc then
                bnd (on_pooled deviceID (Disconnect (pe_modbus P))) (\<lambda>_. upd (delete_client deviceID))
              else ret ()
          | None \<Rightarrow> ret ()) (\<lambda>_.
     reap P now rest)))"

definition reapIdleConnections :: "('w, 'b) pool_env \<Rightarrow> ('w, 'b, unit) pool" where
  "reapIdleConnections P =
     bnd (call (env_Now (pe_modbus P))) (\<lambda>now.
     bnd (walk_clients P) (\<lambda>ids.
     reap P now ids))"

definition reaper_tick :: "('w, 'b) pool_env \<Rightarrow> ('w, 'b, unit) pool" where
  "reaper_tick P =
     bnd (field cp_closed) (\<lambda>closed. if closed then ret () else reapIdleConnections P)"

section \<open>Reports\<close>

record pool_stats =
  ps_TotalConnections :: int
  ps_ActiveConnections :: int
  ps_InUseConnections :: int
  ps_MaxConnections :: int

definition pool_Stats :: "'b connection_pool \<Rightarrow> pool_stats" where
  "pool_Stats p =
     \<lparr>ps_TotalConnections = int (length (cp_clients p)),
      ps_ActiveConnections = int (length (filter (\<lambda>(i, pc). IsConnected (pc_client pc)) (cp_clients p))),
      ps_InUseConnections = int (length (filter (\<lambda>(i, pc). pc_inUse pc) (cp_clients p))),
      ps_MaxConnections = pl_MaxConnections (cp_config p)\<rparr>"

definition HealthCheck :: "'b connection_pool \<Rightarrow> gerror option" where
  "HealthCheck p = (if cp_closed p then Some (Sentinel (ServiceE ErrServiceStopped)) else None)"

record device_health =
  dh_DeviceID :: string
  dh_Connected :: bool
  dh_CircuitBreakerOpen :: bool
  dh_LastError :: "gerror option"

definition health_of :: "('w, 'b) pool_env \<Rightarrow> string \<Rightarrow> 'b pooled_client \<Rightarrow> device_health" where
  "health_of P deviceID pc =
     \<lparr>dh_DeviceID = deviceID, dh_Connected = IsConnected (pc_client pc),
      dh_CircuitBreakerOpen = pe_breakerOpen P (pc_breaker pc), dh_LastError = pc_lastError pc\<rparr>"

definition GetDeviceHealth :: "('w, 'b) pool_env \<Rightarrow> 'b connection_pool \<Rightarrow> string \<Rightarrow> device_health option" where
  "GetDeviceHealth P p deviceID = map_option (health_of P deviceID) (map_of (cp_clients p) deviceID)"

definition GetAllDeviceHealth :: "('w, 'b) pool_env \<Rightarrow> 'b connection_pool \<Rightarrow> (string \<times> device_health) list" where
  "GetAllDeviceHealth P p = map (\<lambda>(i, pc). (i, health_of P i pc)) (cp_clients p)"

definition IsHealthy :: "'b connection_pool \<Rightarrow> bool" where
  "IsHealthy p \<longleftrightarrow> \<not> cp_closed p"

section \<open>The invariant of the pool\<close>

text \<open>
  Every entry holds the client of its own device, configured from it, in a sound connection state;
  there are never more entries than the configured maximum.
\<close>

definition entry_ok :: "pool_config \<Rightarrow> string \<times> 'b pooled_client \<Rightarrow> bool" where
  "entry_ok k e \<longleftrightarrow> dev_ID (pc_device (snd e)) = fst e \<and>
     client_inv (default_config (client_settings k (pc_device (snd e)))) (fst e) (pc_client (snd e))"

definition pool_inv :: "pool_config \<Rightarrow> 'b connection_pool \<Rightarrow> bool" where
  "pool_inv k p \<longleftrightarrow> cp_config p = k \<and> distinct (map fst (cp_clients p)) \<and>
     int (length (cp_clients p)) \<le> max 0 (pl_MaxConnections k) \<and>
     (\<forall>e\<in>set (cp_clients p). entry_ok k e)"

lemma length_AList_update:
  "length (AList.update i v al) = (if i \<in> fst ` set al then length al else Suc (length al))"
  by (induction al) auto

lemma set_AList_update: "set (AList.update i v al) \<subseteq> insert (i, v) (set al)"
  by (induction al) auto

lemma pool_inv_replace:
  assumes "pool_inv k p" and "map_of (cp_clients p) i = Some pc" and "entry_ok k (i, pc')"
  shows "pool_inv k (p\<lparr>cp_clients := AList.update i pc' (cp_clients p)\<rparr>)"
  using assms map_of_SomeD [OF assms(2)] set_AList_update [of i pc' "cp_clients p"]
  by (force simp: pool_inv_def AList.distinct_update length_AList_update)

lemma pool_inv_insert:
  assumes "pool_inv k p" and "map_of (cp_clients p) i = None" and "entry_ok k (i, pc)"
    and "int (length (cp_clients p)) < pl_MaxConnections k"
  shows "pool_inv k (p\<lparr>cp_clients := AList.update i pc (cp_clients p)\<rparr>)"
proof -
  have "i \<notin> fst ` set (cp_clients p)" using assms(2) by (simp add: map_of_eq_None_iff)
  then show ?thesis
    using assms set_AList_update [of i pc "cp_clients p"]
    by (force simp: pool_inv_def AList.distinct_update length_AList_update)
qed

lemma pool_inv_delete: "pool_inv k p \<Longrightarrow> pool_inv k (delete_client i p)"
proof -
  assume p: "pool_inv k p"
  have "set (AList.delete i (cp_clients p)) \<subseteq> set (cp_clients p)" by (auto simp: AList.delete_eq)
  moreover have "length (AList.delete i (cp_clients p)) \<le> length (cp_clients p)" by (rule AList.length_delete_le)
  ultimately show ?thesis using p by (auto simp: pool_inv_def delete_client_def AList.distinct_delete)
qed

lemma pool_inv_entry:
  "pool_inv k p \<Longrightarrow> map_of (cp_clients p) i = Some pc \<Longrightarrow> entry_ok k (i, pc)"
  by (auto simp: pool_inv_def dest: map_of_SomeD)

text \<open>A client's method that keeps the client's invariant keeps the pool's.\<close>

lemma on_pooled_inv [preserving]:
  fixes m :: "('w, 'a) modbus" and k :: pool_config
  assumes "\<And>kk d. preserves (on_client (client_inv kk d)) m"
  shows "preserves (on_client (pool_inv k)) (on_pooled i m :: ('w, 'b, 'a) pool)"
proof (rule preservesI)
  fix s :: "'b connection_pool \<times> 'w" assume s: "on_client (pool_inv k) s"
  show "on_client (pool_inv k) (snd (on_pooled i m s))"
  proof (cases "map_of (cp_clients (fst s)) i")
    case None
    with s show ?thesis by (simp add: on_pooled_def)
  next
    case (Some pc)
    obtain r c w where m: "m (pc_client pc, snd s) = (r, (c, w))" by (metis surj_pair)
    from s have p: "pool_inv k (fst s)" by (simp add: on_client_def)
    from pool_inv_entry [OF p Some] have e: "entry_ok k (i, pc)" .
    have "client_inv (default_config (client_settings k (pc_device pc))) i c"
      using preservesD [OF assms, of "default_config (client_settings k (pc_device pc))" i "(pc_client pc, snd s)"] e m
      by (simp add: on_client_def entry_ok_def)
    with e have "entry_ok k (i, pc\<lparr>pc_client := c\<rparr>)" by (simp add: entry_ok_def)
    from pool_inv_replace [OF p Some this] show ?thesis
      by (simp add: on_pooled_def Some m on_client_def)
  qed
qed

lemma upd_pooled_inv [preserving]:
  "(\<And>pc. pc_client (f pc) = pc_client pc \<and> pc_device (f pc) = pc_device pc) \<Longrightarrow>
   preserves (on_client (pool_inv k)) (upd_pooled i f)"
  unfolding upd_pooled_def
  by (rule on_client_upd)
    (auto split: option.split intro!: pool_inv_replace dest: pool_inv_entry simp: entry_ok_def)

lemma createClient_ok:
  assumes "createClient P d (p, w) = (Val (Inr c), (p', w'))"
  shows "p' = p \<and> client_inv (default_config (client_settings (cp_config p) d)) (dev_ID d) c"
proof -
  let ?k = "client_settings (cp_config p) d" and ?E = "pe_modbus P"
  obtain n w1 where now: "env_Now ?E w = (n, w1)" by fastforce
  from assms now obtain c0 where new: "NewClient (dev_ID d) ?k n = Inr c0"
    by (auto simp: createClient_def run_simps split: sum.splits)
  then have c0: "client_inv (default_config ?k) (dev_ID d) c0"
    by (auto simp: NewClient_def client_inv_def connection_ok_def split: if_splits)
  obtain r c1 w2 where conn: "Connect ?E (c0, w1) = (r, (c1, w2))" by (metis surj_pair)
  have "client_inv (default_config ?k) (dev_ID d) c1"
    using preservesD [OF inv.Connect, of "default_config ?k" "dev_ID d" "(c0, w1)" ?E] c0 conn
    by (simp add: on_client_def)
  then show ?thesis
    using assms now new conn
    by (auto simp: createClient_def run_simps bnd_def ret_def on_client_value_def
        split: run.splits option.splits)
qed

lemma createClient_keeps: "fst (snd (createClient P d (p, w))) = p"
proof -
  obtain n w1 where now: "env_Now (pe_modbus P) w = (n, w1)" by fastforce
  show ?thesis
    by (auto simp: createClient_def run_simps now bnd_def ret_def on_client_value_def
        split: sum.split prod.split run.split option.split)
qed

lemma GetClient_inv [preserving]:
  fixes P :: "('w, 'b) pool_env"
  shows "preserves (on_client (pool_inv k)) (GetClient P d)"
proof (rule preservesI)
  fix s :: "'b connection_pool \<times> 'w" assume s: "on_client (pool_inv k) s"
  obtain p w where pw: "s = (p, w)" by (cases s)
  from s have p: "pool_inv k p" by (simp add: on_client_def pw)
  show "on_client (pool_inv k) (snd (GetClient P d s))"
  proof (cases "cp_closed p \<or> map_of (cp_clients p) (dev_ID d) \<noteq> None \<or>
      pl_MaxConnections (cp_config p) \<le> int (length (cp_clients p))")
    case True
    have re: "preserves (on_client (pool_inv k)) (bnd (on_pooled (dev_ID d) (Connect (pe_modbus P))) (\<lambda>err.
        case err of
          Some e \<Rightarrow> bnd (upd_pooled (dev_ID d) (pc_lastError_update (\<lambda>_. Some e))) (\<lambda>_. ret (Some e))
        | None \<Rightarrow> ret None))"
      by (intro preserving inv.Connect) simp
    with True p show ?thesis
      using preservesD [OF re, of "(p, w)"]
      by (auto simp: GetClient_def pw run_simps on_client_def split: option.splits)
  next
    case False
    then have room: "\<not> cp_closed p" "map_of (cp_clients p) (dev_ID d) = None"
      "int (length (cp_clients p)) < pl_MaxConnections (cp_config p)" by auto
    obtain r w1 where cr: "createClient P d (p, w) = (r, (p, w1))"
      using createClient_keeps [of P d p w] by (metis prod.collapse)
    show ?thesis
    proof (cases "\<exists>c. r = Val (Inr c)")
      case True
      then obtain c where r: "r = Val (Inr c)" by blast
      from cr r have c: "client_inv (default_config (client_settings (cp_config p) d)) (dev_ID d) c"
        using createClient_ok [of P d p w c p w1] by simp
      obtain n w2 where now: "env_Now (pe_modbus P) w1 = (n, w2)" by fastforce
      have k: "cp_config p = k" using p by (simp add: pool_inv_def)
      have "entry_ok k (dev_ID d, \<lparr>pc_client = c, pc_device = d,
          pc_breaker = pe_newBreaker P (createCircuitBreaker d), pc_createdAt = n, pc_inUse = False, pc_lastError = None\<rparr>)"
        using c k by (simp add: entry_ok_def)
      from pool_inv_insert [OF p room(2) this] room cr r now k show ?thesis
        by (simp add: GetClient_def pw run_simps on_client_def)
    next
      case False
      with room cr p show ?thesis
        by (cases r) (auto simp: GetClient_def pw run_simps on_client_def split: sum.split)
    qed
  qed
qed

lemma refusal_preserves [preserving]:
  "preserves Q m \<Longrightarrow> preserves Q n \<Longrightarrow> preserves Q (case r of OpenState \<Rightarrow> m | TooManyRequests \<Rightarrow> n)"
  by (simp split: refusal.split)

lemma record_outcome_inv [preserving]: "preserves (on_client (pool_inv k)) (record_outcome P i b)"
  unfolding record_outcome_def by (intro preserving) simp

lemma admit_inv [preserving]: "preserves (on_client (pool_inv k)) (admit P i)"
  unfolding admit_def by (intro preserving) simp

lemma guarded_inv:
  assumes "\<And>kk d. preserves (on_client (client_inv kk d)) request"
  shows "preserves (on_client (pool_inv k)) (guarded P d nothing request)"
  unfolding guarded_def Execute_def by (intro preserving assms)

lemma no_value_inv:
  "preserves (on_client (client_inv kk d)) m \<Longrightarrow> preserves (on_client (client_inv kk d)) (no_value m)"
  unfolding no_value_def by (intro preserving)

lemma delete_client_inv [preserving]: "preserves (on_client (pool_inv k)) (upd (delete_client i))"
  by (rule on_client_upd) (rule pool_inv_delete)

lemma RemoveClient_inv: "preserves (on_client (pool_inv k)) (RemoveClient P i)"
  unfolding RemoveClient_def by (intro preserving inv.Disconnect)

lemma disconnect_all_inv [preserving]: "preserves (on_client (pool_inv k)) (disconnect_all P ids e)"
  by (induction ids arbitrary: e) (auto intro!: preserving inv.Disconnect)

lemma walk_clients_inv [preserving]: "preserves (on_client (pool_inv k)) (walk_clients P)"
  unfolding walk_clients_def by (intro preserving)

lemma pool_fields_inv [preserving]:
  "preserves (on_client (pool_inv k)) (upd (cp_closed_update f))"
  "preserves (on_client (pool_inv k)) (upd (cp_clients_update (\<lambda>_. [])))"
  by (rule on_client_upd, simp add: pool_inv_def)+

lemma Close_inv: "preserves (on_client (pool_inv k)) (Close P)"
  unfolding Close_def by (intro preserving)

lemma checkClientHealth_inv [preserving]: "preserves (on_client (pool_inv k)) (checkClientHealth P i)"
  unfolding checkClientHealth_def by (intro preserving inv.Connect) simp

lemma check_all_inv [preserving]: "preserves (on_client (pool_inv k)) (check_all P ids)"
  by (induction ids) (auto intro!: preserving)

lemma health_tick_inv: "preserves (on_client (pool_inv k)) (health_tick P)"
  unfolding health_tick_def by (intro preserving)

lemma reap_inv [preserving]: "preserves (on_client (pool_inv k)) (reap P now ids)"
  by (induction ids) (auto intro!: preserving inv.Disconnect)

lemma reaper_tick_inv: "preserves (on_client (pool_inv k)) (reaper_tick P)"
  unfolding reaper_tick_def reapIdleConnections_def by (intro preserving)

text \<open>
  C7. The pool's invariant holds from its creation on, under every method and every tick of its
  background loops, whatever the devices and the breakers do: at most \<open>MaxConnections\<close> clients, one
  per device, each configured from its device and in a sound connection state.
\<close>

theorem pool_invariant:
  "pool_inv (cp_config (NewConnectionPool k0)) (NewConnectionPool k0 :: 'b connection_pool) \<and>
   preserves (on_client (pool_inv k)) (GetClient P d) \<and>
   preserves (on_client (pool_inv k)) (pool_ReadTags P d ts) \<and>
   preserves (on_client (pool_inv k)) (pool_ReadTag P d t) \<and>
   preserves (on_client (pool_inv k)) (pool_WriteTag P d t v) \<and>
   preserves (on_client (pool_inv k)) (pool_WriteSingleCoil P d a b) \<and>
   preserves (on_client (pool_inv k)) (pool_WriteSingleRegister P d a r) \<and>
   preserves (on_client (pool_inv k)) (pool_WriteMultipleRegisters P d a rs) \<and>
   preserves (on_client (pool_inv k)) (pool_WriteMultipleCoils P d a bs) \<and>
   preserves (on_client (pool_inv k)) (RemoveClient P i) \<and>
   preserves (on_client (pool_inv k)) (Close P) \<and>
   preserves (on_client (pool_inv k)) (health_tick P) \<and>
   preserves (on_client (pool_inv k)) (reaper_tick P)"
proof (intro conjI)
  show "pool_inv (cp_config (NewConnectionPool k0)) (NewConnectionPool k0 :: 'b connection_pool)"
    by (simp add: pool_inv_def NewConnectionPool_def)
qed (unfold pool_ReadTags_def pool_ReadTag_def pool_WriteTag_def pool_WriteSingleCoil_def
    pool_WriteSingleRegister_def pool_WriteMultipleRegisters_def pool_WriteMultipleCoils_def
    WriteSingleCoil_def WriteSingleRegister_def WriteMultipleRegisters_def WriteMultipleCoils_def,
    (rule GetClient_inv guarded_inv no_value_inv inv.ReadTags inv.ReadTag inv.WriteTag inv.direct_write
      RemoveClient_inv Close_inv health_tick_inv reaper_tick_inv)+)

section \<open>A pool for the witnesses\<close>

text \<open>A breaker that counts failures in a row and opens after three.\<close>

definition sample_pool_env :: "(int, nat) pool_env" where
  "sample_pool_env =
     \<lparr>pe_modbus = sample_env, pe_arch = sample_arch, pe_newBreaker = \<lambda>st. 0,
      pe_admit = \<lambda>b w. ((if 3 \<le> b then Some OpenState else None, b), w),
      pe_record = \<lambda>ok b w. (if ok then 0 else b + 1, w), pe_breakerOpen = \<lambda>b. 3 \<le> b,
      pe_order = \<lambda>ids w. (rev ids, w)\<rparr>"

definition sample_entry :: "nat \<Rightarrow> nat pooled_client" where
  "sample_entry b = \<lparr>pc_client = sample_client, pc_device = sample_device, pc_breaker = b,
     pc_createdAt = 0, pc_inUse = False, pc_lastError = None\<rparr>"

definition sample_pool :: "nat \<Rightarrow> nat connection_pool" where
  "sample_pool b = \<lparr>cp_config = DefaultPoolConfig, cp_clients = [(''plc1'', sample_entry b)], cp_closed = False\<rparr>"

lemma sample_pool_entry:
  "\<not> cp_closed (sample_pool b)" "map_of (cp_clients (sample_pool b)) (dev_ID sample_device) = Some (sample_entry b)"
  "cl_connected (pc_client (sample_entry b))" "pc_client (sample_entry b) = sample_client"
  "pc_breaker (sample_entry b) = b" "pe_modbus sample_pool_env = sample_env"
  by (simp_all add: sample_pool_def sample_entry_def sample_device_def sample_client_fields sample_pool_env_def)

section \<open>The breaker and the guards\<close>

definition set_breaker :: "string \<Rightarrow> 'b \<Rightarrow> 'b connection_pool \<Rightarrow> 'b connection_pool" where
  "set_breaker i b p =
     (case map_of (cp_clients p) i of
        None \<Rightarrow> p
      | Some pc \<Rightarrow> p\<lparr>cp_clients := AList.update i (pc\<lparr>pc_breaker := b\<rparr>) (cp_clients p)\<rparr>)"

lemma guarded_admitted:
  assumes "\<not> cp_closed p" and "map_of (cp_clients p) (dev_ID d) = Some pc" and "cl_connected (pc_client pc)"
    and "pe_admit P (pc_breaker pc) w = ((refused, b), w1)"
  shows "guarded P d nothing request (p, w) =
    bnd (case refused of
           Some r \<Rightarrow> ret (Inl r)
         | None \<Rightarrow> bnd_run (on_pooled (dev_ID d) request) (\<lambda>r. case r of
             Val (a, err) \<Rightarrow> bnd (record_outcome P (dev_ID d) (err = None)) (\<lambda>_. ret (Inr (a, err)))
           | Panic m \<Rightarrow> bnd (record_outcome P (dev_ID d) False) (\<lambda>_. panic m)))
      (\<lambda>result. case result of
         Inl OpenState \<Rightarrow> ret (nothing, Some (Sentinel (ConnE ErrCircuitBreakerOpen)))
       | Inl TooManyRequests \<Rightarrow> ret (nothing, Some too_many_requests)
       | Inr (a, Some e) \<Rightarrow> ret (nothing, Some e)
       | Inr (a, None) \<Rightarrow> ret (a, None)) (set_breaker (dev_ID d) b p, w1)"
proof -
  have "GetClient P d (p, w) = (Val None, (p, w))"
    using assms(1-3) by (simp add: GetClient_def run_simps IsConnected_def)
  moreover have "admit P (dev_ID d) (p, w) = (Val refused, (set_breaker (dev_ID d) b p, w1))"
    using assms(2,4) by (simp add: admit_def run_simps upd_pooled_def set_breaker_def)
  ultimately show ?thesis
    using assms(2) by (simp add: guarded_def Execute_def run_simps bnd_def)
qed

text \<open>
  When a device's breaker refuses, no request reaches the device: the client and every other
  entry are untouched, and the caller is told that the breaker is open (when it only limits the
  trial requests of its half-open state, the caller gets the package's own error instead).
\<close>

theorem refused_request_reaches_no_device:
  assumes "\<not> cp_closed p" and "map_of (cp_clients p) (dev_ID d) = Some pc" and "cl_connected (pc_client pc)"
    and "pe_admit P (pc_breaker pc) w = ((Some r, b), w')"
  shows "pool_WriteTag P d t v (p, w) =
      (Val ((), Some (case r of OpenState \<Rightarrow> Sentinel (ConnE ErrCircuitBreakerOpen) | TooManyRequests \<Rightarrow> too_many_requests)),
       (set_breaker (dev_ID d) b p, w')) \<and>
    pool_ReadTags P d ts (p, w) =
      (Val ([], Some (case r of OpenState \<Rightarrow> Sentinel (ConnE ErrCircuitBreakerOpen) | TooManyRequests \<Rightarrow> too_many_requests)),
       (set_breaker (dev_ID d) b p, w')) \<and>
    map_option pc_client (map_of (cp_clients (set_breaker (dev_ID d) b p)) i) =
      map_option pc_client (map_of (cp_clients p) i)"
  using assms(2)
  by (cases r) (simp_all add: pool_WriteTag_def pool_ReadTags_def guarded_admitted [OF assms]
      run_simps set_breaker_def AList.update_conv')

theorem refused_request_reaches_no_device_witness:
  "pool_WriteTag sample_pool_env sample_device sample_ready (VInt 1) (sample_pool 3, 0) =
      (Val ((), Some (Sentinel (ConnE ErrCircuitBreakerOpen))), (set_breaker ''plc1'' 3 (sample_pool 3), 0)) \<and>
   pool_ReadTags sample_pool_env sample_device [sample_ready] (sample_pool 3, 0) =
      (Val ([], Some (Sentinel (ConnE ErrCircuitBreakerOpen))), (set_breaker ''plc1'' 3 (sample_pool 3), 0)) \<and>
   map_option pc_client (map_of (cp_clients (set_breaker ''plc1'' 3 (sample_pool 3))) ''plc1'') = Some sample_client"
proof -
  have "pe_admit sample_pool_env (pc_breaker (sample_entry 3)) 0 = ((Some OpenState, 3), 0)"
    by (simp add: sample_pool_env_def sample_pool_entry)
  moreover have "dev_ID sample_device = ''plc1''" by (simp add: sample_device_def)
  ultimately show ?thesis
    using refused_request_reaches_no_device [where p = "sample_pool 3" and d = sample_device and
        pc = "sample_entry 3" and P = sample_pool_env and r = OpenState and t = sample_ready and
        v = "VInt 1" and ts = "[sample_ready]" and i = "''plc1''" and w = 0 and b = 3 and w' = 0]
      sample_pool_entry(2) [of 3]
    by (simp add: sample_pool_entry(1,3-) sample_client_fields)
qed

text \<open>
  A polling read through the pool is always recorded as a success by the breaker, even when the
  device is dead and every point is bad: the breaker cannot open on polling reads.
\<close>

theorem polling_reads_count_as_success:
  assumes "\<not> cp_closed p" and "map_of (cp_clients p) (dev_ID d) = Some pc" and "cl_connected (pc_client pc)"
    and "pe_admit P (pc_breaker pc) w = ((None, b), w1)"
    and "walks_map (pe_modbus P)" and "\<forall>t\<in>set tags. modbus_ready t" and "diagnostics_ok (pc_client pc)"
  shows "\<exists>dps p' w' pc' w2. pool_ReadTags P d tags (p, w) = (Val (dps, None), (p', w')) \<and>
    mset (map dp_TagID dps) = mset (map tag_ID tags) \<and>
    map_of (cp_clients p') (dev_ID d) = Some pc' \<and> pc_breaker pc' = fst (pe_record P True b w2)"
proof -
  from ReadTags_one_point [OF assms(5-7), of w1] obtain dps c' w2 where
    read: "ReadTags (pe_modbus P) tags (pc_client pc, w1) = (Val (dps, None), (c', w2))"
      "mset (map dp_TagID dps) = mset (map tag_ID tags)" by blast
  obtain b' w3 where rec: "pe_record P True b w2 = (b', w3)" by fastforce
  show ?thesis
    using assms(2) read(1) rec
    by (intro exI [of _ dps] exI [of _ "p\<lparr>cp_clients := AList.update (dev_ID d) (pc\<lparr>pc_client := c', pc_breaker := b'\<rparr>) (cp_clients p)\<rparr>"]
        exI [of _ w3] exI [of _ "pc\<lparr>pc_client := c', pc_breaker := b'\<rparr>"] exI [of _ w2])
      (simp add: pool_ReadTags_def guarded_admitted [OF assms(1-4)] bnd_run_def on_pooled_def
        set_breaker_def run_simps record_outcome_def upd_pooled_def AList.update_conv' read(2) del: mset_map)
qed

theorem polling_reads_count_as_success_witness:
  "\<exists>dps p' w' pc' w2. pool_ReadTags (sample_pool_env\<lparr>pe_modbus := failing_env\<rparr>) sample_device [sample_ready]
      (sample_pool 2, 0) = (Val (dps, None), (p', w')) \<and>
    mset (map dp_TagID dps) = mset (map tag_ID [sample_ready]) \<and>
    map_of (cp_clients p') (dev_ID sample_device) = Some pc' \<and>
    pc_breaker pc' = fst (pe_record (sample_pool_env\<lparr>pe_modbus := failing_env\<rparr>) True 2 w2)"
proof -
  have "walks_map failing_env" using sample_walks by (simp add: walks_map_def failing_env_def)
  moreover have "pe_admit (sample_pool_env\<lparr>pe_modbus := failing_env\<rparr>) (pc_breaker (sample_entry 2)) 0 = ((None, 2), 0)"
    by (simp add: sample_pool_env_def sample_pool_entry)
  ultimately show ?thesis
    using polling_reads_count_as_success [of "sample_pool 2" sample_device "sample_entry 2"
        "sample_pool_env\<lparr>pe_modbus := failing_env\<rparr>" 0 2 0 "[sample_ready]"]
    by (simp add: sample_pool_entry sample_tags_ready sample_diagnostics sample_client_fields)
qed

section \<open>Reaping\<close>

lemma Disconnect_returns: "\<exists>c' w'. Disconnect E (c, w) = (Val None, (c', w'))"
proof (cases "cl_connected c \<and> cl_handler c")
  case True
  then show ?thesis by (auto simp: Disconnect_def run_simps bnd_assoc split: prod.split)
next
  case False
  then show ?thesis by (auto simp: Disconnect_def run_simps bnd_assoc)
qed

definition reaped :: "pool_config \<Rightarrow> int \<Rightarrow> 'b pooled_client \<Rightarrow> bool" where
  "reaped k now pc \<longleftrightarrow> is_idle k now pc \<or> is_expired k now pc"

lemma reap_run:
  assumes "distinct (map fst (cp_clients p))"
  shows "\<exists>w'. reap P now ids (p, w) = (Val (), (p\<lparr>cp_clients :=
     filter (\<lambda>(i, pc). \<not> (i \<in> set ids \<and> reaped (cp_config p) now pc)) (cp_clients p)\<rparr>, w'))"
  using assms
proof (induction ids arbitrary: p w)
  case Nil
  have "filter (\<lambda>(i, pc). True) xs = xs" for xs :: "(string \<times> 'b pooled_client) list" by simp
  then show ?case by (simp add: run_simps)
next
  case (Cons i ids)
  show ?case
  proof (cases "\<exists>pc. map_of (cp_clients p) i = Some pc \<and> reaped (cp_config p) now pc")
    case True
    then obtain pc where pc: "map_of (cp_clients p) i = Some pc" "reaped (cp_config p) now pc" by blast
    obtain c' w1 where disc: "Disconnect (pe_modbus P) (pc_client pc, w) = (Val None, (c', w1))"
      using Disconnect_returns [of "pe_modbus P" "pc_client pc" w] by blast
    let ?p = "delete_client i p"
    have d: "distinct (map fst (cp_clients ?p))"
      using Cons.prems by (simp add: delete_client_def AList.distinct_delete)
    have "reap P now (i # ids) (p, w) = reap P now ids (?p, w1)"
      using pc disc by (simp add: run_simps bnd_assoc on_pooled_def reaped_def bnd_def upd_def
          delete_client_def AList.delete_update_same field_def)
    moreover have "filter (\<lambda>(j, q). \<not> (j \<in> set ids \<and> reaped (cp_config p) now q)) (AList.delete i (cp_clients p)) =
        filter (\<lambda>(j, q). \<not> (j \<in> set (i # ids) \<and> reaped (cp_config p) now q)) (cp_clients p)"
      unfolding AList.delete_eq filter_filter
    proof (rule filter_cong [OF refl], clarify)
      fix j q assume "(j, q) \<in> set (cp_clients p)"
      then have "map_of (cp_clients p) j = Some q" using Cons.prems by simp
      with pc show "(i \<noteq> j \<and> \<not> (j \<in> set ids \<and> reaped (cp_config p) now q)) =
          (\<not> (j \<in> set (i # ids) \<and> reaped (cp_config p) now q))" by auto
    qed
    ultimately show ?thesis using Cons.IH [OF d, of w1] by (auto simp: delete_client_def)
  next
    case False
    then have "reap P now (i # ids) (p, w) = reap P now ids (p, w)"
      by (auto simp: run_simps reaped_def split: option.split)
    moreover have "filter (\<lambda>(j, q). \<not> (j \<in> set ids \<and> reaped (cp_config p) now q)) (cp_clients p) =
        filter (\<lambda>(j, q). \<not> (j \<in> set (i # ids) \<and> reaped (cp_config p) now q)) (cp_clients p)"
    proof (rule filter_cong [OF refl], clarify)
      fix j q assume "(j, q) \<in> set (cp_clients p)"
      then have "map_of (cp_clients p) j = Some q" using Cons.prems by simp
      with False show "(\<not> (j \<in> set ids \<and> reaped (cp_config p) now q)) =
          (\<not> (j \<in> set (i # ids) \<and> reaped (cp_config p) now q))" by auto
    qed
    ultimately show ?thesis using Cons.IH [OF Cons.prems, of w] by simp
  qed
qed

text \<open>
  One pass of the idle reaper removes exactly the clients that were idle longer than
  \<open>IdleTimeout\<close> or lived longer than a positive \<open>MaxTTL\<close>, whatever the order of the map walk; the
  others, and their order, stay.
\<close>

theorem reaper_removes_exactly_the_expired:
  assumes "distinct (map fst (cp_clients p))"
    and "\<forall>ids w. set (fst (pe_order P ids w)) = set ids"
  shows "\<exists>w'. reapIdleConnections P (p, w) = (Val (), (p\<lparr>cp_clients :=
     filter (\<lambda>(i, pc). \<not> (pl_IdleTimeout (cp_config p) < time_Sub (fst (env_Now (pe_modbus P) w)) (cl_lastUsed (pc_client pc)) \<or>
        0 < pl_MaxTTL (cp_config p) \<and>
        pl_MaxTTL (cp_config p) < time_Sub (fst (env_Now (pe_modbus P) w)) (pc_createdAt pc))) (cp_clients p)\<rparr>, w'))"
proof -
  obtain now w1 where now: "env_Now (pe_modbus P) w = (now, w1)" by fastforce
  obtain ids w2 where order: "pe_order P (map fst (cp_clients p)) w1 = (ids, w2)" by fastforce
  with assms(2) have ids: "set ids = fst ` set (cp_clients p)" by (metis fst_conv set_map)
  have "filter (\<lambda>(i, pc). \<not> (i \<in> set ids \<and> reaped (cp_config p) now pc)) (cp_clients p) =
      filter (\<lambda>(i, pc). \<not> reaped (cp_config p) now pc) (cp_clients p)"
    by (rule filter_cong [OF refl]) (force simp: ids)
  moreover obtain w' where "reap P now ids (p, w2) = (Val (), (p\<lparr>cp_clients :=
     filter (\<lambda>(i, pc). \<not> (i \<in> set ids \<and> reaped (cp_config p) now pc)) (cp_clients p)\<rparr>, w'))"
    using reap_run [OF assms(1), of P now ids w2] by blast
  ultimately show ?thesis
    by (intro exI [of _ w']) (simp add: reapIdleConnections_def walk_clients_def run_simps now order bnd_assoc
        reaped_def is_idle_def is_expired_def)
qed

theorem reaper_removes_exactly_the_expired_witness:
  "\<exists>w'. reapIdleConnections sample_pool_env (sample_pool 0, 10 ^ 12) =
     (Val (), ((sample_pool 0)\<lparr>cp_clients := []\<rparr>, w'))"
  using reaper_removes_exactly_the_expired [of "sample_pool 0" sample_pool_env "10 ^ 12"]
  by (simp add: sample_pool_def sample_pool_env_def sample_env_def DefaultPoolConfig_def sample_entry_def
      sample_client_def time_Sub_def)

end
