(* ===== verification/ProtocolManager.thy ===== *)
theory ProtocolManager
  imports ModbusPool
begin

text \<open>
  The protocol manager (\<open>internal/domain/protocol.go\<close>): the interface \<open>ProtocolPool\<close> as a record of
  functions on the state \<open>'s\<close> of everything behind the pools, and the routing by a device's
  protocol. The locale \<open>tag_reader\<close> is what callers rely on in \<open>ReadTags\<close>; the Modbus pool provides
  it, and a manager provides it when its pools do.
\<close>

section \<open>The interface and the manager\<close>

record 's protocol_pool =
  pp_ReadTags :: "device \<Rightarrow> tag list \<Rightarrow> ('s, data_point list \<times> gerror option) prog"
  pp_ReadTag :: "device \<Rightarrow> tag \<Rightarrow> ('s, data_point option \<times> gerror option) prog"
  pp_WriteTag :: "device \<Rightarrow> tag \<Rightarrow> goval \<Rightarrow> ('s, gerror option) prog"
  pp_Close :: "('s, gerror option) prog"
  pp_HealthCheck :: "('s, gerror option) prog"

record 's protocol_manager =
  pm_pools :: "(protocol \<times> 's protocol_pool) list"

definition NewProtocolManager :: "'s protocol_manager" where
  "NewProtocolManager = \<lparr>pm_pools = []\<rparr>"

definition RegisterPool :: "protocol \<Rightarrow> 's protocol_pool \<Rightarrow> 's protocol_manager \<Rightarrow> 's protocol_manager" where
  "RegisterPool p pool pm = pm\<lparr>pm_pools := AList.update p pool (pm_pools pm)\<rparr>"

definition GetPool :: "'s protocol_manager \<Rightarrow> protocol \<Rightarrow> 's protocol_pool option" where
  "GetPool pm p = map_of (pm_pools pm) p"

definition not_supported :: gerror where
  "not_supported = Sentinel (ServiceE ErrProtocolNotSupported)"

definition pm_ReadTags ::
  "'s protocol_manager \<Rightarrow> device \<Rightarrow> tag list \<Rightarrow> ('s, data_point list \<times> gerror option) prog" where
  "pm_ReadTags pm d tags =
     (case GetPool pm (dev_Protocol d) of
        None \<Rightarrow> ret ([], Some not_supported)
      | Some pool \<Rightarrow> pp_ReadTags pool d tags)"

definition pm_ReadTag ::
  "'s protocol_manager \<Rightarrow> device \<Rightarrow> tag \<Rightarrow> ('s, data_point option \<times> gerror option) prog" where
  "pm_ReadTag pm d t =
     (case GetPool pm (dev_Protocol d) of
        None \<Rightarrow> ret (None, Some not_supported)
      | Some pool \<Rightarrow> pp_ReadTag pool d t)"

definition pm_WriteTag ::
  "'s protocol_manager \<Rightarrow> device \<Rightarrow> tag \<Rightarrow> goval \<Rightarrow> ('s, gerror option) prog" where
  "pm_WriteTag pm d t value =
     (case GetPool pm (dev_Protocol d) of
        None \<Rightarrow> ret (Some not_supported)
      | Some pool \<Rightarrow> pp_WriteTag pool d t value)"

text \<open>
  \<open>Close\<close> walks the map in any order (here: a list of its keys), deletes every pool and joins the
  errors; \<open>errors.Join\<close> of no error is nil, so the list stands for the joined error.
\<close>

fun close_pools :: "'s protocol_manager \<Rightarrow> protocol list \<Rightarrow> ('s, gerror list) prog" where
  "close_pools pm [] = ret []"
| "close_pools pm (p # ps) =
     bnd (case GetPool pm p of None \<Rightarrow> ret None | Some pool \<Rightarrow> pp_Close pool) (\<lambda>err.
     bnd (close_pools pm ps) (\<lambda>errs.
     ret (case err of
            Some e \<Rightarrow> WrapW (''close '' @ protocol_text p @ '' pool'') e # errs
          | None \<Rightarrow> errs)))"

definition pm_Close :: "protocol list \<Rightarrow> 's protocol_manager \<Rightarrow> ('s, gerror list \<times> 's protocol_manager) prog" where
  "pm_Close order pm =
     bnd (close_pools pm order) (\<lambda>errs.
     ret (errs, pm\<lparr>pm_pools := filter (\<lambda>(p, pool). p \<notin> set order) (pm_pools pm)\<rparr>))"

fun pm_HealthCheck :: "'s protocol_manager \<Rightarrow> protocol list \<Rightarrow> ('s, gerror option) prog" where
  "pm_HealthCheck pm [] = ret None"
| "pm_HealthCheck pm (p # ps) =
     bnd (case GetPool pm p of None \<Rightarrow> ret None | Some pool \<Rightarrow> pp_HealthCheck pool) (\<lambda>err.
     case err of Some e \<Rightarrow> ret (Some e) | None \<Rightarrow> pm_HealthCheck pm ps)"

definition RegisteredProtocols :: "'s protocol_manager \<Rightarrow> protocol list" where
  "RegisteredProtocols pm = map fst (pm_pools pm)"

text \<open>The Modbus pool behind the interface.\<close>

definition modbus_pool :: "('w, 'b) pool_env \<Rightarrow> ('b connection_pool \<times> 'w) protocol_pool" where
  "modbus_pool P =
     \<lparr>pp_ReadTags = pool_ReadTags P, pp_ReadTag = pool_ReadTag P,
      pp_WriteTag = \<lambda>d t v. bnd (pool_WriteTag P d t v) (\<lambda>r. ret (snd r)),
      pp_Close = Close P, pp_HealthCheck = field HealthCheck\<rparr>"

section \<open>What a caller relies on\<close>

text \<open>
  Reading valid tags returns, without a panic: either an error and no point, or one point for each
  tag; and the state stays one in which this holds.
\<close>

definition answer_ok :: "tag list \<Rightarrow> data_point list \<times> gerror option \<Rightarrow> bool" where
  "answer_ok tags r \<longleftrightarrow>
     (case snd r of
        None \<Rightarrow> mset (map dp_TagID (fst r)) = mset (map tag_ID tags)
      | Some e \<Rightarrow> fst r = [])"

locale tag_reader =
  fixes read :: "device \<Rightarrow> tag list \<Rightarrow> ('s, data_point list \<times> gerror option) prog"
    and good :: "'s \<Rightarrow> bool"
    and ready :: "tag \<Rightarrow> bool"
  assumes answers: "\<forall>t\<in>set tags. ready t \<Longrightarrow> yields good (read d tags) (answer_ok tags)"
begin

lemma no_panic: "\<forall>t\<in>set tags. ready t \<Longrightarrow> good s \<Longrightarrow> fst (read d tags s) \<noteq> Panic m"
  using answers [of tags d] unfolding yields_def by fastforce

lemma point_has_tag:
  assumes "\<forall>t\<in>set tags. ready t" and "good s" and "read d tags s = (Val (dps, err), s')" and "dp \<in> set dps"
  shows "\<exists>t\<in>set tags. tag_ID t = dp_TagID dp"
proof -
  from answers [OF assms(1), of d] assms(2,3) have "answer_ok tags (dps, err)"
    unfolding yields_def by fastforce
  with assms(4) have "mset (map dp_TagID dps) = mset (map tag_ID tags)"
    by (auto simp: answer_ok_def split: option.splits)
  then have "set (map dp_TagID dps) = set (map tag_ID tags)" by (rule mset_eq_setD)
  with assms(4) show ?thesis by (metis (no_types, lifting) imageE image_eqI set_map)
qed

lemma count_points:
  assumes "\<forall>t\<in>set tags. ready t" and "good s" and "read d tags s = (Val (dps, None), s')"
  shows "length dps = length tags"
proof -
  from answers [OF assms(1), of d] assms(2,3) have "answer_ok tags (dps, None)"
    unfolding yields_def by fastforce
  then have "size (mset (map dp_TagID dps)) = size (mset (map tag_ID tags))"
    by (simp add: answer_ok_def)
  then show ?thesis by simp
qed

end

section \<open>The Modbus pool provides it\<close>

definition all_diagnostics_ok :: "'b connection_pool \<Rightarrow> bool" where
  "all_diagnostics_ok p \<longleftrightarrow> (\<forall>e\<in>set (cp_clients p). diagnostics_ok (pc_client (snd e)))"

definition modbus_good :: "('w, 'b) pool_env \<Rightarrow> 'b connection_pool \<times> 'w \<Rightarrow> bool" where
  "modbus_good P s \<longleftrightarrow> walks_map (pe_modbus P) \<and> all_diagnostics_ok (fst s)"

lemma Connect_yields: "yields (on_client diagnostics_ok) (Connect E) (\<lambda>_. True)"
proof (rule yieldsI)
  fix s :: "client \<times> 'a" assume "on_client diagnostics_ok s"
  then show "\<exists>a s'. Connect E s = (Val a, s') \<and> on_client diagnostics_ok s' \<and> True"
    by (cases s) (auto simp: Connect_def run_simps on_client_def diagnostics_ok_def
        split: prod.split dial_outcome.split)
qed

lemma diagnostics_ok_update:
  assumes "all_diagnostics_ok p" and "diagnostics_ok (pc_client pc)"
  shows "all_diagnostics_ok (p\<lparr>cp_clients := AList.update i pc (cp_clients p)\<rparr>)"
  using assms set_AList_update [of i pc "cp_clients p"] by (force simp: all_diagnostics_ok_def)

text \<open>The entry of a device is there, and all diagnostics are in order.\<close>

definition entry_there :: "string \<Rightarrow> 'b connection_pool \<Rightarrow> bool" where
  "entry_there i p \<longleftrightarrow> map_of (cp_clients p) i \<noteq> None \<and> all_diagnostics_ok p"

lemma on_pooled_yields:
  fixes m :: "('w, 'a) modbus"
  assumes "yields (on_client diagnostics_ok) m Q"
  shows "yields (on_client (entry_there i)) (on_pooled i m :: ('w, 'b, 'a) pool) Q"
proof (rule yieldsI)
  fix s :: "'b connection_pool \<times> 'w" assume s: "on_client (entry_there i) s"
  then obtain pc where pc: "map_of (cp_clients (fst s)) i = Some pc" and ok: "all_diagnostics_ok (fst s)"
    by (auto simp: on_client_def entry_there_def)
  have "diagnostics_ok (pc_client pc)"
    using map_of_SomeD [OF pc] ok by (force simp: all_diagnostics_ok_def)
  from yields_run [OF assms this, of "snd s"] obtain a c w where
    "m (pc_client pc, snd s) = (Val a, (c, w))" "diagnostics_ok c" "Q a" by blast
  with pc ok show "\<exists>a s'. on_pooled i m s = (Val a, s') \<and> on_client (entry_there i) s' \<and> Q a"
    by (auto simp: on_pooled_def on_client_def entry_there_def AList.update_conv' intro!: diagnostics_ok_update)
qed

lemma upd_pooled_yields:
  assumes "\<And>pc. pc_client (f pc) = pc_client pc"
  shows "yields (on_client (entry_there i)) (upd_pooled i f) (\<lambda>_. True)"
proof -
  have "entry_there i (case map_of (cp_clients p) i of None \<Rightarrow> p
      | Some pc \<Rightarrow> p\<lparr>cp_clients := AList.update i (f pc) (cp_clients p)\<rparr>)" if "entry_there i p" for p
  proof -
    from that obtain pc where pc: "map_of (cp_clients p) i = Some pc" and ok: "all_diagnostics_ok p"
      by (auto simp: entry_there_def)
    have "diagnostics_ok (pc_client (f pc))"
      using map_of_SomeD [OF pc] ok by (force simp: all_diagnostics_ok_def assms)
    from diagnostics_ok_update [OF ok this] pc show ?thesis
      by (simp add: entry_there_def AList.update_conv')
  qed
  then show ?thesis unfolding upd_pooled_def by (rule on_client_yields(3))
qed

lemma entry_lookup_yields:
  "yields (on_client (entry_there i)) (field (\<lambda>p. map_of (cp_clients p) i)) (\<lambda>entry. entry \<noteq> None)"
  by (rule field_yields) (simp add: entry_there_def)

lemma Execute_yields:
  fixes request :: "('w, 'a \<times> gerror option) modbus" and P :: "('w, 'b) pool_env"
  assumes "yields (on_client diagnostics_ok) request Q"
  shows "yields (on_client (entry_there i)) (Execute P i request)
    (\<lambda>r. case r of Inl _ \<Rightarrow> True | Inr x \<Rightarrow> Q x)"
proof -
  let ?E = "on_client (entry_there i) :: 'b connection_pool \<times> 'w \<Rightarrow> bool"
  have admit: "yields ?E (admit P i) (\<lambda>_. True)"
    unfolding admit_def
    by (rule yields_bnd [OF entry_lookup_yields], rule yields_option, simp,
        rule yields_bnd [OF on_client_yields(2)], clarify, rule yields_bnd [OF upd_pooled_yields])
      (auto intro: yields_ret)
  have rec: "yields ?E (record_outcome P i b) (\<lambda>_. True)" for b
    unfolding record_outcome_def
    by (rule yields_bnd [OF entry_lookup_yields], rule yields_option, simp,
        rule yields_bnd [OF on_client_yields(2)], rule upd_pooled_yields) simp
  have run: "yields ?E (bnd_run (on_pooled i request) (\<lambda>r. case r of
      Val (a, err) \<Rightarrow> bnd (record_outcome P i (err = None)) (\<lambda>_. ret (Inr (a, err)))
    | Panic p \<Rightarrow> bnd (record_outcome P i False) (\<lambda>_. panic p)))
    (\<lambda>r. case r of Inl _ \<Rightarrow> True | Inr x \<Rightarrow> Q x)"
  proof (rule yieldsI)
    fix s assume "?E s"
    with on_pooled_yields [OF assms] obtain a err s' where
      1: "on_pooled i request s = (Val (a, err), s')" "?E s'" "Q (a, err)"
      by (metis yieldsE surj_pair)
    from rec [of "err = None"] 1(2) obtain u s'' where "record_outcome P i (err = None) s' = (Val u, s'')" "?E s''"
      by (rule yieldsE)
    with 1 show "\<exists>a s'. bnd_run (on_pooled i request) (\<lambda>r. case r of
        Val (a, err) \<Rightarrow> bnd (record_outcome P i (err = None)) (\<lambda>_. ret (Inr (a, err)))
      | Panic p \<Rightarrow> bnd (record_outcome P i False) (\<lambda>_. panic p)) s = (Val a, s') \<and> ?E s' \<and>
      (case a of Inl _ \<Rightarrow> True | Inr x \<Rightarrow> Q x)"
      by (auto simp: bnd_run_def bnd_def ret_def)
  qed
  show ?thesis
    unfolding Execute_def
    by (rule yields_bnd [OF admit], rule yields_option, rule run, rule yields_ret) simp
qed

definition got_client :: "device \<Rightarrow> gerror option run \<times> 'b connection_pool \<times> 'w \<Rightarrow> bool" where
  "got_client d out \<longleftrightarrow> (\<exists>r p w. out = (Val r, (p, w)) \<and> all_diagnostics_ok p \<and>
     (r = None \<longrightarrow> map_of (cp_clients p) (dev_ID d) \<noteq> None))"

lemma GetClient_new:
  fixes P :: "('w, 'b) pool_env"
  assumes "all_diagnostics_ok p" and "map_of (cp_clients p) (dev_ID d) = None"
  shows "got_client d (GetClient P d (p, w))"
proof -
  obtain n w1 where now: "env_Now (pe_modbus P) w = (n, w1)" by fastforce
  let ?new = "NewClient (dev_ID d) (client_settings (cp_config p) d) n"
  have ok: "diagnostics_ok c" if "?new = Inr c" for c
    using that by (auto simp: NewClient_def diagnostics_ok_def split: if_splits)
  show ?thesis
  proof (cases ?new)
    case (Inl e)
    with now assms show ?thesis
      by (simp add: GetClient_def createClient_def run_simps bnd_def ret_def got_client_def)
  next
    case (Inr c)
    from yields_run [OF Connect_yields [of "pe_modbus P"] ok [OF Inr], of w1] obtain e c' w2 where
      c: "Connect (pe_modbus P) (c, w1) = (Val e, (c', w2))" "diagnostics_ok c'" by blast
    obtain m w3 where "env_Now (pe_modbus P) w2 = (m, w3)" by fastforce
    with c now Inr assms diagnostics_ok_update [OF assms(1)] show ?thesis
      by (cases e) (simp_all add: GetClient_def createClient_def run_simps bnd_def ret_def
          on_client_value_def AList.update_conv' got_client_def)
  qed
qed

lemma GetClient_old:
  fixes P :: "('w, 'b) pool_env"
  assumes "all_diagnostics_ok p" and pc: "map_of (cp_clients p) (dev_ID d) = Some pc"
  shows "got_client d (GetClient P d (p, w))"
proof -
  let ?re = "bnd (on_pooled (dev_ID d) (Connect (pe_modbus P))) (\<lambda>err.
         case err of
           Some e \<Rightarrow> bnd (upd_pooled (dev_ID d) (pc_lastError_update (\<lambda>_. Some e))) (\<lambda>_. ret (Some e))
         | None \<Rightarrow> ret None)"
  have there: "on_client (entry_there (dev_ID d)) (p, w)"
    using assms by (simp add: on_client_def entry_there_def)
  have "yields (on_client (entry_there (dev_ID d))) ?re (\<lambda>_. True)"
    by (rule yields_bnd [OF on_pooled_yields [OF Connect_yields]], rule yields_option, simp add: yields_ret,
        rule yields_bnd [OF upd_pooled_yields], simp, simp add: yields_ret)
  from this there obtain r s' where re: "?re (p, w) = (Val r, s')" "on_client (entry_there (dev_ID d)) s'"
    by (rule yieldsE)
  have "GetClient P d (p, w) =
      (if cp_closed p then ret (Some (Sentinel (ServiceE ErrServiceStopped))) (p, w)
       else if IsConnected (pc_client pc) then ret None (p, w) else ?re (p, w))"
    by (simp add: GetClient_def run_simps pc)
  with re assms show ?thesis
    by (cases s') (simp add: got_client_def on_client_def entry_there_def run_simps)
qed

lemma GetClient_yields:
  fixes P :: "('w, 'b) pool_env"
  assumes "all_diagnostics_ok p"
  obtains r p' w' where "GetClient P d (p, w) = (Val r, (p', w'))" "all_diagnostics_ok p'"
    "r = None \<longrightarrow> map_of (cp_clients p') (dev_ID d) \<noteq> None"
proof -
  have "got_client d (GetClient P d (p, w))"
    by (cases "map_of (cp_clients p) (dev_ID d)") (erule GetClient_new [OF assms] GetClient_old [OF assms])+
  then show thesis by (auto simp: got_client_def intro: that)
qed

lemma guarded_yields:
  fixes request :: "('w, 'a \<times> gerror option) modbus" and P :: "('w, 'b) pool_env"
  assumes "yields (on_client diagnostics_ok) request Q" and "\<And>e. R (nothing, Some e)"
    and "\<And>a. Q (a, None) \<Longrightarrow> R (a, None)"
  shows "yields (on_client all_diagnostics_ok) (guarded P d nothing request) R"
proof (rule yieldsI)
  fix s :: "'b connection_pool \<times> 'w" assume s: "on_client all_diagnostics_ok s"
  obtain p w where pw: "s = (p, w)" by (cases s)
  from s have "all_diagnostics_ok p" by (simp add: pw on_client_def)
  then obtain r p' w' where get: "GetClient P d (p, w) = (Val r, (p', w'))" "all_diagnostics_ok p'"
      "r = None \<longrightarrow> map_of (cp_clients p') (dev_ID d) \<noteq> None"
    by (rule GetClient_yields)
  show "\<exists>a s'. guarded P d nothing request s = (Val a, s') \<and> on_client all_diagnostics_ok s' \<and> R a"
  proof (cases r)
    case (Some e)
    with get assms(2) show ?thesis by (simp add: guarded_def pw run_simps on_client_def)
  next
    case None
    with get have "on_client (entry_there (dev_ID d)) (p', w')" by (simp add: on_client_def entry_there_def)
    from yieldsE [OF Execute_yields [OF assms(1), of "dev_ID d" P] this] obtain x s'' where
      x: "Execute P (dev_ID d) request (p', w') = (Val x, s'')" "on_client (entry_there (dev_ID d)) s''"
        "case x of Inl _ \<Rightarrow> True | Inr y \<Rightarrow> Q y" by blast
    from x(2) have "on_client all_diagnostics_ok s''" by (simp add: on_client_def entry_there_def)
    with None get x assms(2,3) show ?thesis
      by (cases s'') (auto simp: guarded_def pw run_simps split: sum.split refusal.split option.split)
  qed
qed

lemma pool_ReadTags_answers:
  fixes P :: "('a, 'b) pool_env"
  assumes "walks_map (pe_modbus P)" and "\<forall>t\<in>set tags. modbus_ready t"
  shows "yields (on_client all_diagnostics_ok) (pool_ReadTags P d tags) (answer_ok tags)"
  unfolding pool_ReadTags_def
proof (rule guarded_yields)
  show "yields (on_client diagnostics_ok) (ReadTags (pe_modbus P) tags)
      (\<lambda>(dps, err). err = None \<and> mset (map dp_TagID dps) = mset (map tag_ID tags))"
  proof (rule yieldsI)
    fix s :: "client \<times> 'a" assume "on_client diagnostics_ok s"
    then show "\<exists>a s'. ReadTags (pe_modbus P) tags s = (Val a, s') \<and> on_client diagnostics_ok s' \<and>
        (case a of (dps, err) \<Rightarrow> err = None \<and> mset (map dp_TagID dps) = mset (map tag_ID tags))"
      using ReadTags_one_point [OF assms, of "fst s" "snd s"] by (auto simp: on_client_def)
  qed
qed (simp_all add: answer_ok_def)

interpretation modbus: tag_reader "pool_ReadTags P" "modbus_good P" modbus_ready for P
proof
  fix tags d assume "\<forall>t\<in>set tags. modbus_ready t"
  then show "yields (modbus_good P) (pool_ReadTags P d tags) (answer_ok tags)"
    using pool_ReadTags_answers [of P tags d]
    by (cases "walks_map (pe_modbus P)") (auto simp: yields_def modbus_good_def on_client_def)
qed


section \<open>The manager provides it when its pools do\<close>

lemma GetPool_RegisterPool [simp]:
  "GetPool (RegisterPool p pool pm) q = (if p = q then Some pool else GetPool pm q)"
  by (simp add: GetPool_def RegisterPool_def AList.update_conv')

lemma GetPool_New [simp]: "GetPool NewProtocolManager q = None"
  by (simp add: GetPool_def NewProtocolManager_def)

lemma manager_tag_reader:
  assumes "\<And>p pool. GetPool pm p = Some pool \<Longrightarrow> tag_reader (pp_ReadTags pool) good ready"
  shows "tag_reader (pm_ReadTags pm) good ready"
proof
  fix tags d assume ready: "\<forall>t\<in>set tags. ready t"
  show "yields good (pm_ReadTags pm d tags) (answer_ok tags)"
    unfolding pm_ReadTags_def
    by (rule yields_option)
      (simp_all add: yields_ret answer_ok_def tag_reader.answers [OF assms ready])
qed

text \<open>The manager with the Modbus pool under both Modbus protocols, as the gateway's start registers it.\<close>

definition modbus_manager :: "('w, 'b) pool_env \<Rightarrow> ('b connection_pool \<times> 'w) protocol_manager" where
  "modbus_manager P =
     RegisterPool ProtocolModbusRTU (modbus_pool P)
       (RegisterPool ProtocolModbusTCP (modbus_pool P) NewProtocolManager)"

interpretation manager: tag_reader "pm_ReadTags (modbus_manager P)" "modbus_good P" modbus_ready for P
  by (rule manager_tag_reader)
    (auto simp: modbus_manager_def modbus_pool_def modbus.tag_reader_axioms split: if_splits)

text \<open>All pools the gateway's start registers, the OPC UA and S7 pools as parameters.\<close>

definition gateway_manager ::
  "('w, 'b) pool_env \<Rightarrow> ('b connection_pool \<times> 'w) protocol_pool \<Rightarrow> ('b connection_pool \<times> 'w) protocol_pool \<Rightarrow>
   ('b connection_pool \<times> 'w) protocol_manager" where
  "gateway_manager P opcua s7 =
     RegisterPool ProtocolS7 s7 (RegisterPool ProtocolOPCUA opcua (modbus_manager P))"

lemma gateway_routes:
  "dev_Protocol d = ProtocolModbusTCP \<or> dev_Protocol d = ProtocolModbusRTU \<Longrightarrow>
     pm_ReadTags (gateway_manager P opcua s7) d tags = pool_ReadTags P d tags"
  "dev_Protocol d \<notin> {ProtocolModbusTCP, ProtocolModbusRTU, ProtocolOPCUA, ProtocolS7} \<Longrightarrow>
     pm_ReadTags (gateway_manager P opcua s7) d tags = ret ([], Some not_supported)"
  by (auto simp: pm_ReadTags_def gateway_manager_def modbus_manager_def modbus_pool_def)

text \<open>
  C8. Reads through the gateway's manager are answered: for validated tags of a Modbus device and
  a pool in any state whose diagnostics are in order, \<open>ReadTags\<close> returns without a panic, either one
  point per tag and no error or an error and no point, and leaves such a state. A device of a
  protocol with no pool gets \<open>ErrProtocolNotSupported\<close> and nothing changes.
\<close>

theorem manager_answers_reads:
  assumes "\<forall>t\<in>set tags. modbus_ready t" and "modbus_good P s"
    and "dev_Protocol d \<noteq> ProtocolOPCUA" and "dev_Protocol d \<noteq> ProtocolS7"
  shows "\<exists>dps err s'. pm_ReadTags (gateway_manager P opcua s7) d tags s = (Val (dps, err), s') \<and> modbus_good P s' \<and>
    (if dev_Protocol d = ProtocolModbusTCP \<or> dev_Protocol d = ProtocolModbusRTU
     then (if err = None then mset (map dp_TagID dps) = mset (map tag_ID tags) else dps = [])
     else err = Some not_supported \<and> dps = [] \<and> s' = s)"
proof (cases "dev_Protocol d = ProtocolModbusTCP \<or> dev_Protocol d = ProtocolModbusRTU")
  case True
  from modbus.answers [OF assms(1), of P d] assms(2) obtain dps err s' where
    "pool_ReadTags P d tags s = (Val (dps, err), s')" "modbus_good P s'" "answer_ok tags (dps, err)"
    unfolding yields_def by fastforce
  with True show ?thesis
    by (auto simp: gateway_routes(1) [OF True] answer_ok_def split: option.splits)
next
  case False
  with assms(3,4) have "pm_ReadTags (gateway_manager P opcua s7) d tags = ret ([], Some not_supported)"
    by (intro gateway_routes(2)) simp
  with False assms(2) show ?thesis by (simp add: run_simps)
qed

theorem manager_answers_reads_witness:
  "\<exists>dps err s'. pm_ReadTags (gateway_manager sample_pool_env (modbus_pool sample_pool_env) (modbus_pool sample_pool_env))
      sample_device [sample_ready] (sample_pool 2, 0) = (Val (dps, err), s') \<and> modbus_good sample_pool_env s' \<and>
    (if dev_Protocol sample_device = ProtocolModbusTCP \<or> dev_Protocol sample_device = ProtocolModbusRTU
     then (if err = None then mset (map dp_TagID dps) = mset (map tag_ID [sample_ready]) else dps = [])
     else err = Some not_supported \<and> dps = [] \<and> s' = (sample_pool 2, 0))"
proof (rule manager_answers_reads)
  show "modbus_good sample_pool_env (sample_pool 2, 0)"
    using sample_walks sample_diagnostics
    by (simp add: modbus_good_def all_diagnostics_ok_def sample_pool_env_def sample_pool_def sample_entry_def)
  show "dev_Protocol sample_device \<noteq> ProtocolOPCUA" "dev_Protocol sample_device \<noteq> ProtocolS7"
    by (simp_all add: sample_device_def)
qed (simp add: sample_tags_ready)

end
