(* ===== verification/Polling.thy ===== *)
theory Polling
  imports ProtocolManager
begin

text \<open>
  The polling service (\<open>internal/service/polling.go\<close>): topics, one poll cycle of a device with its
  counters and back-pressure, status publication, and the registry of devices. The protocol
  manager, the publisher and the subscription handler act on the world \<open>'w\<close>. The goroutines of
  the pollers are in \<open>PollerLoop\<close>; here each operation runs as one sequence, and metrics and
  logging are left out.
\<close>

section \<open>Topics\<close>

definition sanitizeTopicSegment :: "string \<Rightarrow> string" where
  "sanitizeTopicSegment s =
     (let s = TrimSpace s;
          s = ReplaceAll s CHR ''/'' CHR ''_'';
          s = ReplaceAll s CHR ''#'' CHR ''_'';
          s = ReplaceAll s CHR ''+'' CHR ''_'';
          s = ReplaceAll s CHR '' '' CHR ''_''
      in Trim s CHR ''_'')"

definition topicForTag :: "string \<Rightarrow> tag \<Rightarrow> string" where
  "topicForTag pre t =
     (let suffix = TrimSpace (tag_TopicSuffix t);
          suffix = (if suffix = '''' then tag_Name t else suffix);
          suffix = (if TrimSpace suffix = '''' then tag_ID t else suffix);
          suffix = sanitizeTopicSegment suffix
      in if suffix = '''' then pre else pre @ ''/'' @ suffix)"

section \<open>State\<close>

record polling_config =
  pg_WorkerCount :: int
  pg_BatchSize :: int
  pg_DefaultInterval :: int
  pg_MaxRetries :: int
  pg_ShutdownTimeout :: int

record polling_stats =
  st_TotalPolls :: u64
  st_SuccessPolls :: u64
  st_FailedPolls :: u64
  st_SkippedPolls :: u64
  st_PointsRead :: u64
  st_PointsPublished :: u64

record poller_stats =
  ds_pollCount :: u64
  ds_errorCount :: u64
  ds_skippedCount :: u64
  ds_pointsRead :: u64

record device_poller =
  dpo_device :: device
  dpo_stopClosed :: bool
  dpo_running :: bool
  dpo_subscribed :: bool
  dpo_lastPoll :: int
  dpo_lastError :: "gerror option"
  dpo_lastStatus :: string
  dpo_lastStatusAt :: int
  dpo_stats :: poller_stats

text \<open>\<open>workerPool\<close> is a channel of tokens: \<open>ps_busy\<close> counts those in it.\<close>

record polling_service =
  ps_config :: polling_config
  ps_devices :: "(string \<times> device_poller) list"
  ps_started :: bool
  ps_cancelled :: bool
  ps_spawned :: nat
  ps_busy :: nat
  ps_stats :: polling_stats

text \<open>
  \<open>po_ctxDone\<close>: whether the context given to \<open>Start\<close> has ended (\<open>Stop\<close> ends the one derived
  from it: \<open>ps_cancelled\<close>). \<open>po_prefer\<close>: the choice of \<open>select\<close>
  between two ready cases. \<open>po_exits\<close>: whether a poller's goroutine ends within the five seconds
  that \<open>stopAndResetPoller\<close> waits. A nil \<open>statusPublisher\<close> or \<open>subscriptionHandler\<close> is \<open>None\<close>.
\<close>

record 'w polling_env =
  po_manager :: "'w protocol_manager"
  po_PublishBatch :: "data_point list \<Rightarrow> ('w, gerror option) prog"
  po_Publish :: "data_point \<Rightarrow> ('w, gerror option) prog"
  po_status :: "(string \<Rightarrow> string \<Rightarrow> string \<Rightarrow> (string \<times> u64) list \<Rightarrow> ('w, gerror option) prog) option"
  po_Subscribe :: "(device \<Rightarrow> tag list \<Rightarrow> ('w, gerror option) prog) option"
  po_Unsubscribe :: "string \<Rightarrow> ('w, gerror option) prog"
  po_Now :: "'w \<Rightarrow> int \<times> 'w"
  po_ctxDone :: "'w \<Rightarrow> bool \<times> 'w"
  po_prefer :: "'w \<Rightarrow> bool \<times> 'w"
  po_exits :: "string \<Rightarrow> 'w \<Rightarrow> bool \<times> 'w"
  po_waitAll :: "'w \<Rightarrow> unit \<times> 'w"

definition positive_or :: "int \<Rightarrow> int \<Rightarrow> int" where
  "positive_or dflt n = (if n \<le> 0 then dflt else n)"

definition NewPollingService :: "polling_config \<Rightarrow> polling_service" where
  "NewPollingService config =
     \<lparr>ps_config = config\<lparr>pg_WorkerCount := positive_or 10 (pg_WorkerCount config),
                         pg_BatchSize := positive_or 50 (pg_BatchSize config),
                         pg_DefaultInterval := positive_or 1000000000 (pg_DefaultInterval config),
                         pg_ShutdownTimeout := positive_or 30000000000 (pg_ShutdownTimeout config)\<rparr>,
      ps_devices = [], ps_started = False, ps_cancelled = False, ps_spawned = 0, ps_busy = 0,
      ps_stats = \<lparr>st_TotalPolls = 0, st_SuccessPolls = 0, st_FailedPolls = 0, st_SkippedPolls = 0,
                   st_PointsRead = 0, st_PointsPublished = 0\<rparr>\<rparr>"

definition new_poller :: "device \<Rightarrow> device_poller" where
  "new_poller d =
     \<lparr>dpo_device = d, dpo_stopClosed = False, dpo_running = False, dpo_subscribed = False,
      dpo_lastPoll = zero_time, dpo_lastError = None, dpo_lastStatus = '''', dpo_lastStatusAt = zero_time,
      dpo_stats = \<lparr>ds_pollCount = 0, ds_errorCount = 0, ds_skippedCount = 0, ds_pointsRead = 0\<rparr>\<rparr>"

section \<open>Programs on a service and one of its pollers\<close>

type_synonym ('w, 'a) polling = "((polling_service \<times> device_poller) \<times> 'w, 'a) prog"

definition on_stats :: "(polling_stats \<Rightarrow> polling_stats) \<Rightarrow> ('w, unit) polling" where
  "on_stats f = upd (\<lambda>(s, dp). (s\<lparr>ps_stats := f (ps_stats s)\<rparr>, dp))"

definition on_busy :: "(nat \<Rightarrow> nat) \<Rightarrow> ('w, unit) polling" where
  "on_busy f = upd (\<lambda>(s, dp). (s\<lparr>ps_busy := f (ps_busy s)\<rparr>, dp))"

definition on_poller :: "(device_poller \<Rightarrow> device_poller) \<Rightarrow> ('w, unit) polling" where
  "on_poller f = upd (\<lambda>(s, dp). (s, f dp))"

definition on_counts :: "(poller_stats \<Rightarrow> poller_stats) \<Rightarrow> ('w, unit) polling" where
  "on_counts f = on_poller (\<lambda>dp. dp\<lparr>dpo_stats := f (dpo_stats dp)\<rparr>)"

definition poller :: "(device_poller \<Rightarrow> 'a) \<Rightarrow> ('w, 'a) polling" where
  "poller f = field (\<lambda>(s, dp). f dp)"

text \<open>A call of something outside the service.\<close>

definition world :: "('w, 'a) prog \<Rightarrow> ('c \<times> 'w, 'a) prog" where
  "world m s = (case m (snd s) of (r, w) \<Rightarrow> (r, (fst s, w)))"

section \<open>Status\<close>

definition status_stats :: "poller_stats \<Rightarrow> (string \<times> u64) list" where
  "status_stats st =
     [(''total_polls'', ds_pollCount st), (''success_polls'', ds_pollCount st - ds_errorCount st),
      (''failed_polls'', ds_errorCount st)]"

definition publishDeviceStatus :: "'w polling_env \<Rightarrow> string \<Rightarrow> string \<Rightarrow> ('w, unit) polling" where
  "publishDeviceStatus E status lastError =
     (case po_status E of
        None \<Rightarrow> ret ()
      | Some publish \<Rightarrow>
          bnd (poller (\<lambda>dp. (dpo_lastStatus dp, dpo_lastStatusAt dp))) (\<lambda>(prevStatus, lastPublish).
          bnd (if prevStatus = status
               then bnd (call (po_Now E)) (\<lambda>now. ret (time_Sub now lastPublish < 60000000000))
               else ret False) (\<lambda>recent.
          if recent then ret ()
          else
            bnd (poller (\<lambda>dp. (dev_ID (dpo_device dp), status_stats (dpo_stats dp)))) (\<lambda>(i, stats).
            bnd (world (publish i status lastError stats)) (\<lambda>err.
            case err of
              Some e \<Rightarrow> ret ()
            | None \<Rightarrow>
                bnd (call (po_Now E)) (\<lambda>now.
                on_poller (\<lambda>dp. dp\<lparr>dpo_lastStatus := status, dpo_lastStatusAt := now\<rparr>)))))))"

section \<open>A poll cycle\<close>

definition getEnabledTags :: "device \<Rightarrow> tag list" where
  "getEnabledTags d = filter tag_Enabled (dev_Tags d)"

text \<open>\<open>tagByID\<close>: a later tag with the same ID replaces an earlier one; tags without an ID are left out.\<close>

definition tagByID :: "tag list \<Rightarrow> string \<Rightarrow> tag option" where
  "tagByID tags = map_of (rev (map (\<lambda>t. (tag_ID t, t)) (filter (\<lambda>t. tag_ID t \<noteq> '''') tags)))"

definition set_topic :: "string \<Rightarrow> tag list \<Rightarrow> data_point \<Rightarrow> data_point" where
  "set_topic pre tags point =
     point\<lparr>dp_Topic :=
       (case tagByID tags (dp_TagID point) of
          Some t \<Rightarrow> topicForTag pre t
        | None \<Rightarrow>
            (let suffix = sanitizeTopicSegment (dp_TagID point)
             in if suffix \<noteq> '''' then pre @ ''/'' @ suffix else pre))\<rparr>"

definition good_points :: "string \<Rightarrow> tag list \<Rightarrow> data_point list \<Rightarrow> data_point list" where
  "good_points pre tags points =
     filter (\<lambda>p. dp_Quality p = QualityGood) (map (set_topic pre tags) points)"

fun staleness_all :: "'w polling_env \<Rightarrow> int \<Rightarrow> data_point list \<Rightarrow> ('w, data_point list) polling" where
  "staleness_all E interval [] = ret []"
| "staleness_all E interval (p # ps) =
     bnd (if 0 < interval then call (po_Now E) else ret 0) (\<lambda>now.
     bnd (staleness_all E interval ps) (\<lambda>rest.
     ret (CalculateStaleness now interval p # rest)))"

definition poll_failed :: "'w polling_env \<Rightarrow> gerror \<Rightarrow> ('w, unit) polling" where
  "poll_failed E err =
     (if errors_is err (ConnE ErrCircuitBreakerOpen)
      then
        bnd (on_stats (\<lambda>st. st\<lparr>st_SkippedPolls := st_SkippedPolls st + 1\<rparr>)) (\<lambda>_.
        bnd (on_counts (\<lambda>st. st\<lparr>ds_skippedCount := ds_skippedCount st + 1\<rparr>)) (\<lambda>_.
        on_poller (\<lambda>dp. dp\<lparr>dpo_lastError := Some err\<rparr>)))
      else
        bnd (on_stats (\<lambda>st. st\<lparr>st_FailedPolls := st_FailedPolls st + 1\<rparr>)) (\<lambda>_.
        bnd (on_counts (\<lambda>st. st\<lparr>ds_errorCount := ds_errorCount st + 1\<rparr>)) (\<lambda>_.
        bnd (on_poller (\<lambda>dp. dp\<lparr>dpo_lastError := Some err\<rparr>)) (\<lambda>_.
        publishDeviceStatus E ''error'' (error_text err)))))"

definition publish_points :: "'w polling_env \<Rightarrow> data_point list \<Rightarrow> ('w, unit) polling" where
  "publish_points E goods =
     (if goods = [] then ret ()
      else
        bnd (world (po_PublishBatch E goods)) (\<lambda>err.
        case err of
          Some e \<Rightarrow> ret ()
        | None \<Rightarrow> on_stats (\<lambda>st. st\<lparr>st_PointsPublished := st_PointsPublished st + of_nat (length goods)\<rparr>)))"

definition poll_succeeded :: "'w polling_env \<Rightarrow> tag list \<Rightarrow> data_point list \<Rightarrow> ('w, unit) polling" where
  "poll_succeeded E tags points =
     bnd (on_stats (\<lambda>st. st\<lparr>st_SuccessPolls := st_SuccessPolls st + 1\<rparr>)) (\<lambda>_.
     bnd (call (po_Now E)) (\<lambda>now.
     bnd (on_poller (\<lambda>dp. dp\<lparr>dpo_lastPoll := now, dpo_lastError := None\<rparr>)) (\<lambda>_.
     bnd (poller dpo_device) (\<lambda>d.
     bnd (on_stats (\<lambda>st. st\<lparr>st_PointsRead := st_PointsRead st + of_nat (length points)\<rparr>)) (\<lambda>_.
     bnd (on_counts (\<lambda>st. st\<lparr>ds_pointsRead := ds_pointsRead st + of_nat (length points)\<rparr>)) (\<lambda>_.
     bnd (staleness_all E (dev_PollInterval d) (good_points (dev_UNSPrefix d) tags points)) (\<lambda>goods.
     bnd (publish_points E goods) (\<lambda>_.
     publishDeviceStatus E ''online'' ''''))))))))"

definition poll_cycle :: "'w polling_env \<Rightarrow> ('w, unit) polling" where
  "poll_cycle E =
     bnd (on_stats (\<lambda>st. st\<lparr>st_TotalPolls := st_TotalPolls st + 1\<rparr>)) (\<lambda>_.
     bnd (on_counts (\<lambda>st. st\<lparr>ds_pollCount := ds_pollCount st + 1\<rparr>)) (\<lambda>_.
     bnd (poller dpo_device) (\<lambda>d.
     let tags = getEnabledTags d in
     if tags = [] then ret ()
     else
       bnd (world (pm_ReadTags (po_manager E) d tags)) (\<lambda>(points, err).
       case err of
         Some e \<Rightarrow> poll_failed E e
       | None \<Rightarrow> poll_succeeded E tags points))))"

definition pollDevice :: "'w polling_env \<Rightarrow> ('w, unit) polling" where
  "pollDevice E =
     bnd (field (\<lambda>(s, dp). ps_cancelled s)) (\<lambda>cancelled.
     bnd (call (po_ctxDone E)) (\<lambda>ended.
     bnd (call (po_prefer E)) (\<lambda>worker.
     bnd (field (\<lambda>(s, dp). int (ps_busy s) < pg_WorkerCount (ps_config s))) (\<lambda>free.
     let over = (cancelled \<or> ended) in
     if free \<and> (\<not> over \<or> worker)
     then bnd (on_busy Suc) (\<lambda>_. deferred (poll_cycle E) (on_busy (\<lambda>n. n - 1)))
     else if over then ret ()
     else
       bnd (on_stats (\<lambda>st. st\<lparr>st_SkippedPolls := st_SkippedPolls st + 1\<rparr>)) (\<lambda>_.
       on_counts (\<lambda>st. st\<lparr>ds_skippedCount := ds_skippedCount st + 1\<rparr>))))))"

section \<open>Programs that may not return\<close>

text \<open>\<open>None\<close>: the call never returns. A program of \<open>GoProg\<close> always does.\<close>

type_synonym ('s, 'a) oprog = "'s \<Rightarrow> ('a run \<times> 's) option"

definition always :: "('s, 'a) prog \<Rightarrow> ('s, 'a) oprog" where
  "always m s = Some (m s)"

definition obnd :: "('s, 'a) oprog \<Rightarrow> ('a \<Rightarrow> ('s, 'b) oprog) \<Rightarrow> ('s, 'b) oprog" where
  "obnd m f s =
     (case m s of
        None \<Rightarrow> None
      | Some (Val a, s') \<Rightarrow> f a s'
      | Some (Panic p, s') \<Rightarrow> Some (Panic p, s'))"

section \<open>Starting a poller\<close>

text \<open>The handler a device's data comes from, when it is subscribed and not polled.\<close>

definition subscription_of ::
  "'w polling_env \<Rightarrow> device \<Rightarrow> (device \<Rightarrow> tag list \<Rightarrow> ('w, gerror option) prog) option" where
  "subscription_of E d =
     (if conn_OPCUseSubscriptions (dev_Connection d) \<and> dev_Protocol d = ProtocolOPCUA
      then po_Subscribe E else None)"

text \<open>
  \<open>startDeviceSubscription\<close>: \<open>Inl\<close> when it ends, \<open>Inr\<close> when the subscription failed and it
  calls \<open>startDevicePoller\<close> again.
\<close>

definition startDeviceSubscription ::
  "'w polling_env \<Rightarrow> (device \<Rightarrow> tag list \<Rightarrow> ('w, gerror option) prog) \<Rightarrow>
   (polling_service \<times> device_poller) \<times> 'w \<Rightarrow>
   (unit run \<times> (polling_service \<times> device_poller) \<times> 'w) + (polling_service \<times> device_poller) \<times> 'w" where
  "startDeviceSubscription E subscribe st =
     (let s = fst (fst st); dp = snd (fst st); tags = getEnabledTags (dpo_device dp) in
      if tags = [] then Inl (Val (), st)
      else case subscribe (dpo_device dp) tags (snd st) of
        (Panic p, w) \<Rightarrow> Inl (Panic p, ((s, dp), w))
      | (Val (Some e), w) \<Rightarrow> Inr ((s, dp\<lparr>dpo_subscribed := False, dpo_running := False\<rparr>), w)
      | (Val None, w) \<Rightarrow>
          Inl (publishDeviceStatus E ''online'' '''' ((s, dp\<lparr>dpo_subscribed := True, dpo_running := True\<rparr>), w)))"

text \<open>Starting the goroutine is recorded in \<open>ps_spawned\<close>, the count of \<open>wg.Add\<close>.\<close>

definition start_pass ::
  "'w polling_env \<Rightarrow> (polling_service \<times> device_poller) \<times> 'w \<Rightarrow>
   (unit run \<times> (polling_service \<times> device_poller) \<times> 'w) + (polling_service \<times> device_poller) \<times> 'w" where
  "start_pass E st =
     (let s = fst (fst st); dp = snd (fst st) in
      if dpo_running dp then Inl (Val (), st)
      else case subscription_of E (dpo_device dp) of
        Some subscribe \<Rightarrow> startDeviceSubscription E subscribe st
      | None \<Rightarrow> Inl (Val (), ((s\<lparr>ps_spawned := Suc (ps_spawned s)\<rparr>, dp\<lparr>dpo_running := True\<rparr>), snd st)))"

partial_function (option) startDevicePoller ::
  "'w polling_env \<Rightarrow> (polling_service \<times> device_poller) \<times> 'w \<Rightarrow>
   (unit run \<times> (polling_service \<times> device_poller) \<times> 'w) option" where
  "startDevicePoller E st =
     (case start_pass E st of
        Inl out \<Rightarrow> Some out
      | Inr st' \<Rightarrow> startDevicePoller E st')"

text \<open>The callback of a subscription.\<close>

definition onData :: "'w polling_env \<Rightarrow> data_point \<Rightarrow> ('w, unit) polling" where
  "onData E p =
     bnd (on_stats (\<lambda>st. st\<lparr>st_PointsRead := st_PointsRead st + 1\<rparr>)) (\<lambda>_.
     bnd (on_counts (\<lambda>st. st\<lparr>ds_pointsRead := ds_pointsRead st + 1\<rparr>)) (\<lambda>_.
     if dp_Quality p = QualityGood
     then
       bnd (world (po_Publish E p)) (\<lambda>err.
       bnd (case err of
              Some e \<Rightarrow> ret ()
            | None \<Rightarrow> on_stats (\<lambda>st. st\<lparr>st_PointsPublished := st_PointsPublished st + 1\<rparr>)) (\<lambda>_.
       publishDeviceStatus E ''online'' ''''))
     else ret ()))"

text \<open>
  It waits up to five seconds for the goroutine to clear \<open>running\<close>, then clears it itself; both
  ways it ends with a new stop channel.
\<close>

definition stopAndResetPoller :: "'w polling_env \<Rightarrow> ('w, unit) polling" where
  "stopAndResetPoller E =
     bnd (poller (\<lambda>dp. (dpo_running dp, dev_ID (dpo_device dp)))) (\<lambda>(running, i).
     bnd (if running
          then
            bnd (on_poller (dpo_stopClosed_update (\<lambda>_. True))) (\<lambda>_.
            bnd (call (po_exits E i)) (\<lambda>exited.
            on_poller (dpo_running_update (\<lambda>_. False))))
          else ret ()) (\<lambda>_.
     on_poller (dpo_stopClosed_update (\<lambda>_. False))))"

section \<open>The registry\<close>

type_synonym ('w, 'a) registry = "(polling_service \<times> 'w, 'a) oprog"

definition set_poller :: "string \<Rightarrow> device_poller \<Rightarrow> polling_service \<Rightarrow> polling_service" where
  "set_poller i dp s = s\<lparr>ps_devices := AList.update i dp (ps_devices s)\<rparr>"

text \<open>Run a program on a poller and keep it under its key.\<close>

definition on_entry :: "string \<Rightarrow> ((polling_service \<times> device_poller) \<times> 'w, 'a) oprog \<Rightarrow> device_poller \<Rightarrow> ('w, 'a) registry" where
  "on_entry i m dp s =
     (case m ((fst s, dp), snd s) of
        None \<Rightarrow> None
      | Some (r, ((s', dp'), w)) \<Rightarrow> Some (r, (set_poller i dp' s', w)))"

fun start_all :: "'w polling_env \<Rightarrow> string list \<Rightarrow> ('w, unit) registry" where
  "start_all E [] s = Some (Val (), s)"
| "start_all E (i # is) s =
     (case map_of (ps_devices (fst s)) i of
        None \<Rightarrow> start_all E is s
      | Some dp \<Rightarrow> obnd (on_entry i (startDevicePoller E) dp) (\<lambda>_. start_all E is) s)"

text \<open>\<open>order\<close>: the keys in the order of the map walk.\<close>

definition Start :: "'w polling_env \<Rightarrow> string list \<Rightarrow> ('w, unit) registry" where
  "Start E order s =
     (if ps_started (fst s) then Some (Val (), s)
      else start_all E order ((fst s)\<lparr>ps_cancelled := False, ps_started := True\<rparr>, snd s))"

definition Stop :: "'w polling_env \<Rightarrow> (polling_service \<times> 'w, unit) prog" where
  "Stop E =
     bnd (field ps_started) (\<lambda>started.
     if \<not> started then ret ()
     else
       bnd (upd (ps_cancelled_update (\<lambda>_. True))) (\<lambda>_.
       bnd (call (po_waitAll E)) (\<lambda>_.
       upd (ps_started_update (\<lambda>_. False)))))"

definition RegisterDevice :: "'w polling_env \<Rightarrow> device \<Rightarrow> ('w, gerror option) registry" where
  "RegisterDevice E d s =
     (if map_of (ps_devices (fst s)) (dev_ID d) \<noteq> None
      then Some (Val (Some (Sentinel (ServiceE ErrDeviceExists))), s)
      else if \<not> dev_Enabled d then Some (Val None, s)
      else
        (let s' = set_poller (dev_ID d) (new_poller d) (fst s) in
         if ps_started s'
         then obnd (on_entry (dev_ID d) (startDevicePoller E) (new_poller d)) (\<lambda>_. always (ret None)) (s', snd s)
         else Some (Val None, (s', snd s))))"

text \<open>The subscription handler is asked to forget the device, whatever it answers.\<close>

definition unsubscribe :: "'w polling_env \<Rightarrow> string \<Rightarrow> (polling_service \<times> 'w, unit) prog" where
  "unsubscribe E i =
     (if po_Subscribe E = None then ret () else bnd (world (po_Unsubscribe E i)) (\<lambda>_. ret ()))"

definition remove_poller :: "'w polling_env \<Rightarrow> string \<Rightarrow> device_poller \<Rightarrow> (polling_service \<times> 'w, unit) prog" where
  "remove_poller E i dp =
     bnd (if dpo_subscribed dp then unsubscribe E i else ret ()) (\<lambda>_.
     upd (\<lambda>s. s\<lparr>ps_devices := AList.delete i (ps_devices s)\<rparr>))"

definition UnregisterDevice :: "'w polling_env \<Rightarrow> string \<Rightarrow> (polling_service \<times> 'w, gerror option) prog" where
  "UnregisterDevice E i =
     bnd (field (\<lambda>s. map_of (ps_devices s) i)) (\<lambda>entry.
     case entry of
       None \<Rightarrow> ret (Some (Sentinel (ServiceE ErrDeviceNotFound)))
     | Some dp \<Rightarrow> bnd (remove_poller E i dp) (\<lambda>_. ret None))"

definition restart :: "'w polling_env \<Rightarrow> ((polling_service \<times> device_poller) \<times> 'w, unit) oprog" where
  "restart E = obnd (always (stopAndResetPoller E)) (\<lambda>_. startDevicePoller E)"

definition ReplaceDevice :: "'w polling_env \<Rightarrow> device \<Rightarrow> ('w, gerror option) registry" where
  "ReplaceDevice E d s =
     (case map_of (ps_devices (fst s)) (dev_ID d) of
        None \<Rightarrow> RegisterDevice E d s
      | Some dp \<Rightarrow>
          if \<not> dev_Enabled d then always (bnd (remove_poller E (dev_ID d) dp) (\<lambda>_. ret None)) s
          else
            (let dp' = dp\<lparr>dpo_device := d\<rparr>;
                 s' = (set_poller (dev_ID d) dp' (fst s), snd s);
                 was = dpo_subscribed dp;
                 wants = (subscription_of E d \<noteq> None)
             in if was
                then
                  obnd (always (unsubscribe E (dev_ID d))) (\<lambda>_.
                  obnd (on_entry (dev_ID d) (restart E) (dp'\<lparr>dpo_subscribed := False\<rparr>)) (\<lambda>_.
                  always (ret None))) s'
                else if wants \<or> dev_PollInterval (dpo_device dp) \<noteq> dev_PollInterval d \<and> ps_started (fst s)
                then obnd (on_entry (dev_ID d) (restart E) dp') (\<lambda>_. always (ret None)) s'
                else Some (Val None, s')))"

record device_status_report =
  dr_DeviceID :: string
  dr_DeviceName :: string
  dr_Status :: device_status
  dr_Running :: bool
  dr_LastPoll :: int
  dr_LastError :: "gerror option"
  dr_PollCount :: u64
  dr_ErrorCount :: u64
  dr_PointsRead :: u64

definition report_of :: "string \<Rightarrow> device_poller \<Rightarrow> device_status_report" where
  "report_of i dp =
     \<lparr>dr_DeviceID = i, dr_DeviceName = dev_Name (dpo_device dp),
      dr_Status = (if dpo_lastError dp = None \<and> dpo_lastPoll dp \<noteq> zero_time then DeviceStatusOnline
                   else if dpo_lastError dp \<noteq> None then DeviceStatusError else DeviceStatusUnknown),
      dr_Running = dpo_running dp, dr_LastPoll = dpo_lastPoll dp, dr_LastError = dpo_lastError dp,
      dr_PollCount = ds_pollCount (dpo_stats dp), dr_ErrorCount = ds_errorCount (dpo_stats dp),
      dr_PointsRead = ds_pointsRead (dpo_stats dp)\<rparr>"

definition GetDeviceStatus :: "string \<Rightarrow> polling_service \<Rightarrow> gerror + device_status_report" where
  "GetDeviceStatus i s =
     (case map_of (ps_devices s) i of
        None \<Rightarrow> Inl (Sentinel (ServiceE ErrDeviceNotFound))
      | Some dp \<Rightarrow> Inr (report_of i dp))"

definition Stats :: "polling_service \<Rightarrow> polling_stats" where
  "Stats s = ps_stats s"

end
