(* ===== verification/PollingProps.thy ===== *)
theory PollingProps
  imports Polling
begin

text \<open>
  What a poll cycle does: safe topics, the accounting of every poll, which points are published,
  and what is reported of a dead device.
\<close>

section \<open>Topics\<close>

lemma Trim_ends: "Trim s c = [] \<or> hd (Trim s c) \<noteq> c \<and> last (Trim s c) \<noteq> c"
proof (cases "Trim s c = []")
  case False
  let ?l = "dropWhile (\<lambda>d. d = c) s"
  let ?r = "dropWhile (\<lambda>d. d = c) (rev ?l)"
  have ne: "?r \<noteq> []" using False by (simp add: Trim_def)
  have "hd ?r \<noteq> c" using hd_dropWhile [OF ne] by simp
  then have "last (Trim s c) \<noteq> c" using ne by (simp add: Trim_def last_rev)
  moreover have "hd (Trim s c) \<noteq> c"
  proof -
    have "?l \<noteq> []"
    proof
      assume "?l = []"
      then have "?r = []" by (simp only: rev.simps dropWhile.simps)
      with ne show False by blast
    qed
    then have h: "hd ?l \<noteq> c" using hd_dropWhile [of "\<lambda>d. d = c" s] by blast
    have "suffix ?r (rev ?l)" by (rule suffix_dropWhile)
    then obtain p where "rev ?l = p @ ?r" by (auto simp: suffix_def)
    then have "?l = rev ?r @ rev p" by (metis rev_append rev_rev_ident)
    then have "hd ?l = hd (rev ?r)" using ne by (metis hd_append2 rev_is_Nil_conv)
    with h show ?thesis by (simp add: Trim_def)
  qed
  ultimately show ?thesis by simp
qed simp

definition safe_segment :: "string \<Rightarrow> bool" where
  "safe_segment s \<longleftrightarrow> s \<noteq> [] \<and> list_all (\<lambda>c. c \<notin> {CHR ''/'', CHR ''#'', CHR ''+'', CHR '' ''}) s \<and>
     hd s \<noteq> CHR ''_'' \<and> last s \<noteq> CHR ''_''"

lemma in_ReplaceAll: "c \<in> set (ReplaceAll s a b) \<Longrightarrow> c = b \<or> c \<in> set s \<and> c \<noteq> a"
  by (auto simp: ReplaceAll_def split: if_splits)

lemma sanitized_safe: "sanitizeTopicSegment s = [] \<or> safe_segment (sanitizeTopicSegment s)"
proof -
  let ?r = "ReplaceAll (ReplaceAll (ReplaceAll (ReplaceAll (TrimSpace s) CHR ''/'' CHR ''_'')
      CHR ''#'' CHR ''_'') CHR ''+'' CHR ''_'') CHR '' '' CHR ''_''"
  obtain r where r: "sanitizeTopicSegment s = Trim r CHR ''_''" and r_def: "r = ?r"
    by (simp add: sanitizeTopicSegment_def Let_def)
  have "c \<notin> {CHR ''/'', CHR ''#'', CHR ''+'', CHR '' ''}" if "c \<in> set r" for c
    using that unfolding r_def by (auto dest!: in_ReplaceAll)
  then have "list_all (\<lambda>c. c \<notin> {CHR ''/'', CHR ''#'', CHR ''+'', CHR '' ''}) (Trim r CHR ''_'')"
    unfolding list_all_iff using set_Trim [of r "CHR ''_''"] by blast
  then show ?thesis
    using Trim_ends [of r "CHR ''_''"] unfolding r safe_segment_def by blast
qed

text \<open>
  The topic of a tag is the device's prefix, or the prefix and one segment that has no level
  separator, no wildcard and no blank and neither starts nor ends with an underscore: no tag
  name or ID can widen the topic.
\<close>

theorem topic_is_prefix_and_safe_segment:
  "topicForTag pre t = pre \<or> (\<exists>seg. topicForTag pre t = pre @ ''/'' @ seg \<and> safe_segment seg)"
proof -
  obtain s where "topicForTag pre t =
      (if sanitizeTopicSegment s = [] then pre else pre @ ''/'' @ sanitizeTopicSegment s)"
    by (simp add: topicForTag_def Let_def)
  with sanitized_safe [of s] show ?thesis by (auto split: if_splits)
qed

section \<open>Accounting\<close>

type_synonym tally = "(u64 \<times> u64 \<times> u64 \<times> u64) \<times> (u64 \<times> u64 \<times> u64)"

definition tally_of :: "polling_service \<Rightarrow> device_poller \<Rightarrow> tally" where
  "tally_of s dp =
     (let st = ps_stats s; ds = dpo_stats dp
      in ((st_TotalPolls st, st_SuccessPolls st, st_FailedPolls st, st_SkippedPolls st),
          (ds_pollCount ds, ds_errorCount ds, ds_skippedCount ds)))"

datatype poll_outcome = CtxEnded | WorkersBusy | NoAnswer | BreakerOpen | ReadFailed | ReadSucceeded

fun account :: "poll_outcome \<Rightarrow> tally \<Rightarrow> tally" where
  "account CtxEnded t = t"
| "account WorkersBusy ((a, b, c, d), (x, y, z)) = ((a, b, c, d + 1), (x, y, z + 1))"
| "account NoAnswer ((a, b, c, d), (x, y, z)) = ((a + 1, b, c, d), (x + 1, y, z))"
| "account BreakerOpen ((a, b, c, d), (x, y, z)) = ((a + 1, b, c, d + 1), (x + 1, y, z + 1))"
| "account ReadFailed ((a, b, c, d), (x, y, z)) = ((a + 1, b, c + 1, d), (x + 1, y + 1, z))"
| "account ReadSucceeded ((a, b, c, d), (x, y, z)) = ((a + 1, b + 1, c, d), (x + 1, y, z))"

definition tallied :: "nat \<Rightarrow> device \<Rightarrow> tally \<Rightarrow> polling_service \<times> device_poller \<Rightarrow> bool" where
  "tallied n d t c \<longleftrightarrow> ps_busy (fst c) = n \<and> dpo_device (snd c) = d \<and> tally_of (fst c) (snd c) = t"

lemma world_preserves [preserving]: "preserves (on_client P) (world m)"
  by (rule preservesI) (simp add: world_def on_client_def split: prod.split)

lemma poller_preserves [preserving]: "preserves (on_client P) (poller f)"
  unfolding poller_def by (rule preserves_field)

lemma on_poller_preserves:
  "(\<And>s dp. P (s, dp) \<Longrightarrow> P (s, f dp)) \<Longrightarrow> preserves (on_client P) (on_poller f)"
  unfolding on_poller_def by (rule on_client_upd) (simp add: split_paired_all)

lemma on_stats_preserves:
  "(\<And>s dp. P (s, dp) \<Longrightarrow> P (s\<lparr>ps_stats := f (ps_stats s)\<rparr>, dp)) \<Longrightarrow> preserves (on_client P) (on_stats f)"
  unfolding on_stats_def by (rule on_client_upd) (simp add: split_paired_all)

lemma publishDeviceStatus_tallied [preserving]:
  "preserves (on_client (tallied n d t)) (publishDeviceStatus E status e)"
  unfolding publishDeviceStatus_def
  by (intro preserving on_poller_preserves) (simp add: tallied_def tally_of_def Let_def)

lemma staleness_all_preserves [preserving]: "preserves (on_client P) (staleness_all E i ps)"
  by (induction ps) (auto intro!: preserving)

lemma publish_points_tallied [preserving]: "preserves (on_client (tallied n d t)) (publish_points E ps)"
  unfolding publish_points_def
  by (intro preserving on_stats_preserves) (simp add: tallied_def tally_of_def Let_def)

text \<open>A run from a state with tally \<open>t\<close> ends in one with tally \<open>t'\<close>.\<close>

definition tallies :: "nat \<Rightarrow> device \<Rightarrow> tally \<Rightarrow> ('w, 'a) polling \<Rightarrow> tally \<Rightarrow> bool" where
  "tallies n d t m t' \<longleftrightarrow> (\<forall>s. on_client (tallied n d t) s \<longrightarrow> on_client (tallied n d t') (snd (m s)))"

lemma tallies_preserves: "preserves (on_client (tallied n d t)) m \<Longrightarrow> tallies n d t m t"
  by (simp add: tallies_def preserves_def)

lemma talliesD: "tallies n d t m t' \<Longrightarrow> on_client (tallied n d t) s \<Longrightarrow> on_client (tallied n d t') (snd (m s))"
  unfolding tallies_def by blast

lemma tally_of_busy [simp]: "tally_of (s\<lparr>ps_busy := n\<rparr>) dp = tally_of s dp"
  by (simp add: tally_of_def)

lemma tallies_then:
  fixes k :: "unit \<Rightarrow> ('w, 'b) polling"
  assumes "tallies n d t (upd f :: ('w, unit) polling) t'" and "tallies n d t' (k ()) t''"
  shows "tallies n d t (bnd (upd f) k) t''"
  unfolding tallies_def
proof (intro allI impI)
  fix s :: "(polling_service \<times> device_poller) \<times> 'w"
  assume "on_client (tallied n d t) s"
  with assms(1) have "on_client (tallied n d t') (f (fst s), snd s)"
    unfolding tallies_def upd_def by (metis snd_conv)
  with assms(2) have "on_client (tallied n d t'') (snd (k () (f (fst s), snd s)))"
    unfolding tallies_def by blast
  then show "on_client (tallied n d t'') (snd (bnd (upd f) k s))" by (simp add: bnd_def upd_def)
qed

lemmas tally_updates = on_stats_def on_counts_def on_poller_def

lemma tallies_upd:
  "(\<And>s dp. tallied n d t (s, dp) \<Longrightarrow> tallied n d t' (f (s, dp))) \<Longrightarrow> tallies n d t (upd f) t'"
  by (auto simp: tallies_def upd_def on_client_def)

lemma poll_failed_tallies:
  "tallies n d (account NoAnswer t) (poll_failed E err)
     (account (if errors_is err (ConnE ErrCircuitBreakerOpen) then BreakerOpen else ReadFailed) t)"
proof -
  obtain a b c e x y z where t: "t = ((a, b, c, e), (x, y, z))" by (metis surj_pair)
  have "tallies n d ((a + 1, b, c, e), (x + 1, y, z)) (poll_failed E err)
      ((a + 1, b, c, e + 1), (x + 1, y, z + 1))" if "errors_is err (ConnE ErrCircuitBreakerOpen)"
    unfolding poll_failed_def tally_updates if_P [OF that]
    by (rule tallies_then [where t' = "((a + 1, b, c, e + 1), (x + 1, y, z))"], rule tallies_upd,
        simp add: tallied_def tally_of_def Let_def,
        rule tallies_then [where t' = "((a + 1, b, c, e + 1), (x + 1, y, z + 1))"], rule tallies_upd,
        simp add: tallied_def tally_of_def Let_def, rule tallies_upd) (simp add: tallied_def tally_of_def Let_def)
  moreover have "tallies n d ((a + 1, b, c, e), (x + 1, y, z)) (poll_failed E err)
      ((a + 1, b, c + 1, e), (x + 1, y + 1, z))" if "\<not> errors_is err (ConnE ErrCircuitBreakerOpen)"
    unfolding poll_failed_def tally_updates if_not_P [OF that]
    by (rule tallies_then [where t' = "((a + 1, b, c + 1, e), (x + 1, y, z))"], rule tallies_upd,
        simp add: tallied_def tally_of_def Let_def,
        rule tallies_then [where t' = "((a + 1, b, c + 1, e), (x + 1, y + 1, z))"], rule tallies_upd,
        simp add: tallied_def tally_of_def Let_def,
        rule tallies_then [where t' = "((a + 1, b, c + 1, e), (x + 1, y + 1, z))"], rule tallies_upd,
        simp add: tallied_def tally_of_def Let_def, rule tallies_preserves, rule publishDeviceStatus_tallied)
  ultimately show ?thesis by (simp add: t)
qed

lemma tallies_bnd:
  assumes "preserves (on_client (tallied n d t)) m" and "\<And>a. preserves (on_client (tallied n d t)) (k a)"
  shows "tallies n d t (bnd m k) t"
  by (rule tallies_preserves) (intro preserving assms)

lemma poll_succeeded_tallies:
  "tallies n d (account NoAnswer t) (poll_succeeded E tags points) (account ReadSucceeded t)"
proof -
  obtain a b c e x y z where t: "t = ((a, b, c, e), (x, y, z))" by (metis surj_pair)
  have "preserves (on_client (tallied n d u)) (on_poller (\<lambda>dp. dp\<lparr>dpo_lastPoll := now, dpo_lastError := None\<rparr>))"
    "preserves (on_client (tallied n d u)) (on_stats (\<lambda>st. st\<lparr>st_PointsRead := st_PointsRead st + k\<rparr>))"
    "preserves (on_client (tallied n d u)) (on_counts (\<lambda>st. st\<lparr>ds_pointsRead := ds_pointsRead st + k\<rparr>))" for u now k
    unfolding on_counts_def
    by (rule on_poller_preserves on_stats_preserves; simp add: tallied_def tally_of_def Let_def)+
  then show ?thesis
    unfolding poll_succeeded_def on_stats_def [of "\<lambda>st. st\<lparr>st_SuccessPolls := st_SuccessPolls st + 1\<rparr>"]
    by (intro tallies_then [where t' = "((a + 1, b + 1, c, e), (x + 1, y, z))"] tallies_upd)
      (simp add: t tallied_def tally_of_def Let_def, simp add: t, intro tallies_preserves preserving)
qed


lemma poll_cycle_tallies:
  fixes E :: "'w polling_env"
  assumes "on_client (tallied n d t) s"
  shows "\<exists>out\<in>{NoAnswer, BreakerOpen, ReadFailed, ReadSucceeded}.
    on_client (tallied n d (account out t)) (snd (poll_cycle E s))"
proof -
  obtain a b c e x y z where t: "t = ((a, b, c, e), (x, y, z))" by (metis surj_pair)
  obtain sv dp w where s: "s = ((sv, dp), w)" by (metis surj_pair)
  define c1 where "c1 = (sv\<lparr>ps_stats := (ps_stats sv)\<lparr>st_TotalPolls := st_TotalPolls (ps_stats sv) + 1\<rparr>\<rparr>,
     dp\<lparr>dpo_stats := (dpo_stats dp)\<lparr>ds_pollCount := ds_pollCount (dpo_stats dp) + 1\<rparr>\<rparr>)"
  have c1: "tallied n d (account NoAnswer t) c1" and d: "dpo_device dp = d"
    using assms by (auto simp: s c1_def t on_client_def tallied_def tally_of_def Let_def)
  let ?tags = "getEnabledTags d"
  let ?read = "pm_ReadTags (po_manager E) d ?tags w"
  have run: "poll_cycle E s =
      (if ?tags = [] then (Val (), (c1, w))
       else case ?read of
         (Panic p, w1) \<Rightarrow> (Panic p, (c1, w1))
       | (Val (points, Some err), w1) \<Rightarrow> poll_failed E err (c1, w1)
       | (Val (points, None), w1) \<Rightarrow> poll_succeeded E ?tags points (c1, w1))"
    by (auto simp: poll_cycle_def s run_simps tally_updates poller_def c1_def d Let_def world_def bnd_def ret_def
        split: prod.split run.split option.split)
  have c: "on_client (tallied n d (account NoAnswer t)) (c1, w')" for w' :: 'w using c1 by (simp add: on_client_def)
  show ?thesis
  proof (cases "?tags = []")
    case True
    with run c [of w] show ?thesis by simp
  next
    case False
    obtain r w1 where r: "?read = (r, w1)" by fastforce
    show ?thesis
    proof (cases r)
      case (Panic p)
      with False run r c [of w1] show ?thesis by simp
    next
      case (Val v)
      obtain points err where v: "v = (points, err)" by (cases v)
      show ?thesis
      proof (cases err)
        case None
        with False run r Val v have "poll_cycle E s = poll_succeeded E ?tags points (c1, w1)" by simp
        with talliesD [OF poll_succeeded_tallies c] show ?thesis by simp
      next
        case (Some e)
        with False run r Val v have "poll_cycle E s = poll_failed E e (c1, w1)" by simp
        with talliesD [OF poll_failed_tallies c, of e E w1] show ?thesis
          by (cases "errors_is e (ConnE ErrCircuitBreakerOpen)") simp_all
      qed
    qed
  qed
qed

lemma pollDevice_run:
  assumes "po_ctxDone E w = (ended, w1)" and "po_prefer E w1 = (worker, w2)"
  shows "pollDevice E ((s, dp), w) =
    (let over = (ps_cancelled s \<or> ended) in
     if int (ps_busy s) < pg_WorkerCount (ps_config s) \<and> (\<not> over \<or> worker)
     then deferred (poll_cycle E) (on_busy (\<lambda>n. n - 1)) ((s\<lparr>ps_busy := Suc (ps_busy s)\<rparr>, dp), w2)
     else if over then (Val (), ((s, dp), w2))
     else (Val (), ((s\<lparr>ps_stats := (ps_stats s)\<lparr>st_SkippedPolls := st_SkippedPolls (ps_stats s) + 1\<rparr>\<rparr>,
            dp\<lparr>dpo_stats := (dpo_stats dp)\<lparr>ds_skippedCount := ds_skippedCount (dpo_stats dp) + 1\<rparr>\<rparr>), w2)))"
  by (simp add: pollDevice_def run_simps Let_def assms on_busy_def tally_updates on_counts_def)


section \<open>What is published\<close>

lemma tagByID_known:
  assumes "t \<in> set tags" and "tag_ID t \<noteq> []"
  shows "\<exists>t'\<in>set tags. tag_ID t' = tag_ID t \<and> tagByID tags (tag_ID t) = Some t'"
proof -
  let ?l = "map (\<lambda>t. (tag_ID t, t)) (filter (\<lambda>t. tag_ID t \<noteq> '''') tags)"
  have "tag_ID t \<in> fst ` set (rev ?l)" using assms by (force simp: image_iff)
  then have "map_of (rev ?l) (tag_ID t) \<noteq> None" unfolding map_of_eq_None_iff by blast
  then obtain t' where t': "map_of (rev ?l) (tag_ID t) = Some t'" unfolding not_None_eq by blast
  from map_of_SomeD [OF t'] have "t' \<in> set tags \<and> tag_ID t' = tag_ID t" by auto
  with t' show ?thesis unfolding tagByID_def by blast
qed

definition well_published :: "device \<Rightarrow> data_point \<Rightarrow> bool" where
  "well_published d p \<longleftrightarrow> dp_Quality p = QualityGood \<and>
     list_ex (\<lambda>t. tag_ID t = dp_TagID p \<and> dp_Topic p = topicForTag (dev_UNSPrefix d) t) (getEnabledTags d)"

lemma well_published_staleness [simp]:
  "well_published d (CalculateStaleness now i p) = well_published d p"
  by (simp add: well_published_def)

context tag_reader
begin

lemma polled_points_published:
  assumes "\<forall>t\<in>set (getEnabledTags d). ready t \<and> tag_ID t \<noteq> []" and "good s"
    and "read d (getEnabledTags d) s = (Val (points, None), s')"
  shows "list_all (well_published d) (good_points (dev_UNSPrefix d) (getEnabledTags d) points)"
proof -
  let ?tags = "getEnabledTags d"
  have "well_published d (set_topic (dev_UNSPrefix d) ?tags p)" if p: "p \<in> set points" "dp_Quality p = QualityGood" for p
  proof -
    obtain t where "t \<in> set ?tags" "tag_ID t = dp_TagID p"
      using point_has_tag [OF _ assms(2,3) p(1)] assms(1) by blast
    with tagByID_known [of t ?tags] assms(1) obtain t' where
      "t' \<in> set ?tags" "tag_ID t' = dp_TagID p" "tagByID ?tags (dp_TagID p) = Some t'" by metis
    with p(2) show ?thesis by (auto simp: well_published_def set_topic_def list_ex_iff)
  qed
  then show ?thesis by (auto simp: good_points_def list_all_iff set_topic_def)
qed

end

text \<open>A publisher that takes no other points: any other batch would panic.\<close>

definition checked :: "device \<Rightarrow> 'w polling_env \<Rightarrow> 'w polling_env" where
  "checked d E = E\<lparr>po_PublishBatch := (\<lambda>ps. if list_all (well_published d) ps then po_PublishBatch E ps
     else panic ''unexpected batch'')\<rparr>"

lemma checked_fields [simp]:
  "po_manager (checked d E) = po_manager E" "po_Now (checked d E) = po_Now E"
  "po_ctxDone (checked d E) = po_ctxDone E" "po_prefer (checked d E) = po_prefer E"
  "po_status (checked d E) = po_status E"
  by (simp_all add: checked_def)

lemma checked_status [simp]:
  "publishDeviceStatus (checked d E) status e = publishDeviceStatus E status e"
  unfolding publishDeviceStatus_def checked_fields ..

lemma checked_simps [simp]:
  "staleness_all (checked d E) i ps = staleness_all E i ps"
  "poll_failed (checked d E) err = poll_failed E err"
  by (induction ps) (simp_all add: poll_failed_def)

lemma staleness_run:
  "\<exists>qs w'. staleness_all E i ps (c, w) = (Val qs, (c, w')) \<and>
     list_all2 (\<lambda>p q. \<exists>now. q = CalculateStaleness now i p) ps qs"
proof (induction ps arbitrary: w)
  case (Cons p ps)
  obtain now w1 where now: "(if 0 < i then call (po_Now E) else ret 0) (c, w) = (Val now, (c, w1))"
    by (cases "0 < i"; cases "po_Now E w") (auto simp: run_simps)
  from Cons.IH [of w1] obtain qs w' where "staleness_all E i ps (c, w1) = (Val qs, (c, w'))"
    "list_all2 (\<lambda>p q. \<exists>now. q = CalculateStaleness now i p) ps qs" by blast
  with now show ?case by (auto simp: bnd_def ret_def)
qed (simp add: run_simps)

lemma publish_points_checked:
  "list_all (well_published d) ps \<Longrightarrow> publish_points (checked d E) ps = publish_points E ps"
  by (simp add: publish_points_def checked_def)

lemma poll_succeeded_checked:
  assumes "list_all (well_published d) (good_points (dev_UNSPrefix d) tags points)" and "dpo_device dp = d"
  shows "poll_succeeded (checked d E) tags points ((s, dp), w) = poll_succeeded E tags points ((s, dp), w)"
proof -
  obtain now w1 where now: "po_Now E w = (now, w1)" by fastforce
  define c where "c = (s\<lparr>ps_stats := (ps_stats s)\<lparr>st_SuccessPolls := st_SuccessPolls (ps_stats s) + 1,
        st_PointsRead := st_PointsRead (ps_stats s) + of_nat (length points)\<rparr>\<rparr>,
      dp\<lparr>dpo_lastPoll := now, dpo_lastError := None,
         dpo_stats := (dpo_stats dp)\<lparr>ds_pointsRead := ds_pointsRead (dpo_stats dp) + of_nat (length points)\<rparr>\<rparr>)"
  from staleness_run [of E "dev_PollInterval d" "good_points (dev_UNSPrefix d) tags points" c w1]
  obtain qs w2 where
    qs: "staleness_all E (dev_PollInterval d) (good_points (dev_UNSPrefix d) tags points) (c, w1) = (Val qs, (c, w2))"
      "list_all2 (\<lambda>p q. \<exists>now. q = CalculateStaleness now (dev_PollInterval d) p)
        (good_points (dev_UNSPrefix d) tags points) qs" by blast
  from qs(2) assms(1) have "list_all (well_published d) qs"
    by (auto simp: list_all2_conv_all_nth list_all_length)
  note same = publish_points_checked [OF this, of E]
  have run: "poll_succeeded F tags points ((s, dp), w) =
      bnd (publish_points F qs) (\<lambda>_. publishDeviceStatus F ''online'' '''') (c, w2)"
    if "po_Now F = po_Now E" "\<And>i ps. staleness_all F i ps = staleness_all E i ps" for F
    using qs(1) by (simp add: poll_succeeded_def on_counts_def tally_updates poller_def run_simps that now assms(2) c_def)
  show ?thesis by (subst (1 2) run) (simp_all add: same)
qed

text \<open>
  C10. A poll of a Modbus device through the gateway's manager publishes good points only, each
  under the topic of an enabled tag of the device that has the point's tag ID, in whatever order
  the read returns them: a publisher that panics on any other batch makes no difference to
  the poll.
\<close>

theorem only_good_points_published_under_their_topic:
  assumes "po_manager E = gateway_manager P opcua s7"
    and "dev_Protocol (dpo_device dp) = ProtocolModbusTCP \<or> dev_Protocol (dpo_device dp) = ProtocolModbusRTU"
    and "modbus_device_ready (dpo_device dp)"
    and "modbus_good P (snd (po_prefer E (snd (po_ctxDone E w))))"
  shows "pollDevice (checked (dpo_device dp) E) ((s, dp), w) = pollDevice E ((s, dp), w)"
proof -
  let ?d = "dpo_device dp" and ?tags = "getEnabledTags (dpo_device dp)"
  obtain ended w1 where ended: "po_ctxDone E w = (ended, w1)" by (meson surj_pair)
  obtain worker w2 where worker: "po_prefer E w1 = (worker, w2)" by (meson surj_pair)
  have ready: "\<forall>t\<in>set ?tags. modbus_ready t \<and> tag_ID t \<noteq> []"
    using assms(3) by (auto simp: modbus_device_ready_def modbus_ready_def getEnabledTags_def)
  have good: "modbus_good P w2" using assms(4) ended worker by simp
  obtain r w3 where read: "pool_ReadTags P ?d ?tags w2 = (r, w3)" by (meson surj_pair)
  define c where "c = (s\<lparr>ps_busy := Suc (ps_busy s), ps_stats := (ps_stats s)\<lparr>st_TotalPolls := st_TotalPolls (ps_stats s) + 1\<rparr>\<rparr>,
      dp\<lparr>dpo_stats := (dpo_stats dp)\<lparr>ds_pollCount := ds_pollCount (dpo_stats dp) + 1\<rparr>\<rparr>)"
  have run: "poll_cycle F ((s\<lparr>ps_busy := Suc (ps_busy s)\<rparr>, dp), w2) =
      (if ?tags = [] then (Val (), (c, w2))
       else bnd (\<lambda>_. (r, (c, w3))) (\<lambda>(points, err). case err of
              Some e \<Rightarrow> poll_failed F e | None \<Rightarrow> poll_succeeded F ?tags points) (c, w2))"
    if "po_manager F = po_manager E" for F
    by (auto simp: poll_cycle_def tally_updates on_counts_def poller_def run_simps Let_def c_def that assms(1)
        gateway_routes(1) [OF assms(2)] world_def read bnd_def split: run.split)
  have same: "poll_cycle (checked ?d E) ((s\<lparr>ps_busy := Suc (ps_busy s)\<rparr>, dp), w2) =
      poll_cycle E ((s\<lparr>ps_busy := Suc (ps_busy s)\<rparr>, dp), w2)"
  proof (cases r)
    case (Panic p)
    then show ?thesis by (simp add: run bnd_def)
  next
    case (Val v)
    obtain points err where v: "v = (points, err)" by (cases v)
    have "poll_succeeded (checked ?d E) ?tags points (c, w3) = poll_succeeded E ?tags points (c, w3)" if "err = None"
      unfolding c_def
      using modbus.polled_points_published [OF ready good, of points w3] read Val v that
      by (intro poll_succeeded_checked) auto
    with Val v show ?thesis by (auto simp: run bnd_def split: option.split)
  qed
  show ?thesis
    unfolding pollDevice_run [OF ended worker]
      pollDevice_run [of "checked ?d E", unfolded checked_fields, OF ended worker]
    by (simp only: deferred_def same)
qed

section \<open>A dead device\<close>

text \<open>
  A poll that reads only bad points is a success: nothing is published, the device's last error
  is cleared, its status becomes online, both in what is reported of it and in the status
  message. A Modbus read of a dead device is of this kind (see the witness).
\<close>

theorem bad_points_report_online:
  assumes "\<not> ps_cancelled s" and "po_ctxDone E w = (False, w1)" and "po_prefer E w1 = (worker, w2)"
    and "int (ps_busy s) < pg_WorkerCount (ps_config s)" and "getEnabledTags (dpo_device dp) \<noteq> []"
    and "pm_ReadTags (po_manager E) (dpo_device dp) (getEnabledTags (dpo_device dp)) w2 = (Val (points, None), w3)"
    and "list_all (\<lambda>p. dp_Quality p \<noteq> QualityGood) points"
    and "po_Now E w3 = (now, w4)" and "now \<noteq> zero_time"
    and "po_status E = Some publish" and "dpo_lastStatus dp \<noteq> ''online''"
    and "publish (dev_ID (dpo_device dp)) ''online'' ''''
      (status_stats ((dpo_stats dp)\<lparr>ds_pollCount := ds_pollCount (dpo_stats dp) + 1,
         ds_pointsRead := ds_pointsRead (dpo_stats dp) + of_nat (length points)\<rparr>)) w4 = (Val None, w5)"
  shows "\<exists>s' dp' w'. pollDevice E ((s, dp), w) = (Val (), ((s', dp'), w')) \<and>
    st_SuccessPolls (ps_stats s') = st_SuccessPolls (ps_stats s) + 1 \<and>
    st_PointsPublished (ps_stats s') = st_PointsPublished (ps_stats s) \<and>
    dpo_lastError dp' = None \<and> dpo_lastStatus dp' = ''online'' \<and>
    dr_Status (report_of i dp') = DeviceStatusOnline"
proof -
  obtain at w6 where at: "po_Now E w5 = (at, w6)" by fastforce
  have none: "good_points pre tags points = []" for pre tags
    using assms(7) by (auto simp: good_points_def set_topic_def filter_empty_conv list_all_iff)
  show ?thesis
    unfolding pollDevice_run [OF assms(2,3)]
    using assms(1,4,5,9,11)
    by (simp add: Let_def deferred_def poll_cycle_def poll_succeeded_def publish_points_def publishDeviceStatus_def
        tally_updates on_counts_def on_busy_def poller_def run_simps world_def none assms(6,8,10,12) at
        report_of_def)
qed

section \<open>A service for the witnesses\<close>

definition sample_polling_env :: "(int, nat) pool_env \<Rightarrow> (nat connection_pool \<times> int) polling_env" where
  "sample_polling_env P =
     \<lparr>po_manager = gateway_manager P (modbus_pool P) (modbus_pool P), po_PublishBatch = \<lambda>ps. ret None,
      po_Publish = \<lambda>p. ret None, po_status = Some (\<lambda>i status e stats. ret None), po_Subscribe = None,
      po_Unsubscribe = \<lambda>i. ret None, po_Now = \<lambda>(p, w). (w + 1, (p, w + 1)), po_ctxDone = \<lambda>w. (False, w),
      po_prefer = \<lambda>w. (True, w), po_exits = \<lambda>i w. (True, w), po_waitAll = \<lambda>w. ((), w)\<rparr>"

definition polled_device :: device where
  "polled_device = sample_device\<lparr>dev_Tags := [sample_ready]\<rparr>"

definition sample_service :: polling_service where
  "sample_service = NewPollingService \<lparr>pg_WorkerCount = 0, pg_BatchSize = 0, pg_DefaultInterval = 0,
     pg_MaxRetries = 0, pg_ShutdownTimeout = 0\<rparr>"

definition dead_env :: "(int, nat) pool_env" where
  "dead_env = sample_pool_env\<lparr>pe_modbus := failing_env\<rparr>"

lemma polled_device_simps:
  "dev_Protocol polled_device = ProtocolModbusTCP" "modbus_device_ready polled_device"
  "getEnabledTags polled_device = [sample_ready]" "dev_ID polled_device = ''plc1''"
  using validated_device(1) [OF sample_device_validates]
  by (simp_all add: polled_device_def sample_device_def getEnabledTags_def sample_ready_def sample_tag_def)

lemma sample_polling_env_simps:
  "po_manager (sample_polling_env P) = gateway_manager P (modbus_pool P) (modbus_pool P)"
  "po_ctxDone (sample_polling_env P) w = (False, w)" "po_prefer (sample_polling_env P) w = (True, w)"
  "po_Now (sample_polling_env P) (p, n) = (n + 1, (p, n + 1))"
  "po_status (sample_polling_env P) = Some (\<lambda>i status e stats. ret None)"
  by (simp_all add: sample_polling_env_def)

lemma sample_modbus_good: "modbus_good sample_pool_env (sample_pool 2, 0)"
  using sample_walks sample_diagnostics
  by (simp add: modbus_good_def all_diagnostics_ok_def sample_pool_env_def sample_pool_def sample_entry_def)

theorem only_good_points_published_under_their_topic_witness:
  "pollDevice (checked polled_device (sample_polling_env sample_pool_env))
     ((sample_service, new_poller polled_device), (sample_pool 2, 0)) =
   pollDevice (sample_polling_env sample_pool_env) ((sample_service, new_poller polled_device), (sample_pool 2, 0))"
  using only_good_points_published_under_their_topic
    [of "sample_polling_env sample_pool_env" sample_pool_env _ _ "new_poller polled_device" "(sample_pool 2, 0)",
      OF sample_polling_env_simps(1)]
  by (simp add: new_poller_def polled_device_simps sample_polling_env_simps sample_modbus_good)

definition dead_answer :: "data_point list" where
  "dead_answer =
     (case fst (pool_ReadTags dead_env polled_device [sample_ready] (sample_pool 2, 0)) of
        Val r \<Rightarrow> fst r | Panic m \<Rightarrow> [])"

lemma dead_read:
  "map_prod id snd (pool_ReadTags dead_env polled_device [sample_ready] (sample_pool 2, 0)) =
     (Val (dead_answer, None), 1000000001)"
  "list_all (\<lambda>p. dp_Quality p \<noteq> QualityGood) dead_answer"
  by code_simp+

theorem bad_points_report_online_witness:
  "\<exists>s' dp' w'. pollDevice (sample_polling_env dead_env)
      ((sample_service, new_poller polled_device), (sample_pool 2, 0)) = (Val (), ((s', dp'), w')) \<and>
    st_SuccessPolls (ps_stats s') = st_SuccessPolls (ps_stats sample_service) + 1 \<and>
    st_PointsPublished (ps_stats s') = st_PointsPublished (ps_stats sample_service) \<and>
    dpo_lastError dp' = None \<and> dpo_lastStatus dp' = ''online'' \<and>
    dr_Status (report_of ''plc1'' dp') = DeviceStatusOnline"
proof -
  from dead_read(1) obtain p where
    read: "pool_ReadTags dead_env polled_device [sample_ready] (sample_pool 2, 0) = (Val (dead_answer, None), (p, 1000000001))"
    by (cases "pool_ReadTags dead_env polled_device [sample_ready] (sample_pool 2, 0)") auto
  have route: "pm_ReadTags (gateway_manager dead_env (modbus_pool dead_env) (modbus_pool dead_env)) polled_device
      [sample_ready] = pool_ReadTags dead_env polled_device [sample_ready]"
    by (rule gateway_routes(1)) (simp add: polled_device_simps)
  show ?thesis
    by (rule bad_points_report_online [of _ _ _ "(sample_pool 2, 0)" True "(sample_pool 2, 0)" _ dead_answer
          "(p, 1000000001)" "1000000002" "(p, 1000000002)" "\<lambda>i status e stats. ret None" "(p, 1000000002)"])
      (simp_all add: sample_service_def NewPollingService_def positive_or_def sample_polling_env_simps
        new_poller_def polled_device_simps route read dead_read(2) zero_time_def run_simps)
qed

end
