(* ===== verification/PollingRegistry.thy ===== *)
theory PollingRegistry
  imports PollingProps
begin

text \<open>
  The registry of polled devices: what registering, replacing, removing, starting and stopping
  keep, what a replaced device remembers, and the start of a subscription that fails.
\<close>

section \<open>What starting a poller keeps\<close>

definition history :: "device_poller \<Rightarrow> device \<times> poller_stats \<times> int \<times> gerror option" where
  "history dp = (dpo_device dp, dpo_stats dp, dpo_lastPoll dp, dpo_lastError dp)"

definition kept ::
  "(string \<times> device_poller) list \<Rightarrow> device \<times> poller_stats \<times> int \<times> gerror option \<Rightarrow>
   polling_service \<times> device_poller \<Rightarrow> bool" where
  "kept l h c \<longleftrightarrow> ps_devices (fst c) = l \<and> history (snd c) = h"

lemma on_poller_kept [preserving]:
  "(\<And>dp. history (f dp) = history dp) \<Longrightarrow> preserves (on_client (kept l h)) (on_poller f)"
  by (rule on_poller_preserves) (simp add: kept_def)

lemma publishDeviceStatus_kept: "preserves (on_client (kept l h)) (publishDeviceStatus E status e)"
  unfolding publishDeviceStatus_def by (intro preserving) (simp add: history_def)

lemma stopAndResetPoller_kept: "preserves (on_client (kept l h)) (stopAndResetPoller E)"
  unfolding stopAndResetPoller_def by (intro preserving) (simp_all add: history_def)

lemma kept_updates:
  "on_client (kept l h) ((s, dp), w) \<Longrightarrow> on_client (kept l h) ((s\<lparr>ps_spawned := n\<rparr>, dp\<lparr>dpo_running := b\<rparr>), w')"
  "on_client (kept l h) ((s, dp), w) \<Longrightarrow> on_client (kept l h) ((s, dp\<lparr>dpo_subscribed := a, dpo_running := b\<rparr>), w')"
  "on_client (kept l h) ((s, dp), w) \<Longrightarrow> on_client (kept l h) ((s, dp), w')"
  by (simp_all add: on_client_def kept_def history_def)

lemma start_pass_keeps:
  assumes "on_client (kept l h) st"
  shows "case start_pass E st of Inl out \<Rightarrow> on_client (kept l h) (snd out) | Inr st' \<Rightarrow> on_client (kept l h) st'"
proof -
  obtain s dp w where st: "st = ((s, dp), w)" by (metis surj_pair)
  note k = kept_updates [OF assms [unfolded st]]
  note status = preservesD [OF publishDeviceStatus_kept k(2)]
  have sub: "case startDeviceSubscription E subscribe st of
      Inl out \<Rightarrow> on_client (kept l h) (snd out) | Inr st' \<Rightarrow> on_client (kept l h) st'" for subscribe
    by (simp add: k status startDeviceSubscription_def st Let_def split: prod.split run.split option.split)
  show ?thesis
    using sub by (simp add: k start_pass_def st Let_def split: option.split)
qed

lemma startDevicePoller_keeps:
  assumes "startDevicePoller E st = Some out" and "on_client (kept l h) st"
  shows "on_client (kept l h) (snd out)"
proof -
  have "on_client (kept l h) st \<longrightarrow> on_client (kept l h) (snd out)"
  proof (rule startDevicePoller.raw_induct
      [where P = "\<lambda>E st out. on_client (kept l h) st \<longrightarrow> on_client (kept l h) (snd out)", OF _ assms(1)])
    fix f :: "'a polling_env \<Rightarrow> (polling_service \<times> device_poller) \<times> 'a \<Rightarrow>
      (unit run \<times> (polling_service \<times> device_poller) \<times> 'a) option" and E st out
    assume IH: "\<And>E st out. f E st = Some out \<Longrightarrow> on_client (kept l h) st \<longrightarrow> on_client (kept l h) (snd out)"
      and eq: "(case start_pass E st of Inl out \<Rightarrow> Some out | Inr st' \<Rightarrow> f E st') = Some out"
    show "on_client (kept l h) st \<longrightarrow> on_client (kept l h) (snd out)"
    proof
      assume "on_client (kept l h) st"
      from start_pass_keeps [OF this, of E] eq show "on_client (kept l h) (snd out)"
        using IH [of E _ out] by (cases "start_pass E st") auto
    qed
  qed
  with assms(2) show ?thesis by simp
qed

section \<open>A subscription that fails\<close>

lemma startDevicePoller_diverges:
  assumes "I st" and "\<And>st. I st \<Longrightarrow> \<exists>st'. start_pass E st = Inr st' \<and> I st'"
  shows "startDevicePoller E st = None"
proof (rule ccontr)
  assume "startDevicePoller E st \<noteq> None"
  then obtain out where out: "startDevicePoller E st = Some out" by blast
  have "F = E \<longrightarrow> \<not> I st" if "startDevicePoller F st = Some out" for F st out
  proof (rule startDevicePoller.raw_induct [where P = "\<lambda>F st out. F = E \<longrightarrow> \<not> I st", OF _ that])
    fix f F st and out :: "unit run \<times> (polling_service \<times> device_poller) \<times> 'a"
    assume IH: "\<And>F st out. f F st = Some out \<Longrightarrow> F = E \<longrightarrow> \<not> I st"
      and eq: "(case start_pass F st of Inl out \<Rightarrow> Some out | Inr st' \<Rightarrow> f F st') = Some out"
    show "F = E \<longrightarrow> \<not> I st"
      using assms(2) [of st] IH [of E _ out] eq by (auto split: sum.splits)
  qed
  with out assms(1) show False by blast
qed


definition subscribed_device :: device where
  "subscribed_device = polled_device\<lparr>dev_Protocol := ProtocolOPCUA,
     dev_Connection := sample_connection\<lparr>conn_OPCUseSubscriptions := True\<rparr>\<rparr>"


section \<open>The registry\<close>

definition entry_sound :: "string \<times> device_poller \<Rightarrow> bool" where
  "entry_sound e \<longleftrightarrow> dev_ID (dpo_device (snd e)) = fst e \<and> dev_Enabled (dpo_device (snd e))"

definition registry_ok :: "polling_service \<Rightarrow> bool" where
  "registry_ok s \<longleftrightarrow> distinct (map fst (ps_devices s)) \<and> list_all entry_sound (ps_devices s)"

lemma registry_ok_set:
  "registry_ok s \<Longrightarrow> dev_ID (dpo_device dp) = i \<Longrightarrow> dev_Enabled (dpo_device dp) \<Longrightarrow> registry_ok (set_poller i dp s)"
  using set_AList_update [of i dp "ps_devices s"]
  by (auto simp: registry_ok_def set_poller_def distinct_update entry_sound_def list_all_iff)

lemma registry_ok_delete:
  "registry_ok s \<Longrightarrow> registry_ok (s\<lparr>ps_devices := AList.delete i (ps_devices s)\<rparr>)"
  using distinct_delete [of "ps_devices s" i] by (auto simp: registry_ok_def list_all_iff AList.delete_eq)

lemma registry_ok_entry:
  "registry_ok s \<Longrightarrow> map_of (ps_devices s) i = Some dp \<Longrightarrow> dev_ID (dpo_device dp) = i \<and> dev_Enabled (dpo_device dp)"
  by (auto simp: registry_ok_def list_all_iff entry_sound_def dest!: map_of_SomeD)

definition all_ok :: "('a run \<times> polling_service \<times> 'w) option \<Rightarrow> bool" where
  "all_ok out \<longleftrightarrow> (case out of None \<Rightarrow> True | Some r \<Rightarrow> registry_ok (fst (snd r)))"

lemma all_ok_simps [simp]: "all_ok None" "all_ok (Some (r, (s, w))) = registry_ok s"
  by (simp_all add: all_ok_def)

definition keeping :: "((polling_service \<times> device_poller) \<times> 'w, 'a) oprog \<Rightarrow> bool" where
  "keeping m \<longleftrightarrow> (\<forall>l h st out. m st = Some out \<longrightarrow> on_client (kept l h) st \<longrightarrow> on_client (kept l h) (snd out))"

lemma keeping_start: "keeping (startDevicePoller E)"
  unfolding keeping_def using startDevicePoller_keeps by blast

lemma keeping_restart: "keeping (restart E)"
  unfolding keeping_def
proof (intro allI impI)
  fix l h st out assume run: "restart E st = Some out" and k: "on_client (kept l h) st"
  obtain r st' where stop: "stopAndResetPoller E st = (r, st')" by (meson surj_pair)
  with preservesD [OF stopAndResetPoller_kept k, of E] have k': "on_client (kept l h) st'" by simp
  show "on_client (kept l h) (snd out)"
    using run k' startDevicePoller_keeps [of E st' out l h]
    by (cases r) (auto simp: restart_def obnd_def always_def stop)
qed

lemma on_entry_run:
  assumes "keeping m" and "on_entry i m dp (s, w) = Some (r, (s', w'))"
  obtains dp' s1 where "s' = set_poller i dp' s1" "ps_devices s1 = ps_devices s" "history dp' = history dp"
proof -
  from assms(2) obtain s1 dp' where run: "m ((s, dp), w) = Some (r, ((s1, dp'), w'))" "s' = set_poller i dp' s1"
    by (auto simp: on_entry_def split: option.splits)
  have "on_client (kept (ps_devices s) (history dp)) ((s, dp), w)" by (simp add: on_client_def kept_def)
  with assms(1) run(1) have "on_client (kept (ps_devices s) (history dp)) (snd (r, ((s1, dp'), w')))"
    unfolding keeping_def by blast
  with run(2) show thesis by (intro that [of dp' s1]) (simp_all add: on_client_def kept_def)
qed

lemma registry_ok_devices: "ps_devices s1 = ps_devices s \<Longrightarrow> registry_ok s1 = registry_ok s"
  by (simp add: registry_ok_def)

lemma on_entry_ok:
  assumes "keeping m" and "registry_ok s" and "dev_ID (dpo_device dp) = i" and "dev_Enabled (dpo_device dp)"
    and "on_entry i m dp (s, w) = Some (r, (s', w'))"
  shows "registry_ok s'"
proof -
  from on_entry_run [OF assms(1,5)] obtain dp' s1 where
    s': "s' = set_poller i dp' s1" "ps_devices s1 = ps_devices s" "history dp' = history dp" .
  then have "registry_ok s1" using assms(2) registry_ok_devices by blast
  moreover have "dpo_device dp' = dpo_device dp" using s'(3) by (simp add: history_def)
  ultimately show ?thesis using assms(3,4) unfolding s'(1) by (intro registry_ok_set) simp_all
qed

lemma then_ret_ok:
  assumes "\<And>r s' w'. m s = Some (r, (s', w')) \<Longrightarrow> registry_ok s'"
  shows "all_ok (obnd m (\<lambda>_. always (ret b)) s)"
  using assms by (auto simp: obnd_def always_def ret_def split: option.split run.split prod.split)

lemma start_all_ok: "registry_ok s \<Longrightarrow> all_ok (start_all E order (s, w))"
proof (induction order arbitrary: s w)
  case (Cons i order)
  show ?case
  proof (cases "map_of (ps_devices s) i")
    case None
    with Cons show ?thesis by simp
  next
    case (Some dp)
    have ok: "registry_ok s'" if "on_entry i (startDevicePoller E) dp (s, w) = Some (r, (s', w'))" for r s' w'
      using on_entry_ok [OF keeping_start Cons.prems _ _ that] registry_ok_entry [OF Cons.prems Some] by blast
    then show ?thesis
      using Some Cons.IH by (auto simp: obnd_def split: option.split run.split)
  qed
qed simp

lemma RegisterDevice_ok: "registry_ok s \<Longrightarrow> all_ok (RegisterDevice E d (s, w))"
proof -
  assume s: "registry_ok s"
  show ?thesis
  proof (cases "map_of (ps_devices s) (dev_ID d) \<noteq> None \<or> \<not> dev_Enabled d")
    case True
    with s show ?thesis by (auto simp: RegisterDevice_def)
  next
    case False
    have s1: "registry_ok (set_poller (dev_ID d) (new_poller d) s)"
      using False s by (intro registry_ok_set) (simp_all add: new_poller_def)
    have "registry_ok s'" if "on_entry (dev_ID d) (startDevicePoller E) (new_poller d)
        (set_poller (dev_ID d) (new_poller d) s, w) = Some (r, (s', w'))" for r s' w'
      using on_entry_ok [OF keeping_start s1 _ _ that] False by (simp add: new_poller_def)
    then have "all_ok (obnd (on_entry (dev_ID d) (startDevicePoller E) (new_poller d))
        (\<lambda>_. always (ret (None :: gerror option))) (set_poller (dev_ID d) (new_poller d) s, w))"
      by (rule then_ret_ok)
    with False s1 show ?thesis by (simp add: RegisterDevice_def Let_def)
  qed
qed

lemma world_on_client: "preserves (on_client P) (unsubscribe E i)"
  unfolding unsubscribe_def by (intro preserving)

lemma remove_poller_ok: "preserves (on_client registry_ok) (remove_poller E i dp)"
  unfolding remove_poller_def
  by (intro preserving world_on_client on_client_upd) (simp add: registry_ok_delete)

lemma UnregisterDevice_ok: "preserves (on_client registry_ok) (UnregisterDevice E i)"
  unfolding UnregisterDevice_def by (intro preserving remove_poller_ok)

lemma Stop_ok: "preserves (on_client registry_ok) (Stop E)"
  unfolding Stop_def by (intro preserving on_client_upd) (simp_all add: registry_ok_def)

lemma restart_entry_ok:
  assumes "registry_ok s" and "dev_ID (dpo_device dp) = i" and "dev_Enabled (dpo_device dp)"
  shows "all_ok (obnd (on_entry i (restart E) dp) (\<lambda>_. always (ret b)) (s, w))"
  by (rule then_ret_ok) (rule on_entry_ok [OF keeping_restart assms])

lemma ReplaceDevice_ok:
  assumes "registry_ok s"
  shows "all_ok (ReplaceDevice E d (s, w))"
proof (cases "map_of (ps_devices s) (dev_ID d)")
  case None
  with assms show ?thesis by (simp add: ReplaceDevice_def RegisterDevice_ok)
next
  case (Some dp)
  show ?thesis
  proof (cases "dev_Enabled d")
    case False
    have "preserves (on_client registry_ok) (bnd (remove_poller E (dev_ID d) dp) (\<lambda>_. ret b))" for b :: "gerror option"
      by (intro preserving remove_poller_ok)
    from preservesD [OF this, of "(s, w)"] assms Some False show ?thesis
      by (simp add: ReplaceDevice_def always_def all_ok_def on_client_def)
  next
    case True
    let ?dp = "dp\<lparr>dpo_device := d\<rparr>"
    let ?s = "set_poller (dev_ID d) ?dp s"
    have s1: "registry_ok ?s" using assms True by (intro registry_ok_set) simp_all
    obtain r s2 w2 where un: "unsubscribe E (dev_ID d) (?s, w) = (r, (s2, w2))" by (metis surj_pair)
    have s2: "registry_ok s2"
      using preservesD [OF world_on_client, of registry_ok "(?s, w)" E "dev_ID d"] s1 un by (simp add: on_client_def)
    have again: "all_ok (obnd (on_entry (dev_ID d) (restart E) ?dp) (\<lambda>_. always (ret (None :: gerror option))) (?s, w))"
      using s1 True by (intro restart_entry_ok) simp_all
    have resubscribe: "all_ok (obnd (on_entry (dev_ID d) (restart E) (?dp\<lparr>dpo_subscribed := False\<rparr>))
        (\<lambda>_. always (ret (None :: gerror option))) (s2, w2))"
      using s2 True by (intro restart_entry_ok) simp_all
    have "all_ok (obnd (always (unsubscribe E (dev_ID d))) (\<lambda>_.
        obnd (on_entry (dev_ID d) (restart E) (?dp\<lparr>dpo_subscribed := False\<rparr>)) (\<lambda>_. always (ret (None :: gerror option)))) (?s, w))"
      using resubscribe s2 by (cases r) (simp_all add: obnd_def [of "always _"] always_def [of "unsubscribe _ _"] un)
    with again s1 Some True show ?thesis by (simp add: ReplaceDevice_def Let_def)
  qed
qed

text \<open>
  C12. The registry holds one poller per device, under the ID of the device it polls, and only enabled
  devices: registering, replacing (also with a changed, disabled or unknown device), removing,
  starting and stopping keep this whenever they return.
\<close>

theorem registry_invariant:
  assumes "registry_ok s"
  shows "all_ok (RegisterDevice E d (s, w)) \<and> all_ok (ReplaceDevice E d (s, w)) \<and>
    registry_ok (fst (snd (UnregisterDevice E i (s, w)))) \<and> registry_ok (fst (snd (Stop E (s, w)))) \<and>
    all_ok (Start E order (s, w)) \<and> registry_ok (NewPollingService config)"
proof -
  have "registry_ok (s\<lparr>ps_cancelled := False, ps_started := True\<rparr>)" using assms by (simp add: registry_ok_def)
  then have "all_ok (Start E order (s, w))" using assms by (simp add: Start_def start_all_ok)
  moreover have "registry_ok (NewPollingService config)"
    by (simp add: registry_ok_def NewPollingService_def)
  ultimately show ?thesis
    using assms preservesD [OF UnregisterDevice_ok, of "(s, w)" E i] preservesD [OF Stop_ok, of "(s, w)" E]
    by (simp add: RegisterDevice_ok ReplaceDevice_ok on_client_def)
qed

theorem registry_invariant_witness:
  "all_ok (RegisterDevice (sample_polling_env dead_env) polled_device (sample_service, (sample_pool 2, 0))) \<and>
   all_ok (ReplaceDevice (sample_polling_env dead_env) polled_device (sample_service, (sample_pool 2, 0))) \<and>
   registry_ok (fst (snd (UnregisterDevice (sample_polling_env dead_env) ''plc1'' (sample_service, (sample_pool 2, 0))))) \<and>
   registry_ok (fst (snd (Stop (sample_polling_env dead_env) (sample_service, (sample_pool 2, 0))))) \<and>
   all_ok (Start (sample_polling_env dead_env) [] (sample_service, (sample_pool 2, 0))) \<and>
   registry_ok (NewPollingService (ps_config sample_service))"
  by (rule registry_invariant) (simp add: registry_ok_def sample_service_def NewPollingService_def)

text \<open>
  Replacing a registered device with an enabled one keeps what was learnt by polling: whenever it
  returns without a panic, the device's entry has the new configuration with the counters, the time
  of the last poll and the last error of the old entry, and no other entry has changed.
\<close>

theorem replace_keeps_history:
  assumes "map_of (ps_devices s) (dev_ID d) = Some dp" and "dev_Enabled d"
    and "ReplaceDevice E d (s, w) = Some (Val err, (s', w'))"
  shows "\<exists>dp'. map_of (ps_devices s') = (map_of (ps_devices s))(dev_ID d \<mapsto> dp') \<and>
    history dp' = history (dp\<lparr>dpo_device := d\<rparr>) \<and> err = None"
proof -
  let ?dp = "dp\<lparr>dpo_device := d\<rparr>"
  let ?s = "set_poller (dev_ID d) ?dp s"
  have entry: "\<exists>dp'. map_of (ps_devices s') = (map_of (ps_devices s))(dev_ID d \<mapsto> dp') \<and>
      history dp' = history ?dp \<and> err = None"
    if run: "obnd (on_entry (dev_ID d) (restart E) q) (\<lambda>_. always (ret None)) (s1, w1) = Some (Val err, (s', w'))"
      and "ps_devices s1 = ps_devices ?s" "history q = history ?dp" for q s1 w1
  proof -
    from run obtain u s2 w2 where e: "on_entry (dev_ID d) (restart E) q (s1, w1) = Some (Val u, (s2, w2))"
      and [simp]: "s' = s2" "err = None"
      by (auto simp: obnd_def always_def ret_def split: option.splits run.splits prod.splits)
    from on_entry_run [OF keeping_restart e] obtain dp' s3 where
      "s2 = set_poller (dev_ID d) dp' s3" "ps_devices s3 = ps_devices s1" "history dp' = history q" .
    with that(2,3) show ?thesis by (auto simp: set_poller_def AList.update_conv' fun_eq_iff)
  qed
  show ?thesis
  proof (cases "dpo_subscribed dp")
    case True
    obtain r s2 w2 where un: "unsubscribe E (dev_ID d) (?s, w) = (r, (s2, w2))" by (metis surj_pair)
    have "preserves (on_client (\<lambda>s'. s' = ?s)) (unsubscribe E (dev_ID d))" by (rule world_on_client)
    from preservesD [OF this, of "(?s, w)"] un have "s2 = ?s" by (simp add: on_client_def)
    with True assms un have "obnd (on_entry (dev_ID d) (restart E) (?dp\<lparr>dpo_subscribed := False\<rparr>))
        (\<lambda>_. always (ret None)) (?s, w2) = Some (Val err, (s', w'))"
      by (cases r) (simp_all add: ReplaceDevice_def Let_def obnd_def [of "always _"] always_def [of "unsubscribe _ _"])
    then show ?thesis by (rule entry) (simp_all add: history_def)
  next
    case False
    with assms show ?thesis
      by (auto simp: ReplaceDevice_def Let_def set_poller_def AList.update_conv' intro!: entry split: if_splits)
  qed
qed

theorem replace_keeps_history_witness:
  "\<exists>dp'. map_of (ps_devices (set_poller ''plc1'' (new_poller polled_device) sample_service)) =
      (map_of (ps_devices (set_poller ''plc1'' (new_poller sample_device) sample_service)))(dev_ID polled_device \<mapsto> dp') \<and>
    history dp' = history ((new_poller sample_device)\<lparr>dpo_device := polled_device\<rparr>) \<and> (None :: gerror option) = None"
proof (rule replace_keeps_history)
  show "ReplaceDevice (sample_polling_env dead_env) polled_device
      (set_poller ''plc1'' (new_poller sample_device) sample_service, (sample_pool 2, 0)) =
    Some (Val None, (set_poller ''plc1'' (new_poller polled_device) sample_service, (sample_pool 2, 0)))"
    by (simp add: ReplaceDevice_def polled_device_simps set_poller_def sample_service_def NewPollingService_def
        new_poller_def subscription_of_def) (simp add: polled_device_def sample_device_def sample_connection_def)
  show "map_of (ps_devices (set_poller ''plc1'' (new_poller sample_device) sample_service)) (dev_ID polled_device) =
      Some (new_poller sample_device)"
    by (simp add: set_poller_def sample_service_def NewPollingService_def polled_device_simps)
  show "dev_Enabled polled_device" by (simp add: polled_device_def sample_device_def)
qed

end
