(* ===== verification/PollerLoop.thy ===== *)
theory PollerLoop
  imports Prelude
begin

text \<open>
  The goroutines of one device's poller (\<open>startDevicePoller\<close>, \<open>stopAndResetPoller\<close> and their
  callers in \<open>internal/service/polling.go\<close>) as a step relation: a goroutine sleeps its jitter,
  polls, and waits in \<open>select\<close> for the stop channel, the context or the ticker; the registry's
  operations, one at a time under its lock, close and replace the stop channel. A channel is a
  number; a goroutine that enters \<open>select\<close> reads \<open>dp.stopChan\<close> as it is then.
\<close>

datatype goroutine = Sleeping | InPoll | Selecting nat | Exited

text \<open>
  Where the registry's operation on this device is: none, waiting in \<open>stopAndResetPoller\<close>, about to
  replace the channel, about to start the poller again, or the device is unregistered.
\<close>

datatype operation = Free | Draining | Resetting | Restarting | Gone

record poller_loop =
  lo_stopChan :: nat
  lo_closed :: "nat list"
  lo_once :: bool
  lo_running :: bool
  lo_ctxDone :: bool
  lo_op :: operation
  lo_goroutines :: "goroutine list"

definition new_loop :: poller_loop where
  "new_loop = \<lparr>lo_stopChan = 0, lo_closed = [], lo_once = False, lo_running = False,
     lo_ctxDone = False, lo_op = Free, lo_goroutines = []\<rparr>"

text \<open>\<open>stopOnce.Do(close(stopChan))\<close>.\<close>

definition close_once :: "poller_loop \<Rightarrow> poller_loop" where
  "close_once l =
     (if lo_once l then l else l\<lparr>lo_once := True, lo_closed := lo_stopChan l # lo_closed l\<rparr>)"

definition moves :: "nat \<Rightarrow> goroutine \<Rightarrow> poller_loop \<Rightarrow> poller_loop" where
  "moves i g l = l\<lparr>lo_goroutines := (lo_goroutines l)[i := g]\<rparr>"

definition spawn :: "poller_loop \<Rightarrow> poller_loop" where
  "spawn l = (if lo_running l then l
     else l\<lparr>lo_running := True, lo_goroutines := lo_goroutines l @ [Sleeping]\<rparr>)"

text \<open>
  \<open>patient\<close>: the goroutine always clears \<open>running\<close> within the five seconds \<open>stopAndResetPoller\<close>
  waits, so the forced restart does not happen.
\<close>

inductive poller_step :: "bool \<Rightarrow> poller_loop \<Rightarrow> poller_loop \<Rightarrow> bool" for patient :: bool where
  start: "lo_op l = Free \<Longrightarrow> poller_step patient l (spawn l)"
| wake: "i < length (lo_goroutines l) \<Longrightarrow> lo_goroutines l ! i = Sleeping \<Longrightarrow>
    poller_step patient l (moves i InPoll l)"
| polled: "i < length (lo_goroutines l) \<Longrightarrow> lo_goroutines l ! i = InPoll \<Longrightarrow>
    poller_step patient l (moves i (Selecting (lo_stopChan l)) l)"
| tick: "i < length (lo_goroutines l) \<Longrightarrow> lo_goroutines l ! i = Selecting c \<Longrightarrow>
    poller_step patient l (moves i InPoll l)"
| stopped: "i < length (lo_goroutines l) \<Longrightarrow> lo_goroutines l ! i = Selecting c \<Longrightarrow>
    c \<in> set (lo_closed l) \<or> lo_ctxDone l \<Longrightarrow>
    poller_step patient l (moves i Exited l\<lparr>lo_running := False\<rparr>)"
| cancel: "poller_step patient l (l\<lparr>lo_ctxDone := True\<rparr>)"
| stop: "lo_op l = Free \<Longrightarrow> lo_running l \<Longrightarrow> poller_step patient l (close_once l\<lparr>lo_op := Draining\<rparr>)"
| idle: "lo_op l = Free \<Longrightarrow> \<not> lo_running l \<Longrightarrow> poller_step patient l (l\<lparr>lo_op := Resetting\<rparr>)"
| drained: "lo_op l = Draining \<Longrightarrow> \<not> lo_running l \<Longrightarrow> poller_step patient l (l\<lparr>lo_op := Resetting\<rparr>)"
| forced: "lo_op l = Draining \<Longrightarrow> \<not> patient \<Longrightarrow>
    poller_step patient l (l\<lparr>lo_op := Resetting, lo_running := False\<rparr>)"
| reset: "lo_op l = Resetting \<Longrightarrow>
    poller_step patient l (l\<lparr>lo_op := Restarting, lo_stopChan := Suc (lo_stopChan l), lo_once := False\<rparr>)"
| restarted: "lo_op l = Restarting \<Longrightarrow> poller_step patient l (spawn l\<lparr>lo_op := Free\<rparr>)"
| unregister: "lo_op l = Free \<Longrightarrow>
    poller_step patient l ((if lo_running l then close_once l else l)\<lparr>lo_op := Gone\<rparr>)"

inductive reachable :: "bool \<Rightarrow> poller_loop \<Rightarrow> bool" for patient :: bool where
  init: "reachable patient new_loop"
| step: "reachable patient l \<Longrightarrow> poller_step patient l l' \<Longrightarrow> reachable patient l'"

section \<open>One goroutine at a time\<close>

fun live :: "goroutine \<Rightarrow> bool" where
  "live Exited = False"
| "live _ = True"

definition live_count :: "poller_loop \<Rightarrow> nat" where
  "live_count l = length (filter live (lo_goroutines l))"

lemma live_count_moves:
  assumes "i < length gs"
  shows "length (filter live (gs[i := g])) + (if live (gs ! i) then 1 else 0) =
    length (filter live gs) + (if live g then 1 else 0)"
  using assms
proof (induction gs arbitrary: i)
  case (Cons h gs)
  show ?case
  proof (cases i)
    case (Suc j)
    with Cons.IH [of j] Cons.prems show ?thesis by auto
  qed simp
qed simp

text \<open>
  \<open>running\<close> tells whether there is a goroutine, there is at most one, it waits on the current
  channel, and that channel is closed exactly when \<open>stopOnce\<close> has fired. While an operation drains,
  and once the device is gone with a goroutine left, it has fired.
\<close>

definition loop_inv :: "poller_loop \<Rightarrow> bool" where
  "loop_inv l \<longleftrightarrow>
     live_count l = (if lo_running l then 1 else 0) \<and>
     (\<forall>c. Selecting c \<in> set (lo_goroutines l) \<longrightarrow> c = lo_stopChan l) \<and>
     (lo_stopChan l \<in> set (lo_closed l)) = lo_once l \<and> list_all (\<lambda>c. c \<le> lo_stopChan l) (lo_closed l) \<and>
     (lo_op l = Draining \<longrightarrow> lo_once l) \<and> (lo_op l \<in> {Resetting, Restarting} \<longrightarrow> \<not> lo_running l) \<and>
     (lo_op l = Gone \<and> lo_running l \<longrightarrow> lo_once l)"

lemma loop_inv_new: "loop_inv new_loop"
  by (simp add: loop_inv_def new_loop_def live_count_def)

lemma loop_inv_spawn: "loop_inv l \<Longrightarrow> lo_op l \<noteq> Gone \<Longrightarrow> loop_inv (spawn l\<lparr>lo_op := Free\<rparr>)"
  by (auto simp: loop_inv_def spawn_def live_count_def split: if_splits)

lemma no_live_selecting: "live_count l = 0 \<Longrightarrow> Selecting c \<notin> set (lo_goroutines l)"
  by (auto simp: live_count_def filter_empty_conv)

lemma loop_inv_moves:
  assumes "loop_inv l" and "i < length (lo_goroutines l)" and "live (lo_goroutines l ! i)"
    and "g = InPoll \<or> g = Selecting (lo_stopChan l)"
  shows "loop_inv (moves i g l)"
proof -
  have "live g" using assms(4) by auto
  then have "live_count (moves i g l) = live_count l"
    using live_count_moves [OF assms(2), of g] assms(3) by (simp add: live_count_def moves_def)
  moreover have "c = lo_stopChan l" if "Selecting c \<in> set (lo_goroutines (moves i g l))" for c
    using that assms(1,4) set_update_subset_insert [of "lo_goroutines l" i g]
    by (auto simp: moves_def loop_inv_def)
  ultimately show ?thesis using assms(1) by (simp add: loop_inv_def moves_def)
qed

lemma loop_inv_exits:
  assumes "loop_inv l" and "i < length (lo_goroutines l)" and "live (lo_goroutines l ! i)"
  shows "loop_inv (moves i Exited l\<lparr>lo_running := False\<rparr>)"
proof -
  have "0 < live_count l" using live_count_moves [OF assms(2), of Exited] assms(3)
    by (simp add: live_count_def del: length_greater_0_conv)
  with assms(1) have "live_count l = 1" by (simp add: loop_inv_def split: if_splits)
  then have "live_count (moves i Exited l) = 0"
    using live_count_moves [OF assms(2), of Exited] assms(3) by (simp add: live_count_def moves_def)
  moreover have "Selecting c \<notin> set (lo_goroutines (moves i Exited l))" for c
    using no_live_selecting [OF calculation] .
  ultimately show ?thesis using assms(1) by (simp add: loop_inv_def moves_def live_count_def)
qed

lemma poller_step_inv: "poller_step True l l' \<Longrightarrow> loop_inv l \<Longrightarrow> loop_inv l'"
proof (induction rule: poller_step.induct)
  case (start l)
  moreover have "spawn l\<lparr>lo_op := Free\<rparr> = spawn l" using start by (cases l) (simp add: spawn_def)
  ultimately show ?case using loop_inv_spawn [of l] by simp
next
  case (wake i l)
  then show ?case by (intro loop_inv_moves) simp_all
next
  case (polled i l)
  then show ?case by (intro loop_inv_moves) simp_all
next
  case (tick i l c)
  then show ?case by (intro loop_inv_moves) simp_all
next
  case (stopped i l c)
  then show ?case by (intro loop_inv_exits) simp_all
next
  case (cancel l)
  then show ?case by (simp add: loop_inv_def live_count_def)
next
  case (stop l)
  then show ?case by (auto simp: loop_inv_def close_once_def live_count_def)
next
  case (idle l)
  then show ?case by (simp add: loop_inv_def live_count_def)
next
  case (drained l)
  then show ?case by (simp add: loop_inv_def live_count_def)
next
  case (forced l)
  then show ?case by simp
next
  case (reset l)
  then have "live_count l = 0" by (simp add: loop_inv_def)
  with no_live_selecting [OF this] reset show ?case
    by (auto simp: loop_inv_def live_count_def list_all_iff)
next
  case (restarted l)
  then show ?case by (intro loop_inv_spawn) simp_all
next
  case (unregister l)
  then show ?case by (auto simp: loop_inv_def close_once_def live_count_def)
qed

lemma reachable_inv: "reachable True l \<Longrightarrow> loop_inv l"
  by (induction rule: reachable.induct) (auto intro: loop_inv_new poller_step_inv)


lemma reachable_started: "reachable patient (spawn new_loop)"
  by (rule reachable.step [OF reachable.init poller_step.start]) (simp add: new_loop_def)


section \<open>An unregistered poller stops\<close>

definition steps :: "poller_loop \<Rightarrow> poller_loop \<Rightarrow> bool" where
  "steps = (poller_step True)\<^sup>*\<^sup>*"

lemma steps_refl: "steps l l"
  by (simp add: steps_def)

lemma steps_step: "poller_step True l l' \<Longrightarrow> steps l' l'' \<Longrightarrow> steps l l''"
  unfolding steps_def by (rule converse_rtranclp_into_rtranclp)

lemma moves_simps [simp]:
  "lo_op (moves i g l) = lo_op l" "lo_running (moves i g l) = lo_running l" "lo_closed (moves i g l) = lo_closed l"
  "lo_stopChan (moves i g l) = lo_stopChan l" "lo_goroutines (moves i g l) = (lo_goroutines l)[i := g]"
  by (simp_all add: moves_def)

lemma gone_selecting_exits:
  assumes "loop_inv l" and "lo_op l = Gone" and "lo_running l"
    and "i < length (lo_goroutines l)" and "lo_goroutines l ! i = Selecting c"
  shows "\<exists>l'. steps l l' \<and> live_count l' = 0"
proof -
  have "c = lo_stopChan l" "lo_stopChan l \<in> set (lo_closed l)"
    using assms nth_mem [OF assms(4)] by (auto simp: loop_inv_def)
  then have s: "poller_step True l (moves i Exited l\<lparr>lo_running := False\<rparr>)"
    using assms(4,5) by (intro poller_step.stopped [of _ _ c]) simp_all
  have "loop_inv (moves i Exited l\<lparr>lo_running := False\<rparr>)" using assms by (intro loop_inv_exits) simp_all
  then have "live_count (moves i Exited l\<lparr>lo_running := False\<rparr>) = 0" by (simp add: loop_inv_def)
  with steps_step [OF s steps_refl] show ?thesis by blast
qed

lemma gone_polling_exits:
  assumes "loop_inv l" and "lo_op l = Gone" and "lo_running l"
    and "i < length (lo_goroutines l)" and "lo_goroutines l ! i = InPoll"
  shows "\<exists>l'. steps l l' \<and> live_count l' = 0"
proof -
  let ?m = "moves i (Selecting (lo_stopChan l)) l"
  have s: "poller_step True l ?m" using assms(4,5) by (intro poller_step.polled)
  have "loop_inv ?m" using assms by (intro loop_inv_moves) simp_all
  then obtain l' where "steps ?m l'" "live_count l' = 0"
    using gone_selecting_exits [of ?m i "lo_stopChan l"] assms(2-4) by auto
  with steps_step [OF s] show ?thesis by blast
qed

text \<open>
  Once a device is unregistered its goroutine can always end: from every reachable state there is a
  way to one with no goroutine left, since the channel it waits on is the one that was closed.
\<close>

theorem unregistered_poller_can_stop:
  assumes "reachable True l" and "lo_op l = Gone"
  shows "\<exists>l'. steps l l' \<and> live_count l' = 0"
proof (cases "lo_running l")
  case False
  with reachable_inv [OF assms(1)] have "live_count l = 0" by (simp add: loop_inv_def)
  with steps_refl show ?thesis by blast
next
  case True
  note inv = reachable_inv [OF assms(1)]
  with True have "live_count l = 1" by (simp add: loop_inv_def)
  then have "\<exists>g\<in>set (lo_goroutines l). live g" by (auto simp: live_count_def length_Suc_conv filter_eq_Cons_iff)
  then obtain i where i: "i < length (lo_goroutines l)" "live (lo_goroutines l ! i)"
    by (auto simp: in_set_conv_nth)
  show ?thesis
  proof (cases "lo_goroutines l ! i")
    case Sleeping
    then have s: "poller_step True l (moves i InPoll l)" using i(1) by (intro poller_step.wake)
    have "loop_inv (moves i InPoll l)" using inv i by (intro loop_inv_moves) simp_all
    then obtain l' where "steps (moves i InPoll l) l'" "live_count l' = 0"
      using gone_polling_exits [of "moves i InPoll l" i] assms(2) True i(1) by auto
    with steps_step [OF s] show ?thesis by blast
  next
    case InPoll
    then show ?thesis using gone_polling_exits [OF inv assms(2) True i(1)] by blast
  next
    case (Selecting c)
    then show ?thesis using gone_selecting_exits [OF inv assms(2) True i(1)] by blast
  next
    case Exited
    with i(2) show ?thesis by simp
  qed
qed

theorem unregistered_poller_can_stop_witness:
  "\<exists>l'. steps (close_once (spawn new_loop)\<lparr>lo_op := Gone\<rparr>) l' \<and> live_count l' = 0"
proof (rule unregistered_poller_can_stop)
  have "poller_step True (spawn new_loop)
      ((if lo_running (spawn new_loop) then close_once (spawn new_loop) else spawn new_loop)\<lparr>lo_op := Gone\<rparr>)"
    by (rule poller_step.unregister) (simp add: spawn_def new_loop_def)
  then show "reachable True (close_once (spawn new_loop)\<lparr>lo_op := Gone\<rparr>)"
    using reachable.step [OF reachable_started] by (simp add: spawn_def new_loop_def)
qed simp

section \<open>A forced restart\<close>

text \<open>
  When a poll outlasts the five seconds, the restart goes on without it and the device is polled
  twice from then on: there is a reachable state with two goroutines, both waiting on the open
  channel, while \<open>running\<close> is set and no operation is going on. The first goroutine reads the new
  channel when it comes back to \<open>select\<close>, so the closed one never stops it.
\<close>

theorem forced_restart_polls_twice:
  "\<exists>l. reachable False l \<and> lo_op l = Free \<and> lo_running l \<and> \<not> lo_ctxDone l \<and>
     lo_goroutines l = [Selecting (lo_stopChan l), Selecting (lo_stopChan l)] \<and>
     lo_stopChan l \<notin> set (lo_closed l)"
proof -
  let ?l = "\<lambda>chan closed once run op gs. \<lparr>lo_stopChan = chan, lo_closed = closed, lo_once = once, lo_running = run,
     lo_ctxDone = False, lo_op = op, lo_goroutines = gs\<rparr>"
  note defs = moves_def close_once_def spawn_def
  have 0: "reachable False (?l 0 [] False True Free [Sleeping])"
    using reachable_started [of False] by (simp add: spawn_def new_loop_def)
  have 1: "reachable False (?l 0 [] False True Free [InPoll])"
    using reachable.step [OF 0 poller_step.wake [of 0]] by (simp add: defs)
  have 2: "reachable False (?l 0 [0] True True Draining [InPoll])"
    using reachable.step [OF 1 poller_step.stop] by (simp add: defs)
  have 3: "reachable False (?l 0 [0] True False Resetting [InPoll])"
    using reachable.step [OF 2 poller_step.forced] by simp
  have 4: "reachable False (?l 1 [0] False False Restarting [InPoll])"
    using reachable.step [OF 3 poller_step.reset] by simp
  have 5: "reachable False (?l 1 [0] False True Free [InPoll, Sleeping])"
    using reachable.step [OF 4 poller_step.restarted] by (simp add: defs)
  have 6: "reachable False (?l 1 [0] False True Free [Selecting 1, Sleeping])"
    using reachable.step [OF 5 poller_step.polled [of 0]] by (simp add: defs)
  have 7: "reachable False (?l 1 [0] False True Free [Selecting 1, InPoll])"
    using reachable.step [OF 6 poller_step.wake [of 1]] by (simp add: defs)
  have "reachable False (?l 1 [0] False True Free [Selecting 1, Selecting 1])"
    using reachable.step [OF 7 poller_step.polled [of 1]] by (simp add: defs)
  then show ?thesis by (intro exI conjI) (assumption, simp_all)
qed

end
