(* ===== verification/Publisher.thy ===== *)
theory Publisher
  imports Polling
begin

text \<open>
  The MQTT publisher (\<open>adapter/mqtt/publisher.go\<close>): its buffer for messages while the broker is
  away, the loop that empties it, publishing with its counters, and the statistics per topic. The
  broker client (paho) is a parameter: a publish ends as its token, the timeout or the context
  says. So are the JSON encoding of a point, the clock, the order of map walks and the choices
  of \<open>select\<close>. Each method runs as one sequence; TLS set-up, metrics and logging are left out.
\<close>

section \<open>State\<close>

record publisher_config =
  pc_BrokerURL :: string
  pc_ClientID :: string
  pc_Username :: string
  pc_Password :: string
  pc_CleanSession :: bool
  pc_QoS :: byte
  pc_KeepAlive :: int
  pc_ConnectTimeout :: int
  pc_ReconnectDelay :: int
  pc_MaxReconnect :: int
  pc_TLSEnabled :: bool
  pc_TLSCertFile :: string
  pc_TLSKeyFile :: string
  pc_TLSCAFile :: string
  pc_BufferSize :: int
  pc_PublishTimeout :: int
  pc_RetainMessages :: bool

record buffered_message =
  bm_Topic :: string
  bm_Payload :: string
  bm_QoS :: byte
  bm_Retained :: bool
  bm_Timestamp :: int

record publisher_stats =
  us_MessagesPublished :: u64
  us_MessagesFailed :: u64
  us_MessagesBuffered :: u64
  us_BytesSent :: u64
  us_ReconnectCount :: u64

record topic_stat =
  ts_Count :: u64
  ts_LastPublished :: int
  ts_LastPayloadBytes :: nat

text \<open>\<open>messageBuffer\<close> is a channel: the messages in it, oldest first.\<close>

record publisher =
  pb_config :: publisher_config
  pb_hasClient :: bool
  pb_connected :: bool
  pb_reconnecting :: bool
  pb_buffer :: "buffered_message list"
  pb_doneClosed :: bool
  pb_stats :: publisher_stats
  pb_topicStats :: "(string \<times> topic_stat) list"

text \<open>How \<open>publishRaw\<close>'s \<open>select\<close> ends, and how the connection attempt does.\<close>

datatype publish_outcome = Delivered | TokenFailed string | PublishTimedOut | PublishCtxDone string

datatype connect_outcome = Established | ConnectTimedOut | ConnectRefused string | ConnectCtxDone string

record 'w publisher_env =
  pu_Publish :: "string \<Rightarrow> byte \<Rightarrow> bool \<Rightarrow> string \<Rightarrow> 'w \<Rightarrow> publish_outcome \<times> 'w"
  pu_Connect :: "publisher_config \<Rightarrow> 'w \<Rightarrow> connect_outcome \<times> 'w"
  pu_Disconnect :: "'w \<Rightarrow> unit \<times> 'w"
  pu_createTLS :: "publisher_config \<Rightarrow> gerror option"
  pu_ToJSON :: "data_point \<Rightarrow> lib_error + string"
  pu_StatusJSON :: "string \<Rightarrow> string \<Rightarrow> (string \<times> u64) list \<Rightarrow> int \<Rightarrow> lib_error + string"
  pu_Now :: "'w \<Rightarrow> int \<times> 'w"
  pu_order :: "string list \<Rightarrow> 'w \<Rightarrow> string list \<times> 'w"
  pu_prefer :: "'w \<Rightarrow> bool \<times> 'w"
  pu_drainTimeout :: "int \<Rightarrow> 'w \<Rightarrow> bool \<times> 'w"
  pu_doneWithin :: "int \<Rightarrow> 'w \<Rightarrow> bool \<times> 'w"

type_synonym ('w, 'a) pub = "(publisher \<times> 'w, 'a) prog"

definition DefaultConfig :: publisher_config where
  "DefaultConfig =
     \<lparr>pc_BrokerURL = ''tcp://localhost:1883'', pc_ClientID = ''protocol-gateway'', pc_Username = '''',
      pc_Password = '''', pc_CleanSession = True, pc_QoS = 1, pc_KeepAlive = 30000000000,
      pc_ConnectTimeout = 10000000000, pc_ReconnectDelay = 5000000000, pc_MaxReconnect = - 1,
      pc_TLSEnabled = False, pc_TLSCertFile = '''', pc_TLSKeyFile = '''', pc_TLSCAFile = '''',
      pc_BufferSize = 10000, pc_PublishTimeout = 5000000000, pc_RetainMessages = False\<rparr>"

text \<open>\<open>make\<close> of a channel panics for a negative capacity.\<close>

definition NewPublisher :: "publisher_config \<Rightarrow> publisher run" where
  "NewPublisher config =
     (let c = config\<lparr>pc_BufferSize := default_int 10000 (pc_BufferSize config),
                     pc_PublishTimeout := default_int 5000000000 (pc_PublishTimeout config),
                     pc_KeepAlive := default_int 30000000000 (pc_KeepAlive config),
                     pc_ConnectTimeout := default_int 10000000000 (pc_ConnectTimeout config),
                     pc_ReconnectDelay := default_int 5000000000 (pc_ReconnectDelay config)\<rparr>
      in if pc_BufferSize c < 0 then Panic ''makechan: size out of range''
         else Val \<lparr>pb_config = c, pb_hasClient = False, pb_connected = False, pb_reconnecting = False,
                   pb_buffer = [], pb_doneClosed = False,
                   pb_stats = \<lparr>us_MessagesPublished = 0, us_MessagesFailed = 0, us_MessagesBuffered = 0,
                                us_BytesSent = 0, us_ReconnectCount = 0\<rparr>,
                   pb_topicStats = []\<rparr>)"

definition count_pub :: "(publisher_stats \<Rightarrow> publisher_stats) \<Rightarrow> ('w, unit) pub" where
  "count_pub f = upd (\<lambda>p. p\<lparr>pb_stats := f (pb_stats p)\<rparr>)"

definition pub_failed :: "('w, unit) pub" where
  "pub_failed = count_pub (\<lambda>st. st\<lparr>us_MessagesFailed := us_MessagesFailed st + 1\<rparr>)"

section \<open>Topic statistics\<close>

text \<open>
  The walk of the map gives the topics in any order, and \<open>sort.Slice\<close> leaves those of one time in
  any order: a stable sort of an arbitrary walk gives each of the possible results.
\<close>

definition walk_topics :: "'w publisher_env \<Rightarrow> ('w, (string \<times> topic_stat) list) pub" where
  "walk_topics E =
     bnd (field pb_topicStats) (\<lambda>stats.
     bnd (call (pu_order E (map fst stats))) (\<lambda>order.
     ret (concat (map (\<lambda>t. case map_of stats t of None \<Rightarrow> [] | Some st \<Rightarrow> [(t, st)]) order))))"

definition ActiveTopics :: "'w publisher_env \<Rightarrow> int \<Rightarrow> ('w, (string \<times> topic_stat) list) pub" where
  "ActiveTopics E limit =
     (let limit = (if limit \<le> 0 then 200 else limit) in
      bnd (walk_topics E) (\<lambda>out.
      ret (take (nat limit) (sort_key (\<lambda>(t, st). - ts_LastPublished st) out))))"

definition maxTrackedTopics :: nat where
  "maxTrackedTopics = 10000"

definition evictOldestTopicsLocked :: "'w publisher_env \<Rightarrow> nat \<Rightarrow> ('w, unit) pub" where
  "evictOldestTopicsLocked E n =
     bnd (field pb_topicStats) (\<lambda>stats.
     if n = 0 \<or> stats = [] then ret ()
     else
       bnd (walk_topics E) (\<lambda>topics.
       let oldest = take n (map fst (sort_key (\<lambda>(t, st). ts_LastPublished st) topics)) in
       upd (\<lambda>p. p\<lparr>pb_topicStats := filter (\<lambda>(t, st). t \<notin> set oldest) (pb_topicStats p)\<rparr>)))"

definition recordTopicPublish :: "'w publisher_env \<Rightarrow> string \<Rightarrow> nat \<Rightarrow> ('w, unit) pub" where
  "recordTopicPublish E topic payloadBytes =
     bnd (call (pu_Now E)) (\<lambda>now.
     bnd (field (\<lambda>p. map_of (pb_topicStats p) topic)) (\<lambda>known.
     bnd (field (\<lambda>p. length (pb_topicStats p))) (\<lambda>tracked.
     bnd (if known = None \<and> maxTrackedTopics \<le> tracked
          then evictOldestTopicsLocked E (maxTrackedTopics div 10) else ret ()) (\<lambda>_.
     upd (\<lambda>p. p\<lparr>pb_topicStats := AList.update topic
            \<lparr>ts_Count = (case known of None \<Rightarrow> 0 | Some st \<Rightarrow> ts_Count st) + 1, ts_LastPublished = now,
             ts_LastPayloadBytes = payloadBytes\<rparr> (pb_topicStats p)\<rparr>)))))"

section \<open>Publishing\<close>

definition publish_failure :: "string \<Rightarrow> gerror" where
  "publish_failure s = WrapV (MqttE ErrMQTTPublishFailed) s"

definition publishRaw :: "'w publisher_env \<Rightarrow> string \<Rightarrow> string \<Rightarrow> byte \<Rightarrow> bool \<Rightarrow> ('w, gerror option) pub" where
  "publishRaw E topic payload qos retained =
     bnd (field pb_hasClient) (\<lambda>client.
     if \<not> client then ret (Some (Sentinel (MqttE ErrMQTTNotConnected)))
     else
       bnd (call (pu_Publish E topic qos retained payload)) (\<lambda>outcome.
       case outcome of
         TokenFailed e \<Rightarrow> bnd pub_failed (\<lambda>_. ret (Some (publish_failure e)))
       | PublishTimedOut \<Rightarrow> bnd pub_failed (\<lambda>_. ret (Some (publish_failure ''publish timeout'')))
       | PublishCtxDone e \<Rightarrow> bnd pub_failed (\<lambda>_. ret (Some (publish_failure e)))
       | Delivered \<Rightarrow>
           bnd (count_pub (\<lambda>st. st\<lparr>us_MessagesPublished := us_MessagesPublished st + 1,
                                    us_BytesSent := us_BytesSent st + of_nat (length payload)\<rparr>)) (\<lambda>_.
           bnd (recordTopicPublish E topic (length payload)) (\<lambda>_.
           ret None))))"

definition serialize_failure :: "lib_error \<Rightarrow> gerror" where
  "serialize_failure e = WrapW ''failed to serialize data point'' (Lib e)"

text \<open>
  The capacity of the channel is \<open>BufferSize\<close>. With no other goroutine between the two steps
  the second send of the full case finds the slot the first receive made, unless the capacity
  is zero.
\<close>

definition bufferMessage :: "'w publisher_env \<Rightarrow> data_point \<Rightarrow> ('w, gerror option) pub" where
  "bufferMessage E dp =
     (case pu_ToJSON E dp of
        Inl e \<Rightarrow> ret (Some (serialize_failure e))
      | Inr payload \<Rightarrow>
          bnd (call (pu_Now E)) (\<lambda>now.
          bnd (field pb_config) (\<lambda>config.
          let msg = \<lparr>bm_Topic = dp_Topic dp, bm_Payload = payload, bm_QoS = pc_QoS config,
                     bm_Retained = pc_RetainMessages config, bm_Timestamp = now\<rparr>;
              send = bnd (upd (\<lambda>p. p\<lparr>pb_buffer := pb_buffer p @ [msg]\<rparr>)) (\<lambda>_.
                     bnd (count_pub (\<lambda>st. st\<lparr>us_MessagesBuffered := us_MessagesBuffered st + 1\<rparr>)) (\<lambda>_.
                     ret None)) in
          bnd (field (\<lambda>p. int (length (pb_buffer p)))) (\<lambda>n.
          if n < pc_BufferSize config then send
          else
            bnd (upd (\<lambda>p. p\<lparr>pb_buffer := tl (pb_buffer p)\<rparr>)) (\<lambda>_.
            bnd (field (\<lambda>p. int (length (pb_buffer p)))) (\<lambda>n.
            if n < pc_BufferSize config then send
            else ret (Some (Text ''message buffer full, contention too high''))))))))"

definition Publish :: "'w publisher_env \<Rightarrow> data_point \<Rightarrow> ('w, gerror option) pub" where
  "Publish E dp =
     bnd (field pb_connected) (\<lambda>connected.
     if \<not> connected then bufferMessage E dp
     else
       case pu_ToJSON E dp of
         Inl e \<Rightarrow> ret (Some (serialize_failure e))
       | Inr payload \<Rightarrow>
           bnd (field pb_config) (\<lambda>config.
           publishRaw E (dp_Topic dp) payload (pc_QoS config) (pc_RetainMessages config)))"

fun publish_each :: "'w publisher_env \<Rightarrow> data_point list \<Rightarrow> gerror option \<Rightarrow> ('w, gerror option) pub" where
  "publish_each E [] lastErr = ret lastErr"
| "publish_each E (dp # dps) lastErr =
     bnd (Publish E dp) (\<lambda>err.
     case err of
       None \<Rightarrow> publish_each E dps lastErr
     | Some e \<Rightarrow> bnd pub_failed (\<lambda>_. publish_each E dps (Some e)))"

definition PublishBatch :: "'w publisher_env \<Rightarrow> data_point list \<Rightarrow> ('w, gerror option) pub" where
  "PublishBatch E dps = publish_each E dps None"

definition PublishDeviceStatus ::
  "'w publisher_env \<Rightarrow> string \<Rightarrow> string \<Rightarrow> string \<Rightarrow> (string \<times> u64) list \<Rightarrow> ('w, gerror option) pub" where
  "PublishDeviceStatus E deviceID status lastError stats =
     bnd (call (pu_Now E)) (\<lambda>now.
     case pu_StatusJSON E status lastError stats now of
       Inl e \<Rightarrow> ret (Some (WrapW ''failed to marshal status payload'' (Lib e)))
     | Inr payload \<Rightarrow> publishRaw E (''$nexus/status/devices/'' @ deviceID) payload 1 True)"

section \<open>The buffer's goroutine\<close>

datatype loop_next = Again int | LoopStopped | LoopBlocked

definition hundred_ms :: int where
  "hundred_ms = 100000000"

text \<open>
  \<open>drainBuffer\<close>: the messages it takes are at most those in the buffer, so the length of the
  buffer is enough fuel; \<open>default\<close> ends the loop when the buffer is empty and the time is not over.
\<close>

fun drain :: "'w publisher_env \<Rightarrow> int \<Rightarrow> nat \<Rightarrow> ('w, unit) pub" where
  "drain E timeout 0 = ret ()"
| "drain E timeout (Suc fuel) =
     bnd (call (pu_drainTimeout E timeout)) (\<lambda>over.
     bnd (call (pu_prefer E)) (\<lambda>take_msg.
     bnd (field pb_buffer) (\<lambda>q.
     case q of
       [] \<Rightarrow> ret ()
     | msg # rest \<Rightarrow>
         if over \<and> \<not> take_msg then ret ()
         else
           bnd (upd (\<lambda>p. p\<lparr>pb_buffer := rest\<rparr>)) (\<lambda>_.
           bnd (field pb_connected) (\<lambda>connected.
           bnd (if connected then publishRaw E (bm_Topic msg) (bm_Payload msg) (bm_QoS msg) (bm_Retained msg)
                else ret None) (\<lambda>_.
           drain E timeout fuel))))))"

definition drainBuffer :: "'w publisher_env \<Rightarrow> ('w, unit) pub" where
  "drainBuffer E =
     bnd (field (\<lambda>p. length (pb_buffer p))) (\<lambda>n.
     drain E (min (10000000000 + int n * 1000000) 60000000000) n)"

text \<open>One turn of \<open>processBuffer\<close>'s loop; it blocks when there is neither a message nor a stop.\<close>

definition process_turn :: "'w publisher_env \<Rightarrow> int \<Rightarrow> ('w, loop_next) pub" where
  "process_turn E backoff =
     bnd (field pb_doneClosed) (\<lambda>over.
     bnd (call (pu_prefer E)) (\<lambda>take_msg.
     bnd (field pb_buffer) (\<lambda>q.
     if over \<and> (q = [] \<or> \<not> take_msg) then bnd (drainBuffer E) (\<lambda>_. ret LoopStopped)
     else case q of
       [] \<Rightarrow> ret LoopBlocked
     | msg # rest \<Rightarrow>
         bnd (upd (\<lambda>p. p\<lparr>pb_buffer := rest\<rparr>)) (\<lambda>_.
         bnd (field pb_connected) (\<lambda>connected.
         if connected
         then
           bnd (publishRaw E (bm_Topic msg) (bm_Payload msg) (bm_QoS msg) (bm_Retained msg)) (\<lambda>_.
           ret (Again hundred_ms))
         else
           bnd (upd (\<lambda>p. if int (length (pb_buffer p)) < pc_BufferSize (pb_config p)
                          then p\<lparr>pb_buffer := pb_buffer p @ [msg]\<rparr> else p)) (\<lambda>_.
           bnd (call (pu_doneWithin E backoff)) (\<lambda>stopped.
           if stopped then ret LoopStopped
           else ret (Again (if backoff < 5000000000 then backoff * 2 else backoff)))))))))"

section \<open>Connection\<close>

definition Connect_broker :: "'w publisher_env \<Rightarrow> ('w, gerror option) pub" where
  "Connect_broker E =
     bnd (field pb_config) (\<lambda>config.
     case (if pc_TLSEnabled config then pu_createTLS E config else None) of
       Some e \<Rightarrow> ret (Some (WrapW ''failed to create TLS config'' e))
     | None \<Rightarrow>
         bnd (upd (\<lambda>p. p\<lparr>pb_hasClient := True\<rparr>)) (\<lambda>_.
         bnd (call (pu_Connect E config)) (\<lambda>outcome.
         case outcome of
           ConnectTimedOut \<Rightarrow> ret (Some (WrapV (MqttE ErrMQTTConnectionFailed) ''connection timeout''))
         | ConnectRefused e \<Rightarrow> ret (Some (WrapV (MqttE ErrMQTTConnectionFailed) e))
         | ConnectCtxDone e \<Rightarrow> ret (Some (WrapV (MqttE ErrMQTTConnectionFailed) e))
         | Established \<Rightarrow> bnd (upd (\<lambda>p. p\<lparr>pb_connected := True, pb_doneClosed := False\<rparr>)) (\<lambda>_. ret None))))"

text \<open>It waits for the buffer's goroutine between closing \<open>done\<close> and leaving the broker.\<close>

definition Disconnect_broker :: "'w publisher_env \<Rightarrow> ('w, unit) pub" where
  "Disconnect_broker E =
     bnd (upd (\<lambda>p. p\<lparr>pb_doneClosed := True\<rparr>)) (\<lambda>_.
     bnd (field (\<lambda>p. pb_hasClient p)) (\<lambda>client.
     bnd (if client then call (pu_Disconnect E) else ret ()) (\<lambda>_.
     upd (\<lambda>p. p\<lparr>pb_connected := False\<rparr>))))"

definition onConnect :: "publisher \<Rightarrow> publisher" where
  "onConnect p = p\<lparr>pb_connected := True, pb_reconnecting := False\<rparr>"

definition onConnectionLost :: "publisher \<Rightarrow> publisher" where
  "onConnectionLost p = p\<lparr>pb_connected := False\<rparr>"

definition onReconnecting :: "publisher \<Rightarrow> publisher" where
  "onReconnecting p = p\<lparr>pb_reconnecting := True,
     pb_stats := (pb_stats p)\<lparr>us_ReconnectCount := us_ReconnectCount (pb_stats p) + 1\<rparr>\<rparr>"

definition publisher_HealthCheck :: "publisher \<Rightarrow> gerror option" where
  "publisher_HealthCheck p = (if \<not> pb_connected p then Some (Sentinel (MqttE ErrMQTTNotConnected)) else None)"

definition BufferSize :: "publisher \<Rightarrow> nat" where
  "BufferSize p = length (pb_buffer p)"

end
