(* ===== verification/PublisherProps.thy ===== *)
theory PublisherProps
  imports Publisher PollingRegistry
begin

text \<open>
  What the publisher keeps: the bounds of its buffer and of its topic statistics, the buffer as a
  queue that keeps the newest messages, and what one turn of the buffer's goroutine does. At the
  end, a poll that publishes through it returns without a panic.
\<close>

section \<open>Bounds\<close>

definition walks_topics :: "'w publisher_env \<Rightarrow> bool" where
  "walks_topics E \<longleftrightarrow> (\<forall>ts w. mset (fst (pu_order E ts w)) = mset ts)"

definition publisher_ok :: "publisher \<Rightarrow> bool" where
  "publisher_ok p \<longleftrightarrow> 0 < pc_BufferSize (pb_config p) \<and> int (length (pb_buffer p)) \<le> pc_BufferSize (pb_config p) \<and>
     distinct (map fst (pb_topicStats p)) \<and> length (pb_topicStats p) \<le> maxTrackedTopics"

lemma publisher_ok_updates [simp]:
  "publisher_ok (p\<lparr>pb_stats := st\<rparr>) = publisher_ok p" "publisher_ok (p\<lparr>pb_connected := b\<rparr>) = publisher_ok p"
  "publisher_ok (p\<lparr>pb_doneClosed := b\<rparr>) = publisher_ok p" "publisher_ok (p\<lparr>pb_hasClient := b\<rparr>) = publisher_ok p"
  "publisher_ok (p\<lparr>pb_reconnecting := b\<rparr>) = publisher_ok p"
  by (simp_all add: publisher_ok_def)

lemma count_pub_yields: "yields (on_client publisher_ok) (count_pub f) (\<lambda>_. True)"
  unfolding count_pub_def by (rule on_client_yields(3)) simp

lemma pub_failed_yields: "yields (on_client publisher_ok) pub_failed (\<lambda>_. True)"
  unfolding pub_failed_def by (rule count_pub_yields)

text \<open>What a walk gives: the entries of the map, in some order.\<close>

lemma walk_topics_run:
  assumes "walks_topics E" and "distinct (map fst (pb_topicStats p))"
  obtains out w' where "walk_topics E (p, w) = (Val out, (p, w'))" "mset (map fst out) = mset (map fst (pb_topicStats p))"
proof -
  let ?st = "pb_topicStats p"
  obtain order w' where o: "pu_order E (map fst ?st) w = (order, w')" by fastforce
  let ?f = "\<lambda>t. case map_of ?st t of None \<Rightarrow> [] | Some st \<Rightarrow> [(t, st)]"
  have order: "mset order = mset (map fst ?st)"
    using assms(1) o unfolding walks_topics_def by (metis fst_conv)
  have "map fst (concat (map ?f ts)) = ts" if "set ts \<subseteq> set (map fst ?st)" for ts
    using that by (induction ts) (auto simp: map_of_eq_None_iff split: option.split)
  moreover have "set order \<subseteq> set (map fst ?st)" using mset_eq_setD [OF order] by simp
  ultimately have "map fst (concat (map ?f order)) = order" by blast
  with order o show thesis
    by (intro that [of "concat (map ?f order)" w']) (simp_all add: walk_topics_def run_simps)
qed

lemma evict_run:
  assumes "walks_topics E" and "distinct (map fst (pb_topicStats p))"
  obtains w' kept where "evictOldestTopicsLocked E n (p, w) = (Val (), (p\<lparr>pb_topicStats := kept\<rparr>, w'))"
    "distinct (map fst kept)" "length kept = length (pb_topicStats p) - n"
proof (cases "n = 0 \<or> pb_topicStats p = []")
  case True
  with assms(2) show thesis
    by (intro that [of "pb_topicStats p" w]) (auto simp: evictOldestTopicsLocked_def run_simps)
next
  case False
  from walk_topics_run [OF assms] obtain out w' where
    out: "walk_topics E (p, w) = (Val out, (p, w'))" "mset (map fst out) = mset (map fst (pb_topicStats p))" .
  let ?sorted = "map fst (sort_key (\<lambda>(t, st). ts_LastPublished st) out)"
  let ?old = "take n ?sorted"
  let ?kept = "filter (\<lambda>(t, st). t \<notin> set ?old) (pb_topicStats p)"
  have sorted: "mset ?sorted = mset (map fst (pb_topicStats p))" using out(2) by simp
  have "distinct ?sorted" using sorted assms(2) mset_eq_imp_distinct_iff by blast
  then have old: "distinct ?old" "set ?old \<subseteq> set (map fst (pb_topicStats p))"
    using mset_eq_setD [OF sorted] set_take_subset [of n ?sorted] by auto
  have keys: "map fst ?kept = filter (\<lambda>t. t \<notin> set ?old) (map fst (pb_topicStats p))"
    by (simp add: filter_map o_def case_prod_beta')
  have "length (filter (\<lambda>t. t \<in> set ?old) (map fst (pb_topicStats p))) = card (set ?old)"
    using old assms(2) by (subst distinct_length_filter) (simp_all add: Int_absorb2)
  moreover have "card (set ?old) = min n (length (pb_topicStats p))"
    using distinct_card [OF old(1)] mset_eq_length [OF sorted] by simp
  moreover have "length ?kept = length (filter (\<lambda>t. t \<notin> set ?old) (map fst (pb_topicStats p)))"
    using arg_cong [OF keys, of length] by (simp only: length_map)
  ultimately have "length ?kept = length (pb_topicStats p) - n"
    using sum_length_filter_compl [of "\<lambda>t. t \<in> set ?old" "map fst (pb_topicStats p)"]
    unfolding length_map by linarith
  moreover have "distinct (map fst ?kept)" using keys assms(2) by simp
  moreover have "evictOldestTopicsLocked E n (p, w) = (Val (), (p\<lparr>pb_topicStats := ?kept\<rparr>, w'))"
    using False out(1) by (simp add: evictOldestTopicsLocked_def run_simps Let_def)
  ultimately show thesis by (intro that)
qed

lemma recordTopicPublish_yields:
  assumes "walks_topics E"
  shows "yields (on_client publisher_ok) (recordTopicPublish E topic n) (\<lambda>_. True)"
proof (rule yieldsI)
  fix s :: "publisher \<times> 'a" assume s: "on_client publisher_ok s"
  obtain p w where pw: "s = (p, w)" by (cases s)
  from s have ok: "publisher_ok p" by (simp add: on_client_def pw)
  obtain now w1 where now: "pu_Now E w = (now, w1)" by fastforce
  define st where "st = (case map_of (pb_topicStats p) topic of None \<Rightarrow> 0 | Some st \<Rightarrow> ts_Count st)"
  let ?new = "\<lparr>ts_Count = st + 1, ts_LastPublished = now, ts_LastPayloadBytes = n\<rparr>"
  have grow: "publisher_ok (p\<lparr>pb_topicStats := AList.update topic ?new kept\<rparr>)"
    if "distinct (map fst kept)" "length (AList.update topic ?new kept) \<le> maxTrackedTopics" for kept
    using ok that by (simp add: publisher_ok_def distinct_update)
  let ?full = "map_of (pb_topicStats p) topic = None \<and> maxTrackedTopics \<le> length (pb_topicStats p)"
  have run: "recordTopicPublish E topic n s =
      bnd (if ?full then evictOldestTopicsLocked E (maxTrackedTopics div 10) else ret ())
        (\<lambda>_. upd (\<lambda>p. p\<lparr>pb_topicStats := AList.update topic ?new (pb_topicStats p)\<rparr>)) (p, w1)"
    by (simp add: recordTopicPublish_def bnd_field bnd_call pw now st_def)
  show "\<exists>a s'. recordTopicPublish E topic n s = (Val a, s') \<and> on_client publisher_ok s' \<and> True"
  proof (cases ?full)
    case True
    from ok have "distinct (map fst (pb_topicStats p))" by (simp add: publisher_ok_def)
    with assms obtain w2 kept where
      evict: "evictOldestTopicsLocked E (maxTrackedTopics div 10) (p, w1) = (Val (), (p\<lparr>pb_topicStats := kept\<rparr>, w2))"
      "distinct (map fst kept)" "length kept = length (pb_topicStats p) - maxTrackedTopics div 10"
      by (rule evict_run)
    moreover have "length (AList.update topic ?new kept) \<le> Suc (length kept)" by (simp add: length_AList_update)
    moreover have "maxTrackedTopics = 10000" by (simp add: maxTrackedTopics_def)
    ultimately have "length (AList.update topic ?new kept) \<le> maxTrackedTopics"
      using ok unfolding publisher_ok_def by linarith
    with \<open>distinct (map fst kept)\<close> have "publisher_ok (p\<lparr>pb_topicStats := AList.update topic ?new kept\<rparr>)"
      by (rule grow)
    with evict show ?thesis
      unfolding run if_P [OF True] by (simp add: run_simps on_client_def)
  next
    case False
    have "length (AList.update topic ?new (pb_topicStats p)) \<le> maxTrackedTopics"
      using False ok unfolding publisher_ok_def length_AList_update map_of_eq_None_iff by auto
    with ok grow [of "pb_topicStats p"] show ?thesis
      unfolding run if_not_P [OF False] by (simp add: run_simps on_client_def publisher_ok_def)
  qed
qed

lemma publishRaw_yields:
  assumes "walks_topics E"
  shows "yields (on_client publisher_ok) (publishRaw E topic payload qos retained) (\<lambda>_. True)"
proof -
  have fail: "yields (on_client publisher_ok) (bnd pub_failed (\<lambda>_. ret r)) (\<lambda>_. True)" for r :: "gerror option"
    by (rule yields_bnd [OF pub_failed_yields]) (simp add: yields_ret)
  have deliver: "yields (on_client publisher_ok) (bnd (count_pub f) (\<lambda>_.
      bnd (recordTopicPublish E topic n) (\<lambda>_. ret r))) (\<lambda>_. True)" for f n and r :: "gerror option"
    by (rule yields_bnd [OF count_pub_yields], rule yields_bnd [OF recordTopicPublish_yields [OF assms]])
      (simp add: yields_ret)
  show ?thesis
    unfolding publishRaw_def
    by (rule yields_bnd [OF on_client_yields(1)], rule yields_if, rule yields_ret, simp,
        rule yields_bnd [OF on_client_yields(2)])
      (simp add: fail deliver split: publish_outcome.split)
qed

section \<open>The buffer as a queue that keeps the newest messages\<close>

definition keep_newest :: "nat \<Rightarrow> 'a list \<Rightarrow> 'a list" where
  "keep_newest cap q = drop (length q - cap) q"

lemma keep_newest_snoc:
  assumes "0 < cap"
  shows "keep_newest cap (keep_newest cap q @ [x]) = keep_newest cap (q @ [x])"
  using assms by (simp add: keep_newest_def drop_append Suc_diff_le split: nat_diff_split)

lemma keep_newest_full: "q \<noteq> [] \<Longrightarrow> keep_newest (length q) (q @ [x]) = tl q @ [x]"
  by (cases q) (simp_all add: keep_newest_def)

lemma min_nat_le: "0 < c \<Longrightarrow> int (min (nat c) n) \<le> c"
  by linarith

lemma length_keep_newest [simp]: "length (keep_newest cap q) = min cap (length q)"
  by (simp add: keep_newest_def)

definition message_of :: "publisher_config \<Rightarrow> data_point \<Rightarrow> string \<Rightarrow> int \<Rightarrow> buffered_message" where
  "message_of config dp payload now =
     \<lparr>bm_Topic = dp_Topic dp, bm_Payload = payload, bm_QoS = pc_QoS config,
      bm_Retained = pc_RetainMessages config, bm_Timestamp = now\<rparr>"

text \<open>One message: the queue with the message, cut to the capacity.\<close>

lemma bufferMessage_run:
  assumes "publisher_ok p" and "pu_ToJSON E dp = Inr payload" and "pu_Now E w = (now, w')"
  shows "bufferMessage E dp (p, w) = (Val None,
    (p\<lparr>pb_buffer := keep_newest (nat (pc_BufferSize (pb_config p))) (pb_buffer p @ [message_of (pb_config p) dp payload now]),
       pb_stats := (pb_stats p)\<lparr>us_MessagesBuffered := us_MessagesBuffered (pb_stats p) + 1\<rparr>\<rparr>, w'))"
proof (cases "int (length (pb_buffer p)) < pc_BufferSize (pb_config p)")
  case True
  then have "keep_newest (nat (pc_BufferSize (pb_config p))) (pb_buffer p @ [m]) = pb_buffer p @ [m]" for m
    by (simp add: keep_newest_def)
  with True assms(2,3) show ?thesis
    by (simp add: bufferMessage_def run_simps Let_def count_pub_def message_of_def)
next
  case False
  with assms(1) have full: "int (length (pb_buffer p)) = pc_BufferSize (pb_config p)" "pb_buffer p \<noteq> []"
    by (auto simp: publisher_ok_def)
  from full(1) have "nat (pc_BufferSize (pb_config p)) = length (pb_buffer p)" by (metis nat_int)
  then have "keep_newest (nat (pc_BufferSize (pb_config p))) (pb_buffer p @ [m]) = tl (pb_buffer p) @ [m]" for m
    using keep_newest_full [OF full(2)] by simp
  moreover have "int (length (tl (pb_buffer p))) < pc_BufferSize (pb_config p)"
    using full by (cases "pb_buffer p") simp_all
  ultimately show ?thesis
    using False assms(2,3)
    by (simp add: bufferMessage_def run_simps Let_def count_pub_def message_of_def)
qed

lemma bufferMessage_yields: "yields (on_client publisher_ok) (bufferMessage E dp) (\<lambda>_. True)"
proof (rule yieldsI)
  fix s :: "publisher \<times> 'a" assume s: "on_client publisher_ok s"
  obtain p w where pw: "s = (p, w)" by (cases s)
  obtain now w' where now: "pu_Now E w = (now, w')" by fastforce
  from s have ok: "publisher_ok p" by (simp add: on_client_def pw)
  show "\<exists>a s'. bufferMessage E dp s = (Val a, s') \<and> on_client publisher_ok s' \<and> True"
  proof (cases "pu_ToJSON E dp")
    case (Inl e)
    with s show ?thesis by (simp add: bufferMessage_def run_simps)
  next
    case (Inr payload)
    show ?thesis
      using ok by (simp add: pw on_client_def bufferMessage_run [OF ok Inr now] publisher_ok_def min_nat_le)
  qed
qed

lemma Publish_yields:
  assumes "walks_topics E"
  shows "yields (on_client publisher_ok) (Publish E dp) (\<lambda>_. True)"
  unfolding Publish_def
  by (rule yields_bnd [OF on_client_yields(1)], rule yields_if, rule bufferMessage_yields, rule yields_sum,
      rule yields_ret, simp, rule yields_bnd [OF on_client_yields(1)], rule publishRaw_yields [OF assms])

lemma publish_each_yields:
  assumes "walks_topics E"
  shows "yields (on_client publisher_ok) (publish_each E dps e) (\<lambda>_. True)"
proof (induction dps arbitrary: e)
  case (Cons dp dps)
  then show ?case
    unfolding publish_each.simps
    by (intro yields_bnd [OF Publish_yields [OF assms]] yields_option yields_bnd [OF pub_failed_yields]) simp_all
qed (simp add: yields_ret)

text \<open>Programs that take the oldest message out of the buffer.\<close>

lemma take_oldest_yields:
  assumes "yields (on_client publisher_ok) m Q" and "\<And>msg rest. yields (on_client publisher_ok) (n msg rest) Q"
    and "\<And>msg rest. yields (on_client publisher_ok) (k msg rest) Q"
  shows "yields (on_client publisher_ok) (bnd (field pb_buffer) (\<lambda>q. case q of
      [] \<Rightarrow> m
    | msg # rest \<Rightarrow> if b then n msg rest else bnd (upd (\<lambda>p. p\<lparr>pb_buffer := rest\<rparr>)) (\<lambda>_. k msg rest))) Q"
proof (rule yieldsI)
  fix s :: "publisher \<times> 'a" assume s: "on_client publisher_ok s"
  obtain p w where pw: "s = (p, w)" by (cases s)
  show "\<exists>a s'. bnd (field pb_buffer) (\<lambda>q. case q of
      [] \<Rightarrow> m
    | msg # rest \<Rightarrow> if b then n msg rest else bnd (upd (\<lambda>p. p\<lparr>pb_buffer := rest\<rparr>)) (\<lambda>_. k msg rest)) s = (Val a, s') \<and>
    on_client publisher_ok s' \<and> Q a"
  proof (cases "pb_buffer p")
    case Nil
    with assms(1) s show ?thesis by (simp add: pw run_simps yields_def)
  next
    case (Cons msg rest)
    show ?thesis
    proof (cases b)
      case True
      with Cons assms(2) [of msg rest] s show ?thesis by (simp add: pw run_simps yields_def)
    next
      case False
      from s Cons have "on_client publisher_ok (p\<lparr>pb_buffer := rest\<rparr>, w)"
        by (simp add: pw on_client_def publisher_ok_def)
      with Cons False assms(3) [of msg rest] show ?thesis by (simp add: pw run_simps yields_def)
    qed
  qed
qed

lemma drain_yields:
  assumes "walks_topics E"
  shows "yields (on_client publisher_ok) (drain E timeout n) (\<lambda>_. True)"
proof (induction n)
  case (Suc n)
  show ?case
    unfolding drain.simps
    by (rule yields_bnd [OF on_client_yields(2)], rule yields_bnd [OF on_client_yields(2)], rule take_oldest_yields,
        rule yields_ret, simp, rule yields_ret, simp, rule yields_bnd [OF on_client_yields(1)],
        rule yields_bnd, rule yields_if, rule publishRaw_yields [OF assms], rule yields_ret, simp, rule Suc.IH)
qed (simp add: yields_ret)

lemma drainBuffer_yields:
  "walks_topics E \<Longrightarrow> yields (on_client publisher_ok) (drainBuffer E) (\<lambda>_. True)"
  unfolding drainBuffer_def by (rule yields_bnd [OF on_client_yields(1)]) (rule drain_yields)

lemma process_turn_yields:
  assumes "walks_topics E"
  shows "yields (on_client publisher_ok) (process_turn E backoff) (\<lambda>_. True)"
proof -
  have resend: "yields (on_client publisher_ok) (upd (\<lambda>p. if int (length (pb_buffer p)) < pc_BufferSize (pb_config p)
      then p\<lparr>pb_buffer := pb_buffer p @ [msg]\<rparr> else p)) (\<lambda>_. True)" for msg
    by (rule on_client_yields(3)) (simp add: publisher_ok_def)
  have take: "yields (on_client publisher_ok) (bnd (field pb_connected) (\<lambda>connected.
      if connected
      then bnd (publishRaw E (bm_Topic msg) (bm_Payload msg) (bm_QoS msg) (bm_Retained msg)) (\<lambda>_. ret (Again hundred_ms))
      else
        bnd (upd (\<lambda>p. if int (length (pb_buffer p)) < pc_BufferSize (pb_config p)
                       then p\<lparr>pb_buffer := pb_buffer p @ [msg]\<rparr> else p)) (\<lambda>_.
        bnd (call (pu_doneWithin E backoff)) (\<lambda>stopped.
        if stopped then ret LoopStopped
        else ret (Again (if backoff < 5000000000 then backoff * 2 else backoff)))))) (\<lambda>_. True)" for msg
    by (rule yields_bnd [OF on_client_yields(1)], rule yields_if,
        rule yields_bnd [OF publishRaw_yields [OF assms]], rule yields_ret, simp,
        rule yields_bnd [OF resend], rule yields_bnd [OF on_client_yields(2)]) (simp add: yields_ret)
  have body: "(if over \<and> (q = [] \<or> \<not> take_msg) then m else case q of [] \<Rightarrow> n | msg # rest \<Rightarrow> k msg rest) =
      (case q of [] \<Rightarrow> if over then m else n | msg # rest \<Rightarrow> if over \<and> \<not> take_msg then m else k msg rest)"
    for over take_msg and q :: "buffered_message list" and m n :: "publisher \<times> 'a \<Rightarrow> loop_next run \<times> publisher \<times> 'a" and k
    by (cases q) simp_all
  show ?thesis
    unfolding process_turn_def body
    by (rule yields_bnd [OF on_client_yields(1)], rule yields_bnd [OF on_client_yields(2)], rule take_oldest_yields,
        rule yields_if, rule yields_bnd [OF drainBuffer_yields [OF assms]], rule yields_ret, simp, rule yields_ret, simp,
        rule yields_bnd [OF drainBuffer_yields [OF assms]], rule yields_ret, simp, rule take)
qed

text \<open>
  C14. From any state within the bounds, publishing one point or a batch, the status message, a turn of the
  buffer's goroutine and the drain at shutdown all return, without a panic and without blocking on
  a full buffer, and stay within the bounds: at most \<open>BufferSize\<close> messages wait, and at most 10000
  topics have statistics, each once. So do the connection callbacks.
\<close>

theorem publisher_bounds:
  assumes "walks_topics E"
  shows "yields (on_client publisher_ok) (Publish E dp) (\<lambda>_. True) \<and>
    yields (on_client publisher_ok) (PublishBatch E dps) (\<lambda>_. True) \<and>
    yields (on_client publisher_ok) (PublishDeviceStatus E i status e stats) (\<lambda>_. True) \<and>
    yields (on_client publisher_ok) (process_turn E backoff) (\<lambda>_. True) \<and>
    yields (on_client publisher_ok) (drainBuffer E) (\<lambda>_. True) \<and>
    list_all (\<lambda>f. publisher_ok (f p) = publisher_ok p) [onConnect, onConnectionLost, onReconnecting]"
proof -
  have "yields (on_client publisher_ok) (PublishDeviceStatus E i status e stats) (\<lambda>_. True)"
    unfolding PublishDeviceStatus_def
    by (rule yields_bnd [OF on_client_yields(2)], rule yields_sum, rule yields_ret, simp, rule publishRaw_yields [OF assms])
  then show ?thesis
    unfolding PublishBatch_def
    by (simp add: Publish_yields publish_each_yields process_turn_yields drainBuffer_yields assms
        onConnect_def onConnectionLost_def onReconnecting_def)
qed

definition sample_pub_env :: "int publisher_env" where
  "sample_pub_env =
     \<lparr>pu_Publish = \<lambda>t q r payload w. (if w < 3 then PublishTimedOut else Delivered, w + 1),
      pu_Connect = \<lambda>c w. (Established, w), pu_Disconnect = \<lambda>w. ((), w), pu_createTLS = \<lambda>c. None,
      pu_ToJSON = \<lambda>dp. Inr (dp_TagID dp), pu_StatusJSON = \<lambda>s e st now. Inr s, pu_Now = \<lambda>w. (w, w + 1),
      pu_order = \<lambda>ts w. (rev ts, w), pu_prefer = \<lambda>w. (True, w), pu_drainTimeout = \<lambda>t w. (False, w),
      pu_doneWithin = \<lambda>t w. (False, w)\<rparr>"

lemma sample_pub_walks: "walks_topics sample_pub_env"
  by (simp add: walks_topics_def sample_pub_env_def)

definition sample_publisher :: "buffered_message list \<Rightarrow> publisher" where
  "sample_publisher q = \<lparr>pb_config = DefaultConfig\<lparr>pc_BufferSize := 2\<rparr>, pb_hasClient = True, pb_connected = False,
     pb_reconnecting = False, pb_buffer = q, pb_doneClosed = False,
     pb_stats = \<lparr>us_MessagesPublished = 0, us_MessagesFailed = 0, us_MessagesBuffered = 0, us_BytesSent = 0,
                  us_ReconnectCount = 0\<rparr>, pb_topicStats = []\<rparr>"

definition sample_point :: "string \<Rightarrow> data_point" where
  "sample_point i = NewDataPoint 0 ''plc1'' i ''plant/line1/temp'' (VInt 1) ''C'' QualityGood"

theorem publisher_bounds_witness:
  "yields (on_client publisher_ok) (Publish sample_pub_env (sample_point ''t1'')) (\<lambda>_. True) \<and>
    yields (on_client publisher_ok) (PublishBatch sample_pub_env [sample_point ''t1'']) (\<lambda>_. True) \<and>
    yields (on_client publisher_ok) (PublishDeviceStatus sample_pub_env ''plc1'' ''online'' '''' []) (\<lambda>_. True) \<and>
    yields (on_client publisher_ok) (process_turn sample_pub_env hundred_ms) (\<lambda>_. True) \<and>
    yields (on_client publisher_ok) (drainBuffer sample_pub_env) (\<lambda>_. True) \<and>
    list_all (\<lambda>f. publisher_ok (f (sample_publisher [])) = publisher_ok (sample_publisher [])) [onConnect, onConnectionLost, onReconnecting]"
  using publisher_bounds [OF sample_pub_walks] by blast

section \<open>Order and loss\<close>

lemma keep_newest_append: "keep_newest cap (keep_newest cap q @ r) = keep_newest cap (q @ r)"
proof (cases "length q \<le> cap")
  case False
  then have "length q - cap + (length r + cap - cap) = length q + length r - cap" by simp
  with False show ?thesis
    by (cases "length r \<le> cap") (simp_all add: keep_newest_def add.commute)
qed (simp add: keep_newest_def)

lemma offline_each:
  assumes "publisher_ok p" and "\<not> pb_connected p" and "list_all (\<lambda>dp. \<exists>payload. pu_ToJSON E dp = Inr payload) dps"
  shows "\<exists>msgs p' w'. publish_each E dps None (p, w) = (Val None, (p', w')) \<and>
    pb_buffer p' = keep_newest (nat (pc_BufferSize (pb_config p))) (pb_buffer p @ msgs) \<and>
    map bm_Topic msgs = map dp_Topic dps \<and> map (\<lambda>m. Inr (bm_Payload m)) msgs = map (pu_ToJSON E) dps \<and>
    us_MessagesBuffered (pb_stats p') = us_MessagesBuffered (pb_stats p) + of_nat (length dps) \<and>
    us_MessagesFailed (pb_stats p') = us_MessagesFailed (pb_stats p)"
  using assms
proof (induction dps arbitrary: p w)
  case Nil
  then have "keep_newest (nat (pc_BufferSize (pb_config p))) (pb_buffer p) = pb_buffer p"
    unfolding keep_newest_def publisher_ok_def by (simp add: nat_le_eq_zle le_nat_iff)
  then show ?case by (simp add: run_simps)
next
  case (Cons dp dps)
  from Cons.prems(3) obtain payload where json: "pu_ToJSON E dp = Inr payload" by auto
  obtain now w1 where now: "pu_Now E w = (now, w1)" by fastforce
  let ?cap = "nat (pc_BufferSize (pb_config p))" and ?m = "message_of (pb_config p) dp payload now"
  let ?p = "p\<lparr>pb_buffer := keep_newest ?cap (pb_buffer p @ [?m]),
      pb_stats := (pb_stats p)\<lparr>us_MessagesBuffered := us_MessagesBuffered (pb_stats p) + 1\<rparr>\<rparr>"
  note one = bufferMessage_run [OF Cons.prems(1) json now]
  have "publisher_ok ?p" using Cons.prems(1) by (simp add: publisher_ok_def min_nat_le)
  from Cons.IH [OF this, of w1] Cons.prems(2,3) obtain msgs p' w' where
    rest: "publish_each E dps None (?p, w1) = (Val None, (p', w'))"
      "pb_buffer p' = keep_newest ?cap (keep_newest ?cap (pb_buffer p @ [?m]) @ msgs)"
      "map bm_Topic msgs = map dp_Topic dps" "map (\<lambda>m. Inr (bm_Payload m)) msgs = map (pu_ToJSON E) dps"
      "us_MessagesBuffered (pb_stats p') = us_MessagesBuffered (pb_stats p) + 1 + of_nat (length dps)"
      "us_MessagesFailed (pb_stats p') = us_MessagesFailed (pb_stats p)"
    by (auto simp del: map_eq_conv)
  have "Publish E dp (p, w) = (Val None, (?p, w1))"
    using one Cons.prems(2) by (simp add: Publish_def run_simps)
  then have "publish_each E (dp # dps) None (p, w) = (Val None, (p', w'))"
    using rest(1) by (simp add: run_simps)
  moreover have "pb_buffer p' = keep_newest ?cap (pb_buffer p @ ?m # msgs)"
    using rest(2) by (simp add: keep_newest_append)
  ultimately show ?case
    using rest(3-6) json by (intro exI [of _ "?m # msgs"] exI [of _ p'] exI [of _ w'])
      (simp add: message_of_def del: map_eq_conv)
qed

text \<open>
  While the broker is away the buffer is a bounded queue that keeps the newest messages: a batch of
  points that serialise is accepted without an error, and afterwards the buffer holds, in order,
  the newest \<open>BufferSize\<close> of the messages it held and the messages of the batch; each is counted
  as buffered, none as failed, also those that were dropped.
\<close>

theorem offline_batch_keeps_the_newest:
  assumes "publisher_ok p" and "\<not> pb_connected p" and "list_all (\<lambda>dp. \<exists>payload. pu_ToJSON E dp = Inr payload) dps"
  shows "\<exists>msgs p' w'. PublishBatch E dps (p, w) = (Val None, (p', w')) \<and>
    pb_buffer p' = keep_newest (nat (pc_BufferSize (pb_config p))) (pb_buffer p @ msgs) \<and>
    map bm_Topic msgs = map dp_Topic dps \<and> map (\<lambda>m. Inr (bm_Payload m)) msgs = map (pu_ToJSON E) dps \<and>
    us_MessagesBuffered (pb_stats p') = us_MessagesBuffered (pb_stats p) + of_nat (length dps) \<and>
    us_MessagesFailed (pb_stats p') = us_MessagesFailed (pb_stats p)"
  unfolding PublishBatch_def using assms by (rule offline_each)

theorem offline_batch_keeps_the_newest_witness:
  "\<exists>msgs p' w'. PublishBatch sample_pub_env (map sample_point [''t1'', ''t2'', ''t3'']) (sample_publisher [], 0) = (Val None, (p', w')) \<and>
    pb_buffer p' = keep_newest (nat (pc_BufferSize (pb_config (sample_publisher [])))) (pb_buffer (sample_publisher []) @ msgs) \<and>
    map bm_Topic msgs = map dp_Topic (map sample_point [''t1'', ''t2'', ''t3'']) \<and>
    map (\<lambda>m. Inr (bm_Payload m)) msgs = map (pu_ToJSON sample_pub_env) (map sample_point [''t1'', ''t2'', ''t3'']) \<and>
    us_MessagesBuffered (pb_stats p') = us_MessagesBuffered (pb_stats (sample_publisher [])) +
      of_nat (length (map sample_point [''t1'', ''t2'', ''t3''])) \<and>
    us_MessagesFailed (pb_stats p') = us_MessagesFailed (pb_stats (sample_publisher []))"
  by (rule offline_batch_keeps_the_newest)
    (simp_all add: publisher_ok_def sample_publisher_def DefaultConfig_def maxTrackedTopics_def sample_pub_env_def)

definition buffer_and_stats :: "buffered_message list \<Rightarrow> publisher_stats \<Rightarrow> publisher \<Rightarrow> bool" where
  "buffer_and_stats q st p \<longleftrightarrow> pb_buffer p = q \<and> pb_stats p = st"

lemma recordTopicPublish_frame:
  "preserves (on_client (buffer_and_stats q st)) (recordTopicPublish E topic n)"
  unfolding recordTopicPublish_def evictOldestTopicsLocked_def walk_topics_def Let_def
  by (intro preserving on_client_upd) (simp_all add: buffer_and_stats_def)

lemma publishRaw_run:
  assumes "walks_topics E" and "publisher_ok p" and "pb_hasClient p"
  obtains r p' w' where "publishRaw E topic payload qos retained (p, w) = (Val r, (p', w'))"
    "pb_buffer p' = pb_buffer p"
    "us_MessagesPublished (pb_stats p') + us_MessagesFailed (pb_stats p') =
     us_MessagesPublished (pb_stats p) + us_MessagesFailed (pb_stats p) + 1"
proof -
  obtain outcome w1 where out: "pu_Publish E topic qos retained payload w = (outcome, w1)" by fastforce
  have failed: "publishRaw E topic payload qos retained (p, w) = (Val (Some (publish_failure e)),
      (p\<lparr>pb_stats := (pb_stats p)\<lparr>us_MessagesFailed := us_MessagesFailed (pb_stats p) + 1\<rparr>\<rparr>, w1))"
    if "outcome = TokenFailed e \<or> outcome = PublishTimedOut \<and> e = ''publish timeout'' \<or> outcome = PublishCtxDone e" for e
    using that assms(3) out by (auto simp: publishRaw_def run_simps pub_failed_def count_pub_def)
  show thesis
  proof (cases "outcome = Delivered")
    case False
    then obtain e where
      "outcome = TokenFailed e \<or> outcome = PublishTimedOut \<and> e = ''publish timeout'' \<or> outcome = PublishCtxDone e"
      by (cases outcome) auto
    from failed [OF this] show thesis by (rule that) simp_all
  next
    case True
    let ?st = "(pb_stats p)\<lparr>us_MessagesPublished := us_MessagesPublished (pb_stats p) + 1,
        us_BytesSent := us_BytesSent (pb_stats p) + of_nat (length payload)\<rparr>"
    have "on_client publisher_ok (p\<lparr>pb_stats := ?st\<rparr>, w1)" using assms(2) by (simp add: on_client_def)
    with recordTopicPublish_yields [OF assms(1)] obtain u s' where
      rec: "recordTopicPublish E topic (length payload) (p\<lparr>pb_stats := ?st\<rparr>, w1) = (Val u, s')" by (rule yieldsE)
    have "on_client (buffer_and_stats (pb_buffer p) ?st) (snd (Val u, s'))"
      unfolding rec [symmetric]
      by (rule preservesD [OF recordTopicPublish_frame]) (simp add: on_client_def buffer_and_stats_def)
    then have "pb_buffer (fst s') = pb_buffer p" "pb_stats (fst s') = ?st"
      by (simp_all add: on_client_def buffer_and_stats_def)
    moreover have "publishRaw E topic payload qos retained (p, w) = (Val None, s')"
      using True assms(3) out rec by (simp add: publishRaw_def run_simps count_pub_def)
    ultimately show thesis by (cases s') (auto intro: that)
  qed
qed

text \<open>
  Each turn of the buffer's goroutine takes the oldest message. Online it is gone from the buffer
  whether the publish succeeded or not: it is counted once, as published or as failed, and a failed
  one is not tried again. Offline it goes to the back of the queue, so the messages that wait out
  a disconnection longer than one turn are published in another order than they were buffered in.
\<close>

theorem turn_of_the_buffer:
  assumes "walks_topics E" and "publisher_ok p" and "pb_hasClient p" and "\<not> pb_doneClosed p"
    and "pb_buffer p = m # rest"
  shows "\<exists>r p' w'. process_turn E backoff (p, w) = (Val r, (p', w')) \<and>
    pb_buffer p' = (if pb_connected p then rest else rest @ [m]) \<and>
    us_MessagesPublished (pb_stats p') + us_MessagesFailed (pb_stats p') =
      us_MessagesPublished (pb_stats p) + us_MessagesFailed (pb_stats p) + (if pb_connected p then 1 else 0)"
proof -
  obtain take_msg w1 where pick: "pu_prefer E w = (take_msg, w1)" by fastforce
  let ?p = "p\<lparr>pb_buffer := rest\<rparr>"
  have ok: "publisher_ok ?p" and room: "int (length rest) < pc_BufferSize (pb_config p)"
    using assms(2,5) by (simp_all add: publisher_ok_def)
  show ?thesis
  proof (cases "pb_connected p")
    case True
    from publishRaw_run [OF assms(1) ok, of "bm_Topic m" "bm_Payload m" "bm_QoS m" "bm_Retained m" w1] assms(3)
    obtain r p' w' where "publishRaw E (bm_Topic m) (bm_Payload m) (bm_QoS m) (bm_Retained m) (?p, w1) = (Val r, (p', w'))"
      "pb_buffer p' = rest" "us_MessagesPublished (pb_stats p') + us_MessagesFailed (pb_stats p') =
        us_MessagesPublished (pb_stats p) + us_MessagesFailed (pb_stats p) + 1" by auto
    with True assms(4,5) pick show ?thesis by (simp add: process_turn_def run_simps)
  next
    case False
    obtain stopped w2 where "pu_doneWithin E backoff w1 = (stopped, w2)" by fastforce
    with False assms(4,5) pick room show ?thesis by (simp add: process_turn_def run_simps)
  qed
qed

theorem turn_of_the_buffer_witness:
  "\<exists>r p' w'. process_turn sample_pub_env hundred_ms
      (sample_publisher [message_of DefaultConfig (sample_point ''t1'') [] 0, message_of DefaultConfig (sample_point ''t2'') [] 1], 0) =
      (Val r, (p', w')) \<and>
    pb_buffer p' = [message_of DefaultConfig (sample_point ''t2'') [] 1, message_of DefaultConfig (sample_point ''t1'') [] 0] \<and>
    us_MessagesPublished (pb_stats p') + us_MessagesFailed (pb_stats p') = 0"
  using turn_of_the_buffer [OF sample_pub_walks, of "sample_publisher [message_of DefaultConfig (sample_point ''t1'') [] 0,
      message_of DefaultConfig (sample_point ''t2'') [] 1]"]
  by (simp add: publisher_ok_def sample_publisher_def DefaultConfig_def maxTrackedTopics_def)

end
