(* ===== verification/GoHoare.thy ===== *)
theory GoHoare
  imports GoProg
begin

text \<open>
  Total correctness of programs: from a state in \<open>P\<close> the program returns, without a panic, and its
  value and the state satisfy \<open>Q\<close>. There is one rule for each statement form, collected in
  \<open>triple\<close>; \<open>gives_bnd\<close> composes them backwards along a method's body.
\<close>

named_theorems triple "total correctness of the statement forms"

definition gives :: "('s \<Rightarrow> bool) \<Rightarrow> ('s, 'a) prog \<Rightarrow> ('a \<Rightarrow> 's \<Rightarrow> bool) \<Rightarrow> bool" where
  "gives P m Q \<longleftrightarrow> (\<forall>s. P s \<longrightarrow> (\<exists>a s'. m s = (Val a, s') \<and> Q a s'))"

lemma givesI: "(\<And>s. P s \<Longrightarrow> \<exists>a s'. m s = (Val a, s') \<and> Q a s') \<Longrightarrow> gives P m Q"
  by (simp add: gives_def)

lemma givesE:
  assumes "gives P m Q" and "P s"
  obtains a s' where "m s = (Val a, s')" "Q a s'"
  using assms by (auto simp: gives_def)

lemma gives_weaken:
  "gives P' m Q' \<Longrightarrow> (\<And>s. P s \<Longrightarrow> P' s) \<Longrightarrow> (\<And>a s. Q' a s \<Longrightarrow> Q a s) \<Longrightarrow> gives P m Q"
  unfolding gives_def by meson

lemma gives_pre: "gives P' m Q \<Longrightarrow> (\<And>s. P s \<Longrightarrow> P' s) \<Longrightarrow> gives P m Q"
  by (erule gives_weaken) simp_all

lemma gives_post: "gives P m Q' \<Longrightarrow> (\<And>a s. Q' a s \<Longrightarrow> Q a s) \<Longrightarrow> gives P m Q"
  by (erule gives_weaken) simp_all

lemma gives_bnd:
  assumes "gives P m R" and "\<And>a. gives (R a) (f a) Q"
  shows "gives P (bnd m f) Q"
proof (rule givesI)
  fix s assume "P s"
  with assms(1) obtain a s' where 1: "m s = (Val a, s')" "R a s'" by (rule givesE)
  from assms(2) 1(2) obtain b s'' where "f a s' = (Val b, s'')" "Q b s''" by (rule givesE)
  with 1 show "\<exists>a s'. bnd m f s = (Val a, s') \<and> Q a s'" by (simp add: run_simps)
qed

lemma gives_deferred:
  assumes "gives P m R" and "\<And>a. gives (R a) d (\<lambda>_. Q a)"
  shows "gives P (deferred m d) Q"
proof (rule givesI)
  fix s assume "P s"
  with assms(1) obtain a s' where 1: "m s = (Val a, s')" "R a s'" by (rule givesE)
  from assms(2) 1(2) obtain u s'' where "d s' = (Val u, s'')" "Q a s''" by (rule givesE)
  with 1 show "\<exists>a s'. deferred m d s = (Val a, s') \<and> Q a s'" by (simp add: deferred_def)
qed

lemma gives_ret [triple]: "(\<And>s. P s \<Longrightarrow> Q a s) \<Longrightarrow> gives P (ret a) Q"
  by (simp add: gives_def ret_def)

lemma gives_field [triple]: "(\<And>c w. P (c, w) \<Longrightarrow> Q (f c) (c, w)) \<Longrightarrow> gives P (field f) Q"
  by (simp add: gives_def field_def split_paired_all)

lemma gives_upd [triple]: "(\<And>c w. P (c, w) \<Longrightarrow> Q () (f c, w)) \<Longrightarrow> gives P (upd f) Q"
  by (simp add: gives_def upd_def split_paired_all)

lemma gives_call [triple]:
  "(\<And>c w a w'. P (c, w) \<Longrightarrow> g w = (a, w') \<Longrightarrow> Q a (c, w')) \<Longrightarrow> gives P (call g) Q"
  by (simp add: gives_def call_def split_paired_all split: prod.split)

lemma gives_if [triple]:
  "(b \<Longrightarrow> gives P m Q) \<Longrightarrow> (\<not> b \<Longrightarrow> gives P n Q) \<Longrightarrow> gives P (if b then m else n) Q"
  by simp

lemma gives_option [triple]:
  "(x = None \<Longrightarrow> gives P m Q) \<Longrightarrow> (\<And>b. x = Some b \<Longrightarrow> gives P (g b) Q) \<Longrightarrow>
   gives P (case x of None \<Rightarrow> m | Some b \<Rightarrow> g b) Q"
  by (simp split: option.split)

lemma gives_list [triple]:
  "(x = [] \<Longrightarrow> gives P m Q) \<Longrightarrow> (\<And>b bs. x = b # bs \<Longrightarrow> gives P (g b bs) Q) \<Longrightarrow>
   gives P (case x of [] \<Rightarrow> m | b # bs \<Rightarrow> g b bs) Q"
  by (simp split: list.split)

text \<open>A fact that does not depend on the state moves out of the precondition.\<close>

lemma gives_fact: "(c \<Longrightarrow> gives P m Q) \<Longrightarrow> gives (\<lambda>s. c \<and> P s) m Q"
  by (simp add: gives_def)

text \<open>Reading a field keeps the state: the value is known in what follows.\<close>

lemma gives_read:
  assumes "\<And>a. gives (\<lambda>s. P s \<and> f (fst s) = a) (g a) Q"
  shows "gives P (bnd (field f) g) Q"
  by (rule gives_bnd [where R = "\<lambda>a s. P s \<and> f (fst s) = a"])
    (simp_all add: gives_field assms)

lemma gives_ask:
  assumes "\<And>c w. P (c, w) \<Longrightarrow> P (c, snd (g w))" and "\<And>a. gives P (k a) Q"
  shows "gives P (bnd (call g) k) Q"
proof (rule gives_bnd [where R = "\<lambda>a. P"])
  show "gives P (call g) (\<lambda>a. P)" by (rule gives_call) (metis assms(1) snd_conv)
qed (rule assms(2))

end
