(* ===== verification/Commands.thy ===== *)
theory Commands
  imports PollingRegistry
begin

text \<open>
  The command handler (\<open>internal/service/command_handler.go\<close>): write commands that arrive over MQTT,
  their bounded queue, the one goroutine that empties it, the write through the protocol manager
  under a semaphore, and the response. The broker's client, the JSON functions, the clock, the
  manager and the choices of \<open>select\<close> are parameters. A JSON value that is an array or an object
  has no \<open>goval\<close> and is not modelled. Each handler runs as one sequence.
\<close>

section \<open>State\<close>

record command_config =
  cf_CommandTopicPrefix :: string
  cf_ResponseTopicPrefix :: string
  cf_WriteTimeout :: int
  cf_QoS :: byte
  cf_EnableAcknowledgement :: bool
  cf_MaxConcurrentWrites :: int
  cf_CommandQueueSize :: int

definition DefaultCommandConfig :: command_config where
  "DefaultCommandConfig =
     \<lparr>cf_CommandTopicPrefix = ''$nexus/cmd'', cf_ResponseTopicPrefix = ''$nexus/cmd/response'',
      cf_WriteTimeout = 10000000000, cf_QoS = 1, cf_EnableAcknowledgement = True,
      cf_MaxConcurrentWrites = 50, cf_CommandQueueSize = 1000\<rparr>"

record command_stats =
  cs_Received :: u64
  cs_Succeeded :: u64
  cs_Failed :: u64
  cs_Rejected :: u64

record write_command =
  wc_RequestID :: string
  wc_DeviceID :: string
  wc_TagID :: string
  wc_Value :: goval
  wc_Timestamp :: int
  wc_Priority :: int

record write_response =
  wr_RequestID :: string
  wr_DeviceID :: string
  wr_TagID :: string
  wr_Success :: bool
  wr_Error :: string
  wr_Timestamp :: int
  wr_Duration :: int

text \<open>
  \<open>ch_busy\<close> counts the tokens in \<open>writeSemaphore\<close>, \<open>ch_queue\<close> is \<open>commandQueue\<close>, oldest first, and
  \<open>ch_processors\<close> counts the goroutines in \<open>processCommandQueue\<close>.
\<close>

record command_handler =
  ch_config :: command_config
  ch_devices :: "string \<rightharpoonup> device"
  ch_tagByID :: "string \<rightharpoonup> (string \<rightharpoonup> tag)"
  ch_stats :: command_stats
  ch_running :: bool
  ch_cancelled :: bool
  ch_busy :: nat
  ch_queue :: "write_command list"
  ch_processors :: nat

record 'w command_env =
  ce_manager :: "'w protocol_manager"
  ce_Publish :: "string \<Rightarrow> byte \<Rightarrow> bool \<Rightarrow> string \<Rightarrow> 'w \<Rightarrow> string option \<times> 'w"
  ce_Subscribe :: "string \<Rightarrow> byte \<Rightarrow> 'w \<Rightarrow> string option \<times> 'w"
  ce_Unsubscribe :: "string \<Rightarrow> 'w \<Rightarrow> unit \<times> 'w"
  ce_ParseCommand :: "string \<Rightarrow> write_command option"
  ce_ParseValue :: "string \<Rightarrow> goval option"
  ce_Marshal :: "write_response \<Rightarrow> string option"
  ce_Now :: "'w \<Rightarrow> int \<times> 'w"
  ce_prefer :: "'w \<Rightarrow> bool \<times> 'w"
  ce_drainOver :: "'w \<Rightarrow> bool \<times> 'w"

type_synonym ('w, 'a) cmd = "(command_handler \<times> 'w, 'a) prog"

section \<open>Devices\<close>

text \<open>\<open>buildTagIndex\<close>: a later tag with the same ID replaces an earlier one.\<close>

definition buildTagIndex :: "device \<Rightarrow> (string \<rightharpoonup> tag)" where
  "buildTagIndex d = map_of (rev (map (\<lambda>t. (tag_ID t, t)) (dev_Tags d)))"

definition AddDevice :: "device \<Rightarrow> command_handler \<Rightarrow> command_handler" where
  "AddDevice d h =
     h\<lparr>ch_devices := (ch_devices h)(dev_ID d \<mapsto> d),
       ch_tagByID := (ch_tagByID h)(dev_ID d \<mapsto> buildTagIndex d)\<rparr>"

definition RemoveDevice :: "string \<Rightarrow> command_handler \<Rightarrow> command_handler" where
  "RemoveDevice i h =
     h\<lparr>ch_devices := (ch_devices h)(i := None), ch_tagByID := (ch_tagByID h)(i := None)\<rparr>"

definition UpdateDevices :: "device list \<Rightarrow> command_handler \<Rightarrow> command_handler" where
  "UpdateDevices ds h = fold AddDevice ds (h\<lparr>ch_devices := Map.empty, ch_tagByID := Map.empty\<rparr>)"

definition NewCommandHandler :: "device list \<Rightarrow> command_config \<Rightarrow> command_handler" where
  "NewCommandHandler ds config =
     fold AddDevice ds
       \<lparr>ch_config = config\<lparr>cf_MaxConcurrentWrites := positive_or 50 (cf_MaxConcurrentWrites config),
                           cf_CommandQueueSize := positive_or 1000 (cf_CommandQueueSize config)\<rparr>,
        ch_devices = Map.empty, ch_tagByID = Map.empty,
        ch_stats = \<lparr>cs_Received = 0, cs_Succeeded = 0, cs_Failed = 0, cs_Rejected = 0\<rparr>,
        ch_running = False, ch_cancelled = False, ch_busy = 0, ch_queue = [], ch_processors = 0\<rparr>"

definition SubscribedTopics :: "command_handler \<Rightarrow> string list" where
  "SubscribedTopics h =
     [cf_CommandTopicPrefix (ch_config h) @ ''/+/write'', cf_CommandTopicPrefix (ch_config h) @ ''/+/+/set'']"

definition handler_Stats :: "command_handler \<Rightarrow> (string \<times> u64) list" where
  "handler_Stats h =
     [(''commands_received'', cs_Received (ch_stats h)), (''commands_succeeded'', cs_Succeeded (ch_stats h)),
      (''commands_failed'', cs_Failed (ch_stats h)), (''commands_rejected'', cs_Rejected (ch_stats h))]"

section \<open>Counters and responses\<close>

definition count_cmd :: "(command_stats \<Rightarrow> command_stats) \<Rightarrow> ('w, unit) cmd" where
  "count_cmd f = upd (\<lambda>h. h\<lparr>ch_stats := f (ch_stats h)\<rparr>)"

definition cmd_received :: "('w, unit) cmd" where
  "cmd_received = count_cmd (\<lambda>st. st\<lparr>cs_Received := cs_Received st + 1\<rparr>)"

definition cmd_rejected :: "('w, unit) cmd" where
  "cmd_rejected = count_cmd (\<lambda>st. st\<lparr>cs_Rejected := cs_Rejected st + 1\<rparr>)"

definition cmd_failed :: "('w, unit) cmd" where
  "cmd_failed = count_cmd (\<lambda>st. st\<lparr>cs_Failed := cs_Failed st + 1\<rparr>)"

definition cmd_succeeded :: "('w, unit) cmd" where
  "cmd_succeeded = count_cmd (\<lambda>st. st\<lparr>cs_Succeeded := cs_Succeeded st + 1\<rparr>)"

definition response_topic :: "command_config \<Rightarrow> write_command \<Rightarrow> string" where
  "response_topic config cmd = cf_ResponseTopicPrefix config @ ''/'' @ wc_DeviceID cmd @ ''/'' @ wc_TagID cmd"

definition sendResponse :: "'w command_env \<Rightarrow> write_command \<Rightarrow> bool \<Rightarrow> string \<Rightarrow> int \<Rightarrow> ('w, unit) cmd" where
  "sendResponse E cmd success errMsg duration =
     bnd (field ch_config) (\<lambda>config.
     if \<not> cf_EnableAcknowledgement config then ret ()
     else
       bnd (call (ce_Now E)) (\<lambda>now.
       case ce_Marshal E \<lparr>wr_RequestID = wc_RequestID cmd, wr_DeviceID = wc_DeviceID cmd, wr_TagID = wc_TagID cmd,
                          wr_Success = success, wr_Error = errMsg, wr_Timestamp = now, wr_Duration = duration\<rparr> of
         None \<Rightarrow> ret ()
       | Some payload \<Rightarrow>
           bnd (call (ce_Publish E (response_topic config cmd) (cf_QoS config) False payload)) (\<lambda>err. ret ())))"

text \<open>\<open>time.Since\<close> is read before the response is built.\<close>

definition respond_since :: "'w command_env \<Rightarrow> write_command \<Rightarrow> int \<Rightarrow> bool \<Rightarrow> string \<Rightarrow> ('w, unit) cmd" where
  "respond_since E cmd start success errMsg =
     bnd (call (ce_Now E)) (\<lambda>now. sendResponse E cmd success errMsg (time_Sub now start))"

section \<open>A message arrives\<close>

definition queue_full_text :: string where
  "queue_full_text = ''command queue full, try again later''"

definition enqueue :: "'w command_env \<Rightarrow> write_command \<Rightarrow> ('w, unit) cmd" where
  "enqueue E cmd =
     bnd (field (\<lambda>h. int (length (ch_queue h)) < cf_CommandQueueSize (ch_config h))) (\<lambda>room.
     if room then upd (\<lambda>h. h\<lparr>ch_queue := ch_queue h @ [cmd]\<rparr>)
     else bnd (sendResponse E cmd False queue_full_text 0) (\<lambda>_. cmd_rejected))"

definition handleWriteCommand :: "'w command_env \<Rightarrow> string \<Rightarrow> string \<Rightarrow> ('w, unit) cmd" where
  "handleWriteCommand E topic payload =
     bnd cmd_received (\<lambda>_.
     let parts = Split topic CHR ''/'' in
     if length parts < 3 then cmd_rejected
     else
       case ce_ParseCommand E payload of
         None \<Rightarrow> cmd_rejected
       | Some cmd \<Rightarrow>
           let cmd = cmd\<lparr>wc_DeviceID := parts ! (length parts - 2)\<rparr> in
           bnd (if wc_Timestamp cmd = zero_time then call (ce_Now E) else ret (wc_Timestamp cmd)) (\<lambda>at.
           enqueue E (cmd\<lparr>wc_Timestamp := at\<rparr>)))"

definition handleTagWriteCommand :: "'w command_env \<Rightarrow> string \<Rightarrow> string \<Rightarrow> ('w, unit) cmd" where
  "handleTagWriteCommand E topic payload =
     bnd cmd_received (\<lambda>_.
     let parts = Split topic CHR ''/'' in
     if length parts < 4 then cmd_rejected
     else
       let value = (case ce_ParseValue E payload of None \<Rightarrow> VString payload | Some v \<Rightarrow> v) in
       bnd (call (ce_Now E)) (\<lambda>at.
       enqueue E \<lparr>wc_RequestID = '''', wc_DeviceID = parts ! (length parts - 3), wc_TagID = parts ! (length parts - 2),
                  wc_Value = value, wc_Timestamp = at, wc_Priority = 0\<rparr>))"

section \<open>A command is processed\<close>

text \<open>The semaphore: \<open>select\<close> over a free token, the end of the context, and \<open>default\<close>.\<close>

datatype admission = Admitted | ShuttingDown | RateLimited

definition acquire_write :: "'w command_env \<Rightarrow> ('w, admission) cmd" where
  "acquire_write E =
     bnd (field (\<lambda>h. int (ch_busy h) < cf_MaxConcurrentWrites (ch_config h))) (\<lambda>free.
     bnd (field ch_cancelled) (\<lambda>cancelled.
     bnd (call (ce_prefer E)) (\<lambda>token.
     if free \<and> (\<not> cancelled \<or> token)
     then bnd (upd (\<lambda>h. h\<lparr>ch_busy := ch_busy h + 1\<rparr>)) (\<lambda>_. ret Admitted)
     else if cancelled then ret ShuttingDown
     else ret RateLimited)))"

definition release_write :: "('w, unit) cmd" where
  "release_write = upd (\<lambda>h. h\<lparr>ch_busy := ch_busy h - 1\<rparr>)"

definition execute_write :: "'w command_env \<Rightarrow> write_command \<Rightarrow> int \<Rightarrow> ('w, unit) cmd" where
  "execute_write E cmd start =
     bnd (field (\<lambda>h. ch_devices h (wc_DeviceID cmd))) (\<lambda>device.
     bnd (field (\<lambda>h. case ch_tagByID h (wc_DeviceID cmd) of None \<Rightarrow> None | Some tags \<Rightarrow> tags (wc_TagID cmd))) (\<lambda>tag.
     case device of
       None \<Rightarrow> bnd (respond_since E cmd start False ''device not found'') (\<lambda>_. cmd_failed)
     | Some d \<Rightarrow>
         (case tag of
            None \<Rightarrow> bnd (respond_since E cmd start False ''tag not found'') (\<lambda>_. cmd_failed)
          | Some t \<Rightarrow>
              if \<not> IsWritable t
              then bnd (respond_since E cmd start False ''tag is not writable'') (\<lambda>_. cmd_failed)
              else
                bnd (world (pm_WriteTag (ce_manager E) d t (wc_Value cmd))) (\<lambda>err.
                case err of
                  Some e \<Rightarrow> bnd (respond_since E cmd start False (error_text e)) (\<lambda>_. cmd_failed)
                | None \<Rightarrow> bnd (respond_since E cmd start True '''') (\<lambda>_. cmd_succeeded)))))"

definition processWriteCommand :: "'w command_env \<Rightarrow> write_command \<Rightarrow> ('w, unit) cmd" where
  "processWriteCommand E cmd =
     bnd (call (ce_Now E)) (\<lambda>start.
     bnd (acquire_write E) (\<lambda>entry.
     case entry of
       ShuttingDown \<Rightarrow>
         bnd (respond_since E cmd start False ''service shutting down'') (\<lambda>_. cmd_rejected)
     | RateLimited \<Rightarrow>
         bnd (respond_since E cmd start False ''rate limit exceeded, too many concurrent writes'') (\<lambda>_. cmd_rejected)
     | Admitted \<Rightarrow> deferred (execute_write E cmd start) release_write))"

section \<open>The queue's goroutine\<close>

text \<open>
  Each turn of the drain takes a command or ends, so the length of the queue is enough fuel. When
  the timer has run out and the queue is not empty, \<open>select\<close> may take either.
\<close>

fun drain_commands :: "'w command_env \<Rightarrow> nat \<Rightarrow> ('w, unit) cmd" where
  "drain_commands E 0 = ret ()"
| "drain_commands E (Suc fuel) =
     bnd (call (ce_drainOver E)) (\<lambda>over.
     bnd (call (ce_prefer E)) (\<lambda>take_cmd.
     bnd (field ch_queue) (\<lambda>q.
     case q of
       [] \<Rightarrow> ret ()
     | cmd # rest \<Rightarrow>
         if over \<and> \<not> take_cmd then ret ()
         else
           bnd (upd (\<lambda>h. h\<lparr>ch_queue := rest\<rparr>)) (\<lambda>_.
           bnd (processWriteCommand E cmd) (\<lambda>_.
           drain_commands E fuel)))))"

definition drainCommandQueue :: "'w command_env \<Rightarrow> ('w, unit) cmd" where
  "drainCommandQueue E = bnd (field (\<lambda>h. length (ch_queue h))) (drain_commands E)"

datatype queue_next = QueueAgain | QueueStopped | QueueBlocked

definition processCommandQueue :: "'w command_env \<Rightarrow> ('w, queue_next) cmd" where
  "processCommandQueue E =
     bnd (field ch_cancelled) (\<lambda>cancelled.
     bnd (call (ce_prefer E)) (\<lambda>take_cmd.
     bnd (field ch_queue) (\<lambda>q.
     if cancelled \<and> (q = [] \<or> \<not> take_cmd)
     then bnd (drainCommandQueue E) (\<lambda>_.
          bnd (upd (\<lambda>h. h\<lparr>ch_processors := ch_processors h - 1\<rparr>)) (\<lambda>_. ret QueueStopped))
     else case q of
       [] \<Rightarrow> ret QueueBlocked
     | cmd # rest \<Rightarrow>
         bnd (upd (\<lambda>h. h\<lparr>ch_queue := rest\<rparr>)) (\<lambda>_.
         bnd (processWriteCommand E cmd) (\<lambda>_. ret QueueAgain)))))"

section \<open>Start and stop\<close>

definition subscribe_failure :: "string \<Rightarrow> gerror" where
  "subscribe_failure e = WrapV (MqttE ErrMQTTSubscribeFailed) e"

definition handler_Start :: "'w command_env \<Rightarrow> ('w, gerror option) cmd" where
  "handler_Start E =
     bnd (field ch_running) (\<lambda>running.
     if running then ret None
     else
       bnd (field ch_config) (\<lambda>config.
       bnd (upd (\<lambda>h. h\<lparr>ch_processors := ch_processors h + 1\<rparr>)) (\<lambda>_.
       bnd (call (ce_Subscribe E (cf_CommandTopicPrefix config @ ''/+/write'') (cf_QoS config))) (\<lambda>err.
       case err of
         Some e \<Rightarrow> ret (Some (subscribe_failure e))
       | None \<Rightarrow>
           bnd (call (ce_Subscribe E (cf_CommandTopicPrefix config @ ''/+/+/set'') (cf_QoS config))) (\<lambda>err.
           case err of
             Some e \<Rightarrow> ret (Some (subscribe_failure e))
           | None \<Rightarrow> bnd (upd (\<lambda>h. h\<lparr>ch_running := True\<rparr>)) (\<lambda>_. ret None))))))"

text \<open>
  \<open>Stop\<close> ends the context, then waits for the goroutines (each takes its turns until it has
  drained): \<open>handler_Stop\<close> is what it does before the wait, and \<open>ch_running\<close> falls after it.
\<close>

definition handler_Stop :: "'w command_env \<Rightarrow> ('w, unit) cmd" where
  "handler_Stop E =
     bnd (field ch_running) (\<lambda>running.
     if \<not> running then ret ()
     else
       bnd (upd (\<lambda>h. h\<lparr>ch_cancelled := True\<rparr>)) (\<lambda>_.
       bnd (field ch_config) (\<lambda>config.
       bnd (call (ce_Unsubscribe E (cf_CommandTopicPrefix config @ ''/+/write''))) (\<lambda>_.
       call (ce_Unsubscribe E (cf_CommandTopicPrefix config @ ''/+/+/set''))))))"

definition handler_stopped :: "command_handler \<Rightarrow> command_handler" where
  "handler_stopped h = (if ch_cancelled h \<and> ch_processors h = 0 then h\<lparr>ch_running := False\<rparr> else h)"

section \<open>Any order of events\<close>

datatype command_event = WriteMessage string string | TagMessage string string | QueueTurn
  | StartHandler | StopHandler | StopReturns | Update "device list" | Add device | Remove string

text \<open>A turn of the queue takes place while a goroutine runs it.\<close>

primrec command_step :: "'w command_env \<Rightarrow> command_event \<Rightarrow> ('w, unit) cmd" where
  "command_step E (WriteMessage topic payload) = handleWriteCommand E topic payload"
| "command_step E (TagMessage topic payload) = handleTagWriteCommand E topic payload"
| "command_step E QueueTurn =
     bnd (field ch_processors) (\<lambda>n.
     if n = 0 then ret () else bnd (processCommandQueue E) (\<lambda>_. ret ()))"
| "command_step E StartHandler = bnd (handler_Start E) (\<lambda>_. ret ())"
| "command_step E StopHandler = handler_Stop E"
| "command_step E StopReturns = upd handler_stopped"
| "command_step E (Update ds) = upd (UpdateDevices ds)"
| "command_step E (Add d) = upd (AddDevice d)"
| "command_step E (Remove i) = upd (RemoveDevice i)"

fun command_run :: "'w command_env \<Rightarrow> command_event list \<Rightarrow> ('w, unit) cmd" where
  "command_run E [] = ret ()"
| "command_run E (e # es) = bnd (command_step E e) (\<lambda>_. command_run E es)"

end
