(* ===== verification/CommandProps.thy ===== *)
theory CommandProps
  imports Commands GoHoare
begin

text \<open>
  What the command handler keeps: the bounds of its queue and of its semaphore, the tag index, and
  the balance of its counters under any order of events; one response for each processed command;
  and that only writable tags of known devices are written.
\<close>

section \<open>The invariant\<close>

definition writes_return :: "'w command_env \<Rightarrow> bool" where
  "writes_return E \<longleftrightarrow> (\<forall>d t v w. \<exists>r w'. pm_WriteTag (ce_manager E) d t v w = (Val r, w'))"

text \<open>\<open>n\<close> commands are in processing, with \<open>b\<close> tokens in the semaphore.\<close>

definition accounted :: "nat \<Rightarrow> nat \<Rightarrow> command_handler \<Rightarrow> bool" where
  "accounted n b h \<longleftrightarrow>
     cs_Received (ch_stats h) = cs_Rejected (ch_stats h) + cs_Succeeded (ch_stats h) + cs_Failed (ch_stats h) +
       of_nat (length (ch_queue h)) + of_nat n \<and>
     ch_busy h = b \<and> 0 < cf_MaxConcurrentWrites (ch_config h) \<and>
     int (length (ch_queue h)) \<le> cf_CommandQueueSize (ch_config h)"

definition indexed :: "command_handler \<Rightarrow> bool" where
  "indexed h \<longleftrightarrow> (\<forall>i. ch_tagByID h i = map_option buildTagIndex (ch_devices h i)) \<and>
     (\<forall>i d. ch_devices h i = Some d \<longrightarrow> dev_ID d = i)"

abbreviation steady :: "nat \<Rightarrow> nat \<Rightarrow> command_handler \<times> 'w \<Rightarrow> bool" where
  "steady n b \<equiv> on_client (\<lambda>h. accounted n b h \<and> indexed h)"

lemma count_gives:
  "gives (steady (Suc n) b) cmd_rejected (\<lambda>_. steady n b)"
  "gives (steady (Suc n) b) cmd_failed (\<lambda>_. steady n b)"
  "gives (steady (Suc n) b) cmd_succeeded (\<lambda>_. steady n b)"
  "gives (steady n b) cmd_received (\<lambda>_. steady (Suc n) b)"
  unfolding cmd_rejected_def cmd_failed_def cmd_succeeded_def cmd_received_def count_cmd_def
  by (rule gives_upd; simp add: on_client_def accounted_def indexed_def)+

lemma sendResponse_gives: "gives (on_client P) (sendResponse E cmd ok msg dur) (\<lambda>_. on_client P)"
  unfolding sendResponse_def
  by (rule gives_bnd [where R = "\<lambda>a. on_client P"], rule gives_field, simp add: on_client_def)
    (intro gives_if gives_option gives_ask gives_ret; simp add: on_client_def)

lemma respond_since_gives: "gives (on_client P) (respond_since E cmd start ok msg) (\<lambda>_. on_client P)"
  unfolding respond_since_def
  by (rule gives_ask [OF _ sendResponse_gives]) (simp add: on_client_def)

lemma enqueue_gives: "gives (steady (Suc n) b) (enqueue E cmd) (\<lambda>_. steady n b)"
  unfolding enqueue_def
proof (rule gives_read, rule gives_if)
  fix a :: bool assume a
  then show "gives (\<lambda>s. steady (Suc n) b s \<and> (int (length (ch_queue (fst s))) < cf_CommandQueueSize (ch_config (fst s))) = a)
      (upd (\<lambda>h. h\<lparr>ch_queue := ch_queue h @ [cmd]\<rparr>)) (\<lambda>_. steady n b)"
    by (intro gives_upd) (simp add: on_client_def accounted_def indexed_def)
next
  fix a :: bool
  have "gives (steady (Suc n) b) (bnd (sendResponse E cmd False queue_full_text 0) (\<lambda>_. cmd_rejected)) (\<lambda>_. steady n b)"
    by (rule gives_bnd [OF sendResponse_gives count_gives(1)])
  then show "gives (\<lambda>s. steady (Suc n) b s \<and> (int (length (ch_queue (fst s))) < cf_CommandQueueSize (ch_config (fst s))) = a)
      (bnd (sendResponse E cmd False queue_full_text 0) (\<lambda>_. cmd_rejected)) (\<lambda>_. steady n b)"
    by (rule gives_pre) simp
qed

lemma messages_give:
  "gives (steady n b) (handleWriteCommand E topic payload) (\<lambda>_. steady n b)"
  "gives (steady n b) (handleTagWriteCommand E topic payload) (\<lambda>_. steady n b)"
  unfolding handleWriteCommand_def handleTagWriteCommand_def Let_def
  by (rule gives_bnd [OF count_gives(4)];
      intro gives_if gives_option count_gives(1) gives_ask enqueue_gives
        gives_bnd [where R = "\<lambda>a. steady (Suc n) b", OF _ enqueue_gives] gives_ret gives_call;
      simp add: on_client_def)+

section \<open>Processing\<close>

lemma respond_count_gives:
  "gives (steady (Suc n) b) (bnd (respond_since E cmd start ok msg) (\<lambda>_. cmd_failed)) (\<lambda>_. steady n b)"
  "gives (steady (Suc n) b) (bnd (respond_since E cmd start ok msg) (\<lambda>_. cmd_succeeded)) (\<lambda>_. steady n b)"
  "gives (steady (Suc n) b) (bnd (respond_since E cmd start ok msg) (\<lambda>_. cmd_rejected)) (\<lambda>_. steady n b)"
  by (rule gives_bnd [OF respond_since_gives], rule count_gives)+

lemma write_gives:
  assumes "writes_return E"
  shows "gives (on_client P) (world (pm_WriteTag (ce_manager E) d t v)) (\<lambda>_. on_client P)"
proof (rule givesI)
  fix s :: "'b \<times> 'a" assume "on_client P s"
  moreover obtain r w' where "pm_WriteTag (ce_manager E) d t v (snd s) = (Val r, w')"
    using assms unfolding writes_return_def by blast
  ultimately show "\<exists>a s'. world (pm_WriteTag (ce_manager E) d t v) s = (Val a, s') \<and> on_client P s'"
    by (simp add: world_def on_client_def)
qed

lemma execute_write_gives:
  assumes "writes_return E"
  shows "gives (steady (Suc n) b) (execute_write E cmd start) (\<lambda>_. steady n b)"
  unfolding execute_write_def
  by (rule gives_bnd [where R = "\<lambda>a. steady (Suc n) b"], rule gives_field, simp,
      rule gives_bnd [where R = "\<lambda>a. steady (Suc n) b"], rule gives_field, simp,
      rule gives_option, rule respond_count_gives, rule gives_option, rule respond_count_gives,
      rule gives_if, rule respond_count_gives, rule gives_bnd [OF write_gives [OF assms]],
      rule gives_option, rule respond_count_gives, rule respond_count_gives)

lemma acquire_write_gives:
  "gives (steady n 0) (acquire_write E) (\<lambda>a. steady n (if a = Admitted then 1 else 0))"
  unfolding acquire_write_def
  by (rule gives_bnd [where R = "\<lambda>free. steady n 0"], rule gives_field, simp,
      rule gives_bnd [where R = "\<lambda>c. steady n 0"], rule gives_field, simp,
      rule gives_ask, simp add: on_client_def, rule gives_if,
      rule gives_bnd [where R = "\<lambda>_. steady n 1"], rule gives_upd, simp add: on_client_def accounted_def indexed_def,
      rule gives_ret, simp, rule gives_if, rule gives_ret, simp, rule gives_ret, simp)

lemma processWriteCommand_gives:
  assumes "writes_return E"
  shows "gives (steady (Suc n) 0) (processWriteCommand E cmd) (\<lambda>_. steady n 0)"
proof -
  have run: "gives (steady (Suc n) 1) (deferred (execute_write E cmd start) release_write) (\<lambda>_. steady n 0)" for start
    by (rule gives_deferred [OF execute_write_gives [OF assms]], unfold release_write_def, rule gives_upd)
      (simp add: on_client_def accounted_def indexed_def)
  show ?thesis
    unfolding processWriteCommand_def
    by (rule gives_ask, simp add: on_client_def, rule gives_bnd [OF acquire_write_gives])
      (use run respond_count_gives(3) in \<open>auto split: admission.split\<close>)
qed

text \<open>A command leaves the queue: it is in processing.\<close>

lemma dequeue_gives:
  "gives (\<lambda>s. steady n b s \<and> ch_queue (fst s) = cmd # rest) (upd (\<lambda>h. h\<lparr>ch_queue := rest\<rparr>)) (\<lambda>_. steady (Suc n) b)"
  by (rule gives_upd) (auto simp: on_client_def accounted_def indexed_def)

lemma drain_gives:
  assumes "writes_return E"
  shows "gives (steady 0 0) (drain_commands E fuel) (\<lambda>_. steady 0 0)"
proof (induction fuel)
  case 0
  show ?case by (simp add: gives_ret)
next
  case (Suc fuel)
  have next_cmd: "gives (\<lambda>s. steady 0 0 s \<and> ch_queue (fst s) = cmd # rest)
      (bnd (upd (\<lambda>h. h\<lparr>ch_queue := rest\<rparr>)) (\<lambda>_. bnd (processWriteCommand E cmd) (\<lambda>_. drain_commands E fuel)))
      (\<lambda>_. steady 0 0)" for cmd rest
    by (rule gives_bnd [OF dequeue_gives], rule gives_bnd [OF processWriteCommand_gives [OF assms] Suc.IH])
  show ?case
    unfolding drain_commands.simps
    by (rule gives_ask, simp add: on_client_def, rule gives_ask, simp add: on_client_def, rule gives_read,
        rule gives_list, rule gives_ret, simp, rule gives_if, rule gives_ret, simp, hypsubst, rule next_cmd)
qed

lemma processCommandQueue_gives:
  assumes "writes_return E"
  shows "gives (steady 0 0) (processCommandQueue E) (\<lambda>_. steady 0 0)"
proof -
  have leave: "gives (steady 0 0) (bnd (drainCommandQueue E) (\<lambda>_.
      bnd (upd (\<lambda>h. h\<lparr>ch_processors := ch_processors h - 1\<rparr>)) (\<lambda>_. ret QueueStopped))) (\<lambda>_. steady 0 0)"
    unfolding drainCommandQueue_def
    by (rule gives_bnd [where R = "\<lambda>_. steady 0 0"], rule gives_bnd [where R = "\<lambda>_. steady 0 0"],
        rule gives_field, simp, rule drain_gives [OF assms], rule gives_bnd [where R = "\<lambda>_. steady 0 0"],
        rule gives_upd, simp add: on_client_def accounted_def indexed_def, rule gives_ret)
  have take_one: "gives (\<lambda>s. steady 0 0 s \<and> ch_queue (fst s) = cmd # rest)
      (bnd (upd (\<lambda>h. h\<lparr>ch_queue := rest\<rparr>)) (\<lambda>_. bnd (processWriteCommand E cmd) (\<lambda>_. ret QueueAgain)))
      (\<lambda>_. steady 0 0)" for cmd rest
    by (rule gives_bnd [OF dequeue_gives], rule gives_bnd [OF processWriteCommand_gives [OF assms] gives_ret])
  show ?thesis
    unfolding processCommandQueue_def
    by (rule gives_bnd [where R = "\<lambda>_. steady 0 0"], rule gives_field, simp, rule gives_ask, simp add: on_client_def,
        rule gives_read, rule gives_if, rule gives_pre [OF leave], simp, rule gives_list, rule gives_ret, simp,
        hypsubst, rule take_one)
qed

section \<open>Devices\<close>

lemma indexed_AddDevice: "indexed h \<Longrightarrow> indexed (AddDevice d h)"
  by (simp add: indexed_def AddDevice_def)

lemma AddDevices:
  "indexed h \<Longrightarrow> indexed (fold AddDevice ds h)" "accounted n b (fold AddDevice ds h) = accounted n b h"
proof -
  show "indexed h \<Longrightarrow> indexed (fold AddDevice ds h)"
    by (induction ds arbitrary: h) (simp_all add: indexed_AddDevice)
  have "accounted n b (AddDevice d h) = accounted n b h" for d h
    by (simp add: accounted_def AddDevice_def)
  then show "accounted n b (fold AddDevice ds h) = accounted n b h"
    by (induction ds arbitrary: h) simp_all
qed

lemma device_updates:
  assumes "accounted n b h" and "indexed h"
  shows "accounted n b (AddDevice d h) \<and> indexed (AddDevice d h)"
    and "accounted n b (RemoveDevice i h) \<and> indexed (RemoveDevice i h)"
    and "accounted n b (UpdateDevices ds h) \<and> indexed (UpdateDevices ds h)"
proof -
  show "accounted n b (AddDevice d h) \<and> indexed (AddDevice d h)"
    using assms by (simp add: indexed_AddDevice) (simp add: accounted_def AddDevice_def)
  show "accounted n b (RemoveDevice i h) \<and> indexed (RemoveDevice i h)"
    using assms by (auto simp: accounted_def indexed_def RemoveDevice_def)
  have "indexed (h\<lparr>ch_devices := Map.empty, ch_tagByID := Map.empty\<rparr>)" by (simp add: indexed_def)
  moreover have "accounted n b (h\<lparr>ch_devices := Map.empty, ch_tagByID := Map.empty\<rparr>)"
    using assms(1) by (simp add: accounted_def)
  ultimately show "accounted n b (UpdateDevices ds h) \<and> indexed (UpdateDevices ds h)"
    by (simp add: UpdateDevices_def AddDevices)
qed

lemma new_handler: "accounted 0 0 (NewCommandHandler ds config) \<and> indexed (NewCommandHandler ds config)"
  unfolding NewCommandHandler_def AddDevices(2)
  by (intro conjI AddDevices(1)) (auto simp: accounted_def indexed_def positive_or_def)

section \<open>The claims\<close>

lemma starting_stopping:
  "gives (steady n b) (handler_Start E) (\<lambda>_. steady n b)"
  "gives (steady n b) (handler_Stop E) (\<lambda>_. steady n b)"
  unfolding handler_Start_def handler_Stop_def
  by (rule gives_read; intro gives_if gives_ret gives_read gives_bnd [where R = "\<lambda>_. steady n b"] gives_upd
      gives_ask gives_option gives_call; simp add: on_client_def accounted_def indexed_def)+

lemma handler_stopped_ok: "accounted n b (handler_stopped h) = accounted n b h" "indexed (handler_stopped h) = indexed h"
  by (simp_all add: handler_stopped_def accounted_def indexed_def)

lemma command_step_gives:
  assumes "writes_return E"
  shows "gives (steady 0 0) (command_step E e) (\<lambda>_. steady 0 0)"
proof (cases e)
  case QueueTurn
  have "gives (steady 0 0) (bnd (processCommandQueue E) (\<lambda>_. ret ())) (\<lambda>_. steady 0 0)"
    by (rule gives_bnd [OF processCommandQueue_gives [OF assms] gives_ret])
  with QueueTurn show ?thesis
    by (auto intro!: gives_bnd [where R = "\<lambda>_. steady 0 0"] gives_field gives_if gives_ret)
next
  case StartHandler
  then show ?thesis by (auto intro: gives_bnd [OF starting_stopping(1) gives_ret])
qed (auto simp: messages_give starting_stopping intro!: gives_upd; simp add: on_client_def handler_stopped_ok device_updates)+

lemma command_run_gives:
  assumes "writes_return E"
  shows "gives (steady 0 0) (command_run E es) (\<lambda>_. steady 0 0)"
proof (induction es)
  case (Cons e es)
  then show ?case by (simp add: gives_bnd [OF command_step_gives [OF assms]])
qed (simp add: gives_ret)

text \<open>
  C16. Every command is accounted for: whatever messages, turns of the queue, starts, stops and
  changes of the devices come in whatever order, as long as the manager's writes return, nothing
  panics, the commands received are those rejected, succeeded, failed or waiting, the queue is within its size,
  and between two events no token of the semaphore is taken.
\<close>

theorem commands_accounted_for:
  assumes "writes_return E"
  shows "\<exists>h w'. command_run E es (NewCommandHandler ds config, w) = (Val (), (h, w')) \<and>
    cs_Received (ch_stats h) = cs_Rejected (ch_stats h) + cs_Succeeded (ch_stats h) + cs_Failed (ch_stats h) +
      of_nat (length (ch_queue h)) \<and>
    int (length (ch_queue h)) \<le> cf_CommandQueueSize (ch_config h) \<and> ch_busy h = 0"
proof -
  have "steady 0 0 (NewCommandHandler ds config, w)" by (simp add: on_client_def new_handler)
  with command_run_gives [OF assms, of es] obtain u s' where
    "command_run E es (NewCommandHandler ds config, w) = (Val u, s')" "steady 0 0 s'" by (rule givesE)
  then show ?thesis by (cases s') (simp add: on_client_def accounted_def)
qed

section \<open>One answer\<close>

text \<open>\<open>sent\<close> observes what was published: publishing appends, and nothing else of the world shows in it.\<close>

definition observed :: "('w \<Rightarrow> (string \<times> string) list) \<Rightarrow> 'w command_env \<Rightarrow> bool" where
  "observed sent E \<longleftrightarrow>
     (\<forall>t q r p w. sent (snd (ce_Publish E t q r p w)) = sent w @ [(t, p)]) \<and>
     (\<forall>w. sent (snd (ce_Now E w)) = sent w \<and> sent (snd (ce_prefer E w)) = sent w) \<and>
     (\<forall>d t v w. \<exists>r w'. pm_WriteTag (ce_manager E) d t v w = (Val r, w') \<and> sent w' = sent w)"

definition answered ::
  "('w \<Rightarrow> (string \<times> string) list) \<Rightarrow> 'w command_env \<Rightarrow> (string \<times> string) list \<Rightarrow> command_config \<Rightarrow>
   write_command \<Rightarrow> bool \<Rightarrow> 'w \<Rightarrow> bool" where
  "answered sent E before config cmd success w \<longleftrightarrow>
     (\<exists>resp payload. ce_Marshal E resp = Some payload \<and> wr_Success resp = success \<and>
        wr_RequestID resp = wc_RequestID cmd \<and> wr_DeviceID resp = wc_DeviceID cmd \<and> wr_TagID resp = wc_TagID cmd \<and>
        sent w = before @ [(response_topic config cmd, payload)])"

text \<open>The handler is \<open>h\<close> and \<open>l\<close> was published; then also one answer was.\<close>

definition at :: "('w \<Rightarrow> 'l) \<Rightarrow> command_handler \<Rightarrow> 'l \<Rightarrow> command_handler \<times> 'w \<Rightarrow> bool" where
  "at sent h l s \<longleftrightarrow> fst s = h \<and> sent (snd s) = l"

definition at_answered ::
  "('w \<Rightarrow> (string \<times> string) list) \<Rightarrow> 'w command_env \<Rightarrow> command_handler \<Rightarrow> (string \<times> string) list \<Rightarrow>
   write_command \<Rightarrow> bool \<Rightarrow> command_handler \<times> 'w \<Rightarrow> bool" where
  "at_answered sent E h l cmd success s \<longleftrightarrow> fst s = h \<and> answered sent E l (ch_config h) cmd success (snd s)"

lemma observed_calls:
  assumes "observed sent E"
  shows "at sent h l (c, w) \<Longrightarrow> at sent h l (c, snd (ce_Now E w))"
    and "at sent h l (c, w) \<Longrightarrow> at sent h l (c, snd (ce_prefer E w))"
  using assms by (simp_all add: observed_def at_def)

lemma field_at: "gives (at sent h l) (field f) (\<lambda>a s. a = f h \<and> at sent h l s)"
  by (rule gives_field) (auto simp: at_def)

lemma respond_gives:
  assumes "observed sent E" and "cf_EnableAcknowledgement (ch_config h)" and "\<forall>r. ce_Marshal E r \<noteq> None"
  shows "gives (at sent h l) (respond_since E cmd start ok msg) (\<lambda>_. at_answered sent E h l cmd ok)"
proof (rule givesI)
  fix s assume s: "at sent h l s"
  obtain w where w: "s = (h, w)" "sent w = l" using s by (cases s) (auto simp: at_def)
  obtain n1 w1 where 1: "ce_Now E w = (n1, w1)" by fastforce
  obtain n2 w2 where 2: "ce_Now E w1 = (n2, w2)" by fastforce
  have l: "sent w2 = l" using assms(1) 1 2 w(2) unfolding observed_def by (metis snd_conv)
  define resp where "resp = \<lparr>wr_RequestID = wc_RequestID cmd, wr_DeviceID = wc_DeviceID cmd, wr_TagID = wc_TagID cmd,
    wr_Success = ok, wr_Error = msg, wr_Timestamp = n2, wr_Duration = time_Sub n1 start\<rparr>"
  from assms(3) obtain p where p: "ce_Marshal E resp = Some p" by blast
  obtain e w3 where 3: "ce_Publish E (response_topic (ch_config h) cmd) (cf_QoS (ch_config h)) False p w2 = (e, w3)"
    by fastforce
  have "sent w3 = l @ [(response_topic (ch_config h) cmd, p)]"
    using assms(1) 3 l unfolding observed_def by (metis snd_conv)
  moreover have "respond_since E cmd start ok msg s = (Val (), (h, w3))"
    using 1 2 3 assms(2) p by (simp add: respond_since_def sendResponse_def w run_simps resp_def)
  ultimately show "\<exists>a s'. respond_since E cmd start ok msg s = (Val a, s') \<and> at_answered sent E h l cmd ok s'"
    using p by (force simp: at_answered_def answered_def resp_def)
qed

lemma write_at:
  assumes "observed sent E"
  shows "gives (at sent h l) (world (pm_WriteTag (ce_manager E) d t v))
    (\<lambda>r s. at sent h l s \<and> (\<exists>w0 w1. pm_WriteTag (ce_manager E) d t v w0 = (Val r, w1)))"
proof (rule givesI)
  fix s assume s: "at sent h l s"
  obtain w where w: "s = (h, w)" "sent w = l" using s by (cases s) (auto simp: at_def)
  from assms obtain r w' where "pm_WriteTag (ce_manager E) d t v w = (Val r, w')" "sent w' = sent w"
    unfolding observed_def by blast
  with w show "\<exists>a s'. world (pm_WriteTag (ce_manager E) d t v) s = (Val a, s') \<and> at sent h l s' \<and>
      (\<exists>w0 w1. pm_WriteTag (ce_manager E) d t v w0 = (Val a, w1))"
    by (auto simp: world_def at_def)
qed

text \<open>The write a command asks for, of the handler's devices.\<close>

definition written :: "'w command_env \<Rightarrow> command_handler \<Rightarrow> write_command \<Rightarrow> bool" where
  "written E h cmd \<longleftrightarrow>
     (\<exists>d tags t w0 w1. ch_devices h (wc_DeviceID cmd) = Some d \<and> ch_tagByID h (wc_DeviceID cmd) = Some tags \<and>
        tags (wc_TagID cmd) = Some t \<and> IsWritable t \<and>
        pm_WriteTag (ce_manager E) d t (wc_Value cmd) w0 = (Val None, w1))"

text \<open>What remains to be counted after the answer.\<close>

definition outcome :: "'w command_env \<Rightarrow> command_handler \<Rightarrow> write_command \<Rightarrow> bool \<Rightarrow> command_handler \<Rightarrow> bool" where
  "outcome E h cmd success h' \<longleftrightarrow>
     (if success
      then written E h cmd \<and> h' = h\<lparr>ch_stats := (ch_stats h)\<lparr>cs_Succeeded := cs_Succeeded (ch_stats h) + 1\<rparr>\<rparr>
      else h' = h\<lparr>ch_stats := (ch_stats h)\<lparr>cs_Failed := cs_Failed (ch_stats h) + 1\<rparr>\<rparr> \<or>
           h' = h\<lparr>ch_stats := (ch_stats h)\<lparr>cs_Rejected := cs_Rejected (ch_stats h) + 1\<rparr>\<rparr>)"

definition processed ::
  "('w \<Rightarrow> (string \<times> string) list) \<Rightarrow> 'w command_env \<Rightarrow> command_handler \<Rightarrow> (string \<times> string) list \<Rightarrow>
   write_command \<Rightarrow> command_handler \<times> 'w \<Rightarrow> bool" where
  "processed sent E h l cmd s \<longleftrightarrow>
     (\<exists>success. outcome E h cmd success (fst s) \<and> answered sent E l (ch_config h) cmd success (snd s))"

lemma count_processed:
  "gives (at_answered sent E h l cmd False) cmd_failed (\<lambda>_. processed sent E h l cmd)"
  "gives (at_answered sent E h l cmd False) cmd_rejected (\<lambda>_. processed sent E h l cmd)"
  "written E h cmd \<Longrightarrow> gives (at_answered sent E h l cmd True) cmd_succeeded (\<lambda>_. processed sent E h l cmd)"
  unfolding cmd_failed_def cmd_rejected_def cmd_succeeded_def count_cmd_def processed_def outcome_def at_answered_def
  by (rule gives_upd; simp; metis)+

lemma execute_write_processed:
  assumes "observed sent E" and "cf_EnableAcknowledgement (ch_config h)" and "\<forall>r. ce_Marshal E r \<noteq> None"
  shows "gives (at sent h l) (execute_write E cmd start) (\<lambda>_. processed sent E h l cmd)"
proof -
  note respond = gives_bnd [OF respond_gives [OF assms]]
  have failed: "gives (at sent h l) (bnd (respond_since E cmd start False msg) (\<lambda>_. cmd_failed))
      (\<lambda>_. processed sent E h l cmd)" for msg
    by (rule respond count_processed)+
  have after_write: "gives (\<lambda>s. at sent h l s \<and> (\<exists>w0 w1. pm_WriteTag (ce_manager E) d t (wc_Value cmd) w0 = (Val r, w1)))
      (case r of
         Some e \<Rightarrow> bnd (respond_since E cmd start False (error_text e)) (\<lambda>_. cmd_failed)
       | None \<Rightarrow> bnd (respond_since E cmd start True '''') (\<lambda>_. cmd_succeeded)) (\<lambda>_. processed sent E h l cmd)"
    if t: "ch_devices h (wc_DeviceID cmd) = Some d" "ch_tagByID h (wc_DeviceID cmd) = Some tags"
      "tags (wc_TagID cmd) = Some t" "IsWritable t" for d tags t r
  proof (cases r)
    case None
    show ?thesis
    proof (cases "\<exists>w0 w1. pm_WriteTag (ce_manager E) d t (wc_Value cmd) w0 = (Val r, w1)")
      case True
      with None t have "written E h cmd" unfolding written_def by blast
      from respond [OF count_processed(3) [OF this]] None show ?thesis by (auto intro: gives_pre)
    next
      case False
      then show ?thesis by (auto simp: gives_def)
    qed
  next
    case (Some e)
    with failed show ?thesis by (auto intro: gives_pre)
  qed
  show ?thesis
    unfolding execute_write_def
  proof (rule gives_bnd [OF field_at], rule gives_fact, rule gives_bnd [OF field_at], rule gives_fact,
      rule gives_option, rule failed, rule gives_option, rule failed, rule gives_if, rule failed)
    fix device tag d t
    assume "device = ch_devices h (wc_DeviceID cmd)" "device = Some d" "tag = Some t" "\<not> \<not> IsWritable t"
      "tag = (case ch_tagByID h (wc_DeviceID cmd) of None \<Rightarrow> None | Some tags \<Rightarrow> tags (wc_TagID cmd))"
    then obtain tags where t: "ch_devices h (wc_DeviceID cmd) = Some d" "ch_tagByID h (wc_DeviceID cmd) = Some tags"
        "tags (wc_TagID cmd) = Some t" "IsWritable t"
      by (auto split: option.splits)
    show "gives (at sent h l)
        (bnd (world (pm_WriteTag (ce_manager E) d t (wc_Value cmd))) (\<lambda>err.
         case err of
           Some e \<Rightarrow> bnd (respond_since E cmd start False (error_text e)) (\<lambda>_. cmd_failed)
         | None \<Rightarrow> bnd (respond_since E cmd start True '''') (\<lambda>_. cmd_succeeded))) (\<lambda>_. processed sent E h l cmd)"
      by (rule gives_bnd [OF write_at [OF assms(1)] after_write [OF t]])
  qed
qed

lemma release_processed:
  "gives (processed sent E (h\<lparr>ch_busy := ch_busy h + 1\<rparr>) l cmd) release_write (\<lambda>_. processed sent E h l cmd)"
  unfolding release_write_def processed_def
  by (rule gives_upd; elim exE conjE; rule exI, rule conjI)
    (auto simp: outcome_def written_def split: if_splits)

lemma acquire_at:
  assumes "observed sent E"
  shows "gives (at sent h l) (acquire_write E)
    (\<lambda>a. at sent (if a = Admitted then h\<lparr>ch_busy := ch_busy h + 1\<rparr> else h) l)"
  unfolding acquire_write_def
  by (rule gives_bnd [where R = "\<lambda>_. at sent h l"], rule gives_field, simp,
      rule gives_bnd [where R = "\<lambda>_. at sent h l"], rule gives_field, simp,
      rule gives_ask, rule observed_calls(2) [OF assms], assumption, rule gives_if,
      rule gives_bnd [where R = "\<lambda>_. at sent (h\<lparr>ch_busy := ch_busy h + 1\<rparr>) l"], rule gives_upd, simp add: at_def,
      rule gives_ret, simp, rule gives_if, rule gives_ret, simp, rule gives_ret, simp)

lemma processWriteCommand_processed:
  assumes "observed sent E" and "cf_EnableAcknowledgement (ch_config h)" and "\<forall>r. ce_Marshal E r \<noteq> None"
  shows "gives (at sent h l) (processWriteCommand E cmd) (\<lambda>_. processed sent E h l cmd)"
proof -
  let ?h = "h\<lparr>ch_busy := ch_busy h + 1\<rparr>"
  have rejected: "gives (at sent h l) (bnd (respond_since E cmd start False msg) (\<lambda>_. cmd_rejected))
      (\<lambda>_. processed sent E h l cmd)" for start msg
    by (rule gives_bnd [OF respond_gives [OF assms]], rule count_processed)
  have "gives (at sent ?h l) (deferred (execute_write E cmd start) release_write) (\<lambda>_. processed sent E h l cmd)" for start
    by (rule gives_deferred [OF execute_write_processed [OF assms(1)]])
      (use assms(2,3) release_processed in auto)
  note run = this
  show ?thesis
    unfolding processWriteCommand_def
    by (rule gives_ask, erule observed_calls(1) [OF assms(1)], rule gives_bnd [OF acquire_at [OF assms(1)]])
      (use rejected run in \<open>auto split: admission.split\<close>)
qed

text \<open>
  A command in processing is answered exactly once: one response is published, under the
  response topic of its device and tag and with its request ID; it says success exactly when the
  command is counted as succeeded, and then the manager wrote a writable tag of a known device; in
  any other case it is counted once, as failed or as rejected. The semaphore is as before.
\<close>

theorem command_answered_once:
  assumes "observed sent E" and "cf_EnableAcknowledgement (ch_config h)" and "\<forall>r. ce_Marshal E r \<noteq> None"
  shows "\<exists>h' w' resp payload. processWriteCommand E cmd (h, w) = (Val (), (h', w')) \<and>
    ce_Marshal E resp = Some payload \<and> wr_RequestID resp = wc_RequestID cmd \<and>
    sent w' = sent w @ [(cf_ResponseTopicPrefix (ch_config h) @ ''/'' @ wc_DeviceID cmd @ ''/'' @ wc_TagID cmd, payload)] \<and>
    (if wr_Success resp
     then written E h cmd \<and> h' = h\<lparr>ch_stats := (ch_stats h)\<lparr>cs_Succeeded := cs_Succeeded (ch_stats h) + 1\<rparr>\<rparr>
     else h' = h\<lparr>ch_stats := (ch_stats h)\<lparr>cs_Failed := cs_Failed (ch_stats h) + 1\<rparr>\<rparr> \<or>
          h' = h\<lparr>ch_stats := (ch_stats h)\<lparr>cs_Rejected := cs_Rejected (ch_stats h) + 1\<rparr>\<rparr>)"
proof -
  have "at sent h (sent w) (h, w)" by (simp add: at_def)
  with processWriteCommand_processed [OF assms] obtain u s' where
    "processWriteCommand E cmd (h, w) = (Val u, s')" "processed sent E h (sent w) cmd s'" by (rule givesE)
  then show ?thesis
    by (cases s') (simp add: processed_def answered_def outcome_def response_topic_def; metis)
qed

section \<open>Who is written\<close>

definition may_write :: "command_handler \<Rightarrow> write_command \<Rightarrow> bool" where
  "may_write h cmd \<longleftrightarrow>
     (case ch_devices h (wc_DeviceID cmd) of
        None \<Rightarrow> False
      | Some d \<Rightarrow> (case ch_tagByID h (wc_DeviceID cmd) of
          None \<Rightarrow> False
        | Some tags \<Rightarrow> (case tags (wc_TagID cmd) of None \<Rightarrow> False | Some t \<Rightarrow> IsWritable t)))"

lemma manager_free:
  "respond_since (E\<lparr>ce_manager := M\<rparr>) = respond_since E" "acquire_write (E\<lparr>ce_manager := M\<rparr>) = acquire_write E"
  by (simp_all add: respond_since_def sendResponse_def acquire_write_def fun_eq_iff cong: if_cong option.case_cong)

lemma not_may_write:
  assumes "\<not> may_write h cmd"
  shows "execute_write (E\<lparr>ce_manager := M\<rparr>) cmd start (h, w) = execute_write E cmd start (h, w)"
  using assms unfolding execute_write_def manager_free bnd_field may_write_def
  by (auto split: option.split_asm if_splits)

lemma may_write_busy: "may_write (h\<lparr>ch_busy := n\<rparr>) cmd = may_write h cmd"
  by (simp add: may_write_def split: option.split)

lemma acquire_value:
  "\<exists>a w'. acquire_write E (h, w) = (Val a, (if a = Admitted then h\<lparr>ch_busy := ch_busy h + 1\<rparr> else h, w'))"
  by (cases "ce_prefer E w") (auto simp: acquire_write_def run_simps intro!: exI [of _ ShuttingDown] exI [of _ RateLimited])

text \<open>
  C17. A command for an unknown device, for an unknown tag or for a tag that is not writable never
  reaches a device: its processing is the same whatever the protocol manager is, so no pool is
  called.
\<close>

theorem refused_command_reaches_no_device:
  assumes "case ch_devices h (wc_DeviceID cmd) of
      None \<Rightarrow> True
    | Some d \<Rightarrow> (case ch_tagByID h (wc_DeviceID cmd) of
        None \<Rightarrow> True
      | Some tags \<Rightarrow> (case tags (wc_TagID cmd) of None \<Rightarrow> True | Some t \<Rightarrow> \<not> IsWritable t))"
  shows "processWriteCommand E cmd (h, w) = processWriteCommand (E\<lparr>ce_manager := M\<rparr>) cmd (h, w)"
proof -
  from assms have "\<not> may_write h cmd" by (simp add: may_write_def split: option.splits)
  then have execute: "execute_write (E\<lparr>ce_manager := M\<rparr>) cmd start (h\<lparr>ch_busy := n\<rparr>, w) =
      execute_write E cmd start (h\<lparr>ch_busy := n\<rparr>, w)" for start n w
    by (simp add: not_may_write may_write_busy)
  obtain start w1 where now: "ce_Now E w = (start, w1)" by fastforce
  from acquire_value [of E h w1] obtain a w2 where
    "acquire_write E (h, w1) = (Val a, (if a = Admitted then h\<lparr>ch_busy := ch_busy h + 1\<rparr> else h, w2))" by blast
  with now execute show ?thesis
    by (cases a) (simp_all add: processWriteCommand_def manager_free bnd_call bnd_Val deferred_def)
qed

section \<open>Samples\<close>

text \<open>
  The world is the list of the messages published; each write is refused as unsupported, as it is
  for a manager with no pool, or taken by a pool that only answers.
\<close>

definition answering_pool :: "'w protocol_pool" where
  "answering_pool =
     \<lparr>pp_ReadTags = \<lambda>d ts. ret ([], None), pp_ReadTag = \<lambda>d t. ret (None, None), pp_WriteTag = \<lambda>d t v. ret None,
      pp_Close = ret None, pp_HealthCheck = ret None\<rparr>"

definition sample_command_env :: "(string \<times> string) list command_env" where
  "sample_command_env =
     \<lparr>ce_manager = RegisterPool ProtocolModbusTCP answering_pool NewProtocolManager,
      ce_Publish = \<lambda>t q r p w. (None, w @ [(t, p)]), ce_Subscribe = \<lambda>t q w. (None, w),
      ce_Unsubscribe = \<lambda>t w. ((), w), ce_ParseCommand = \<lambda>p. None, ce_ParseValue = \<lambda>p. None,
      ce_Marshal = \<lambda>r. Some (if wr_Success r then ''ok'' else wr_Error r), ce_Now = \<lambda>w. (0, w),
      ce_prefer = \<lambda>w. (True, w), ce_drainOver = \<lambda>w. (False, w)\<rparr>"

definition sample_command :: write_command where
  "sample_command =
     \<lparr>wc_RequestID = ''r1'', wc_DeviceID = ''plc1'', wc_TagID = ''t1'', wc_Value = VInt 5, wc_Timestamp = 0,
      wc_Priority = 0\<rparr>"

lemma sample_commands:
  "writes_return sample_command_env" "observed (\<lambda>w. w) sample_command_env"
  "\<forall>r. ce_Marshal sample_command_env r \<noteq> None"
  "cf_EnableAcknowledgement (ch_config (NewCommandHandler [sample_device] DefaultCommandConfig))"
  by (auto simp: writes_return_def observed_def sample_command_env_def pm_WriteTag_def answering_pool_def ret_def
      NewCommandHandler_def DefaultCommandConfig_def AddDevice_def split: option.splits if_splits)

theorem commands_accounted_for_witness:
  "\<exists>h w'. command_run sample_command_env [StartHandler, TagMessage ''$nexus/cmd/plc1/t1/set'' ''5'', QueueTurn]
      (NewCommandHandler [sample_device] DefaultCommandConfig, []) = (Val (), (h, w')) \<and>
    cs_Received (ch_stats h) = cs_Rejected (ch_stats h) + cs_Succeeded (ch_stats h) + cs_Failed (ch_stats h) +
      of_nat (length (ch_queue h)) \<and>
    int (length (ch_queue h)) \<le> cf_CommandQueueSize (ch_config h) \<and> ch_busy h = 0"
  by (rule commands_accounted_for [OF sample_commands(1)])

theorem command_answered_once_witness:
  "\<exists>h' w' resp payload. processWriteCommand sample_command_env sample_command
      (NewCommandHandler [sample_device] DefaultCommandConfig, []) = (Val (), (h', w')) \<and>
    ce_Marshal sample_command_env resp = Some payload \<and> wr_RequestID resp = ''r1'' \<and> length w' = 1"
proof -
  let ?h = "NewCommandHandler [sample_device] DefaultCommandConfig"
  obtain h' w' resp payload where
    "processWriteCommand sample_command_env sample_command (?h, []) = (Val (), (h', w'))"
    "ce_Marshal sample_command_env resp = Some payload" "wr_RequestID resp = wc_RequestID sample_command"
    "w' = [] @ [(cf_ResponseTopicPrefix (ch_config ?h) @ ''/'' @ wc_DeviceID sample_command @ ''/'' @ wc_TagID sample_command, payload)]"
    using command_answered_once [OF sample_commands(2,4,3), of sample_command "[]"] by blast
  then show ?thesis by (intro exI [of _ h'] exI [of _ w'] exI [of _ resp] exI [of _ payload]) (simp add: sample_command_def)
qed

theorem refused_command_reaches_no_device_witness:
  "processWriteCommand sample_command_env (sample_command\<lparr>wc_TagID := ''none''\<rparr>)
     (NewCommandHandler [sample_device] DefaultCommandConfig, []) =
   processWriteCommand (sample_command_env\<lparr>ce_manager := NewProtocolManager\<rparr>) (sample_command\<lparr>wc_TagID := ''none''\<rparr>)
     (NewCommandHandler [sample_device] DefaultCommandConfig, [])"
  by (rule refused_command_reaches_no_device)
    (simp add: NewCommandHandler_def AddDevice_def sample_command_def sample_device_def buildTagIndex_def
      sample_ready_def sample_tag_def)

end
