(* ===== verification/GatewayPoll.thy ===== *)
theory GatewayPoll
  imports PublisherProps
begin

text \<open>
  A poll of a Modbus device from end to end: the reader contract of the manager and the contract of
  the publisher together give that the poll returns, and both are discharged by the models of the
  Modbus pool and of the MQTT publisher. The world of the polling service is the pool with its
  world beside the publisher with its world.
\<close>

section \<open>The publisher's contract\<close>

locale batch_publisher =
  fixes publish :: "data_point list \<Rightarrow> ('s, gerror option) prog"
    and status :: "string \<Rightarrow> string \<Rightarrow> string \<Rightarrow> (string \<times> u64) list \<Rightarrow> ('s, gerror option) prog"
    and good :: "'s \<Rightarrow> bool"
  assumes publishes: "yields good (publish dps) (\<lambda>_. True)"
    and reports: "yields good (status i st e counts) (\<lambda>_. True)"

interpretation mqtt: batch_publisher "PublishBatch U" "PublishDeviceStatus U"
  "\<lambda>s. walks_topics U \<and> on_client publisher_ok s" for U
proof
  have lift: "yields (\<lambda>s. walks_topics U \<and> on_client publisher_ok s) m (\<lambda>_. True)"
    if "walks_topics U \<Longrightarrow> yields (on_client publisher_ok) m (\<lambda>_. True)" for m :: "(publisher \<times> 'a, gerror option) prog"
    using that unfolding yields_def by blast
  show "yields (\<lambda>s. walks_topics U \<and> on_client publisher_ok s) (PublishBatch U dps) (\<lambda>_. True)" for dps
    unfolding PublishBatch_def by (rule lift) (rule publish_each_yields)
  show "yields (\<lambda>s. walks_topics U \<and> on_client publisher_ok s) (PublishDeviceStatus U i st e counts) (\<lambda>_. True)" for i st e counts
    unfolding PublishDeviceStatus_def
    by (rule lift, rule yields_bnd [OF on_client_yields(2)], rule yields_sum, rule yields_ret, simp, rule publishRaw_yields)
qed

section \<open>A poll over both contracts\<close>

text \<open>The polling environment's own calls leave the state of both sides good.\<close>

definition calls_keep :: "('w \<Rightarrow> bool) \<Rightarrow> 'w polling_env \<Rightarrow> bool" where
  "calls_keep good E \<longleftrightarrow> (\<forall>w. good w \<longrightarrow>
     good (snd (po_Now E w)) \<and> good (snd (po_ctxDone E w)) \<and> good (snd (po_prefer E w)))"

definition polling_state :: "('w \<Rightarrow> bool) \<Rightarrow> device \<Rightarrow> (polling_service \<times> device_poller) \<times> 'w \<Rightarrow> bool" where
  "polling_state good d s \<longleftrightarrow> good (snd s) \<and> dpo_device (snd (fst s)) = d"

lemma polling_state_steps:
  "yields (polling_state good d) (field f) (\<lambda>_. True)"
  "yields (polling_state good d) (poller dpo_device) (\<lambda>e. e = d)"
  "yields (polling_state good d) (poller g) (\<lambda>_. True)"
  "yields (polling_state good d) (on_stats h) (\<lambda>_. True)"
  "yields (polling_state good d) (on_counts k) (\<lambda>_. True)"
  "yields (polling_state good d) (on_busy n) (\<lambda>_. True)"
  by (auto simp: yields_def polling_state_def poller_def tally_updates on_counts_def on_busy_def field_def upd_def)

lemma polling_state_poller:
  "(\<And>dp. dpo_device (f dp) = dpo_device dp) \<Longrightarrow> yields (polling_state good d) (on_poller f) (\<lambda>_. True)"
  by (auto simp: yields_def polling_state_def on_poller_def upd_def)

lemma polling_state_call:
  "(\<And>w. good w \<Longrightarrow> good (snd (g w))) \<Longrightarrow> yields (polling_state good d) (call g) (\<lambda>_. True)"
  by (auto simp: yields_def polling_state_def call_def split: prod.split) (metis snd_conv)

lemma polling_state_world:
  assumes "yields good m Q"
  shows "yields (polling_state good d) (world m) Q"
proof (rule yieldsI)
  fix s assume s: "polling_state good d s"
  then have "good (snd s)" by (simp add: polling_state_def)
  with assms obtain a w where "m (snd s) = (Val a, w)" "good w" "Q a" by (rule yieldsE)
  with s show "\<exists>a s'. world m s = (Val a, s') \<and> polling_state good d s' \<and> Q a"
    by (simp add: world_def polling_state_def)
qed

definition built_from ::
  "(device \<Rightarrow> tag list \<Rightarrow> ('w, data_point list \<times> gerror option) prog) \<Rightarrow>
   (data_point list \<Rightarrow> ('w, gerror option) prog) \<Rightarrow>
   (string \<Rightarrow> string \<Rightarrow> string \<Rightarrow> (string \<times> u64) list \<Rightarrow> ('w, gerror option) prog) \<Rightarrow>
   ('w \<Rightarrow> bool) \<Rightarrow> 'w polling_env \<Rightarrow> bool" where
  "built_from read publish status good E \<longleftrightarrow> pm_ReadTags (po_manager E) = read \<and> po_PublishBatch E = publish \<and>
     po_status E = Some status \<and> calls_keep good E"

locale poll_parts = tag_reader read good ready + batch_publisher publish status good
  for read :: "device \<Rightarrow> tag list \<Rightarrow> ('w, data_point list \<times> gerror option) prog"
    and publish :: "data_point list \<Rightarrow> ('w, gerror option) prog"
    and status :: "string \<Rightarrow> string \<Rightarrow> string \<Rightarrow> (string \<times> u64) list \<Rightarrow> ('w, gerror option) prog"
    and good :: "'w \<Rightarrow> bool"
    and ready :: "tag \<Rightarrow> bool"
begin

lemma now_yields: "built_from read publish status good E \<Longrightarrow> yields (polling_state good d) (call (po_Now E)) (\<lambda>_. True)"
  by (rule polling_state_call) (simp add: built_from_def calls_keep_def)

lemma status_yields:
  assumes "built_from read publish status good E"
  shows "yields (polling_state good d) (publishDeviceStatus E st e) (\<lambda>_. True)"
proof -
  have E: "po_status E = Some status" using assms by (simp add: built_from_def)
  have recent: "yields (polling_state good d) (if b then bnd (call (po_Now E)) (\<lambda>now. ret (g now)) else ret False) (\<lambda>_. True)"
    for b g
    by (rule yields_if, rule yields_bnd [OF now_yields [OF assms]], rule yields_ret, simp, rule yields_ret, simp)
  show ?thesis
    unfolding publishDeviceStatus_def E option.case
    by (rule yields_bnd [OF polling_state_steps(3)], clarify, rule yields_bnd [OF recent], rule yields_if,
        rule yields_ret, simp, rule yields_bnd [OF polling_state_steps(3)], clarify,
        rule yields_bnd [OF polling_state_world [OF reports]], rule yields_option,
        rule yields_bnd [OF now_yields [OF assms]], rule polling_state_poller, simp, rule yields_ret, simp)
qed

lemma staleness_yields:
  "built_from read publish status good E \<Longrightarrow> yields (polling_state good d) (staleness_all E i ps) (\<lambda>_. True)"
proof (induction ps)
  case (Cons p ps)
  have now: "yields (polling_state good d) (if 0 < i then call (po_Now E) else ret 0) (\<lambda>_. True)"
    by (rule yields_if, rule now_yields [OF Cons.prems], rule yields_ret, simp)
  show ?case
    unfolding staleness_all.simps
    by (rule yields_bnd [OF now], rule yields_bnd [OF Cons.IH [OF Cons.prems]], rule yields_ret, simp)
qed (simp add: yields_ret)

lemma publish_points_yields:
  assumes "built_from read publish status good E"
  shows "yields (polling_state good d) (publish_points E ps) (\<lambda>_. True)"
proof -
  have "po_PublishBatch E = publish" using assms by (simp add: built_from_def)
  then show ?thesis
    unfolding publish_points_def
    by (simp only:, intro yields_if yields_ret yields_bnd [OF polling_state_world [OF publishes]] yields_option
        polling_state_steps(4)) simp_all
qed

lemma poll_succeeded_yields:
  assumes "built_from read publish status good E"
  shows "yields (polling_state good d) (poll_succeeded E tags points) (\<lambda>_. True)"
  unfolding poll_succeeded_def
  by (rule yields_bnd [OF polling_state_steps(4)], rule yields_bnd [OF now_yields [OF assms]],
      rule yields_bnd [OF polling_state_poller], simp, rule yields_bnd [OF polling_state_steps(3)],
      rule yields_bnd [OF polling_state_steps(4)], rule yields_bnd [OF polling_state_steps(5)],
      rule yields_bnd [OF staleness_yields [OF assms]], rule yields_bnd [OF publish_points_yields [OF assms]],
      rule status_yields [OF assms])

lemma poll_failed_yields:
  assumes "built_from read publish status good E"
  shows "yields (polling_state good d) (poll_failed E err) (\<lambda>_. True)"
  unfolding poll_failed_def
  by (rule yields_if; rule yields_bnd [OF polling_state_steps(4)], rule yields_bnd [OF polling_state_steps(5)])
    (rule polling_state_poller, simp, rule yields_bnd [OF polling_state_poller], simp, rule status_yields [OF assms])

lemma poll_cycle_yields:
  assumes "built_from read publish status good E" and "\<forall>t\<in>set (getEnabledTags d). ready t"
  shows "yields (polling_state good d) (poll_cycle E) (\<lambda>_. True)"
proof -
  have read: "pm_ReadTags (po_manager E) = read" using assms(1) by (simp add: built_from_def)
  have reads: "yields (polling_state good d) (world (read d (getEnabledTags d))) (\<lambda>_. True)"
    by (rule polling_state_world) (rule yields_weaken [OF answers [OF assms(2)]], simp)
  show ?thesis
    unfolding poll_cycle_def read Let_def
    by (rule yields_bnd [OF polling_state_steps(4)], rule yields_bnd [OF polling_state_steps(5)],
        rule yields_bnd [OF polling_state_steps(2)], hypsubst, rule yields_if, rule yields_ret, simp,
        rule yields_bnd [OF reads], clarify, rule yields_option, rule poll_succeeded_yields [OF assms(1)],
        rule poll_failed_yields [OF assms(1)])
qed

lemma pollDevice_yields:
  assumes "built_from read publish status good E" and "\<forall>t\<in>set (getEnabledTags d). ready t"
  shows "yields (polling_state good d) (pollDevice E) (\<lambda>_. True)"
proof -
  have calls: "yields (polling_state good d) (call (po_ctxDone E)) (\<lambda>_. True)"
    "yields (polling_state good d) (call (po_prefer E)) (\<lambda>_. True)"
    using assms(1) by (auto intro!: polling_state_call simp: built_from_def calls_keep_def)
  have cycle: "yields (polling_state good d) (deferred (poll_cycle E) (on_busy (\<lambda>n. n - 1))) (\<lambda>_. True)"
    by (rule deferred_yields [OF poll_cycle_yields [OF assms] polling_state_steps(6)])
  show ?thesis
    unfolding pollDevice_def Let_def
    by (rule yields_bnd [OF polling_state_steps(1)], rule yields_bnd [OF calls(1)], rule yields_bnd [OF calls(2)],
        rule yields_bnd [OF polling_state_steps(1)], rule yields_if, rule yields_bnd [OF polling_state_steps(6)],
        rule cycle, rule yields_if, rule yields_ret, simp, rule yields_bnd [OF polling_state_steps(4)],
        rule polling_state_steps(5))
qed

end

section \<open>The gateway's parts\<close>

text \<open>
  The pools act on the left half of the world, the publisher on the right half.
\<close>

definition on_left :: "('s, 'a) prog \<Rightarrow> ('s \<times> 't, 'a) prog" where
  "on_left m s = (case m (fst s) of (r, s') \<Rightarrow> (r, (s', snd s)))"

definition pool_on_left :: "'s protocol_pool \<Rightarrow> ('s \<times> 't) protocol_pool" where
  "pool_on_left pool =
     \<lparr>pp_ReadTags = \<lambda>d tags. on_left (pp_ReadTags pool d tags), pp_ReadTag = \<lambda>d t. on_left (pp_ReadTag pool d t),
      pp_WriteTag = \<lambda>d t v. on_left (pp_WriteTag pool d t v), pp_Close = on_left (pp_Close pool),
      pp_HealthCheck = on_left (pp_HealthCheck pool)\<rparr>"

definition manager_on_left :: "'s protocol_manager \<Rightarrow> ('s \<times> 't) protocol_manager" where
  "manager_on_left pm = \<lparr>pm_pools = map (\<lambda>(p, pool). (p, pool_on_left pool)) (pm_pools pm)\<rparr>"

definition both_good :: "('w, 'b) pool_env \<Rightarrow> 'v publisher_env \<Rightarrow> ('b connection_pool \<times> 'w) \<times> publisher \<times> 'v \<Rightarrow> bool" where
  "both_good P U s \<longleftrightarrow> modbus_good P (fst s) \<and> walks_topics U \<and> on_client publisher_ok (snd s)"

lemma on_left_yields:
  assumes "yields I m Q"
  shows "yields (\<lambda>s. I (fst s) \<and> J (snd s)) (on_left m) Q"
proof (rule yieldsI)
  fix s assume s: "I (fst s) \<and> J (snd s)"
  with assms obtain a s' where "m (fst s) = (Val a, s')" "I s'" "Q a" by (blast elim: yieldsE)
  with s show "\<exists>a s'. on_left m s = (Val a, s') \<and> (I (fst s') \<and> J (snd s')) \<and> Q a" by (simp add: on_left_def)
qed

lemma on_right_yields:
  assumes "yields I m Q"
  shows "yields (\<lambda>s. J (fst s) \<and> I (snd s)) (world m) Q"
proof (rule yieldsI)
  fix s assume s: "J (fst s) \<and> I (snd s)"
  with assms obtain a s' where "m (snd s) = (Val a, s')" "I s'" "Q a" by (blast elim: yieldsE)
  with s show "\<exists>a s'. world m s = (Val a, s') \<and> (J (fst s') \<and> I (snd s')) \<and> Q a" by (simp add: world_def)
qed

lemma pool_on_left_ReadTags [simp]: "pp_ReadTags (pool_on_left pool) d tags = on_left (pp_ReadTags pool d tags)"
  by (simp add: pool_on_left_def)

lemma GetPool_on_left: "GetPool (manager_on_left pm) q = map_option pool_on_left (GetPool pm q)"
proof -
  have "map_of (map (\<lambda>(p, pool). (p, pool_on_left pool)) ps) q = map_option pool_on_left (map_of ps q)" for ps
    by (induction ps) auto
  then show ?thesis by (simp add: GetPool_def manager_on_left_def)
qed

lemma manager_on_left_ReadTags:
  "pm_ReadTags (manager_on_left pm) d tags = on_left (pm_ReadTags pm d tags)"
  by (cases "GetPool pm (dev_Protocol d)")
    (simp_all add: pm_ReadTags_def GetPool_on_left, simp add: on_left_def ret_def fun_eq_iff)

interpretation parts: poll_parts "pm_ReadTags (manager_on_left (modbus_manager P))"
  "\<lambda>dps. world (PublishBatch U dps)" "\<lambda>i st e counts. world (PublishDeviceStatus U i st e counts)"
  "both_good P U" modbus_ready for P U
proof
  fix tags d assume ready: "\<forall>t\<in>set tags. modbus_ready t"
  show "yields (both_good P U) (pm_ReadTags (manager_on_left (modbus_manager P)) d tags) (answer_ok tags)"
    unfolding manager_on_left_ReadTags both_good_def
    by (rule on_left_yields) (rule manager.answers [OF ready])
next
  show "yields (both_good P U) (world (PublishBatch U dps)) (\<lambda>_. True)" for dps
    unfolding both_good_def by (rule on_right_yields) (rule mqtt.publishes)
next
  show "yields (both_good P U) (world (PublishDeviceStatus U i st e counts)) (\<lambda>_. True)" for i st e counts
    unfolding both_good_def by (rule on_right_yields) (rule mqtt.reports)
qed


definition sample_gateway_env :: "((nat connection_pool \<times> int) \<times> publisher \<times> int) polling_env" where
  "sample_gateway_env =
     \<lparr>po_manager = manager_on_left (modbus_manager sample_pool_env),
      po_PublishBatch = \<lambda>dps. world (PublishBatch sample_pub_env dps),
      po_Publish = \<lambda>dp. world (Publish sample_pub_env dp),
      po_status = Some (\<lambda>i st e counts. world (PublishDeviceStatus sample_pub_env i st e counts)),
      po_Subscribe = None, po_Unsubscribe = \<lambda>i. ret None,
      po_Now = \<lambda>w. (snd (snd w), w), po_ctxDone = \<lambda>w. (False, w), po_prefer = \<lambda>w. (True, w),
      po_exits = \<lambda>i w. (True, w), po_waitAll = \<lambda>w. ((), w)\<rparr>"


end
