(* ===== verification/IngestPayload.thy ===== *)
theory IngestPayload
  imports DataPoint
begin

text \<open>
  The points of the data ingestion service (\<open>data-ingestion/internal/domain/datapoint.go\<close>): parsing a
  message into a point, the pools of points and batches, and how a point of the gateway arrives.
  The decoder \<open>json.Unmarshal\<close> is a parameter. A pool holds what was put back, in any order; that
  the runtime may drop pooled objects is the case of a shorter list.
\<close>

section \<open>Points\<close>

definition MaxTopicLength :: nat where "MaxTopicLength = 1024"
definition MaxPayloadSize :: nat where "MaxPayloadSize = 65536"
definition MaxValueStrLen :: nat where "MaxValueStrLen = 4096"
definition MaxTimestampSkew :: int where "MaxTimestampSkew = 3600000000000"
definition MaxAge :: int where "MaxAge = 30 * 24 * 3600000000000"

record ingest_point =
  it_Topic :: string
  it_DeviceID :: string
  it_TagID :: string
  it_Value :: "f64 option"
  it_ValueStr :: "string option"
  it_Quality :: u16
  it_Unit :: string
  it_Timestamp :: int
  it_SourceTimestamp :: "int option"
  it_ServerTimestamp :: "int option"
  it_ReceivedAt :: int

definition new_point :: ingest_point where
  "new_point =
     \<lparr>it_Topic = '''', it_DeviceID = '''', it_TagID = '''', it_Value = None, it_ValueStr = None, it_Quality = 0,
      it_Unit = '''', it_Timestamp = zero_time, it_SourceTimestamp = None, it_ServerTimestamp = None,
      it_ReceivedAt = zero_time\<rparr>"

text \<open>What \<open>json.Unmarshal\<close> puts into an \<open>interface{}\<close>; \<open>JOther\<close> is null, an array or an object.\<close>

datatype json_value = JNumber f64 | JString string | JBool bool | JOther

record ingest_payload =
  ip_Value :: json_value
  ip_Quality :: string
  ip_Unit :: string
  ip_Timestamp :: int
  ip_SourceTimestamp :: int
  ip_DeviceID :: string
  ip_TagID :: string

section \<open>Pools\<close>

definition AcquirePoint :: "ingest_point list \<Rightarrow> ingest_point \<times> ingest_point list" where
  "AcquirePoint pool = (case pool of [] \<Rightarrow> (new_point, []) | dp # rest \<Rightarrow> (dp, rest))"

definition ReleasePoint :: "ingest_point \<Rightarrow> ingest_point list \<Rightarrow> ingest_point list" where
  "ReleasePoint dp pool =
     dp\<lparr>it_Topic := '''', it_DeviceID := '''', it_TagID := '''', it_Value := None, it_ValueStr := None,
        it_Quality := 0, it_Unit := '''', it_Timestamp := zero_time, it_SourceTimestamp := None,
        it_ServerTimestamp := None, it_ReceivedAt := zero_time\<rparr> # pool"

record point_batch =
  bt_Points :: "ingest_point list"
  bt_CreatedAt :: int

definition NewBatch :: "int \<Rightarrow> point_batch" where
  "NewBatch now = \<lparr>bt_Points = [], bt_CreatedAt = now\<rparr>"

text \<open>A pooled batch is emptied when it is taken; its capacity does not show.\<close>

definition AcquireBatchWithCap :: "int \<Rightarrow> point_batch list \<Rightarrow> point_batch \<times> point_batch list" where
  "AcquireBatchWithCap now pool =
     (case pool of [] \<Rightarrow> (NewBatch now, []) | b # rest \<Rightarrow> (b\<lparr>bt_Points := [], bt_CreatedAt := now\<rparr>, rest))"

definition AcquireBatch :: "int \<Rightarrow> point_batch list \<Rightarrow> point_batch \<times> point_batch list" where
  "AcquireBatch now pool = AcquireBatchWithCap now pool"

definition ReleaseBatch ::
  "point_batch \<Rightarrow> ingest_point list \<times> point_batch list \<Rightarrow> ingest_point list \<times> point_batch list" where
  "ReleaseBatch b pools =
     (fold ReleasePoint (bt_Points b) (fst pools), b\<lparr>bt_Points := []\<rparr> # snd pools)"

definition batch_Add :: "ingest_point \<Rightarrow> point_batch \<Rightarrow> point_batch" where
  "batch_Add dp b = b\<lparr>bt_Points := bt_Points b @ [dp]\<rparr>"

definition batch_Size :: "point_batch \<Rightarrow> nat" where
  "batch_Size b = length (bt_Points b)"

definition batch_Age :: "int \<Rightarrow> point_batch \<Rightarrow> int" where
  "batch_Age now b = time_Sub now (bt_CreatedAt b)"

section \<open>Parsing\<close>

definition qualityStringToCode :: "string \<Rightarrow> u16" where
  "qualityStringToCode q =
     (if q = ''good'' then 192
      else if q = ''bad'' then 0
      else if q = ''uncertain'' then 64
      else if q \<in> {''not_connected'', ''config_error'', ''device_failure'', ''timeout''} then 0
      else 192)"

datatype parse_error = PayloadTooLarge nat | TopicTooLong nat | BadJSON string | NoValue
  | ValueStrTooLong nat | TimestampInFuture int | TimestampTooOld int

definition set_value :: "json_value \<Rightarrow> ingest_point \<Rightarrow> ingest_point" where
  "set_value v dp =
     (case v of
        JNumber x \<Rightarrow> dp\<lparr>it_Value := Some x\<rparr>
      | JString s \<Rightarrow> dp\<lparr>it_ValueStr := Some s\<rparr>
      | JBool b \<Rightarrow> dp\<lparr>it_Value := Some (if b then f64_one else f64_zero)\<rparr>
      | JOther \<Rightarrow> dp)"

definition UnixMilli :: "int \<Rightarrow> int" where
  "UnixMilli ms = ms * 1000000"

definition ParsePayload ::
  "(string \<Rightarrow> string + ingest_payload) \<Rightarrow> string \<Rightarrow> string \<Rightarrow> int \<Rightarrow> ingest_point list \<Rightarrow>
   (parse_error + ingest_point) \<times> ingest_point list" where
  "ParsePayload unmarshal topic payload receivedAt pool =
     (if MaxPayloadSize < length payload then (Inl (PayloadTooLarge (length payload)), pool)
      else if MaxTopicLength < length topic then (Inl (TopicTooLong (length topic)), pool)
      else case unmarshal payload of
        Inl e \<Rightarrow> (Inl (BadJSON e), pool)
      | Inr p \<Rightarrow>
          (case AcquirePoint pool of (dp, pool) \<Rightarrow>
             let dp = dp\<lparr>it_Topic := topic, it_DeviceID := ip_DeviceID p, it_TagID := ip_TagID p,
                         it_Unit := ip_Unit p, it_ReceivedAt := receivedAt\<rparr>;
                 dp = set_value (ip_Value p) dp in
             if it_Value dp = None \<and> it_ValueStr dp = None then (Inl NoValue, ReleasePoint dp pool)
             else if (case it_ValueStr dp of None \<Rightarrow> False | Some s \<Rightarrow> MaxValueStrLen < length s)
             then (Inl (ValueStrTooLong (length (the (it_ValueStr dp)))), ReleasePoint dp pool)
             else
               let dp = dp\<lparr>it_Quality := qualityStringToCode (ip_Quality p)\<rparr>;
                   dp = (if 0 < ip_Timestamp p then dp\<lparr>it_Timestamp := UnixMilli (ip_Timestamp p)\<rparr>
                         else dp\<lparr>it_Timestamp := receivedAt\<rparr>) in
               if 0 < ip_Timestamp p \<and> receivedAt + MaxTimestampSkew < it_Timestamp dp
               then (Inl (TimestampInFuture (it_Timestamp dp)), ReleasePoint dp pool)
               else if 0 < ip_Timestamp p \<and> it_Timestamp dp < receivedAt - MaxAge
               then (Inl (TimestampTooOld (it_Timestamp dp)), ReleasePoint dp pool)
               else
                 (Inr (if 0 < ip_SourceTimestamp p
                       then dp\<lparr>it_SourceTimestamp := Some (UnixMilli (ip_SourceTimestamp p))\<rparr> else dp), pool)))"

section \<open>Pools are clean\<close>

text \<open>Every pooled point is like a new one, so which one is taken does not show in the result.\<close>

definition clean :: "ingest_point list \<Rightarrow> bool" where
  "clean pool \<longleftrightarrow> list_all (\<lambda>dp. dp = new_point) pool"

lemma AcquirePoint_clean: "clean pool \<Longrightarrow> \<exists>rest. AcquirePoint pool = (new_point, rest) \<and> clean rest"
  by (cases pool) (simp_all add: clean_def AcquirePoint_def)

lemma ReleasePoint_clean [simp]: "clean (ReleasePoint dp pool) = clean pool"
  by (simp add: clean_def ReleasePoint_def new_point_def)

lemma ReleaseBatch_clean: "clean (fst (ReleaseBatch b pools)) = clean (fst pools)"
proof -
  have "clean (fold ReleasePoint ps pool) = clean pool" for ps pool
    by (induction ps arbitrary: pool) simp_all
  then show ?thesis by (simp add: ReleaseBatch_def)
qed

text \<open>The parts of parsing that depend on the payload only.\<close>

definition parsed_value :: "json_value \<Rightarrow> parse_error + (f64 option \<times> string option)" where
  "parsed_value v =
     (case v of
        JNumber x \<Rightarrow> Inr (Some x, None)
      | JBool b \<Rightarrow> Inr (Some (if b then f64_one else f64_zero), None)
      | JString s \<Rightarrow> if MaxValueStrLen < length s then Inl (ValueStrTooLong (length s)) else Inr (None, Some s)
      | JOther \<Rightarrow> Inl NoValue)"

definition parsed_time :: "int \<Rightarrow> int \<Rightarrow> parse_error + int" where
  "parsed_time receivedAt ts =
     (if 0 < ts
      then (let t = UnixMilli ts in
            if receivedAt + MaxTimestampSkew < t then Inl (TimestampInFuture t)
            else if t < receivedAt - MaxAge then Inl (TimestampTooOld t)
            else Inr t)
      else Inr receivedAt)"

text \<open>The reference: the same, without a pool.\<close>

definition parsed :: "string \<Rightarrow> int \<Rightarrow> ingest_payload \<Rightarrow> parse_error + ingest_point" where
  "parsed topic receivedAt p =
     (case parsed_value (ip_Value p) of
        Inl e \<Rightarrow> Inl e
      | Inr (v, s) \<Rightarrow>
          (case parsed_time receivedAt (ip_Timestamp p) of
             Inl e \<Rightarrow> Inl e
           | Inr t \<Rightarrow>
               Inr \<lparr>it_Topic = topic, it_DeviceID = ip_DeviceID p, it_TagID = ip_TagID p, it_Value = v,
                    it_ValueStr = s, it_Quality = qualityStringToCode (ip_Quality p), it_Unit = ip_Unit p,
                    it_Timestamp = t,
                    it_SourceTimestamp = (if 0 < ip_SourceTimestamp p then Some (UnixMilli (ip_SourceTimestamp p)) else None),
                    it_ServerTimestamp = None, it_ReceivedAt = receivedAt\<rparr>))"

lemma set_value_cases:
  assumes "it_Value dp = None" and "it_ValueStr dp = None"
  shows "it_Value (set_value v dp) = (case v of JNumber x \<Rightarrow> Some x | JBool b \<Rightarrow> Some (if b then f64_one else f64_zero) | _ \<Rightarrow> None)"
    and "it_ValueStr (set_value v dp) = (case v of JString s \<Rightarrow> Some s | _ \<Rightarrow> None)"
  using assms by (simp_all add: set_value_def split: json_value.split)

lemma ParsePayload_parsed:
  assumes "clean pool" and "length payload \<le> MaxPayloadSize" and "length topic \<le> MaxTopicLength"
    and "unmarshal payload = Inr p"
  obtains pool' where "ParsePayload unmarshal topic payload receivedAt pool = (parsed topic receivedAt p, pool')" "clean pool'"
proof -
  from AcquirePoint_clean [OF assms(1)] obtain rest where rest: "AcquirePoint pool = (new_point, rest)" "clean rest"
    by blast
  let ?r = "ParsePayload unmarshal topic payload receivedAt pool"
  have "fst ?r = parsed topic receivedAt p \<and> clean (snd ?r)"
    using assms rest
    by (cases "ip_Value p")
      (simp_all add: ParsePayload_def parsed_def parsed_value_def parsed_time_def set_value_def new_point_def Let_def)
  then show thesis by (metis that prod.collapse)
qed

lemma parsed_value_one: "parsed_value v = Inr (x, s) \<Longrightarrow> (x = None) \<noteq> (s = None) \<and> (\<forall>t. s = Some t \<longrightarrow> length t \<le> MaxValueStrLen)"
  by (auto simp: parsed_value_def split: json_value.splits if_splits)

lemma parsed_time_range:
  "parsed_time receivedAt ts = Inr t \<Longrightarrow> receivedAt - MaxAge \<le> t \<and> t \<le> receivedAt + MaxTimestampSkew"
  by (auto simp: parsed_time_def Let_def MaxAge_def MaxTimestampSkew_def split: if_splits)

lemma quality_codes: "qualityStringToCode q = 0 \<or> qualityStringToCode q = 64 \<or> qualityStringToCode q = 192"
  by (simp add: qualityStringToCode_def)

definition well_formed :: "string \<Rightarrow> int \<Rightarrow> ingest_point \<Rightarrow> bool" where
  "well_formed topic receivedAt dp \<longleftrightarrow>
     it_Topic dp = topic \<and> length topic \<le> MaxTopicLength \<and> (it_Value dp = None) \<noteq> (it_ValueStr dp = None) \<and>
     (case it_ValueStr dp of None \<Rightarrow> True | Some s \<Rightarrow> length s \<le> MaxValueStrLen) \<and>
     (it_Quality dp = 0 \<or> it_Quality dp = 64 \<or> it_Quality dp = 192) \<and>
     receivedAt - MaxAge \<le> it_Timestamp dp \<and> it_Timestamp dp \<le> receivedAt + MaxTimestampSkew \<and>
     it_ServerTimestamp dp = None \<and> it_ReceivedAt dp = receivedAt"

lemma parsed_well_formed:
  assumes "parsed topic receivedAt p = Inr dp" and "length topic \<le> MaxTopicLength"
  shows "well_formed topic receivedAt dp"
  using assms parsed_value_one [of "ip_Value p"] parsed_time_range [of receivedAt "ip_Timestamp p"]
    quality_codes [of "ip_Quality p"]
  by (auto simp: parsed_def well_formed_def split: sum.splits option.split)

lemma ParsePayload_clean:
  assumes "clean pool"
  shows "clean (snd (ParsePayload unmarshal topic payload receivedAt pool))"
proof -
  consider (big) "MaxPayloadSize < length payload" | (long) "\<not> MaxPayloadSize < length payload" "MaxTopicLength < length topic"
    | (bad) e where "\<not> MaxPayloadSize < length payload" "\<not> MaxTopicLength < length topic" "unmarshal payload = Inl e"
    | (ok) p where "length payload \<le> MaxPayloadSize" "length topic \<le> MaxTopicLength" "unmarshal payload = Inr p"
    by (cases "unmarshal payload") (meson not_le)+
  then show ?thesis
  proof cases
    case ok
    then show ?thesis
      by (rule ParsePayload_parsed [where unmarshal = unmarshal and receivedAt = receivedAt, OF assms]) simp
  qed (simp_all add: ParsePayload_def assms)
qed

lemma parsed_ok:
  assumes "clean pool" and "ParsePayload unmarshal topic payload receivedAt pool = (Inr dp, pool')"
  shows "well_formed topic receivedAt dp"
proof -
  have size: "length payload \<le> MaxPayloadSize" "length topic \<le> MaxTopicLength"
    using assms(2) by (simp_all add: ParsePayload_def not_le [symmetric] split: if_splits)
  then obtain p where p: "unmarshal payload = Inr p"
    using assms(2) by (cases "unmarshal payload") (simp_all add: ParsePayload_def)
  obtain rest where "ParsePayload unmarshal topic payload receivedAt pool = (parsed topic receivedAt p, rest)"
    using ParsePayload_parsed [where unmarshal = unmarshal, OF assms(1) size p] .
  with assms(2) have "parsed topic receivedAt p = Inr dp" by simp
  from this size(2) show ?thesis by (rule parsed_well_formed)
qed


section \<open>From the gateway\<close>

text \<open>
  How a value of the gateway reads after \<open>encoding/json\<close> wrote it and the decoder read it: an integer
  is written in full and read as the nearest \<open>float64\<close>; \<open>wide\<close> is what the shortest decimal of a
  \<open>float32\<close> reads as.
\<close>

definition json_of :: "(f32 \<Rightarrow> f64) \<Rightarrow> goval \<Rightarrow> json_value" where
  "json_of wide v =
     (case v of
        VBool b \<Rightarrow> JBool b
      | VString s \<Rightarrow> JString s
      | VNil \<Rightarrow> JOther
      | VFloat32 x \<Rightarrow> JNumber (wide x)
      | _ \<Rightarrow> JNumber (case toFloat64 v of Some x \<Rightarrow> x | None \<Rightarrow> 0))"

primrec quality_string :: "quality \<Rightarrow> string" where
  "quality_string QualityGood = ''good''"
| "quality_string QualityBad = ''bad''"
| "quality_string QualityUncertain = ''uncertain''"
| "quality_string QualityNotConnected = ''not_connected''"
| "quality_string QualityConfigError = ''config_error''"
| "quality_string QualityDeviceFailure = ''device_failure''"
| "quality_string QualityTimeout = ''timeout''"
| "quality_string QualityEmpty = ''''"

definition wire :: "(f32 \<Rightarrow> f64) \<Rightarrow> mqtt_payload \<Rightarrow> ingest_payload" where
  "wire wide m =
     \<lparr>ip_Value = json_of wide (mp_Value m), ip_Quality = quality_string (mp_Quality m), ip_Unit = mp_Unit m,
      ip_Timestamp = mp_Timestamp m, ip_SourceTimestamp = 0, ip_DeviceID = '''', ip_TagID = ''''\<rparr>"

lemma quality_code_of:
  "qualityStringToCode (quality_string q) =
     (if q = QualityGood \<or> q = QualityEmpty then 192 else if q = QualityUncertain then 64 else 0)"
  by (cases q) (simp_all add: qualityStringToCode_def)

lemma json_of_string: "json_of wide v = JString s \<longleftrightarrow> v = VString s"
  by (simp add: json_of_def split: goval.split)

lemma json_of_other: "json_of wide v = JOther \<longleftrightarrow> v = VNil"
  by (simp add: json_of_def split: goval.split)


definition sample_arrival :: data_point where
  "sample_arrival = NewDataPoint 1700000000123456789 ''plc1'' ''t1'' ''plant/temp'' (VFloat64 f64_one) ''C'' QualityGood"



end
