(* ===== verification/IngestWriter.thy ===== *)
theory IngestWriter
  imports IngestPayload ModbusPool GoHoare
begin

text \<open>
  The database writer of the data ingestion service (\<open>adapter/timescaledb/writer.go\<close>): writing a batch
  through a circuit breaker with retries, the back-off, which errors are retried, and the metadata
  column. The driver (pgx), the breaker and the clock are parameters, as in \<open>ModbusPool\<close>; metrics
  and logging are left out.
\<close>

section \<open>Metadata\<close>

definition dquote :: char where
  "dquote = CHR 0x22"

definition appendJSONField :: "string \<Rightarrow> bool \<Rightarrow> string \<Rightarrow> string \<Rightarrow> string" where
  "appendJSONField buf first key val =
     (let buf = (if \<not> first then buf @ '','' else buf);
          buf = buf @ [dquote];
          buf = buf @ key;
          buf = buf @ [dquote, CHR '':''];
          buf = buf @ [dquote];
          buf = buf @ val;
          buf = buf @ [dquote]
      in buf)"

text \<open>\<open>fmt\<close> is \<open>Time.Format(time.RFC3339Nano)\<close>.\<close>

definition buildMetadataJSON :: "(int \<Rightarrow> string) \<Rightarrow> ingest_point \<Rightarrow> string" where
  "buildMetadataJSON fmt dp =
     (let (buf, first) = (''{'', True);
          (buf, first) = (if it_DeviceID dp \<noteq> '''' then (appendJSONField buf first ''device_id'' (it_DeviceID dp), False)
                          else (buf, first));
          (buf, first) = (if it_TagID dp \<noteq> '''' then (appendJSONField buf first ''tag_id'' (it_TagID dp), False)
                          else (buf, first));
          (buf, first) = (if it_Unit dp \<noteq> '''' then (appendJSONField buf first ''unit'' (it_Unit dp), False)
                          else (buf, first));
          (buf, first) = (case it_SourceTimestamp dp of
                            Some t \<Rightarrow> (appendJSONField buf first ''source_ts'' (fmt t), False)
                          | None \<Rightarrow> (buf, first));
          buf = (case it_ServerTimestamp dp of
                   Some t \<Rightarrow> appendJSONField buf first ''server_ts'' (fmt t)
                 | None \<Rightarrow> buf)
      in buf @ ''}'')"

text \<open>The reference: the fields, and a reader of objects whose strings have no escapes.\<close>

definition metadata_fields :: "(int \<Rightarrow> string) \<Rightarrow> ingest_point \<Rightarrow> (string \<times> string) list" where
  "metadata_fields fmt dp =
     filter (\<lambda>(k, v). k \<notin> {''device_id'', ''tag_id'', ''unit''} \<or> v \<noteq> '''')
       [(''device_id'', it_DeviceID dp), (''tag_id'', it_TagID dp), (''unit'', it_Unit dp)] @
     (case it_SourceTimestamp dp of None \<Rightarrow> [] | Some t \<Rightarrow> [(''source_ts'', fmt t)]) @
     (case it_ServerTimestamp dp of None \<Rightarrow> [] | Some t \<Rightarrow> [(''server_ts'', fmt t)])"

definition read_string :: "string \<Rightarrow> (string \<times> string) option" where
  "read_string s =
     (case s of
        [] \<Rightarrow> None
      | c # r \<Rightarrow>
          if c \<noteq> dquote then None
          else case dropWhile (\<lambda>d. d \<noteq> dquote) r of
            [] \<Rightarrow> None
          | _ # rest \<Rightarrow> Some (takeWhile (\<lambda>d. d \<noteq> dquote) r, rest))"

definition read_field :: "string \<Rightarrow> ((string \<times> string) \<times> string) option" where
  "read_field s =
     (case read_string s of
        None \<Rightarrow> None
      | Some (k, r) \<Rightarrow>
          (case r of
             [] \<Rightarrow> None
           | c # r \<Rightarrow>
               if c \<noteq> CHR '':'' then None
               else case read_string r of None \<Rightarrow> None | Some (v, rest) \<Rightarrow> Some ((k, v), rest)))"

fun read_fields :: "nat \<Rightarrow> string \<Rightarrow> (string \<times> string) list option" where
  "read_fields 0 s = None"
| "read_fields (Suc n) s =
     (case read_field s of
        None \<Rightarrow> None
      | Some (kv, r) \<Rightarrow>
          (case r of
             [] \<Rightarrow> None
           | c # r \<Rightarrow>
               if c = CHR ''}'' then (if r = [] then Some [kv] else None)
               else if c = CHR '','' then map_option (\<lambda>kvs. kv # kvs) (read_fields n r)
               else None))"

definition read_object :: "string \<Rightarrow> (string \<times> string) list option" where
  "read_object s = (if s = ''{}'' then Some [] else if s \<noteq> [] \<and> hd s = CHR ''{'' then read_fields (length s) (tl s) else None)"

definition field_text :: "string \<times> string \<Rightarrow> string" where
  "field_text kv = [dquote] @ fst kv @ [dquote, CHR '':'', dquote] @ snd kv @ [dquote]"

fun fields_text :: "(string \<times> string) list \<Rightarrow> string" where
  "fields_text [] = []"
| "fields_text [kv] = field_text kv"
| "fields_text (kv # kvs) = field_text kv @ '','' @ fields_text kvs"

lemma metadata_text: "buildMetadataJSON fmt dp = ''{'' @ fields_text (metadata_fields fmt dp) @ ''}''"
  by (simp add: buildMetadataJSON_def metadata_fields_def appendJSONField_def field_text_def split: option.split)

lemma read_string_text: "dquote \<notin> set v \<Longrightarrow> read_string (dquote # v @ dquote # rest) = Some (v, rest)"
proof -
  assume v: "dquote \<notin> set v"
  have "dropWhile (\<lambda>d. d \<noteq> dquote) (v @ dquote # rest) = dquote # rest"
    using v by (subst dropWhile_append2) auto
  moreover have "takeWhile (\<lambda>d. d \<noteq> dquote) (v @ dquote # rest) = v"
    using v by (subst takeWhile_append2) auto
  ultimately show ?thesis by (simp add: read_string_def)
qed

lemma read_field_text:
  "dquote \<notin> set k \<Longrightarrow> dquote \<notin> set v \<Longrightarrow> read_field (field_text (k, v) @ rest) = Some ((k, v), rest)"
  by (simp add: read_field_def field_text_def read_string_text)

lemma read_fields_text:
  assumes "kvs \<noteq> []" and "\<forall>kv\<in>set kvs. dquote \<notin> set (fst kv) \<and> dquote \<notin> set (snd kv)" and "length kvs \<le> n"
  shows "read_fields n (fields_text kvs @ ''}'') = Some kvs"
  using assms
proof (induction kvs arbitrary: n rule: fields_text.induct)
  case (2 kv)
  then show ?case by (cases n; cases kv) (simp_all add: read_field_text)
next
  case (3 kv kv' kvs)
  then show ?case by (cases n; cases kv) (simp_all add: read_field_text)
qed simp

lemma length_fields_text: "length kvs \<le> length (fields_text kvs)"
  by (induction kvs rule: fields_text.induct) (simp_all add: field_text_def)

text \<open>
  The metadata column can be read back: when no identifier, unit or formatted time holds a
  double quote, reading the object that was written gives exactly the point's non-empty fields, in order.
\<close>

theorem metadata_reads_back:
  assumes "dquote \<notin> set (it_DeviceID dp)" and "dquote \<notin> set (it_TagID dp)" and "dquote \<notin> set (it_Unit dp)"
    and "\<forall>t. dquote \<notin> set (fmt t)"
  shows "read_object (buildMetadataJSON fmt dp) = Some (metadata_fields fmt dp)"
proof (cases "metadata_fields fmt dp = []")
  case True
  then show ?thesis by (simp add: metadata_text read_object_def)
next
  case False
  have ok: "\<forall>kv\<in>set (metadata_fields fmt dp). dquote \<notin> set (fst kv) \<and> dquote \<notin> set (snd kv)"
    using assms by (auto simp: metadata_fields_def dquote_def split: option.splits)
  from False have "fields_text (metadata_fields fmt dp) \<noteq> []"
    using length_fields_text [of "metadata_fields fmt dp"] by auto
  moreover have "length (metadata_fields fmt dp) \<le> length (fields_text (metadata_fields fmt dp)) + 2"
    using length_fields_text [of "metadata_fields fmt dp"] by linarith
  ultimately show ?thesis
    using read_fields_text [OF False ok] by (simp add: metadata_text read_object_def del: read_fields.simps)
qed

theorem metadata_reads_back_witness:
  "read_object (buildMetadataJSON (\<lambda>t. ''2024'') (new_point\<lparr>it_DeviceID := ''d1'', it_Unit := ''C'', it_SourceTimestamp := Some 5\<rparr>)) =
   Some [(''device_id'', ''d1''), (''unit'', ''C''), (''source_ts'', ''2024'')]"
proof -
  have "read_object (buildMetadataJSON (\<lambda>t. ''2024'') (new_point\<lparr>it_DeviceID := ''d1'', it_Unit := ''C'', it_SourceTimestamp := Some 5\<rparr>)) =
      Some (metadata_fields (\<lambda>t. ''2024'') (new_point\<lparr>it_DeviceID := ''d1'', it_Unit := ''C'', it_SourceTimestamp := Some 5\<rparr>))"
    by (rule metadata_reads_back) (simp_all add: new_point_def dquote_def)
  then show ?thesis by (simp add: metadata_fields_def new_point_def del: read_fields.simps)
qed

text \<open>With a double quote in an identifier it is another point's metadata: nothing is escaped.\<close>

theorem metadata_can_be_forged:
  "buildMetadataJSON fmt (new_point\<lparr>it_DeviceID := ''a'' @ [dquote] @ '','' @ [dquote] @ ''tag_id'' @ [dquote] @ '':'' @ [dquote] @ ''b''\<rparr>) =
   buildMetadataJSON fmt (new_point\<lparr>it_DeviceID := ''a'', it_TagID := ''b''\<rparr>)"
  by (simp add: buildMetadataJSON_def appendJSONField_def new_point_def)

section \<open>The writer\<close>

record writer_config =
  wg_Host :: string
  wg_Port :: int
  wg_Database :: string
  wg_User :: string
  wg_Password :: string
  wg_PoolSize :: int
  wg_MaxIdleTime :: int
  wg_UseCopyProtocol :: bool
  wg_MaxRetries :: int
  wg_RetryDelay :: int
  wg_WriteTimeout :: int
  wg_ConnectTimeout :: int

text \<open>
  The errors of a write: a server error with its SQLSTATE, any other error of the driver, an error
  of a row (\<open>"failed to insert row %d: %w"\<close>), the refusal of the breaker, the end of the context.
\<close>

datatype db_error = PgError string string | DriverError string | RowError nat db_error | Refused refusal
  | CtxError string

fun db_error_text :: "db_error \<Rightarrow> string" where
  "db_error_text (PgError code text) = text"
| "db_error_text (DriverError text) = text"
| "db_error_text (RowError i e) = ''failed to insert row '' @ dec (int i) @ '': '' @ db_error_text e"
| "db_error_text (Refused OpenState) = ''circuit breaker is open''"
| "db_error_text (Refused TooManyRequests) = ''too many requests''"
| "db_error_text (CtxError text) = text"

text \<open>\<open>errors.As\<close> to a \<open>PgError\<close>: its code.\<close>

fun as_pg :: "db_error \<Rightarrow> string option" where
  "as_pg (PgError code text) = Some code"
| "as_pg (RowError i e) = as_pg e"
| "as_pg _ = None"

record row =
  rw_time :: int
  rw_topic :: string
  rw_value :: "f64 option"
  rw_value_str :: "string option"
  rw_quality :: u16
  rw_metadata :: string

record 'b db_writer =
  dw_config :: writer_config
  dw_breaker :: 'b
  dw_batchesWritten :: u64
  dw_pointsWritten :: u64
  dw_writeErrors :: u64
  dw_retriesTotal :: u64
  dw_totalWriteTime :: int

record ('w, 'b) writer_env =
  we_CopyFrom :: "int \<Rightarrow> row list \<Rightarrow> 'w \<Rightarrow> db_error option \<times> 'w"
  we_SendBatch :: "int \<Rightarrow> row list \<Rightarrow> 'w \<Rightarrow> unit \<times> 'w"
  we_Exec :: "nat \<Rightarrow> 'w \<Rightarrow> db_error option \<times> 'w"
  we_CloseResults :: "'w \<Rightarrow> unit \<times> 'w"
  we_wait :: "int \<Rightarrow> 'w \<Rightarrow> string option \<times> 'w"
  we_Now :: "'w \<Rightarrow> int \<times> 'w"
  we_newBreaker :: 'b
  we_admit :: "'b \<Rightarrow> 'w \<Rightarrow> (refusal option \<times> 'b) \<times> 'w"
  we_record :: "bool \<Rightarrow> 'b \<Rightarrow> 'w \<Rightarrow> 'b \<times> 'w"
  we_ParseConfig :: "string \<Rightarrow> string option"
  we_NewPool :: "'w \<Rightarrow> string option \<times> 'w"
  we_Ping :: "'w \<Rightarrow> string option \<times> 'w"
  we_format :: "int \<Rightarrow> string"

type_synonym ('w, 'b, 'a) dbw = "('b db_writer \<times> 'w, 'a) prog"

definition writer_defaults :: "writer_config \<Rightarrow> writer_config" where
  "writer_defaults c =
     c\<lparr>wg_MaxRetries := (if wg_MaxRetries c \<le> 0 then 3 else wg_MaxRetries c),
       wg_RetryDelay := (if wg_RetryDelay c \<le> 0 then 100000000 else wg_RetryDelay c),
       wg_WriteTimeout := (if wg_WriteTimeout c \<le> 0 then 30000000000 else wg_WriteTimeout c),
       wg_ConnectTimeout := (if wg_ConnectTimeout c \<le> 0 then 10000000000 else wg_ConnectTimeout c)\<rparr>"

text \<open>\<open>int(d.Seconds())\<close>: whole seconds plus the rest as a float, then truncated.\<close>

definition whole_seconds :: "int \<Rightarrow> int" where
  "whole_seconds d =
     (case fp_trunc (decode64 (f64_add (f64_of_int (tdiv d 1000000000))
             (f64_div (f64_of_int (d - tdiv d 1000000000 * 1000000000)) (f64_of_int 1000000000)))) of
        Some n \<Rightarrow> n | None \<Rightarrow> 0)"

definition writer_dsn :: "writer_config \<Rightarrow> string" where
  "writer_dsn c =
     ''host='' @ wg_Host c @ '' port='' @ dec (wg_Port c) @ '' dbname='' @ wg_Database c @ '' user='' @ wg_User c @
     '' password='' @ wg_Password c @ '' connect_timeout='' @ dec (whole_seconds (wg_ConnectTimeout c))"

definition NewWriter :: "('w, 'b) writer_env \<Rightarrow> writer_config \<Rightarrow> 'w \<Rightarrow> (string + 'b db_writer) \<times> 'w" where
  "NewWriter E config w =
     (let c = writer_defaults config in
      case we_ParseConfig E (writer_dsn c) of
        Some e \<Rightarrow> (Inl (''failed to create pool config: '' @ e), w)
      | None \<Rightarrow>
          (case we_NewPool E w of
             (Some e, w) \<Rightarrow> (Inl (''failed to create connection pool: '' @ e), w)
           | (None, w) \<Rightarrow>
               (case we_Ping E w of
                  (Some e, w) \<Rightarrow> (Inl (''failed to ping database: '' @ e), w)
                | (None, w) \<Rightarrow>
                    (Inr \<lparr>dw_config = c, dw_breaker = we_newBreaker E, dw_batchesWritten = 0, dw_pointsWritten = 0,
                          dw_writeErrors = 0, dw_retriesTotal = 0, dw_totalWriteTime = 0\<rparr>, w))))"

text \<open>\<open>ReadyToTrip\<close> of the writer's breaker.\<close>

definition writer_ReadyToTrip :: "u32 \<Rightarrow> bool" where
  "writer_ReadyToTrip consecutiveFailures = (5 \<le> consecutiveFailures)"

section \<open>Back-off and retries\<close>

text \<open>A shift by 64 bits or more gives zero; the product wraps around.\<close>

definition shl64 :: "int \<Rightarrow> int" where
  "shl64 n = (if n < 0 \<or> 64 \<le> n then 0 else wrap64 (2 ^ nat n))"

definition writer_calculateBackoff :: "writer_config \<Rightarrow> int \<Rightarrow> int" where
  "writer_calculateBackoff c attempt =
     (let delay = wrap64 (wg_RetryDelay c * shl64 (attempt - 1));
          maxDelay = 5000000000
      in if maxDelay < delay then maxDelay else delay)"

text \<open>\<open>pgErr.Code[:2]\<close> panics for a shorter code.\<close>

definition retryable_write :: "db_error \<Rightarrow> ('s, bool) prog" where
  "retryable_write err =
     (case as_pg err of
        Some code \<Rightarrow>
          if length code < 2 then panic ''slice bounds out of range''
          else ret (take 2 code \<in> {''08'', ''40'', ''53'', ''57''})
      | None \<Rightarrow>
          ret (contains (ToLower (db_error_text err))
            [''connection refused'', ''connection reset'', ''timeout'', ''i/o timeout'', ''pool closed'',
             ''too many clients'', ''broken pipe'']))"

section \<open>Writing\<close>

definition row_of :: "(int \<Rightarrow> string) \<Rightarrow> ingest_point \<Rightarrow> row" where
  "row_of fmt dp =
     \<lparr>rw_time = it_Timestamp dp, rw_topic = it_Topic dp, rw_value = it_Value dp, rw_value_str = it_ValueStr dp,
      rw_quality = it_Quality dp, rw_metadata = buildMetadataJSON fmt dp\<rparr>"

definition writeBatchCopy :: "('w, 'b) writer_env \<Rightarrow> point_batch \<Rightarrow> ('w, 'b, db_error option) dbw" where
  "writeBatchCopy E batch =
     bnd (field (\<lambda>d. wg_WriteTimeout (dw_config d))) (\<lambda>timeout.
     call (we_CopyFrom E timeout (map (row_of (we_format E)) (bt_Points batch))))"

fun exec_rows :: "('w, 'b) writer_env \<Rightarrow> nat \<Rightarrow> nat \<Rightarrow> ('w, 'b, db_error option) dbw" where
  "exec_rows E i 0 = ret None"
| "exec_rows E i (Suc n) =
     bnd (call (we_Exec E i)) (\<lambda>err.
     case err of Some e \<Rightarrow> ret (Some (RowError i e)) | None \<Rightarrow> exec_rows E (Suc i) n)"

definition writeBatchInsert :: "('w, 'b) writer_env \<Rightarrow> point_batch \<Rightarrow> ('w, 'b, db_error option) dbw" where
  "writeBatchInsert E batch =
     (if bt_Points batch = [] then ret None
      else
        bnd (field (\<lambda>d. wg_WriteTimeout (dw_config d))) (\<lambda>timeout.
        bnd (call (we_SendBatch E timeout (map (row_of (we_format E)) (bt_Points batch)))) (\<lambda>_.
        deferred (exec_rows E 0 (length (bt_Points batch))) (call (we_CloseResults E)))))"

definition write_once :: "('w, 'b) writer_env \<Rightarrow> point_batch \<Rightarrow> ('w, 'b, db_error option) dbw" where
  "write_once E batch =
     bnd (field (\<lambda>d. wg_UseCopyProtocol (dw_config d))) (\<lambda>copy.
     if copy then writeBatchCopy E batch else writeBatchInsert E batch)"

text \<open>
  The loop over the attempts: \<open>n\<close> are left, \<open>err\<close> is the error of the last. It ends early with the
  error of the context, which is returned at once.
\<close>

fun batch_attempts ::
  "('w, 'b) writer_env \<Rightarrow> point_batch \<Rightarrow> nat \<Rightarrow> int \<Rightarrow> db_error option \<Rightarrow> ('w, 'b, string + db_error option) dbw" where
  "batch_attempts E batch 0 attempt err = ret (Inr err)"
| "batch_attempts E batch (Suc n) attempt err =
     bnd (if 0 < attempt
          then
            bnd (upd (\<lambda>d. d\<lparr>dw_retriesTotal := dw_retriesTotal d + 1\<rparr>)) (\<lambda>_.
            bnd (field (\<lambda>d. writer_calculateBackoff (dw_config d) attempt)) (\<lambda>delay.
            call (we_wait E delay)))
          else ret None) (\<lambda>stopped.
     case stopped of
       Some e \<Rightarrow> ret (Inl e)
     | None \<Rightarrow>
         bnd (write_once E batch) (\<lambda>err.
         case err of
           None \<Rightarrow> ret (Inr None)
         | Some e \<Rightarrow>
             bnd (retryable_write e) (\<lambda>again.
             if again then batch_attempts E batch n (attempt + 1) (Some e) else ret (Inr (Some e)))))"

text \<open>What follows the loop: the time and the counters.\<close>

definition finish_write ::
  "('w, 'b) writer_env \<Rightarrow> point_batch \<Rightarrow> int \<Rightarrow> db_error option \<Rightarrow> ('w, 'b, db_error option) dbw" where
  "finish_write E batch start err =
     bnd (call (we_Now E)) (\<lambda>now.
     bnd (upd (\<lambda>d. d\<lparr>dw_totalWriteTime := wrap64 (dw_totalWriteTime d + time_Sub now start)\<rparr>)) (\<lambda>_.
     case err of
       Some e \<Rightarrow>
         bnd (upd (\<lambda>d. d\<lparr>dw_writeErrors := dw_writeErrors d + 1\<rparr>)) (\<lambda>_. ret (Some e))
     | None \<Rightarrow>
         bnd (upd (\<lambda>d. d\<lparr>dw_batchesWritten := dw_batchesWritten d + 1,
                         dw_pointsWritten := dw_pointsWritten d + of_nat (batch_Size batch)\<rparr>)) (\<lambda>_.
         ret None)))"

definition writeBatchWithRetry :: "('w, 'b) writer_env \<Rightarrow> point_batch \<Rightarrow> ('w, 'b, db_error option) dbw" where
  "writeBatchWithRetry E batch =
     bnd (call (we_Now E)) (\<lambda>start.
     bnd (field (\<lambda>d. nat (wg_MaxRetries (dw_config d) + 1))) (\<lambda>n.
     bnd (batch_attempts E batch n 0 None) (\<lambda>outcome.
     case outcome of
       Inl e \<Rightarrow> ret (Some (CtxError e))
     | Inr err \<Rightarrow> finish_write E batch start err)))"

text \<open>\<open>breaker.Execute\<close>: it refuses at once, or runs and records; a panic counts as a failure.\<close>

definition record_write :: "('w, 'b) writer_env \<Rightarrow> bool \<Rightarrow> ('w, 'b, unit) dbw" where
  "record_write E success =
     bnd (field dw_breaker) (\<lambda>b.
     bnd (call (we_record E success b)) (\<lambda>b. upd (\<lambda>d. d\<lparr>dw_breaker := b\<rparr>)))"

definition WriteBatch :: "('w, 'b) writer_env \<Rightarrow> point_batch \<Rightarrow> ('w, 'b, db_error option) dbw" where
  "WriteBatch E batch =
     (if batch_Size batch = 0 then ret None
      else
        bnd (field dw_breaker) (\<lambda>b.
        bnd (call (we_admit E b)) (\<lambda>(refused, b).
        bnd (upd (\<lambda>d. d\<lparr>dw_breaker := b\<rparr>)) (\<lambda>_.
        case refused of
          Some r \<Rightarrow> ret (Some (Refused r))
        | None \<Rightarrow>
            bnd_run (writeBatchWithRetry E batch) (\<lambda>r.
            case r of
              Val err \<Rightarrow> bnd (record_write E (err = None)) (\<lambda>_. ret err)
            | Panic p \<Rightarrow> bnd (record_write E False) (\<lambda>_. panic p))))))"

definition writer_IsHealthy :: "('w, 'b) writer_env \<Rightarrow> ('w, 'b, bool) dbw" where
  "writer_IsHealthy E = bnd (call (we_Ping E)) (\<lambda>err. ret (err = None))"

text \<open>The counters \<open>Stats\<close> reads; the mean write time in nanoseconds.\<close>

definition writer_Stats :: "'b db_writer \<Rightarrow> (string \<times> u64) list \<times> int" where
  "writer_Stats d =
     ([(''batches_written'', dw_batchesWritten d), (''points_written'', dw_pointsWritten d),
       (''write_errors'', dw_writeErrors d), (''retries_total'', dw_retriesTotal d)],
      if 0 < dw_batchesWritten d then tdiv (dw_totalWriteTime d) (sint (dw_batchesWritten d)) else 0)"

end
