(* ===== verification/IngestWriterProps.thy ===== *)
theory IngestWriterProps
  imports IngestWriter
begin

text \<open>
  The contract of the service's port \<open>BatchWriter\<close> (\<open>internal/domain/ports.go\<close>) as the locale
  \<open>batch_store\<close>: a write that returns nil has stored its rows. The database writer provides it when
  the driver does what it documents; what a batcher needs follows inside the locale.
\<close>

section \<open>The port\<close>

fun write_all :: "(point_batch \<Rightarrow> ('s, 'e option) prog) \<Rightarrow> point_batch list \<Rightarrow> ('s, 'e option list) prog" where
  "write_all wr [] = ret []"
| "write_all wr (b # bs) = bnd (wr b) (\<lambda>err. bnd (write_all wr bs) (\<lambda>errs. ret (err # errs)))"

locale batch_store =
  fixes wr :: "point_batch \<Rightarrow> ('s, 'e option) prog"
    and good :: "'s \<Rightarrow> bool"
    and stored :: "'s \<Rightarrow> row multiset"
    and rows :: "point_batch \<Rightarrow> row multiset"
  assumes writes: "gives (\<lambda>s. good s \<and> S \<subseteq># stored s) (wr b)
    (\<lambda>err s. good s \<and> (if err = None then S + rows b else S) \<subseteq># stored s)"
begin

lemma all_stored:
  "gives (\<lambda>s. good s \<and> S \<subseteq># stored s) (write_all wr bs)
     (\<lambda>errs s. good s \<and> S \<subseteq># stored s \<and>
        (list_all (\<lambda>e. e = None) errs \<longrightarrow> S + sum_list (map rows bs) \<subseteq># stored s))"
proof (induction bs arbitrary: S)
  case Nil
  show ?case by (auto intro: gives_ret)
next
  case (Cons b bs)
  show ?case
    unfolding write_all.simps
  proof (rule gives_bnd [OF writes])
    fix err :: "'e option"
    let ?S = "if err = None then S + rows b else S"
    show "gives (\<lambda>s. good s \<and> ?S \<subseteq># stored s) (bnd (write_all wr bs) (\<lambda>errs. ret (err # errs)))
        (\<lambda>errs s. good s \<and> S \<subseteq># stored s \<and>
          (list_all (\<lambda>e. e = None) errs \<longrightarrow> S + sum_list (map rows (b # bs)) \<subseteq># stored s))"
      by (rule gives_bnd [OF Cons.IH [of ?S]], rule gives_ret)
        (auto simp: add.assoc split: if_splits intro: subset_mset.order_trans [OF mset_subset_eq_add_left])
  qed
qed

lemma returns: "good s \<Longrightarrow> \<exists>err s'. wr b s = (Val err, s') \<and> good s'"
  using writes [of "{#}" b] unfolding gives_def by fastforce

end

section \<open>What the driver documents\<close>

text \<open>
  \<open>stored\<close> observes the rows of the table and only grows; \<open>pending\<close> is the batch in transit. A copy
  without error has stored its rows, an \<open>Exec\<close> without error the row it answers for; a SQLSTATE has
  at least its class.
\<close>

definition grows :: "('w \<Rightarrow> row multiset) \<Rightarrow> ('w \<Rightarrow> 'a \<times> 'w) \<Rightarrow> bool" where
  "grows stored g \<longleftrightarrow> (\<forall>w. stored w \<subseteq># stored (snd (g w)))"

definition coded :: "db_error option \<Rightarrow> bool" where
  "coded err = (case err of None \<Rightarrow> True | Some e \<Rightarrow> (case as_pg e of None \<Rightarrow> True | Some c \<Rightarrow> 2 \<le> length c))"

definition driver_ok :: "('w \<Rightarrow> row multiset) \<Rightarrow> ('w \<Rightarrow> row list) \<Rightarrow> ('w, 'b) writer_env \<Rightarrow> bool" where
  "driver_ok stored pending E \<longleftrightarrow>
     (\<forall>t rs w. coded (fst (we_CopyFrom E t rs w)) \<and>
        (if fst (we_CopyFrom E t rs w) = None then stored w + mset rs else stored w) \<subseteq># stored (snd (we_CopyFrom E t rs w))) \<and>
     (\<forall>t rs w. pending (snd (we_SendBatch E t rs w)) = rs \<and> stored w \<subseteq># stored (snd (we_SendBatch E t rs w))) \<and>
     (\<forall>i w. coded (fst (we_Exec E i w)) \<and> pending (snd (we_Exec E i w)) = pending w \<and>
        (if fst (we_Exec E i w) = None \<and> i < length (pending w) then add_mset (pending w ! i) (stored w) else stored w)
          \<subseteq># stored (snd (we_Exec E i w))) \<and>
     grows stored (we_CloseResults E) \<and> (\<forall>d. grows stored (we_wait E d)) \<and> grows stored (we_Now E) \<and>
     (\<forall>b. grows stored (we_admit E b)) \<and> (\<forall>ok b. grows stored (we_record E ok b))"

text \<open>The rows \<open>S\<close> are stored, and the writer's counters of success are \<open>c\<close>.\<close>

definition holds :: "('w \<Rightarrow> row multiset) \<Rightarrow> row multiset \<Rightarrow> u64 \<times> u64 \<Rightarrow> 'b db_writer \<times> 'w \<Rightarrow> bool" where
  "holds stored S c s \<longleftrightarrow> S \<subseteq># stored (snd s) \<and> (dw_batchesWritten (fst s), dw_pointsWritten (fst s)) = c \<and>
     0 \<le> wg_MaxRetries (dw_config (fst s))"

lemma holds_less: "holds stored S c s \<Longrightarrow> T \<subseteq># S \<Longrightarrow> holds stored T c s"
  by (auto simp: holds_def intro: subset_mset.order_trans)

lemma holds_call:
  assumes "grows stored g"
  shows "gives (holds stored S c) (call g) (\<lambda>_. holds stored S c)"
proof (rule gives_call)
  fix d w a w' assume s: "holds stored S c (d, w)" and g: "g w = (a, w')"
  have "stored w \<subseteq># stored w'" using assms g unfolding grows_def by (metis snd_conv)
  with s show "holds stored S c (d, w')" by (auto simp: holds_def intro: subset_mset.order_trans)
qed

lemma holds_field: "gives (holds stored S c) (field f) (\<lambda>_. holds stored S c)"
  by (rule gives_field)

lemma holds_upd:
  "(\<And>d. dw_batchesWritten (f d) = dw_batchesWritten d) \<Longrightarrow> (\<And>d. dw_pointsWritten (f d) = dw_pointsWritten d) \<Longrightarrow>
   (\<And>d. dw_config (f d) = dw_config d) \<Longrightarrow> gives (holds stored S c) (upd f) (\<lambda>_. holds stored S c)"
  by (rule gives_upd) (simp add: holds_def)

section \<open>The writer provides the port\<close>

definition rows_of :: "('w, 'b) writer_env \<Rightarrow> point_batch \<Rightarrow> row multiset" where
  "rows_of E b = mset (map (row_of (we_format E)) (bt_Points b))"

text \<open>After a write: the rows are there when it returned nil, and an error can be classified.\<close>

definition wrote ::
  "('w \<Rightarrow> row multiset) \<Rightarrow> row multiset \<Rightarrow> row multiset \<Rightarrow> u64 \<times> u64 \<Rightarrow> db_error option \<Rightarrow> 'b db_writer \<times> 'w \<Rightarrow> bool" where
  "wrote stored S R c err s \<longleftrightarrow> coded err \<and> holds stored (if err = None then S + R else S) c s"

lemma exec_rows_gives:
  assumes "driver_ok stored pending E" and "i + n = length rs"
  shows "gives (\<lambda>s. holds stored S c s \<and> pending (snd s) = rs) (exec_rows E i n) (wrote stored S (mset (drop i rs)) c)"
  using assms(2)
proof (induction n arbitrary: i S)
  case 0
  then show ?case by (auto intro!: gives_ret simp: wrote_def coded_def)
next
  case (Suc n)
  have i: "i < length rs" "mset (drop i rs) = add_mset (rs ! i) (mset (drop (Suc i) rs))"
    using Suc.prems by (simp_all add: Cons_nth_drop_Suc [symmetric])
  show ?case
    unfolding exec_rows.simps
  proof (rule gives_bnd [where R = "\<lambda>err s. coded err \<and>
      holds stored (if err = None then add_mset (rs ! i) S else S) c s \<and> pending (snd s) = rs"])
    show "gives (\<lambda>s. holds stored S c s \<and> pending (snd s) = rs) (call (we_Exec E i))
      (\<lambda>err s. coded err \<and> holds stored (if err = None then add_mset (rs ! i) S else S) c s \<and> pending (snd s) = rs)"
    proof (rule gives_call)
      fix d w err w' assume s: "holds stored S c (d, w) \<and> pending (snd (d, w)) = rs" and e: "we_Exec E i w = (err, w')"
      from assms(1) have "coded (fst (we_Exec E i w)) \<and> pending (snd (we_Exec E i w)) = pending w \<and>
          (if fst (we_Exec E i w) = None \<and> i < length (pending w) then add_mset (pending w ! i) (stored w) else stored w)
            \<subseteq># stored (snd (we_Exec E i w))" unfolding driver_ok_def by blast
      with s e i(1) show "coded err \<and> holds stored (if err = None then add_mset (rs ! i) S else S) c (d, w') \<and>
          pending (snd (d, w')) = rs"
        by (auto simp: holds_def intro: subset_mset.order_trans)
          (meson mset_subset_eq_add_mset_cancel subset_mset.order_trans)
    qed
  next
    fix err
    show "gives (\<lambda>s. coded err \<and> holds stored (if err = None then add_mset (rs ! i) S else S) c s \<and> pending (snd s) = rs)
        (case err of Some e \<Rightarrow> ret (Some (RowError i e)) | None \<Rightarrow> exec_rows E (Suc i) n)
        (wrote stored S (mset (drop i rs)) c)"
    proof (cases err)
      case None
      have "gives (\<lambda>s. holds stored (add_mset (rs ! i) S) c s \<and> pending (snd s) = rs) (exec_rows E (Suc i) n)
          (wrote stored (add_mset (rs ! i) S) (mset (drop (Suc i) rs)) c)"
        using Suc.prems by (intro Suc.IH) simp
      then show ?thesis
        unfolding None option.case
        by (rule gives_weaken) (auto simp: wrote_def i(2) intro: holds_less split: if_splits)
    next
      case (Some e)
      then show ?thesis by (auto intro!: gives_ret simp: wrote_def coded_def)
    qed
  qed
qed

lemma writeBatchInsert_gives:
  assumes "driver_ok stored pending E"
  shows "gives (holds stored S c) (writeBatchInsert E b) (wrote stored S (rows_of E b) c)"
proof (cases "bt_Points b = []")
  case True
  then show ?thesis by (auto intro!: gives_ret simp: writeBatchInsert_def wrote_def coded_def rows_of_def)
next
  case False
  let ?rs = "map (row_of (we_format E)) (bt_Points b)"
  have send: "gives (holds stored S c) (call (we_SendBatch E t ?rs)) (\<lambda>_ s. holds stored S c s \<and> pending (snd s) = ?rs)" for t
  proof (rule gives_call)
    fix d w u w' assume s: "holds stored S c (d, w)" and e: "we_SendBatch E t ?rs w = (u, w')"
    from assms have "pending (snd (we_SendBatch E t ?rs w)) = ?rs \<and> stored w \<subseteq># stored (snd (we_SendBatch E t ?rs w))"
      unfolding driver_ok_def by blast
    with s e show "holds stored S c (d, w') \<and> pending (snd (d, w')) = ?rs"
      by (auto simp: holds_def intro: subset_mset.order_trans)
  qed
  have close: "gives (wrote stored S R c err) (call (we_CloseResults E)) (\<lambda>_. wrote stored S R c err)" for R err
  proof -
    from assms have "grows stored (we_CloseResults E)" by (simp add: driver_ok_def)
    from holds_call [OF this] show ?thesis
      unfolding wrote_def by (intro gives_fact) (rule gives_post, assumption, simp)
  qed
  have rows: "gives (\<lambda>s. holds stored S c s \<and> pending (snd s) = ?rs) (exec_rows E 0 (length (bt_Points b)))
      (wrote stored S (rows_of E b) c)"
    using exec_rows_gives [OF assms, of 0 "length (bt_Points b)" ?rs] by (simp add: rows_of_def)
  show ?thesis
    unfolding writeBatchInsert_def if_not_P [OF False]
    by (rule gives_bnd [OF holds_field], rule gives_bnd [OF send], rule gives_deferred [OF rows close])
qed

lemma writeBatchCopy_gives:
  assumes "driver_ok stored pending E"
  shows "gives (holds stored S c) (writeBatchCopy E b) (wrote stored S (rows_of E b) c)"
proof -
  let ?rs = "map (row_of (we_format E)) (bt_Points b)"
  have "gives (holds stored S c) (call (we_CopyFrom E t ?rs)) (wrote stored S (rows_of E b) c)" for t
  proof (rule gives_call)
    fix d w err w' assume s: "holds stored S c (d, w)" and e: "we_CopyFrom E t ?rs w = (err, w')"
    from assms have "coded (fst (we_CopyFrom E t ?rs w)) \<and>
        (if fst (we_CopyFrom E t ?rs w) = None then stored w + mset ?rs else stored w) \<subseteq># stored (snd (we_CopyFrom E t ?rs w))"
      unfolding driver_ok_def by blast
    with s e show "wrote stored S (rows_of E b) c err (d, w')"
      by (auto simp: wrote_def holds_def rows_of_def intro: subset_mset.order_trans subset_mset.add_mono)
  qed
  then show ?thesis
    unfolding writeBatchCopy_def by (rule gives_bnd [OF holds_field])
qed

lemma write_once_gives:
  assumes "driver_ok stored pending E"
  shows "gives (holds stored S c) (write_once E b) (wrote stored S (rows_of E b) c)"
  unfolding write_once_def
  by (rule gives_bnd [OF holds_field], rule gives_if)
    (rule writeBatchCopy_gives writeBatchInsert_gives, rule assms)+

lemma retryable_gives:
  "gives (\<lambda>s. coded (Some e) \<and> P s) (retryable_write e) (\<lambda>_. P)"
  by (rule gives_fact) (auto simp: retryable_write_def coded_def split: option.splits intro!: gives_ret)

lemma batch_attempts_gives:
  assumes "driver_ok stored pending E"
  shows "n = 0 \<longrightarrow> err \<noteq> None \<Longrightarrow> coded err \<Longrightarrow> gives (holds stored S c) (batch_attempts E b n a err)
    (\<lambda>r s. case r of Inl e \<Rightarrow> holds stored S c s | Inr err \<Rightarrow> wrote stored S (rows_of E b) c err s)"
proof (induction n arbitrary: a err)
  case 0
  then show ?case by (auto intro!: gives_ret simp: wrote_def)
next
  case (Suc n)
  have wait: "grows stored (we_wait E d)" for d using assms by (simp add: driver_ok_def)
  have step: "gives (wrote stored S (rows_of E b) c err) (case err of
        None \<Rightarrow> ret (Inr None)
      | Some e \<Rightarrow>
          bnd (retryable_write e) (\<lambda>again.
          if again then batch_attempts E b n (a + 1) (Some e) else ret (Inr (Some e))))
      (\<lambda>r s. case r of Inl e \<Rightarrow> holds stored S c s | Inr err \<Rightarrow> wrote stored S (rows_of E b) c err s)" for err
  proof (cases err)
    case (Some e)
    show ?thesis
    proof (cases "coded (Some e)")
      case True
      have "gives (holds stored S c) (if again then batch_attempts E b n (a + 1) (Some e) else ret (Inr (Some e)))
          (\<lambda>r s. case r of Inl e \<Rightarrow> holds stored S c s | Inr err \<Rightarrow> wrote stored S (rows_of E b) c err s)" for again
        using True Suc.IH [of "Some e"] by (intro gives_if gives_ret) (auto simp: wrote_def)
      then show ?thesis
        unfolding Some option.case by (intro gives_bnd [OF gives_pre [OF retryable_gives [where P = "holds stored S c"]]]) (simp add: wrote_def)
    next
      case False
      then show ?thesis by (auto simp: Some gives_def wrote_def)
    qed
  qed (auto intro!: gives_ret)
  show ?case
    unfolding batch_attempts.simps
    by (rule gives_bnd [where R = "\<lambda>_. holds stored S c"], rule gives_if,
        rule gives_bnd [OF holds_upd], simp, simp, simp, rule gives_bnd [OF holds_field], rule holds_call [OF wait],
        rule gives_ret, simp, rule gives_option, rule gives_bnd [OF write_once_gives [OF assms] step], rule gives_ret, simp)
qed

text \<open>After \<open>WriteBatch\<close>: on success the counters are one batch and its points further.\<close>

definition counted :: "point_batch \<Rightarrow> u64 \<times> u64 \<Rightarrow> u64 \<times> u64" where
  "counted b c = (fst c + 1, snd c + of_nat (batch_Size b))"

definition written_batch ::
  "('w \<Rightarrow> row multiset) \<Rightarrow> row multiset \<Rightarrow> ('w, 'b) writer_env \<Rightarrow> point_batch \<Rightarrow> u64 \<times> u64 \<Rightarrow> db_error option \<Rightarrow>
   'b db_writer \<times> 'w \<Rightarrow> bool" where
  "written_batch stored S E b c err s \<longleftrightarrow>
     (if err = None then holds stored (S + rows_of E b) (counted b c) s else holds stored S c s)"

lemma written_batch_simps:
  "written_batch stored S E b c None = holds stored (S + rows_of E b) (counted b c)"
  "written_batch stored S E b c (Some e) = holds stored S c"
  by (simp_all add: written_batch_def fun_eq_iff)

lemma finish_write_gives:
  assumes "driver_ok stored pending E"
  shows "gives (wrote stored S (rows_of E b) c err) (finish_write E b start err) (written_batch stored S E b c)"
proof -
  have clock: "grows stored (we_Now E)" using assms by (simp add: driver_ok_def)
  let ?S = "if err = None then S + rows_of E b else S"
  have ok: "gives (holds stored (S + rows_of E b) c) (bnd (upd (\<lambda>d. d\<lparr>dw_batchesWritten := dw_batchesWritten d + 1,
      dw_pointsWritten := dw_pointsWritten d + of_nat (batch_Size b)\<rparr>)) (\<lambda>_. ret None)) (written_batch stored S E b c)"
    by (rule gives_bnd [where R = "\<lambda>_. holds stored (S + rows_of E b) (counted b c)"], rule gives_upd,
        force simp: holds_def counted_def, rule gives_ret, simp add: written_batch_def)
  have failed: "gives (holds stored S c) (bnd (upd (\<lambda>d. d\<lparr>dw_writeErrors := dw_writeErrors d + 1\<rparr>)) (\<lambda>_. ret (Some e)))
      (written_batch stored S E b c)" for e
    by (intro gives_bnd [OF holds_upd] gives_ret) (simp_all add: written_batch_def)
  have "gives (holds stored ?S c) (finish_write E b start err) (written_batch stored S E b c)"
    unfolding finish_write_def
    by (intro gives_bnd [OF holds_call [OF clock]] gives_bnd [OF holds_upd])
      (use ok failed in \<open>auto split: option.split\<close>)
  then show ?thesis by (rule gives_pre) (simp add: wrote_def)
qed

lemma writeBatchWithRetry_gives:
  assumes "driver_ok stored pending E"
  shows "gives (holds stored S c) (writeBatchWithRetry E b) (written_batch stored S E b c)"
proof -
  have clock: "grows stored (we_Now E)" using assms by (simp add: driver_ok_def)
  have attempts: "gives (holds stored S c) (bnd (field (\<lambda>d. nat (wg_MaxRetries (dw_config d) + 1)))
        (\<lambda>n. bnd (batch_attempts E b n 0 None) k)) Q"
    if "\<And>r. gives (\<lambda>s. case r of Inl e \<Rightarrow> holds stored S c s | Inr err \<Rightarrow> wrote stored S (rows_of E b) c err s) (k r) Q" for k Q
  proof (rule gives_bnd [where R = "\<lambda>n s. n \<noteq> 0 \<and> holds stored S c s"])
    show "gives (\<lambda>s. n \<noteq> 0 \<and> holds stored S c s) (bnd (batch_attempts E b n 0 None) k) Q" for n
      by (rule gives_fact, rule gives_bnd [OF batch_attempts_gives [OF assms] that]) (simp_all add: coded_def)
  qed (auto intro!: gives_field simp: holds_def)
  have after: "gives (\<lambda>s. case r of Inl e \<Rightarrow> holds stored S c s | Inr err \<Rightarrow> wrote stored S (rows_of E b) c err s)
      (case r of Inl e \<Rightarrow> ret (Some (CtxError e)) | Inr err \<Rightarrow> finish_write E b start err)
      (written_batch stored S E b c)" for r start
    using finish_write_gives [OF assms] by (cases r) (auto intro!: gives_ret simp: written_batch_def)
  show ?thesis
    unfolding writeBatchWithRetry_def
    by (rule gives_bnd [OF holds_call [OF clock]], rule attempts, rule after)
qed

lemma record_write_gives:
  assumes "driver_ok stored pending E"
  shows "gives (holds stored S c) (record_write E ok) (\<lambda>_. holds stored S c)"
  unfolding record_write_def
  by (rule gives_bnd [OF holds_field], rule gives_bnd [OF holds_call], use assms in \<open>simp add: driver_ok_def\<close>,
      rule holds_upd) simp_all

lemma WriteBatch_gives:
  fixes E :: "('w, 'b) writer_env"
  assumes "driver_ok stored pending E" and "batch_Size b \<noteq> 0"
  shows "gives (holds stored S c) (WriteBatch E b) (written_batch stored S E b c)"
proof -
  have admit: "grows stored (we_admit E breaker)" for breaker using assms(1) by (simp add: driver_ok_def)
  have recorded: "gives (written_batch stored S E b c err) (bnd (record_write E (err = None)) (\<lambda>_. ret err))
      (written_batch stored S E b c)" for err
    by (cases err; simp only: written_batch_simps; rule gives_bnd [OF record_write_gives [OF assms(1)]];
        rule gives_ret; simp add: written_batch_simps)
  have run: "gives (holds stored S c) (bnd_run (writeBatchWithRetry E b) (\<lambda>r. case r of
        Val err \<Rightarrow> bnd (record_write E (err = None)) (\<lambda>_. ret err)
      | Panic p \<Rightarrow> bnd (record_write E False) (\<lambda>_. panic p))) (written_batch stored S E b c)"
  proof (rule givesI)
    fix s :: "'b db_writer \<times> 'w" assume "holds stored S c s"
    with writeBatchWithRetry_gives [OF assms(1), of S c b] obtain err s' where
      1: "writeBatchWithRetry E b s = (Val err, s')" "written_batch stored S E b c err s'" by (rule givesE)
    from recorded 1(2) obtain r s'' where
      "bnd (record_write E (err = None)) (\<lambda>_. ret err) s' = (Val r, s'')" "written_batch stored S E b c r s''" by (rule givesE)
    with 1(1) show "\<exists>a s'. bnd_run (writeBatchWithRetry E b) (\<lambda>r. case r of
        Val err \<Rightarrow> bnd (record_write E (err = None)) (\<lambda>_. ret err)
      | Panic p \<Rightarrow> bnd (record_write E False) (\<lambda>_. panic p)) s = (Val a, s') \<and> written_batch stored S E b c a s'"
      by (simp add: bnd_run_def)
  qed
  show ?thesis
    unfolding WriteBatch_def if_not_P [OF assms(2)]
    by (rule gives_bnd [OF holds_field], rule gives_bnd [OF holds_call [OF admit]], clarify,
        rule gives_bnd [OF holds_upd], simp, simp, simp, rule gives_option, rule run, rule gives_ret)
      (simp add: written_batch_def)
qed

interpretation timescale: batch_store "WriteBatch E"
  "\<lambda>s. driver_ok stored pending E \<and> 0 \<le> wg_MaxRetries (dw_config (fst s))" "\<lambda>s. stored (snd s)" "rows_of E"
  for E :: "('w, 'b) writer_env" and stored pending
proof
  fix S b
  show "gives (\<lambda>s. (driver_ok stored pending E \<and> 0 \<le> wg_MaxRetries (dw_config (fst s))) \<and> S \<subseteq># stored (snd s)) (WriteBatch E b)
    (\<lambda>err s. (driver_ok stored pending E \<and> 0 \<le> wg_MaxRetries (dw_config (fst s))) \<and>
      (if err = None then S + rows_of E b else S) \<subseteq># stored (snd s))"
  proof (cases "batch_Size b = 0")
    case True
    then show ?thesis
      by (auto intro!: gives_ret simp: WriteBatch_def rows_of_def batch_Size_def)
  next
    case False
    show ?thesis
    proof (rule givesI)
      fix s :: "'b db_writer \<times> 'w" assume s: "(driver_ok stored pending E \<and> 0 \<le> wg_MaxRetries (dw_config (fst s))) \<and> S \<subseteq># stored (snd s)"
      then have "holds stored S (dw_batchesWritten (fst s), dw_pointsWritten (fst s)) s" by (simp add: holds_def)
      with WriteBatch_gives [OF _ False, of stored pending E] s obtain err s' where
        "WriteBatch E b s = (Val err, s')"
        "written_batch stored S E b (dw_batchesWritten (fst s), dw_pointsWritten (fst s)) err s'"
        by (meson givesE)
      with s show "\<exists>a s'. WriteBatch E b s = (Val a, s') \<and>
          (driver_ok stored pending E \<and> 0 \<le> wg_MaxRetries (dw_config (fst s'))) \<and>
          (if a = None then S + rows_of E b else S) \<subseteq># stored (snd s')"
        by (auto simp: written_batch_def holds_def split: if_splits)
    qed
  qed
qed

section \<open>The claims\<close>


text \<open>
  The delay before a retry doubles from the configured one up to five seconds and is never
  zero or negative, while the product fits in 64 bits: with the default delay of 100 ms that is 37 retries, and
  the 38th gets a negative delay.
\<close>

theorem backoff_doubles_until_it_wraps:
  assumes "0 < wg_RetryDelay c" and "1 \<le> attempt" and "wg_RetryDelay c * 2 ^ nat (attempt - 1) < 2 ^ 63"
  shows "writer_calculateBackoff c attempt = min (wg_RetryDelay c * 2 ^ nat (attempt - 1)) 5000000000 \<and>
    0 < writer_calculateBackoff c attempt \<and> writer_calculateBackoff (c\<lparr>wg_RetryDelay := 100000000\<rparr>) 38 < 0"
proof -
  have "(1 :: int) * 2 ^ nat (attempt - 1) \<le> wg_RetryDelay c * 2 ^ nat (attempt - 1)"
    using assms(1) by (intro mult_right_mono) simp_all
  with assms(3) have two: "(2 :: int) ^ nat (attempt - 1) < 2 ^ 63" by linarith
  then have "nat (attempt - 1) < 63" by (rule power_less_imp_less_exp [rotated]) simp
  with two have "shl64 (attempt - 1) = 2 ^ nat (attempt - 1)"
    using assms(2) by (auto simp: shl64_def intro!: wrap64_id intro: order_trans [OF _ zero_le_power])
  moreover have pos: "0 < wg_RetryDelay c * 2 ^ nat (attempt - 1)" using assms(1) by simp
  ultimately have "writer_calculateBackoff c attempt = min (wg_RetryDelay c * 2 ^ nat (attempt - 1)) 5000000000"
    using assms(3) by (simp add: writer_calculateBackoff_def wrap64_id min_def Let_def)
  moreover have "writer_calculateBackoff (c\<lparr>wg_RetryDelay := 100000000\<rparr>) 38 < 0"
    by (simp add: writer_calculateBackoff_def shl64_def wrap64_def Let_def)
  ultimately show ?thesis using pos by simp
qed

section \<open>Samples\<close>

text \<open>The world is the table and the batch in transit; the first write times out.\<close>

definition sample_writer_env :: "(row multiset \<times> row list \<times> nat, unit) writer_env" where
  "sample_writer_env =
     \<lparr>we_CopyFrom = \<lambda>t rs (m, p, n). if n = 0 then (Some (DriverError ''timeout''), (m, p, 1)) else (None, (m + mset rs, p, n)),
      we_SendBatch = \<lambda>t rs (m, p, n). ((), (m, rs, n)),
      we_Exec = \<lambda>i (m, p, n). (None, (if i < length p then add_mset (p ! i) m else m, p, n)),
      we_CloseResults = \<lambda>w. ((), w), we_wait = \<lambda>d w. (None, w), we_Now = \<lambda>w. (0, w), we_newBreaker = (),
      we_admit = \<lambda>b w. ((None, ()), w), we_record = \<lambda>ok b w. ((), w), we_ParseConfig = \<lambda>dsn. None,
      we_NewPool = \<lambda>w. (None, w), we_Ping = \<lambda>w. (None, w), we_format = \<lambda>t. ''now''\<rparr>"

definition sample_writer :: "unit db_writer" where
  "sample_writer =
     \<lparr>dw_config = writer_defaults \<lparr>wg_Host = ''db'', wg_Port = 5432, wg_Database = ''h'', wg_User = ''u'', wg_Password = ''p'',
        wg_PoolSize = 4, wg_MaxIdleTime = 0, wg_UseCopyProtocol = True, wg_MaxRetries = 0, wg_RetryDelay = 0,
        wg_WriteTimeout = 0, wg_ConnectTimeout = 0\<rparr>,
      dw_breaker = (), dw_batchesWritten = 0, dw_pointsWritten = 0, dw_writeErrors = 0, dw_retriesTotal = 0,
      dw_totalWriteTime = 0\<rparr>"

lemma sample_driver: "driver_ok fst (\<lambda>w. fst (snd w)) sample_writer_env"
  by (auto simp: driver_ok_def sample_writer_env_def coded_def grows_def)

lemma sample_retries: "0 \<le> wg_MaxRetries (dw_config sample_writer)"
  by (simp add: sample_writer_def writer_defaults_def)


theorem backoff_doubles_until_it_wraps_witness:
  "writer_calculateBackoff (dw_config sample_writer) 3 = 400000000"
  using backoff_doubles_until_it_wraps [of "dw_config sample_writer" 3]
  by (simp add: sample_writer_def writer_defaults_def)

end
