(* ===== verification/IngestPipeline.thy ===== *)
theory IngestPipeline
  imports IngestPayload
begin

text \<open>
  The pipeline of the data ingestion service (\<open>service/ingestion.go\<close>, \<open>service/batcher.go\<close>): message
  callbacks that send points into a channel, the accumulator that makes batches of them, the
  writers, and the shutdown, as a step relation whose steps interleave freely. A callback is two
  steps, since the channel can be closed between its check of the flag and its send. A channel is
  the list of what it holds, oldest first; a batch is the list of its points.
\<close>

section \<open>State\<close>

record ingestion_config =
  ic_BufferSize :: int
  ic_BatchSize :: int
  ic_FlushInterval :: int
  ic_WriterCount :: int

text \<open>
  The accumulator: in \<open>select\<close>; in \<open>flush\<close> with a batch that the channel has not taken yet, called
  from its loop or (the flag) from \<open>flushAndClose\<close>; or ended, with \<open>batchChan\<close> closed.
\<close>

datatype accumulator = Collecting | Flushing "ingest_point list" bool | Ended

datatype batch_writer = Waiting | Writing "ingest_point list" | Returned

text \<open>
  The last three fields are not in the code: the points accepted so far, those dropped or discarded,
  and the batches that \<open>WriteBatch\<close> was called with, in order.
\<close>

record pipeline =
  pn_shutdown :: bool
  pn_closed :: bool
  pn_cancelled :: bool
  pn_inflight :: "ingest_point list"
  pn_points :: "ingest_point list"
  pn_current :: "ingest_point list"
  pn_accumulator :: accumulator
  pn_batches :: "ingest_point list list"
  pn_writers :: "batch_writer list"
  pn_pool :: "ingest_point list"
  pn_received :: u64
  pn_dropped :: u64
  pn_parseErrors :: u64
  pn_batched :: u64
  pn_flushed :: u64
  pn_accepted :: "ingest_point list"
  pn_lost :: "ingest_point list"
  pn_handed :: "ingest_point list list"

definition started :: "ingestion_config \<Rightarrow> pipeline" where
  "started C =
     \<lparr>pn_shutdown = False, pn_closed = False, pn_cancelled = False, pn_inflight = [], pn_points = [], pn_current = [],
      pn_accumulator = Collecting, pn_batches = [], pn_writers = replicate (nat (ic_WriterCount C)) Waiting,
      pn_pool = [], pn_received = 0, pn_dropped = 0, pn_parseErrors = 0, pn_batched = 0, pn_flushed = 0,
      pn_accepted = [], pn_lost = [], pn_handed = []\<rparr>"

section \<open>The message callback\<close>

text \<open>\<open>ParseMessage\<close> counts the errors of \<open>ParsePayload\<close>.\<close>

definition begin_message ::
  "(string \<Rightarrow> string + ingest_payload) \<Rightarrow> string \<Rightarrow> string \<Rightarrow> int \<Rightarrow> pipeline \<Rightarrow> pipeline" where
  "begin_message unmarshal topic payload receivedAt s =
     (if pn_shutdown s then s
      else case ParsePayload unmarshal topic payload receivedAt (pn_pool s) of
        (Inl e, pool) \<Rightarrow> s\<lparr>pn_parseErrors := pn_parseErrors s + 1, pn_pool := pool\<rparr>
      | (Inr dp, pool) \<Rightarrow>
          s\<lparr>pn_received := pn_received s + 1, pn_pool := pool, pn_inflight := pn_inflight s @ [dp],
            pn_accepted := pn_accepted s @ [dp]\<rparr>)"

text \<open>
  The send: a closed channel panics, which the callback recovers from, and a full one takes the
  \<open>default\<close>.
\<close>

definition end_message :: "ingestion_config \<Rightarrow> nat \<Rightarrow> pipeline \<Rightarrow> pipeline" where
  "end_message C i s =
     (let dp = pn_inflight s ! i;
          s = s\<lparr>pn_inflight := take i (pn_inflight s) @ drop (Suc i) (pn_inflight s)\<rparr>
      in if pn_closed s then s\<lparr>pn_lost := pn_lost s @ [dp]\<rparr>
         else if int (length (pn_points s)) < ic_BufferSize C then s\<lparr>pn_points := pn_points s @ [dp]\<rparr>
         else s\<lparr>pn_dropped := pn_dropped s + 1, pn_lost := pn_lost s @ [dp]\<rparr>)"

section \<open>The accumulator\<close>

definition begin_flush :: "bool \<Rightarrow> pipeline \<Rightarrow> pipeline" where
  "begin_flush closing s =
     s\<lparr>pn_accumulator := Flushing (pn_current s) closing, pn_current := [], pn_flushed := pn_flushed s + 1\<rparr>"

definition addToBatch :: "ingestion_config \<Rightarrow> pipeline \<Rightarrow> pipeline" where
  "addToBatch C s =
     (case pn_points s of
        [] \<Rightarrow> s
      | dp # rest \<Rightarrow>
          let s = s\<lparr>pn_points := rest, pn_current := pn_current s @ [dp], pn_batched := pn_batched s + 1\<rparr>
          in if ic_BatchSize C \<le> int (length (pn_current s)) then begin_flush False s else s)"

definition flushIfNotEmpty :: "pipeline \<Rightarrow> pipeline" where
  "flushIfNotEmpty s = (if 0 < length (pn_current s) then begin_flush False s else s)"

definition flushAndClose :: "pipeline \<Rightarrow> pipeline" where
  "flushAndClose s = (if 0 < length (pn_current s) then begin_flush True s else s\<lparr>pn_accumulator := Ended\<rparr>)"

definition after_flush :: "bool \<Rightarrow> accumulator" where
  "after_flush closing = (if closing then Ended else Collecting)"

text \<open>\<open>ReleaseBatch\<close> puts the points back; what a batch was is in the list of those handed over.\<close>

definition handed_over :: "ingest_point list \<Rightarrow> pipeline \<Rightarrow> pipeline" where
  "handed_over b s =
     s\<lparr>pn_handed := pn_handed s @ [b],
       pn_pool := fst (ReleaseBatch \<lparr>bt_Points = b, bt_CreatedAt = zero_time\<rparr> (pn_pool s, []))\<rparr>"

definition batch_room :: "ingestion_config \<Rightarrow> pipeline \<Rightarrow> bool" where
  "batch_room C s \<longleftrightarrow> int (length (pn_batches s)) < ic_WriterCount C * 2"

section \<open>Steps\<close>

text \<open>The goroutines' own steps; each is what one of them does between two blocking operations.\<close>

inductive work_step :: "ingestion_config \<Rightarrow> pipeline \<Rightarrow> pipeline \<Rightarrow> bool" for C :: ingestion_config where
  send: "i < length (pn_inflight s) \<Longrightarrow> work_step C s (end_message C i s)"
| receive: "pn_accumulator s = Collecting \<Longrightarrow> pn_points s \<noteq> [] \<Longrightarrow> work_step C s (addToBatch C s)"
| tick: "pn_accumulator s = Collecting \<Longrightarrow> pn_current s \<noteq> [] \<Longrightarrow> work_step C s (flushIfNotEmpty s)"
| closed: "pn_accumulator s = Collecting \<Longrightarrow> pn_points s = [] \<Longrightarrow> pn_closed s \<Longrightarrow> work_step C s (flushAndClose s)"
| queued: "pn_accumulator s = Flushing b closing \<Longrightarrow> batch_room C s \<Longrightarrow>
    work_step C s (s\<lparr>pn_batches := pn_batches s @ [b], pn_accumulator := after_flush closing\<rparr>)"
| direct: "pn_accumulator s = Flushing b closing \<Longrightarrow> pn_cancelled s \<Longrightarrow>
    work_step C s (handed_over b (s\<lparr>pn_accumulator := after_flush closing\<rparr>))"
| taken: "i < length (pn_writers s) \<Longrightarrow> pn_writers s ! i = Waiting \<Longrightarrow> pn_batches s = b # rest \<Longrightarrow>
    work_step C s (s\<lparr>pn_batches := rest, pn_writers := (pn_writers s)[i := Writing b]\<rparr>)"
| wrote: "i < length (pn_writers s) \<Longrightarrow> pn_writers s ! i = Writing b \<Longrightarrow>
    work_step C s (handed_over b (s\<lparr>pn_writers := (pn_writers s)[i := Waiting]\<rparr>))"
| returned: "i < length (pn_writers s) \<Longrightarrow> pn_writers s ! i = Waiting \<Longrightarrow> pn_batches s = [] \<Longrightarrow>
    pn_accumulator s = Ended \<Longrightarrow> work_step C s (s\<lparr>pn_writers := (pn_writers s)[i := Returned]\<rparr>)"

text \<open>A message arrives; \<open>Stop\<close> sets the flag and then closes the channel, once; the context ends.\<close>

inductive pipeline_step ::
  "(string \<Rightarrow> string + ingest_payload) \<Rightarrow> ingestion_config \<Rightarrow> pipeline \<Rightarrow> pipeline \<Rightarrow> bool"
  for U :: "string \<Rightarrow> string + ingest_payload" and C :: ingestion_config where
  message: "pipeline_step U C s (begin_message U topic payload receivedAt s)"
| working: "work_step C s s' \<Longrightarrow> pipeline_step U C s s'"
| shutdown: "pipeline_step U C s (s\<lparr>pn_shutdown := True\<rparr>)"
| close: "pn_shutdown s \<Longrightarrow> \<not> pn_closed s \<Longrightarrow> pipeline_step U C s (s\<lparr>pn_closed := True\<rparr>)"
| cancel: "pipeline_step U C s (s\<lparr>pn_cancelled := True\<rparr>)"

inductive pipeline_reach ::
  "(string \<Rightarrow> string + ingest_payload) \<Rightarrow> ingestion_config \<Rightarrow> pipeline \<Rightarrow> bool"
  for U :: "string \<Rightarrow> string + ingest_payload" and C :: ingestion_config where
  start: "pipeline_reach U C (started C)"
| step: "pipeline_reach U C s \<Longrightarrow> pipeline_step U C s s' \<Longrightarrow> pipeline_reach U C s'"

section \<open>Nothing is lost or duplicated\<close>

definition pending :: "accumulator \<Rightarrow> ingest_point list" where
  "pending a = (case a of Flushing b closing \<Rightarrow> b | _ \<Rightarrow> [])"

definition being_written :: "batch_writer \<Rightarrow> ingest_point list" where
  "being_written x = (case x of Writing b \<Rightarrow> b | _ \<Rightarrow> [])"

text \<open>Where an accepted point can be.\<close>

definition everywhere :: "pipeline \<Rightarrow> ingest_point multiset" where
  "everywhere s =
     mset (pn_inflight s) + mset (pn_lost s) + mset (pn_points s) + mset (pn_current s) +
     mset (pending (pn_accumulator s)) + mset (concat (pn_batches s)) +
     mset (concat (map being_written (pn_writers s))) + mset (concat (pn_handed s))"

definition batch_ok :: "ingestion_config \<Rightarrow> ingest_point list \<Rightarrow> bool" where
  "batch_ok C b \<longleftrightarrow> b \<noteq> [] \<and> int (length b) \<le> max 1 (ic_BatchSize C)"

definition pipeline_inv :: "ingestion_config \<Rightarrow> pipeline \<Rightarrow> bool" where
  "pipeline_inv C s \<longleftrightarrow>
     mset (pn_accepted s) = everywhere s \<and> pn_received s = of_nat (length (pn_accepted s)) \<and>
     (\<forall>dp\<in>set (pn_accepted s). \<exists>topic t. well_formed topic t dp) \<and> clean (pn_pool s) \<and>
     int (length (pn_points s)) \<le> max 0 (ic_BufferSize C) \<and> int (length (pn_batches s)) \<le> max 0 (ic_WriterCount C * 2) \<and>
     (pn_current s \<noteq> [] \<longrightarrow> int (length (pn_current s)) < ic_BatchSize C) \<and>
     (case pn_accumulator s of Flushing b closing \<Rightarrow> batch_ok C b | _ \<Rightarrow> True) \<and>
     (\<forall>b\<in>set (pn_batches s). batch_ok C b) \<and>
     (\<forall>x\<in>set (pn_writers s). case x of Writing b \<Rightarrow> batch_ok C b | _ \<Rightarrow> True) \<and>
     (\<forall>b\<in>set (pn_handed s). batch_ok C b)"

lemma pipeline_inv_started: "pipeline_inv C (started C)"
  by (simp add: pipeline_inv_def started_def everywhere_def pending_def clean_def being_written_def)

text \<open>One writer changes: its batch leaves the multiset of those being written, the new one joins.\<close>

lemma writers_update:
  assumes "i < length ws"
  shows "mset (concat (map being_written (ws[i := x]))) + mset (being_written (ws ! i)) =
    mset (concat (map being_written ws)) + mset (being_written x)"
  using assms
proof (induction ws arbitrary: i)
  case (Cons w ws)
  then show ?case by (cases i) (auto simp: algebra_simps)
qed simp

lemma begin_message_inv:
  assumes "pipeline_inv C s"
  shows "pipeline_inv C (begin_message U topic payload t s)"
proof (cases "pn_shutdown s")
  case False
  obtain r pool where r: "ParsePayload U topic payload t (pn_pool s) = (r, pool)" by fastforce
  have "clean (pn_pool s)" using assms by (simp add: pipeline_inv_def)
  with ParsePayload_clean [OF this, of U topic payload t] r have "clean pool" by simp
  moreover have "well_formed topic t dp" if "r = Inr dp" for dp
    using parsed_ok [OF \<open>clean (pn_pool s)\<close>] r that by simp
  ultimately show ?thesis
    using assms False r
    by (cases r) (auto simp: begin_message_def pipeline_inv_def everywhere_def)
qed (simp add: begin_message_def assms)

lemma end_message_inv:
  assumes "pipeline_inv C s" and "i < length (pn_inflight s)"
  shows "pipeline_inv C (end_message C i s)"
proof -
  have "mset (pn_inflight s) = add_mset (pn_inflight s ! i) (mset (take i (pn_inflight s) @ drop (Suc i) (pn_inflight s)))"
    using assms(2) by (metis id_take_nth_drop mset_append mset.simps(2) union_mset_add_mset_right)
  then show ?thesis
    using assms(1) by (auto simp: end_message_def pipeline_inv_def everywhere_def Let_def)
qed

lemma begin_flush_inv:
  assumes "pipeline_inv C s" and "pn_current s \<noteq> []" and "pn_accumulator s = Collecting"
  shows "pipeline_inv C (begin_flush closing s)"
  using assms by (auto simp: begin_flush_def pipeline_inv_def everywhere_def pending_def batch_ok_def)

lemma addToBatch_inv:
  assumes "pipeline_inv C s" and "pn_accumulator s = Collecting"
  shows "pipeline_inv C (addToBatch C s)"
proof (cases "pn_points s")
  case (Cons dp rest)
  have "int (length (pn_current s)) + 1 \<le> max 1 (ic_BatchSize C)"
    using assms(1) by (cases "pn_current s = []") (auto simp: pipeline_inv_def)
  with assms Cons show ?thesis
    by (auto simp: addToBatch_def begin_flush_def pipeline_inv_def everywhere_def pending_def batch_ok_def Let_def)
qed (simp add: addToBatch_def assms)

lemma work_step_inv:
  assumes "work_step C s s'" and "pipeline_inv C s"
  shows "pipeline_inv C s'"
  using assms
proof (cases rule: work_step.cases)
  case (send i)
  with assms(2) show ?thesis by (simp add: end_message_inv)
next
  case receive
  with assms(2) show ?thesis by (simp add: addToBatch_inv)
next
  case tick
  with assms(2) show ?thesis by (simp add: flushIfNotEmpty_def begin_flush_inv)
next
  case closed
  show ?thesis
  proof (cases "pn_current s = []")
    case True
    with assms(2) closed show ?thesis
      by (auto simp: flushAndClose_def pipeline_inv_def everywhere_def pending_def)
  next
    case False
    with assms(2) closed show ?thesis by (simp add: flushAndClose_def begin_flush_inv)
  qed
next
  case (queued b closing)
  with assms(2) show ?thesis
    by (auto simp: pipeline_inv_def everywhere_def pending_def batch_room_def after_flush_def)
next
  case (direct b closing)
  with assms(2) show ?thesis
    by (auto simp: handed_over_def ReleaseBatch_clean pipeline_inv_def everywhere_def pending_def after_flush_def)
next
  case (taken i b rest)
  with assms(2) writers_update [OF taken(2), of "Writing b"] show ?thesis
    by (auto simp: pipeline_inv_def everywhere_def being_written_def dest!: set_mp [OF set_update_subset_insert])
next
  case (wrote i b)
  moreover from wrote have "Writing b \<in> set (pn_writers s)" by (metis nth_mem)
  ultimately show ?thesis
    using assms(2) writers_update [OF wrote(2), of Waiting]
    by (auto simp: handed_over_def ReleaseBatch_clean pipeline_inv_def everywhere_def being_written_def
        dest!: set_mp [OF set_update_subset_insert])
next
  case (returned i)
  with assms(2) writers_update [OF returned(2), of Returned] show ?thesis
    by (auto simp: pipeline_inv_def everywhere_def being_written_def dest!: set_mp [OF set_update_subset_insert])
qed

lemma pipeline_inv_flags:
  "pipeline_inv C (s\<lparr>pn_shutdown := b\<rparr>) = pipeline_inv C s" "pipeline_inv C (s\<lparr>pn_closed := b\<rparr>) = pipeline_inv C s"
  "pipeline_inv C (s\<lparr>pn_cancelled := b\<rparr>) = pipeline_inv C s"
  by (simp_all add: pipeline_inv_def everywhere_def cong: accumulator.case_cong)

lemma pipeline_step_inv:
  assumes "pipeline_step U C s s'" and "pipeline_inv C s"
  shows "pipeline_inv C s'"
  using assms
proof (cases rule: pipeline_step.cases)
  case (working)
  with assms(2) show ?thesis by (simp add: work_step_inv)
qed (simp_all add: begin_message_inv pipeline_inv_flags)

lemma pipeline_reach_inv: "pipeline_reach U C s \<Longrightarrow> pipeline_inv C s"
  by (induction rule: pipeline_reach.induct) (simp_all add: pipeline_inv_started pipeline_step_inv)

section \<open>Shutdown\<close>

text \<open>The work left: each own step of a goroutine makes it smaller, whatever the order.\<close>

definition accumulator_work :: "accumulator \<Rightarrow> nat" where
  "accumulator_work a = (case a of Collecting \<Rightarrow> 1 | Flushing b closing \<Rightarrow> 4 | Ended \<Rightarrow> 0)"

definition writer_work :: "batch_writer \<Rightarrow> nat" where
  "writer_work x = (case x of Waiting \<Rightarrow> 1 | Writing b \<Rightarrow> 2 | Returned \<Rightarrow> 0)"

definition work_left :: "pipeline \<Rightarrow> nat" where
  "work_left s =
     6 * length (pn_inflight s) + 5 * length (pn_points s) + 4 * length (pn_current s) +
     accumulator_work (pn_accumulator s) + 2 * length (pn_batches s) + sum_list (map writer_work (pn_writers s))"

lemma writer_work_update:
  "i < length ws \<Longrightarrow> sum_list (map writer_work (ws[i := x])) + writer_work (ws ! i) =
     sum_list (map writer_work ws) + writer_work x"
proof (induction ws arbitrary: i)
  case (Cons w ws)
  then show ?case by (cases i) auto
qed simp

lemma work_step_less:
  assumes "work_step C s s'"
  shows "work_left s' < work_left s"
  using assms
proof (cases rule: work_step.cases)
  case (send i)
  then show ?thesis by (auto simp: work_left_def end_message_def Let_def)
next
  case receive
  then show ?thesis
    by (auto simp: work_left_def addToBatch_def begin_flush_def accumulator_work_def Let_def neq_Nil_conv)
next
  case tick
  then show ?thesis
    by (auto simp: work_left_def flushIfNotEmpty_def begin_flush_def accumulator_work_def neq_Nil_conv)
next
  case closed
  then show ?thesis
    by (cases "pn_current s") (auto simp: work_left_def flushAndClose_def begin_flush_def accumulator_work_def)
next
  case (taken i b rest)
  with writer_work_update [OF taken(2), of "Writing b"] show ?thesis
    by (simp add: work_left_def writer_work_def)
next
  case (wrote i b)
  with writer_work_update [OF wrote(2), of Waiting] show ?thesis
    by (simp add: work_left_def writer_work_def handed_over_def)
next
  case (returned i)
  with writer_work_update [OF returned(2), of Returned] show ?thesis
    by (simp add: work_left_def writer_work_def)
qed (auto simp: work_left_def accumulator_work_def after_flush_def handed_over_def)

text \<open>A writer returns only after the accumulator has ended and left no batch behind.\<close>

definition writers_wait :: "pipeline \<Rightarrow> bool" where
  "writers_wait s \<longleftrightarrow> (Returned \<in> set (pn_writers s) \<longrightarrow> pn_accumulator s = Ended \<and> pn_batches s = [])"

lemma writers_wait_work:
  assumes "work_step C s s'" and "writers_wait s"
  shows "writers_wait s' \<and> length (pn_writers s') = length (pn_writers s)"
  using assms
proof (cases rule: work_step.cases)
  case (taken i b rest)
  with assms(2) show ?thesis by (auto simp: writers_wait_def dest!: set_mp [OF set_update_subset_insert])
next
  case (wrote i b)
  with assms(2) show ?thesis
    by (auto simp: writers_wait_def handed_over_def dest!: set_mp [OF set_update_subset_insert])
qed (auto simp: writers_wait_def end_message_def addToBatch_def begin_flush_def flushIfNotEmpty_def flushAndClose_def
    handed_over_def Let_def split: list.splits)

lemma writers_wait_reach:
  assumes "pipeline_reach U C s"
  shows "writers_wait s \<and> length (pn_writers s) = nat (ic_WriterCount C)"
  using assms
proof (induction rule: pipeline_reach.induct)
  case (step s s')
  from step.hyps(2) step.IH show ?case
  proof (cases rule: pipeline_step.cases)
    case working
    with writers_wait_work [OF this] step.IH show ?thesis by simp
  qed (auto simp: writers_wait_def begin_message_def split: sum.splits prod.splits)
qed (simp add: writers_wait_def started_def)

definition drained :: "pipeline \<Rightarrow> bool" where
  "drained s \<longleftrightarrow> pn_inflight s = [] \<and> pn_points s = [] \<and> pn_current s = [] \<and> pn_accumulator s = Ended \<and>
     pn_batches s = [] \<and> list_all (\<lambda>x. x = Returned) (pn_writers s)"

text \<open>Until everything is drained some goroutine can take a step.\<close>

lemma some_step:
  assumes "writers_wait s" and "pn_closed s" and "0 < ic_WriterCount C" and "pn_writers s \<noteq> []"
    and "pn_accumulator s \<noteq> Collecting \<longrightarrow> pn_current s = []" and "pn_accumulator s = Ended \<longrightarrow> pn_points s = []"
    and "\<not> drained s"
  shows "\<exists>s'. work_step C s s'"
proof (cases "pn_inflight s = []")
  case False
  then show ?thesis by (auto intro: work_step.send [of 0])
next
  case nobody: True
  have busy: "\<exists>s'. work_step C s s'" if "i < length (pn_writers s)" "pn_writers s ! i \<noteq> Returned"
    and "pn_batches s \<noteq> [] \<or> pn_accumulator s = Ended" for i
  proof (cases "pn_writers s ! i")
    case (Writing b)
    with that(1) show ?thesis by (auto intro: work_step.wrote)
  next
    case Waiting
    with that show ?thesis by (cases "pn_batches s") (auto intro: work_step.taken work_step.returned)
  qed (use that in simp)
  show ?thesis
  proof (cases "pn_accumulator s")
    case Collecting
    then show ?thesis using assms(2) by (cases "pn_points s = []") (auto intro: work_step.receive work_step.closed)
  next
    case (Flushing b closing)
    show ?thesis
    proof (cases "batch_room C s")
      case True
      with Flushing show ?thesis by (auto intro: work_step.queued)
    next
      case False
      with assms(3) have "pn_batches s \<noteq> []" by (auto simp: batch_room_def)
      moreover have "pn_writers s ! 0 \<noteq> Returned"
        using assms(1,4) Flushing by (metis accumulator.distinct(5) length_greater_0_conv nth_mem writers_wait_def)
      ultimately show ?thesis using busy [of 0] assms(4) by simp
    qed
  next
    case Ended
    show ?thesis
    proof (cases "list_all (\<lambda>x. x = Returned) (pn_writers s)")
      case True
      then have "Returned \<in> set (pn_writers s)" using assms(4) by (cases "pn_writers s") auto
      with assms(1) have "pn_batches s = []" by (simp add: writers_wait_def)
      with True Ended nobody assms(5,6,7) show ?thesis by (simp add: drained_def)
    next
      case False
      then obtain x where "x \<in> set (pn_writers s)" "x \<noteq> Returned" by (auto simp: list_all_iff)
      then obtain i where "i < length (pn_writers s)" "pn_writers s ! i \<noteq> Returned" by (metis in_set_conv_nth)
      with busy Ended show ?thesis by simp
    qed
  qed
qed

text \<open>Outside \<open>select\<close> the current batch is empty; the accumulator ends only on a closed, empty channel.\<close>

definition closing_ok :: "pipeline \<Rightarrow> bool" where
  "closing_ok s \<longleftrightarrow>
     (case pn_accumulator s of
        Collecting \<Rightarrow> True
      | Flushing b closing \<Rightarrow> pn_current s = [] \<and> (closing \<longrightarrow> pn_closed s \<and> pn_points s = [])
      | Ended \<Rightarrow> pn_current s = [] \<and> pn_closed s \<and> pn_points s = [])"

lemma closing_ok_work:
  assumes "work_step C s s'" and "closing_ok s"
  shows "closing_ok s' \<and> pn_closed s' = pn_closed s \<and> pn_shutdown s' = pn_shutdown s"
  using assms
proof (cases rule: work_step.cases)
  case (send i)
  with assms(2) show ?thesis by (cases "pn_accumulator s") (auto simp: closing_ok_def end_message_def Let_def)
next
  case receive
  with assms(2) show ?thesis by (auto simp: closing_ok_def addToBatch_def begin_flush_def Let_def split: list.splits)
next
  case tick
  with assms(2) show ?thesis by (auto simp: closing_ok_def flushIfNotEmpty_def begin_flush_def)
next
  case closed
  with assms(2) show ?thesis by (auto simp: closing_ok_def flushAndClose_def begin_flush_def)
next
  case (queued b closing)
  with assms(2) show ?thesis by (auto simp: closing_ok_def after_flush_def)
next
  case (direct b closing)
  with assms(2) show ?thesis by (auto simp: closing_ok_def after_flush_def handed_over_def)
qed (auto simp: closing_ok_def handed_over_def split: accumulator.splits)

lemma closing_ok_reach:
  assumes "pipeline_reach U C s"
  shows "closing_ok s"
  using assms
proof (induction rule: pipeline_reach.induct)
  case (step s s')
  from step.hyps(2) step.IH show ?case
  proof (cases rule: pipeline_step.cases)
    case working
    with closing_ok_work [OF this] step.IH show ?thesis by simp
  qed (auto simp: closing_ok_def begin_message_def split: sum.splits prod.splits accumulator.splits)
qed (simp add: closing_ok_def started_def)

lemma drains:
  assumes "pipeline_inv C s" and "closing_ok s" and "writers_wait s" and "pn_closed s" and "0 < ic_WriterCount C"
    and "pn_writers s \<noteq> []"
  shows "\<exists>s'. (work_step C)\<^sup>*\<^sup>* s s' \<and> drained s' \<and> pipeline_inv C s' \<and> pn_accepted s' = pn_accepted s"
  using assms
proof (induction "work_left s" arbitrary: s rule: less_induct)
  case less
  show ?case
  proof (cases "drained s")
    case True
    with less.prems show ?thesis by blast
  next
    case False
    with less.prems have "\<exists>s'. work_step C s s'"
      by (intro some_step) (auto simp: closing_ok_def split: accumulator.splits)
    then obtain s' where s': "work_step C s s'" ..
    have accepted: "pn_accepted s' = pn_accepted s"
      using s' by (cases rule: work_step.cases)
        (auto simp: end_message_def addToBatch_def begin_flush_def flushIfNotEmpty_def flushAndClose_def handed_over_def
          Let_def split: list.splits)
    have "pn_writers s' \<noteq> []"
      using writers_wait_work [OF s' less.prems(3)] less.prems(6) by (metis length_0_conv)
    with less.hyps [OF work_step_less [OF s'] work_step_inv [OF s' less.prems(1)]] less.prems
      closing_ok_work [OF s' less.prems(2)] writers_wait_work [OF s' less.prems(3)]
    obtain t where t: "(work_step C)\<^sup>*\<^sup>* s' t" "drained t" "pipeline_inv C t" "pn_accepted t = pn_accepted s'" by auto
    have "(work_step C)\<^sup>*\<^sup>* s t" using s' t(1) by (rule converse_rtranclp_into_rtranclp)
    with t accepted show ?thesis by auto
  qed
qed

lemma drained_balance:
  assumes "pipeline_inv C s" and "drained s"
  shows "mset (pn_accepted s) = mset (pn_lost s) + mset (concat (pn_handed s))"
proof -
  have "concat (map being_written (pn_writers s)) = []"
    using assms(2) by (auto simp: drained_def being_written_def list_all_iff)
  with assms show ?thesis by (simp add: pipeline_inv_def everywhere_def drained_def pending_def)
qed

section \<open>The claims\<close>

text \<open>
  C21. No point is lost or duplicated between the callback and the writer: in every reachable state, under any
  interleaving, the points accepted are, with their multiplicity, those in flight, dropped or
  discarded, in the channel, in the current batch, in the batch being flushed, in the batch
  channel, being written, or handed to the writer; every one is well formed; the channels are
  within their capacity; and every batch handed over is not empty and at most one batch size long.
\<close>

theorem pipeline_conserves_points:
  assumes "pipeline_reach U C s"
  shows "mset (pn_accepted s) =
      mset (pn_inflight s) + mset (pn_lost s) + mset (pn_points s) + mset (pn_current s) +
      mset (case pn_accumulator s of Flushing b closing \<Rightarrow> b | _ \<Rightarrow> []) + mset (concat (pn_batches s)) +
      mset (concat (map being_written (pn_writers s))) + mset (concat (pn_handed s)) \<and>
    pn_received s = of_nat (length (pn_accepted s)) \<and>
    list_all (\<lambda>dp. \<exists>topic t. well_formed topic t dp) (pn_accepted s) \<and>
    int (length (pn_points s)) \<le> max 0 (ic_BufferSize C) \<and> int (length (pn_batches s)) \<le> max 0 (ic_WriterCount C * 2) \<and>
    list_all (\<lambda>b. b \<noteq> [] \<and> int (length b) \<le> max 1 (ic_BatchSize C)) (pn_handed s)"
  using pipeline_reach_inv [OF assms]
  by (simp add: pipeline_inv_def everywhere_def pending_def batch_ok_def list_all_iff)

text \<open>
  C22. Shutdown drains the pipeline: from every reachable state in which \<open>Stop\<close> has closed the
  channel, the goroutines' own steps lead to a state with nothing left, in which every accepted
  point was handed to the writer or had been dropped or discarded; and no schedule of these steps goes on for ever,
  since each makes the work left smaller.
\<close>

theorem shutdown_drains:
  assumes "pipeline_reach U C s" and "pn_closed s" and "0 < ic_WriterCount C"
  shows "(\<exists>s'. (work_step C)\<^sup>*\<^sup>* s s' \<and> drained s' \<and> pn_accepted s' = pn_accepted s \<and>
      mset (pn_accepted s) = mset (pn_lost s') + mset (concat (pn_handed s'))) \<and>
    (\<nexists>run. run 0 = s \<and> (\<forall>k. work_step C (run k) (run (Suc k))))"
proof
  have wait: "writers_wait s" "length (pn_writers s) = nat (ic_WriterCount C)"
    using writers_wait_reach [OF assms(1)] by simp_all
  then have "pn_writers s \<noteq> []" using assms(3) by auto
  with drains [OF pipeline_reach_inv [OF assms(1)] closing_ok_reach [OF assms(1)] wait(1) assms(2,3)] obtain s' where
    s': "(work_step C)\<^sup>*\<^sup>* s s'" "drained s'" "pipeline_inv C s'" "pn_accepted s' = pn_accepted s" by blast
  then have "mset (pn_accepted s) = mset (pn_lost s') + mset (concat (pn_handed s'))"
    using drained_balance [OF s'(3,2)] by simp
  with s' show "\<exists>s'. (work_step C)\<^sup>*\<^sup>* s s' \<and> drained s' \<and> pn_accepted s' = pn_accepted s \<and>
      mset (pn_accepted s) = mset (pn_lost s') + mset (concat (pn_handed s'))" by blast
  show "\<nexists>run. run 0 = s \<and> (\<forall>k. work_step C (run k) (run (Suc k)))"
  proof
    assume "\<exists>run. run 0 = s \<and> (\<forall>k. work_step C (run k) (run (Suc k)))"
    then obtain run where "\<forall>k. (run (Suc k), run k) \<in> {(t', t). work_step C t t'}" by auto
    moreover have "wf {(t', t). work_step C t t'}"
      by (rule wf_subset [OF wf_measure [of work_left]]) (auto intro: work_step_less)
    ultimately show False by (auto simp: wf_iff_no_infinite_down_chain)
  qed
qed

section \<open>Samples\<close>

definition sample_ingestion :: ingestion_config where
  "sample_ingestion = \<lparr>ic_BufferSize = 10, ic_BatchSize = 2, ic_FlushInterval = 250000000, ic_WriterCount = 1\<rparr>"

definition sample_decoder :: "string \<Rightarrow> string + ingest_payload" where
  "sample_decoder p = Inr (wire (\<lambda>x. 0) (ToMQTTPayload sample_arrival))"

text \<open>One message has been sent into the channel; then \<open>Stop\<close> closes it.\<close>

definition one_message :: pipeline where
  "one_message = end_message sample_ingestion 0
     (begin_message sample_decoder ''plant/temp'' ''x'' 1700000001000000000 (started sample_ingestion))"

definition one_message_closed :: pipeline where
  "one_message_closed = one_message\<lparr>pn_shutdown := True, pn_closed := True\<rparr>"

lemma sample_inflight:
  "length (pn_inflight (begin_message sample_decoder ''plant/temp'' ''x'' 1700000001000000000 (started sample_ingestion))) = 1"
proof -
  have "clean []" by (simp add: clean_def)
  moreover have "sample_decoder ''x'' = Inr (wire (\<lambda>x. 0) (ToMQTTPayload sample_arrival))" by (simp add: sample_decoder_def)
  moreover have "\<exists>dp. parsed ''plant/temp'' 1700000001000000000 (wire (\<lambda>x. 0) (ToMQTTPayload sample_arrival)) = Inr dp"
    by (simp add: parsed_def wire_def ToMQTTPayload_def sample_arrival_def NewDataPoint_def json_of_def toFloat64_def
        parsed_value_def parsed_time_def UnixMilli_def MaxAge_def MaxTimestampSkew_def)
  ultimately obtain dp pool where "ParsePayload sample_decoder ''plant/temp'' ''x'' 1700000001000000000 [] = (Inr dp, pool)"
    using ParsePayload_parsed [of "[]" "''x''" "''plant/temp''" sample_decoder _ 1700000001000000000]
    by (auto simp: MaxPayloadSize_def MaxTopicLength_def) metis
  then show ?thesis by (simp add: begin_message_def started_def)
qed

lemma sample_reach: "pipeline_reach sample_decoder sample_ingestion one_message"
  "pipeline_reach sample_decoder sample_ingestion one_message_closed"
proof -
  let ?b = "begin_message sample_decoder ''plant/temp'' ''x'' 1700000001000000000 (started sample_ingestion)"
  have "pipeline_reach sample_decoder sample_ingestion ?b"
    by (rule pipeline_reach.step [OF pipeline_reach.start pipeline_step.message])
  moreover have "pipeline_step sample_decoder sample_ingestion ?b one_message"
    unfolding one_message_def
    by (rule pipeline_step.working, rule work_step.send) (simp add: sample_inflight)
  ultimately show one: "pipeline_reach sample_decoder sample_ingestion one_message" by (rule pipeline_reach.step)
  have "\<not> pn_closed one_message"
    by (simp add: one_message_def end_message_def begin_message_def started_def Let_def split: sum.split prod.split)
  then have "pipeline_step sample_decoder sample_ingestion (one_message\<lparr>pn_shutdown := True\<rparr>) one_message_closed"
    unfolding one_message_closed_def
    using pipeline_step.close [of "one_message\<lparr>pn_shutdown := True\<rparr>" sample_decoder sample_ingestion] by simp
  with pipeline_reach.step [OF one pipeline_step.shutdown]
  show "pipeline_reach sample_decoder sample_ingestion one_message_closed" by (rule pipeline_reach.step)
qed

theorem pipeline_conserves_points_witness:
  "pn_received one_message = of_nat (length (pn_accepted one_message)) \<and>
   list_all (\<lambda>b. b \<noteq> [] \<and> int (length b) \<le> max 1 (ic_BatchSize sample_ingestion)) (pn_handed one_message)"
  using pipeline_conserves_points [OF sample_reach(1)] by blast

theorem shutdown_drains_witness:
  "\<exists>s'. (work_step sample_ingestion)\<^sup>*\<^sup>* one_message_closed s' \<and> drained s' \<and>
     mset (pn_accepted one_message_closed) = mset (pn_lost s') + mset (concat (pn_handed s'))"
proof -
  have "pn_closed one_message_closed" by (simp add: one_message_closed_def)
  moreover have "0 < ic_WriterCount sample_ingestion" by (simp add: sample_ingestion_def)
  ultimately show ?thesis using shutdown_drains [OF sample_reach(2)] by blast
qed

end
