(* ===== verification/Ingestion.thy ===== *)
theory Ingestion
  imports IngestPipeline IngestWriterProps
begin

text \<open>
  The data ingestion service as a whole: what the pipeline hands over, in the order it does, through
  the writer's port. The two sides are proved apart; the link is the list of batches.
\<close>

definition batch_of :: "ingest_point list \<Rightarrow> point_batch" where
  "batch_of b = \<lparr>bt_Points = b, bt_CreatedAt = zero_time\<rparr>"

lemma rows_of_batches:
  "(\<Sum>b\<leftarrow>bs. rows_of E (batch_of b)) = mset (map (row_of (we_format E)) (concat bs))"
  by (induction bs) (simp_all add: rows_of_def batch_of_def)



end
