(* ===== verification/GoDigits.thy ===== *)
theory GoDigits
  imports GoStrings
begin

text \<open>
  Decimal digits: the value of a digit string, what \<open>strconv.Atoi\<close> makes of it, and a number that was
  written being read back. The symbolic addresses and the durations are parsed over them.
\<close>

definition is_digit :: "char \<Rightarrow> bool" where
  "is_digit c = (let n = of_char c :: int in 48 \<le> n \<and> n \<le> 57)"

definition digit_value :: "char \<Rightarrow> int" where
  "digit_value c = of_char c - 48"

definition digits_value :: "string \<Rightarrow> int" where
  "digits_value s = foldl (\<lambda>acc c. acc * 10 + digit_value c) 0 s"

text \<open>\<open>strconv.Atoi\<close> of digits, its range error ignored: it then gives the largest \<open>int\<close>.\<close>

definition Atoi :: "string \<Rightarrow> int" where
  "Atoi s = min (2 ^ 63 - 1) (digits_value s)"

definition take_digits :: "string \<Rightarrow> (string \<times> string) option" where
  "take_digits s = (if takeWhile is_digit s = [] then None else Some (takeWhile is_digit s, dropWhile is_digit s))"

lemma digits_value_snoc: "digits_value (s @ [c]) = digits_value s * 10 + digit_value c"
  by (simp add: digits_value_def)

lemma digit_char: "0 \<le> n \<Longrightarrow> n < 10 \<Longrightarrow> is_digit (char_of (48 + n)) \<and> digit_value (char_of (48 + n)) = n" for n :: int
  by (simp add: is_digit_def digit_value_def)

lemma dec_digits_ok:
  "0 \<le> n \<Longrightarrow> n < 10 ^ k \<Longrightarrow> list_all is_digit (dec_digits k n) \<and> digits_value (dec_digits k n) = n \<and>
     (k = 0 \<or> dec_digits k n \<noteq> [])"
proof (induction k arbitrary: n)
  case 0
  then show ?case by (simp add: digits_value_def)
next
  case (Suc k)
  show ?case
  proof (cases "n < 10")
    case True
    with Suc.prems digit_char [of n] show ?thesis by (simp add: digits_value_def)
  next
    case False
    have "n div 10 < 10 ^ k" using Suc.prems by simp
    with Suc.IH [of "n div 10"] Suc.prems(1) have
      "list_all is_digit (dec_digits k (n div 10))" "digits_value (dec_digits k (n div 10)) = n div 10" by simp_all
    moreover have "is_digit (char_of (48 + n mod 10))" "digit_value (char_of (48 + n mod 10)) = n mod 10"
      using digit_char [of "n mod 10"] by simp_all
    ultimately show ?thesis using False by (simp add: digits_value_snoc)
  qed
qed

text \<open>What is read back from a number that was written, with a rest that does not go on with a digit.\<close>

lemma take_digits_dec:
  assumes "0 \<le> n" and "n < 2 ^ 63" and "r = [] \<or> \<not> is_digit (hd r)"
  shows "take_digits (dec n @ r) = Some (dec n, r)" and "Atoi (dec n) = n"
proof -
  have "n < 10 ^ 20" using assms(2) by simp
  with dec_digits_ok [of n 20] assms(1) have d: "list_all is_digit (dec n)" "digits_value (dec n) = n" "dec n \<noteq> []"
    by (simp_all add: dec_def)
  then show "Atoi (dec n) = n" using assms(2) by (simp add: Atoi_def)
  have "takeWhile is_digit (dec n @ r) = dec n" "dropWhile is_digit (dec n @ r) = r"
    using d(1) assms(3) by (cases r; simp add: list_all_iff takeWhile_append2 dropWhile_append2)+
  with d(3) show "take_digits (dec n @ r) = Some (dec n, r)" by (simp add: take_digits_def)
qed

end
