(* ===== verification/S7Address.thy ===== *)
theory S7Address
  imports Device GoDigits
begin

text \<open>
  Symbolic addresses of Siemens S7 tags (\<open>adapter/s7/client.go\<close>, \<open>parseTagAddress\<close> and
  \<open>parseSymbolicAddress\<close>). Each regular expression of the code is a function that takes the text
  apart from the left: a \<open>\d+\<close> takes every digit there is, since what follows it is never a digit.
\<close>

section \<open>Text\<close>

text \<open>
  \<open>strings.ToUpper\<close> on ASCII letters and on the one other rune, the dotless i (bytes C4 B1), whose
  upper case is a letter of some address; other letters beyond ASCII stay as they are, which shows
  only in the text of an error.
\<close>

fun ToUpper :: "string \<Rightarrow> string" where
  "ToUpper [] = []"
| "ToUpper [c] = [let n = of_char c :: int in if 97 \<le> n \<and> n \<le> 122 then char_of (n - 32) else c]"
| "ToUpper (c # d # s) =
     (let n = of_char c :: int
      in if n = 0xC4 \<and> (of_char d :: int) = 0xB1 then CHR ''I'' # ToUpper s
         else (if 97 \<le> n \<and> n \<le> 122 then char_of (n - 32) else c) # ToUpper (d # s))"

definition strip :: "string \<Rightarrow> string \<Rightarrow> string option" where
  "strip p s = (if take (length p) s = p then Some (drop (length p) s) else None)"

section \<open>The patterns\<close>

text \<open>\<open>(\d+)(?:\.(\d))?$\<close>: the offset, and the bit where there is one.\<close>

definition match_offset :: "string \<Rightarrow> (int \<times> int option) option" where
  "match_offset s =
     (case take_digits s of
        None \<Rightarrow> None
      | Some (ds, r) \<Rightarrow>
          (case r of
             [] \<Rightarrow> Some (Atoi ds, None)
           | [c, d] \<Rightarrow> if c = CHR ''.'' \<and> is_digit d then Some (Atoi ds, Some (Atoi [d])) else None
           | _ \<Rightarrow> None))"

text \<open>\<open>^DB(\d+)\.DB([XBWD])(\d+)(?:\.(\d))?$\<close>\<close>

definition match_db :: "string \<Rightarrow> (int \<times> int \<times> int option) option" where
  "match_db s =
     (case strip ''DB'' s of
        None \<Rightarrow> None
      | Some r \<Rightarrow>
          (case take_digits r of
             None \<Rightarrow> None
           | Some (ds, r) \<Rightarrow>
               (case strip ''.DB'' r of
                  None \<Rightarrow> None
                | Some r \<Rightarrow>
                    (case r of
                       [] \<Rightarrow> None
                     | c # r \<Rightarrow>
                         if c \<in> set ''XBWD''
                         then (case match_offset r of None \<Rightarrow> None | Some (off, bp) \<Rightarrow> Some (Atoi ds, off, bp))
                         else None))))"

text \<open>\<open>^M([BWD])?(\d+)(?:\.(\d))?$\<close>, and the same for I and Q.\<close>

definition match_area :: "char \<Rightarrow> string \<Rightarrow> (int \<times> int option) option" where
  "match_area a s =
     (case s of
        [] \<Rightarrow> None
      | c # r \<Rightarrow>
          if c \<noteq> a then None
          else (case r of
                  [] \<Rightarrow> None
                | d # r' \<Rightarrow> if d \<in> set ''BWD'' then match_offset r' else match_offset r))"

text \<open>\<open>^T(\d+)$\<close> and \<open>^C(\d+)$\<close>\<close>

definition match_number :: "char \<Rightarrow> string \<Rightarrow> int option" where
  "match_number a s =
     (case s of
        [] \<Rightarrow> None
      | c # r \<Rightarrow>
          if c \<noteq> a then None
          else (case take_digits r of None \<Rightarrow> None | Some (ds, rest) \<Rightarrow> if rest = [] then Some (Atoi ds) else None))"

type_synonym s7_address = "s7_area \<times> int \<times> int \<times> int"

definition with_bit :: "string \<Rightarrow> s7_area \<Rightarrow> int \<Rightarrow> int \<Rightarrow> int option \<Rightarrow> gerror + s7_address" where
  "with_bit address area db off bp =
     (case bp of
        None \<Rightarrow> Inr (area, db, off, 0)
      | Some b \<Rightarrow>
          if 7 < b
          then Inl (WrapV (S7E ErrS7InvalidAddress)
                 (''bit offset '' @ dec b @ '' out of range (0-7) in '' @ address))
          else Inr (area, db, off, b))"

definition parseSymbolicAddress :: "string \<Rightarrow> gerror + s7_address" where
  "parseSymbolicAddress address =
     (let a = ToUpper (TrimSpace address) in
      case match_db a of
        Some (db, off, bp) \<Rightarrow> with_bit a S7AreaDB db off bp
      | None \<Rightarrow>
     (case match_area CHR ''M'' a of
        Some (off, bp) \<Rightarrow> with_bit a S7AreaM 0 off bp
      | None \<Rightarrow>
     (case match_area CHR ''I'' a of
        Some (off, bp) \<Rightarrow> with_bit a S7AreaI 0 off bp
      | None \<Rightarrow>
     (case match_area CHR ''Q'' a of
        Some (off, bp) \<Rightarrow> with_bit a S7AreaQ 0 off bp
      | None \<Rightarrow>
     (case match_number CHR ''T'' a of
        Some n \<Rightarrow> Inr (S7AreaT, 0, n, 0)
      | None \<Rightarrow>
     (case match_number CHR ''C'' a of
        Some n \<Rightarrow> Inr (S7AreaC, 0, n, 0)
      | None \<Rightarrow> Inl (WrapV (S7E ErrS7InvalidAddress) a)))))))"

definition parseTagAddress :: "tag \<Rightarrow> gerror + s7_address" where
  "parseTagAddress t =
     (if tag_S7Address t \<noteq> '''' then parseSymbolicAddress (tag_S7Address t)
      else if tag_S7Area t = S7AreaOther '''' then Inl (Sentinel (S7E ErrS7InvalidArea))
      else Inr (tag_S7Area t, tag_S7DBNumber t, tag_S7Offset t, tag_S7BitOffset t))"

section \<open>Plain text\<close>

text \<open>Visible ASCII other than small letters: neither trimming nor the upper case changes it.\<close>

definition plain :: "char \<Rightarrow> bool" where
  "plain c = (let n = of_char c :: int in 33 \<le> n \<and> n \<le> 96)"

lemma space_rune_ends:
  assumes "r \<in> set space_runes"
  shows "\<not> plain (hd r)" "\<not> plain (last r)"
  using assms by (auto simp: space_runes_def bytes_of_def plain_def)

lemma TrimSpace_plain:
  assumes "list_all plain s"
  shows "TrimSpace s = s"
proof -
  have left: "find (\<lambda>r. prefix r s) space_runes = None"
  proof -
    have "\<not> prefix r s" if r: "r \<in> set space_runes" for r
    proof
      assume "prefix r s"
      then have "hd r \<in> set s"
        using space_runes_nonempty [OF r] by (metis hd_in_set set_mono_prefix subsetD)
      with assms space_rune_ends(1) [OF r] show False by (simp add: list_all_iff)
    qed
    then show ?thesis by (simp add: find_None_iff)
  qed
  have right: "find (\<lambda>r. suffix r s) space_runes = None"
  proof -
    have "\<not> suffix r s" if r: "r \<in> set space_runes" for r
    proof
      assume "suffix r s"
      then have "last r \<in> set s"
        using space_runes_nonempty [OF r] by (metis last_in_set set_mono_suffix subsetD)
      with assms space_rune_ends(2) [OF r] show False by (simp add: list_all_iff)
    qed
    then show ?thesis by (simp add: find_None_iff)
  qed
  from left have "trim_left s = s" by (subst trim_left.simps) simp
  moreover from right have "trim_right s = s" by (subst trim_right.simps) simp
  ultimately show ?thesis by (simp add: TrimSpace_def)
qed

lemma ToUpper_plain: "list_all plain s \<Longrightarrow> ToUpper s = s"
  by (induction s rule: ToUpper.induct) (auto simp: plain_def Let_def)

lemma plain_digits: "list_all is_digit s \<Longrightarrow> list_all plain s"
  by (auto simp: list_all_iff is_digit_def plain_def Let_def)

lemma plain_dec: "0 \<le> n \<Longrightarrow> n < 2 ^ 63 \<Longrightarrow> list_all plain (dec n)"
  using dec_digits_ok [of n 20] by (simp add: dec_def plain_digits)

section \<open>Writing and reading an address\<close>

primrec area_letter :: "s7_area \<Rightarrow> string" where
  "area_letter S7AreaDB = ''DB''"
| "area_letter S7AreaM = ''M''"
| "area_letter S7AreaI = ''I''"
| "area_letter S7AreaQ = ''Q''"
| "area_letter S7AreaT = ''T''"
| "area_letter S7AreaC = ''C''"
| "area_letter (S7AreaOther s) = s"

definition address_text :: "s7_address \<Rightarrow> string" where
  "address_text a =
     (case a of (area, db, off, b) \<Rightarrow>
        if area = S7AreaDB then ''DB'' @ dec db @ ''.DBX'' @ dec off @ ''.'' @ dec b
        else if area = S7AreaT \<or> area = S7AreaC then area_letter area @ dec off
        else area_letter area @ dec off @ ''.'' @ dec b)"

text \<open>The addresses there are: a number for T and C, a byte and a bit for the others, a block for DB.\<close>

definition address_ok :: "s7_address \<Rightarrow> bool" where
  "address_ok a \<longleftrightarrow>
     (case a of (area, db, off, b) \<Rightarrow>
        area \<in> {S7AreaDB, S7AreaM, S7AreaI, S7AreaQ, S7AreaT, S7AreaC} \<and> 0 \<le> off \<and> off < 2 ^ 63 \<and> 0 \<le> b \<and> b \<le> 7 \<and>
        (if area = S7AreaDB then 0 \<le> db \<and> db < 2 ^ 63 else db = 0) \<and> (area \<in> {S7AreaT, S7AreaC} \<longrightarrow> b = 0))"

lemma dec_bit: "0 \<le> b \<Longrightarrow> b \<le> 7 \<Longrightarrow> dec b = [char_of (48 + b)]"
  by (simp add: dec_def numeral_eq_Suc)

lemma bit_digit:
  assumes "0 \<le> b" and "b \<le> 7"
  shows "is_digit (char_of (48 + b))" and "Atoi [char_of (48 + b)] = b"
  using digit_char [of b] assms by (simp_all add: Atoi_def digits_value_def)

lemma match_offset_text:
  assumes "0 \<le> off" and "off < 2 ^ 63" and "0 \<le> b" and "b \<le> 7"
  shows "match_offset (dec off @ ''.'' @ dec b) = Some (off, Some b)"
proof -
  have "\<not> is_digit CHR ''.''" by (simp add: is_digit_def)
  with take_digits_dec [OF assms(1,2), of "''.'' @ dec b"] show ?thesis
    by (simp add: match_offset_def dec_bit [OF assms(3,4)] bit_digit [OF assms(3,4)])
qed

lemma dec_first: "0 \<le> n \<Longrightarrow> n < 2 ^ 63 \<Longrightarrow> \<exists>c s. dec n = c # s \<and> is_digit c"
  using dec_digits_ok [of n 20] by (cases "dec n") (simp_all add: dec_def)

lemma match_area_text:
  assumes "0 \<le> off" and "off < 2 ^ 63" and "0 \<le> b" and "b \<le> 7"
  shows "match_area a (a # dec off @ ''.'' @ dec b) = Some (off, Some b)"
proof -
  obtain c s where c: "dec off = c # s" "is_digit c" using dec_first [OF assms(1,2)] by blast
  then have "c \<notin> set ''BWD''" by (auto simp: is_digit_def)
  with c(1) match_offset_text [OF assms] show ?thesis by (simp add: match_area_def)
qed

lemma match_db_text:
  assumes "0 \<le> db" and "db < 2 ^ 63" and "0 \<le> off" and "off < 2 ^ 63" and "0 \<le> b" and "b \<le> 7"
  shows "match_db (''DB'' @ dec db @ ''.DBX'' @ dec off @ ''.'' @ dec b) = Some (db, off, Some b)"
proof -
  have "\<not> is_digit CHR ''.''" by (simp add: is_digit_def)
  with take_digits_dec [OF assms(1,2), of "''.DBX'' @ dec off @ ''.'' @ dec b"] match_offset_text [OF assms(3-6)]
  show ?thesis by (simp add: match_db_def strip_def)
qed

lemma match_number_text:
  assumes "0 \<le> off" and "off < 2 ^ 63"
  shows "match_number a (a # dec off) = Some off"
  using take_digits_dec [OF assms, of "[]"] by (simp add: match_number_def)

lemma address_plain: "address_ok a \<Longrightarrow> list_all plain (address_text a)"
  by (cases a) (auto simp: address_ok_def address_text_def plain_dec plain_def split: if_splits)

lemma match_db_not: "hd s \<noteq> CHR ''D'' \<Longrightarrow> s \<noteq> [] \<Longrightarrow> match_db s = None"
  by (cases s) (auto simp: match_db_def strip_def)

lemma match_area_not: "s \<noteq> [] \<Longrightarrow> hd s \<noteq> a \<Longrightarrow> match_area a s = None"
  by (cases s) (auto simp: match_area_def)

lemma match_number_not: "s \<noteq> [] \<Longrightarrow> hd s \<noteq> a \<Longrightarrow> match_number a s = None"
  by (cases s) (auto simp: match_number_def)

lemmas match_others = match_db_not match_area_not match_number_not
lemmas match_texts = match_area_text [simplified] match_number_text match_db_text [simplified]

lemma address_text_read:
  assumes "address_ok a"
  shows "parseSymbolicAddress (address_text a) = Inr a"
proof -
  obtain area db off b where a: "a = (area, db, off, b)" by (cases a)
  note ok = assms [unfolded a address_ok_def, simplified]
  have t: "ToUpper (TrimSpace (address_text a)) = address_text a"
    using address_plain [OF assms] by (simp add: TrimSpace_plain ToUpper_plain)
  have "with_bit (address_text a) area db off (Some b) = Inr a" using ok by (simp add: with_bit_def a)
  then show ?thesis
    using ok unfolding parseSymbolicAddress_def Let_def t
    by (cases area; simp add: a address_text_def match_others match_texts cong: option.case_cong)
qed

section \<open>What is read is an address\<close>

lemma Atoi_bounds: "0 \<le> Atoi s \<or> \<not> list_all is_digit s" "Atoi s < 2 ^ 63"
proof -
  have "list_all is_digit s \<Longrightarrow> 0 \<le> digits_value s"
    by (induction s rule: rev_induct)
      (auto simp: digits_value_snoc digits_value_def is_digit_def digit_value_def Let_def)
  then show "0 \<le> Atoi s \<or> \<not> list_all is_digit s" by (auto simp: Atoi_def)
  show "Atoi s < 2 ^ 63" by (simp add: Atoi_def)
qed

definition in_range :: "int \<Rightarrow> bool" where
  "in_range n \<longleftrightarrow> 0 \<le> n \<and> n < 2 ^ 63"

lemma in_range_Atoi: "list_all is_digit s \<Longrightarrow> in_range (Atoi s)"
  using Atoi_bounds [of s] by (auto simp: in_range_def)

lemma take_digits_all: "take_digits s = Some (ds, r) \<Longrightarrow> list_all is_digit ds"
  by (auto simp: take_digits_def list_all_iff dest: set_takeWhileD split: if_splits)

lemma take_digits_range: "take_digits s = Some (ds, r) \<Longrightarrow> in_range (Atoi ds)"
  by (blast intro: in_range_Atoi take_digits_all)

lemma match_offset_range:
  "match_offset s = Some (off, bp) \<Longrightarrow> in_range off \<and> pred_option in_range bp"
  by (auto simp: match_offset_def in_range_Atoi dest: take_digits_range split: option.splits list.splits if_splits)

lemma match_db_range:
  "match_db s = Some (db, off, bp) \<Longrightarrow> in_range db \<and> in_range off \<and> pred_option in_range bp"
  by (auto simp: match_db_def in_range_Atoi dest: take_digits_range match_offset_range
      split: option.splits list.splits if_splits)

lemma match_area_range:
  "match_area a s = Some (off, bp) \<Longrightarrow> in_range off \<and> pred_option in_range bp"
  by (auto simp: match_area_def dest: match_offset_range split: list.splits if_splits)

lemma match_number_range: "match_number a s = Some n \<Longrightarrow> in_range n"
  by (auto simp: match_number_def in_range_Atoi dest: take_digits_range split: option.splits list.splits if_splits)

lemma in_range_0: "in_range 0"
  by (simp add: in_range_def)

lemma timer_ok: "in_range n \<Longrightarrow> address_ok (S7AreaT, 0, n, 0) \<and> address_ok (S7AreaC, 0, n, 0)"
  by (simp add: in_range_def address_ok_def)

lemma with_bit_ok:
  assumes "with_bit s area db off bp = Inr a" and "area \<in> {S7AreaDB, S7AreaM, S7AreaI, S7AreaQ}"
    and "in_range db" and "area \<noteq> S7AreaDB \<longrightarrow> db = 0" and "in_range off"
    and "pred_option in_range bp"
  shows "address_ok a"
  using assms by (auto simp: with_bit_def address_ok_def in_range_def split: option.splits if_splits)

section \<open>The property\<close>

text \<open>
  C26. What the parser reads is a well-formed address (a byte and a bit below 8, a block for DB
  only, no bit for timers and counters, every number below \<open>2 ^ 63\<close> whatever the text says), and every
  well-formed address is read back from its own text.
\<close>

theorem symbolic_addresses_round_trip:
  "(parseSymbolicAddress s = Inr a \<longrightarrow> address_ok a) \<and>
   (address_ok a \<longrightarrow> parseSymbolicAddress (address_text a) = Inr a)"
proof (intro conjI impI)
  assume "parseSymbolicAddress s = Inr a"
  then show "address_ok a"
    by (auto simp: parseSymbolicAddress_def Let_def in_range_0 timer_ok
        dest!: match_db_range match_area_range match_number_range
        elim!: with_bit_ok split: option.splits)
qed (rule address_text_read)

theorem symbolic_addresses_round_trip_witness:
  "parseSymbolicAddress ''  db7.dbx120.3 '' = Inr (S7AreaDB, 7, 120, 3) \<and>
   parseSymbolicAddress (address_text (S7AreaDB, 7, 120, 3)) = Inr (S7AreaDB, 7, 120, 3)"
proof -
  have "parseSymbolicAddress ''  db7.dbx120.3 '' = Inr (S7AreaDB, 7, 120, 3)" by code_simp
  with symbolic_addresses_round_trip [of "''  db7.dbx120.3 ''" "(S7AreaDB, 7, 120, 3)"] show ?thesis by simp
qed

end
