(* ===== verification/S7Conversion.thy ===== *)
theory S7Conversion
  imports ModbusConversion S7Address
begin

text \<open>
  The S7 codec (\<open>internal/adapter/s7/conversion.go\<close>): a controller's bytes are big endian and in
  one order, a boolean is one bit of a byte. The conversion helpers are those of the Modbus codec,
  word for word, so \<open>toBool\<close>, \<open>toInt64\<close>, \<open>toUint64\<close> and \<open>toFloat64\<close> are shared.
\<close>

unbundle bit_operations_syntax

section \<open>Decoding\<close>

text \<open>\<open>1 << bitOffset\<close> as a byte: from 8 on it is 0, and a negative count panics.\<close>

definition shift_byte :: "int \<Rightarrow> ('e, byte) res" where
  "shift_byte n = (if n < 0 then Crash ''negative shift amount'' else Ok (push_bit (nat n) 1))"

definition wrong_length :: "(gerror, goval) res" where
  "wrong_length = Err (Sentinel (RWE ErrInvalidDataLength))"

definition s7_parseValue :: "bytes \<Rightarrow> tag \<Rightarrow> int \<Rightarrow> (gerror, goval) res" where
  "s7_parseValue d t bitOffset =
     (if d = [] then wrong_length
      else case tag_DataType t of
        DataTypeBool \<Rightarrow>
          (if length d < 1 then wrong_length
           else (case shift_byte bitOffset of
                   Ok m \<Rightarrow> Ok (VBool (d ! 0 AND m \<noteq> 0))
                 | Err e \<Rightarrow> Err e
                 | Crash p \<Rightarrow> Crash p))
      | DataTypeInt16 \<Rightarrow> if length d < 2 then wrong_length else Ok (VInt16 (BE_Uint16 d))
      | DataTypeUInt16 \<Rightarrow> if length d < 2 then wrong_length else Ok (VUint16 (BE_Uint16 d))
      | DataTypeInt32 \<Rightarrow> if length d < 4 then wrong_length else Ok (VInt32 (BE_Uint32 d))
      | DataTypeUInt32 \<Rightarrow> if length d < 4 then wrong_length else Ok (VUint32 (BE_Uint32 d))
      | DataTypeInt64 \<Rightarrow> if length d < 8 then wrong_length else Ok (VInt64 (BE_Uint64 d))
      | DataTypeUInt64 \<Rightarrow> if length d < 8 then wrong_length else Ok (VUint64 (BE_Uint64 d))
      | DataTypeFloat32 \<Rightarrow> if length d < 4 then wrong_length else Ok (VFloat32 (BE_Uint32 d))
      | DataTypeFloat64 \<Rightarrow> if length d < 8 then wrong_length else Ok (VFloat64 (BE_Uint64 d))
      | _ \<Rightarrow> Err (Sentinel (RWE ErrInvalidDataType)))"

section \<open>Scaling\<close>

definition s7_applyScaling :: "goval \<Rightarrow> tag \<Rightarrow> goval" where
  "s7_applyScaling v t =
     (if unscaled t then v
      else case toFloat64 v of
        None \<Rightarrow> v
      | Some f \<Rightarrow> VFloat64 (f64_add (f64_mul f (tag_ScaleFactor t)) (tag_Offset t)))"

text \<open>Unlike the Modbus codec's, it does not divide by a zero factor.\<close>

definition s7_reverseScaling :: "goval \<Rightarrow> tag \<Rightarrow> goval" where
  "s7_reverseScaling v t =
     (if unscaled t then v
      else case toFloat64 v of
        None \<Rightarrow> v
      | Some f \<Rightarrow>
          if f64_eq (tag_ScaleFactor t) f64_zero then VFloat64 (f64_sub f (tag_Offset t))
          else VFloat64 (f64_div (f64_sub f (tag_Offset t)) (tag_ScaleFactor t)))"

section \<open>Encoding\<close>

definition s7_valueToBytes :: "arch \<Rightarrow> goval \<Rightarrow> tag \<Rightarrow> int \<Rightarrow> (gerror, bytes) res" where
  "s7_valueToBytes A v t bitOffset =
     (let actual = s7_reverseScaling v t in
      case tag_DataType t of
        DataTypeBool \<Rightarrow>
          (case toBool actual of
             None \<Rightarrow> Err (cannot_convert v ''bool'')
           | Some b \<Rightarrow>
               if b then (case shift_byte bitOffset of Ok m \<Rightarrow> Ok [m] | Err e \<Rightarrow> Err e | Crash p \<Rightarrow> Crash p)
               else Ok [0])
      | DataTypeInt16 \<Rightarrow>
          (case toInt64 A actual of Some w \<Rightarrow> Ok (BE_PutUint16 (ucast w))
           | None \<Rightarrow> Err (cannot_convert v ''int16''))
      | DataTypeUInt16 \<Rightarrow>
          (case toInt64 A actual of Some w \<Rightarrow> Ok (BE_PutUint16 (ucast w))
           | None \<Rightarrow> Err (cannot_convert v ''uint16''))
      | DataTypeInt32 \<Rightarrow>
          (case toInt64 A actual of Some w \<Rightarrow> Ok (BE_PutUint32 (ucast w))
           | None \<Rightarrow> Err (cannot_convert v ''int32''))
      | DataTypeUInt32 \<Rightarrow>
          (case toInt64 A actual of Some w \<Rightarrow> Ok (BE_PutUint32 (ucast w))
           | None \<Rightarrow> Err (cannot_convert v ''uint32''))
      | DataTypeInt64 \<Rightarrow>
          (case toInt64 A actual of Some w \<Rightarrow> Ok (BE_PutUint64 w)
           | None \<Rightarrow> Err (cannot_convert v ''int64''))
      | DataTypeUInt64 \<Rightarrow>
          (case toUint64 A actual of Some w \<Rightarrow> Ok (BE_PutUint64 w)
           | None \<Rightarrow> Err (cannot_convert v ''uint64''))
      | DataTypeFloat32 \<Rightarrow>
          (case toFloat64 actual of Some x \<Rightarrow> Ok (BE_PutUint32 (f32_of_f64 x))
           | None \<Rightarrow> Err (cannot_convert v ''float32''))
      | DataTypeFloat64 \<Rightarrow>
          (case toFloat64 actual of Some x \<Rightarrow> Ok (BE_PutUint64 x)
           | None \<Rightarrow> Err (cannot_convert v ''float64''))
      | dt \<Rightarrow> Err (WrapV (RWE ErrInvalidDataType) (''unsupported data type '' @ data_type_text dt)))"

definition getByteCount :: "data_type \<Rightarrow> nat" where
  "getByteCount dt =
     (if dt = DataTypeBool then 1
      else if dt \<in> {DataTypeInt16, DataTypeUInt16} then 2
      else if dt \<in> {DataTypeInt32, DataTypeUInt32, DataTypeFloat32} then 4
      else if dt \<in> {DataTypeInt64, DataTypeUInt64, DataTypeFloat64} then 8
      else 1)"

section \<open>Lengths\<close>

lemma getByteCount_pos [simp]: "0 < getByteCount dt"
  by (simp add: getByteCount_def)

lemma s7_valueToBytes_length:
  "s7_valueToBytes A v t b = Ok bs \<Longrightarrow> length bs = getByteCount (tag_DataType t)"
  by (auto simp: s7_valueToBytes_def getByteCount_def Let_def split: data_type.splits option.splits res.splits if_splits)

lemma shift_byte_ok [simp]: "0 \<le> n \<Longrightarrow> shift_byte n = Ok (push_bit (nat n) 1)"
  by (simp add: shift_byte_def)

lemma s7_parseValue_no_crash: "0 \<le> b \<or> tag_DataType t \<noteq> DataTypeBool \<Longrightarrow> \<not> crashes (s7_parseValue d t b)"
  unfolding s7_parseValue_def by (cases "tag_DataType t") (auto simp: wrong_length_def)

text \<open>As many bytes as the tag's type takes are enough for a value.\<close>

lemma s7_parseValue_full:
  assumes "length d = getByteCount (tag_DataType t)" and "0 \<le> b" and "tag_DataType t \<noteq> DataTypeString"
    and "\<forall>s. tag_DataType t \<noteq> DataTypeOther s"
  shows "\<exists>v. s7_parseValue d t b = Ok v"
  using assms by (cases "tag_DataType t") (auto simp: s7_parseValue_def getByteCount_def)

lemma bit_of_byte: "0 \<le> n \<Longrightarrow> n < 8 \<Longrightarrow> (w :: byte) AND push_bit (nat n) 1 \<noteq> 0 \<longleftrightarrow> bit w (nat n)"
  by (simp add: and_exp_eq_0_iff_not_bit push_bit_eq_mult)

lemma one_bit_of_byte: "0 \<le> n \<Longrightarrow> n < 8 \<Longrightarrow> (push_bit (nat n) 1 :: byte) AND push_bit (nat n) 1 \<noteq> 0"
  by (subst bit_of_byte) (auto simp: bit_push_bit_iff simp del: push_bit_of_1)

section \<open>The property\<close>

text \<open>
  C27. What a write sends, a read of the same address returns: a value the encoder accepts comes
  back as the value with the scaling undone, converted to the tag's type, for every data type; and
  the encoder sends as many bytes as the reader asks for.
\<close>

theorem s7_write_read_roundtrip:
  assumes "s7_valueToBytes A v t bitOffset = Ok bs" and "0 \<le> bitOffset" and "bitOffset < 8"
  shows "\<exists>x. wire_value A (s7_reverseScaling v t) (tag_DataType t) = Some x \<and> s7_parseValue bs t bitOffset = Ok x \<and>
    length bs = getByteCount (tag_DataType t)"
  using assms(1) s7_valueToBytes_length [OF assms(1)] one_bit_of_byte [OF assms(2,3)] assms(2)
  by (auto simp: s7_valueToBytes_def s7_parseValue_def wire_value_def codec_simps Let_def
      split: data_type.splits option.splits if_splits)

theorem s7_write_read_roundtrip_witness:
  "\<exists>x. wire_value sample_arch (VInt 70000) DataTypeInt32 = Some x \<and>
       s7_parseValue [0, 1, 17, 112] sample_ready 0 = Ok x \<and> length [0, 1, 17, 112 :: byte] = getByteCount DataTypeInt32"
proof -
  have e: "s7_valueToBytes sample_arch (VInt 70000) sample_ready 0 = Ok [0, 1, 17, 112]" by code_simp
  have r: "s7_reverseScaling (VInt 70000) sample_ready = VInt 70000" by code_simp
  have d: "tag_DataType sample_ready = DataTypeInt32" by (simp add: sample_ready_def sample_tag_def)
  from s7_write_read_roundtrip [OF e] show ?thesis unfolding r d by simp
qed

end
