(* ===== verification/S7Batch.thy ===== *)
theory S7Batch
  imports S7Conversion
begin

text \<open>
  Merging of S7 tags into byte ranges (\<open>internal/adapter/s7/batch.go\<close>): tags of one area and block
  are sorted by offset and joined while the gap and the size of the range allow it. \<open>sort.Slice\<close>,
  which promises an ordered permutation and nothing about ties, is the parameter \<open>sorter\<close>, and the
  order in which Go walks the map of groups is the list of keys \<open>order\<close>.
\<close>

section \<open>Data\<close>

record s7_batch_config =
  sb_MaxBytesPerRange :: int
  sb_MaxGapBytes :: int

definition DefaultS7BatchConfig :: s7_batch_config where
  "DefaultS7BatchConfig = \<lparr>sb_MaxBytesPerRange = 1024, sb_MaxGapBytes = 32\<rparr>"

record s7_tag_in_range =
  sr_tag :: tag
  sr_offset :: int
  sr_bitOffset :: int
  sr_byteCount :: int

record s7_byte_range =
  br_area :: s7_area
  br_dbNumber :: int
  br_startOffset :: int
  br_totalBytes :: int
  br_tags :: "s7_tag_in_range list"

record s7_parsed_tag =
  pt_tag :: tag
  pt_area :: s7_area
  pt_dbNumber :: int
  pt_offset :: int
  pt_bitOffset :: int
  pt_byteCount :: int

type_synonym s7_group_key = "s7_area \<times> int"

definition group_key :: "s7_parsed_tag \<Rightarrow> s7_group_key" where
  "group_key p = (pt_area p, pt_dbNumber p)"

section \<open>Merging one group\<close>

definition placed :: "int \<Rightarrow> s7_parsed_tag \<Rightarrow> s7_tag_in_range" where
  "placed start p =
     \<lparr>sr_tag = pt_tag p, sr_offset = wrap64 (pt_offset p - start), sr_bitOffset = pt_bitOffset p,
      sr_byteCount = pt_byteCount p\<rparr>"

definition open_range :: "s7_group_key \<Rightarrow> s7_parsed_tag \<Rightarrow> s7_byte_range" where
  "open_range key p =
     \<lparr>br_area = fst key, br_dbNumber = snd key, br_startOffset = pt_offset p, br_totalBytes = pt_byteCount p,
      br_tags = [\<lparr>sr_tag = pt_tag p, sr_offset = 0, sr_bitOffset = pt_bitOffset p, sr_byteCount = pt_byteCount p\<rparr>]\<rparr>"

text \<open>The loop over the sorted tags, with the range being built; \<open>int\<close> wraps around.\<close>

fun s7_merge :: "s7_batch_config \<Rightarrow> s7_group_key \<Rightarrow> s7_byte_range \<Rightarrow> s7_parsed_tag list \<Rightarrow> s7_byte_range list" where
  "s7_merge C key current [] = [current]"
| "s7_merge C key current (t # ts) =
     (let tagEnd = wrap64 (pt_offset t + pt_byteCount t);
          currentEnd = wrap64 (br_startOffset current + br_totalBytes current);
          gap = wrap64 (pt_offset t - currentEnd);
          newTotalBytes = wrap64 (tagEnd - br_startOffset current);
          newTotalBytes = (if newTotalBytes < br_totalBytes current then br_totalBytes current else newTotalBytes)
      in if gap \<le> sb_MaxGapBytes C \<and> newTotalBytes \<le> sb_MaxBytesPerRange C
         then s7_merge C key
                (current\<lparr>br_totalBytes := (if currentEnd < tagEnd then wrap64 (tagEnd - br_startOffset current)
                                          else br_totalBytes current),
                         br_tags := br_tags current @ [placed (br_startOffset current) t]\<rparr>) ts
         else current # s7_merge C key (open_range key t) ts)"

definition ranges_of_group ::
  "(s7_parsed_tag list \<Rightarrow> s7_parsed_tag list) \<Rightarrow> s7_batch_config \<Rightarrow> s7_group_key \<Rightarrow> s7_parsed_tag list \<Rightarrow> s7_byte_range list" where
  "ranges_of_group sorter C key tags =
     (case sorter tags of [] \<Rightarrow> [] | t # ts \<Rightarrow> s7_merge C key (open_range key t) ts)"

section \<open>All groups\<close>

definition s7_group_keys :: "s7_parsed_tag list \<Rightarrow> s7_group_key list" where
  "s7_group_keys parsed = remdups (map group_key parsed)"

definition buildS7ContiguousRanges ::
  "(s7_parsed_tag list \<Rightarrow> s7_parsed_tag list) \<Rightarrow> s7_group_key list \<Rightarrow> s7_parsed_tag list \<Rightarrow> s7_batch_config \<Rightarrow>
   s7_byte_range list" where
  "buildS7ContiguousRanges sorter order parsed C =
     concat (map (\<lambda>key. ranges_of_group sorter C key (filter (\<lambda>p. group_key p = key) parsed)) order)"

section \<open>What the parameters promise\<close>

definition slice_sorter :: "(s7_parsed_tag list \<Rightarrow> s7_parsed_tag list) \<Rightarrow> bool" where
  "slice_sorter sorter \<longleftrightarrow> (\<forall>ps. mset (sorter ps) = mset ps \<and> sorted (map pt_offset (sorter ps)))"

definition walks :: "s7_parsed_tag list \<Rightarrow> s7_group_key list \<Rightarrow> bool" where
  "walks parsed order \<longleftrightarrow> distinct order \<and> set order = set (map group_key parsed)"

lemma walks_group_keys: "walks parsed (s7_group_keys parsed)"
  by (simp add: walks_def s7_group_keys_def)

lemma sort_key_slice_sorter: "slice_sorter (sort_key pt_offset)"
  by (simp add: slice_sorter_def)

section \<open>A range and its tags\<close>

text \<open>Where a tag of a range stands in the controller, and whether the range covers it.\<close>

definition absolute :: "s7_byte_range \<Rightarrow> s7_tag_in_range \<Rightarrow> s7_parsed_tag" where
  "absolute r t =
     \<lparr>pt_tag = sr_tag t, pt_area = br_area r, pt_dbNumber = br_dbNumber r, pt_offset = br_startOffset r + sr_offset t,
      pt_bitOffset = sr_bitOffset t, pt_byteCount = sr_byteCount t\<rparr>"

definition tags_at :: "s7_byte_range \<Rightarrow> s7_parsed_tag list" where
  "tags_at r = map (absolute r) (br_tags r)"

definition inside :: "s7_byte_range \<Rightarrow> s7_tag_in_range \<Rightarrow> bool" where
  "inside r t \<longleftrightarrow> 0 \<le> sr_offset t \<and> sr_offset t + sr_byteCount t \<le> br_totalBytes r"

definition s7_range_ok :: "int \<Rightarrow> s7_byte_range \<Rightarrow> bool" where
  "s7_range_ok N r \<longleftrightarrow> br_tags r \<noteq> [] \<and> 0 < br_totalBytes r \<and> br_totalBytes r \<le> N \<and> (\<forall>t\<in>set (br_tags r). inside r t)"

text \<open>A tag inside the address space, no longer than one range may be.\<close>

definition in_space :: "int \<Rightarrow> s7_parsed_tag \<Rightarrow> bool" where
  "in_space N p \<longleftrightarrow> 0 \<le> pt_offset p \<and> 0 < pt_byteCount p \<and> pt_byteCount p \<le> N \<and> pt_offset p + pt_byteCount p < 2 ^ 63"

lemma open_range_ok:
  assumes "in_space N p"
  shows "s7_range_ok N (open_range (group_key p) p)" and "tags_at (open_range (group_key p) p) = [p]"
  using assms by (simp_all add: s7_range_ok_def open_range_def in_space_def inside_def tags_at_def absolute_def group_key_def)

lemma merged_into:
  assumes "s7_range_ok N r" and "0 \<le> br_startOffset r" and "br_startOffset r + br_totalBytes r < 2 ^ 63"
    and "in_space N t" and "br_startOffset r \<le> pt_offset t" and "group_key t = (br_area r, br_dbNumber r)"
    and size: "wrap64 (wrap64 (pt_offset t + pt_byteCount t) - br_startOffset r) \<le> N"
    and r': "r' = r\<lparr>br_totalBytes := (if wrap64 (br_startOffset r + br_totalBytes r) < wrap64 (pt_offset t + pt_byteCount t)
                         then wrap64 (wrap64 (pt_offset t + pt_byteCount t) - br_startOffset r) else br_totalBytes r),
                     br_tags := br_tags r @ [placed (br_startOffset r) t]\<rparr>"
  shows "s7_range_ok N r'" and "tags_at r' = tags_at r @ [t]" and "br_startOffset r' + br_totalBytes r' < 2 ^ 63"
    and "br_startOffset r' = br_startOffset r" and "br_area r' = br_area r" and "br_dbNumber r' = br_dbNumber r"
proof -
  have t: "0 \<le> pt_offset t" "0 < pt_byteCount t" "pt_offset t + pt_byteCount t < 2 ^ 63" using assms(4) by (simp_all add: in_space_def)
  have pos: "0 < br_totalBytes r" "br_totalBytes r \<le> N" using assms(1) by (simp_all add: s7_range_ok_def)
  have w: "wrap64 (pt_offset t + pt_byteCount t) = pt_offset t + pt_byteCount t"
    "wrap64 (br_startOffset r + br_totalBytes r) = br_startOffset r + br_totalBytes r"
    "wrap64 (pt_offset t + pt_byteCount t - br_startOffset r) = pt_offset t + pt_byteCount t - br_startOffset r"
    "wrap64 (pt_offset t - br_startOffset r) = pt_offset t - br_startOffset r"
    using t pos assms(2,3,5) by (auto intro!: wrap64_id)
  note r' = r' [unfolded w placed_def]
  show "br_startOffset r' = br_startOffset r" "br_area r' = br_area r" "br_dbNumber r' = br_dbNumber r"
    by (simp_all add: r')
  show "br_startOffset r' + br_totalBytes r' < 2 ^ 63" using t assms(3) by (simp add: r')
  show "tags_at r' = tags_at r @ [t]"
    using assms(6) by (simp add: r' tags_at_def absolute_def group_key_def fun_eq_iff)
  show "s7_range_ok N r'"
    using assms(1,5) size t pos by (auto simp: r' s7_range_ok_def inside_def w)
qed

lemma s7_merge_ok:
  assumes "s7_range_ok N cur" and "0 \<le> br_startOffset cur" and "br_startOffset cur + br_totalBytes cur < 2 ^ 63"
    and "key = (br_area cur, br_dbNumber cur)" and "sb_MaxBytesPerRange C \<le> N"
    and "\<forall>t\<in>set ts. in_space N t \<and> group_key t = key \<and> br_startOffset cur \<le> pt_offset t"
    and "sorted (map pt_offset ts)"
  shows "(\<forall>r\<in>set (s7_merge C key cur ts). s7_range_ok N r) \<and> concat (map tags_at (s7_merge C key cur ts)) = tags_at cur @ ts"
  using assms
proof (induction C key cur ts rule: s7_merge.induct)
  case (1 C key cur)
  then show ?case by simp
next
  case (2 C key cur t ts)
  let ?tagEnd = "wrap64 (pt_offset t + pt_byteCount t)"
  let ?curEnd = "wrap64 (br_startOffset cur + br_totalBytes cur)"
  let ?new = "wrap64 (?tagEnd - br_startOffset cur)"
  let ?size = "if ?new < br_totalBytes cur then br_totalBytes cur else ?new"
  let ?merge = "wrap64 (pt_offset t - ?curEnd) \<le> sb_MaxGapBytes C \<and> ?size \<le> sb_MaxBytesPerRange C"
  let ?cur' = "cur\<lparr>br_totalBytes := (if ?curEnd < ?tagEnd then ?new else br_totalBytes cur),
      br_tags := br_tags cur @ [placed (br_startOffset cur) t]\<rparr>"
  have t: "in_space N t" "group_key t = key" "br_startOffset cur \<le> pt_offset t" using "2.prems"(6) by simp_all
  show ?case
  proof (cases ?merge)
    case True
    have "?new \<le> N" using True "2.prems"(5) by (simp split: if_splits)
    note into = merged_into [OF "2.prems"(1-3) t(1,3) _ this refl]
    have key: "group_key t = (br_area cur, br_dbNumber cur)" using t(2) "2.prems"(4) by simp
    have "(\<forall>r\<in>set (s7_merge C key ?cur' ts). s7_range_ok N r) \<and> concat (map tags_at (s7_merge C key ?cur' ts)) = tags_at ?cur' @ ts"
      using "2.prems" into [OF key]
      by (intro "2.IH"(1) [OF refl refl refl refl refl True]) simp_all
    with True into(2) [OF key] show ?thesis by (simp add: Let_def)
  next
    case False
    note opened = open_range_ok [OF t(1), unfolded t(2)]
    have "(\<forall>r\<in>set (s7_merge C key (open_range key t) ts). s7_range_ok N r) \<and>
        concat (map tags_at (s7_merge C key (open_range key t) ts)) = tags_at (open_range key t) @ ts"
      using "2.prems" opened t(1)
      by (intro "2.IH"(2) [OF refl refl refl refl refl False]) (simp_all add: open_range_def in_space_def)
    moreover have "s7_merge C key cur (t # ts) = cur # s7_merge C key (open_range key t) ts"
      unfolding s7_merge.simps(2) Let_def using False by (rule if_not_P)
    ultimately show ?thesis using "2.prems"(1) opened by simp
  qed
qed

lemma ranges_of_group_ok:
  assumes "slice_sorter sorter" and "sb_MaxBytesPerRange C \<le> N"
    and "\<forall>p\<in>set ps. in_space N p \<and> group_key p = key"
  shows "(\<forall>r\<in>set (ranges_of_group sorter C key ps). s7_range_ok N r) \<and>
    concat (map tags_at (ranges_of_group sorter C key ps)) = sorter ps"
proof (cases "sorter ps")
  case Nil
  then show ?thesis by (simp add: ranges_of_group_def)
next
  case (Cons t ts)
  have m: "mset (sorter ps) = mset ps" and s: "sorted (map pt_offset (sorter ps))"
    using assms(1) by (simp_all add: slice_sorter_def)
  have all: "\<forall>p\<in>set (t # ts). in_space N p \<and> group_key p = key"
    using assms(3) arg_cong [OF m, of set_mset] Cons by simp
  then have t: "in_space N t" "group_key t = key" by simp_all
  note opened = open_range_ok [OF t(1), unfolded t(2)]
  have "(\<forall>r\<in>set (s7_merge C key (open_range key t) ts). s7_range_ok N r) \<and>
      concat (map tags_at (s7_merge C key (open_range key t) ts)) = tags_at (open_range key t) @ ts"
    using all t s opened assms(2) by (intro s7_merge_ok) (simp_all add: Cons open_range_def in_space_def)
  with opened show ?thesis by (simp add: ranges_of_group_def Cons)
qed

lemma concat_of_concat: "concat (map f (concat (map g ks))) = concat (map (\<lambda>k. concat (map f (g k))) ks)"
  by (induction ks) simp_all

lemma mset_of_concat: "mset (concat (map g ks)) = (\<Sum>k\<leftarrow>ks. mset (g k))"
  by (induction ks) simp_all

lemma mset_by_key:
  assumes "distinct ks" and "set (map f xs) \<subseteq> set ks"
  shows "(\<Sum>k\<leftarrow>ks. mset (filter (\<lambda>x. f x = k) xs)) = mset xs"
  using assms
proof (induction xs)
  case Nil
  then show ?case by simp
next
  case (Cons x xs)
  have "(\<Sum>k\<leftarrow>ks. mset (filter (\<lambda>y. f y = k) (x # xs))) =
      (\<Sum>k\<leftarrow>ks. (if f x = k then {#x#} else {#}) + mset (filter (\<lambda>y. f y = k) xs))"
    by (intro arg_cong [of _ _ sum_list] map_cong) auto
  also have "\<dots> = (\<Sum>k\<leftarrow>ks. if f x = k then {#x#} else {#}) + mset xs"
    using Cons by (simp add: sum_list_addf)
  also have "(\<Sum>k\<leftarrow>ks. if f x = k then {#x#} else {#}) = {#x#}"
    using Cons.prems by (simp add: sum_list_distinct_conv_sum_set sum.delta')
  finally show ?case by simp
qed

lemma ranges_cover:
  assumes "slice_sorter sorter" and "walks parsed order"
    and "\<forall>p\<in>set parsed. in_space (sb_MaxBytesPerRange C) p"
  shows "mset (concat (map tags_at (buildS7ContiguousRanges sorter order parsed C))) = mset parsed \<and>
    (\<forall>r\<in>set (buildS7ContiguousRanges sorter order parsed C). s7_range_ok (sb_MaxBytesPerRange C) r)"
proof -
  have group: "(\<forall>r\<in>set (ranges_of_group sorter C key (filter (\<lambda>p. group_key p = key) parsed)).
        s7_range_ok (sb_MaxBytesPerRange C) r) \<and>
      concat (map tags_at (ranges_of_group sorter C key (filter (\<lambda>p. group_key p = key) parsed))) =
        sorter (filter (\<lambda>p. group_key p = key) parsed)" for key
    using assms(3) by (intro ranges_of_group_ok [OF assms(1) order_refl]) simp
  have "mset (concat (map tags_at (buildS7ContiguousRanges sorter order parsed C))) =
      (\<Sum>key\<leftarrow>order. mset (sorter (filter (\<lambda>p. group_key p = key) parsed)))"
    using group by (simp add: buildS7ContiguousRanges_def concat_of_concat mset_of_concat)
  also have "\<dots> = (\<Sum>key\<leftarrow>order. mset (filter (\<lambda>p. group_key p = key) parsed))"
    using assms(1) by (simp add: slice_sorter_def)
  also have "\<dots> = mset parsed" using assms(2) by (intro mset_by_key) (simp_all add: walks_def)
  finally show ?thesis using group by (auto simp: buildS7ContiguousRanges_def)
qed

section \<open>The property\<close>

text \<open>
  The ranges hold exactly the given tags, each once and where it stands in the controller,
  every range spans all the bytes of its tags, and none is longer than the limit, whatever the sort
  does with ties and in whatever order the map of groups is walked.
\<close>

theorem s7_ranges_cover_their_tags:
  assumes "slice_sorter sorter" and "walks parsed order"
    and "\<forall>p\<in>set parsed. in_space (sb_MaxBytesPerRange C) p"
  shows "mset (concat (map tags_at (buildS7ContiguousRanges sorter order parsed C))) = mset parsed \<and>
    (\<forall>r\<in>set (buildS7ContiguousRanges sorter order parsed C). s7_range_ok (sb_MaxBytesPerRange C) r)"
  using assms by (rule ranges_cover)

definition sample_parsed :: "int \<Rightarrow> s7_parsed_tag" where
  "sample_parsed off = \<lparr>pt_tag = sample_ready, pt_area = S7AreaDB, pt_dbNumber = 7, pt_offset = off, pt_bitOffset = 0, pt_byteCount = 4\<rparr>"

theorem s7_ranges_cover_their_tags_witness:
  "mset (concat (map tags_at (buildS7ContiguousRanges (sort_key pt_offset) (s7_group_keys [sample_parsed 40, sample_parsed 0])
      [sample_parsed 40, sample_parsed 0] DefaultS7BatchConfig))) = mset [sample_parsed 40, sample_parsed 0]"
proof -
  have "\<forall>p\<in>set [sample_parsed 40, sample_parsed 0]. in_space (sb_MaxBytesPerRange DefaultS7BatchConfig) p"
    by (simp add: in_space_def sample_parsed_def DefaultS7BatchConfig_def)
  from s7_ranges_cover_their_tags [OF sort_key_slice_sorter walks_group_keys this] show ?thesis by (rule conjunct1)
qed

end
