(* ===== verification/S7Client.thy ===== *)
theory S7Client
  imports GoHoare S7Batch
begin

text \<open>
  The S7 client of one controller (\<open>adapter/s7/client.go\<close>, \<open>types.go\<close>, \<open>health.go\<close>): its fields, the
  connection, diagnostics, the reading and writing of one tag with retries. The library \<open>gos7\<close>, the
  clock, contexts, \<open>sync.Pool\<close>, \<open>sort.Slice\<close> and the order in which Go walks a map are the parameter
  \<open>s7_env\<close>, whose functions act on an abstract world; an error of \<open>gos7\<close> is its text, since the client
  never asks for more. Each method runs as one sequence: the client serialises its operations with
  \<open>opMu\<close>. The buffers of \<open>BufferPool\<close> are always written in full before they are read.
\<close>

unbundle bit_operations_syntax

section \<open>Fields\<close>

record s7_config =
  sc_Address :: string
  sc_Port :: int
  sc_Rack :: int
  sc_Slot :: int
  sc_Timeout :: int
  sc_IdleTimeout :: int
  sc_MaxRetries :: int
  sc_RetryDelay :: int
  sc_PDUSize :: int

record s7_stats =
  ss_ReadCount :: u64
  ss_WriteCount :: u64
  ss_ErrorCount :: u64
  ss_RetryCount :: u64
  ss_TotalReadTime :: int
  ss_TotalWriteTime :: int
  ss_ReconnectCount :: u64

record s7_diagnostic =
  sd_TagID :: string
  sd_LastError :: "gerror option"
  sd_LastErrorTime :: int
  sd_LastSuccessTime :: int
  sd_ErrorCount :: u64
  sd_SuccessCount :: u64

text \<open>\<open>sx_handler\<close> and \<open>sx_client\<close> say whether the field is not nil.\<close>

record s7_client =
  sx_config :: s7_config
  sx_batchConfig :: s7_batch_config
  sx_handler :: bool
  sx_client :: bool
  sx_connected :: bool
  sx_lastError :: "gerror option"
  sx_lastUsed :: int
  sx_stats :: s7_stats
  sx_deviceID :: string
  sx_consecutiveFailures :: u32
  sx_tagDiagnostics :: "string \<rightharpoonup> s7_diagnostic"

text \<open>An item of a multi-item request.\<close>

record s7_item =
  si_Area :: int
  si_WordLen :: int
  si_DBNumber :: int
  si_Start :: int
  si_Bit :: int
  si_Amount :: int
  si_Data :: bytes

section \<open>What the client uses of the libraries\<close>

text \<open>How the \<open>select\<close> between the dial and the context ends.\<close>

datatype s7_dial = S7Dialed | S7DialFailed string | S7DialCancelled gerror

text \<open>
  A read of one item fills the buffer it is given, byte by byte; a multi-item read leaves an error
  text and data in each of its items, a multi-item write an error text. \<open>se_Errorf\<close> is the text of
  \<open>fmt.Errorf\<close> with a controller's message as its format.
\<close>

record 'w s7_env =
  se_Now :: "'w \<Rightarrow> int \<times> 'w"
  se_sleep :: "int \<Rightarrow> 'w \<Rightarrow> gerror option \<times> 'w"
  se_ctxErr :: "'w \<Rightarrow> gerror option \<times> 'w"
  se_poolGet :: "'w \<Rightarrow> data_point \<times> 'w"
  se_Connect :: "s7_config \<Rightarrow> 'w \<Rightarrow> s7_dial \<times> 'w"
  se_Close :: "'w \<Rightarrow> unit \<times> 'w"
  se_ReadDB :: "int \<Rightarrow> int \<Rightarrow> nat \<Rightarrow> 'w \<Rightarrow> (string option \<times> (nat \<Rightarrow> byte)) \<times> 'w"
  se_ReadEB :: "int \<Rightarrow> nat \<Rightarrow> 'w \<Rightarrow> (string option \<times> (nat \<Rightarrow> byte)) \<times> 'w"
  se_WriteDB :: "int \<Rightarrow> int \<Rightarrow> bytes \<Rightarrow> 'w \<Rightarrow> string option \<times> 'w"
  se_WriteEB :: "int \<Rightarrow> bytes \<Rightarrow> 'w \<Rightarrow> string option \<times> 'w"
  se_ReadMulti :: "s7_item list \<Rightarrow> 'w \<Rightarrow> (string option \<times> (nat \<Rightarrow> string \<times> bytes)) \<times> 'w"
  se_WriteMulti :: "s7_item list \<Rightarrow> 'w \<Rightarrow> (string option \<times> (nat \<Rightarrow> string)) \<times> 'w"
  se_Errorf :: "string \<Rightarrow> string"
  se_sort :: "s7_parsed_tag list \<Rightarrow> s7_parsed_tag list"
  se_mapOrder :: "s7_group_key list \<Rightarrow> 'w \<Rightarrow> s7_group_key list \<times> 'w"

type_synonym ('w, 'a) s7 = "(s7_client \<times> 'w, 'a) prog"

section \<open>Connection\<close>

definition s7_default :: "int \<Rightarrow> int \<Rightarrow> int" where
  "s7_default d n = (if n = 0 then d else n)"

definition s7_default_config :: "s7_config \<Rightarrow> s7_config" where
  "s7_default_config config =
     config\<lparr>sc_Port := s7_default 102 (sc_Port config),
            sc_Timeout := s7_default 10000000000 (sc_Timeout config),
            sc_IdleTimeout := s7_default 60000000000 (sc_IdleTimeout config),
            sc_MaxRetries := s7_default 3 (sc_MaxRetries config),
            sc_RetryDelay := s7_default 500000000 (sc_RetryDelay config),
            sc_PDUSize := s7_default 480 (sc_PDUSize config)\<rparr>"

definition s7_NewClient :: "string \<Rightarrow> s7_config \<Rightarrow> int \<Rightarrow> gerror + s7_client" where
  "s7_NewClient deviceID config now =
     (if sc_Address config = '''' then Inl (Text ''S7 address is required'')
      else Inr \<lparr>sx_config = s7_default_config config, sx_batchConfig = DefaultS7BatchConfig, sx_handler = False,
                sx_client = False, sx_connected = False, sx_lastError = None, sx_lastUsed = now,
                sx_stats = \<lparr>ss_ReadCount = 0, ss_WriteCount = 0, ss_ErrorCount = 0, ss_RetryCount = 0,
                             ss_TotalReadTime = 0, ss_TotalWriteTime = 0, ss_ReconnectCount = 0\<rparr>,
                sx_deviceID = deviceID, sx_consecutiveFailures = 0, sx_tagDiagnostics = Map.empty\<rparr>)"

definition s7_Connect :: "'w s7_env \<Rightarrow> ('w, gerror option) s7" where
  "s7_Connect E =
     bnd (field sx_connected) (\<lambda>connected.
     if connected then ret None
     else
       bnd (field sx_config) (\<lambda>config.
       bnd (call (se_Connect E config)) (\<lambda>outcome.
       case outcome of
         S7DialFailed err \<Rightarrow>
           bnd (call (se_Close E)) (\<lambda>_.
           bnd (upd (sx_lastError_update (\<lambda>_. Some (Text err)))) (\<lambda>_.
           ret (Some (WrapV (S7E ErrS7ConnectionFailed) err))))
       | S7DialCancelled err \<Rightarrow> ret (Some (WrapV (ConnE ErrConnectionTimeout) (error_text err)))
       | S7Dialed \<Rightarrow>
           bnd (call (se_Now E)) (\<lambda>now.
           bnd (upd (\<lambda>c. c\<lparr>sx_handler := True, sx_client := True, sx_connected := True,
                             sx_lastError := None, sx_lastUsed := now\<rparr>)) (\<lambda>_.
           ret None)))))"

definition s7_Disconnect :: "'w s7_env \<Rightarrow> ('w, gerror option) s7" where
  "s7_Disconnect E =
     bnd (field sx_connected) (\<lambda>connected.
     if \<not> connected then ret None
     else
       bnd (field sx_handler) (\<lambda>handler.
       bnd (if handler then call (se_Close E) else ret ()) (\<lambda>_.
       bnd (upd (\<lambda>c. c\<lparr>sx_connected := False, sx_handler := False, sx_client := False\<rparr>)) (\<lambda>_.
       ret None))))"

definition s7_IsConnected :: "s7_client \<Rightarrow> bool" where
  "s7_IsConnected c = sx_connected c"

section \<open>Counters and diagnostics\<close>

definition s7_count :: "(s7_stats \<Rightarrow> s7_stats) \<Rightarrow> s7_client \<Rightarrow> s7_client" where
  "s7_count f c = c\<lparr>sx_stats := f (sx_stats c)\<rparr>"

definition s7_count_read :: "s7_client \<Rightarrow> s7_client" where
  "s7_count_read = s7_count (\<lambda>st. st\<lparr>ss_ReadCount := ss_ReadCount st + 1\<rparr>)"

definition s7_count_write :: "s7_client \<Rightarrow> s7_client" where
  "s7_count_write = s7_count (\<lambda>st. st\<lparr>ss_WriteCount := ss_WriteCount st + 1\<rparr>)"

definition s7_count_error :: "s7_client \<Rightarrow> s7_client" where
  "s7_count_error = s7_count (\<lambda>st. st\<lparr>ss_ErrorCount := ss_ErrorCount st + 1\<rparr>)"

definition s7_count_retry :: "s7_client \<Rightarrow> s7_client" where
  "s7_count_retry = s7_count (\<lambda>st. st\<lparr>ss_RetryCount := ss_RetryCount st + 1\<rparr>)"

definition s7_count_reconnect :: "s7_client \<Rightarrow> s7_client" where
  "s7_count_reconnect = s7_count (\<lambda>st. st\<lparr>ss_ReconnectCount := ss_ReconnectCount st + 1\<rparr>)"

definition s7_add_read_time :: "int \<Rightarrow> s7_client \<Rightarrow> s7_client" where
  "s7_add_read_time d = s7_count (\<lambda>st. st\<lparr>ss_TotalReadTime := wrap64 (ss_TotalReadTime st + d)\<rparr>)"

definition s7_add_write_time :: "int \<Rightarrow> s7_client \<Rightarrow> s7_client" where
  "s7_add_write_time d = s7_count (\<lambda>st. st\<lparr>ss_TotalWriteTime := wrap64 (ss_TotalWriteTime st + d)\<rparr>)"

definition s7_diagnostic_of :: "string \<Rightarrow> s7_client \<Rightarrow> s7_diagnostic" where
  "s7_diagnostic_of tagID c =
     (case sx_tagDiagnostics c tagID of
        Some diag \<Rightarrow> diag
      | None \<Rightarrow> \<lparr>sd_TagID = tagID, sd_LastError = None, sd_LastErrorTime = zero_time, sd_LastSuccessTime = zero_time,
                  sd_ErrorCount = 0, sd_SuccessCount = 0\<rparr>)"

definition s7_note :: "string \<Rightarrow> (s7_diagnostic \<Rightarrow> s7_diagnostic) \<Rightarrow> s7_client \<Rightarrow> s7_client" where
  "s7_note tagID f c =
     c\<lparr>sx_tagDiagnostics := (sx_tagDiagnostics c)(tagID \<mapsto> f (s7_diagnostic_of tagID c))\<rparr>"

definition s7_recordTagSuccess :: "'w s7_env \<Rightarrow> string \<Rightarrow> ('w, unit) s7" where
  "s7_recordTagSuccess E tagID =
     bnd (call (se_Now E)) (\<lambda>now.
     upd (s7_note tagID (\<lambda>d. d\<lparr>sd_LastSuccessTime := now, sd_SuccessCount := sd_SuccessCount d + 1\<rparr>)))"

definition s7_recordTagError :: "'w s7_env \<Rightarrow> string \<Rightarrow> gerror \<Rightarrow> ('w, unit) s7" where
  "s7_recordTagError E tagID err =
     bnd (call (se_Now E)) (\<lambda>now.
     upd (s7_note tagID (\<lambda>d. d\<lparr>sd_LastError := Some err, sd_LastErrorTime := now, sd_ErrorCount := sd_ErrorCount d + 1\<rparr>)))"

definition s7_GetTagDiagnostic :: "s7_client \<Rightarrow> string \<Rightarrow> s7_diagnostic option" where
  "s7_GetTagDiagnostic c tagID = sx_tagDiagnostics c tagID"

definition s7_GetStats :: "s7_client \<Rightarrow> string \<rightharpoonup> u64" where
  "s7_GetStats c =
     (let st = sx_stats c in
      [''read_count'' \<mapsto> ss_ReadCount st, ''write_count'' \<mapsto> ss_WriteCount st, ''error_count'' \<mapsto> ss_ErrorCount st,
       ''retry_count'' \<mapsto> ss_RetryCount st, ''reconnect_count'' \<mapsto> ss_ReconnectCount st,
       ''total_read_ns'' \<mapsto> word_of_int (ss_TotalReadTime st), ''total_write_ns'' \<mapsto> word_of_int (ss_TotalWriteTime st)])"

section \<open>Errors\<close>

definition s7_isConnectionError :: "gerror \<Rightarrow> bool" where
  "s7_isConnectionError err =
     contains (ToLower (error_text err)) [''connection'', ''timeout'', ''closed'', ''refused'', ''reset'']"

definition s7_isRetryableError :: "gerror \<Rightarrow> bool" where
  "s7_isRetryableError err = s7_isConnectionError err"

definition s7_acquire :: "'w s7_env \<Rightarrow> tag \<Rightarrow> goval \<Rightarrow> quality \<Rightarrow> ('w, data_point) s7" where
  "s7_acquire E t value q =
     bnd (field sx_deviceID) (\<lambda>deviceID.
     bnd (call (se_poolGet E)) (\<lambda>pooled.
     bnd (call (se_Now E)) (\<lambda>now.
     ret (AcquireDataPoint pooled now deviceID (tag_ID t) '''' value (tag_Unit t) q))))"

definition s7_createErrorDataPoint :: "'w s7_env \<Rightarrow> tag \<Rightarrow> gerror \<Rightarrow> ('w, data_point) s7" where
  "s7_createErrorDataPoint E t err =
     s7_acquire E t VNil (if s7_isConnectionError err then QualityNotConnected else QualityBad)"

text \<open>The point of a value, with the value before scaling.\<close>

definition s7_point :: "'w s7_env \<Rightarrow> tag \<Rightarrow> goval \<Rightarrow> ('w, data_point) s7" where
  "s7_point E t value =
     bnd (s7_acquire E t (s7_applyScaling value t) QualityGood) (\<lambda>dp. ret (WithRawValue dp value))"

text \<open>A shift by 64 bits or more gives 0, the product wraps around.\<close>

definition s7_calculateBackoff :: "s7_config \<Rightarrow> nat \<Rightarrow> int" where
  "s7_calculateBackoff config attempt =
     (let delay = wrap64 (sc_RetryDelay config * wrap64 (2 ^ attempt));
          maxDelay = 10000000000
      in if maxDelay < delay then maxDelay else delay)"

definition s7_reconnect :: "'w s7_env \<Rightarrow> ('w, unit) s7" where
  "s7_reconnect E =
     bnd (upd s7_count_reconnect) (\<lambda>_.
     bnd (s7_Disconnect E) (\<lambda>_.
     bnd (s7_Connect E) (\<lambda>err.
     upd (sx_lastError_update (\<lambda>_. err)))))"

text \<open>The deferred function of \<open>ReadTag\<close> and \<open>WriteTag\<close>, and their first lines.\<close>

definition s7_timed :: "'w s7_env \<Rightarrow> (int \<Rightarrow> s7_client \<Rightarrow> s7_client) \<Rightarrow> ('w, 'a) s7 \<Rightarrow> ('w, 'a) s7" where
  "s7_timed E add body =
     bnd (call (se_Now E)) (\<lambda>startTime.
     deferred body (bnd (call (se_Now E)) (\<lambda>now. upd (add (time_Sub now startTime)))))"

definition s7_touch :: "'w s7_env \<Rightarrow> ('w, unit) s7" where
  "s7_touch E = bnd (call (se_Now E)) (\<lambda>now. upd (sx_lastUsed_update (\<lambda>_. now)))"

definition s7_closed :: gerror where
  "s7_closed = Sentinel (ConnE ErrConnectionClosed)"

section \<open>One item\<close>

text \<open>\<open>S7AreaCode\<close>: the library's code of an area.\<close>

definition S7AreaCode :: "s7_area \<Rightarrow> int option" where
  "S7AreaCode area =
     (case area of
        S7AreaDB \<Rightarrow> Some 0x84
      | S7AreaM \<Rightarrow> Some 0x83
      | S7AreaI \<Rightarrow> Some 0x81
      | S7AreaQ \<Rightarrow> Some 0x82
      | S7AreaT \<Rightarrow> Some 0x1D
      | S7AreaC \<Rightarrow> Some 0x1C
      | _ \<Rightarrow> None)"

definition s7_where :: "s7_area \<Rightarrow> int \<Rightarrow> int \<Rightarrow> string" where
  "s7_where area db off = ''area='' @ area_letter area @ '' db='' @ dec db @ '' offset='' @ dec off"

text \<open>The switch on the area: data blocks, and \<open>AGReadEB\<close> and \<open>AGWriteEB\<close> for every other area.\<close>

definition read_area :: "'w s7_env \<Rightarrow> s7_area \<Rightarrow> int \<Rightarrow> int \<Rightarrow> nat \<Rightarrow> ('w, string option \<times> (nat \<Rightarrow> byte)) s7" where
  "read_area E area db off n =
     (if area = S7AreaDB then call (se_ReadDB E db off n) else call (se_ReadEB E off n))"

definition write_area :: "'w s7_env \<Rightarrow> s7_area \<Rightarrow> int \<Rightarrow> int \<Rightarrow> bytes \<Rightarrow> ('w, string option) s7" where
  "write_area E area db off bs =
     (if area = S7AreaDB then call (se_WriteDB E db off bs) else call (se_WriteEB E off bs))"

definition readData :: "'w s7_env \<Rightarrow> tag \<Rightarrow> s7_address \<Rightarrow> ('w, gerror + data_point) s7" where
  "readData E t a =
     (case a of (area, db, off, bitOffset) \<Rightarrow>
     bnd (field sx_client) (\<lambda>client.
     if \<not> client then ret (Inl s7_closed)
     else
       let byteCount = getByteCount (tag_DataType t) in
       if S7AreaCode area = None then ret (Inl (WrapV (S7E ErrS7InvalidArea) (area_letter area)))
       else
         bnd (read_area E area db off byteCount) (\<lambda>(err, buffer).
         case err of
           Some e \<Rightarrow> ret (Inl (WrapV (S7E ErrS7ReadFailed) (s7_where area db off @ '': '' @ e)))
         | None \<Rightarrow>
             (case s7_parseValue (map buffer [0..<byteCount]) t bitOffset of
                Crash p \<Rightarrow> panic p
              | Err e \<Rightarrow> ret (Inl e)
              | Ok value \<Rightarrow> bnd (s7_point E t value) (\<lambda>dp. ret (Inr dp))))))"

text \<open>A boolean is written by reading its byte, changing one bit and writing the byte back.\<close>

definition set_bit_of :: "byte \<Rightarrow> byte \<Rightarrow> bool \<Rightarrow> byte" where
  "set_bit_of w m b = (if b then w OR m else w AND NOT m)"

definition writeBoolWithRMW :: "'w s7_env \<Rightarrow> tag \<Rightarrow> s7_address \<Rightarrow> goval \<Rightarrow> ('w, gerror option) s7" where
  "writeBoolWithRMW E t a value =
     (case a of (area, db, off, bitOffset) \<Rightarrow>
     case toBool (s7_reverseScaling value t) of
       None \<Rightarrow> ret (Some (cannot_convert value ''bool''))
     | Some b \<Rightarrow>
         bnd (read_area E area db off 1) (\<lambda>(err, buffer).
         case err of
           Some e \<Rightarrow> ret (Some (WrapV (S7E ErrS7ReadFailed) (''failed to read byte for RMW: '' @ e)))
         | None \<Rightarrow>
             (case shift_byte bitOffset of
                Crash p \<Rightarrow> panic p
              | Err e \<Rightarrow> ret (Some e)
              | Ok m \<Rightarrow>
                  bnd (write_area E area db off [set_bit_of (buffer 0) m b]) (\<lambda>err.
                  ret (map_option (\<lambda>e. WrapV (S7E ErrS7WriteFailed)
                    (s7_where area db off @ '' bit='' @ dec bitOffset @ '': '' @ e)) err)))))"

definition writeData :: "'w s7_env \<Rightarrow> arch \<Rightarrow> tag \<Rightarrow> s7_address \<Rightarrow> goval \<Rightarrow> ('w, gerror option) s7" where
  "writeData E A t a value =
     (case a of (area, db, off, bitOffset) \<Rightarrow>
     bnd (field sx_client) (\<lambda>client.
     if \<not> client then ret (Some s7_closed)
     else if tag_DataType t = DataTypeBool then writeBoolWithRMW E t a value
     else
       (case s7_valueToBytes A value t bitOffset of
          Crash p \<Rightarrow> panic p
        | Err e \<Rightarrow> ret (Some e)
        | Ok buffer \<Rightarrow>
            bnd (write_area E area db off buffer) (\<lambda>err.
            ret (map_option (\<lambda>e. WrapV (S7E ErrS7WriteFailed) (s7_where area db off @ '': '' @ e)) err)))))"

section \<open>One tag, with retries\<close>

text \<open>The attempts of a loop \<open>for attempt := 0; attempt <= MaxRetries; attempt++\<close>.\<close>

definition s7_attempts :: "s7_config \<Rightarrow> nat list" where
  "s7_attempts config = [0..<nat (sc_MaxRetries config + 1)]"

text \<open>The wait before a retry: \<open>None\<close> when the delay has passed, else the context's error.\<close>

definition s7_retry_wait :: "'w s7_env \<Rightarrow> nat \<Rightarrow> ('w, gerror option) s7" where
  "s7_retry_wait E attempt =
     (if 0 < attempt then
        bnd (upd s7_count_retry) (\<lambda>_.
        bnd (field (\<lambda>c. s7_calculateBackoff (sx_config c) attempt)) (\<lambda>delay.
        call (se_sleep E delay)))
      else ret None)"

definition s7_failed :: "'w s7_env \<Rightarrow> tag \<Rightarrow> gerror \<Rightarrow> ('w, unit) s7" where
  "s7_failed E t err =
     bnd (upd s7_count_error) (\<lambda>_.
     bnd (s7_recordTagError E (tag_ID t) err) (\<lambda>_.
     upd (sx_consecutiveFailures_update (\<lambda>n. n + 1))))"

text \<open>How a retry loop is left: returning from the method, or with the last outcome of its body.\<close>

datatype ('r, 'a) s7_exit = S7Return 'r | S7Leave 'a

definition s7_read_failed :: "'w s7_env \<Rightarrow> tag \<Rightarrow> gerror \<Rightarrow> ('w, data_point option \<times> gerror option) s7" where
  "s7_read_failed E t err =
     bnd (s7_failed E t err) (\<lambda>_.
     bnd (s7_createErrorDataPoint E t err) (\<lambda>dp. ret (Some dp, Some err)))"

definition s7_reconnect_if :: "'w s7_env \<Rightarrow> gerror \<Rightarrow> ('w, unit) s7" where
  "s7_reconnect_if E err = (if s7_isConnectionError err then s7_reconnect E else ret ())"

fun s7_read_attempts ::
  "'w s7_env \<Rightarrow> tag \<Rightarrow> s7_address \<Rightarrow> data_point option \<times> gerror option \<Rightarrow> nat list \<Rightarrow>
   ('w, (data_point option \<times> gerror option, data_point option \<times> gerror option) s7_exit) s7" where
  "s7_read_attempts E t a prior [] = ret (S7Leave prior)"
| "s7_read_attempts E t a prior (attempt # rest) =
     bnd (s7_retry_wait E attempt) (\<lambda>cancelled.
     case cancelled of
       Some e \<Rightarrow> bnd (s7_recordTagError E (tag_ID t) e) (\<lambda>_. ret (S7Return (None, Some e)))
     | None \<Rightarrow>
         bnd (readData E t a) (\<lambda>result.
         case result of
           Inr dp \<Rightarrow> ret (S7Leave (Some dp, None))
         | Inl e \<Rightarrow>
             if \<not> s7_isRetryableError e then bnd (s7_read_failed E t e) (\<lambda>r. ret (S7Return r))
             else bnd (s7_reconnect_if E e) (\<lambda>_. s7_read_attempts E t a (None, Some e) rest)))"

definition s7_ReadTag :: "'w s7_env \<Rightarrow> tag \<Rightarrow> ('w, data_point option \<times> gerror option) s7" where
  "s7_ReadTag E t =
     s7_timed E s7_add_read_time (
     bnd (s7_touch E) (\<lambda>_.
     bnd (field sx_connected) (\<lambda>connected.
     if \<not> connected then bnd (s7_recordTagError E (tag_ID t) s7_closed) (\<lambda>_. ret (None, Some s7_closed))
     else case parseTagAddress t of
       Inl err \<Rightarrow> s7_read_failed E t err
     | Inr a \<Rightarrow>
         bnd (field sx_config) (\<lambda>config.
         bnd (s7_read_attempts E t a (None, None) (s7_attempts config)) (\<lambda>left.
         case left of
           S7Return r \<Rightarrow> ret r
         | S7Leave (dp, Some err) \<Rightarrow> s7_read_failed E t err
         | S7Leave (dp, None) \<Rightarrow>
             bnd (upd (sx_consecutiveFailures_update (\<lambda>_. 0))) (\<lambda>_.
             bnd (s7_recordTagSuccess E (tag_ID t)) (\<lambda>_.
             bnd (upd s7_count_read) (\<lambda>_. ret (dp, None)))))))))"

definition isTagWritable :: "tag \<Rightarrow> bool" where
  "isTagWritable t =
     (if tag_AccessMode t \<noteq> AccessModeOther ''''
      then tag_AccessMode t = AccessModeWriteOnly \<or> tag_AccessMode t = AccessModeReadWrite
      else
        let area = (if tag_S7Address t \<noteq> '''' then (case parseSymbolicAddress (tag_S7Address t) of
                       Inr (parsedArea, _) \<Rightarrow> parsedArea | Inl _ \<Rightarrow> tag_S7Area t)
                    else tag_S7Area t)
        in case area of
             S7AreaDB \<Rightarrow> True
           | S7AreaM \<Rightarrow> True
           | S7AreaQ \<Rightarrow> True
           | S7AreaI \<Rightarrow> False
           | S7AreaT \<Rightarrow> True
           | S7AreaC \<Rightarrow> True
           | _ \<Rightarrow> False)"

definition s7_not_writable :: "tag \<Rightarrow> gerror" where
  "s7_not_writable t = WrapV (WriteE ErrTagNotWritable) (''tag '' @ tag_ID t)"

fun s7_write_attempts ::
  "'w s7_env \<Rightarrow> arch \<Rightarrow> tag \<Rightarrow> s7_address \<Rightarrow> goval \<Rightarrow> gerror option \<Rightarrow> nat list \<Rightarrow>
   ('w, (gerror option, gerror option) s7_exit) s7" where
  "s7_write_attempts E A t a value prior [] = ret (S7Leave prior)"
| "s7_write_attempts E A t a value prior (attempt # rest) =
     bnd (s7_retry_wait E attempt) (\<lambda>cancelled.
     case cancelled of
       Some e \<Rightarrow> bnd (s7_recordTagError E (tag_ID t) e) (\<lambda>_. ret (S7Return (Some e)))
     | None \<Rightarrow>
         bnd (writeData E A t a value) (\<lambda>result.
         case result of
           None \<Rightarrow> ret (S7Leave None)
         | Some e \<Rightarrow>
             if \<not> s7_isRetryableError e then bnd (s7_failed E t e) (\<lambda>_. ret (S7Return (Some e)))
             else bnd (s7_reconnect_if E e) (\<lambda>_. s7_write_attempts E A t a value (Some e) rest)))"

definition s7_WriteTag :: "'w s7_env \<Rightarrow> arch \<Rightarrow> tag \<Rightarrow> goval \<Rightarrow> ('w, gerror option) s7" where
  "s7_WriteTag E A t value =
     s7_timed E s7_add_write_time (
     bnd (s7_touch E) (\<lambda>_.
     bnd (field sx_connected) (\<lambda>connected.
     if \<not> connected then bnd (s7_recordTagError E (tag_ID t) s7_closed) (\<lambda>_. ret (Some s7_closed))
     else if \<not> isTagWritable t
     then bnd (s7_recordTagError E (tag_ID t) (s7_not_writable t)) (\<lambda>_. ret (Some (s7_not_writable t)))
     else case parseTagAddress t of
       Inl err \<Rightarrow> bnd (s7_failed E t err) (\<lambda>_. ret (Some err))
     | Inr a \<Rightarrow>
         bnd (field sx_config) (\<lambda>config.
         bnd (s7_write_attempts E A t a value None (s7_attempts config)) (\<lambda>left.
         case left of
           S7Return r \<Rightarrow> ret r
         | S7Leave (Some err) \<Rightarrow> bnd (s7_failed E t err) (\<lambda>_. ret (Some err))
         | S7Leave None \<Rightarrow>
             bnd (upd (sx_consecutiveFailures_update (\<lambda>_. 0))) (\<lambda>_.
             bnd (s7_recordTagSuccess E (tag_ID t)) (\<lambda>_.
             bnd (upd s7_count_write) (\<lambda>_. ret None))))))))"

end
