(* ===== verification/S7Bulk.thy ===== *)
theory S7Bulk
  imports S7Client
begin

text \<open>
  Reading and writing many S7 tags at once (\<open>adapter/s7/client.go\<close>): the contiguous ranges, the
  fallbacks to one item per tag and to one tag at a time, and the batched writes. A map from tag IDs
  to points is a function; a slice of errors by index is a list.
\<close>

definition MaxMultiReadItems :: nat where "MaxMultiReadItems = 20"
definition MaxMultiWriteItems :: nat where "MaxMultiWriteItems = 20"

definition S7WLBit :: int where "S7WLBit = 0x01"
definition S7WLByte :: int where "S7WLByte = 0x02"
definition S7WLWord :: int where "S7WLWord = 0x04"
definition S7WLDWord :: int where "S7WLDWord = 0x06"
definition S7WLReal :: int where "S7WLReal = 0x08"

definition getWordLength :: "data_type \<Rightarrow> int" where
  "getWordLength dt =
     (case dt of
        DataTypeBool \<Rightarrow> S7WLBit
      | DataTypeInt16 \<Rightarrow> S7WLWord
      | DataTypeUInt16 \<Rightarrow> S7WLWord
      | DataTypeInt32 \<Rightarrow> S7WLDWord
      | DataTypeUInt32 \<Rightarrow> S7WLDWord
      | DataTypeFloat32 \<Rightarrow> S7WLReal
      | DataTypeFloat64 \<Rightarrow> S7WLByte
      | DataTypeInt64 \<Rightarrow> S7WLByte
      | DataTypeUInt64 \<Rightarrow> S7WLByte
      | _ \<Rightarrow> S7WLByte)"

text \<open>The chunks \<open>xs[i:end]\<close> of a loop \<open>for i := 0; i < len(xs); i += n\<close>.\<close>

function chunks :: "nat \<Rightarrow> 'a list \<Rightarrow> 'a list list" where
  "chunks n xs = (if xs = [] \<or> n = 0 then [] else take n xs # chunks n (drop n xs))"
  by pat_completeness auto
termination by (relation "measure (\<lambda>(n, xs). length xs)") auto

declare chunks.simps [simp del]

lemma concat_chunks: "0 < n \<Longrightarrow> concat (chunks n xs) = xs"
proof (induction n xs rule: chunks.induct)
  case (1 n xs)
  then show ?case by (subst chunks.simps) simp
qed

section \<open>Contiguous ranges\<close>

fun parse_tags :: "tag list \<Rightarrow> gerror + s7_parsed_tag list" where
  "parse_tags [] = Inr []"
| "parse_tags (t # ts) =
     (case parseTagAddress t of
        Inl err \<Rightarrow> Inl (WrapW (''failed to parse address for tag '' @ tag_ID t) err)
      | Inr (area, db, off, bitOffset) \<Rightarrow>
          (case parse_tags ts of
             Inl err \<Rightarrow> Inl err
           | Inr ps \<Rightarrow>
               Inr (\<lparr>pt_tag = t, pt_area = area, pt_dbNumber = db, pt_offset = off, pt_bitOffset = bitOffset,
                     pt_byteCount = int (getByteCount (tag_DataType t))\<rparr> # ps)))"

text \<open>One byte item per range; \<open>make\<close> panics for a negative length.\<close>

fun range_items :: "s7_byte_range list \<Rightarrow> (gerror, s7_item list) res" where
  "range_items [] = Ok []"
| "range_items (r # rs) =
     (case S7AreaCode (br_area r) of
        None \<Rightarrow> Err (WrapV (S7E ErrS7InvalidArea) (area_letter (br_area r)))
      | Some code \<Rightarrow>
          if br_totalBytes r < 0 then Crash ''makeslice: len out of range''
          else
            (case range_items rs of
               Ok items \<Rightarrow>
                 Ok (\<lparr>si_Area = code, si_WordLen = S7WLByte, si_DBNumber = br_dbNumber r, si_Start = br_startOffset r,
                      si_Bit = 0, si_Amount = br_totalBytes r, si_Data = replicate (nat (br_totalBytes r)) 0\<rparr> # items)
             | Err e \<Rightarrow> Err e
             | Crash p \<Rightarrow> Crash p))"

type_synonym s7_results = "string \<rightharpoonup> data_point"

text \<open>What each tag that fails does, and what each tag that is read does.\<close>

definition s7_item_failed :: "'w s7_env \<Rightarrow> tag \<Rightarrow> gerror \<Rightarrow> ('w, data_point) s7" where
  "s7_item_failed E t err =
     bnd (upd s7_count_error) (\<lambda>_.
     bnd (s7_recordTagError E (tag_ID t) err) (\<lambda>_.
     s7_createErrorDataPoint E t err))"

definition s7_item_read :: "'w s7_env \<Rightarrow> tag \<Rightarrow> bytes \<Rightarrow> int \<Rightarrow> ('w, data_point) s7" where
  "s7_item_read E t d bitOffset =
     (case s7_parseValue d t bitOffset of
        Crash p \<Rightarrow> panic p
      | Err err \<Rightarrow> s7_item_failed E t err
      | Ok value \<Rightarrow>
          bnd (s7_point E t value) (\<lambda>dp.
          bnd (upd s7_count_read) (\<lambda>_.
          bnd (s7_recordTagSuccess E (tag_ID t)) (\<lambda>_. ret dp))))"

definition exceeds_text :: "s7_tag_in_range \<Rightarrow> nat \<Rightarrow> string" where
  "exceeds_text r n =
     ''tag '' @ tag_ID (sr_tag r) @ '': offset '' @ dec (sr_offset r) @ '' + size '' @ dec (sr_byteCount r) @
     '' exceeds buffer '' @ dec (int n)"

definition extract_tag :: "'w s7_env \<Rightarrow> bytes \<Rightarrow> s7_tag_in_range \<Rightarrow> ('w, data_point) s7" where
  "extract_tag E d r =
     (if int (length d) < wrap64 (sr_offset r + sr_byteCount r)
      then s7_item_failed E (sr_tag r) (Text (exceeds_text r (length d)))
      else if sr_offset r < 0 \<or> sr_byteCount r < 0 then panic ''slice bounds out of range''
      else s7_item_read E (sr_tag r) (part d (nat (sr_offset r)) (nat (sr_byteCount r))) (sr_bitOffset r))"

text \<open>The tags of one range, from the error text and the data of its item.\<close>

fun extract_tags :: "'w s7_env \<Rightarrow> string \<Rightarrow> bytes \<Rightarrow> s7_tag_in_range list \<Rightarrow> s7_results \<Rightarrow> ('w, s7_results) s7" where
  "extract_tags E e d [] m = ret m"
| "extract_tags E e d (r # rs) m =
     bnd (if e \<noteq> '''' then s7_item_failed E (sr_tag r) (Text (se_Errorf E e)) else extract_tag E d r) (\<lambda>dp.
     extract_tags E e d rs (m(tag_ID (sr_tag r) \<mapsto> dp)))"

fun extract_ranges ::
  "'w s7_env \<Rightarrow> (nat \<Rightarrow> string \<times> bytes) \<Rightarrow> nat \<Rightarrow> s7_byte_range list \<Rightarrow> s7_results \<Rightarrow> ('w, s7_results) s7" where
  "extract_ranges E reply i [] m = ret m"
| "extract_ranges E reply i (r # rs) m =
     bnd (extract_tags E (fst (reply i)) (snd (reply i)) (br_tags r) m) (\<lambda>m.
     extract_ranges E reply (Suc i) rs m)"

definition multi_read_failed :: "string \<Rightarrow> gerror" where
  "multi_read_failed e = WrapV (S7E ErrS7ReadFailed) (''AGReadMulti failed: '' @ e)"

definition readContiguousRanges ::
  "'w s7_env \<Rightarrow> s7_byte_range list \<Rightarrow> s7_results \<Rightarrow> ('w, gerror + s7_results) s7" where
  "readContiguousRanges E ranges m =
     (case range_items ranges of
        Crash p \<Rightarrow> panic p
      | Err err \<Rightarrow> ret (Inl err)
      | Ok items \<Rightarrow>
          bnd (field sx_client) (\<lambda>client.
          if \<not> client then ret (Inl s7_closed)
          else
            bnd (call (se_ReadMulti E items)) (\<lambda>(err, reply).
            case err of
              Some e \<Rightarrow> ret (Inl (multi_read_failed e))
            | None \<Rightarrow> bnd (extract_ranges E reply 0 ranges m) (\<lambda>m. ret (Inr m)))))"

fun read_chunks :: "'w s7_env \<Rightarrow> s7_byte_range list list \<Rightarrow> s7_results \<Rightarrow> ('w, gerror + s7_results) s7" where
  "read_chunks E [] m = ret (Inr m)"
| "read_chunks E (c # cs) m =
     bnd (call (se_ctxErr E)) (\<lambda>stop.
     case stop of
       Some e \<Rightarrow> ret (Inl e)
     | None \<Rightarrow>
         bnd (readContiguousRanges E c m) (\<lambda>result.
         case result of Inl e \<Rightarrow> ret (Inl e) | Inr m \<Rightarrow> read_chunks E cs m))"

text \<open>The results in the order of the tags.\<close>

fun assemble :: "'w s7_env \<Rightarrow> s7_results \<Rightarrow> tag list \<Rightarrow> ('w, data_point list) s7" where
  "assemble E m [] = ret []"
| "assemble E m (t # ts) =
     bnd (case m (tag_ID t) of
            None \<Rightarrow> s7_createErrorDataPoint E t (Text (''tag '' @ tag_ID t @ '' missing from batch result''))
          | Some dp \<Rightarrow> ret dp) (\<lambda>dp.
     bnd (assemble E m ts) (\<lambda>dps. ret (dp # dps)))"

definition readTagsOptimized :: "'w s7_env \<Rightarrow> tag list \<Rightarrow> ('w, gerror + data_point list) s7" where
  "readTagsOptimized E ts =
     (case parse_tags ts of
        Inl err \<Rightarrow> ret (Inl err)
      | Inr parsed \<Rightarrow>
          bnd (call (se_mapOrder E (s7_group_keys parsed))) (\<lambda>order.
          bnd (field (\<lambda>c. buildS7ContiguousRanges (se_sort E) order parsed (sx_batchConfig c))) (\<lambda>ranges.
          bnd (read_chunks E (chunks MaxMultiReadItems ranges) Map.empty) (\<lambda>result.
          case result of
            Inl err \<Rightarrow> ret (Inl err)
          | Inr m \<Rightarrow> bnd (assemble E m ts) (\<lambda>dps. ret (Inr dps))))))"

section \<open>One item per tag\<close>

fun tag_items :: "tag list \<Rightarrow> gerror + s7_item list" where
  "tag_items [] = Inr []"
| "tag_items (t # ts) =
     (case parseTagAddress t of
        Inl err \<Rightarrow> Inl (WrapW (''failed to parse address for tag '' @ tag_ID t) err)
      | Inr (area, db, off, bitOffset) \<Rightarrow>
          (case S7AreaCode area of
             None \<Rightarrow> Inl (WrapV (S7E ErrS7InvalidArea) (area_letter area @ '' for tag '' @ tag_ID t))
           | Some code \<Rightarrow>
               (case tag_items ts of
                  Inl err \<Rightarrow> Inl err
                | Inr items \<Rightarrow>
                    Inr (\<lparr>si_Area = code, si_WordLen = getWordLength (tag_DataType t), si_DBNumber = db, si_Start = off,
                          si_Bit = bitOffset, si_Amount = int (getByteCount (tag_DataType t)),
                          si_Data = replicate (getByteCount (tag_DataType t)) 0\<rparr> # items))))"

fun item_points :: "'w s7_env \<Rightarrow> (nat \<Rightarrow> string \<times> bytes) \<Rightarrow> nat \<Rightarrow> tag list \<Rightarrow> s7_item list \<Rightarrow> ('w, data_point list) s7" where
  "item_points E reply i (t # ts) (item # items) =
     bnd (if fst (reply i) \<noteq> '''' then s7_item_failed E t (Text (se_Errorf E (fst (reply i))))
          else s7_item_read E t (snd (reply i)) (si_Bit item)) (\<lambda>dp.
     bnd (item_points E reply (Suc i) ts items) (\<lambda>dps. ret (dp # dps)))"
| "item_points E reply i _ _ = ret []"

definition readTagBatch :: "'w s7_env \<Rightarrow> tag list \<Rightarrow> ('w, gerror + data_point list) s7" where
  "readTagBatch E ts =
     (if ts = [] then ret (Inr [])
      else case tag_items ts of
        Inl err \<Rightarrow> ret (Inl err)
      | Inr items \<Rightarrow>
          bnd (field sx_client) (\<lambda>client.
          if \<not> client then ret (Inl s7_closed)
          else
            bnd (call (se_ReadMulti E items)) (\<lambda>(err, reply).
            case err of
              Some e \<Rightarrow> ret (Inl (multi_read_failed e))
            | None \<Rightarrow> bnd (item_points E reply 0 ts items) (\<lambda>dps. ret (Inr dps)))))"

text \<open>One tag at a time: the error is dropped, and the point may be missing.\<close>

fun read_each :: "'w s7_env \<Rightarrow> tag list \<Rightarrow> ('w, data_point option list) s7" where
  "read_each E [] = ret []"
| "read_each E (t # ts) =
     bnd (s7_ReadTag E t) (\<lambda>(dp, err).
     bnd (read_each E ts) (\<lambda>dps. ret (dp # dps)))"

fun fallback_chunks :: "'w s7_env \<Rightarrow> tag list list \<Rightarrow> ('w, data_point option list \<times> gerror option) s7" where
  "fallback_chunks E [] = ret ([], None)"
| "fallback_chunks E (c # cs) =
     bnd (call (se_ctxErr E)) (\<lambda>stop.
     case stop of
       Some e \<Rightarrow> ret ([], Some e)
     | None \<Rightarrow>
         bnd (readTagBatch E c) (\<lambda>result.
         bnd (case result of Inl err \<Rightarrow> read_each E c | Inr dps \<Rightarrow> ret (map Some dps)) (\<lambda>dps.
         bnd (fallback_chunks E cs) (\<lambda>(rest, err). ret (dps @ rest, err)))))"

definition readTagsFallback :: "'w s7_env \<Rightarrow> tag list \<Rightarrow> ('w, data_point option list \<times> gerror option) s7" where
  "readTagsFallback E ts = fallback_chunks E (chunks MaxMultiReadItems ts)"

definition s7_ReadTags :: "'w s7_env \<Rightarrow> tag list \<Rightarrow> ('w, data_point option list \<times> gerror option) s7" where
  "s7_ReadTags E ts =
     (if ts = [] then ret ([], None)
      else
        bnd (s7_touch E) (\<lambda>_.
        bnd (field sx_connected) (\<lambda>connected.
        if \<not> connected then ret ([], Some s7_closed)
        else
          bnd (readTagsOptimized E ts) (\<lambda>result.
          case result of
            Inr dps \<Rightarrow> ret (map Some dps, None)
          | Inl err \<Rightarrow> readTagsFallback E ts))))"

section \<open>Writing many tags\<close>

record s7_write =
  sw_Tag :: tag
  sw_Value :: goval

text \<open>\<open>indexedWrite\<close>: a write and where its error goes.\<close>

type_synonym s7_indexed = "nat \<times> s7_write"

text \<open>The items of a batch with their places in it, or a panic; a write that fails to prepare leaves its error.\<close>

fun prepare_writes ::
  "arch \<Rightarrow> nat \<Rightarrow> s7_write list \<Rightarrow> gerror option list \<Rightarrow> string + gerror option list \<times> (nat \<times> s7_item) list" where
  "prepare_writes A i [] errs = Inr (errs, [])"
| "prepare_writes A i (w # ws) errs =
     (let t = sw_Tag w in
      case parseTagAddress t of
        Inl err \<Rightarrow>
          prepare_writes A (Suc i) ws (errs[i := Some (WrapW (''failed to parse address for tag '' @ tag_ID t) err)])
      | Inr (area, db, off, bitOffset) \<Rightarrow>
          (case S7AreaCode area of
             None \<Rightarrow>
               prepare_writes A (Suc i) ws
                 (errs[i := Some (WrapV (S7E ErrS7InvalidArea) (area_letter area @ '' for tag '' @ tag_ID t))])
           | Some code \<Rightarrow>
               (case s7_valueToBytes A (sw_Value w) t bitOffset of
                  Crash p \<Rightarrow> Inl p
                | Err err \<Rightarrow>
                    prepare_writes A (Suc i) ws (errs[i := Some (WrapW (''failed to convert value for tag '' @ tag_ID t) err)])
                | Ok buffer \<Rightarrow>
                    (case prepare_writes A (Suc i) ws errs of
                       Inr (errs, items) \<Rightarrow>
                         Inr (errs, (i, \<lparr>si_Area = code, si_WordLen = getWordLength (tag_DataType t), si_DBNumber = db,
                                        si_Start = off, si_Bit = bitOffset, si_Amount = int (length buffer),
                                        si_Data = buffer\<rparr>) # items)
                     | Inl p \<Rightarrow> Inl p))))"

text \<open>A failure of the whole request, and the outcome of each item.\<close>

fun fail_items :: "gerror \<Rightarrow> bool \<Rightarrow> nat list \<Rightarrow> gerror option list \<Rightarrow> ('w, gerror option list) s7" where
  "fail_items err counted [] errs = ret errs"
| "fail_items err counted (i # is) errs =
     bnd (if counted then upd s7_count_error else ret ()) (\<lambda>_.
     fail_items err counted is (errs[i := Some err]))"

fun settle_items ::
  "'w s7_env \<Rightarrow> (nat \<Rightarrow> string) \<Rightarrow> nat \<Rightarrow> s7_write list \<Rightarrow> nat list \<Rightarrow> gerror option list \<Rightarrow> ('w, gerror option list) s7" where
  "settle_items E reply j ws [] errs = ret errs"
| "settle_items E reply j ws (i # is) errs =
     (if reply j \<noteq> ''''
      then
        let err = WrapV (S7E ErrS7WriteFailed) (reply j) in
        bnd (upd s7_count_error) (\<lambda>_.
        bnd (s7_recordTagError E (tag_ID (sw_Tag (ws ! i))) err) (\<lambda>_.
        settle_items E reply (Suc j) ws is (errs[i := Some err])))
      else
        bnd (upd s7_count_write) (\<lambda>_.
        bnd (upd (sx_consecutiveFailures_update (\<lambda>_. 0))) (\<lambda>_.
        bnd (s7_recordTagSuccess E (tag_ID (sw_Tag (ws ! i)))) (\<lambda>_.
        settle_items E reply (Suc j) ws is errs))))"

definition writeTagBatch :: "'w s7_env \<Rightarrow> arch \<Rightarrow> s7_write list \<Rightarrow> ('w, gerror option list) s7" where
  "writeTagBatch E A ws =
     (if ws = [] then ret []
      else case prepare_writes A 0 ws (replicate (length ws) None) of
        Inl p \<Rightarrow> panic p
      | Inr (errs, []) \<Rightarrow> ret errs
      | Inr (errs, items) \<Rightarrow>
          bnd (field sx_client) (\<lambda>client.
          if \<not> client then fail_items s7_closed False (map fst items) errs
          else
            bnd (call (se_Now E)) (\<lambda>startTime.
            bnd (call (se_WriteMulti E (map snd items))) (\<lambda>(err, reply).
            bnd (call (se_Now E)) (\<lambda>now.
            bnd (upd (s7_add_write_time (time_Sub now startTime))) (\<lambda>_.
            case err of
              Some e \<Rightarrow>
                fail_items (WrapV (S7E ErrS7WriteFailed) (''AGWriteMulti failed: '' @ e)) True (map fst items) errs
            | None \<Rightarrow> settle_items E reply 0 ws (map fst items) errs))))))"

text \<open>The writes that may be made, booleans apart; the others leave their error.\<close>

fun classify ::
  "nat \<Rightarrow> s7_write list \<Rightarrow> gerror option list \<times> s7_indexed list \<times> s7_indexed list" where
  "classify i [] = ([], [], [])"
| "classify i (w # ws) =
     (case classify (Suc i) ws of (errs, batchable, bools) \<Rightarrow>
        if \<not> isTagWritable (sw_Tag w) then (Some (s7_not_writable (sw_Tag w)) # errs, batchable, bools)
        else if tag_DataType (sw_Tag w) = DataTypeBool then (None # errs, batchable, (i, w) # bools)
        else (None # errs, (i, w) # batchable, bools))"

fun put_errors :: "nat list \<Rightarrow> gerror option list \<Rightarrow> gerror option list \<Rightarrow> gerror option list" where
  "put_errors (i # is) (e # es) errs = put_errors is es (errs[i := e])"
| "put_errors _ _ errs = errs"

text \<open>The loop over the chunks; when the context ends, everything left has its error.\<close>

fun write_chunks ::
  "'w s7_env \<Rightarrow> arch \<Rightarrow> s7_indexed list \<Rightarrow> s7_indexed list list \<Rightarrow> gerror option list \<Rightarrow>
   ('w, (gerror option list, gerror option list) s7_exit) s7" where
  "write_chunks E A bools [] errs = ret (S7Leave errs)"
| "write_chunks E A bools (c # cs) errs =
     bnd (call (se_ctxErr E)) (\<lambda>stop.
     case stop of
       Some e \<Rightarrow>
         let errs = fold (\<lambda>(i, w) errs. errs[i := Some e]) (concat (c # cs)) errs in
         ret (S7Return (fold (\<lambda>(i, w) errs. if errs ! i = None then errs[i := Some e] else errs) bools errs))
     | None \<Rightarrow>
         bnd (writeTagBatch E A (map snd c)) (\<lambda>es.
         write_chunks E A bools cs (put_errors (map fst c) es errs)))"

fun write_bools :: "'w s7_env \<Rightarrow> arch \<Rightarrow> s7_indexed list \<Rightarrow> gerror option list \<Rightarrow> ('w, gerror option list) s7" where
  "write_bools E A [] errs = ret errs"
| "write_bools E A ((i, w) # bs) errs =
     bnd (call (se_ctxErr E)) (\<lambda>stop.
     bnd (case stop of Some e \<Rightarrow> ret (Some e) | None \<Rightarrow> s7_WriteTag E A (sw_Tag w) (sw_Value w)) (\<lambda>err.
     write_bools E A bs (errs[i := err])))"

definition s7_WriteTags :: "'w s7_env \<Rightarrow> arch \<Rightarrow> s7_write list \<Rightarrow> ('w, gerror option list) s7" where
  "s7_WriteTags E A ws =
     (if ws = [] then ret []
      else
        bnd (s7_touch E) (\<lambda>_.
        bnd (field sx_connected) (\<lambda>connected.
        if \<not> connected then ret (replicate (length ws) (Some s7_closed))
        else
          case classify 0 ws of (errs, batchable, bools) \<Rightarrow>
            bnd (write_chunks E A bools (chunks MaxMultiWriteItems batchable) errs) (\<lambda>left.
            case left of
              S7Return errs \<Rightarrow> ret errs
            | S7Leave errs \<Rightarrow> write_bools E A bools errs))))"

end
