(* ===== verification/S7ClientProps.thy ===== *)
theory S7ClientProps
  imports S7Bulk
begin

text \<open>
  What the methods of the S7 client keep, and that they return. \<open>s7_frame\<close> is the contract of the
  updates that a batched read makes, \<open>s7_connecting\<close> adds connecting and disconnecting; whatever both
  keep, every method keeps, whatever the library does.
\<close>

section \<open>Frames\<close>

locale s7_frame =
  fixes P :: "s7_client \<Rightarrow> bool"
  assumes P_count: "P c \<Longrightarrow> P (s7_count f c)"
    and P_note: "P c \<Longrightarrow> P (s7_note i g c)"
    and P_fields: "P c \<Longrightarrow> P (c\<lparr>sx_lastUsed := n\<rparr>)" "P c \<Longrightarrow> P (c\<lparr>sx_consecutiveFailures := k\<rparr>)"
begin

lemma updates [preserving]:
  "preserves (on_client P) (upd s7_count_read)" "preserves (on_client P) (upd s7_count_write)"
  "preserves (on_client P) (upd s7_count_error)" "preserves (on_client P) (upd s7_count_retry)"
  "preserves (on_client P) (upd s7_count_reconnect)"
  "preserves (on_client P) (upd (s7_add_read_time n))" "preserves (on_client P) (upd (s7_add_write_time n))"
  "preserves (on_client P) (upd (s7_note i g))"
  "preserves (on_client P) (upd (sx_lastUsed_update (\<lambda>_. n)))"
  "preserves (on_client P) (upd (sx_consecutiveFailures_update h))"
proof -
  have "P (sx_consecutiveFailures_update h c)" if "P c" for c
    using P_fields(2) [OF that, of "h (sx_consecutiveFailures c)"] by (cases c) simp
  then show "preserves (on_client P) (upd (sx_consecutiveFailures_update h))" by (rule on_client_upd)
qed (auto intro!: on_client_upd P_count P_note P_fields
      simp: s7_count_read_def s7_count_write_def s7_count_error_def s7_count_retry_def s7_count_reconnect_def
        s7_add_read_time_def s7_add_write_time_def)

lemma recordTagSuccess [preserving]: "preserves (on_client P) (s7_recordTagSuccess E i)"
  unfolding s7_recordTagSuccess_def by (intro preserving)

lemma recordTagError [preserving]: "preserves (on_client P) (s7_recordTagError E i err)"
  unfolding s7_recordTagError_def by (intro preserving)

lemma acquire [preserving]: "preserves (on_client P) (s7_acquire E t v q)"
  unfolding s7_acquire_def by (intro preserving)

lemma error_point [preserving]: "preserves (on_client P) (s7_createErrorDataPoint E t err)"
  unfolding s7_createErrorDataPoint_def by (intro preserving)

lemma point [preserving]: "preserves (on_client P) (s7_point E t v)"
  unfolding s7_point_def by (intro preserving)

lemma touch [preserving]: "preserves (on_client P) (s7_touch E)"
  unfolding s7_touch_def by (intro preserving)

lemma timed_read [preserving]:
  "preserves (on_client P) body \<Longrightarrow> preserves (on_client P) (s7_timed E s7_add_read_time body)"
  unfolding s7_timed_def by (intro preserving)

lemma timed_write [preserving]:
  "preserves (on_client P) body \<Longrightarrow> preserves (on_client P) (s7_timed E s7_add_write_time body)"
  unfolding s7_timed_def by (intro preserving)

lemma areas [preserving]:
  "preserves (on_client P) (read_area E area db off n)" "preserves (on_client P) (write_area E area db off bs)"
  unfolding read_area_def write_area_def by (intro preserving)+

lemma readData [preserving]: "preserves (on_client P) (readData E t a)"
  unfolding readData_def Let_def by (intro preserving)

lemma writeBool [preserving]: "preserves (on_client P) (writeBoolWithRMW E t a v)"
  unfolding writeBoolWithRMW_def by (intro preserving)

lemma writeData [preserving]: "preserves (on_client P) (writeData E A t a v)"
  unfolding writeData_def by (intro preserving)

lemma retry_wait [preserving]: "preserves (on_client P) (s7_retry_wait E n)"
  unfolding s7_retry_wait_def by (intro preserving)

lemma failed [preserving]: "preserves (on_client P) (s7_failed E t err)"
  unfolding s7_failed_def by (intro preserving)

lemma read_failed [preserving]: "preserves (on_client P) (s7_read_failed E t err)"
  unfolding s7_read_failed_def by (intro preserving)

lemma item_failed [preserving]: "preserves (on_client P) (s7_item_failed E t err)"
  unfolding s7_item_failed_def by (intro preserving)

lemma item_read [preserving]: "preserves (on_client P) (s7_item_read E t d b)"
  unfolding s7_item_read_def by (intro preserving)

lemma extract_tag [preserving]: "preserves (on_client P) (extract_tag E d r)"
  unfolding extract_tag_def by (intro preserving)

lemma extract_tags [preserving]: "preserves (on_client P) (extract_tags E e d rs m)"
  by (induction rs arbitrary: m) (auto intro!: preserving)

lemma extract_ranges [preserving]: "preserves (on_client P) (extract_ranges E reply i rs m)"
  by (induction rs arbitrary: i m) (auto intro!: preserving)

lemma readContiguousRanges [preserving]: "preserves (on_client P) (readContiguousRanges E rs m)"
  unfolding readContiguousRanges_def by (intro preserving)

lemma read_chunks [preserving]: "preserves (on_client P) (read_chunks E cs m)"
  by (induction cs arbitrary: m) (auto intro!: preserving)

lemma assemble [preserving]: "preserves (on_client P) (assemble E m ts)"
  by (induction ts) (auto intro!: preserving)

lemma readTagsOptimized [preserving]: "preserves (on_client P) (readTagsOptimized E ts)"
  unfolding readTagsOptimized_def by (intro preserving)

lemma item_points [preserving]: "preserves (on_client P) (item_points E reply i ts items)"
  by (induction E reply i ts items rule: item_points.induct) (auto intro!: preserving)

lemma readTagBatch [preserving]: "preserves (on_client P) (readTagBatch E ts)"
  unfolding readTagBatch_def by (intro preserving)

lemma fail_items [preserving]: "preserves (on_client P) (fail_items err b is errs)"
  by (induction "is" arbitrary: errs) (auto intro!: preserving)

lemma settle_items [preserving]: "preserves (on_client P) (settle_items E reply j ws is errs)"
  by (induction "is" arbitrary: j errs) (auto simp: Let_def intro!: preserving)

lemma writeTagBatch [preserving]: "preserves (on_client P) (writeTagBatch E A ws)"
  unfolding writeTagBatch_def by (auto split: sum.split list.split prod.split intro!: preserving)

lemma write_chunks [preserving]: "preserves (on_client P) (write_chunks E A bools cs errs)"
  by (induction cs arbitrary: errs) (auto simp: Let_def intro!: preserving)

end

locale s7_connecting = s7_frame +
  assumes P_connect: "P c \<Longrightarrow> P (c\<lparr>sx_handler := True, sx_client := True, sx_connected := True,
      sx_lastError := None, sx_lastUsed := n\<rparr>)"
    and P_disconnect: "P c \<Longrightarrow> P (c\<lparr>sx_connected := False, sx_handler := False, sx_client := False\<rparr>)"
    and P_lastError: "P c \<Longrightarrow> P (c\<lparr>sx_lastError := e\<rparr>)"
begin

lemma Connect [preserving]: "preserves (on_client P) (s7_Connect E)"
  unfolding s7_Connect_def
  by (auto intro!: preserving on_client_upd P_connect P_lastError split: s7_dial.split)

lemma Disconnect [preserving]: "preserves (on_client P) (s7_Disconnect E)"
  unfolding s7_Disconnect_def by (intro preserving on_client_upd P_disconnect)

lemma reconnect [preserving]: "preserves (on_client P) (s7_reconnect E)"
  unfolding s7_reconnect_def by (intro preserving on_client_upd P_lastError)

lemma reconnect_if [preserving]: "preserves (on_client P) (s7_reconnect_if E err)"
  unfolding s7_reconnect_if_def by (intro preserving)

lemma read_attempts [preserving]: "preserves (on_client P) (s7_read_attempts E t a r as)"
  by (induction "as" arbitrary: r) (auto intro!: preserving)

lemma write_attempts [preserving]: "preserves (on_client P) (s7_write_attempts E A t a v r as)"
  by (induction "as" arbitrary: r) (auto intro!: preserving)

lemma ReadTag [preserving]: "preserves (on_client P) (s7_ReadTag E t)"
  unfolding s7_ReadTag_def by (auto split: s7_exit.split sum.split option.split intro!: preserving)

lemma WriteTag [preserving]: "preserves (on_client P) (s7_WriteTag E A t v)"
  unfolding s7_WriteTag_def by (auto split: s7_exit.split sum.split option.split intro!: preserving)

lemma read_each [preserving]: "preserves (on_client P) (read_each E ts)"
  by (induction ts) (auto intro!: preserving)

lemma fallback_chunks [preserving]: "preserves (on_client P) (fallback_chunks E cs)"
  by (induction cs) (auto intro!: preserving)

lemma ReadTags [preserving]: "preserves (on_client P) (s7_ReadTags E ts)"
  unfolding s7_ReadTags_def readTagsFallback_def by (intro preserving)

lemma write_bools [preserving]: "preserves (on_client P) (write_bools E A bs errs)"
  by (induction bs arbitrary: errs) (auto intro!: preserving)

lemma WriteTags [preserving]: "preserves (on_client P) (s7_WriteTags E A ws)"
  unfolding s7_WriteTags_def by (auto split: s7_exit.split prod.split intro!: preserving)

end

section \<open>The invariant\<close>

text \<open>
  The client is connected exactly when it holds a handler and a library client; its configuration,
  its batching limits and its name are those it was built with.
\<close>

definition s7_sound :: "s7_config \<Rightarrow> string \<Rightarrow> s7_client \<Rightarrow> bool" where
  "s7_sound k d c \<longleftrightarrow> (sx_handler c \<longleftrightarrow> sx_connected c) \<and> (sx_client c \<longleftrightarrow> sx_connected c) \<and>
     sx_config c = k \<and> sx_batchConfig c = DefaultS7BatchConfig \<and> sx_deviceID c = d"

interpretation s7_inv: s7_connecting "s7_sound k d" for k d
  by unfold_locales (simp_all add: s7_sound_def s7_count_def s7_note_def)

text \<open>A batched read leaves the connection as it is.\<close>

definition s7_live :: "s7_client \<Rightarrow> bool" where
  "s7_live c \<longleftrightarrow> sx_client c \<and> sx_batchConfig c = DefaultS7BatchConfig"

interpretation s7_alive: s7_frame s7_live
  by unfold_locales (simp_all add: s7_live_def s7_count_def s7_note_def)

section \<open>Reads return\<close>

text \<open>What the parameters promise, and addresses that a read can use.\<close>

definition s7_libs_ok :: "'w s7_env \<Rightarrow> bool" where
  "s7_libs_ok E \<longleftrightarrow> slice_sorter (se_sort E) \<and> (\<forall>parsed w. walks parsed (fst (se_mapOrder E (s7_group_keys parsed) w)))"

definition addressable :: "tag \<Rightarrow> bool" where
  "addressable t \<longleftrightarrow>
     (case parseTagAddress t of
        Inl e \<Rightarrow> True
      | Inr (area, db, off, bitOffset) \<Rightarrow> 0 \<le> off \<and> off + 8 < 2 ^ 63 \<and> 0 \<le> bitOffset)"

definition keyed :: "s7_results \<Rightarrow> bool" where
  "keyed m \<longleftrightarrow> (\<forall>i dp. m i = Some dp \<longrightarrow> dp_TagID dp = i)"

definition fits_tag :: "data_point option \<Rightarrow> tag \<Rightarrow> bool" where
  "fits_tag d t \<longleftrightarrow> (case d of None \<Rightarrow> True | Some dp \<Rightarrow> dp_TagID dp = tag_ID t)"

definition answers :: "tag list \<Rightarrow> data_point option list \<times> gerror option \<Rightarrow> bool" where
  "answers ts r \<longleftrightarrow> list_all2 fits_tag (fst r) (take (length (fst r)) ts) \<and> (snd r = None \<longrightarrow> length (fst r) = length ts)"

definition readable :: "s7_tag_in_range \<Rightarrow> bool" where
  "readable r \<longleftrightarrow> 0 \<le> sr_offset r \<and> 0 \<le> sr_byteCount r \<and> 0 \<le> sr_bitOffset r"

lemma yields_kept:
  "preserves P (upd f) \<Longrightarrow> yields P (upd f) (\<lambda>_. True)" "preserves P (call g) \<Longrightarrow> yields P (call g) (\<lambda>_. True)"
  by (force simp: yields_def preserves_def upd_def call_def split: prod.splits)+

lemma yields_seq: "yields P m (\<lambda>_. True) \<Longrightarrow> (\<And>a. yields P (f a) Q) \<Longrightarrow> yields P (bnd m f) Q"
  by (erule yields_bnd)

lemma yields_deferred:
  "yields P m Q \<Longrightarrow> yields P d (\<lambda>_. True) \<Longrightarrow> yields P (deferred m d) Q"
  unfolding yields_def deferred_def by (fastforce split: prod.split)

context s7_frame begin

lemma yields_updates [yielding]:
  "yields (on_client P) (upd s7_count_read) (\<lambda>_. True)" "yields (on_client P) (upd s7_count_write) (\<lambda>_. True)"
  "yields (on_client P) (upd s7_count_error) (\<lambda>_. True)" "yields (on_client P) (upd s7_count_retry) (\<lambda>_. True)"
  "yields (on_client P) (upd s7_count_reconnect) (\<lambda>_. True)"
  "yields (on_client P) (upd (s7_add_read_time n)) (\<lambda>_. True)"
  "yields (on_client P) (upd (s7_add_write_time n)) (\<lambda>_. True)"
  "yields (on_client P) (upd (s7_note i g)) (\<lambda>_. True)"
  "yields (on_client P) (upd (sx_lastUsed_update (\<lambda>_. n))) (\<lambda>_. True)"
  "yields (on_client P) (upd (sx_consecutiveFailures_update h)) (\<lambda>_. True)"
  "yields (on_client P) (call k) (\<lambda>_. True)" "yields (on_client P) (field f) (\<lambda>_. True)"
  by (intro yields_kept yields_field updates on_client_call)+

lemma quiet [yielding]:
  "yields (on_client P) (s7_recordTagSuccess E i) (\<lambda>_. True)"
  "yields (on_client P) (s7_recordTagError E i err) (\<lambda>_. True)"
  "yields (on_client P) (s7_touch E) (\<lambda>_. True)"
  unfolding s7_recordTagSuccess_def s7_recordTagError_def s7_touch_def by (intro yields_seq yielding)+

lemma acquire_gives_point:
  "yields (on_client P) (s7_acquire E t v q)
     (\<lambda>dp. dp_TagID dp = tag_ID t \<and> dp_Value dp = v \<and> dp_Quality dp = q)"
  unfolding s7_acquire_def by (intro yields_seq yielding) (simp add: AcquireDataPoint_def)

lemma error_point_yields: "yields (on_client P) (s7_createErrorDataPoint E t err) (\<lambda>dp. dp_TagID dp = tag_ID t)"
  unfolding s7_createErrorDataPoint_def by (rule yields_weaken [OF acquire_gives_point]) simp

lemma point_yields:
  "yields (on_client P) (s7_point E t v)
     (\<lambda>dp. dp_TagID dp = tag_ID t \<and> dp_Value dp = s7_applyScaling v t \<and> dp_Quality dp = QualityGood)"
  unfolding s7_point_def by (rule yields_bnd [OF acquire_gives_point], rule yields_ret) (simp add: WithRawValue_def)

lemma item_failed_yields: "yields (on_client P) (s7_item_failed E t err) (\<lambda>dp. dp_TagID dp = tag_ID t)"
  unfolding s7_item_failed_def by (intro yields_seq yielding error_point_yields)

lemma item_value_yields:
  assumes "s7_parseValue d t b = Ok v"
  shows "yields (on_client P) (s7_item_read E t d b)
     (\<lambda>dp. dp_TagID dp = tag_ID t \<and> dp_Value dp = s7_applyScaling v t \<and> dp_Quality dp = QualityGood)"
  unfolding s7_item_read_def assms res.case
  by (rule yields_bnd [OF point_yields], intro yields_seq yielding) simp

lemma item_read_yields:
  assumes "0 \<le> b"
  shows "yields (on_client P) (s7_item_read E t d b) (\<lambda>dp. dp_TagID dp = tag_ID t)"
proof (cases "s7_parseValue d t b")
  case (Ok v)
  then show ?thesis by (rule yields_weaken [OF item_value_yields]) simp
next
  case (Err e)
  then show ?thesis by (simp add: s7_item_read_def item_failed_yields)
next
  case (Crash p)
  with s7_parseValue_no_crash [of b t d] assms show ?thesis by simp
qed

lemma extract_tag_yields:
  assumes "readable r"
  shows "yields (on_client P) (extract_tag E d r) (\<lambda>dp. dp_TagID dp = tag_ID (sr_tag r))"
  using assms item_failed_yields item_read_yields by (auto simp: extract_tag_def readable_def)

end

definition range_ready :: "s7_byte_range \<Rightarrow> bool" where
  "range_ready r \<longleftrightarrow> 0 \<le> br_totalBytes r \<and> list_all readable (br_tags r)"

lemma range_items_total: "list_all range_ready rs \<Longrightarrow> \<not> crashes (range_items rs)"
  by (induction rs) (auto simp: range_ready_def split: option.split res.split)

lemma parse_tags_ok:
  "parse_tags ts = Inr ps \<Longrightarrow> list_all addressable ts \<Longrightarrow>
   map pt_tag ps = ts \<and> (\<forall>p\<in>set ps. in_space 1024 p \<and> 0 \<le> pt_bitOffset p \<and>
     pt_byteCount p = int (getByteCount (tag_DataType (pt_tag p))))"
proof (induction ts arbitrary: ps)
  case Nil
  then show ?case by simp
next
  case (Cons t ts)
  have "getByteCount (tag_DataType t) \<le> 8" by (simp add: getByteCount_def)
  then have n: "int (getByteCount (tag_DataType t)) \<le> 8" by linarith
  from Cons.prems(1) obtain area db off b qs where a: "parseTagAddress t = Inr (area, db, off, b)"
    and qs: "parse_tags ts = Inr qs"
    and ps: "ps = \<lparr>pt_tag = t, pt_area = area, pt_dbNumber = db, pt_offset = off, pt_bitOffset = b,
        pt_byteCount = int (getByteCount (tag_DataType t))\<rparr> # qs"
    by (auto split: sum.splits prod.splits)
  have "0 \<le> off \<and> off + 8 < 2 ^ 63 \<and> 0 \<le> b" "list_all addressable ts"
    using Cons.prems(2) by (simp_all add: addressable_def [of t] a)
  with n have "in_space 1024 (hd ps) \<and> 0 \<le> pt_bitOffset (hd ps)" by (simp add: ps in_space_def)
  with Cons.IH [OF qs \<open>list_all addressable ts\<close>] show ?case by (simp add: ps)
qed

text \<open>Built ranges are ready: every tag has a place in its range's buffer.\<close>

lemma built_ranges_ready:
  assumes "s7_libs_ok E" and "\<forall>p\<in>set ps. in_space 1024 p \<and> 0 \<le> pt_bitOffset p"
    and "walks ps order"
  shows "list_all range_ready (buildS7ContiguousRanges (se_sort E) order ps DefaultS7BatchConfig)"
proof -
  let ?rs = "buildS7ContiguousRanges (se_sort E) order ps DefaultS7BatchConfig"
  have "slice_sorter (se_sort E)" using assms(1) by (simp add: s7_libs_ok_def)
  from ranges_cover [OF this assms(3), of DefaultS7BatchConfig] assms(2) have
    m: "mset (concat (map tags_at ?rs)) = mset ps" and ok: "\<forall>r\<in>set ?rs. s7_range_ok 1024 r"
    by (simp_all add: DefaultS7BatchConfig_def)
  have "range_ready r" if r: "r \<in> set ?rs" for r
  proof -
    have "readable t" if t: "t \<in> set (br_tags r)" for t
    proof -
      have "absolute r t \<in> set (concat (map tags_at ?rs))" using r t by (auto simp: tags_at_def)
      then have "absolute r t \<in> set ps" using arg_cong [OF m, of set_mset] by (simp only: set_mset_mset)
      with assms(2) have "0 \<le> sr_bitOffset t" "0 < sr_byteCount t" by (auto simp: absolute_def in_space_def)
      with ok r t show ?thesis by (auto simp: readable_def s7_range_ok_def inside_def)
    qed
    with ok r show ?thesis by (auto simp: range_ready_def s7_range_ok_def list_all_iff)
  qed
  then show ?thesis by (simp add: list_all_iff)
qed

context s7_frame begin

lemma extract_tags_yields:
  "list_all readable rs \<Longrightarrow> keyed m \<Longrightarrow> yields (on_client P) (extract_tags E e d rs m) keyed"
proof (induction rs arbitrary: m)
  case Nil
  then show ?case by (simp add: yields_ret)
next
  case (Cons r rs)
  have "yields (on_client P) (if e \<noteq> '''' then s7_item_failed E (sr_tag r) (Text (se_Errorf E e)) else extract_tag E d r)
      (\<lambda>dp. dp_TagID dp = tag_ID (sr_tag r))"
    using Cons.prems(1) by (auto intro: item_failed_yields extract_tag_yields)
  then show ?case unfolding extract_tags.simps
    by (rule yields_bnd) (use Cons in \<open>auto simp: keyed_def intro!: Cons.IH\<close>)
qed

lemma extract_ranges_yields:
  "list_all range_ready rs \<Longrightarrow> keyed m \<Longrightarrow> yields (on_client P) (extract_ranges E reply i rs m) keyed"
  by (induction rs arbitrary: i m)
    (auto simp: range_ready_def intro!: yields_ret yields_bnd [OF extract_tags_yields])

end

section \<open>A batched read returns\<close>

text \<open>What holds of the value when there is no error.\<close>

definition unless_error :: "('a \<Rightarrow> bool) \<Rightarrow> gerror + 'a \<Rightarrow> bool" where
  "unless_error Q r = (case r of Inl e \<Rightarrow> True | Inr x \<Rightarrow> Q x)"

lemma unless_error_simps [simp]: "unless_error Q (Inl e)" "unless_error Q (Inr x) = Q x"
  by (simp_all add: unless_error_def)

context s7_frame begin

lemma readContiguousRanges_yields:
  assumes "list_all range_ready rs" and "keyed m"
  shows "yields (on_client P) (readContiguousRanges E rs m) (unless_error keyed)"
proof (cases "range_items rs")
  case (Ok items)
  then show ?thesis
    unfolding readContiguousRanges_def
    by (auto intro!: yields_seq [OF yields_updates(12)] yields_seq [OF yields_updates(11)] yields_ret
        yields_bnd [OF extract_ranges_yields [OF assms]] yields_option yields_if)
next
  case (Err e)
  then show ?thesis by (simp add: readContiguousRanges_def yields_ret)
next
  case (Crash p)
  with range_items_total [OF assms(1)] show ?thesis by simp
qed

lemma read_chunks_yields:
  "list_all (list_all range_ready) cs \<Longrightarrow> keyed m \<Longrightarrow> yields (on_client P) (read_chunks E cs m) (unless_error keyed)"
proof (induction cs arbitrary: m)
  case Nil
  then show ?case by (simp add: yields_ret)
next
  case (Cons c cs)
  have "yields (on_client P) (case result of Inl e \<Rightarrow> ret (Inl e) | Inr m \<Rightarrow> read_chunks E cs m) (unless_error keyed)"
    if "unless_error keyed result" for result
    using that Cons by (cases result) (auto intro: yields_ret)
  moreover have "list_all range_ready c" using Cons.prems(1) by simp
  ultimately show ?case
    unfolding read_chunks.simps using Cons.prems(2)
    by (intro yields_seq [OF yields_updates(11)] yields_option yields_ret yields_bnd [OF readContiguousRanges_yields]) simp_all
qed

lemma assemble_yields:
  "keyed m \<Longrightarrow> yields (on_client P) (assemble E m ts) (\<lambda>dps. list_all2 (\<lambda>dp t. dp_TagID dp = tag_ID t) dps ts)"
proof (induction ts)
  case Nil
  then show ?case by (simp add: yields_ret)
next
  case (Cons t ts)
  have "yields (on_client P) (case m (tag_ID t) of
      None \<Rightarrow> s7_createErrorDataPoint E t (Text (''tag '' @ tag_ID t @ '' missing from batch result''))
    | Some dp \<Rightarrow> ret dp) (\<lambda>dp. dp_TagID dp = tag_ID t)"
    using Cons.prems by (auto simp: keyed_def intro: error_point_yields yields_ret split: option.split)
  then show ?case unfolding assemble.simps
    by (rule yields_bnd) (use Cons in \<open>auto intro!: yields_bnd [OF Cons.IH] yields_ret\<close>)
qed

lemma item_points_yields:
  "length items = length ts \<Longrightarrow> \<forall>item\<in>set items. 0 \<le> si_Bit item \<Longrightarrow>
   yields (on_client P) (item_points E reply i ts items) (\<lambda>dps. list_all2 (\<lambda>dp t. dp_TagID dp = tag_ID t) dps ts)"
proof (induction E reply i ts items rule: item_points.induct)
  case (1 E reply i t ts item items)
  have "yields (on_client P) (if fst (reply i) \<noteq> '''' then s7_item_failed E t (Text (se_Errorf E (fst (reply i))))
      else s7_item_read E t (snd (reply i)) (si_Bit item)) (\<lambda>dp. dp_TagID dp = tag_ID t)"
    using "1.prems" by (auto intro: item_failed_yields item_read_yields)
  then show ?case unfolding item_points.simps
    by (rule yields_bnd) (use 1 in \<open>auto intro!: yields_bnd [OF 1(1)] yields_ret\<close>)
qed (auto intro: yields_ret)

end

lemma tag_items_ok:
  "tag_items ts = Inr items \<Longrightarrow> list_all addressable ts \<Longrightarrow>
   length items = length ts \<and> (\<forall>item\<in>set items. 0 \<le> si_Bit item)"
proof (induction ts arbitrary: items)
  case Nil
  then show ?case by simp
next
  case (Cons t ts)
  from Cons.prems(1) obtain area db off b code rest where a: "parseTagAddress t = Inr (area, db, off, b)"
    and rest: "tag_items ts = Inr rest"
    and items: "items = \<lparr>si_Area = code, si_WordLen = getWordLength (tag_DataType t), si_DBNumber = db, si_Start = off,
        si_Bit = b, si_Amount = int (getByteCount (tag_DataType t)),
        si_Data = replicate (getByteCount (tag_DataType t)) 0\<rparr> # rest"
    by (auto split: sum.splits prod.splits option.splits)
  have "0 \<le> b" "list_all addressable ts" using Cons.prems(2) by (simp_all add: addressable_def [of t] a)
  with Cons.IH [OF rest] show ?case by (simp add: items)
qed

lemma yields_field_on: "(\<And>c. P c \<Longrightarrow> Q (f c)) \<Longrightarrow> yields (on_client P) (field f) Q"
  by (simp add: yields_def field_def on_client_def)

lemma yields_call_on: "(\<And>w. Q (fst (g w))) \<Longrightarrow> yields (on_client P) (call g) Q"
  by (auto simp: yields_def call_def on_client_def split: prod.split) (metis fst_conv)

lemma list_all_chunks: "list_all f xs \<Longrightarrow> list_all (list_all f) (chunks n xs)"
proof (induction n xs rule: chunks.induct)
  case (1 n xs)
  then show ?case
    by (subst chunks.simps) (auto simp: list_all_iff dest: in_set_takeD in_set_dropD)
qed

locale s7_reading = s7_connecting +
  assumes P_batch: "P c \<Longrightarrow> sx_batchConfig c = DefaultS7BatchConfig"
begin

lemma readTagsOptimized_yields:
  assumes "s7_libs_ok E" and "list_all addressable ts"
  shows "yields (on_client P) (readTagsOptimized E ts)
    (unless_error (\<lambda>dps. list_all2 (\<lambda>dp t. dp_TagID dp = tag_ID t) dps ts))"
proof (cases "parse_tags ts")
  case (Inl e)
  then show ?thesis by (simp add: readTagsOptimized_def yields_ret)
next
  case (Inr ps)
  have ps: "\<forall>p\<in>set ps. in_space 1024 p \<and> 0 \<le> pt_bitOffset p" using parse_tags_ok [OF Inr assms(2)] by simp
  have walk: "yields (on_client P) (call (se_mapOrder E (s7_group_keys ps))) (walks ps)"
    using assms(1) by (intro yields_call_on) (simp add: s7_libs_ok_def)
  have built: "yields (on_client P)
      (field (\<lambda>c. buildS7ContiguousRanges (se_sort E) order ps (sx_batchConfig c))) (list_all range_ready)"
    if "walks ps order" for order
    using built_ranges_ready [OF assms(1) ps that] by (intro yields_field_on) (simp add: P_batch)
  have read: "yields (on_client P) (read_chunks E (chunks MaxMultiReadItems ranges) Map.empty) (unless_error keyed)"
    if "list_all range_ready ranges" for ranges
    using that by (intro read_chunks_yields list_all_chunks) (simp_all add: keyed_def)
  have last: "yields (on_client P)
      (case result of Inl err \<Rightarrow> ret (Inl err) | Inr m \<Rightarrow> bnd (assemble E m ts) (\<lambda>dps. ret (Inr dps)))
      (unless_error (\<lambda>dps. list_all2 (\<lambda>dp t. dp_TagID dp = tag_ID t) dps ts))"
    if "unless_error keyed result" for result
    using that by (cases result) (auto intro!: yields_ret yields_bnd [OF assemble_yields])
  show ?thesis
    unfolding readTagsOptimized_def Inr sum.case
    by (intro yields_bnd [OF walk] yields_bnd [OF built] yields_bnd [OF read] last)
qed

lemma readTagBatch_yields:
  assumes "list_all addressable ts"
  shows "yields (on_client P) (readTagBatch E ts)
    (unless_error (\<lambda>dps. list_all2 (\<lambda>dp t. dp_TagID dp = tag_ID t) dps ts))"
proof (cases "tag_items ts")
  case (Inl e)
  then show ?thesis by (simp add: readTagBatch_def yields_ret)
next
  case (Inr items)
  from tag_items_ok [OF Inr assms] show ?thesis
    unfolding readTagBatch_def Inr
    by (auto intro!: yields_if yields_ret yields_seq [OF yields_updates(12)] yields_seq [OF yields_updates(11)] yields_option
        yields_bnd [OF item_points_yields])
qed

lemma Connect_returns: "yields (on_client P) (s7_Connect E) (\<lambda>_. True)"
proof (rule yieldsI)
  fix s :: "s7_client \<times> 'a"
  assume "on_client P s"
  then have "on_client P (snd (s7_Connect E s))" by (rule preservesD [OF Connect])
  moreover have "\<exists>a. fst (s7_Connect E s) = Val a"
    by (cases s) (auto simp: s7_Connect_def run_defs split: prod.split s7_dial.split)
  ultimately show "\<exists>a s'. s7_Connect E s = (Val a, s') \<and> on_client P s' \<and> True" by (metis prod.collapse)
qed

lemma Disconnect_yields: "yields (on_client P) (s7_Disconnect E) (\<lambda>_. True)"
  unfolding s7_Disconnect_def
  by (intro yields_seq [OF yields_updates(12)] yields_if yields_ret yields_seq yields_updates yields_kept
      on_client_upd P_disconnect TrueI)

lemma reconnect_if_yields [yielding]: "yields (on_client P) (s7_reconnect_if E err) (\<lambda>_. True)"
  unfolding s7_reconnect_if_def s7_reconnect_def
  by (intro yields_if yields_seq [OF yields_updates(5)] yields_seq [OF Disconnect_yields] yields_seq [OF Connect_returns]
      yields_kept on_client_upd P_lastError yields_ret TrueI)

lemma failed_yields [yielding]: "yields (on_client P) (s7_failed E t err) (\<lambda>_. True)"
  unfolding s7_failed_def by (intro yields_seq yielding)

end

section \<open>A single read returns, and so do all reads\<close>

definition tag_point :: "tag \<Rightarrow> data_point option \<times> gerror option \<Rightarrow> bool" where
  "tag_point t r = fits_tag (fst r) t"

lemma tag_point_None [simp]: "tag_point t (None, e)"
  by (simp add: tag_point_def fits_tag_def)

lemma yields_exit [yielding]:
  "(\<And>r. x = S7Return r \<Longrightarrow> yields P (f r) Q) \<Longrightarrow> (\<And>a. x = S7Leave a \<Longrightarrow> yields P (g a) Q) \<Longrightarrow>
   yields P (case x of S7Return r \<Rightarrow> f r | S7Leave a \<Rightarrow> g a) Q"
  by (cases x) simp_all

context s7_reading begin

lemma readData_yields:
  assumes "0 \<le> b"
  shows "yields (on_client P) (readData E t (area, db, off, b)) (unless_error (\<lambda>dp. dp_TagID dp = tag_ID t))"
proof -
  have "yields (on_client P) (case s7_parseValue d t b of Crash p \<Rightarrow> panic p | Err e \<Rightarrow> ret (Inl e)
      | Ok value \<Rightarrow> bnd (s7_point E t value) (\<lambda>dp. ret (Inr dp))) (unless_error (\<lambda>dp. dp_TagID dp = tag_ID t))" for d
    using s7_parseValue_no_crash [of b t d] assms
    by (cases "s7_parseValue d t b") (auto intro!: yields_ret yields_bnd [OF point_yields])
  then show ?thesis
    unfolding readData_def prod.case Let_def read_area_def
    by (auto intro!: yields_seq [OF yields_updates(12)] yields_seq [OF yields_updates(11)] yields_if yields_option yields_ret)
qed

lemma read_failed_yields: "yields (on_client P) (s7_read_failed E t err) (tag_point t)"
  unfolding s7_read_failed_def
  by (intro yields_seq [OF failed_yields] yields_bnd [OF error_point_yields] yields_ret)
    (simp add: tag_point_def fits_tag_def)

lemma retry_wait_yields: "yields (on_client P) (s7_retry_wait E n) (\<lambda>_. True)"
  unfolding s7_retry_wait_def
  by (intro yields_if yields_seq [OF yields_updates(4)] yields_seq [OF yields_updates(12)] yields_updates yields_ret TrueI)

lemma read_attempts_yields:
  assumes "0 \<le> b" and "tag_point t r"
  shows "yields (on_client P) (s7_read_attempts E t (area, db, off, b) r as)
    (\<lambda>x. case x of S7Return r \<Rightarrow> tag_point t r | S7Leave r \<Rightarrow> tag_point t r)"
  using assms(2)
proof (induction "as" arbitrary: r)
  case Nil
  then show ?case by (simp add: yields_ret)
next
  case (Cons n as)
  let ?Q = "\<lambda>x. case x of S7Return r \<Rightarrow> tag_point t r | S7Leave r \<Rightarrow> tag_point t r"
  have again: "yields (on_client P) (if \<not> s7_isRetryableError e then bnd (s7_read_failed E t e) (\<lambda>r. ret (S7Return r))
      else bnd (s7_reconnect_if E e) (\<lambda>_. s7_read_attempts E t (area, db, off, b) (None, Some e) as)) ?Q" for e
    by (intro yields_if yields_bnd [OF read_failed_yields] yields_seq [OF reconnect_if_yields] yields_ret Cons.IH)
      (simp_all add: tag_point_def fits_tag_def)
  have "yields (on_client P) (case result of Inr dp \<Rightarrow> ret (S7Leave (Some dp, None))
      | Inl e \<Rightarrow> if \<not> s7_isRetryableError e then bnd (s7_read_failed E t e) (\<lambda>r. ret (S7Return r))
          else bnd (s7_reconnect_if E e) (\<lambda>_. s7_read_attempts E t (area, db, off, b) (None, Some e) as)) ?Q"
    if "unless_error (\<lambda>dp. dp_TagID dp = tag_ID t) result" for result
    using that again by (cases result) (auto simp: tag_point_def fits_tag_def intro: yields_ret)
  then show ?case
    unfolding s7_read_attempts.simps
    by (intro yields_seq [OF retry_wait_yields] yields_option yields_seq [OF quiet(2)] yields_ret
        yields_bnd [OF readData_yields [OF assms(1)]]) (simp_all add: tag_point_def fits_tag_def)
qed

lemma ReadTag_returns:
  assumes "addressable t"
  shows "yields (on_client P) (s7_ReadTag E t) (tag_point t)"
proof -
  have after: "yields (on_client P) (case left of
      S7Return r \<Rightarrow> ret r
    | S7Leave (dp, Some err) \<Rightarrow> s7_read_failed E t err
    | S7Leave (dp, None) \<Rightarrow>
        bnd (upd (sx_consecutiveFailures_update (\<lambda>_. 0))) (\<lambda>_.
        bnd (s7_recordTagSuccess E (tag_ID t)) (\<lambda>_.
        bnd (upd s7_count_read) (\<lambda>_. ret (dp, None))))) (tag_point t)"
    if "case left of S7Return r \<Rightarrow> tag_point t r | S7Leave r \<Rightarrow> tag_point t r" for left
    using that
    by (auto split: s7_exit.split option.split simp: tag_point_def [of t "(x, y)" for x y]
        intro!: yields_ret read_failed_yields yields_seq [OF yields_updates(10)] yields_seq [OF quiet(1)]
          yields_seq [OF yields_updates(1)])
  have body: "yields (on_client P) (case parseTagAddress t of
      Inl err \<Rightarrow> s7_read_failed E t err
    | Inr a \<Rightarrow>
        bnd (field sx_config) (\<lambda>config.
        bnd (s7_read_attempts E t a (None, None) (s7_attempts config)) (\<lambda>left.
        case left of
          S7Return r \<Rightarrow> ret r
        | S7Leave (dp, Some err) \<Rightarrow> s7_read_failed E t err
        | S7Leave (dp, None) \<Rightarrow>
            bnd (upd (sx_consecutiveFailures_update (\<lambda>_. 0))) (\<lambda>_.
            bnd (s7_recordTagSuccess E (tag_ID t)) (\<lambda>_.
            bnd (upd s7_count_read) (\<lambda>_. ret (dp, None))))))) (tag_point t)"
  proof (cases "parseTagAddress t")
    case (Inl e)
    then show ?thesis by (simp add: read_failed_yields)
  next
    case (Inr a)
    obtain area db off b where a: "a = (area, db, off, b)" by (cases a)
    have "0 \<le> b" using assms by (simp add: addressable_def Inr a)
    note run = read_attempts_yields [OF this tag_point_None]
    show ?thesis
      unfolding Inr a sum.case
      by (intro yields_seq [OF yields_updates(12)] yields_bnd [OF run after])
  qed
  show ?thesis
    unfolding s7_ReadTag_def s7_timed_def
    by (intro yields_seq [OF yields_updates(11)] yields_deferred yields_seq [OF quiet(3)] yields_seq [OF yields_updates(12)]
        yields_if yields_seq [OF quiet(2)] yields_ret body yields_updates)
      (simp add: tag_point_def fits_tag_def)
qed

end

lemma answers_append:
  assumes "list_all2 fits_tag ds cs" and "answers ts r"
  shows "answers (cs @ ts) (ds @ fst r, snd r)"
proof -
  have "length ds = length cs" using assms(1) by (rule list_all2_lengthD)
  with assms show ?thesis by (auto simp: answers_def intro!: list_all2_appendI)
qed

lemma fits_Some: "list_all2 fits_tag (map Some dps) ts \<longleftrightarrow> list_all2 (\<lambda>dp t. dp_TagID dp = tag_ID t) dps ts"
  by (simp add: list_all2_map1 fits_tag_def)

context s7_reading begin

lemma read_each_yields:
  "list_all addressable ts \<Longrightarrow> yields (on_client P) (read_each E ts) (\<lambda>ds. list_all2 fits_tag ds ts)"
proof (induction ts)
  case Nil
  then show ?case by (simp add: yields_ret)
next
  case (Cons t ts)
  have "yields (on_client P) (s7_ReadTag E t) (tag_point t)" using Cons.prems by (intro ReadTag_returns) simp
  then show ?case unfolding read_each.simps
    by (rule yields_bnd)
      (use Cons in \<open>auto simp: tag_point_def intro!: yields_bnd [OF Cons.IH] yields_ret\<close>)
qed

lemma fallback_chunks_yields:
  "list_all (list_all addressable) cs \<Longrightarrow> yields (on_client P) (fallback_chunks E cs) (answers (concat cs))"
proof (induction cs)
  case Nil
  then show ?case by (simp add: yields_ret answers_def)
next
  case (Cons c cs)
  have c: "list_all addressable c" using Cons.prems by simp
  have points: "yields (on_client P) (case result of Inl err \<Rightarrow> read_each E c | Inr dps \<Rightarrow> ret (map Some dps))
      (\<lambda>ds. list_all2 fits_tag ds c)"
    if "unless_error (\<lambda>dps. list_all2 (\<lambda>dp t. dp_TagID dp = tag_ID t) dps c) result" for result
    using that by (cases result) (auto simp: fits_Some intro: read_each_yields [OF c] yields_ret)
  have rest: "yields (on_client P) (bnd (fallback_chunks E cs) (\<lambda>(rest, err). ret (ds @ rest, err)))
      (answers (concat (c # cs)))" if "list_all2 fits_tag ds c" for ds
    using Cons answers_append [OF that] by (fastforce intro!: yields_bnd [OF Cons.IH] yields_ret)
  show ?case
    unfolding fallback_chunks.simps
    by (intro yields_seq [OF yields_updates(11)] yields_option yields_ret yields_bnd [OF readTagBatch_yields [OF c]]
        yields_bnd [OF points] rest) (simp_all add: answers_def)
qed

lemma ReadTags_yields:
  assumes "s7_libs_ok E" and "list_all addressable ts"
  shows "yields (on_client P) (s7_ReadTags E ts) (answers ts)"
proof -
  have all: "list_all2 (\<lambda>dp t. dp_TagID dp = tag_ID t) dps ts \<Longrightarrow> answers ts (map Some dps, None)" for dps
    by (frule list_all2_lengthD) (simp add: answers_def fits_Some)
  have "yields (on_client P) (readTagsFallback E ts) (answers ts)"
    using fallback_chunks_yields [OF list_all_chunks [OF assms(2), of MaxMultiReadItems], of E]
    by (simp add: readTagsFallback_def concat_chunks MaxMultiReadItems_def)
  then have "yields (on_client P) (case result of Inr dps \<Rightarrow> ret (map Some dps, None) | Inl err \<Rightarrow> readTagsFallback E ts)
      (answers ts)" if "unless_error (\<lambda>dps. list_all2 (\<lambda>dp t. dp_TagID dp = tag_ID t) dps ts) result" for result
    using that by (cases result) (auto intro!: yields_ret all simp: fits_Some)
  then show ?thesis
    unfolding s7_ReadTags_def
    by (intro yields_if yields_seq [OF quiet(3)] yields_seq [OF yields_updates(12)] yields_ret
        yields_bnd [OF readTagsOptimized_yields [OF assms]]) (simp_all add: answers_def)
qed

end

text \<open>The client's invariant is a frame for all of this.\<close>

interpretation s7_reads: s7_reading "s7_sound k d" for k d
  by unfold_locales (simp add: s7_sound_def)

end
