(* ===== verification/S7Memory.thy ===== *)
theory S7Memory
  imports S7ClientProps
begin

text \<open>
  The S7 client against the memory of a controller. \<open>controller\<close> states what the library promises of
  a controller's memory: a read that succeeds gives the bytes that are there, a write that succeeds
  puts the bytes there, a write that fails has done so or not, and nothing else changes it. Writing a
  tag is then an update of that memory, and a batched read is a reading of it.
\<close>

unbundle bit_operations_syntax

section \<open>Memory\<close>

type_synonym s7_memory = "s7_area \<Rightarrow> int \<Rightarrow> int \<Rightarrow> byte"

definition bytes_at :: "s7_memory \<Rightarrow> s7_area \<Rightarrow> int \<Rightarrow> int \<Rightarrow> nat \<Rightarrow> bytes" where
  "bytes_at m area db off n = map (\<lambda>i. m area db (off + int i)) [0..<n]"

definition overwrite :: "bytes \<Rightarrow> int \<Rightarrow> (int \<Rightarrow> byte) \<Rightarrow> int \<Rightarrow> byte" where
  "overwrite bs off f a = (if off \<le> a \<and> a < off + int (length bs) then bs ! nat (a - off) else f a)"

definition store :: "s7_memory \<Rightarrow> int \<Rightarrow> int \<Rightarrow> bytes \<Rightarrow> s7_memory" where
  "store m db off bs = m(S7AreaDB := (m S7AreaDB)(db := overwrite bs off (m S7AreaDB db)))"

lemma length_bytes_at [simp]: "length (bytes_at m area db off n) = n"
  by (simp add: bytes_at_def)

lemma overwrite_twice: "length bs = length cs \<Longrightarrow> overwrite bs off (overwrite cs off f) = overwrite bs off f"
  by (simp add: overwrite_def fun_eq_iff)

lemma store_twice: "length bs = length cs \<Longrightarrow> store (store m db off cs) db off bs = store m db off bs"
  by (simp add: store_def overwrite_twice)

lemma store_at: "store m db off bs S7AreaDB db = overwrite bs off (m S7AreaDB db)"
  by (simp add: store_def)

section \<open>The library's promises\<close>

definition reads_memory :: "('w \<Rightarrow> s7_memory) \<Rightarrow> 'w s7_env \<Rightarrow> bool" where
  "reads_memory mem E \<longleftrightarrow>
     (\<forall>db off n w err buf w'. se_ReadDB E db off n w = ((err, buf), w') \<longrightarrow>
        mem w' = mem w \<and> (err = None \<longrightarrow> map buf [0..<n] = bytes_at (mem w) S7AreaDB db off n))"

definition writes_memory :: "('w \<Rightarrow> s7_memory) \<Rightarrow> 'w s7_env \<Rightarrow> bool" where
  "writes_memory mem E \<longleftrightarrow>
     (\<forall>db off bs w err w'. se_WriteDB E db off bs w = (err, w') \<longrightarrow>
        mem w' = store (mem w) db off bs \<or> (err \<noteq> None \<and> mem w' = mem w))"

definition controller :: "('w \<Rightarrow> s7_memory) \<Rightarrow> 'w s7_env \<Rightarrow> bool" where
  "controller mem E \<longleftrightarrow>
     (\<forall>w. mem (snd (se_Now E w)) = mem w) \<and>
     (\<forall>d w. mem (snd (se_sleep E d w)) = mem w) \<and>
     (\<forall>w. mem (snd (se_ctxErr E w)) = mem w) \<and>
     (\<forall>w. mem (snd (se_poolGet E w)) = mem w) \<and>
     (\<forall>k w. mem (snd (se_Connect E k w)) = mem w) \<and>
     (\<forall>w. mem (snd (se_Close E w)) = mem w) \<and>
     (\<forall>ks w. mem (snd (se_mapOrder E ks w)) = mem w) \<and>
     reads_memory mem E \<and> writes_memory mem E"

lemma controllerD:
  assumes "controller mem E"
  shows "mem (snd (se_Now E w)) = mem w" "mem (snd (se_sleep E d w)) = mem w" "mem (snd (se_ctxErr E w)) = mem w"
    "mem (snd (se_poolGet E w)) = mem w" "mem (snd (se_Connect E k w)) = mem w" "mem (snd (se_Close E w)) = mem w"
    "mem (snd (se_mapOrder E ks w)) = mem w"
  using assms by (simp_all add: controller_def)

lemma controller_read:
  assumes "controller mem E" and "se_ReadDB E db off n w = ((err, buf), w')"
  shows "mem w' = mem w" and "err = None \<Longrightarrow> map buf [0..<n] = bytes_at (mem w) S7AreaDB db off n"
proof -
  from assms(1) have "reads_memory mem E" by (simp add: controller_def)
  with assms(2) show "mem w' = mem w" "err = None \<Longrightarrow> map buf [0..<n] = bytes_at (mem w) S7AreaDB db off n"
    unfolding reads_memory_def by blast+
qed

lemma controller_write:
  assumes "controller mem E" and "se_WriteDB E db off bs w = (err, w')"
  shows "mem w' = store (mem w) db off bs \<or> (err \<noteq> None \<and> mem w' = mem w)"
proof -
  from assms(1) have "writes_memory mem E" by (simp add: controller_def)
  with assms(2) show ?thesis unfolding writes_memory_def by blast
qed

section \<open>What leaves the memory alone\<close>

definition in_memory :: "('w \<Rightarrow> s7_memory) \<Rightarrow> (s7_memory \<Rightarrow> bool) \<Rightarrow> s7_client \<times> 'w \<Rightarrow> bool" where
  "in_memory mem I s = I (mem (snd s))"

definition leaves :: "('w \<Rightarrow> s7_memory) \<Rightarrow> ('w, 'a) s7 \<Rightarrow> bool" where
  "leaves mem m \<longleftrightarrow> (\<forall>s. (\<exists>a. fst (m s) = Val a) \<and> mem (snd (snd (m s))) = mem (snd s))"

lemma leaves_forms:
  "leaves mem (ret a)" "leaves mem (field f)" "leaves mem (upd h)"
  by (simp_all add: leaves_def run_defs)

lemma leaves_call: "(\<And>w. mem (snd (g w)) = mem w) \<Longrightarrow> leaves mem (call g)"
  by (auto simp: leaves_def call_def split: prod.split) (metis snd_conv)

lemma leaves_bnd:
  assumes "leaves mem m" and "\<And>a. leaves mem (f a)"
  shows "leaves mem (bnd m f)"
proof -
  have "(\<exists>b. fst (bnd m f s) = Val b) \<and> mem (snd (snd (bnd m f s))) = mem (snd s)" for s
  proof -
    obtain a s' where "m s = (Val a, s')" "mem (snd s') = mem (snd s)"
      using assms(1) unfolding leaves_def by (metis prod.collapse)
    moreover from assms(2) [of a] have "(\<exists>b. fst (f a s') = Val b) \<and> mem (snd (snd (f a s'))) = mem (snd s')"
      unfolding leaves_def by (rule spec)
    ultimately show ?thesis by (simp add: bnd_def)
  qed
  then show ?thesis by (simp add: leaves_def)
qed

lemma leaves_if: "leaves mem m \<Longrightarrow> leaves mem n \<Longrightarrow> leaves mem (if b then m else n)"
  by simp

lemma leaves_gives:
  assumes "leaves mem m"
  shows "gives (in_memory mem I) m (\<lambda>_. in_memory mem I)"
proof (rule givesI)
  fix s assume "in_memory mem I s"
  moreover from assms obtain a where "fst (m s) = Val a" "mem (snd (snd (m s))) = mem (snd s)"
    unfolding leaves_def by blast
  ultimately show "\<exists>a s'. m s = (Val a, s') \<and> in_memory mem I s'"
    by (metis in_memory_def prod.collapse)
qed

lemma quiet_programs:
  assumes "controller mem E"
  shows "leaves mem (s7_recordTagError E i err)" "leaves mem (s7_recordTagSuccess E i)" "leaves mem (s7_touch E)"
    "leaves mem (s7_retry_wait E n)" "leaves mem (s7_failed E t err)" "leaves mem (s7_acquire E t u q)"
    "leaves mem (s7_reconnect_if E err)"
proof -
  note base = leaves_bnd leaves_forms leaves_if leaves_call controllerD [OF assms]
  show e: "leaves mem (s7_recordTagError E i err)" for i err unfolding s7_recordTagError_def by (intro base)
  show "leaves mem (s7_recordTagSuccess E i)" unfolding s7_recordTagSuccess_def by (intro base)
  show "leaves mem (s7_touch E)" unfolding s7_touch_def by (intro base)
  show "leaves mem (s7_retry_wait E n)" unfolding s7_retry_wait_def by (intro base)
  show "leaves mem (s7_failed E t err)" unfolding s7_failed_def by (intro base e)
  show "leaves mem (s7_acquire E t u q)" unfolding s7_acquire_def by (intro base)
  have "leaves mem (s7_Connect E)"
    unfolding s7_Connect_def by (auto split: s7_dial.split intro!: base)
  moreover have "leaves mem (s7_Disconnect E)" unfolding s7_Disconnect_def by (intro base)
  ultimately show "leaves mem (s7_reconnect_if E err)"
    unfolding s7_reconnect_if_def s7_reconnect_def by (intro base)
qed

section \<open>Writing a tag is an update of the memory\<close>

text \<open>The memory after a write: the one bit of a boolean, the bytes of any other value.\<close>

definition written :: "arch \<Rightarrow> tag \<Rightarrow> goval \<Rightarrow> int \<Rightarrow> int \<Rightarrow> int \<Rightarrow> s7_memory \<Rightarrow> s7_memory option" where
  "written A t v db off bitOffset m =
     (if tag_DataType t = DataTypeBool
      then map_option (\<lambda>b. store m db off [set_bit_of (m S7AreaDB db off) (push_bit (nat bitOffset) 1) b])
             (toBool (s7_reverseScaling v t))
      else case s7_valueToBytes A v t bitOffset of
        Ok bs \<Rightarrow> Some (store m db off bs)
      | _ \<Rightarrow> None)"

lemma set_bit_of_twice: "set_bit_of (set_bit_of w m b) m b = set_bit_of w m b"
  by (simp add: set_bit_of_def or.assoc and.assoc)

lemma written_twice: "written A t v db off b m = Some m' \<Longrightarrow> written A t v db off b m' = Some m'"
  by (auto simp: written_def store_twice store_at overwrite_def set_bit_of_twice split: if_splits res.splits)

text \<open>A write under way: the memory is as before, or as after.\<close>

definition either :: "s7_memory \<Rightarrow> s7_memory option \<Rightarrow> s7_memory \<Rightarrow> bool" where
  "either m0 T m \<longleftrightarrow> m = m0 \<or> T = Some m"

definition settled :: "('w \<Rightarrow> s7_memory) \<Rightarrow> s7_memory \<Rightarrow> s7_memory option \<Rightarrow> gerror option \<Rightarrow> s7_client \<times> 'w \<Rightarrow> bool" where
  "settled mem m0 T r s = (case r of None \<Rightarrow> T = Some (mem (snd s)) | Some e \<Rightarrow> either m0 T (mem (snd s)))"

lemma settled_Some: "settled mem m0 T (Some e) s = in_memory mem (either m0 T) s"
  by (simp add: settled_def in_memory_def)

lemma written_either:
  "T = written A t v db off b m0 \<Longrightarrow> either m0 T m \<Longrightarrow> written A t v db off b m = T"
  by (auto simp: either_def dest: written_twice sym)

lemma write_area_gives:
  assumes "controller mem E" and T: "T = written A t v db off b m0"
    and P: "\<And>c w. P (c, w) \<Longrightarrow> either m0 T (mem w) \<and> T = Some (store (mem w) db off bs)"
  shows "gives P (bnd (write_area E S7AreaDB db off bs) (\<lambda>err. ret (map_option f err))) (settled mem m0 T)"
proof (rule gives_bnd)
  show "gives P (write_area E S7AreaDB db off bs) (settled mem m0 T \<circ> map_option (\<lambda>_. Text ''''))"
    unfolding write_area_def
    by (auto intro!: gives_call simp: settled_def either_def split: option.split
        dest!: controller_write [OF assms(1)] P)
  show "gives ((settled mem m0 T \<circ> map_option (\<lambda>_. Text '''')) a) (ret (map_option f a)) (settled mem m0 T)" for a
    by (rule gives_ret) (cases a; simp add: settled_def)
qed

lemma writeBool_gives:
  assumes "controller mem E" and T: "T = written A t v db off b m0" and "0 \<le> b" and "tag_DataType t = DataTypeBool"
  shows "gives (in_memory mem (either m0 T)) (writeBoolWithRMW E t (S7AreaDB, db, off, b) v) (settled mem m0 T)"
proof (cases "toBool (s7_reverseScaling v t)")
  case None
  then show ?thesis by (simp add: writeBoolWithRMW_def gives_ret settled_Some)
next
  case (Some x)
  let ?R = "\<lambda>r s. in_memory mem (either m0 T) s \<and> (fst r = None \<longrightarrow> snd r 0 = mem (snd s) S7AreaDB db off)"
  have read: "gives (in_memory mem (either m0 T)) (read_area E S7AreaDB db off 1) ?R"
    unfolding read_area_def
  proof (simp, rule gives_call)
    fix c w r w'
    assume "in_memory mem (either m0 T) (c, w)" "se_ReadDB E db off (Suc 0) w = (r, w')"
    then show "?R r (c, w')"
      using controller_read [OF assms(1), of db off 1 w "fst r" "snd r" w']
      by (cases r) (simp add: in_memory_def bytes_at_def)
  qed
  have step: "gives (\<lambda>s. in_memory mem (either m0 T) s \<and> buf 0 = mem (snd s) S7AreaDB db off)
      (bnd (write_area E S7AreaDB db off [set_bit_of (buf 0) (push_bit (nat b) 1) x]) (\<lambda>err. ret (map_option f err)))
      (settled mem m0 T)" for buf :: "nat \<Rightarrow> byte" and f
  proof (rule write_area_gives [OF assms(1) T])
    fix c w
    assume *: "in_memory mem (either m0 T) (c, w) \<and> buf 0 = mem (snd (c, w)) S7AreaDB db off"
    then have e: "either m0 T (mem w)" by (simp add: in_memory_def)
    from written_either [OF T e] * assms(4) Some e
    show "either m0 T (mem w) \<and> T = Some (store (mem w) db off [set_bit_of (buf 0) (push_bit (nat b) 1) x])"
      by (simp add: written_def)
  qed
  show ?thesis
    unfolding writeBoolWithRMW_def prod.case Some option.case shift_byte_ok [OF assms(3)] res.case
  proof (rule gives_bnd [OF read])
    fix r :: "string option \<times> (nat \<Rightarrow> byte)"
    obtain err buf where r: "r = (err, buf)" by (cases r)
    show "gives (?R r) (case r of (err, buffer) \<Rightarrow>
        (case err of
          None \<Rightarrow> bnd (write_area E S7AreaDB db off [set_bit_of (buffer 0) (push_bit (nat b) 1) x]) (\<lambda>err.
            ret (map_option (\<lambda>e. WrapV (S7E ErrS7WriteFailed)
              (s7_where S7AreaDB db off @ '' bit='' @ dec b @ '': '' @ e)) err))
        | Some e \<Rightarrow> ret (Some (WrapV (S7E ErrS7ReadFailed) (''failed to read byte for RMW: '' @ e))))) (settled mem m0 T)"
      unfolding r prod.case
      by (rule gives_option, rule gives_pre [OF step], simp, rule gives_ret, simp add: settled_Some)
  qed
qed

lemma writeData_gives:
  assumes "controller mem E" and T: "T = written A t v db off b m0" and "0 \<le> b"
  shows "gives (in_memory mem (either m0 T)) (writeData E A t (S7AreaDB, db, off, b) v) (settled mem m0 T)"
proof -
  have other: "gives (in_memory mem (either m0 T))
      (case s7_valueToBytes A v t b of
         Crash p \<Rightarrow> panic p
       | Err e \<Rightarrow> ret (Some e)
       | Ok buffer \<Rightarrow>
           bnd (write_area E S7AreaDB db off buffer) (\<lambda>err. ret (map_option f err))) (settled mem m0 T)"
    if "tag_DataType t \<noteq> DataTypeBool" for f
  proof (cases "s7_valueToBytes A v t b")
    case (Ok bs)
    have "either m0 T (mem w) \<Longrightarrow> T = Some (store (mem w) db off bs)" for w
      using written_either [OF T, of "mem w"] that Ok by (simp add: written_def)
    then show ?thesis
      unfolding Ok res.case by (intro write_area_gives [OF assms(1) T]) (simp add: in_memory_def)
  next
    case (Err e)
    then show ?thesis by (simp add: gives_ret settled_Some)
  next
    case (Crash p)
    with that assms(3) show ?thesis
      by (auto simp: s7_valueToBytes_def Let_def split: data_type.splits option.splits)
  qed
  show ?thesis
    unfolding writeData_def prod.case
    by (intro gives_bnd [OF leaves_gives [OF leaves_forms(2)]] gives_if gives_ret other)
      (simp_all add: settled_Some writeBool_gives [OF assms])
qed

lemma write_attempts_gives:
  assumes "controller mem E" and T: "T = written A t v db off b m0" and "0 \<le> b"
  shows "gives (\<lambda>s. in_memory mem (either m0 T) s \<and> (ns = [] \<longrightarrow> settled mem m0 T prior s))
     (s7_write_attempts E A t (S7AreaDB, db, off, b) v prior ns)
     (\<lambda>x s. case x of S7Return r \<Rightarrow> settled mem m0 T r s | S7Leave r \<Rightarrow> settled mem m0 T r s)"
proof (induction ns arbitrary: prior)
  case Nil
  then show ?case by (auto intro!: gives_ret)
next
  case (Cons n ns)
  let ?I = "in_memory mem (either m0 T)"
  let ?Q = "\<lambda>x s. case x of S7Return r \<Rightarrow> settled mem m0 T r s | S7Leave r \<Rightarrow> settled mem m0 T r s"
  note quiet = leaves_gives [OF quiet_programs(1) [OF assms(1)]] leaves_gives [OF quiet_programs(4) [OF assms(1)]]
    leaves_gives [OF quiet_programs(5) [OF assms(1)]] leaves_gives [OF quiet_programs(7) [OF assms(1)]]
  have again: "gives ?I (if \<not> s7_isRetryableError e then bnd (s7_failed E t e) (\<lambda>_. ret (S7Return (Some e)))
      else bnd (s7_reconnect_if E e) (\<lambda>_. s7_write_attempts E A t (S7AreaDB, db, off, b) v (Some e) ns)) ?Q" for e
    using gives_pre [OF Cons.IH [of "Some e"], of ?I]
    by (intro gives_if gives_bnd [OF quiet(3)] gives_bnd [OF quiet(4)] gives_ret) (simp_all add: settled_Some)
  have settle: "gives (settled mem m0 T result) (case result of None \<Rightarrow> ret (S7Leave None)
      | Some e \<Rightarrow> if \<not> s7_isRetryableError e then bnd (s7_failed E t e) (\<lambda>_. ret (S7Return (Some e)))
          else bnd (s7_reconnect_if E e) (\<lambda>_. s7_write_attempts E A t (S7AreaDB, db, off, b) v (Some e) ns)) ?Q" for result
    using gives_pre [OF again, of "settled mem m0 T result"]
    by (cases result) (auto intro: gives_ret simp: settled_Some)
  have "gives ?I (s7_write_attempts E A t (S7AreaDB, db, off, b) v prior (n # ns)) ?Q"
    unfolding s7_write_attempts.simps
    by (intro gives_bnd [OF quiet(2)] gives_option gives_bnd [OF quiet(1)] gives_ret
        gives_bnd [OF writeData_gives [OF assms] settle]) (simp_all only: settled_Some s7_exit.case)
  then show ?case by (rule gives_pre) simp
qed

lemma settled_memory: "settled mem m0 T r = in_memory mem (\<lambda>m. case r of None \<Rightarrow> T = Some m | Some e \<Rightarrow> either m0 T m)"
  by (simp add: settled_def in_memory_def fun_eq_iff)

lemma WriteTag_gives:
  assumes "controller mem E" and T: "T = written A t v db off b m0" and "0 \<le> b"
    and parse: "parseTagAddress t = Inr (S7AreaDB, db, off, b)"
  shows "gives (\<lambda>s. mem (snd s) = m0 \<and> 0 \<le> sc_MaxRetries (sx_config (fst s))) (s7_WriteTag E A t v) (settled mem m0 T)"
proof -
  let ?K = "\<lambda>s. mem (snd s) = m0 \<and> 0 \<le> sc_MaxRetries (sx_config (fst s))"
  note record_failure = leaves_gives [OF quiet_programs(1) [OF assms(1)]]
  note record_success = leaves_gives [OF quiet_programs(2) [OF assms(1)]]
  note failed = leaves_gives [OF quiet_programs(5) [OF assms(1)]]
  note update = leaves_gives [OF leaves_forms(3)]
  have clock: "gives ?K (call (se_Now E)) (\<lambda>_. ?K)"
    by (rule gives_call) (metis controllerD(1) [OF assms(1)] fst_conv snd_conv)
  have touch: "gives ?K (s7_touch E) (\<lambda>_. ?K)"
    unfolding s7_touch_def by (intro gives_bnd [OF clock] gives_upd) simp
  have refused: "gives ?K (bnd (s7_recordTagError E i e) (\<lambda>_. ret (Some e))) (settled mem m0 T)" for i e
    by (rule gives_pre [OF gives_bnd [OF record_failure [where I = "either m0 T"] gives_ret]])
      (simp_all add: settled_Some in_memory_def either_def)
  have after: "gives (\<lambda>s. case left of S7Return r \<Rightarrow> settled mem m0 T r s | S7Leave r \<Rightarrow> settled mem m0 T r s)
      (case left of
         S7Return r \<Rightarrow> ret r
       | S7Leave (Some err) \<Rightarrow> bnd (s7_failed E t err) (\<lambda>_. ret (Some err))
       | S7Leave None \<Rightarrow>
           bnd (upd (sx_consecutiveFailures_update (\<lambda>_. 0))) (\<lambda>_.
           bnd (s7_recordTagSuccess E (tag_ID t)) (\<lambda>_.
           bnd (upd s7_count_write) (\<lambda>_. ret None)))) (settled mem m0 T)" for left
    by (auto split: s7_exit.split option.split simp: settled_memory
        intro!: gives_ret gives_bnd [OF failed] gives_bnd [OF record_success] gives_bnd [OF update])
  have trying: "gives (\<lambda>s. ?K s \<and> sx_config (fst s) = config)
      (bnd (s7_write_attempts E A t (S7AreaDB, db, off, b) v None (s7_attempts config)) f) (settled mem m0 T)"
    if "\<And>left. gives (\<lambda>s. case left of S7Return r \<Rightarrow> settled mem m0 T r s | S7Leave r \<Rightarrow> settled mem m0 T r s)
      (f left) (settled mem m0 T)" for config f
    by (rule gives_pre [OF gives_bnd [OF write_attempts_gives [OF assms(1-3)] that]])
      (auto simp: in_memory_def either_def s7_attempts_def)
  have body: "gives ?K (bnd (s7_touch E) (\<lambda>_.
     bnd (field sx_connected) (\<lambda>connected.
     if \<not> connected then bnd (s7_recordTagError E (tag_ID t) s7_closed) (\<lambda>_. ret (Some s7_closed))
     else if \<not> isTagWritable t
     then bnd (s7_recordTagError E (tag_ID t) (s7_not_writable t)) (\<lambda>_. ret (Some (s7_not_writable t)))
     else case parseTagAddress t of
       Inl err \<Rightarrow> bnd (s7_failed E t err) (\<lambda>_. ret (Some err))
     | Inr a \<Rightarrow>
         bnd (field sx_config) (\<lambda>config.
         bnd (s7_write_attempts E A t a v None (s7_attempts config)) (\<lambda>left.
         case left of
           S7Return r \<Rightarrow> ret r
         | S7Leave (Some err) \<Rightarrow> bnd (s7_failed E t err) (\<lambda>_. ret (Some err))
         | S7Leave None \<Rightarrow>
             bnd (upd (sx_consecutiveFailures_update (\<lambda>_. 0))) (\<lambda>_.
             bnd (s7_recordTagSuccess E (tag_ID t)) (\<lambda>_.
             bnd (upd s7_count_write) (\<lambda>_. ret None)))))))) (settled mem m0 T)"
    unfolding parse sum.case
    by (intro gives_bnd [OF touch] gives_bnd [OF gives_field, where R = "\<lambda>_. ?K"] gives_if refused gives_read trying after)
      (simp_all add: parse)
  have finish: "gives (settled mem m0 T r) (bnd (call (se_Now E)) (\<lambda>now. upd (s7_add_write_time (time_Sub now began))))
      (\<lambda>_. settled mem m0 T r)" for r began
    unfolding settled_memory
    by (intro leaves_gives leaves_bnd leaves_call leaves_forms controllerD [OF assms(1)])
  show ?thesis
    unfolding s7_WriteTag_def s7_timed_def by (intro gives_bnd [OF clock] gives_deferred [OF body finish])
qed

lemma bit_set_bit_of:
  "bit (set_bit_of w (push_bit n 1) b) i \<noteq> bit w i \<Longrightarrow> i = n" for w :: byte
  by (auto simp: set_bit_of_def bit_or_iff bit_and_iff bit_not_iff_eq bit_push_bit_iff bit_1_iff
      simp del: push_bit_of_1 dest: bit_imp_le_length split: if_splits)

lemma written_bool:
  assumes "written A t v db off b m = Some m'" and "tag_DataType t = DataTypeBool"
    and "bit (m' area db' a) i \<noteq> bit (m area db' a) i"
  shows "area = S7AreaDB \<and> db' = db \<and> a = off \<and> i = nat b"
proof -
  from assms(1,2) obtain x where m': "m' = store m db off [set_bit_of (m S7AreaDB db off) (push_bit (nat b) 1) x]"
    by (auto simp: written_def)
  from assms(3) have *: "area = S7AreaDB" "db' = db" "a = off"
    by (auto simp: m' store_def overwrite_def split: if_splits)
  with assms(3) bit_set_bit_of show ?thesis by (auto simp: m' store_def overwrite_def)
qed

section \<open>The property\<close>

text \<open>
  C24. Writing a tag of a data block is an update of the controller's memory: the call returns, when
  it reports success the memory is the one with the value at the tag's address, when it reports an
  error the memory is that one or the one before, however many attempts were made; and writing a
  boolean changes no bit but its own.
\<close>

theorem s7_write_refines_memory:
  assumes "controller mem E" and "parseTagAddress t = Inr (S7AreaDB, db, off, b)" and "0 \<le> b"
    and "0 \<le> sc_MaxRetries (sx_config c)"
  shows "\<exists>r c' w'. s7_WriteTag E A t v (c, w) = (Val r, (c', w')) \<and>
    (case r of
       None \<Rightarrow> written A t v db off b (mem w) = Some (mem w')
     | Some e \<Rightarrow> mem w' = mem w \<or> written A t v db off b (mem w) = Some (mem w')) \<and>
    (tag_DataType t = DataTypeBool \<longrightarrow>
      (\<forall>area db' a i. bit (mem w' area db' a) i \<noteq> bit (mem w area db' a) i \<longrightarrow>
         area = S7AreaDB \<and> db' = db \<and> a = off \<and> i = nat b))"
proof -
  from WriteTag_gives [OF assms(1) refl assms(3,2), where A = A and v = v and ?m0.0 = "mem w"] assms(4)
  obtain r c' w' where run: "s7_WriteTag E A t v (c, w) = (Val r, (c', w'))"
    and r: "settled mem (mem w) (written A t v db off b (mem w)) r (c', w')"
    by (auto elim!: givesE [where s = "(c, w)"])
  from r have m: "mem w' = mem w \<or> written A t v db off b (mem w) = Some (mem w')"
    by (auto simp: settled_def either_def split: option.splits)
  then have "tag_DataType t = DataTypeBool \<longrightarrow>
      (\<forall>area db' a i. bit (mem w' area db' a) i \<noteq> bit (mem w area db' a) i \<longrightarrow>
         area = S7AreaDB \<and> db' = db \<and> a = off \<and> i = nat b)"
    using written_bool by metis
  with run r show ?thesis
    by (intro exI [of _ r] exI [of _ c'] exI [of _ w']) (auto simp: settled_def either_def split: option.splits)
qed

definition sample_s7_env :: "s7_memory s7_env" where
  "sample_s7_env =
     \<lparr>se_Now = Pair 0, se_sleep = (\<lambda>d. Pair None), se_ctxErr = Pair None, se_poolGet = Pair (NewDataPoint 0 '''' '''' '''' VNil '''' QualityGood),
      se_Connect = (\<lambda>k. Pair S7Dialed), se_Close = Pair (),
      se_ReadDB = (\<lambda>db off n m. ((None, \<lambda>i. m S7AreaDB db (off + int i)), m)),
      se_ReadEB = (\<lambda>off n m. ((None, \<lambda>i. m S7AreaI 0 (off + int i)), m)),
      se_WriteDB = (\<lambda>db off bs m. (None, store m db off bs)),
      se_WriteEB = (\<lambda>off bs m. (None, m)),
      se_ReadMulti = (\<lambda>items m. ((None, \<lambda>i. ('''', bytes_at m S7AreaDB (si_DBNumber (items ! i)) (si_Start (items ! i))
        (nat (si_Amount (items ! i))))), m)),
      se_WriteMulti = (\<lambda>items m. ((None, \<lambda>i. ''''), m)), se_Errorf = (\<lambda>s. s),
      se_sort = sort_key pt_offset, se_mapOrder = Pair\<rparr>"

definition sample_s7_client :: s7_client where
  "sample_s7_client =
     (case s7_NewClient ''plc'' \<lparr>sc_Address = ''10.0.0.1'', sc_Port = 0, sc_Rack = 0, sc_Slot = 1, sc_Timeout = 0,
         sc_IdleTimeout = 0, sc_MaxRetries = 0, sc_RetryDelay = 0, sc_PDUSize = 0\<rparr> 0 of
        Inr c \<Rightarrow> c\<lparr>sx_handler := True, sx_client := True, sx_connected := True\<rparr>)"

definition sample_s7_tag :: tag where
  "sample_s7_tag = sample_ready\<lparr>tag_DataType := DataTypeBool, tag_S7Address := ''DB7.DBX4.3''\<rparr>"

lemma sample_s7_controller: "controller id sample_s7_env"
  by (auto simp: controller_def reads_memory_def writes_memory_def sample_s7_env_def bytes_at_def)

lemma sample_s7_address: "parseTagAddress sample_s7_tag = Inr (S7AreaDB, 7, 4, 3)"
  unfolding sample_s7_tag_def sample_ready_def sample_tag_def by code_simp

theorem s7_write_refines_memory_witness:
  "\<exists>r c' m'. s7_WriteTag sample_s7_env sample_arch sample_s7_tag (VBool True) (sample_s7_client, \<lambda>_ _ _. 0) =
      (Val r, (c', m')) \<and>
    (case r of
       None \<Rightarrow> written sample_arch sample_s7_tag (VBool True) 7 4 3 (\<lambda>_ _ _. 0) = Some m'
     | Some e \<Rightarrow> m' = (\<lambda>_ _ _. 0) \<or> written sample_arch sample_s7_tag (VBool True) 7 4 3 (\<lambda>_ _ _. 0) = Some m')"
proof -
  have "0 \<le> sc_MaxRetries (sx_config sample_s7_client)"
    by (simp add: sample_s7_client_def s7_NewClient_def s7_default_config_def s7_default_def)
  from s7_write_refines_memory [OF sample_s7_controller sample_s7_address _ this, of sample_arch "VBool True" "\<lambda>_ _ _. 0", unfolded id_def, simplified]
  show ?thesis by blast
qed

end
