(* ===== verification/GoFocus.thy ===== *)
theory GoFocus
  imports GoHoare "HOL-Library.AList"
begin

text \<open>
  Programs on a part of an object: the entry of a Go map under a key, an object that a field points
  to. A Go map is an association list with one entry per key.
\<close>

section \<open>Entries of a map\<close>

definition update_entry :: "'k \<Rightarrow> ('e \<Rightarrow> 'e) \<Rightarrow> ('k \<times> 'e) list \<Rightarrow> ('k \<times> 'e) list" where
  "update_entry i f al = map (\<lambda>(k, e). (k, if k = i then f e else e)) al"

lemma update_entry_simps [simp]:
  "map fst (update_entry i f al) = map fst al"
  "length (update_entry i f al) = length al"
  "update_entry i f [] = []"
  by (simp_all add: update_entry_def case_prod_beta comp_def)

lemma map_of_update_entry: "map_of (update_entry i f al) j = (if j = i then map_option f (map_of al i) else map_of al j)"
  by (induction al) (auto simp: update_entry_def)

lemma update_entry_all:
  assumes "\<forall>x\<in>set al. P x" and "\<And>e. P (i, e) \<Longrightarrow> P (i, f e)"
  shows "\<forall>x\<in>set (update_entry i f al). P x"
  using assms by (auto simp: update_entry_def)

lemma length_update: "length (AList.update i v al) = (if i \<in> fst ` set al then length al else Suc (length al))"
  by (induction al) auto

lemma set_update: "set (AList.update i v al) \<subseteq> insert (i, v) (set al)"
  by (induction al) auto

lemma set_delete: "set (AList.delete i al) \<subseteq> set al"
  by (auto simp: AList.delete_eq)

section \<open>Running a program on a part\<close>

text \<open>A nil pointer, when there is no such part.\<close>

definition focus :: "('c \<Rightarrow> 'd option) \<Rightarrow> ('d \<Rightarrow> 'c \<Rightarrow> 'c) \<Rightarrow> ('d \<times> 'w, 'a) prog \<Rightarrow> ('c \<times> 'w, 'a) prog" where
  "focus get put m s =
     (case get (fst s) of
        None \<Rightarrow> (Panic ''nil pointer dereference'', s)
      | Some d \<Rightarrow> (case m (d, snd s) of (r, (d', w)) \<Rightarrow> (r, (put d' (fst s), w))))"

text \<open>A program on an object that nothing holds yet.\<close>

definition on_value :: "'d \<Rightarrow> ('d \<times> 'w, 'a) prog \<Rightarrow> ('c \<times> 'w, 'a \<times> 'd) prog" where
  "on_value d m s =
     (case m (d, snd s) of
        (Val a, (d', w)) \<Rightarrow> (Val (a, d'), (fst s, w))
      | (Panic p, (d', w)) \<Rightarrow> (Panic p, (fst s, w)))"

lemma focus_preserves:
  fixes m :: "('d \<times> 'w, 'a) prog" and I :: "'c \<Rightarrow> bool"
  assumes "\<And>c d. I c \<Longrightarrow> get c = Some d \<Longrightarrow>
    \<exists>J. J d \<and> preserves (on_client J) m \<and> (\<forall>d'. J d' \<longrightarrow> I (put d' c))"
  shows "preserves (on_client I) (focus get put m)"
proof (rule preservesI)
  fix s :: "'c \<times> 'w" assume "on_client I s"
  then have I: "I (fst s)" by (simp add: on_client_def)
  show "on_client I (snd (focus get put m s))"
  proof (cases "get (fst s)")
    case None
    with I show ?thesis by (simp add: focus_def on_client_def)
  next
    case (Some d)
    with assms [OF I] obtain J where J: "J d" "preserves (on_client J) m" "\<forall>d'. J d' \<longrightarrow> I (put d' (fst s))" by blast
    from J(1) preservesD [OF J(2), of "(d, snd s)"] have "J (fst (snd (m (d, snd s))))" by (simp add: on_client_def)
    with J(3) Some show ?thesis by (auto simp: focus_def on_client_def split: prod.split)
  qed
qed

section \<open>Partial correctness\<close>

text \<open>From a state in \<open>P\<close>: if the program returns, \<open>Q\<close> holds; if it panics, \<open>I\<close> holds of what it leaves.\<close>

named_theorems keeping "partial correctness of the statement forms"

definition keeps :: "('s \<Rightarrow> bool) \<Rightarrow> ('s, 'a) prog \<Rightarrow> ('a \<Rightarrow> 's \<Rightarrow> bool) \<Rightarrow> ('s \<Rightarrow> bool) \<Rightarrow> bool" where
  "keeps P m Q I \<longleftrightarrow>
     (\<forall>s a s'. P s \<longrightarrow> m s = (Val a, s') \<longrightarrow> Q a s') \<and> (\<forall>s p s'. P s \<longrightarrow> m s = (Panic p, s') \<longrightarrow> I s')"

lemma keepsI:
  "(\<And>s a s'. P s \<Longrightarrow> m s = (Val a, s') \<Longrightarrow> Q a s') \<Longrightarrow> (\<And>s p s'. P s \<Longrightarrow> m s = (Panic p, s') \<Longrightarrow> I s') \<Longrightarrow>
   keeps P m Q I"
  by (simp add: keeps_def)

lemma keepsD:
  "keeps P m Q I \<Longrightarrow> P s \<Longrightarrow> m s = (Val a, s') \<Longrightarrow> Q a s'"
  "keeps P m Q I \<Longrightarrow> P s \<Longrightarrow> m s = (Panic p, s') \<Longrightarrow> I s'"
  by (simp_all add: keeps_def)

lemma keeps_bnd:
  assumes "keeps P m R I" and "\<And>a. keeps (R a) (f a) Q I"
  shows "keeps P (bnd m f) Q I"
proof (rule keepsI)
  fix s b s' assume "P s" "bnd m f s = (Val b, s')"
  then show "Q b s'"
    using keepsD(1) [OF assms(2)] keepsD(1) [OF assms(1)] by (fastforce simp: bnd_def split: prod.splits run.splits)
next
  fix s p s' assume "P s" "bnd m f s = (Panic p, s')"
  then show "I s'"
    using keepsD(2) [OF assms(2)] keepsD [OF assms(1)] by (fastforce simp: bnd_def split: prod.splits run.splits)
qed

lemma keeps_ret [keeping]: "(\<And>s. P s \<Longrightarrow> Q a s) \<Longrightarrow> keeps P (ret a) Q I"
  by (simp add: keeps_def ret_def)

lemma keeps_panic [keeping]: "(\<And>s. P s \<Longrightarrow> I s) \<Longrightarrow> keeps P (panic p) Q I"
  by (simp add: keeps_def panic_def)

lemma keeps_field [keeping]: "(\<And>c w. P (c, w) \<Longrightarrow> Q (f c) (c, w)) \<Longrightarrow> keeps P (field f) Q I"
  by (simp add: keeps_def field_def split_paired_all)

lemma keeps_upd [keeping]: "(\<And>c w. P (c, w) \<Longrightarrow> Q () (f c, w)) \<Longrightarrow> keeps P (upd f) Q I"
  by (simp add: keeps_def upd_def split_paired_all)

lemma keeps_call [keeping]: "(\<And>c w a w'. P (c, w) \<Longrightarrow> g w = (a, w') \<Longrightarrow> Q a (c, w')) \<Longrightarrow> keeps P (call g) Q I"
  by (simp add: keeps_def call_def split_paired_all split: prod.split)

lemma keeps_if [keeping]:
  "(b \<Longrightarrow> keeps P m Q I) \<Longrightarrow> (\<not> b \<Longrightarrow> keeps P n Q I) \<Longrightarrow> keeps P (if b then m else n) Q I"
  by simp

lemma keeps_option [keeping]:
  "(x = None \<Longrightarrow> keeps P m Q I) \<Longrightarrow> (\<And>b. x = Some b \<Longrightarrow> keeps P (g b) Q I) \<Longrightarrow>
   keeps P (case x of None \<Rightarrow> m | Some b \<Rightarrow> g b) Q I"
  by (simp split: option.split)

lemma keeps_sum [keeping]:
  "(\<And>a. x = Inl a \<Longrightarrow> keeps P (f a) Q I) \<Longrightarrow> (\<And>b. x = Inr b \<Longrightarrow> keeps P (g b) Q I) \<Longrightarrow>
   keeps P (case x of Inl a \<Rightarrow> f a | Inr b \<Rightarrow> g b) Q I"
  by (simp split: sum.split)

lemma keeps_prod [keeping]:
  "(\<And>a b. x = (a, b) \<Longrightarrow> keeps P (f a b) Q I) \<Longrightarrow> keeps P (case x of (a, b) \<Rightarrow> f a b) Q I"
  by (simp split: prod.split)

lemma keeps_pre: "keeps P' m Q I \<Longrightarrow> (\<And>s. P s \<Longrightarrow> P' s) \<Longrightarrow> keeps P m Q I"
  unfolding keeps_def by meson

lemma keeps_post: "keeps P m Q' I \<Longrightarrow> (\<And>a s. Q' a s \<Longrightarrow> Q a s) \<Longrightarrow> keeps P m Q I"
  by (simp add: keeps_def)

lemma keeps_crash: "keeps P m Q I' \<Longrightarrow> (\<And>s. I' s \<Longrightarrow> I s) \<Longrightarrow> keeps P m Q I"
  by (simp add: keeps_def)

lemma keeps_fact: "(\<And>s. P s \<Longrightarrow> F) \<Longrightarrow> (F \<Longrightarrow> keeps P m Q I) \<Longrightarrow> keeps P m Q I"
  unfolding keeps_def by meson

lemma keeps_preserves: "keeps P m (\<lambda>_. P) P \<Longrightarrow> preserves P m"
proof (rule preservesI)
  fix s assume k: "keeps P m (\<lambda>_. P) P" and s: "P s"
  obtain r s' where m: "m s = (r, s')" by fastforce
  with keepsD [OF k s] show "P (snd (m s))" by (cases r) auto
qed

lemma preserves_keeps: "preserves P m \<Longrightarrow> keeps P m (\<lambda>_. P) P"
  by (rule keepsI; drule (1) preservesD; simp)

text \<open>Such an object keeps what its program keeps, and the holder is untouched.\<close>

definition made :: "('c \<Rightarrow> bool) \<Rightarrow> ('d \<Rightarrow> bool) \<Rightarrow> ('c \<times> 'w, 'e + 'd) prog \<Rightarrow> bool" where
  "made I J m \<longleftrightarrow> (\<forall>c w. I c \<longrightarrow> (case m (c, w) of (r, (c', w')) \<Rightarrow> c' = c \<and> (\<forall>d. r = Val (Inr d) \<longrightarrow> J d)))"

lemma made_keeps:
  fixes m :: "('c \<times> 'w, 'e + 'd) prog"
  assumes "made I J m" and "\<And>c. I' c \<Longrightarrow> I c"
  shows "keeps (on_client I') m (\<lambda>r s. on_client I' s \<and> (\<forall>d. r = Inr d \<longrightarrow> J d)) (on_client I')"
proof -
  have *: "c' = fst s \<and> (\<forall>d. r = Val (Inr d) \<longrightarrow> J d)"
    if "on_client I' s" "m s = (r, (c', w'))" for s r c' w'
  proof -
    from that(1) assms(2) have "I (fst s)" by (simp add: on_client_def)
    from assms(1) [unfolded made_def, rule_format, OF this, of "snd s"] that(2) show ?thesis by simp
  qed
  show ?thesis
  proof (rule keepsI)
    fix s r s' assume "on_client I' s" "m s = (Val r, s')"
    with * [of s "Val r" "fst s'" "snd s'"] show "on_client I' s' \<and> (\<forall>d. r = Inr d \<longrightarrow> J d)"
      by (simp add: on_client_def)
  next
    fix s p s' assume "on_client I' s" "m s = (Panic p, s')"
    with * [of s "Panic p" "fst s'" "snd s'"] show "on_client I' s'" by (simp add: on_client_def)
  qed
qed

end
