(* ===== verification/S7Pool.thy ===== *)
theory S7Pool
  imports S7Reports ModbusPool GoFocus
begin

text \<open>
  The pool of S7 clients (\<open>adapter/s7/pool.go\<close> and the pool's half of \<open>health.go\<close>): one client and one
  circuit breaker per device, eviction and reaping by the last request for the client, reconnection
  with backoff. The breaker is the package \<open>gobreaker\<close>, as for the Modbus pool; asking for its state may
  move it, so that is a call. Metrics and logging are left out; each method runs as one sequence.
\<close>

section \<open>Fields\<close>

text \<open>\<open>PoolConfig\<close>; its \<open>CircuitBreaker\<close> is never read.\<close>

record s7_pool_config =
  qc_MaxConnections :: int
  qc_IdleTimeout :: int
  qc_HealthCheckInterval :: int
  qc_RetryDelay :: int
  qc_MaxTTL :: int

record 'b s7_entry =
  en_client :: s7_client
  en_device :: device
  en_breaker :: 'b
  en_createdAt :: int
  en_lastUse :: int
  en_lastError :: "gerror option"
  en_connectFailures :: int
  en_nextReconnectAt :: int

text \<open>\<open>sp_stopped\<close>: the channel \<open>stopChan\<close> is closed.\<close>

record 'b s7_pool =
  sp_clients :: "(string \<times> 'b s7_entry) list"
  sp_maxConnections :: int
  sp_idleTimeout :: int
  sp_maxTTL :: int
  sp_healthCheck :: int
  sp_stopped :: bool
  sp_closed :: bool

datatype breaker_state = BreakerClosed | BreakerHalfOpen | BreakerOpen

record ('w, 'b) s7_pool_env =
  sq_s7 :: "'w s7_env"
  sq_arch :: arch
  sq_newBreaker :: "breaker_settings \<Rightarrow> 'b"
  sq_admit :: "'b \<Rightarrow> 'w \<Rightarrow> (refusal option \<times> 'b) \<times> 'w"
  sq_record :: "bool \<Rightarrow> 'b \<Rightarrow> 'w \<Rightarrow> 'b \<times> 'w"
  sq_state :: "'b \<Rightarrow> 'w \<Rightarrow> (breaker_state \<times> 'b) \<times> 'w"
  sq_order :: "string list \<Rightarrow> 'w \<Rightarrow> string list \<times> 'w"

type_synonym ('w, 'b, 'a) s7p = "('b s7_pool \<times> 'w, 'a) prog"

definition s7_NewPool :: "s7_pool_config \<Rightarrow> 'b s7_pool" where
  "s7_NewPool config =
     \<lparr>sp_clients = [], sp_maxConnections = s7_default 100 (qc_MaxConnections config),
      sp_idleTimeout = s7_default 300000000000 (qc_IdleTimeout config), sp_maxTTL = qc_MaxTTL config,
      sp_healthCheck = s7_default 30000000000 (qc_HealthCheckInterval config), sp_stopped = False, sp_closed = False\<rparr>"

section \<open>Entries\<close>

definition s7_entry_at :: "string \<Rightarrow> 'b s7_pool \<Rightarrow> 'b s7_entry option" where
  "s7_entry_at i p = map_of (sp_clients p) i"

definition s7_set :: "string \<Rightarrow> ('b s7_entry \<Rightarrow> 'b s7_entry) \<Rightarrow> 'b s7_pool \<Rightarrow> 'b s7_pool" where
  "s7_set i f p = p\<lparr>sp_clients := update_entry i f (sp_clients p)\<rparr>"

definition s7_delete :: "string \<Rightarrow> 'b s7_pool \<Rightarrow> 'b s7_pool" where
  "s7_delete i p = p\<lparr>sp_clients := AList.delete i (sp_clients p)\<rparr>"

text \<open>A method of the client of an entry.\<close>

definition on_s7 :: "string \<Rightarrow> ('w, 'a) s7 \<Rightarrow> ('w, 'b, 'a) s7p" where
  "on_s7 i = focus (\<lambda>p. map_option en_client (s7_entry_at i p)) (\<lambda>c. s7_set i (\<lambda>e. e\<lparr>en_client := c\<rparr>))"

definition walk_s7 :: "('w, 'b) s7_pool_env \<Rightarrow> ('w, 'b, string list) s7p" where
  "walk_s7 P = bnd (field (\<lambda>p. map fst (sp_clients p))) (\<lambda>ids. call (sq_order P ids))"

definition s7_now :: "('w, 'b) s7_pool_env \<Rightarrow> ('w, 'b, int) s7p" where
  "s7_now P = call (se_Now (sq_s7 P))"

text \<open>Disconnect an entry's client and drop the entry.\<close>

definition s7_drop :: "('w, 'b) s7_pool_env \<Rightarrow> string \<Rightarrow> ('w, 'b, gerror option) s7p" where
  "s7_drop P i =
     bnd (on_s7 i (s7_Disconnect (sq_s7 P))) (\<lambda>err.
     bnd (upd (s7_delete i)) (\<lambda>_.
     ret err))"

section \<open>Getting a client\<close>

definition s7_client_settings :: "int \<Rightarrow> device \<Rightarrow> s7_config" where
  "s7_client_settings idleTimeout d =
     (let conn = dev_Connection d in
      \<lparr>sc_Address = conn_Host conn, sc_Port = s7_default 102 (conn_Port conn), sc_Rack = conn_S7Rack conn,
       sc_Slot = conn_S7Slot conn, sc_Timeout = s7_default 10000000000 (conn_Timeout conn),
       sc_IdleTimeout = idleTimeout, sc_MaxRetries = s7_default 3 (conn_RetryCount conn),
       sc_RetryDelay = conn_RetryDelay conn, sc_PDUSize = conn_S7PDUSize conn\<rparr>)"

definition s7_createClient :: "('w, 'b) s7_pool_env \<Rightarrow> device \<Rightarrow> ('w, 'b, gerror + s7_client) s7p" where
  "s7_createClient P d =
     bnd (field sp_idleTimeout) (\<lambda>idleTimeout.
     bnd (s7_now P) (\<lambda>now.
     case s7_NewClient (dev_ID d) (s7_client_settings idleTimeout d) now of
       Inl err \<Rightarrow> ret (Inl err)
     | Inr c \<Rightarrow>
         bnd (on_value c (s7_Connect (sq_s7 P))) (\<lambda>(err, c').
         case err of Some e \<Rightarrow> ret (Inl e) | None \<Rightarrow> ret (Inr c'))))"

definition f64_0_5 :: f64 where
  "f64_0_5 = 0x3FE0000000000000"

definition s7_breaker_settings :: "device \<Rightarrow> breaker_settings" where
  "s7_breaker_settings d =
     (let base = \<lparr>br_Name = ''s7-'' @ dev_ID d, br_MaxRequests = 3, br_Interval = 10000000000,
                  br_Timeout = 30000000000, br_failureThreshold = 5, br_failureRatio = f64_0_5\<rparr>
      in case conn_CircuitBreaker (dev_Connection d) of
           None \<Rightarrow> base
         | Some cb \<Rightarrow>
             base\<lparr>br_MaxRequests := (if 0 < cb_MaxRequests cb then cb_MaxRequests cb else 3),
                  br_Interval := (if 0 < cb_Interval cb then cb_Interval cb else 10000000000),
                  br_Timeout := (if 0 < cb_Timeout cb then cb_Timeout cb else 30000000000),
                  br_failureThreshold := (if 0 < cb_FailureThreshold cb then cb_FailureThreshold cb else 5),
                  br_failureRatio := (if f64_lt f64_zero (cb_FailureRatio cb) then cb_FailureRatio cb else f64_0_5)\<rparr>)"

definition s7_ReadyToTrip :: "breaker_settings \<Rightarrow> breaker_counts \<Rightarrow> bool" where
  "s7_ReadyToTrip st counts =
     (let ratio = f64_div (f64_of_int (uint (ct_TotalFailures counts))) (f64_of_int (uint (ct_Requests counts)))
      in br_failureThreshold st \<le> ct_Requests counts \<and> f64_ge ratio (br_failureRatio st))"

text \<open>The walk for the entry that was used longest ago; an empty ID counts as none yet.\<close>

fun oldest :: "(string \<Rightarrow> int) \<Rightarrow> string list \<Rightarrow> string \<Rightarrow> int \<Rightarrow> string \<times> int" where
  "oldest lastUse [] oldestID oldestTime = (oldestID, oldestTime)"
| "oldest lastUse (i # is) oldestID oldestTime =
     (if oldestID = '''' \<or> lastUse i < oldestTime then oldest lastUse is i (lastUse i)
      else oldest lastUse is oldestID oldestTime)"

definition last_use :: "'b s7_pool \<Rightarrow> string \<Rightarrow> int" where
  "last_use p i = (case s7_entry_at i p of Some e \<Rightarrow> en_lastUse e | None \<Rightarrow> zero_time)"

definition evictIdleConnection :: "('w, 'b) s7_pool_env \<Rightarrow> ('w, 'b, bool) s7p" where
  "evictIdleConnection P =
     bnd (walk_s7 P) (\<lambda>ids.
     bnd (field (\<lambda>p. oldest (last_use p) ids '''' zero_time)) (\<lambda>(oldestID, oldestTime).
     if oldestID = '''' then ret False
     else
       bnd (s7_now P) (\<lambda>now.
       bnd (field sp_idleTimeout) (\<lambda>idleTimeout.
       if time_Sub now oldestTime < idleTimeout then ret False
       else bnd (s7_drop P oldestID) (\<lambda>_. ret True)))))"

text \<open>\<open>None\<close> when the pool now holds a client under the device's ID, connected or not.\<close>

definition GetOrCreate :: "('w, 'b) s7_pool_env \<Rightarrow> device \<Rightarrow> ('w, 'b, gerror option) s7p" where
  "GetOrCreate P d =
     bnd (field (s7_entry_at (dev_ID d))) (\<lambda>entry.
     if entry \<noteq> None then
       bnd (s7_now P) (\<lambda>now.
       bnd (upd (s7_set (dev_ID d) (\<lambda>e. e\<lparr>en_lastUse := now\<rparr>))) (\<lambda>_.
       ret None))
     else
       bnd (field (\<lambda>p. sp_maxConnections p \<le> int (length (sp_clients p)))) (\<lambda>full.
       bnd (if full then evictIdleConnection P else ret True) (\<lambda>room.
       if \<not> room then ret (Some (Sentinel (ConnE ErrPoolExhausted)))
       else
         bnd (s7_createClient P d) (\<lambda>created.
         case created of
           Inl err \<Rightarrow> ret (Some err)
         | Inr c \<Rightarrow>
             bnd (s7_now P) (\<lambda>now.
             bnd (upd (\<lambda>p. p\<lparr>sp_clients := AList.update (dev_ID d)
                    \<lparr>en_client = c, en_device = d, en_breaker = sq_newBreaker P (s7_breaker_settings d),
                     en_createdAt = now, en_lastUse = now, en_lastError = None, en_connectFailures = 0,
                     en_nextReconnectAt = zero_time\<rparr> (sp_clients p)\<rparr>)) (\<lambda>_.
             ret None))))))"

section \<open>Calls through the breaker\<close>

text \<open>\<open>breaker.Execute\<close>, as for the Modbus pool.\<close>

definition s7_admit :: "('w, 'b) s7_pool_env \<Rightarrow> string \<Rightarrow> ('w, 'b, refusal option) s7p" where
  "s7_admit P i =
     bnd (field (s7_entry_at i)) (\<lambda>entry.
     case entry of
       None \<Rightarrow> panic ''nil pointer dereference''
     | Some e \<Rightarrow>
         bnd (call (sq_admit P (en_breaker e))) (\<lambda>(refused, b).
         bnd (upd (s7_set i (\<lambda>e. e\<lparr>en_breaker := b\<rparr>))) (\<lambda>_.
         ret refused)))"

definition s7_record :: "('w, 'b) s7_pool_env \<Rightarrow> string \<Rightarrow> bool \<Rightarrow> ('w, 'b, unit) s7p" where
  "s7_record P i success =
     bnd (field (s7_entry_at i)) (\<lambda>entry.
     case entry of
       None \<Rightarrow> ret ()
     | Some e \<Rightarrow>
         bnd (call (sq_record P success (en_breaker e))) (\<lambda>b.
         upd (s7_set i (\<lambda>e. e\<lparr>en_breaker := b\<rparr>))))"

definition s7_Execute ::
  "('w, 'b) s7_pool_env \<Rightarrow> string \<Rightarrow> ('w, 'a \<times> gerror option) s7 \<Rightarrow> ('w, 'b, refusal + 'a \<times> gerror option) s7p" where
  "s7_Execute P i request =
     bnd (s7_admit P i) (\<lambda>refused.
     case refused of
       Some r \<Rightarrow> ret (Inl r)
     | None \<Rightarrow>
         bnd_run (on_s7 i request) (\<lambda>r. case r of
           Val (a, err) \<Rightarrow> bnd (s7_record P i (err = None)) (\<lambda>_. ret (Inr (a, err)))
         | Panic p \<Rightarrow> bnd (s7_record P i False) (\<lambda>_. panic p)))"

text \<open>The lookup at the head of the four methods: only a device without a client gets one.\<close>

definition s7_ensure :: "('w, 'b) s7_pool_env \<Rightarrow> device \<Rightarrow> ('w, 'b, gerror option) s7p" where
  "s7_ensure P d =
     bnd (field (s7_entry_at (dev_ID d))) (\<lambda>entry.
     if entry \<noteq> None then ret None else GetOrCreate P d)"

definition s7_guarded ::
  "('w, 'b) s7_pool_env \<Rightarrow> device \<Rightarrow> 'a \<Rightarrow> ('w, 'a \<times> gerror option) s7 \<Rightarrow> ('w, 'b, 'a \<times> gerror option) s7p" where
  "s7_guarded P d nothing request =
     bnd (s7_ensure P d) (\<lambda>err.
     case err of
       Some e \<Rightarrow> ret (nothing, Some e)
     | None \<Rightarrow>
         bnd (s7_Execute P (dev_ID d) request) (\<lambda>result.
         case result of
           Inl OpenState \<Rightarrow> ret (nothing, Some (Sentinel (ConnE ErrCircuitBreakerOpen)))
         | Inl TooManyRequests \<Rightarrow> ret (nothing, Some too_many_requests)
         | Inr (a, Some e) \<Rightarrow> ret (nothing, Some e)
         | Inr (a, None) \<Rightarrow> ret (a, None)))"

definition s7_pool_ReadTag ::
  "('w, 'b) s7_pool_env \<Rightarrow> device \<Rightarrow> tag \<Rightarrow> ('w, 'b, data_point option \<times> gerror option) s7p" where
  "s7_pool_ReadTag P d t = s7_guarded P d None (s7_ReadTag (sq_s7 P) t)"

definition s7_pool_ReadTags ::
  "('w, 'b) s7_pool_env \<Rightarrow> device \<Rightarrow> tag list \<Rightarrow> ('w, 'b, data_point option list \<times> gerror option) s7p" where
  "s7_pool_ReadTags P d ts = s7_guarded P d [] (s7_ReadTags (sq_s7 P) ts)"

definition s7_pool_WriteTag ::
  "('w, 'b) s7_pool_env \<Rightarrow> device \<Rightarrow> tag \<Rightarrow> goval \<Rightarrow> ('w, 'b, unit \<times> gerror option) s7p" where
  "s7_pool_WriteTag P d t v =
     s7_guarded P d () (bnd (s7_WriteTag (sq_s7 P) (sq_arch P) t v) (\<lambda>err. ret ((), err)))"

text \<open>The first error of a batch is the one the breaker counts.\<close>

definition first_error :: "gerror option list \<Rightarrow> gerror option" where
  "first_error errs = (case filter (\<lambda>e. e \<noteq> None) errs of [] \<Rightarrow> None | e # _ \<Rightarrow> e)"

definition s7_pool_WriteTags ::
  "('w, 'b) s7_pool_env \<Rightarrow> device \<Rightarrow> s7_write list \<Rightarrow> ('w, 'b, gerror option list) s7p" where
  "s7_pool_WriteTags P d ws =
     bnd (s7_ensure P d) (\<lambda>err.
     case err of
       Some e \<Rightarrow> ret (replicate (length ws) (Some e))
     | None \<Rightarrow>
         bnd (s7_Execute P (dev_ID d)
           (bnd (s7_WriteTags (sq_s7 P) (sq_arch P) ws) (\<lambda>errs. ret (errs, first_error errs)))) (\<lambda>result.
         case result of
           Inl OpenState \<Rightarrow> ret (replicate (length ws) (Some (Sentinel (ConnE ErrCircuitBreakerOpen))))
         | Inl TooManyRequests \<Rightarrow> ret (replicate (length ws) (Some too_many_requests))
         | Inr (errs, _) \<Rightarrow> ret errs))"

section \<open>Removal and closing\<close>

definition s7_Remove :: "('w, 'b) s7_pool_env \<Rightarrow> string \<Rightarrow> ('w, 'b, gerror option) s7p" where
  "s7_Remove P i =
     bnd (field (s7_entry_at i)) (\<lambda>entry.
     if entry = None then ret None else s7_drop P i)"

fun s7_close_each :: "('w, 'b) s7_pool_env \<Rightarrow> string list \<Rightarrow> gerror option \<Rightarrow> ('w, 'b, gerror option) s7p" where
  "s7_close_each P [] lastErr = ret lastErr"
| "s7_close_each P (i # is) lastErr =
     bnd (s7_drop P i) (\<lambda>err.
     s7_close_each P is (case err of Some e \<Rightarrow> Some e | None \<Rightarrow> lastErr))"

text \<open>A second \<open>Close\<close> closes \<open>stopChan\<close> again, which panics.\<close>

definition s7_Close :: "('w, 'b) s7_pool_env \<Rightarrow> ('w, 'b, gerror option) s7p" where
  "s7_Close P =
     bnd (field sp_stopped) (\<lambda>stopped.
     if stopped then panic ''close of closed channel''
     else
       bnd (upd (sp_stopped_update (\<lambda>_. True))) (\<lambda>_.
       bnd (upd (sp_closed_update (\<lambda>_. True))) (\<lambda>_.
       bnd (walk_s7 P) (\<lambda>ids.
       s7_close_each P ids None))))"

section \<open>Reconnection\<close>

definition canAttemptReconnect :: "'b s7_entry \<Rightarrow> int \<Rightarrow> bool" where
  "canAttemptReconnect e now \<longleftrightarrow> en_nextReconnectAt e = zero_time \<or> en_nextReconnectAt e \<le> now"

text \<open>A negative shift, after \<open>2\<^sup>6\<^sup>3\<close> failures, would give 0.\<close>

definition reconnect_delay :: "int \<Rightarrow> int \<Rightarrow> int" where
  "reconnect_delay baseDelay connectFailures =
     (let shift = min 6 (wrap64 (connectFailures - 1));
          delay = wrap64 (baseDelay * (if shift < 0 then 0 else 2 ^ nat shift));
          maxDelay = 300000000000
      in if maxDelay < delay then maxDelay else delay)"

definition recordConnectResult :: "int \<Rightarrow> gerror option \<Rightarrow> int \<Rightarrow> 'b s7_entry \<Rightarrow> 'b s7_entry" where
  "recordConnectResult now err baseDelay e =
     (case err of
        None \<Rightarrow> e\<lparr>en_lastError := None, en_connectFailures := 0, en_nextReconnectAt := zero_time\<rparr>
      | Some g \<Rightarrow>
          let failures = wrap64 (en_connectFailures e + 1) in
          e\<lparr>en_lastError := Some g, en_connectFailures := failures,
            en_nextReconnectAt := now + reconnect_delay baseDelay failures\<rparr>)"

definition s7_breaker_state :: "('w, 'b) s7_pool_env \<Rightarrow> string \<Rightarrow> ('w, 'b, breaker_state) s7p" where
  "s7_breaker_state P i =
     bnd (field (s7_entry_at i)) (\<lambda>entry.
     case entry of
       None \<Rightarrow> panic ''nil pointer dereference''
     | Some e \<Rightarrow>
         bnd (call (sq_state P (en_breaker e))) (\<lambda>(st, b).
         bnd (upd (s7_set i (\<lambda>e. e\<lparr>en_breaker := b\<rparr>))) (\<lambda>_.
         ret st)))"

text \<open>One candidate of the second pass.\<close>

definition reconnect_entry :: "('w, 'b) s7_pool_env \<Rightarrow> int \<Rightarrow> string \<Rightarrow> ('w, 'b, unit) s7p" where
  "reconnect_entry P now i =
     bnd (s7_breaker_state P i) (\<lambda>st.
     if st = BreakerOpen then ret ()
     else
       bnd (field (s7_entry_at i)) (\<lambda>entry.
       if \<not> (case entry of Some e \<Rightarrow> canAttemptReconnect e now | None \<Rightarrow> False) then ret ()
       else
         bnd (on_s7 i (s7_Connect (sq_s7 P))) (\<lambda>err.
         upd (s7_set i (recordConnectResult now err 5000000000)))))"

fun reconnect_each :: "('w, 'b) s7_pool_env \<Rightarrow> int \<Rightarrow> string list \<Rightarrow> ('w, 'b, unit) s7p" where
  "reconnect_each P now [] = ret ()"
| "reconnect_each P now (i # is) = bnd (reconnect_entry P now i) (\<lambda>_. reconnect_each P now is)"

definition disconnected :: "'b s7_pool \<Rightarrow> string \<Rightarrow> bool" where
  "disconnected p i = (case s7_entry_at i p of Some e \<Rightarrow> \<not> s7_IsConnected (en_client e) | None \<Rightarrow> False)"

definition checkConnectionsAndReconnect :: "('w, 'b) s7_pool_env \<Rightarrow> ('w, 'b, unit) s7p" where
  "checkConnectionsAndReconnect P =
     bnd (walk_s7 P) (\<lambda>ids.
     bnd (field (\<lambda>p. filter (disconnected p) ids)) (\<lambda>candidates.
     bnd (s7_now P) (\<lambda>now.
     reconnect_each P now candidates)))"

text \<open>One tick of \<open>healthCheckLoop\<close>, which ends when the pool is stopped.\<close>

definition s7_health_tick :: "('w, 'b) s7_pool_env \<Rightarrow> ('w, 'b, unit) s7p" where
  "s7_health_tick P =
     bnd (field sp_stopped) (\<lambda>stopped. if stopped then ret () else checkConnectionsAndReconnect P)"

section \<open>Reaping\<close>

definition s7_reapable :: "'b s7_pool \<Rightarrow> int \<Rightarrow> string \<Rightarrow> bool" where
  "s7_reapable p now i =
     (case s7_entry_at i p of
        None \<Rightarrow> False
      | Some e \<Rightarrow> sp_idleTimeout p < time_Sub now (en_lastUse e) \<or>
          (0 < sp_maxTTL p \<and> sp_maxTTL p < time_Sub now (en_createdAt e)))"

fun s7_remove_each :: "('w, 'b) s7_pool_env \<Rightarrow> string list \<Rightarrow> ('w, 'b, unit) s7p" where
  "s7_remove_each P [] = ret ()"
| "s7_remove_each P (i # is) = bnd (s7_drop P i) (\<lambda>_. s7_remove_each P is)"

definition s7_reapIdleConnections :: "('w, 'b) s7_pool_env \<Rightarrow> ('w, 'b, unit) s7p" where
  "s7_reapIdleConnections P =
     bnd (field sp_closed) (\<lambda>closed.
     if closed then ret ()
     else
       bnd (s7_now P) (\<lambda>now.
       bnd (walk_s7 P) (\<lambda>ids.
       bnd (field (\<lambda>p. filter (s7_reapable p now) ids)) (\<lambda>toRemove.
       s7_remove_each P toRemove))))"

definition s7_reaper_tick :: "('w, 'b) s7_pool_env \<Rightarrow> ('w, 'b, unit) s7p" where
  "s7_reaper_tick P =
     bnd (field sp_stopped) (\<lambda>stopped. if stopped then ret () else s7_reapIdleConnections P)"

section \<open>Reports\<close>

definition s7_HealthCheck :: "'b s7_pool \<Rightarrow> gerror option" where
  "s7_HealthCheck p =
     (if sp_stopped p then Some (Sentinel (ServiceE ErrServiceStopped))
      else if sp_clients p = [] then None
      else if \<exists>x\<in>set (sp_clients p). s7_IsConnected (en_client (snd x)) then None
      else Some s7_closed)"

record s7_device_stats =
  dt_DeviceID :: string
  dt_Connected :: bool
  dt_LastUsed :: int
  dt_LastError :: string
  dt_ReadCount :: u64
  dt_WriteCount :: u64
  dt_ErrorCount :: u64
  dt_ReconnectCount :: u64
  dt_BreakerState :: breaker_state
  dt_ConsecutiveFailures :: u32
  dt_TagDiagnosticsCount :: nat

record s7_pool_stats =
  pt_TotalConnections :: int
  pt_ActiveConnections :: int
  pt_MaxConnections :: int
  pt_Devices :: "s7_device_stats list"

definition s7_stats_of :: "string \<Rightarrow> breaker_state \<Rightarrow> 'b s7_entry \<Rightarrow> s7_device_stats" where
  "s7_stats_of i st e =
     (let c = en_client e in
      \<lparr>dt_DeviceID = i, dt_Connected = s7_IsConnected c, dt_LastUsed = en_lastUse e,
       dt_LastError = (case sx_lastError c of None \<Rightarrow> '''' | Some g \<Rightarrow> error_text g),
       dt_ReadCount = ss_ReadCount (sx_stats c), dt_WriteCount = ss_WriteCount (sx_stats c),
       dt_ErrorCount = ss_ErrorCount (sx_stats c), dt_ReconnectCount = ss_ReconnectCount (sx_stats c),
       dt_BreakerState = st, dt_ConsecutiveFailures = sx_consecutiveFailures c,
       dt_TagDiagnosticsCount = card (dom (sx_tagDiagnostics c))\<rparr>)"

text \<open>A walk over the entries that asks each breaker for its state.\<close>

fun s7_each :: "('w, 'b) s7_pool_env \<Rightarrow> (string \<Rightarrow> breaker_state \<Rightarrow> 'b s7_entry \<Rightarrow> 'r) \<Rightarrow> string list \<Rightarrow> ('w, 'b, 'r list) s7p" where
  "s7_each P f [] = ret []"
| "s7_each P f (i # is) =
     bnd (s7_breaker_state P i) (\<lambda>st.
     bnd (field (s7_entry_at i)) (\<lambda>entry.
     bnd (s7_each P f is) (\<lambda>rest.
     ret (case entry of Some e \<Rightarrow> f i st e # rest | None \<Rightarrow> rest))))"

definition s7_pool_GetStats :: "('w, 'b) s7_pool_env \<Rightarrow> ('w, 'b, s7_pool_stats) s7p" where
  "s7_pool_GetStats P =
     bnd (walk_s7 P) (\<lambda>ids.
     bnd (s7_each P s7_stats_of ids) (\<lambda>devices.
     field (\<lambda>p. \<lparr>pt_TotalConnections = int (length (sp_clients p)),
                 pt_ActiveConnections = int (length (filter dt_Connected devices)),
                 pt_MaxConnections = sp_maxConnections p, pt_Devices = devices\<rparr>)))"

record s7_device_health =
  hd_DeviceID :: string
  hd_Connected :: bool
  hd_CircuitBreakerOpen :: bool
  hd_LastError :: "gerror option"
  hd_LastUsed :: int
  hd_ConsecutiveFailures :: u32

definition s7_health_of :: "string \<Rightarrow> breaker_state \<Rightarrow> 'b s7_entry \<Rightarrow> s7_device_health" where
  "s7_health_of i st e =
     \<lparr>hd_DeviceID = i, hd_Connected = s7_IsConnected (en_client e), hd_CircuitBreakerOpen = (st = BreakerOpen),
      hd_LastError = sx_lastError (en_client e), hd_LastUsed = en_lastUse e,
      hd_ConsecutiveFailures = sx_consecutiveFailures (en_client e)\<rparr>"

definition s7_GetDeviceHealth :: "('w, 'b) s7_pool_env \<Rightarrow> string \<Rightarrow> ('w, 'b, s7_device_health option) s7p" where
  "s7_GetDeviceHealth P i =
     bnd (field (s7_entry_at i)) (\<lambda>entry.
     case entry of
       None \<Rightarrow> ret None
     | Some e \<Rightarrow> bnd (s7_breaker_state P i) (\<lambda>st. ret (Some (s7_health_of i st e))))"

definition s7_GetAllDeviceHealth :: "('w, 'b) s7_pool_env \<Rightarrow> ('w, 'b, s7_device_health list) s7p" where
  "s7_GetAllDeviceHealth P = bnd (walk_s7 P) (s7_each P s7_health_of)"

definition s7_GetDeviceTagDiagnostics :: "'b s7_pool \<Rightarrow> string \<Rightarrow> (string \<rightharpoonup> s7_diagnostic) option" where
  "s7_GetDeviceTagDiagnostics p i = map_option (\<lambda>e. sx_tagDiagnostics (en_client e)) (s7_entry_at i p)"

section \<open>The invariant of the pool\<close>

text \<open>
  One entry per key, at most as many as allowed; each holds the client of its own device, sound and
  configured from it.
\<close>

definition s7_entry_ok :: "int \<Rightarrow> string \<times> 'b s7_entry \<Rightarrow> bool" where
  "s7_entry_ok idle x \<longleftrightarrow> dev_ID (en_device (snd x)) = fst x \<and>
     s7_sound (s7_default_config (s7_client_settings idle (en_device (snd x)))) (fst x) (en_client (snd x))"

definition s7_pool_inv :: "int \<Rightarrow> int \<Rightarrow> 'b s7_pool \<Rightarrow> bool" where
  "s7_pool_inv m idle p \<longleftrightarrow> sp_maxConnections p = m \<and> sp_idleTimeout p = idle \<and>
     distinct (map fst (sp_clients p)) \<and> int (length (sp_clients p)) \<le> max 0 m \<and>
     (\<forall>x\<in>set (sp_clients p). s7_entry_ok idle x)"

lemma s7_pool_inv_set:
  assumes "s7_pool_inv m idle p" and "\<And>e. s7_entry_ok idle (i, e) \<Longrightarrow> s7_entry_ok idle (i, f e)"
  shows "s7_pool_inv m idle (s7_set i f p)"
proof -
  from assms have "\<forall>x\<in>set (update_entry i f (sp_clients p)). s7_entry_ok idle x"
    by (intro update_entry_all) (simp_all add: s7_pool_inv_def)
  with assms(1) show ?thesis by (simp add: s7_pool_inv_def s7_set_def)
qed

lemma s7_pool_inv_delete: "s7_pool_inv m idle p \<Longrightarrow> s7_pool_inv m idle (s7_delete i p)"
  using set_delete [of i "sp_clients p"] AList.length_delete_le [of i "sp_clients p"]
  by (auto simp: s7_pool_inv_def s7_delete_def AList.distinct_delete)

lemma s7_pool_inv_insert:
  assumes "s7_pool_inv m idle p" and "s7_entry_ok idle (i, e)" and "int (length (sp_clients p)) < m"
  shows "s7_pool_inv m idle (p\<lparr>sp_clients := AList.update i e (sp_clients p)\<rparr>)"
  using assms set_update [of i e "sp_clients p"]
  by (auto simp: s7_pool_inv_def AList.distinct_update length_update)

lemma s7_set_inv [preserving]:
  "(\<And>e. en_client (f e) = en_client e \<and> en_device (f e) = en_device e) \<Longrightarrow>
   preserves (on_client (s7_pool_inv m idle)) (upd (s7_set i f))"
  by (intro on_client_upd s7_pool_inv_set) (simp_all add: s7_entry_ok_def)

lemma s7_delete_inv [preserving]: "preserves (on_client (s7_pool_inv m idle)) (upd (s7_delete i))"
  by (rule on_client_upd) (rule s7_pool_inv_delete)

lemma on_s7_inv [preserving]:
  fixes m' :: "('w, 'a) s7"
  assumes "\<And>k d. preserves (on_client (s7_sound k d)) m'"
  shows "preserves (on_client (s7_pool_inv m idle)) (on_s7 i m' :: ('w, 'b, 'a) s7p)"
  unfolding on_s7_def
proof (rule focus_preserves)
  fix p :: "'b s7_pool" and c
  assume p: "s7_pool_inv m idle p" and c: "map_option en_client (s7_entry_at i p) = Some c"
  from c obtain e where e: "map_of (sp_clients p) i = Some e" "en_client e = c" by (auto simp: s7_entry_at_def)
  with p have ok: "s7_entry_ok idle (i, e)" by (auto simp: s7_pool_inv_def dest: map_of_SomeD)
  let ?J = "s7_sound (s7_default_config (s7_client_settings idle (en_device e))) i"
  have "s7_pool_inv m idle (s7_set i (\<lambda>e. e\<lparr>en_client := c'\<rparr>) p)" if "?J c'" for c'
  proof -
    have "\<forall>x\<in>set (update_entry i (\<lambda>e. e\<lparr>en_client := c'\<rparr>) (sp_clients p)). s7_entry_ok idle x"
    proof
      fix x assume "x \<in> set (update_entry i (\<lambda>e. e\<lparr>en_client := c'\<rparr>) (sp_clients p))"
      then obtain j e' where x: "(j, e') \<in> set (sp_clients p)" "x = (j, if j = i then e'\<lparr>en_client := c'\<rparr> else e')"
        by (auto simp: update_entry_def)
      with p have "s7_entry_ok idle (j, e')" by (auto simp: s7_pool_inv_def)
      moreover have "j = i \<Longrightarrow> e' = e"
        using x(1) e(1) p by (auto simp: s7_pool_inv_def dest: map_of_is_SomeI)
      ultimately show "s7_entry_ok idle x" using x(2) that by (auto simp: s7_entry_ok_def)
    qed
    with p show ?thesis by (simp add: s7_pool_inv_def s7_set_def)
  qed
  with ok e(2) assms show "\<exists>J. J c \<and> preserves (on_client J) m' \<and>
      (\<forall>c'. J c' \<longrightarrow> s7_pool_inv m idle (s7_set i (\<lambda>e. e\<lparr>en_client := c'\<rparr>) p))"
    by (intro exI [of _ ?J]) (auto simp: s7_entry_ok_def)
qed

lemma s7_drop_keeps:
  fixes P :: "('w, 'b) s7_pool_env"
  shows "keeps (on_client (s7_pool_inv m idle)) (s7_drop P i)
    (\<lambda>_ s. on_client (s7_pool_inv m idle) s \<and> int (length (sp_clients (fst s))) < m) (on_client (s7_pool_inv m idle))"
proof -
  have kept: "preserves (on_client (s7_pool_inv m idle)) (on_s7 i (s7_Disconnect (sq_s7 P)) :: ('w, 'b, gerror option) s7p)"
    by (intro on_s7_inv s7_inv.Disconnect)
  have there: "keeps (on_client (s7_pool_inv m idle)) (on_s7 i (s7_Disconnect (sq_s7 P)) :: ('w, 'b, gerror option) s7p)
      (\<lambda>_ s. on_client (s7_pool_inv m idle) s \<and> i \<in> fst ` set (sp_clients (fst s))) (on_client (s7_pool_inv m idle))"
  proof (rule keepsI)
    fix s :: "'b s7_pool \<times> 'w" and r :: "gerror option" and s'
    assume s: "on_client (s7_pool_inv m idle) s"
      and run: "on_s7 i (s7_Disconnect (sq_s7 P)) s = (Val r, s')"
    from run have "s7_entry_at i (fst s) \<noteq> None" "map fst (sp_clients (fst s')) = map fst (sp_clients (fst s))"
      by (auto simp: on_s7_def focus_def s7_set_def split: option.splits prod.splits)
    then have "i \<in> fst ` set (sp_clients (fst s'))"
      by (metis list.set_map map_of_eq_None_iff s7_entry_at_def)
    moreover have "on_client (s7_pool_inv m idle) s'"
      using preservesD [OF kept s] run by simp
    ultimately show "on_client (s7_pool_inv m idle) s' \<and> i \<in> fst ` set (sp_clients (fst s'))" by simp
  next
    fix s :: "'b s7_pool \<times> 'w" and p s'
    assume s: "on_client (s7_pool_inv m idle) s"
      and run: "on_s7 i (s7_Disconnect (sq_s7 P)) s = (Panic p, s')"
    then show "on_client (s7_pool_inv m idle) s'"
      using preservesD [OF kept s] by simp
  qed
  have "int (length (AList.delete i (sp_clients p))) < m"
    if "s7_pool_inv m idle p" "i \<in> fst ` set (sp_clients p)" for p :: "'b s7_pool"
  proof -
    have "length (AList.delete i (sp_clients p)) < length (sp_clients p)"
      using that(2) by (auto simp: AList.delete_eq intro!: length_filter_less)
    with that(1) show ?thesis by (auto simp: s7_pool_inv_def)
  qed
  then show ?thesis
    unfolding s7_drop_def
    by (intro keeps_bnd [OF there] keeps_bnd [OF keeps_upd] keeps_ret)
      (auto simp: on_client_def s7_delete_def dest: s7_pool_inv_delete [of _ _ _ i, unfolded s7_delete_def])
qed

lemma s7_drop_inv [preserving]: "preserves (on_client (s7_pool_inv m idle)) (s7_drop P i)"
  by (rule keeps_preserves) (rule keeps_post [OF s7_drop_keeps], simp)

lemma walk_s7_inv [preserving]: "preserves (on_client (s7_pool_inv m idle)) (walk_s7 P)"
  unfolding walk_s7_def by (intro preserving)

lemma s7_now_inv [preserving]: "preserves (on_client (s7_pool_inv m idle)) (s7_now P)"
  unfolding s7_now_def by (intro preserving)

lemma s7_evict_keeps: "keeps (on_client (s7_pool_inv m idle)) (evictIdleConnection P)
    (\<lambda>room s. on_client (s7_pool_inv m idle) s \<and> (room \<longrightarrow> int (length (sp_clients (fst s))) < m))
    (on_client (s7_pool_inv m idle))"
proof -
  let ?I = "on_client (s7_pool_inv m idle)"
  note walk = preserves_keeps [OF walk_s7_inv] and now = preserves_keeps [OF s7_now_inv]
    and look = preserves_keeps [OF preserves_field]
  show ?thesis
    unfolding evictIdleConnection_def
    by (intro keeps_bnd [OF walk] keeps_bnd [OF look] keeps_bnd [OF now] keeps_if keeps_ret keeps_prod
        keeps_bnd [OF s7_drop_keeps]) auto
qed

lemma s7_NewClient_sound: "s7_NewClient d config now = Inr c \<Longrightarrow> s7_sound (s7_default_config config) d c"
  by (auto simp: s7_NewClient_def s7_sound_def split: if_splits)

lemma s7_Connect_sound: "s7_Connect E (c, w) = (r, (c', w')) \<Longrightarrow> s7_sound k d c \<Longrightarrow> s7_sound k d c'"
  using preservesD [OF s7_inv.Connect, of k d "(c, w)" E] by (simp add: on_client_def)

lemma s7_createClient_made:
  "made (\<lambda>p. sp_idleTimeout p = idle) (s7_sound (s7_default_config (s7_client_settings idle d)) (dev_ID d))
     (s7_createClient P d)"
  by (auto simp: made_def s7_createClient_def s7_now_def on_value_def run_simps bnd_def ret_def
      split: prod.split sum.split option.split run.split dest!: s7_Connect_sound s7_NewClient_sound)

text \<open>There is room for one more.\<close>

definition s7_room :: "int \<Rightarrow> int \<Rightarrow> 'b s7_pool \<Rightarrow> bool" where
  "s7_room m idle p \<longleftrightarrow> s7_pool_inv m idle p \<and> int (length (sp_clients p)) < m"

lemma GetOrCreate_inv [preserving]:
  fixes P :: "('w, 'b) s7_pool_env"
  shows "preserves (on_client (s7_pool_inv m idle)) (GetOrCreate P d)"
proof (rule keeps_preserves)
  let ?I = "on_client (s7_pool_inv m idle) :: 'b s7_pool \<times> 'w \<Rightarrow> bool"
  let ?R = "on_client (s7_room m idle) :: 'b s7_pool \<times> 'w \<Rightarrow> bool"
  let ?J = "s7_sound (s7_default_config (s7_client_settings idle d)) (dev_ID d)"
  let ?some = "\<lambda>room s. if room then ?R s else ?I s"
  have full: "keeps ?I (field (\<lambda>p. sp_maxConnections p \<le> int (length (sp_clients p)))) (\<lambda>full. ?some (\<not> full)) ?I"
    by (rule keeps_field) (auto simp: on_client_def s7_pool_inv_def s7_room_def)
  have evicted: "keeps (?some (\<not> full)) (if full then evictIdleConnection P else ret True) ?some ?I" for full
    by (intro keeps_if keeps_ret keeps_post [OF keeps_pre [OF s7_evict_keeps]])
      (auto simp: on_client_def s7_room_def)
  have there: "keeps ?I (bnd (s7_now P) (\<lambda>now. bnd (upd (s7_set (dev_ID d) (\<lambda>e. e\<lparr>en_lastUse := now\<rparr>))) (\<lambda>_. ret None)))
      (\<lambda>_. ?I) ?I"
    by (rule preserves_keeps) (intro preserving, simp)
  have idle: "sp_idleTimeout p = idle" if "s7_room m idle p" for p :: "'b s7_pool"
    using that by (simp add: s7_room_def s7_pool_inv_def)
  have create: "keeps ?R (s7_createClient P d) (\<lambda>r s. ?R s \<and> (\<forall>c. r = Inr c \<longrightarrow> ?J c)) ?I"
    by (rule keeps_crash [OF made_keeps [OF s7_createClient_made idle]]) (auto simp: on_client_def s7_room_def)
  have put: "keeps ?R (bnd (s7_now P) (\<lambda>now. bnd (upd (\<lambda>p. p\<lparr>sp_clients := AList.update (dev_ID d)
           \<lparr>en_client = c, en_device = d, en_breaker = sq_newBreaker P (s7_breaker_settings d),
            en_createdAt = now, en_lastUse = now, en_lastError = None, en_connectFailures = 0,
            en_nextReconnectAt = zero_time\<rparr> (sp_clients p)\<rparr>)) (\<lambda>_. ret None))) (\<lambda>_. ?I) ?I" if "?J c" for c
    unfolding s7_now_def
    by (intro keeps_bnd [OF keeps_call [where Q = "\<lambda>_. ?R"]] keeps_bnd [OF keeps_upd [where Q = "\<lambda>_. ?I"]] keeps_ret)
      (use that in \<open>auto simp: on_client_def s7_room_def s7_entry_ok_def intro!: s7_pool_inv_insert\<close>)
  have made: "keeps (\<lambda>s. ?R s \<and> (\<forall>c. created = Inr c \<longrightarrow> ?J c))
      (case created of
         Inl err \<Rightarrow> ret (Some err)
       | Inr c \<Rightarrow>
           bnd (s7_now P) (\<lambda>now. bnd (upd (\<lambda>p. p\<lparr>sp_clients := AList.update (dev_ID d)
             \<lparr>en_client = c, en_device = d, en_breaker = sq_newBreaker P (s7_breaker_settings d),
              en_createdAt = now, en_lastUse = now, en_lastError = None, en_connectFailures = 0,
              en_nextReconnectAt = zero_time\<rparr> (sp_clients p)\<rparr>)) (\<lambda>_. ret None))) (\<lambda>_. ?I) ?I" for created
    by (intro keeps_sum keeps_ret keeps_fact [where F = "\<forall>c. created = Inr c \<longrightarrow> ?J c", OF _ keeps_pre [OF put]])
      (auto simp: on_client_def s7_room_def)
  show "keeps ?I (GetOrCreate P d) (\<lambda>_. ?I) ?I"
    unfolding GetOrCreate_def
    by (intro keeps_bnd [OF keeps_field [where Q = "\<lambda>_. ?I"]] keeps_if there keeps_bnd [OF full] keeps_bnd [OF evicted]
        keeps_ret keeps_bnd [OF keeps_pre [OF create] made]) simp_all
qed

lemma s7_admit_inv [preserving]: "preserves (on_client (s7_pool_inv m idle)) (s7_admit P i)"
  unfolding s7_admit_def by (intro preserving) simp

lemma s7_record_inv [preserving]: "preserves (on_client (s7_pool_inv m idle)) (s7_record P i b)"
  unfolding s7_record_def by (intro preserving) simp

lemma s7_Execute_inv [preserving]:
  "(\<And>k d. preserves (on_client (s7_sound k d)) request) \<Longrightarrow>
   preserves (on_client (s7_pool_inv m idle)) (s7_Execute P i request)"
  unfolding s7_Execute_def by (intro preserving)

lemma s7_ensure_inv [preserving]: "preserves (on_client (s7_pool_inv m idle)) (s7_ensure P d)"
  unfolding s7_ensure_def by (intro preserving)

lemma s7_guarded_inv [preserving]:
  "(\<And>k d. preserves (on_client (s7_sound k d)) request) \<Longrightarrow>
   preserves (on_client (s7_pool_inv m idle)) (s7_guarded P d nothing request)"
  unfolding s7_guarded_def by (intro preserving)

lemma s7_reads_inv:
  "preserves (on_client (s7_pool_inv m idle)) (s7_pool_ReadTag P d t)"
  "preserves (on_client (s7_pool_inv m idle)) (s7_pool_ReadTags P d ts)"
  unfolding s7_pool_ReadTag_def s7_pool_ReadTags_def by (intro preserving s7_inv.ReadTag s7_inv.ReadTags)+

lemma s7_writes_inv:
  "preserves (on_client (s7_pool_inv m idle)) (s7_pool_WriteTag P d t v)"
  "preserves (on_client (s7_pool_inv m idle)) (s7_pool_WriteTags P d ws)"
  unfolding s7_pool_WriteTag_def s7_pool_WriteTags_def by (intro preserving s7_inv.WriteTag s7_inv.WriteTags)+

lemma s7_Remove_inv: "preserves (on_client (s7_pool_inv m idle)) (s7_Remove P i)"
  unfolding s7_Remove_def by (intro preserving)

lemma s7_close_each_inv [preserving]: "preserves (on_client (s7_pool_inv m idle)) (s7_close_each P is e)"
  by (induction "is" arbitrary: e) (auto intro!: preserving)

lemma s7_flags_inv [preserving]:
  "preserves (on_client (s7_pool_inv m idle)) (upd (sp_stopped_update f))"
  "preserves (on_client (s7_pool_inv m idle)) (upd (sp_closed_update f))"
  by (rule on_client_upd, simp add: s7_pool_inv_def)+

lemma s7_Close_inv: "preserves (on_client (s7_pool_inv m idle)) (s7_Close P)"
  unfolding s7_Close_def by (intro preserving)

lemma s7_breaker_state_inv [preserving]: "preserves (on_client (s7_pool_inv m idle)) (s7_breaker_state P i)"
  unfolding s7_breaker_state_def by (intro preserving) simp

lemma recordConnectResult_fields [simp]:
  "en_client (recordConnectResult now err b e) = en_client e" "en_device (recordConnectResult now err b e) = en_device e"
  "en_lastUse (recordConnectResult now err b e) = en_lastUse e"
  by (simp_all add: recordConnectResult_def Let_def split: option.split)

lemma reconnect_entry_inv [preserving]: "preserves (on_client (s7_pool_inv m idle)) (reconnect_entry P now i)"
  unfolding reconnect_entry_def by (intro preserving s7_inv.Connect) simp

lemma reconnect_each_inv [preserving]: "preserves (on_client (s7_pool_inv m idle)) (reconnect_each P now is)"
  by (induction "is") (auto intro!: preserving)

lemma s7_health_tick_inv: "preserves (on_client (s7_pool_inv m idle)) (s7_health_tick P)"
  unfolding s7_health_tick_def checkConnectionsAndReconnect_def by (intro preserving)

lemma s7_remove_each_inv [preserving]: "preserves (on_client (s7_pool_inv m idle)) (s7_remove_each P is)"
  by (induction "is") (auto intro!: preserving)

lemma s7_reaper_tick_inv: "preserves (on_client (s7_pool_inv m idle)) (s7_reaper_tick P)"
  unfolding s7_reaper_tick_def s7_reapIdleConnections_def by (intro preserving)

section \<open>The properties\<close>

text \<open>
  The S7 pool's invariant holds from its creation on, under every method and every tick of its
  background loops, eviction included: at most \<open>MaxConnections\<close> clients, one per device, each
  configured from its device and in a sound connection state.
\<close>

theorem s7_pool_invariant:
  "s7_pool_inv (s7_default 100 (qc_MaxConnections k)) (s7_default 300000000000 (qc_IdleTimeout k))
     (s7_NewPool k :: 'b s7_pool) \<and>
   preserves (on_client (s7_pool_inv m idle)) (GetOrCreate P d) \<and>
   preserves (on_client (s7_pool_inv m idle)) (s7_pool_ReadTag P d t) \<and>
   preserves (on_client (s7_pool_inv m idle)) (s7_pool_ReadTags P d ts) \<and>
   preserves (on_client (s7_pool_inv m idle)) (s7_pool_WriteTag P d t v) \<and>
   preserves (on_client (s7_pool_inv m idle)) (s7_pool_WriteTags P d ws) \<and>
   preserves (on_client (s7_pool_inv m idle)) (s7_Remove P i) \<and>
   preserves (on_client (s7_pool_inv m idle)) (s7_Close P) \<and>
   preserves (on_client (s7_pool_inv m idle)) (s7_health_tick P) \<and>
   preserves (on_client (s7_pool_inv m idle)) (s7_reaper_tick P)"
proof (intro conjI)
  show "s7_pool_inv (s7_default 100 (qc_MaxConnections k)) (s7_default 300000000000 (qc_IdleTimeout k))
     (s7_NewPool k :: 'b s7_pool)"
    by (simp add: s7_pool_inv_def s7_NewPool_def)
qed (rule GetOrCreate_inv s7_reads_inv s7_writes_inv s7_Remove_inv s7_Close_inv s7_health_tick_inv s7_reaper_tick_inv)+

text \<open>The delay after the \<open>n\<close>-th failure in a row.\<close>

lemma reconnect_delay_eq:
  assumes "0 < n" and "n < 2 ^ 63"
  shows "reconnect_delay 5000000000 n = (if n \<le> 6 then 5000000000 * 2 ^ nat (n - 1) else 300000000000)"
proof -
  have w: "wrap64 (n - 1) = n - 1" using assms by (simp add: wrap64_id)
  show ?thesis
  proof (cases "n \<le> 6")
    case True
    with assms have "n \<in> {1, 2, 3, 4, 5, 6}" by auto
    then show ?thesis by (elim insertE; simp add: reconnect_delay_def wrap64_def)
  next
    case False
    then have m: "min 6 (n - 1) = 6" by simp
    have "reconnect_delay 5000000000 n = 300000000000"
      unfolding reconnect_delay_def w m Let_def by (simp add: wrap64_id)
    with False show ?thesis by simp
  qed
qed

lemma s7_Connect_run:
  "\<exists>err c' w'. s7_Connect E (c, w) = (Val err, (c', w')) \<and> (err = None \<longrightarrow> sx_connected c')"
  by (auto simp: s7_Connect_def run_simps split: prod.split s7_dial.split)

lemma entry_at_set: "s7_entry_at j (s7_set i f p) = (if j = i then map_option f (s7_entry_at i p) else s7_entry_at j p)"
  by (simp add: s7_entry_at_def s7_set_def map_of_update_entry)

definition backoff_after :: "int \<Rightarrow> int" where
  "backoff_after n = (if n \<le> 6 then 5000000000 * 2 ^ nat (n - 1) else 300000000000)"

lemma backoff_bounds: "0 < n \<Longrightarrow> 5000000000 \<le> backoff_after n \<and> backoff_after n \<le> 300000000000"
proof -
  assume n: "0 < n"
  show ?thesis
  proof (cases "n \<le> 6")
    case True
    with n have "(2::int) ^ 0 \<le> 2 ^ nat (n - 1)" "(2::int) ^ nat (n - 1) \<le> 2 ^ 5" by (intro power_increasing; simp)+
    with True show ?thesis by (simp add: backoff_after_def)
  qed (simp add: backoff_after_def)
qed

lemma failed_result:
  assumes "0 \<le> en_connectFailures e" and "en_connectFailures e < 2 ^ 63 - 1" and "0 \<le> now"
  shows "en_connectFailures (recordConnectResult now (Some g) 5000000000 e) = en_connectFailures e + 1 \<and>
    (canAttemptReconnect (recordConnectResult now (Some g) 5000000000 e) t \<longleftrightarrow>
       now + backoff_after (en_connectFailures e + 1) \<le> t)"
proof -
  have w: "wrap64 (en_connectFailures e + 1) = en_connectFailures e + 1"
    using assms(1,2) by (simp add: wrap64_id)
  have "reconnect_delay 5000000000 (en_connectFailures e + 1) = backoff_after (en_connectFailures e + 1)"
    using reconnect_delay_eq [of "en_connectFailures e + 1"] assms(1,2) by (simp add: backoff_after_def)
  moreover have "now + backoff_after (en_connectFailures e + 1) \<noteq> zero_time"
    using backoff_bounds [of "en_connectFailures e + 1"] assms(1,3) by (simp add: zero_time_def)
  ultimately show ?thesis by (simp add: recordConnectResult_def canAttemptReconnect_def w Let_def)
qed

text \<open>
  Reconnecting a device backs off: an attempt is made only when the breaker is not open and the
  time set by the last failure has come; otherwise the entry keeps its client and its counters. A
  successful attempt leaves a connected client, no failures and no waiting time; the \<open>n\<close>-th failure
  in a row puts the next attempt off by 5, 10, 20, 40, 80 and 160 seconds and 5 minutes from then on.
  No other entry changes, and nothing panics.
\<close>

theorem s7_reconnect_backs_off:
  assumes "s7_entry_at i p = Some e" and "0 \<le> en_connectFailures e" and "en_connectFailures e < 2 ^ 63 - 1"
    and "0 \<le> now"
  shows "\<exists>st p' w' e'. reconnect_entry P now i (p, w) = (Val (), (p', w')) \<and> s7_entry_at i p' = Some e' \<and>
    (\<forall>j. j \<noteq> i \<longrightarrow> s7_entry_at j p' = s7_entry_at j p) \<and> st = fst (fst (sq_state P (en_breaker e) w)) \<and>
    (if st = BreakerOpen \<or> \<not> canAttemptReconnect e now
     then e' = e\<lparr>en_breaker := en_breaker e'\<rparr>
     else sx_connected (en_client e') \<and> en_connectFailures e' = 0 \<and> (\<forall>t. canAttemptReconnect e' t) \<or>
       en_lastError e' \<noteq> None \<and> en_connectFailures e' = en_connectFailures e + 1 \<and>
       (\<forall>t. canAttemptReconnect e' t \<longleftrightarrow> now + backoff_after (en_connectFailures e + 1) \<le> t))"
proof -
  obtain st b w1 where st: "sq_state P (en_breaker e) w = ((st, b), w1)" by (metis surj_pair)
  let ?p = "s7_set i (\<lambda>e. e\<lparr>en_breaker := b\<rparr>) p"
  let ?e = "e\<lparr>en_breaker := b\<rparr>"
  have look: "s7_breaker_state P i (p, w) = (Val st, (?p, w1))"
    by (simp add: s7_breaker_state_def run_simps assms(1) st)
  have e: "s7_entry_at i ?p = Some ?e" by (simp add: entry_at_set assms(1))
  have can: "canAttemptReconnect ?e now = canAttemptReconnect e now" by (simp add: canAttemptReconnect_def)
  show ?thesis
  proof (cases "st = BreakerOpen \<or> \<not> canAttemptReconnect e now")
    case True
    then have "reconnect_entry P now i (p, w) = (Val (), (?p, w1))"
      by (auto simp: reconnect_entry_def bnd_def look e can run_simps)
    with True st e show ?thesis
      by (intro exI [of _ st] exI [of _ ?p] exI [of _ w1] exI [of _ ?e]) (auto simp: entry_at_set)
  next
    case False
    obtain err c w2 where dial: "s7_Connect (sq_s7 P) (en_client e, w1) = (Val err, (c, w2))" "err = None \<longrightarrow> sx_connected c"
      using s7_Connect_run by metis
    let ?q = "s7_set i (recordConnectResult now err 5000000000) (s7_set i (\<lambda>e. e\<lparr>en_client := c\<rparr>) ?p)"
    let ?e' = "recordConnectResult now err 5000000000 (?e\<lparr>en_client := c\<rparr>)"
    have "on_s7 i (s7_Connect (sq_s7 P)) (?p, w1) = (Val err, (s7_set i (\<lambda>e. e\<lparr>en_client := c\<rparr>) ?p, w2))"
      by (simp add: on_s7_def focus_def e dial(1))
    with False have run: "reconnect_entry P now i (p, w) = (Val (), (?q, w2))"
      by (simp add: reconnect_entry_def bnd_def look e can run_simps)
    have e': "s7_entry_at i ?q = Some ?e'" by (simp add: entry_at_set e assms(1))
    have "sx_connected (en_client ?e') \<and> en_connectFailures ?e' = 0 \<and> (\<forall>t. canAttemptReconnect ?e' t) \<or>
       en_lastError ?e' \<noteq> None \<and> en_connectFailures ?e' = en_connectFailures e + 1 \<and>
       (\<forall>t. canAttemptReconnect ?e' t \<longleftrightarrow> now + backoff_after (en_connectFailures e + 1) \<le> t)"
    proof (cases err)
      case None
      with dial(2) show ?thesis by (simp add: recordConnectResult_def canAttemptReconnect_def)
    next
      case (Some g)
      have "en_lastError ?e' \<noteq> None" by (simp add: Some recordConnectResult_def Let_def)
      with failed_result [of "?e\<lparr>en_client := c\<rparr>" now g] assms(2-4) show ?thesis by (simp add: Some)
    qed
    with False st run e' show ?thesis
      by (intro exI [of _ st] exI [of _ ?q] exI [of _ w2] exI [of _ ?e']) (auto simp: entry_at_set)
  qed
qed

section \<open>A pool for the witnesses\<close>

definition sample_s7_pool_env :: "(s7_memory, nat) s7_pool_env" where
  "sample_s7_pool_env =
     \<lparr>sq_s7 = sample_s7_env, sq_arch = sample_arch, sq_newBreaker = \<lambda>st. 0,
      sq_admit = \<lambda>b w. ((if 5 \<le> b then Some OpenState else None, b), w),
      sq_record = \<lambda>ok b w. (if ok then 0 else Suc b, w),
      sq_state = \<lambda>b w. ((if 5 \<le> b then BreakerOpen else BreakerClosed, b), w),
      sq_order = Pair\<rparr>"

definition sample_s7_entry :: "nat s7_entry" where
  "sample_s7_entry =
     \<lparr>en_client = sample_s7_client\<lparr>sx_connected := False, sx_client := False, sx_handler := False\<rparr>,
      en_device = sample_device, en_breaker = 2, en_createdAt = 0, en_lastUse = 0, en_lastError = None,
      en_connectFailures = 3, en_nextReconnectAt = 50\<rparr>"

definition sample_s7_pool :: "nat s7_pool" where
  "sample_s7_pool =
     (s7_NewPool \<lparr>qc_MaxConnections = 10, qc_IdleTimeout = 0, qc_HealthCheckInterval = 0, qc_RetryDelay = 0, qc_MaxTTL = 0\<rparr>)
       \<lparr>sp_clients := [(dev_ID sample_device, sample_s7_entry)]\<rparr>"

lemma sample_s7_entry_at: "s7_entry_at (dev_ID sample_device) sample_s7_pool = Some sample_s7_entry"
  by (simp add: s7_entry_at_def sample_s7_pool_def)

theorem s7_reconnect_backs_off_witness:
  "\<exists>st p' w' e'. reconnect_entry sample_s7_pool_env 60 (dev_ID sample_device) (sample_s7_pool, \<lambda>_ _ _. 0) =
      (Val (), (p', w')) \<and> s7_entry_at (dev_ID sample_device) p' = Some e' \<and>
    (\<forall>j. j \<noteq> dev_ID sample_device \<longrightarrow> s7_entry_at j p' = s7_entry_at j sample_s7_pool) \<and>
    st = fst (fst (sq_state sample_s7_pool_env (en_breaker sample_s7_entry) (\<lambda>_ _ _. 0))) \<and>
    (if st = BreakerOpen \<or> \<not> canAttemptReconnect sample_s7_entry 60
     then e' = sample_s7_entry\<lparr>en_breaker := en_breaker e'\<rparr>
     else sx_connected (en_client e') \<and> en_connectFailures e' = 0 \<and> (\<forall>t. canAttemptReconnect e' t) \<or>
       en_lastError e' \<noteq> None \<and> en_connectFailures e' = en_connectFailures sample_s7_entry + 1 \<and>
       (\<forall>t. canAttemptReconnect e' t \<longleftrightarrow> 60 + backoff_after (en_connectFailures sample_s7_entry + 1) \<le> t))"
  by (rule s7_reconnect_backs_off [OF sample_s7_entry_at]) (simp_all add: sample_s7_entry_def)

text \<open>The time of an entry's last use.\<close>

definition used_at :: "string \<Rightarrow> int \<Rightarrow> 'b s7_pool \<Rightarrow> bool" where
  "used_at i t p \<longleftrightarrow> map_option en_lastUse (s7_entry_at i p) = Some t"

lemma s7_set_used:
  "(\<And>e. en_lastUse (f e) = en_lastUse e) \<Longrightarrow> preserves (on_client (used_at i t)) (upd (s7_set j f))"
  by (rule on_client_upd) (auto simp: used_at_def entry_at_set)

lemma on_s7_used: "preserves (on_client (used_at i t)) (on_s7 j m)"
  unfolding on_s7_def
  by (intro focus_preserves exI [of _ "\<lambda>_. True"]) (auto simp: preserves_def on_client_def used_at_def entry_at_set)

lemma s7_Execute_used: "preserves (on_client (used_at i t)) (s7_Execute P j request)"
  unfolding s7_Execute_def s7_admit_def s7_record_def by (intro preserving on_s7_used s7_set_used) simp_all

lemma s7_ensure_used: "preserves (on_client (used_at (dev_ID d) t)) (s7_ensure P d)"
  by (auto simp: preserves_def s7_ensure_def run_defs on_client_def used_at_def split_paired_all)

lemma s7_guarded_used: "preserves (on_client (used_at (dev_ID d) t)) (s7_guarded P d nothing request)"
  unfolding s7_guarded_def by (intro preserving s7_ensure_used s7_Execute_used)

text \<open>
  Reads and writes of a device that has a client do not move the time of the client's last use,
  on any path: only its creation does, so that the reaper drops a client once it is older than the
  idle timeout, however busy it is.
\<close>

theorem s7_requests_do_not_count_as_use:
  "preserves (on_client (used_at (dev_ID d) t)) (s7_pool_ReadTag P d tag) \<and>
   preserves (on_client (used_at (dev_ID d) t)) (s7_pool_ReadTags P d tags) \<and>
   preserves (on_client (used_at (dev_ID d) t)) (s7_pool_WriteTag P d tag v) \<and>
   preserves (on_client (used_at (dev_ID d) t)) (s7_pool_WriteTags P d ws)"
  unfolding s7_pool_ReadTag_def s7_pool_ReadTags_def s7_pool_WriteTag_def s7_pool_WriteTags_def
  by (intro conjI preserving s7_guarded_used s7_ensure_used s7_Execute_used)

end
