(* ===== verification/OpcuaLoad.thy ===== *)
theory OpcuaLoad
  imports GoFloat GoErrors
begin

text \<open>
  Load shaping of the OPC UA pool (\<open>internal/adapter/opcua/loadshaping.go\<close>): the goroutines that call
  \<open>checkGlobalLoadAndQueueWithSession\<close>, the workers in \<open>priorityQueueProcessor\<close>, the three queues between
  them, and closing, as a step relation. A call reads the counters in one step and changes them in the
  next, so other goroutines come in between. The context of a call, the circuit breaker and the result of
  the operation are the environment's choice.
\<close>

section \<open>State\<close>

text \<open>\<open>op_call\<close> stands for the result channel: the caller that waits for it.\<close>

record op_request =
  op_priority :: nat
  op_session :: "string option"
  op_call :: nat

datatype outcome = Refused gerror | Expired | Ran "gerror option"

text \<open>
  Where a call is: about to look at the load; past the checks with the load it read; counted and about to
  send its request; waiting for the result; running the operation itself; returned.
\<close>

datatype call_state = Arrived | Admitted int | Sending | Waiting | Running | Returned outcome

text \<open>
  A worker tries the queues in three \<open>select\<close> statements, then holds a request, then runs it. At
  \<open>Picking 0\<close> it looks at the safety queue, at \<open>Picking 1\<close> at safety and control, at \<open>Picking 2\<close> at all.
\<close>

datatype worker = Picking nat | Holding op_request | Executing op_request | WorkerDone

record load_config =
  lc_max :: int
  lc_fraction :: f64
  lc_queueSize :: nat
  lc_perEndpoint :: int

record load =
  ld_global :: int
  ld_inFlight :: "string \<Rightarrow> int"
  ld_brownout :: bool
  ld_closed :: bool
  ld_queues :: "op_request list list"
  ld_queuesClosed :: bool
  ld_results :: "nat \<Rightarrow> outcome option"
  ld_calls :: "(op_request \<times> call_state) list"
  ld_workers :: "worker list"
  ld_panic :: "string option"

definition new_load :: "nat \<Rightarrow> load" where
  "new_load workers =
     \<lparr>ld_global = 0, ld_inFlight = (\<lambda>_. 0), ld_brownout = False, ld_closed = False, ld_queues = [[], [], []],
      ld_queuesClosed = False, ld_results = (\<lambda>_. None), ld_calls = [], ld_workers = replicate workers (Picking 0),
      ld_panic = None\<rparr>"

text \<open>The priorities are the indices of the queues.\<close>

definition telemetry :: nat where "telemetry = 0"
definition control :: nat where "control = 1"
definition safety :: nat where "safety = 2"

text \<open>\<open>int64(float64(max) * fraction)\<close>, for a product that fits an \<open>int64\<close>.\<close>

definition load_threshold :: "load_config \<Rightarrow> int" where
  "load_threshold C =
     (case fp_trunc (decode64 (f64_mul (f64_of_int (lc_max C)) (lc_fraction C))) of Some i \<Rightarrow> i | None \<Rightarrow> 0)"

section \<open>One call\<close>

definition service_overloaded :: gerror where
  "service_overloaded = Sentinel (ServiceE ErrServiceOverloaded)"

definition bump :: "int \<Rightarrow> op_request \<Rightarrow> load \<Rightarrow> load" where
  "bump d r l =
     l\<lparr>ld_global := ld_global l + d,
       ld_inFlight := (case op_session r of None \<Rightarrow> ld_inFlight l
                       | Some s \<Rightarrow> (ld_inFlight l)(s := ld_inFlight l s + d))\<rparr>"

definition move_call :: "nat \<Rightarrow> call_state \<Rightarrow> load \<Rightarrow> load" where
  "move_call i c l = l\<lparr>ld_calls := (ld_calls l)[i := (fst (ld_calls l ! i), c)]\<rparr>"

text \<open>
  The checks, and the load read at their end. \<open>expired\<close>: the context has ended; \<open>opened\<close>: the session's
  breaker is open.
\<close>

definition check_load :: "load_config \<Rightarrow> bool \<Rightarrow> bool \<Rightarrow> op_request \<Rightarrow> load \<Rightarrow> call_state \<times> load" where
  "check_load C expired opened r l =
     (if expired then (Returned Expired, l)
      else if op_session r \<noteq> None \<and> opened then (Returned (Refused (Sentinel (ConnE ErrCircuitBreakerOpen))), l)
      else if ld_brownout l \<and> op_priority r = telemetry then (Returned (Refused service_overloaded), l)
      else if (case op_session r of None \<Rightarrow> False | Some s \<Rightarrow> 0 < lc_perEndpoint C \<and> lc_perEndpoint C \<le> ld_inFlight l s) \<and>
          op_priority r = telemetry then (Returned (Refused service_overloaded), l)
      else if load_threshold C \<le> ld_global l \<and> op_priority r = telemetry
      then (Returned (Refused service_overloaded), l\<lparr>ld_brownout := True\<rparr>)
      else (Admitted (ld_global l), l))"

text \<open>Past the checks: the call counts itself, to be queued or to run at once.\<close>

definition count_call :: "load_config \<Rightarrow> int \<Rightarrow> op_request \<Rightarrow> load \<Rightarrow> call_state \<times> load" where
  "count_call C current r l =
     (if lc_max C \<le> current
      then (if ld_closed l then (Returned (Refused (Sentinel (ServiceE ErrServiceStopped))), l)
            else (Sending, bump 1 r l))
      else (Running,
            (let l = bump 1 r l in
             if ld_brownout l \<and> current < load_threshold C div 2 then l\<lparr>ld_brownout := False\<rparr> else l)))"

text \<open>\<open>select\<close> with the send and \<open>default\<close>; the array has three queues.\<close>

definition send_request :: "load_config \<Rightarrow> op_request \<Rightarrow> load \<Rightarrow> call_state \<times> load" where
  "send_request C r l =
     (if length (ld_queues l) \<le> op_priority r then (Sending, l\<lparr>ld_panic := Some ''index out of range''\<rparr>)
      else if ld_queuesClosed l then (Sending, l\<lparr>ld_panic := Some ''send on closed channel''\<rparr>)
      else if length (ld_queues l ! op_priority r) < lc_queueSize C
      then (Waiting, l\<lparr>ld_queues := (ld_queues l)[op_priority r := ld_queues l ! op_priority r @ [r]]\<rparr>)
      else (Returned (Refused service_overloaded), bump (- 1) r l))"

section \<open>One worker\<close>

definition move_worker :: "nat \<Rightarrow> worker \<Rightarrow> load \<Rightarrow> load" where
  "move_worker j w l = l\<lparr>ld_workers := (ld_workers l)[j := w]\<rparr>"

text \<open>The queues that the three \<open>select\<close> statements receive from.\<close>

definition looks_at :: "nat \<Rightarrow> nat list" where
  "looks_at level = (if level = 0 then [safety] else if level = 1 then [safety, control] else [safety, control, telemetry])"

definition take_request :: "nat \<Rightarrow> nat \<Rightarrow> load \<Rightarrow> load" where
  "take_request j p l =
     move_worker j (Holding (hd (ld_queues l ! p))) (l\<lparr>ld_queues := (ld_queues l)[p := tl (ld_queues l ! p)]\<rparr>)"

text \<open>A request is answered: its result goes to the caller's channel and the counters fall.\<close>

definition answer :: "nat \<Rightarrow> op_request \<Rightarrow> outcome \<Rightarrow> load \<Rightarrow> load" where
  "answer j r out l = move_worker j (Picking 0) (bump (- 1) r (l\<lparr>ld_results := (ld_results l)(op_call r := Some out)\<rparr>))"

definition begin_request :: "bool \<Rightarrow> bool \<Rightarrow> nat \<Rightarrow> op_request \<Rightarrow> load \<Rightarrow> load" where
  "begin_request expired opened j r l =
     (if expired then answer j r Expired l
      else if op_session r \<noteq> None \<and> opened then answer j r (Refused (Sentinel (ConnE ErrCircuitBreakerOpen))) l
      else move_worker j (Executing r) l)"

section \<open>Health and the steps\<close>

definition checkGlobalHealth :: "load_config \<Rightarrow> load \<Rightarrow> load" where
  "checkGlobalHealth C l =
     (if load_threshold C \<le> ld_global l \<and> \<not> ld_brownout l then l\<lparr>ld_brownout := True\<rparr>
      else if ld_global l < load_threshold C div 2 \<and> ld_brownout l then l\<lparr>ld_brownout := False\<rparr>
      else l)"

definition GetGlobalLoad :: "load_config \<Rightarrow> load \<Rightarrow> int \<times> int \<times> bool" where
  "GetGlobalLoad C l = (ld_global l, lc_max C, ld_brownout l)"

definition call_at :: "load \<Rightarrow> nat \<Rightarrow> op_request \<Rightarrow> call_state \<Rightarrow> bool" where
  "call_at l i r c \<longleftrightarrow> i < length (ld_calls l) \<and> ld_calls l ! i = (r, c)"

definition worker_at :: "load \<Rightarrow> nat \<Rightarrow> worker \<Rightarrow> bool" where
  "worker_at l j w \<longleftrightarrow> j < length (ld_workers l) \<and> ld_workers l ! j = w"

text \<open>A step of a running process; after a panic there is none.\<close>

inductive load_step :: "load_config \<Rightarrow> load \<Rightarrow> load \<Rightarrow> bool" for C :: load_config where
  arrives: "ld_panic l = None \<Longrightarrow>
    load_step C l (l\<lparr>ld_calls := ld_calls l @ [(\<lparr>op_priority = p, op_session = s, op_call = length (ld_calls l)\<rparr>, Arrived)]\<rparr>)"
| checks: "ld_panic l = None \<Longrightarrow> call_at l i r Arrived \<Longrightarrow> check_load C expired opened r l = (c, l') \<Longrightarrow>
    load_step C l (move_call i c l')"
| counts: "ld_panic l = None \<Longrightarrow> call_at l i r (Admitted current) \<Longrightarrow> count_call C current r l = (c, l') \<Longrightarrow>
    load_step C l (move_call i c l')"
| sends: "ld_panic l = None \<Longrightarrow> call_at l i r Sending \<Longrightarrow> send_request C r l = (c, l') \<Longrightarrow>
    load_step C l (move_call i c l')"
| hears: "ld_panic l = None \<Longrightarrow> call_at l i r Waiting \<Longrightarrow> ld_results l i = Some out \<Longrightarrow>
    load_step C l (move_call i (Returned out) l)"
| gives_up: "ld_panic l = None \<Longrightarrow> call_at l i r Waiting \<Longrightarrow> load_step C l (move_call i (Returned Expired) l)"
| runs: "ld_panic l = None \<Longrightarrow> call_at l i r Running \<Longrightarrow>
    load_step C l (move_call i (Returned (Ran err)) (bump (- 1) r l))"
| picks: "ld_panic l = None \<Longrightarrow> worker_at l j (Picking level) \<Longrightarrow> p \<in> set (looks_at level) \<Longrightarrow> ld_queues l ! p \<noteq> [] \<Longrightarrow>
    load_step C l (take_request j p l)"
| looks_further: "ld_panic l = None \<Longrightarrow> worker_at l j (Picking level) \<Longrightarrow> level < 2 \<Longrightarrow> \<not> ld_closed l \<Longrightarrow>
    list_all (\<lambda>p. ld_queues l ! p = []) (looks_at level) \<Longrightarrow> load_step C l (move_worker j (Picking (Suc level)) l)"
| leaves: "ld_panic l = None \<Longrightarrow> worker_at l j (Picking level) \<Longrightarrow> ld_closed l \<Longrightarrow> load_step C l (move_worker j WorkerDone l)"
| begins: "ld_panic l = None \<Longrightarrow> worker_at l j (Holding r) \<Longrightarrow> load_step C l (begin_request expired opened j r l)"
| executes: "ld_panic l = None \<Longrightarrow> worker_at l j (Executing r) \<Longrightarrow> load_step C l (answer j r (Ran err) l)"
| watches: "ld_panic l = None \<Longrightarrow> load_step C l (checkGlobalHealth C l)"
| closes: "ld_panic l = None \<Longrightarrow> load_step C l (l\<lparr>ld_closed := True\<rparr>)"
| closes_queues: "ld_panic l = None \<Longrightarrow> ld_closed l \<Longrightarrow> list_all (\<lambda>w. w = WorkerDone) (ld_workers l) \<Longrightarrow>
    load_step C l (l\<lparr>ld_queuesClosed := True\<rparr>)"

inductive load_reachable :: "load_config \<Rightarrow> nat \<Rightarrow> load \<Rightarrow> bool" for C :: load_config and n :: nat where
  initial: "load_reachable C n (new_load n)"
| step: "load_reachable C n l \<Longrightarrow> load_step C l l' \<Longrightarrow> load_reachable C n l'"

section \<open>The requests in flight\<close>

text \<open>A request is carried by the call that counted it, by a queue, or by a worker.\<close>

definition call_carries :: "op_request \<times> call_state \<Rightarrow> op_request multiset" where
  "call_carries = (\<lambda>(r, c). if c = Sending \<or> c = Running then {#r#} else {#})"

fun worker_carries :: "worker \<Rightarrow> op_request multiset" where
  "worker_carries (Holding r) = {#r#}"
| "worker_carries (Executing r) = {#r#}"
| "worker_carries (Picking level) = {#}"
| "worker_carries WorkerDone = {#}"

definition pending :: "load \<Rightarrow> op_request multiset" where
  "pending l = (\<Sum>q\<leftarrow>ld_queues l. mset q) + (\<Sum>w\<leftarrow>ld_workers l. worker_carries w)"

definition in_flight :: "load \<Rightarrow> op_request multiset" where
  "in_flight l = (\<Sum>c\<leftarrow>ld_calls l. call_carries c) + pending l"

text \<open>The counter of the pool (\<open>None\<close>) or of a session, and the requests it should count.\<close>

definition counter :: "string option \<Rightarrow> load \<Rightarrow> int" where
  "counter k l = (case k of None \<Rightarrow> ld_global l | Some s \<Rightarrow> ld_inFlight l s)"

definition counted_by :: "string option \<Rightarrow> op_request \<Rightarrow> bool" where
  "counted_by k r \<longleftrightarrow> k = None \<or> op_session r = k"

definition balanced :: "load \<Rightarrow> bool" where
  "balanced l \<longleftrightarrow> (\<forall>k. counter k l = int (size (filter_mset (counted_by k) (in_flight l))))"

lemma sum_update:
  fixes f :: "'a \<Rightarrow> 'b :: cancel_comm_monoid_add"
  shows "i < length xs \<Longrightarrow> (\<Sum>x\<leftarrow>xs[i := v]. f x) + f (xs ! i) = (\<Sum>x\<leftarrow>xs. f x) + f v"
proof (induction xs arbitrary: i)
  case (Cons a xs)
  then show ?case by (cases i) (simp_all add: ac_simps)
qed simp

lemma counter_bump: "counter k (bump d r l) = counter k l + (if counted_by k r then d else 0)"
  by (auto simp: counter_def counted_by_def bump_def split: option.splits)

lemma bump_fields [simp]:
  "ld_calls (bump d r l) = ld_calls l" "ld_queues (bump d r l) = ld_queues l" "ld_workers (bump d r l) = ld_workers l"
  "ld_panic (bump d r l) = ld_panic l" "ld_results (bump d r l) = ld_results l" "ld_closed (bump d r l) = ld_closed l"
  "ld_queuesClosed (bump d r l) = ld_queuesClosed l"
  by (simp_all add: bump_def)

text \<open>One more request in flight for one more count, one fewer for one less.\<close>

lemma balanced_same:
  "balanced l \<Longrightarrow> in_flight l' = in_flight l \<Longrightarrow> (\<And>k. counter k l' = counter k l) \<Longrightarrow> balanced l'"
  by (simp add: balanced_def)

lemma balanced_more:
  "balanced l \<Longrightarrow> in_flight l' = add_mset r (in_flight l) \<Longrightarrow>
   (\<And>k. counter k l' = counter k l + (if counted_by k r then 1 else 0)) \<Longrightarrow> balanced l'"
  by (simp add: balanced_def)

lemma balanced_fewer:
  "balanced l \<Longrightarrow> add_mset r (in_flight l') = in_flight l \<Longrightarrow>
   (\<And>k. counter k l' = counter k l + (if counted_by k r then - 1 else 0)) \<Longrightarrow> balanced l'"
  by (auto simp: balanced_def dest!: sym[of "add_mset r (in_flight l')"])

lemma call_moves:
  "call_at l i r c \<Longrightarrow> ld_calls l' = ld_calls l \<Longrightarrow>
   (\<Sum>x\<leftarrow>ld_calls (move_call i c' l'). call_carries x) + call_carries (r, c) =
   (\<Sum>x\<leftarrow>ld_calls l. call_carries x) + call_carries (r, c')"
  using sum_update[of i "ld_calls l" call_carries "(r, c')"] by (auto simp: call_at_def move_call_def)

lemma worker_moves:
  "worker_at l j w \<Longrightarrow> ld_workers l' = ld_workers l \<Longrightarrow>
   (\<Sum>x\<leftarrow>ld_workers (move_worker j w' l'). worker_carries x) + worker_carries w =
   (\<Sum>x\<leftarrow>ld_workers l. worker_carries x) + worker_carries w'"
  using sum_update[of j "ld_workers l" worker_carries w'] by (auto simp: worker_at_def move_worker_def)

lemma moves_keep [simp]:
  "counter k (move_call i c l) = counter k l" "pending (move_call i c l) = pending l"
  "counter k (move_worker j w l) = counter k l"
  "ld_queues (move_call i c l) = ld_queues l" "ld_queues (move_worker j w l) = ld_queues l"
  "ld_calls (move_worker j w l) = ld_calls l" "ld_workers (move_call i c l) = ld_workers l"
  "pending (l\<lparr>ld_calls := cs\<rparr>) = pending l" "counter k (l\<lparr>ld_calls := cs\<rparr>) = counter k l"
  "pending (l\<lparr>ld_panic := e\<rparr>) = pending l" "counter k (l\<lparr>ld_panic := e\<rparr>) = counter k l"
  "in_flight (l\<lparr>ld_closed := b\<rparr>) = in_flight l" "counter k (l\<lparr>ld_closed := b\<rparr>) = counter k l"
  "in_flight (l\<lparr>ld_brownout := b\<rparr>) = in_flight l" "counter k (l\<lparr>ld_brownout := b\<rparr>) = counter k l"
  "in_flight (l\<lparr>ld_queuesClosed := b\<rparr>) = in_flight l" "counter k (l\<lparr>ld_queuesClosed := b\<rparr>) = counter k l"
  "counter k (l\<lparr>ld_queues := qs\<rparr>) = counter k l" "counter k (l\<lparr>ld_results := rs\<rparr>) = counter k l"
  "pending (l\<lparr>ld_results := rs\<rparr>) = pending l" "in_flight (l\<lparr>ld_results := rs\<rparr>) = in_flight l"
  "ld_results (move_call i c l) = ld_results l" "ld_results (move_worker j w l) = ld_results l"
  by (simp_all add: counter_def in_flight_def pending_def move_call_def move_worker_def split: option.splits)

lemma pending_bump [simp]: "pending (bump d r l) = pending l"
  by (simp add: pending_def)

lemma call_step:
  assumes "call_at l i r c" "ld_calls l' = ld_calls l"
  shows "in_flight (move_call i c' l') + call_carries (r, c) + pending l =
         in_flight l + call_carries (r, c') + pending l'"
  using call_moves[OF assms, of c'] by (simp add: in_flight_def ac_simps)

lemma worker_step:
  assumes "worker_at l j w" "ld_workers l' = ld_workers l"
  shows "pending (move_worker j w' l') + worker_carries w + (\<Sum>q\<leftarrow>ld_queues l. mset q) =
         pending l + worker_carries w' + (\<Sum>q\<leftarrow>ld_queues l'. mset q)"
  using worker_moves[OF assms, of w'] by (simp add: pending_def ac_simps)

lemma queue_step:
  assumes "p < length (ld_queues l)" "ld_queues l' = (ld_queues l)[p := q]" "ld_workers l' = ld_workers l"
  shows "pending l' + mset (ld_queues l ! p) = pending l + mset q"
  using sum_update[OF assms(1), of mset q] assms(2,3) by (simp add: pending_def ac_simps)

definition three_queues :: "load \<Rightarrow> bool" where
  "three_queues l \<longleftrightarrow> length (ld_queues l) = 3"

lemma looks_at_queues: "p \<in> set (looks_at level) \<Longrightarrow> p < 3"
  by (auto simp: looks_at_def safety_def control_def telemetry_def split: if_splits)

lemma load_step_queues: "load_step C l l' \<Longrightarrow> three_queues l \<Longrightarrow> three_queues l'"
  by (induction rule: load_step.induct)
    (auto simp: three_queues_def check_load_def count_call_def send_request_def take_request_def answer_def
      begin_request_def checkGlobalHealth_def Let_def split: if_splits)

lemma check_load_keeps:
  assumes "check_load C expired opened r l = (c, l')"
  shows "ld_calls l' = ld_calls l" "pending l' = pending l" "counter k l' = counter k l" "call_carries (r, c) = {#}"
  using assms by (auto simp: check_load_def pending_def counter_def call_carries_def split: if_splits option.splits)

lemma count_call_counts:
  assumes "count_call C current r l = (c, l')"
  shows "ld_calls l' = ld_calls l" "pending l' = pending l"
    "counter k l' = counter k l + (if call_carries (r, c) \<noteq> {#} \<and> counted_by k r then 1 else 0)"
  using assms
  by (auto simp: count_call_def call_carries_def counter_bump Let_def pending_def split: if_splits)

lemma count_call_state:
  "count_call C current r l = (c, l') \<Longrightarrow> c = Returned (Refused (Sentinel (ServiceE ErrServiceStopped))) \<or> c = Sending \<or> c = Running"
  by (auto simp: count_call_def Let_def split: if_splits)

lemma send_request_sends:
  assumes "send_request C r l = (c, l')" "three_queues l"
  shows "ld_calls l' = ld_calls l"
    "c = Sending \<and> pending l' = pending l \<and> (\<forall>k. counter k l' = counter k l)
     \<or> c = Waiting \<and> pending l' = add_mset r (pending l) \<and> (\<forall>k. counter k l' = counter k l)
     \<or> c = Returned (Refused service_overloaded) \<and> pending l' = pending l \<and>
       (\<forall>k. counter k l' = counter k l + (if counted_by k r then - 1 else 0))"
proof -
  have q: "op_priority r < length (ld_queues l) \<Longrightarrow>
    pending (l\<lparr>ld_queues := (ld_queues l)[op_priority r := ld_queues l ! op_priority r @ [r]]\<rparr>) = add_mset r (pending l)"
    using queue_step[of "op_priority r" l _ "ld_queues l ! op_priority r @ [r]"] by simp
  show "ld_calls l' = ld_calls l" using assms by (auto simp: send_request_def split: if_splits)
  show "c = Sending \<and> pending l' = pending l \<and> (\<forall>k. counter k l' = counter k l)
     \<or> c = Waiting \<and> pending l' = add_mset r (pending l) \<and> (\<forall>k. counter k l' = counter k l)
     \<or> c = Returned (Refused service_overloaded) \<and> pending l' = pending l \<and>
       (\<forall>k. counter k l' = counter k l + (if counted_by k r then - 1 else 0))"
    using assms q
    by (auto simp: send_request_def counter_bump split: if_splits)
qed

lemma take_request_keeps:
  assumes "worker_at l j (Picking level)" "p < length (ld_queues l)" "ld_queues l ! p \<noteq> []"
  shows "pending (take_request j p l) = pending l" "ld_calls (take_request j p l) = ld_calls l"
    "counter k (take_request j p l) = counter k l"
proof -
  let ?l = "l\<lparr>ld_queues := (ld_queues l)[p := tl (ld_queues l ! p)]\<rparr>"
  have *: "pending (take_request j p l) + (\<Sum>q\<leftarrow>ld_queues l. mset q) =
      pending l + {#hd (ld_queues l ! p)#} + (\<Sum>q\<leftarrow>ld_queues ?l. mset q)"
    using worker_step[OF assms(1), of ?l "Holding (hd (ld_queues l ! p))"] by (simp add: take_request_def)
  obtain r q where rq: "ld_queues l ! p = r # q" using assms(3) by (cases "ld_queues l ! p") auto
  have "(\<Sum>q\<leftarrow>ld_queues ?l. mset q) + mset (ld_queues l ! p) = (\<Sum>q\<leftarrow>ld_queues l. mset q) + mset q"
    using sum_update[OF assms(2), of mset q] rq by simp
  then have "(\<Sum>q\<leftarrow>ld_queues l. mset q) = add_mset r (\<Sum>q\<leftarrow>ld_queues ?l. mset q)" using rq by simp
  with * rq show "pending (take_request j p l) = pending l" by simp
  show "ld_calls (take_request j p l) = ld_calls l" "counter k (take_request j p l) = counter k l"
    by (simp_all add: take_request_def)
qed

lemma answer_keeps:
  assumes "worker_at l j w" "worker_carries w = {#r#}"
  shows "add_mset r (pending (answer j r out l)) = pending l" "ld_calls (answer j r out l) = ld_calls l"
    "counter k (answer j r out l) = counter k l + (if counted_by k r then - 1 else 0)"
  using worker_step[OF assms(1), of "bump (- 1) r (l\<lparr>ld_results := (ld_results l)(op_call r := Some out)\<rparr>)" "Picking 0"]
    assms(2)
  by (simp_all add: answer_def counter_bump)

lemma arrival_carries [simp]: "call_carries (r, Arrived) = {#}"
  by (simp add: call_carries_def)

lemma begin_request_balanced:
  assumes "worker_at l j (Holding r)" "balanced l"
  shows "balanced (begin_request expired opened j r l)"
proof -
  have "balanced (answer j r out l)" for out
    using answer_keeps[where r = r and out = out, OF assms(1)] assms(2) by - (rule balanced_fewer[of l r], auto simp: in_flight_def)
  moreover have "balanced (move_worker j (Executing r) l)"
    using worker_step[OF assms(1), of l "Executing r"] assms(2) by - (rule balanced_same[of l], auto simp: in_flight_def)
  ultimately show ?thesis by (simp add: begin_request_def)
qed

lemma load_step_balanced: "load_step C l l' \<Longrightarrow> three_queues l \<Longrightarrow> balanced l \<Longrightarrow> balanced l'"
proof (induction rule: load_step.induct)
  case (arrives l p s)
  then show ?case
    by - (rule balanced_same[of l], simp_all add: in_flight_def)
next
  case (checks l i r expired opened c l')
  then show ?case
    using check_load_keeps[OF checks(3)] call_step[OF checks(2), of l' c]
    by - (rule balanced_same[of l], auto)
next
  case (counts l i r current c l')
  note keep = count_call_counts[OF counts(3)] and moved = call_step[OF counts(2), of l' c]
  from count_call_state[OF counts(3)] show ?case
  proof (elim disjE)
    assume "c = Returned (Refused (Sentinel (ServiceE ErrServiceStopped)))"
    then show ?thesis using keep moved counts(5) by - (rule balanced_same[of l], auto simp: call_carries_def)
  qed (use keep moved counts(5) in \<open>auto simp: call_carries_def intro: balanced_more[of l _ r]\<close>)
next
  case (sends l i r c l')
  note send = send_request_sends[OF sends(3,4)] and moved = call_step[OF sends(2), of l' c]
  from send(2) show ?case
  proof (elim disjE conjE)
    assume c: "c = Sending" and "pending l' = pending l" "\<forall>k. counter k l' = counter k l"
    then show ?thesis using moved send(1) sends by - (rule balanced_same[of l], auto simp: call_carries_def)
  next
    assume c: "c = Waiting" and "pending l' = add_mset r (pending l)" "\<forall>k. counter k l' = counter k l"
    then show ?thesis using moved send(1) sends by - (rule balanced_same[of l], auto simp: call_carries_def)
  next
    assume c: "c = Returned (Refused service_overloaded)" and "pending l' = pending l"
      "\<forall>k. counter k l' = counter k l + (if counted_by k r then - 1 else 0)"
    then show ?thesis using moved send(1) sends by - (rule balanced_fewer[of l r], auto simp: call_carries_def)
  qed
next
  case (hears l i r out)
  then show ?case
    using call_step[OF hears(2), of l "Returned out"] by - (rule balanced_same[of l], auto simp: call_carries_def)
next
  case (gives_up l i r)
  then show ?case
    using call_step[OF gives_up(2), of l "Returned Expired"] by - (rule balanced_same[of l], auto simp: call_carries_def)
next
  case (runs l i r err)
  then show ?case
    using call_step[OF runs(2), of "bump (- 1) r l" "Returned (Ran err)"]
    by - (rule balanced_fewer[of l r], auto simp: call_carries_def counter_bump)
next
  case (picks l j level p)
  then show ?case
    using take_request_keeps[OF picks(2) _ picks(4)] looks_at_queues[OF picks(3)]
    by - (rule balanced_same[of l], auto simp: in_flight_def three_queues_def)
next
  case (looks_further l j level)
  then show ?case
    using worker_step[OF looks_further(2), of l "Picking (Suc level)"]
    by - (rule balanced_same[of l], auto simp: in_flight_def)
next
  case (leaves l j level)
  then show ?case
    using worker_step[OF leaves(2), of l WorkerDone] by - (rule balanced_same[of l], auto simp: in_flight_def)
next
  case (begins l j r expired opened)
  then show ?case using begin_request_balanced by blast
next
  case (executes l j r err)
  then show ?case
    using answer_keeps[where r = r and out = "Ran err", OF executes(2)] by - (rule balanced_fewer[of l r], auto simp: in_flight_def)
next
  case (watches l)
  then show ?case
    by - (rule balanced_same[of l], simp_all add: checkGlobalHealth_def)
next
  case (closes l)
  then show ?case
    by - (rule balanced_same[of l], simp_all)
next
  case (closes_queues l)
  then show ?case
    by - (rule balanced_same[of l], simp_all)
qed

section \<open>Every request is answered once\<close>

text \<open>
  How often the request of a call in state \<open>c\<close> is queued or at a worker (\<open>n\<close>), given whether it was answered:
  once from its sending to its answer, which a call that gave up does not await.
\<close>

fun due :: "call_state \<Rightarrow> outcome option \<Rightarrow> nat \<Rightarrow> bool" where
  "due Waiting res n \<longleftrightarrow> n = (if res = None then 1 else 0)"
| "due (Returned Expired) res n \<longleftrightarrow> n = 0 \<or> n = 1 \<and> res = None"
| "due (Returned out) res n \<longleftrightarrow> n = 0"
| "due c res n \<longleftrightarrow> n = 0 \<and> res = None"

lemma due_returned [simp]: "due (Returned out) res 0"
  by (cases out) simp_all

definition orderly :: "load \<Rightarrow> bool" where
  "orderly l \<longleftrightarrow>
     (\<forall>i<length (ld_calls l). op_call (fst (ld_calls l ! i)) = i \<and>
        due (snd (ld_calls l ! i)) (ld_results l i) (count (pending l) (fst (ld_calls l ! i)))) \<and>
     (\<forall>r\<in>#pending l. op_call r < length (ld_calls l) \<and> fst (ld_calls l ! op_call r) = r) \<and>
     (\<forall>i\<ge>length (ld_calls l). ld_results l i = None)"

lemma orderly_call: "orderly l \<Longrightarrow> call_at l i r c \<Longrightarrow> op_call r = i \<and> due c (ld_results l i) (count (pending l) r)"
  by (auto simp: orderly_def call_at_def)

text \<open>One call moves, and nothing changes about the requests of the others.\<close>

lemma orderly_moves:
  assumes "orderly l" "call_at l i r c" "ld_calls l' = (ld_calls l)[i := (r, c')]"
    and others: "\<And>r'. r' \<noteq> r \<Longrightarrow> count (pending l') r' = count (pending l) r'"
    and results: "\<And>i'. i' \<noteq> i \<Longrightarrow> ld_results l' i' = ld_results l i'"
    and moved: "due c' (ld_results l' i) (count (pending l') r)"
  shows "orderly l'"
proof -
  have i: "i < length (ld_calls l)" "ld_calls l ! i = (r, c)" "op_call r = i"
    using assms(1,2) by (auto simp: call_at_def orderly_def)
  have "op_call r' < length (ld_calls l) \<and> fst (ld_calls l' ! op_call r') = r'" if "r' \<in># pending l'" for r'
  proof (cases "r' = r")
    case False
    then have "r' \<in># pending l" using that others by (metis count_greater_zero_iff)
    then show ?thesis using assms(1,3) i by (auto simp: orderly_def nth_list_update)
  qed (use i assms(3) in simp)
  moreover have "op_call (fst (ld_calls l' ! j)) = j \<and>
      due (snd (ld_calls l' ! j)) (ld_results l' j) (count (pending l') (fst (ld_calls l' ! j)))"
    if "j < length (ld_calls l)" for j
  proof (cases "j = i")
    case False
    then have "fst (ld_calls l ! j) \<noteq> r" using assms(1) i that by (auto simp: orderly_def)
    then show ?thesis using assms(1,3) False that others results by (auto simp: orderly_def)
  qed (use i assms(3) moved in simp)
  ultimately show ?thesis using assms(1,3) i results by (auto simp: orderly_def)
qed

lemma orderly_same:
  "orderly l \<Longrightarrow> ld_calls l' = ld_calls l \<Longrightarrow> pending l' = pending l \<Longrightarrow> ld_results l' = ld_results l \<Longrightarrow> orderly l'"
  by (simp add: orderly_def)

lemma orderly_answer:
  assumes "orderly l" "worker_at l j w" "worker_carries w = {#r#}"
  shows "orderly (answer j r out l)"
proof -
  note kept = answer_keeps[where r = r and out = out, OF assms(2,3)]
  have r: "r \<in># pending l" using kept(1) by (metis union_single_eq_member)
  then have i: "op_call r < length (ld_calls l)" "fst (ld_calls l ! op_call r) = r"
    using assms(1) by (auto simp: orderly_def)
  let ?c = "snd (ld_calls l ! op_call r)"
  have at: "call_at l (op_call r) r ?c" using i by (simp add: call_at_def prod_eq_iff)
  have "0 < count (pending l) r" using r by simp
  with orderly_call[OF assms(1) at] have c: "count (pending l) r = 1" "?c = Waiting \<or> ?c = Returned Expired"
    by (cases "(?c, ld_results l (op_call r), count (pending l) r)" rule: due.cases; auto split: if_splits)+
  have counts: "count (pending l) r' = (if r' = r then 1 else 0) + count (pending (answer j r out l)) r'" for r'
    by (subst kept(1)[symmetric]) simp
  have res: "ld_results (answer j r out l) = (ld_results l)(op_call r := Some out)" by (simp add: answer_def)
  show ?thesis
  proof (rule orderly_moves[OF assms(1) at])
    show "ld_calls (answer j r out l) = (ld_calls l)[op_call r := (r, ?c)]"
      using kept(2) i by (metis list_update_id prod.collapse)
    show "due ?c (ld_results (answer j r out l) (op_call r)) (count (pending (answer j r out l)) r)"
      using c counts[of r] res by auto
  qed (use counts res in auto)
qed

lemma move_call_calls: "ld_calls (move_call i c l) = (ld_calls l)[i := (fst (ld_calls l ! i), c)]"
  by (simp add: move_call_def)

lemma orderly_step: "load_step C l l' \<Longrightarrow> three_queues l \<Longrightarrow> orderly l \<Longrightarrow> orderly l'"
proof (induction rule: load_step.induct)
  case (arrives l p s)
  have "count (pending l) \<lparr>op_priority = p, op_session = s, op_call = length (ld_calls l)\<rparr> = 0"
    using arrives(3) by (auto simp: orderly_def count_eq_zero_iff)
  then show ?case using arrives(3) by (auto simp: orderly_def nth_append less_Suc_eq)
next
  case (checks l i r expired opened c l')
  have "ld_results l' = ld_results l" "\<exists>n. c = Admitted n \<or> c = Returned Expired \<or> (\<exists>e. c = Returned (Refused e))"
    using checks(3) by (auto simp: check_load_def split: if_splits)
  then show ?case
    using check_load_keeps[OF checks(3)] checks(2) orderly_call[OF checks(5,2)]
    by - (rule orderly_moves[OF checks(5,2), where c' = c], auto simp: call_at_def move_call_calls)
next
  case (counts l i r current c l')
  have "ld_results l' = ld_results l" using counts(3) by (auto simp: count_call_def Let_def split: if_splits)
  then show ?case
    using count_call_counts[OF counts(3)] counts(2) orderly_call[OF counts(5,2)] count_call_state[OF counts(3)]
    by - (rule orderly_moves[OF counts(5,2), where c' = c], auto simp: call_at_def move_call_calls)
next
  case (sends l i r c l')
  have "ld_results l' = ld_results l" using sends(3) by (auto simp: send_request_def split: if_splits)
  then show ?case
    using send_request_sends[OF sends(3,4)] sends(2) orderly_call[OF sends(5,2)]
    by - (rule orderly_moves[OF sends(5,2), where c' = c], auto simp: call_at_def move_call_calls)
next
  case (hears l i r out)
  then show ?case
    using orderly_call[OF hears(5,2)]
    by - (rule orderly_moves[OF hears(5,2), where c' = "Returned out"],
      cases out, auto simp: call_at_def move_call_calls)
next
  case (gives_up l i r)
  then show ?case
    using orderly_call[OF gives_up(4,2)]
    by - (rule orderly_moves[OF gives_up(4,2), where c' = "Returned Expired"],
      auto simp: call_at_def move_call_calls split: if_splits)
next
  case (runs l i r err)
  then show ?case
    using orderly_call[OF runs(4,2)]
    by - (rule orderly_moves[OF runs(4,2), where c' = "Returned (Ran err)"],
      auto simp: call_at_def move_call_calls)
next
  case (picks l j level p)
  then show ?case
    using take_request_keeps[OF picks(2) _ picks(4)] looks_at_queues[OF picks(3)]
    by - (rule orderly_same[OF picks(6)], auto simp: three_queues_def take_request_def)
next
  case (begins l j r expired opened)
  have "pending (move_worker j (Executing r) l) = pending l"
    using worker_step[OF begins(2), of l "Executing r"] by simp
  then show ?case
    using orderly_answer[OF begins(4,2)] orderly_same[OF begins(4), of "move_worker j (Executing r) l"]
    by (simp add: begin_request_def)
next
  case (executes l j r err)
  then show ?case by (intro orderly_answer[OF _ executes(2)]) auto
next
  case (looks_further l j level)
  then show ?case
    using worker_step[OF looks_further(2), of l "Picking (Suc level)"] by (simp add: orderly_same)
next
  case (leaves l j level)
  then show ?case using worker_step[OF leaves(2), of l WorkerDone] by (simp add: orderly_same)
next
  case (watches l)
  then show ?case by (auto simp: checkGlobalHealth_def pending_def intro: orderly_same)
qed (auto simp: pending_def intro: orderly_same)

section \<open>What load shaping keeps\<close>

lemma new_load_fine: "three_queues (new_load n)" "balanced (new_load n)" "orderly (new_load n)"
proof -
  have "(\<Sum>w\<leftarrow>replicate n (Picking 0). worker_carries w) = {#}" by (induction n) auto
  then have "in_flight (new_load n) = {#}" by (simp add: in_flight_def pending_def new_load_def)
  then show "balanced (new_load n)" by (simp add: balanced_def new_load_def counter_def split: option.splits)
  show "three_queues (new_load n)" "orderly (new_load n)"
    using \<open>in_flight (new_load n) = {#}\<close>
    by (auto simp: three_queues_def orderly_def in_flight_def) (simp_all add: new_load_def)
qed

lemma reachable_load_fine: "load_reachable C n l \<Longrightarrow> three_queues l \<and> balanced l \<and> orderly l"
  by (induction rule: load_reachable.induct)
    (auto simp: new_load_fine dest: load_step_queues load_step_balanced orderly_step)

text \<open>C32. The counters of the pool and of every session are the numbers of requests in flight, in every
  interleaving of callers, workers, health checks and closing, so refused, expired and abandoned requests do
  not leave a count behind. A call that waits has its request in exactly one queue or worker until it is
  answered, and nowhere after that.\<close>

theorem load_is_accounted:
  assumes "load_reachable C n l"
  shows "ld_global l = int (size (in_flight l)) \<and>
    ld_inFlight l s = int (size {#r \<in># in_flight l. op_session r = Some s#}) \<and>
    (call_at l i r Waiting \<longrightarrow> count (pending l) r = (if ld_results l i = None then 1 else 0))"
proof (intro conjI impI)
  have l: "balanced l" "orderly l" using reachable_load_fine[OF assms] by auto
  have "counter None l = int (size {#r \<in># in_flight l. counted_by None r#})"
    "counter (Some s) l = int (size {#r \<in># in_flight l. counted_by (Some s) r#})"
    using l(1) by (simp_all only: balanced_def)
  then show "ld_global l = int (size (in_flight l))"
    "ld_inFlight l s = int (size {#r \<in># in_flight l. op_session r = Some s#})"
    by (simp_all add: counter_def counted_by_def)
  show "count (pending l) r = (if ld_results l i = None then 1 else 0)" if "call_at l i r Waiting"
    using orderly_call[OF l(2) that] by simp
qed

text \<open>A pool without room runs nothing at once: the first control operation is queued.\<close>

definition full_config :: load_config where
  "full_config = \<lparr>lc_max = 0, lc_fraction = 0, lc_queueSize = 1, lc_perEndpoint = 0\<rparr>"

definition control_request :: "nat \<Rightarrow> op_request" where
  "control_request i = \<lparr>op_priority = control, op_session = None, op_call = i\<rparr>"

lemma control_is_admitted:
  "check_load C False False (control_request i) l = (Admitted (ld_global l), l)"
  by (simp add: check_load_def control_request_def control_def telemetry_def)

lemma control_arrives:
  assumes "load_reachable C n l" "ld_panic l = None"
  shows "load_reachable C n (l\<lparr>ld_calls := ld_calls l @ [(control_request (length (ld_calls l)), Admitted (ld_global l))]\<rparr>)"
proof -
  let ?r = "control_request (length (ld_calls l))"
  let ?l = "l\<lparr>ld_calls := ld_calls l @ [(?r, Arrived)]\<rparr>"
  have "load_reachable C n ?l"
    unfolding control_request_def by (rule load_reachable.step[OF assms(1) load_step.arrives[OF assms(2)]])
  moreover have "load_step C ?l (move_call (length (ld_calls l)) (Admitted (ld_global ?l)) ?l)"
    by (rule load_step.checks[OF _ _ control_is_admitted]) (use assms(2) in \<open>simp_all add: call_at_def\<close>)
  ultimately show ?thesis by (auto simp: move_call_def dest: load_reachable.step)
qed

lemma load_is_accounted_witness:
  "\<exists>l. load_reachable full_config 1 l \<and> call_at l 0 (control_request 0) Waiting \<and> ld_global l = 1 \<and>
       ld_global l = int (size (in_flight l)) \<and> count (pending l) (control_request 0) = 1"
proof -
  let ?r = "control_request 0"
  let ?l = "(new_load 1)\<lparr>ld_calls := [(?r, Admitted 0)]\<rparr>"
  have "load_reachable full_config 1 ?l"
    using control_arrives[OF load_reachable.initial[of full_config 1]] by (simp add: new_load_def)
  moreover have "load_step full_config ?l (move_call 0 Sending (bump 1 ?r ?l))"
    by (rule load_step.counts[where r = ?r and current = 0])
      (simp_all add: call_at_def count_call_def full_config_def new_load_def)
  ultimately have "load_reachable full_config 1 (move_call 0 Sending (bump 1 ?r ?l))"
    by (rule load_reachable.step)
  moreover let ?q = "move_call 0 Sending (bump 1 ?r ?l)"
  let ?w = "move_call 0 Waiting (?q\<lparr>ld_queues := [[], [?r], []]\<rparr>)"
  have "load_step full_config ?q ?w"
    by (rule load_step.sends[where r = ?r])
      (simp_all add: call_at_def send_request_def full_config_def new_load_def move_call_def bump_def control_request_def
        control_def)
  ultimately have w: "load_reachable full_config 1 ?w" by (rule load_reachable.step)
  have at: "call_at ?w 0 ?r Waiting" "ld_global ?w = 1" "ld_results ?w 0 = None"
    by (simp_all add: call_at_def new_load_def move_call_def bump_def)
  show ?thesis using load_is_accounted[OF w, of "[]" 0 ?r] w at by auto
qed

section \<open>The limit does not limit\<close>

text \<open>Calls that have read the counter and not yet changed it.\<close>

lemma many_are_admitted:
  "\<exists>l. load_reachable C n l \<and> ld_panic l = None \<and> ld_global l = 0 \<and> \<not> ld_brownout l \<and>
       ld_calls l = map (\<lambda>i. (control_request i, Admitted 0)) [0..<k]"
proof (induction k)
  case 0
  then show ?case by (rule exI[of _ "new_load n"]) (simp add: load_reachable.initial, simp add: new_load_def)
next
  case (Suc k)
  then obtain l where l: "load_reachable C n l" "ld_panic l = None" "ld_global l = 0" "\<not> ld_brownout l"
    "ld_calls l = map (\<lambda>i. (control_request i, Admitted 0)) [0..<k]" by blast
  show ?case using control_arrives[OF l(1,2)] l by fastforce
qed

lemma counted_calls_run:
  assumes "0 < lc_max C" "load_reachable C n l" "ld_panic l = None" "\<not> ld_brownout l"
    "\<forall>i<length (ld_calls l). j \<le> i \<longrightarrow> call_at l i (control_request i) (Admitted 0)"
    "\<forall>i<j. call_at l i (control_request i) Running" "ld_global l = int j" "j \<le> length (ld_calls l)"
  shows "\<exists>l'. load_reachable C n l' \<and> length (ld_calls l') = length (ld_calls l) \<and>
    (\<forall>i<length (ld_calls l). call_at l' i (control_request i) Running) \<and> ld_global l' = int (length (ld_calls l))"
  using assms
proof (induction "length (ld_calls l) - j" arbitrary: j l)
  case 0
  then show ?case by (intro exI[of _ l]) auto
next
  case (Suc m)
  let ?r = "control_request j"
  let ?l = "move_call j Running (bump 1 ?r l)"
  have j: "j < length (ld_calls l)" using Suc(2) by simp
  have "count_call C 0 ?r l = (Running, bump 1 ?r l)"
    using Suc.prems(1,4) by (simp add: count_call_def bump_def)
  then have "load_step C l ?l" using Suc.prems(3,5) j by (intro load_step.counts[where r = ?r]) auto
  then have "load_reachable C n ?l" by (rule load_reachable.step[OF Suc.prems(2)])
  then show ?case
    using Suc.prems Suc(2) j
    by (intro Suc(1)[of ?l "Suc j", simplified move_call_calls bump_fields length_list_update])
      (auto simp: call_at_def move_call_calls bump_def less_Suc_eq control_request_def nth_list_update move_call_def)
qed



end
