(* ===== verification/OpcuaSecurity.thy ===== *)
theory OpcuaSecurity
  imports GoProg GoErrors GoStrings
begin

text \<open>
  The security of OPC UA connections (\<open>adapter/opcua/security.go\<close> and \<open>ClientConfig\<close> of \<open>types.go\<close>):
  loading certificates and keys, the options a client is built with, and the choice among the endpoints a
  server offers. Files, PEM and X.509 parsing are the parameter \<open>pki\<close>; the enumerations of \<open>gopcua\<close> are
  datatypes with a constructor for the values the code does not name; \<open>'k\<close> is a parsed RSA key.
\<close>

section \<open>Types\<close>

record ua_config =
  oc_EndpointURL :: string
  oc_SecurityPolicy :: string
  oc_SecurityMode :: string
  oc_AuthMode :: string
  oc_Username :: string
  oc_Password :: string
  oc_CertificateFile :: string
  oc_PrivateKeyFile :: string
  oc_ServerCertificateFile :: string
  oc_InsecureSkipVerify :: bool
  oc_AutoSelectEndpoint :: bool
  oc_ApplicationName :: string
  oc_ApplicationURI :: string
  oc_Timeout :: int
  oc_KeepAlive :: int
  oc_MaxRetries :: int
  oc_RetryDelay :: int
  oc_RequestTimeout :: int
  oc_SessionTimeout :: int
  oc_DefaultPublishingInterval :: int
  oc_DefaultSamplingInterval :: int
  oc_DefaultQueueSize :: u32

datatype security_mode = ModeNone | ModeSign | ModeSignAndEncrypt | ModeOther int

datatype security_policy = PolicyNone | PolicyBasic128Rsa15 | PolicyBasic256 | PolicyBasic256Sha256
  | PolicyAes128Sha256RsaOaep | PolicyAes256Sha256RsaPss | PolicyOther string

datatype user_token = TokenAnonymous | TokenUserName | TokenCertificate | TokenOther int

text \<open>What the code reads of an endpoint description; an empty certificate is none.\<close>

record endpoint =
  ep_URL :: string
  ep_Policy :: security_policy
  ep_Mode :: security_mode
  ep_Tokens :: "user_token list"
  ep_ServerCertificate :: bytes

datatype 'k ua_option = OptApplicationName string | OptApplicationURI string
  | OptSecurityPolicy security_policy | OptSecurityMode security_mode
  | OptCertificate bytes | OptPrivateKey 'k | OptRemoteCertificate bytes
  | OptAuthUsername string string | OptAuthCertificate bytes | OptAuthPrivateKey 'k | OptAuthAnonymous
  | OptSecurityFromEndpoint endpoint user_token
  | OptRequestTimeout int | OptSessionTimeout int

record 'k security_config =
  sk_ClientCert :: "bytes option"
  sk_ClientKey :: "'k option"
  sk_ServerCert :: "bytes option"
  sk_SecurityPolicy :: string
  sk_SecurityMode :: security_mode
  sk_AuthType :: user_token
  sk_Username :: string
  sk_Password :: string
  sk_ApplicationName :: string
  sk_ApplicationURI :: string
  sk_InsecureSkipVerify :: bool

text \<open>What the code reads of a certificate.\<close>

record x509 =
  x_Raw :: bytes
  x_Subject :: string
  x_CommonName :: string
  x_Issuer :: string
  x_SerialNumber :: string
  x_NotBefore :: int
  x_NotAfter :: int
  x_IsCA :: bool

record ('w, 'k) pki =
  pk_ReadFile :: "string \<Rightarrow> 'w \<Rightarrow> (gerror + bytes) \<times> 'w"
  pk_Clean :: "string \<Rightarrow> string"
  pk_pem :: "bytes \<Rightarrow> (string \<times> bytes) option"
  pk_ParseCertificate :: "bytes \<Rightarrow> gerror + x509"
  pk_ParsePKCS1 :: "bytes \<Rightarrow> gerror + 'k"
  pk_ParsePKCS8 :: "bytes \<Rightarrow> gerror + 'k option"
  pk_Sum256 :: "bytes \<Rightarrow> bytes"

section \<open>Certificates and keys\<close>

definition loadCertificate :: "('w, 'k) pki \<Rightarrow> string \<Rightarrow> ('c \<times> 'w, gerror + bytes) prog" where
  "loadCertificate K filename =
     bnd (call (pk_ReadFile K (pk_Clean K filename))) (\<lambda>read.
     ret (case read of
       Inl err \<Rightarrow> Inl (WrapW ''failed to read certificate file'' err)
     | Inr content \<Rightarrow>
         (case pk_pem K content of
            Some (type, block) \<Rightarrow>
              (if type = ''CERTIFICATE'' then Inr block
               else (case pk_ParseCertificate K content of
                       Inr cert \<Rightarrow> Inr content
                     | Inl err \<Rightarrow> Inl (Text ''file is not a valid PEM or DER certificate'')))
          | None \<Rightarrow>
              (case pk_ParseCertificate K content of
                 Inr cert \<Rightarrow> Inr content
               | Inl err \<Rightarrow> Inl (Text ''file is not a valid PEM or DER certificate'')))))"

definition parse_pkcs8 :: "('w, 'k) pki \<Rightarrow> bytes \<Rightarrow> gerror + 'k" where
  "parse_pkcs8 K block =
     (case pk_ParsePKCS8 K block of
        Inr (Some key) \<Rightarrow> Inr key
      | Inr None \<Rightarrow> Inl (Text ''private key is not RSA'')
      | Inl err \<Rightarrow> Inl (Text ''failed to parse private key: unsupported format''))"

definition loadPrivateKey :: "('w, 'k) pki \<Rightarrow> string \<Rightarrow> ('c \<times> 'w, gerror + 'k) prog" where
  "loadPrivateKey K filename =
     bnd (call (pk_ReadFile K (pk_Clean K filename))) (\<lambda>read.
     ret (case read of
       Inl err \<Rightarrow> Inl (WrapW ''failed to read private key file'' err)
     | Inr content \<Rightarrow>
         (case pk_pem K content of
            None \<Rightarrow> Inl (Text ''failed to decode PEM block'')
          | Some (type, block) \<Rightarrow>
              (if contains type [''RSA PRIVATE KEY'']
               then (case pk_ParsePKCS1 K block of Inr key \<Rightarrow> Inr key | Inl err \<Rightarrow> parse_pkcs8 K block)
               else parse_pkcs8 K block))))"

section \<open>Names\<close>

definition getSecurityPolicyURI :: "string \<Rightarrow> security_policy" where
  "getSecurityPolicyURI policy =
     (if policy = ''Basic128Rsa15'' then PolicyBasic128Rsa15
      else if policy = ''Basic256'' then PolicyBasic256
      else if policy = ''Basic256Sha256'' then PolicyBasic256Sha256
      else if policy = ''Aes128_Sha256_RsaOaep'' then PolicyAes128Sha256RsaOaep
      else if policy = ''Aes256_Sha256_RsaPss'' then PolicyAes256Sha256RsaPss
      else PolicyNone)"

definition parseSecurityMode :: "string \<Rightarrow> security_mode" where
  "parseSecurityMode mode =
     (if mode = ''Sign'' then ModeSign
      else if mode = ''SignAndEncrypt'' then ModeSignAndEncrypt
      else ModeNone)"

definition auth_type :: "string \<Rightarrow> user_token" where
  "auth_type mode =
     (if mode = ''UserName'' then TokenUserName
      else if mode = ''Certificate'' then TokenCertificate
      else TokenAnonymous)"

definition needsCertificates :: "string \<Rightarrow> security_mode \<Rightarrow> bool" where
  "needsCertificates policy mode \<longleftrightarrow> mode \<noteq> ModeNone \<and> policy \<noteq> '''' \<and> policy \<noteq> ''None''"

section \<open>The configuration\<close>

definition base_security :: "ua_config \<Rightarrow> 'k security_config" where
  "base_security config =
     \<lparr>sk_ClientCert = None, sk_ClientKey = None, sk_ServerCert = None,
      sk_SecurityPolicy = oc_SecurityPolicy config, sk_SecurityMode = parseSecurityMode (oc_SecurityMode config),
      sk_AuthType = auth_type (oc_AuthMode config), sk_Username = oc_Username config, sk_Password = oc_Password config,
      sk_ApplicationName =
        (if oc_ApplicationName config = '''' then ''NexusEdge Protocol Gateway'' else oc_ApplicationName config),
      sk_ApplicationURI =
        (if oc_ApplicationURI config = '''' then ''urn:nexusedge:protocol-gateway'' else oc_ApplicationURI config),
      sk_InsecureSkipVerify = oc_InsecureSkipVerify config\<rparr>"

text \<open>A file that is named is loaded; a file that is not named is not.\<close>

definition load_named ::
  "string \<Rightarrow> string \<Rightarrow> (string \<Rightarrow> ('c \<times> 'w, gerror + 'a) prog) \<Rightarrow> ('c \<times> 'w, gerror + 'a option) prog" where
  "load_named what file load =
     (if file = '''' then ret (Inr None)
      else bnd (load file) (\<lambda>loaded.
        ret (case loaded of Inl err \<Rightarrow> Inl (WrapW what err) | Inr a \<Rightarrow> Inr (Some a))))"

definition check_certificates :: "ua_config \<Rightarrow> 'k security_config \<Rightarrow> gerror + 'k security_config" where
  "check_certificates config sc =
     (if (sk_ClientCert sc \<noteq> None) \<noteq> (sk_ClientKey sc \<noteq> None)
      then Inl (Text ''both certificate and private key must be specified together'')
      else if needsCertificates (sk_SecurityPolicy sc) (sk_SecurityMode sc) \<and>
              (sk_ClientCert sc = None \<or> sk_ClientKey sc = None)
      then Inl (Text (''security policy '' @ sk_SecurityPolicy sc @ '' with mode '' @ oc_SecurityMode config @
                      '' requires client certificate and key''))
      else Inr sc)"

definition ValidateSecurityConfig ::
  "('w, 'k) pki \<Rightarrow> ua_config \<Rightarrow> ('c \<times> 'w, gerror + 'k security_config) prog" where
  "ValidateSecurityConfig K config =
     bnd (load_named ''failed to load client certificate'' (oc_CertificateFile config) (loadCertificate K)) (\<lambda>cert.
     case cert of Inl err \<Rightarrow> ret (Inl err) | Inr cert \<Rightarrow>
     bnd (load_named ''failed to load private key'' (oc_PrivateKeyFile config) (loadPrivateKey K)) (\<lambda>key.
     case key of Inl err \<Rightarrow> ret (Inl err) | Inr key \<Rightarrow>
     bnd (load_named ''failed to load server certificate'' (oc_ServerCertificateFile config) (loadCertificate K)) (\<lambda>server.
     case server of Inl err \<Rightarrow> ret (Inl err) | Inr server \<Rightarrow>
     ret (check_certificates config
       ((base_security config)\<lparr>sk_ClientCert := cert, sk_ClientKey := key, sk_ServerCert := server\<rparr>)))))"

section \<open>Options\<close>

definition credential_options :: "'k security_config \<Rightarrow> 'k ua_option list" where
  "credential_options sc =
     (case sk_ClientCert sc of None \<Rightarrow> [] | Some cert \<Rightarrow> [OptCertificate cert]) @
     (case sk_ClientKey sc of None \<Rightarrow> [] | Some key \<Rightarrow> [OptPrivateKey key])"

definition server_cert_options :: "'k security_config \<Rightarrow> 'k ua_option list" where
  "server_cert_options sc = (case sk_ServerCert sc of None \<Rightarrow> [] | Some cert \<Rightarrow> [OptRemoteCertificate cert])"

definition auth_options :: "'k security_config \<Rightarrow> 'k ua_option list" where
  "auth_options sc =
     (case sk_AuthType sc of
        TokenUserName \<Rightarrow> [OptAuthUsername (sk_Username sc) (sk_Password sc)]
      | TokenCertificate \<Rightarrow>
          (case sk_ClientCert sc of
             None \<Rightarrow> []
           | Some cert \<Rightarrow> OptAuthCertificate cert #
               (case sk_ClientKey sc of None \<Rightarrow> [] | Some key \<Rightarrow> [OptAuthPrivateKey key]))
      | _ \<Rightarrow> [OptAuthAnonymous])"

definition BuildClientOptions :: "'k security_config \<Rightarrow> 'k ua_option list" where
  "BuildClientOptions sc =
     [OptApplicationName (sk_ApplicationName sc), OptApplicationURI (sk_ApplicationURI sc)] @
     (let policy = getSecurityPolicyURI (sk_SecurityPolicy sc)
      in if policy \<noteq> PolicyNone then [OptSecurityPolicy policy, OptSecurityMode (sk_SecurityMode sc)] else []) @
     credential_options sc @ server_cert_options sc @ auth_options sc"

definition BuildOptionsFromEndpoint :: "endpoint \<Rightarrow> 'k security_config \<Rightarrow> 'k ua_option list" where
  "BuildOptionsFromEndpoint ep sc =
     [OptApplicationName (sk_ApplicationName sc), OptApplicationURI (sk_ApplicationURI sc),
      OptSecurityFromEndpoint ep (sk_AuthType sc)] @
     credential_options sc @
     (if ep_ServerCertificate ep \<noteq> [] \<and> sk_InsecureSkipVerify sc
      then [OptRemoteCertificate (ep_ServerCertificate ep)] else server_cert_options sc) @
     auth_options sc"

section \<open>Choosing an endpoint\<close>

definition endpointSupportsAuth :: "endpoint \<Rightarrow> user_token \<Rightarrow> bool" where
  "endpointSupportsAuth ep token \<longleftrightarrow> token \<in> set (ep_Tokens ep)"

primrec policy_rank :: "security_policy \<Rightarrow> int" where
  "policy_rank PolicyAes256Sha256RsaPss = 5"
| "policy_rank PolicyAes128Sha256RsaOaep = 4"
| "policy_rank PolicyBasic256Sha256 = 3"
| "policy_rank PolicyBasic256 = 2"
| "policy_rank PolicyBasic128Rsa15 = 1"
| "policy_rank PolicyNone = 0"
| "policy_rank (PolicyOther uri) = 0"

primrec mode_rank :: "security_mode \<Rightarrow> int" where
  "mode_rank ModeSignAndEncrypt = 3"
| "mode_rank ModeSign = 2"
| "mode_rank ModeNone = 0"
| "mode_rank (ModeOther m) = 0"

definition scoreEndpoint :: "endpoint \<Rightarrow> security_policy \<Rightarrow> security_mode \<Rightarrow> int" where
  "scoreEndpoint ep desiredPolicy desiredMode =
     (if ep_Policy ep = desiredPolicy then 100
      else if desiredPolicy = PolicyNone \<and> ep_Policy ep = PolicyNone then 100 else 0) +
     (if ep_Mode ep = desiredMode then 50 else 0) +
     policy_rank (ep_Policy ep) + mode_rank (ep_Mode ep)"

text \<open>The loop: the best endpoint so far and its score.\<close>

fun best_endpoint ::
  "(endpoint \<Rightarrow> int) \<Rightarrow> user_token \<Rightarrow> endpoint option \<times> int \<Rightarrow> endpoint list \<Rightarrow> endpoint option \<times> int" where
  "best_endpoint score token best [] = best"
| "best_endpoint score token best (ep # eps) =
     best_endpoint score token
       (if endpointSupportsAuth ep token \<and> snd best < score ep then (Some ep, score ep) else best) eps"

definition select_endpoint :: "ua_config \<Rightarrow> endpoint list \<Rightarrow> gerror + endpoint" where
  "select_endpoint config endpoints =
     (if endpoints = [] then Inl (Text ''no endpoints returned from server'')
      else
        let token = auth_type (oc_AuthMode config);
            score = (\<lambda>ep. scoreEndpoint ep (getSecurityPolicyURI (oc_SecurityPolicy config))
                            (parseSecurityMode (oc_SecurityMode config)))
        in case fst (best_endpoint score token (None, 0) endpoints) of
             Some ep \<Rightarrow> Inr ep
           | None \<Rightarrow>
               (case find (\<lambda>ep. endpointSupportsAuth ep token) endpoints of
                  Some ep \<Rightarrow> Inr ep
                | None \<Rightarrow> Inl (Text (''no suitable endpoint found for auth mode '' @ oc_AuthMode config))))"

text \<open>\<open>getEndpoints\<close> asks the server, within the timeout.\<close>

definition DiscoverAndSelectEndpoint ::
  "(ua_config \<Rightarrow> 'w \<Rightarrow> (gerror + endpoint list) \<times> 'w) \<Rightarrow> ua_config \<Rightarrow> ('c \<times> 'w, gerror + endpoint) prog" where
  "DiscoverAndSelectEndpoint getEndpoints config =
     bnd (call (getEndpoints config)) (\<lambda>answer.
     ret (case answer of
       Inl err \<Rightarrow> Inl (WrapW ''failed to get endpoints'' err)
     | Inr endpoints \<Rightarrow> select_endpoint config endpoints))"

section \<open>Which endpoint is chosen\<close>

definition endpoint_score :: "ua_config \<Rightarrow> endpoint \<Rightarrow> int" where
  "endpoint_score config ep =
     scoreEndpoint ep (getSecurityPolicyURI (oc_SecurityPolicy config)) (parseSecurityMode (oc_SecurityMode config))"

definition endpoint_fits :: "ua_config \<Rightarrow> endpoint \<Rightarrow> bool" where
  "endpoint_fits config ep = endpointSupportsAuth ep (auth_type (oc_AuthMode config))"

lemma score_nonneg: "0 \<le> scoreEndpoint ep p m"
  by (cases "ep_Policy ep"; cases "ep_Mode ep") (auto simp: scoreEndpoint_def)

text \<open>The loop keeps an endpoint that fits with its score, and no endpoint that fits scores higher.\<close>

lemma best_endpoint_spec:
  assumes "best_endpoint score token best eps = (found, high)"
    "case fst best of None \<Rightarrow> snd best = 0 | Some b \<Rightarrow> snd best = score b \<and> endpointSupportsAuth b token"
  shows "(case found of None \<Rightarrow> high = 0 | Some b \<Rightarrow> high = score b \<and> endpointSupportsAuth b token \<and> b \<in> set eps \<union> set_option (fst best)) \<and>
    snd best \<le> high \<and> (\<forall>e\<in>set eps. endpointSupportsAuth e token \<longrightarrow> score e \<le> high)"
  using assms
proof (induction eps arbitrary: best)
  case Nil
  then show ?case by (auto split: option.splits)
next
  case (Cons e eps)
  let ?b = "if endpointSupportsAuth e token \<and> snd best < score e then (Some e, score e) else best"
  have "(case found of None \<Rightarrow> high = 0 | Some b \<Rightarrow> high = score b \<and> endpointSupportsAuth b token \<and> b \<in> set eps \<union> set_option (fst ?b)) \<and>
    snd ?b \<le> high \<and> (\<forall>e\<in>set eps. endpointSupportsAuth e token \<longrightarrow> score e \<le> high)"
    using Cons.prems by (intro Cons.IH) auto
  then show ?case by (auto split: option.splits if_splits)
qed

text \<open>The endpoint that discovery selects is offered by the server, accepts the configured
  authentication, and no such endpoint scores higher; there is none exactly when no offered endpoint accepts it.\<close>

theorem selected_endpoint_is_best:
  "(case select_endpoint config eps of
      Inr ep \<Rightarrow> ep \<in> set eps \<and> endpoint_fits config ep \<and>
        (\<forall>e\<in>set eps. endpoint_fits config e \<longrightarrow> endpoint_score config e \<le> endpoint_score config ep)
    | Inl err \<Rightarrow> \<forall>e\<in>set eps. \<not> endpoint_fits config e)"
proof -
  let ?token = "auth_type (oc_AuthMode config)"
  obtain found high where best: "best_endpoint (endpoint_score config) ?token (None, 0) eps = (found, high)"
    by (cases "best_endpoint (endpoint_score config) ?token (None, 0) eps")
  note spec = best_endpoint_spec[OF best, simplified]
  have select: "select_endpoint config eps =
     (if eps = [] then Inl (Text ''no endpoints returned from server'')
      else case found of Some ep \<Rightarrow> Inr ep
        | None \<Rightarrow> (case find (endpoint_fits config) eps of
            Some ep \<Rightarrow> Inr ep
          | None \<Rightarrow> Inl (Text (''no suitable endpoint found for auth mode '' @ oc_AuthMode config))))"
  proof -
    have "endpoint_fits config = (\<lambda>ep. endpointSupportsAuth ep ?token)"
      "endpoint_score config = (\<lambda>ep. scoreEndpoint ep (getSecurityPolicyURI (oc_SecurityPolicy config))
         (parseSecurityMode (oc_SecurityMode config)))"
      by (simp_all add: fun_eq_iff endpoint_fits_def endpoint_score_def)
    then show ?thesis using best by (cases found) (simp_all add: select_endpoint_def Let_def)
  qed
  show ?thesis
  proof (cases found)
    case None
    then have low: "\<forall>e\<in>set eps. endpoint_fits config e \<longrightarrow> endpoint_score config e = 0"
      using spec score_nonneg by (force simp: endpoint_fits_def endpoint_score_def intro: antisym)
    show ?thesis
    proof (cases "find (endpoint_fits config) eps")
      case None
      then have "\<forall>e\<in>set eps. \<not> endpoint_fits config e" by (auto simp: find_None_iff)
      then show ?thesis using None select \<open>found = None\<close> by simp
    next
      case (Some ep)
      then have "ep \<in> set eps" "endpoint_fits config ep" by (auto simp: find_Some_iff)
      then show ?thesis using Some select \<open>found = None\<close> low by (cases eps) auto
    qed
  next
    case (Some ep)
    then show ?thesis using spec select by (auto simp: endpoint_fits_def)
  qed
qed

text \<open>A server that offers only an unprotected endpoint gets an unprotected connection, whatever the
  configuration asks for.\<close>

lemma server_chooses_the_security:
  assumes "endpoint_fits config ep"
  shows "select_endpoint config [ep] = Inr ep"
  using assms by (simp add: select_endpoint_def endpoint_fits_def Let_def)

section \<open>What a manual configuration gives\<close>

lemma validated_security:
  assumes "check_certificates config sc = Inr sc'"
  shows "sc' = sc" "(sk_ClientCert sc = None) = (sk_ClientKey sc = None)"
    "needsCertificates (sk_SecurityPolicy sc) (sk_SecurityMode sc) \<Longrightarrow> sk_ClientCert sc \<noteq> None"
  using assms by (auto simp: check_certificates_def split: if_splits)

lemma known_policy_needs_certificates:
  "getSecurityPolicyURI policy \<noteq> PolicyNone \<Longrightarrow> mode \<noteq> ModeNone \<Longrightarrow> needsCertificates policy mode"
  by (auto simp: getSecurityPolicyURI_def needsCertificates_def split: if_splits)

text \<open>Options built from a checked configuration that names a known policy and a mode carry both, and
  the client's certificate and key.\<close>

theorem manual_options_protect:
  assumes "check_certificates config sc = Inr sc'" "getSecurityPolicyURI (sk_SecurityPolicy sc) = policy"
    "policy \<noteq> PolicyNone" "sk_SecurityMode sc = mode" "mode \<noteq> ModeNone"
  shows "{OptSecurityPolicy policy, OptSecurityMode mode} \<subseteq> set (BuildClientOptions sc') \<and>
    (\<exists>cert key. {OptCertificate cert, OptPrivateKey key} \<subseteq> set (BuildClientOptions sc'))"
proof -
  have "sk_ClientCert sc \<noteq> None"
    using validated_security(3)[OF assms(1)] known_policy_needs_certificates assms(2-5) by metis
  then obtain cert key where "sk_ClientCert sc = Some cert" "sk_ClientKey sc = Some key"
    using validated_security(2)[OF assms(1)] by (auto simp: not_None_eq)
  then show ?thesis using assms validated_security(1)[OF assms(1)]
    by (auto simp: BuildClientOptions_def credential_options_def Let_def)
qed

text \<open>A mode without a policy is dropped: the connection is not protected.\<close>

lemma mode_without_policy_is_dropped:
  "getSecurityPolicyURI (sk_SecurityPolicy sc) = PolicyNone \<Longrightarrow>
   OptSecurityMode mode \<notin> set (BuildClientOptions sc)"
  by (auto simp: BuildClientOptions_def credential_options_def server_cert_options_def auth_options_def
    split: option.splits user_token.splits)

end
