(* ===== verification/OpcuaTrust.thy ===== *)
theory OpcuaTrust
  imports OpcuaSecurity DataPoint GoFocus
begin

text \<open>
  The trust store of server certificates (\<open>adapter/opcua/trust_store.go\<close>): directories of certificate
  files, the checks by fingerprint, and the decision about a server's certificate. The file system is the
  parameter \<open>disk\<close>, whose paths are a directory of the store and a file name; logging is left out.
\<close>

section \<open>The store\<close>

datatype cert_dir = TrustedDir | RejectedDir | IssuersDir | OwnDir | OwnPrivateDir

text \<open>\<open>dk_ReadDir\<close> gives the names with whether each is a directory; \<open>dk_missing\<close> is \<open>os.IsNotExist\<close>.\<close>

record 'w disk =
  dk_ReadDir :: "cert_dir \<Rightarrow> 'w \<Rightarrow> (gerror + (string \<times> bool) list) \<times> 'w"
  dk_missing :: "gerror \<Rightarrow> bool"
  dk_ReadFile :: "cert_dir \<Rightarrow> string \<Rightarrow> 'w \<Rightarrow> (gerror + bytes) \<times> 'w"
  dk_WriteFile :: "cert_dir \<Rightarrow> string \<Rightarrow> bytes \<Rightarrow> 'w \<Rightarrow> gerror option \<times> 'w"
  dk_Rename :: "cert_dir \<Rightarrow> cert_dir \<Rightarrow> string \<Rightarrow> 'w \<Rightarrow> gerror option \<times> 'w"
  dk_Remove :: "cert_dir \<Rightarrow> string \<Rightarrow> 'w \<Rightarrow> gerror option \<times> 'w"
  dk_MkdirAll :: "cert_dir \<Rightarrow> 'w \<Rightarrow> gerror option \<times> 'w"
  dk_Now :: "'w \<Rightarrow> int \<times> 'w"
  dk_AddDays :: "int \<Rightarrow> int \<Rightarrow> int"

record trust_info =
  ti_Fingerprint :: string
  ti_Subject :: string
  ti_Issuer :: string
  ti_SerialNumber :: string
  ti_NotBefore :: int
  ti_NotAfter :: int
  ti_DaysUntilExpiry :: int
  ti_IsExpired :: bool
  ti_IsCA :: bool
  ti_Filename :: string

section \<open>Fingerprints and file names\<close>

definition hex :: "bytes \<Rightarrow> string" where
  "hex bs = concat (map (\<lambda>b. [hex_digit (uint b div 16), hex_digit (uint b mod 16)]) bs)"

definition calculateFingerprint :: "('w, 'k) pki \<Rightarrow> x509 \<Rightarrow> string" where
  "calculateFingerprint K cert = ''sha256:'' @ hex (pk_Sum256 K (x_Raw cert))"

definition normalizeFingerprint :: "string \<Rightarrow> string" where
  "normalizeFingerprint fp =
     (let fp = ToLower fp in if take 7 fp = ''sha256:'' then fp else ''sha256:'' @ fp)"

text \<open>The fingerprint has 71 characters, so the slice is in range.\<close>

definition certFilename :: "x509 \<Rightarrow> string \<Rightarrow> string" where
  "certFilename cert fp =
     (let name = (if x_CommonName cert = '''' then x_SerialNumber cert else x_CommonName cert);
          name = ReplaceAll name CHR '' '' CHR ''_'';
          name = ReplaceAll name CHR ''/'' CHR ''_'';
          name = ReplaceAll name (char_of (92 :: nat)) CHR ''_''
      in name @ ''_'' @ take 8 (drop 7 fp) @ ''.der'')"

section \<open>Files\<close>

definition parse_file :: "('w, 'k) pki \<Rightarrow> bytes \<Rightarrow> gerror + x509" where
  "parse_file K content =
     (case pk_pem K content of
        Some (type, block) \<Rightarrow>
          (if type = ''CERTIFICATE'' then pk_ParseCertificate K block else pk_ParseCertificate K content)
      | None \<Rightarrow> pk_ParseCertificate K content)"

definition readCert :: "('w, 'k) pki \<Rightarrow> 'w disk \<Rightarrow> cert_dir \<Rightarrow> string \<Rightarrow> ('c \<times> 'w, gerror + x509) prog" where
  "readCert K D dir name =
     bnd (call (dk_ReadFile D dir name)) (\<lambda>read.
     ret (case read of Inl err \<Rightarrow> Inl err | Inr content \<Rightarrow> parse_file K content))"

text \<open>The loop of the checks: the first file that is a certificate with the fingerprint.\<close>

fun find_cert ::
  "('w, 'k) pki \<Rightarrow> 'w disk \<Rightarrow> cert_dir \<Rightarrow> string \<Rightarrow> (string \<times> bool) list \<Rightarrow> ('c \<times> 'w, string option) prog" where
  "find_cert K D dir fp [] = ret None"
| "find_cert K D dir fp ((name, isDir) # entries) =
     (if isDir then find_cert K D dir fp entries
      else bnd (readCert K D dir name) (\<lambda>cert.
        case cert of
          Inl err \<Rightarrow> find_cert K D dir fp entries
        | Inr cert \<Rightarrow>
            if calculateFingerprint K cert = fp then ret (Some name) else find_cert K D dir fp entries))"

definition is_in :: "('w, 'k) pki \<Rightarrow> 'w disk \<Rightarrow> cert_dir \<Rightarrow> x509 \<Rightarrow> ('c \<times> 'w, bool) prog" where
  "is_in K D dir cert =
     bnd (call (dk_ReadDir D dir)) (\<lambda>entries.
     case entries of
       Inl err \<Rightarrow> ret False
     | Inr entries \<Rightarrow>
         bnd (find_cert K D dir (calculateFingerprint K cert) entries) (\<lambda>found. ret (found \<noteq> None)))"

definition IsTrusted :: "('w, 'k) pki \<Rightarrow> 'w disk \<Rightarrow> x509 \<Rightarrow> ('c \<times> 'w, bool) prog" where
  "IsTrusted K D cert = is_in K D TrustedDir cert"

definition IsRejected :: "('w, 'k) pki \<Rightarrow> 'w disk \<Rightarrow> x509 \<Rightarrow> ('c \<times> 'w, bool) prog" where
  "IsRejected K D cert = is_in K D RejectedDir cert"

definition save_cert ::
  "('w, 'k) pki \<Rightarrow> 'w disk \<Rightarrow> cert_dir \<Rightarrow> string \<Rightarrow> x509 \<Rightarrow> ('c \<times> 'w, gerror option) prog" where
  "save_cert K D dir what cert =
     bnd (call (dk_WriteFile D dir (certFilename cert (calculateFingerprint K cert)) (x_Raw cert))) (\<lambda>err.
     ret (map_option (WrapW what) err))"

definition AddTrustedCert :: "('w, 'k) pki \<Rightarrow> 'w disk \<Rightarrow> x509 \<Rightarrow> ('c \<times> 'w, gerror option) prog" where
  "AddTrustedCert K D cert = save_cert K D TrustedDir ''failed to write trusted cert'' cert"

definition RejectCert :: "('w, 'k) pki \<Rightarrow> 'w disk \<Rightarrow> x509 \<Rightarrow> ('c \<times> 'w, gerror option) prog" where
  "RejectCert K D cert = save_cert K D RejectedDir ''failed to write rejected cert'' cert"

fun make_dirs :: "'w disk \<Rightarrow> cert_dir list \<Rightarrow> ('c \<times> 'w, gerror option) prog" where
  "make_dirs D [] = ret None"
| "make_dirs D (dir # dirs) =
     bnd (call (dk_MkdirAll D dir)) (\<lambda>err.
     case err of Some e \<Rightarrow> ret (Some (WrapW ''failed to create directory'' e)) | None \<Rightarrow> make_dirs D dirs)"

definition EnsureDirectories :: "'w disk \<Rightarrow> ('c \<times> 'w, gerror option) prog" where
  "EnsureDirectories D = make_dirs D [TrustedDir, RejectedDir, IssuersDir, OwnDir, OwnPrivateDir]"

definition NewTrustStore :: "'w disk \<Rightarrow> ('c \<times> 'w, gerror option) prog" where
  "NewTrustStore D =
     bnd (EnsureDirectories D) (\<lambda>err. ret (map_option (WrapW ''failed to create PKI directories'') err))"

section \<open>Moving and removing by fingerprint\<close>

definition PromoteCert :: "('w, 'k) pki \<Rightarrow> 'w disk \<Rightarrow> string \<Rightarrow> ('c \<times> 'w, gerror option) prog" where
  "PromoteCert K D fingerprint =
     (let fp = normalizeFingerprint fingerprint in
      bnd (call (dk_ReadDir D RejectedDir)) (\<lambda>entries.
      case entries of
        Inl err \<Rightarrow> ret (Some (WrapW ''failed to read rejected certs'' err))
      | Inr entries \<Rightarrow>
          bnd (find_cert K D RejectedDir fp entries) (\<lambda>found.
          case found of
            None \<Rightarrow> ret (Some (Text (''certificate with fingerprint '' @ fp @ '' not found in rejected store'')))
          | Some name \<Rightarrow>
              bnd (call (dk_Rename D RejectedDir TrustedDir name)) (\<lambda>err.
              ret (map_option (WrapW ''failed to move cert to trusted'') err)))))"

definition RemoveTrustedCert :: "('w, 'k) pki \<Rightarrow> 'w disk \<Rightarrow> string \<Rightarrow> ('c \<times> 'w, gerror option) prog" where
  "RemoveTrustedCert K D fingerprint =
     (let fp = normalizeFingerprint fingerprint in
      bnd (call (dk_ReadDir D TrustedDir)) (\<lambda>entries.
      case entries of
        Inl err \<Rightarrow> ret (Some (WrapW ''failed to read trusted certs'' err))
      | Inr entries \<Rightarrow>
          bnd (find_cert K D TrustedDir fp entries) (\<lambda>found.
          case found of
            None \<Rightarrow> ret (Some (Text (''certificate with fingerprint '' @ fp @ '' not found in trusted store'')))
          | Some name \<Rightarrow>
              bnd (call (dk_Remove D TrustedDir name)) (\<lambda>err.
              ret (map_option (WrapW ''failed to remove cert'') err)))))"

section \<open>Lists\<close>

text \<open>\<open>Duration.Hours\<close>, and the whole days in it.\<close>

definition hours :: "int \<Rightarrow> f64" where
  "hours d =
     (let hour = 3600000000000
      in f64_add (f64_of_int (tdiv d hour)) (f64_div (f64_of_int (d - hour * tdiv d hour)) (f64_of_int hour)))"

definition whole_days :: "int \<Rightarrow> int" where
  "whole_days d = (case fp_trunc (decode64 (f64_div (hours d) (f64_of_int 24))) of Some i \<Rightarrow> i | None \<Rightarrow> 0)"

definition trust_info_of :: "('w, 'k) pki \<Rightarrow> int \<Rightarrow> string \<Rightarrow> x509 \<Rightarrow> trust_info" where
  "trust_info_of K now name cert =
     \<lparr>ti_Fingerprint = calculateFingerprint K cert, ti_Subject = x_Subject cert, ti_Issuer = x_Issuer cert,
      ti_SerialNumber = x_SerialNumber cert, ti_NotBefore = x_NotBefore cert, ti_NotAfter = x_NotAfter cert,
      ti_DaysUntilExpiry = whole_days (time_Sub (x_NotAfter cert) now), ti_IsExpired = (x_NotAfter cert < now),
      ti_IsCA = x_IsCA cert, ti_Filename = name\<rparr>"

fun list_certs ::
  "('w, 'k) pki \<Rightarrow> 'w disk \<Rightarrow> int \<Rightarrow> cert_dir \<Rightarrow> (string \<times> bool) list \<Rightarrow> ('c \<times> 'w, trust_info list) prog" where
  "list_certs K D now dir [] = ret []"
| "list_certs K D now dir ((name, isDir) # entries) =
     (if isDir then list_certs K D now dir entries
      else bnd (readCert K D dir name) (\<lambda>cert.
        case cert of
          Inl err \<Rightarrow> list_certs K D now dir entries
        | Inr cert \<Rightarrow> bnd (list_certs K D now dir entries) (\<lambda>infos. ret (trust_info_of K now name cert # infos))))"

definition listCertsInDir ::
  "('w, 'k) pki \<Rightarrow> 'w disk \<Rightarrow> cert_dir \<Rightarrow> ('c \<times> 'w, gerror + trust_info list) prog" where
  "listCertsInDir K D dir =
     bnd (call (dk_ReadDir D dir)) (\<lambda>entries.
     case entries of
       Inl err \<Rightarrow> ret (if dk_missing D err then Inr [] else Inl (WrapW ''failed to read directory'' err))
     | Inr entries \<Rightarrow>
         bnd (call (dk_Now D)) (\<lambda>now.
         bnd (list_certs K D now dir entries) (\<lambda>infos. ret (Inr infos))))"

definition GetExpiringCerts ::
  "('w, 'k) pki \<Rightarrow> 'w disk \<Rightarrow> int \<Rightarrow> ('c \<times> 'w, gerror + trust_info list) prog" where
  "GetExpiringCerts K D days =
     bnd (listCertsInDir K D TrustedDir) (\<lambda>infos.
     case infos of
       Inl err \<Rightarrow> ret (Inl err)
     | Inr infos \<Rightarrow>
         bnd (call (dk_Now D)) (\<lambda>now.
         ret (Inr (filter (\<lambda>i. ti_NotAfter i < dk_AddDays D days now) infos))))"

section \<open>The decision\<close>

definition em_dash :: string where
  "em_dash = map char_of [0xE2 :: nat, 0x80, 0x94]"

definition ValidateServerCertificate ::
  "('w, 'k) pki \<Rightarrow> 'w disk \<Rightarrow> bytes \<Rightarrow> bool \<Rightarrow> ('c \<times> 'w, gerror option) prog" where
  "ValidateServerCertificate K D certBytes autoTrust =
     (if certBytes = [] then ret None
      else case pk_ParseCertificate K certBytes of
        Inl err \<Rightarrow> ret (Some (WrapW ''failed to parse server certificate'' err))
      | Inr cert \<Rightarrow>
          let fp = calculateFingerprint K cert in
          bnd (IsTrusted K D cert) (\<lambda>trusted.
          if trusted then ret None
          else bnd (IsRejected K D cert) (\<lambda>rejected.
          if rejected
          then ret (Some (Text (''server certificate is in rejected store (fingerprint: '' @ fp @
                                '', subject: '' @ x_Subject cert @ '')'')))
          else if autoTrust then bnd (AddTrustedCert K D cert) (\<lambda>err. ret None)
          else bnd (RejectCert K D cert) (\<lambda>err.
            ret (Some (Text (''untrusted server certificate (fingerprint: '' @ fp @ '', subject: '' @
                             x_Subject cert @ '') '' @ em_dash @ '' use /api/opcua/certificates/trust to approve'')))))))"

section \<open>What a file system does\<close>

text \<open>
  \<open>view\<close> is what the files hold. An honest disk changes only what it is asked to and reads what is there,
  but any operation may fail. A working disk does not fail and lists every file.
\<close>

definition honest_disk :: "'w disk \<Rightarrow> ('w \<Rightarrow> cert_dir \<Rightarrow> string \<rightharpoonup> bytes) \<Rightarrow> bool" where
  "honest_disk D view \<longleftrightarrow>
     (\<forall>d w. view (snd (dk_ReadDir D d w)) = view w) \<and>
     (\<forall>d n w. view (snd (dk_ReadFile D d n w)) = view w \<and>
        (\<forall>content. fst (dk_ReadFile D d n w) = Inr content \<longrightarrow> view w d n = Some content)) \<and>
     (\<forall>d n content w d' n'. (d', n') \<noteq> (d, n) \<longrightarrow> view (snd (dk_WriteFile D d n content w)) d' n' = view w d' n')"

definition working_disk :: "'w disk \<Rightarrow> ('w \<Rightarrow> cert_dir \<Rightarrow> string \<rightharpoonup> bytes) \<Rightarrow> bool" where
  "working_disk D view \<longleftrightarrow> honest_disk D view \<and>
     (\<forall>d w. \<exists>names. fst (dk_ReadDir D d w) = Inr (map (\<lambda>n. (n, False)) names) \<and> set names = dom (view w d)) \<and>
     (\<forall>d n w. \<forall>content. view w d n = Some content \<longrightarrow> fst (dk_ReadFile D d n w) = Inr content) \<and>
     (\<forall>d n content w. fst (dk_WriteFile D d n content w) = None \<and>
        view (snd (dk_WriteFile D d n content w)) d n = Some content) \<and>
     (\<forall>d d' n w. \<forall>content. d \<noteq> d' \<longrightarrow> view w d n = Some content \<longrightarrow>
        fst (dk_Rename D d d' n w) = None \<and> view (snd (dk_Rename D d d' n w)) d' n = Some content)"

text \<open>The files that are certificates with a fingerprint.\<close>

definition holds_cert :: "('w, 'k) pki \<Rightarrow> (string \<rightharpoonup> bytes) \<Rightarrow> string \<Rightarrow> string \<Rightarrow> bool" where
  "holds_cert K files fp name \<longleftrightarrow>
     (\<exists>content cert. files name = Some content \<and> parse_file K content = Inr cert \<and> calculateFingerprint K cert = fp)"

text \<open>What reading a file, a certificate, and a directory for a fingerprint may give.\<close>

definition content_read :: "'w disk \<Rightarrow> ('w \<Rightarrow> cert_dir \<Rightarrow> string \<rightharpoonup> bytes) \<Rightarrow> (string \<rightharpoonup> bytes) \<Rightarrow> string \<Rightarrow> gerror + bytes \<Rightarrow> bool" where
  "content_read D view files name r \<longleftrightarrow>
     (\<forall>content. r = Inr content \<longrightarrow> files name = Some content) \<and>
     (working_disk D view \<longrightarrow> (\<forall>content. files name = Some content \<longrightarrow> r = Inr content))"

definition cert_read ::
  "('w, 'k) pki \<Rightarrow> 'w disk \<Rightarrow> ('w \<Rightarrow> cert_dir \<Rightarrow> string \<rightharpoonup> bytes) \<Rightarrow> (string \<rightharpoonup> bytes) \<Rightarrow> string \<Rightarrow> gerror + x509 \<Rightarrow> bool" where
  "cert_read K D view files name r \<longleftrightarrow>
     (\<forall>cert. r = Inr cert \<longrightarrow> holds_cert K files (calculateFingerprint K cert) name) \<and>
     (working_disk D view \<longrightarrow> (\<forall>content. files name = Some content \<longrightarrow> r = parse_file K content))"

definition cert_found ::
  "('w, 'k) pki \<Rightarrow> 'w disk \<Rightarrow> ('w \<Rightarrow> cert_dir \<Rightarrow> string \<rightharpoonup> bytes) \<Rightarrow> (string \<rightharpoonup> bytes) \<Rightarrow> string \<Rightarrow> (string \<times> bool) list \<Rightarrow>
   string option \<Rightarrow> bool" where
  "cert_found K D view files fp entries r \<longleftrightarrow>
     (\<forall>name. r = Some name \<longrightarrow> holds_cert K files fp name) \<and>
     (working_disk D view \<longrightarrow> r = None \<longrightarrow> (\<forall>name. (name, False) \<in> set entries \<longrightarrow> \<not> holds_cert K files fp name))"

lemma file_is_read:
  assumes "honest_disk D view"
  shows "gives (\<lambda>s. view (snd s) = V) (call (dk_ReadFile D dir name))
    (\<lambda>r s. view (snd s) = V \<and> content_read D view (V dir) name r)"
proof (rule gives_call)
  fix c :: 'b and w r w' assume "view (snd (c, w)) = V" "dk_ReadFile D dir name w = (r, w')"
  then have "view w = V" "r = fst (dk_ReadFile D dir name w)" "w' = snd (dk_ReadFile D dir name w)" by simp_all
  with assms show "view (snd (c, w')) = V \<and> content_read D view (V dir) name r"
    by (auto simp: honest_disk_def working_disk_def content_read_def)
qed

lemma parsed_content:
  assumes "content_read D view files name r"
  shows "cert_read K D view files name (case r of Inl err \<Rightarrow> Inl err | Inr content \<Rightarrow> parse_file K content)"
proof (cases r)
  case (Inr content)
  then have "files name = Some content" using assms by (simp add: content_read_def)
  then show ?thesis using Inr by (simp add: cert_read_def holds_cert_def)
qed (use assms in \<open>auto simp: content_read_def cert_read_def\<close>)

lemma cert_is_read:
  assumes "honest_disk D view"
  shows "gives (\<lambda>s. view (snd s) = V) (readCert K D dir name)
    (\<lambda>r s. view (snd s) = V \<and> cert_read K D view (V dir) name r)"
  unfolding readCert_def
  by (rule gives_bnd[OF file_is_read[OF assms]]) (rule gives_ret, simp add: parsed_content)

lemma cert_found_skip:
  assumes "cert_found K D view files fp entries r"
    and "isDir \<or> cert_read K D view files name c \<and> (\<forall>cert. c = Inr cert \<longrightarrow> calculateFingerprint K cert \<noteq> fp)"
  shows "cert_found K D view files fp ((name, isDir) # entries) r"
proof -
  have "\<not> holds_cert K files fp name" if "working_disk D view" "\<not> isDir"
    using assms(2) that unfolding cert_read_def holds_cert_def by auto
  then show ?thesis using assms(1) by (auto simp: cert_found_def)
qed

lemma find_cert_finds:
  fixes D :: "'w disk" and K :: "('w, 'k) pki"
  assumes "honest_disk D view"
  shows "gives (\<lambda>s :: 'c \<times> 'w. view (snd s) = V) (find_cert K D dir fp entries)
    (\<lambda>r s. view (snd s) = V \<and> cert_found K D view (V dir) fp entries r)"
proof (induction entries)
  case Nil
  show ?case by (simp add: gives_ret cert_found_def)
next
  case (Cons entry entries)
  obtain name isDir where entry: "entry = (name, isDir)" by (cases entry)
  have rest: "gives (\<lambda>s :: 'c \<times> 'w. view (snd s) = V) (find_cert K D dir fp entries)
      (\<lambda>r s. view (snd s) = V \<and> cert_found K D view (V dir) fp (entry # entries) r)"
    if "isDir \<or> cert_read K D view (V dir) name c \<and> (\<forall>cert. c = Inr cert \<longrightarrow> calculateFingerprint K cert \<noteq> fp)" for c
    unfolding entry by (rule gives_post[OF Cons.IH]) (use cert_found_skip[OF _ that] in auto)
  show ?case
  proof (cases isDir)
    case True
    then show ?thesis using rest entry by simp
  next
    case False
    have step: "gives (\<lambda>s :: 'c \<times> 'w. view (snd s) = V \<and> cert_read K D view (V dir) name c)
        (case c of Inl err \<Rightarrow> find_cert K D dir fp entries
         | Inr cert \<Rightarrow> if calculateFingerprint K cert = fp then ret (Some name) else find_cert K D dir fp entries)
        (\<lambda>r s. view (snd s) = V \<and> cert_found K D view (V dir) fp (entry # entries) r)" for c
    proof (rule gives_pre[where P' = "\<lambda>s :: 'c \<times> 'w. cert_read K D view (V dir) name c \<and> view (snd s) = V"], rule gives_fact)
      assume c: "cert_read K D view (V dir) name c"
      show "gives (\<lambda>s :: 'c \<times> 'w. view (snd s) = V)
          (case c of Inl err \<Rightarrow> find_cert K D dir fp entries
           | Inr cert \<Rightarrow> if calculateFingerprint K cert = fp then ret (Some name) else find_cert K D dir fp entries)
          (\<lambda>r s. view (snd s) = V \<and> cert_found K D view (V dir) fp (entry # entries) r)"
      proof (cases "\<exists>cert. c = Inr cert \<and> calculateFingerprint K cert = fp")
        case True
        then obtain cert where "c = Inr cert" "calculateFingerprint K cert = fp" by blast
        then show ?thesis using c by (simp add: gives_ret cert_found_def cert_read_def)
      next
        case False
        then show ?thesis using rest[of c] c by (cases c) auto
      qed
    qed simp
    have "gives (\<lambda>s :: 'c \<times> 'w. view (snd s) = V)
        (bnd (readCert K D dir name) (\<lambda>c. case c of
           Inl err \<Rightarrow> find_cert K D dir fp entries
         | Inr cert \<Rightarrow> if calculateFingerprint K cert = fp then ret (Some name) else find_cert K D dir fp entries))
        (\<lambda>r s. view (snd s) = V \<and> cert_found K D view (V dir) fp (entry # entries) r)"
      by (rule gives_bnd[OF cert_is_read[OF assms]]) (rule step)
    then show ?thesis using False entry by simp
  qed
qed

text \<open>A directory is listed; reading it answers whether it holds the certificate.\<close>

definition listed :: "'w disk \<Rightarrow> ('w \<Rightarrow> cert_dir \<Rightarrow> string \<rightharpoonup> bytes) \<Rightarrow> (string \<rightharpoonup> bytes) \<Rightarrow> gerror + (string \<times> bool) list \<Rightarrow> bool" where
  "listed D view files r \<longleftrightarrow>
     (working_disk D view \<longrightarrow> (\<exists>names. r = Inr (map (\<lambda>n. (n, False)) names) \<and> set names = dom files))"

lemma dir_is_listed:
  assumes "honest_disk D view"
  shows "gives (\<lambda>s. view (snd s) = V) (call (dk_ReadDir D dir)) (\<lambda>r s. view (snd s) = V \<and> listed D view (V dir) r)"
proof (rule gives_call)
  fix c :: 'b and w r w' assume "view (snd (c, w)) = V" "dk_ReadDir D dir w = (r, w')"
  then have w: "view w = V" "r = fst (dk_ReadDir D dir w)" "w' = snd (dk_ReadDir D dir w)" by simp_all
  have "view (snd (dk_ReadDir D dir w)) = view w" using assms by (simp add: honest_disk_def)
  moreover have "working_disk D view \<longrightarrow>
      (\<exists>names. fst (dk_ReadDir D dir w) = Inr (map (\<lambda>n. (n, False)) names) \<and> set names = dom (view w dir))"
    by (simp add: working_disk_def)
  ultimately show "view (snd (c, w')) = V \<and> listed D view (V dir) r" using w by (simp add: listed_def)
qed

lemma listed_found:
  assumes "working_disk D view" "listed D view files (Inr entries)" "cert_found K D view files fp entries r"
  shows "(r = None) = (\<forall>name. \<not> holds_cert K files fp name)"
proof
  from assms(1,2) obtain names where names: "entries = map (\<lambda>n. (n, False)) names" "set names = dom files"
    by (auto simp: listed_def)
  assume "r = None"
  then have "\<forall>name. (name, False) \<in> set entries \<longrightarrow> \<not> holds_cert K files fp name"
    using assms(1,3) by (simp add: cert_found_def)
  moreover have "holds_cert K files fp name \<Longrightarrow> (name, False) \<in> set entries" for name
    using names by (auto simp: holds_cert_def)
  ultimately show "\<forall>name. \<not> holds_cert K files fp name" by blast
next
  assume "\<forall>name. \<not> holds_cert K files fp name"
  then show "r = None" using assms(3) by (cases r) (auto simp: cert_found_def)
qed

lemma is_in_answers:
  assumes "honest_disk D view"
  shows "gives (\<lambda>s. view (snd s) = V) (is_in K D dir cert)
    (\<lambda>r s. view (snd s) = V \<and> (r \<longrightarrow> Ex (holds_cert K (V dir) (calculateFingerprint K cert))) \<and>
       (working_disk D view \<longrightarrow> r = Ex (holds_cert K (V dir) (calculateFingerprint K cert))))"
  unfolding is_in_def
proof (rule gives_bnd[OF dir_is_listed[OF assms]])
  fix r
  let ?fp = "calculateFingerprint K cert"
  let ?Q = "\<lambda>r s. view (snd s) = V \<and> (r \<longrightarrow> Ex (holds_cert K (V dir) ?fp)) \<and>
     (working_disk D view \<longrightarrow> r = Ex (holds_cert K (V dir) ?fp))"
  show "gives (\<lambda>s. view (snd s) = V \<and> listed D view (V dir) r)
      (case r of Inl err \<Rightarrow> ret False
       | Inr entries \<Rightarrow> bnd (find_cert K D dir ?fp entries) (\<lambda>found. ret (found \<noteq> None))) ?Q"
  proof (cases r)
    case (Inl err)
    then show ?thesis by (auto intro!: gives_ret simp: listed_def)
  next
    case (Inr entries)
    have "gives (\<lambda>s. view (snd s) = V) (bnd (find_cert K D dir ?fp entries) (\<lambda>found. ret (found \<noteq> None))) ?Q"
      if "listed D view (V dir) (Inr entries)"
    proof (rule gives_bnd[OF find_cert_finds[OF assms]], rule gives_ret)
      fix found s assume "view (snd s) = V \<and> cert_found K D view (V dir) ?fp entries found"
      then have v: "view (snd s) = V" and f: "cert_found K D view (V dir) ?fp entries found" by auto
      have "found \<noteq> None \<Longrightarrow> Ex (holds_cert K (V dir) ?fp)" using f by (cases found) (auto simp: cert_found_def)
      moreover have "(found \<noteq> None) = Ex (holds_cert K (V dir) ?fp)" if "working_disk D view"
        using listed_found[OF that \<open>listed D view (V dir) (Inr entries)\<close> f] by simp
      ultimately show "?Q (found \<noteq> None) s" using v by simp
    qed
    then have "gives (\<lambda>s. listed D view (V dir) (Inr entries) \<and> view (snd s) = V)
      (bnd (find_cert K D dir ?fp entries) (\<lambda>found. ret (found \<noteq> None))) ?Q"
      by (rule gives_fact)
    then show ?thesis unfolding Inr by (simp add: conj_commute)
  qed
qed

section \<open>The decision is sound\<close>

text \<open>A certificate is saved in one directory; the others keep their files.\<close>

lemma save_cert_writes:
  fixes D :: "'w disk" and K :: "('w, 'k) pki"
  assumes "honest_disk D view"
  shows "gives (\<lambda>s :: 'c \<times> 'w. view (snd s) = V) (save_cert K D dir what cert)
    (\<lambda>r s. (\<forall>d. d \<noteq> dir \<longrightarrow> view (snd s) d = V d) \<and>
       (working_disk D view \<longrightarrow> view (snd s) dir = (V dir)(certFilename cert (calculateFingerprint K cert) \<mapsto> x_Raw cert)))"
  unfolding save_cert_def
proof (rule gives_bnd[where R = "\<lambda>r s. (\<forall>d. d \<noteq> dir \<longrightarrow> view (snd s) d = V d) \<and>
    (working_disk D view \<longrightarrow> view (snd s) dir = (V dir)(certFilename cert (calculateFingerprint K cert) \<mapsto> x_Raw cert))"])
  let ?n = "certFilename cert (calculateFingerprint K cert)"
  show "gives (\<lambda>s :: 'c \<times> 'w. view (snd s) = V) (call (dk_WriteFile D dir ?n (x_Raw cert)))
    (\<lambda>r s. (\<forall>d. d \<noteq> dir \<longrightarrow> view (snd s) d = V d) \<and> (working_disk D view \<longrightarrow> view (snd s) dir = (V dir)(?n \<mapsto> x_Raw cert)))"
  proof (rule gives_call)
    fix c :: 'c and w r w' assume "view (snd (c, w)) = V" "dk_WriteFile D dir ?n (x_Raw cert) w = (r, w')"
    then have w: "view w = V" "w' = snd (dk_WriteFile D dir ?n (x_Raw cert) w)" by simp_all
    have others: "(d, n) \<noteq> (dir, ?n) \<Longrightarrow> view w' d n = V d n" for d n
      using assms w by (simp add: honest_disk_def)
    moreover have "working_disk D view \<Longrightarrow> view w' dir ?n = Some (x_Raw cert)"
      using w by (simp add: working_disk_def)
    ultimately show "(\<forall>d. d \<noteq> dir \<longrightarrow> view (snd (c, w')) d = V d) \<and>
        (working_disk D view \<longrightarrow> view (snd (c, w')) dir = (V dir)(?n \<mapsto> x_Raw cert))"
      by (auto simp: fun_eq_iff)
  qed
qed (auto intro: gives_ret)

text \<open>What a validation without automatic trust leaves: the trusted files as they were, and acceptance only
  of a certificate whose fingerprint is among them.\<close>

lemma validation_gives:
  fixes D :: "'w disk" and K :: "('w, 'k) pki"
  assumes "honest_disk D view" "pk_ParseCertificate K certBytes = Inr cert" "certBytes \<noteq> []"
  shows "gives (\<lambda>s :: 'c \<times> 'w. view (snd s) = V) (ValidateServerCertificate K D certBytes False)
    (\<lambda>r s. view (snd s) TrustedDir = V TrustedDir \<and>
       (r = None \<longrightarrow> Ex (holds_cert K (V TrustedDir) (calculateFingerprint K cert))) \<and>
       (working_disk D view \<longrightarrow> Ex (holds_cert K (V TrustedDir) (calculateFingerprint K cert)) \<longrightarrow> r = None))"
proof -
  let ?fp = "calculateFingerprint K cert"
  let ?in = "\<lambda>dir. Ex (holds_cert K (V dir) ?fp)"
  let ?Q = "\<lambda>(r :: gerror option) (s :: 'c \<times> 'w). view (snd s) TrustedDir = V TrustedDir \<and> (r = None \<longrightarrow> ?in TrustedDir) \<and>
     (working_disk D view \<longrightarrow> ?in TrustedDir \<longrightarrow> r = None)"
  have save: "gives (\<lambda>s :: 'c \<times> 'w. view (snd s) = V) (bnd (RejectCert K D cert) (\<lambda>err. ret (Some e))) ?Q"
    if "working_disk D view \<Longrightarrow> \<not> ?in TrustedDir" for e
    unfolding RejectCert_def
    by (rule gives_bnd[OF save_cert_writes[OF assms(1)]]) (rule gives_ret, use that in auto)
  have rejected: "gives (\<lambda>s :: 'c \<times> 'w. view (snd s) = V)
      (bnd (IsRejected K D cert) (\<lambda>rejected. if rejected then ret (Some e) else bnd (RejectCert K D cert) (\<lambda>err. ret (Some e')))) ?Q"
    if "working_disk D view \<Longrightarrow> \<not> ?in TrustedDir" for e e'
    unfolding IsRejected_def
  proof (rule gives_bnd[OF is_in_answers[OF assms(1)]])
    fix r :: bool
    let ?R = "\<lambda>s :: 'c \<times> 'w. view (snd s) = V \<and> (r \<longrightarrow> ?in RejectedDir) \<and> (working_disk D view \<longrightarrow> r = ?in RejectedDir)"
    have "gives (\<lambda>s :: 'c \<times> 'w. view (snd s) = V) (ret (Some e)) ?Q" by (rule gives_ret) (use that in auto)
    with save[OF that] have "gives (\<lambda>s :: 'c \<times> 'w. view (snd s) = V)
        (if r then ret (Some e) else bnd (RejectCert K D cert) (\<lambda>err. ret (Some e'))) ?Q" by simp
    then show "gives ?R (if r then ret (Some e) else bnd (RejectCert K D cert) (\<lambda>err. ret (Some e'))) ?Q"
      by (rule gives_pre) simp
  qed
  have "gives (\<lambda>s :: 'c \<times> 'w. view (snd s) = V)
      (bnd (IsTrusted K D cert) (\<lambda>trusted. if trusted then ret None
        else bnd (IsRejected K D cert) (\<lambda>rejected. if rejected then ret (Some e)
          else bnd (RejectCert K D cert) (\<lambda>err. ret (Some e'))))) ?Q" for e e'
    unfolding IsTrusted_def
  proof (rule gives_bnd[OF is_in_answers[OF assms(1)]])
    fix r :: bool
    let ?body = "if r then ret None else bnd (IsRejected K D cert) (\<lambda>rejected. if rejected then ret (Some e)
          else bnd (RejectCert K D cert) (\<lambda>err. ret (Some e')))"
    have "gives (\<lambda>s :: 'c \<times> 'w. (r \<longrightarrow> ?in TrustedDir) \<and> (working_disk D view \<longrightarrow> r = ?in TrustedDir) \<and> view (snd s) = V) ?body ?Q"
      by (intro gives_fact) (use rejected in \<open>cases r; auto intro: gives_ret\<close>)
    then show "gives (\<lambda>s :: 'c \<times> 'w. view (snd s) = V \<and> (r \<longrightarrow> ?in TrustedDir) \<and> (working_disk D view \<longrightarrow> r = ?in TrustedDir)) ?body ?Q"
      by (rule gives_pre) simp
  qed
  then show ?thesis using assms(2,3) by (simp add: ValidateServerCertificate_def Let_def)
qed

text \<open>C34. Without automatic trust, validating a server's certificate returns, never changes the trusted
  files, and accepts only a certificate whose fingerprint is that of a trusted file; on a disk that works it
  accepts every such certificate.\<close>

theorem only_trusted_certificates_accepted:
  assumes "honest_disk D view" "pk_ParseCertificate K certBytes = Inr cert" "certBytes \<noteq> []"
  shows "\<exists>r s. ValidateServerCertificate K D certBytes False (c, w) = (Val r, s) \<and>
    view (snd s) TrustedDir = view w TrustedDir \<and>
    (r = None \<longrightarrow> (\<exists>name. holds_cert K (view w TrustedDir) (calculateFingerprint K cert) name)) \<and>
    (working_disk D view \<longrightarrow> (\<exists>name. holds_cert K (view w TrustedDir) (calculateFingerprint K cert) name) \<longrightarrow> r = None)"
proof -
  have "view (snd (c, w)) = view w" by simp
  from givesE[OF validation_gives[OF assms] this] show ?thesis by metis
qed

section \<open>Approval\<close>

text \<open>A directory that keeps its files in memory.\<close>

definition memory_disk :: "(cert_dir \<Rightarrow> (string \<times> bytes) list) disk" where
  "memory_disk =
     \<lparr>dk_ReadDir = (\<lambda>d w. (Inr (map (\<lambda>(n, content). (n, False)) (w d)), w)),
      dk_missing = (\<lambda>err. False),
      dk_ReadFile = (\<lambda>d n w. (case map_of (w d) n of Some content \<Rightarrow> Inr content | None \<Rightarrow> Inl (Text ''missing''), w)),
      dk_WriteFile = (\<lambda>d n content w. (None, w(d := AList.update n content (w d)))),
      dk_Rename = (\<lambda>d d' n w. case map_of (w d) n of
          None \<Rightarrow> (Some (Text ''missing''), w)
        | Some content \<Rightarrow> (None, w(d := AList.delete n (w d), d' := AList.update n content (w d')))),
      dk_Remove = (\<lambda>d n w. (None, w(d := AList.delete n (w d)))),
      dk_MkdirAll = (\<lambda>d w. (None, w)),
      dk_Now = (\<lambda>w. (0, w)),
      dk_AddDays = (\<lambda>n t. t + n * 86400000000000)\<rparr>"

definition memory_view :: "(cert_dir \<Rightarrow> (string \<times> bytes) list) \<Rightarrow> cert_dir \<Rightarrow> string \<rightharpoonup> bytes" where
  "memory_view w d = map_of (w d)"

lemma memory_disk_works: "working_disk memory_disk memory_view"
proof -
  have "honest_disk memory_disk memory_view"
    by (auto simp: honest_disk_def memory_disk_def memory_view_def update_conv split: option.splits)
  moreover have "\<exists>names. map (\<lambda>(n, content). (n, False)) (w d) = map (\<lambda>n. (n, False)) names \<and> set names = dom (map_of (w d))"
    for w :: "cert_dir \<Rightarrow> (string \<times> bytes) list" and d
    by (rule exI[of _ "map fst (w d)"]) (auto simp: dom_map_of_conv_image_fst)
  ultimately show ?thesis
    by (auto simp: working_disk_def memory_disk_def memory_view_def update_conv split: option.splits)
qed

text \<open>A store whose only trusted certificate is the byte 1, and certificates that are their own digest.\<close>

definition plain_cert :: "bytes \<Rightarrow> x509" where
  "plain_cert bs = \<lparr>x_Raw = bs, x_Subject = ''CN=plc'', x_CommonName = ''plc'', x_Issuer = ''CN=plc'', x_SerialNumber = ''1'',
     x_NotBefore = 0, x_NotAfter = 0, x_IsCA = False\<rparr>"

definition plain_pki :: "(cert_dir \<Rightarrow> (string \<times> bytes) list, unit) pki" where
  "plain_pki =
     \<lparr>pk_ReadFile = (\<lambda>f w. (Inl (Text ''missing''), w)), pk_Clean = (\<lambda>f. f), pk_pem = (\<lambda>bs. None),
      pk_ParseCertificate = (\<lambda>bs. Inr (plain_cert bs)), pk_ParsePKCS1 = (\<lambda>bs. Inr ()), pk_ParsePKCS8 = (\<lambda>bs. Inr None),
      pk_Sum256 = (\<lambda>bs. bs)\<rparr>"

definition plain_store :: "cert_dir \<Rightarrow> (string \<times> bytes) list" where
  "plain_store d = (if d = TrustedDir then [(''plc.der'', [1])] else [])"

lemma only_trusted_certificates_accepted_witness:
  "(\<exists>s. ValidateServerCertificate plain_pki memory_disk [1] False ((), plain_store) = (Val None, s)) \<and>
   (\<exists>e s. ValidateServerCertificate plain_pki memory_disk [2] False ((), plain_store) = (Val (Some e), s) \<and>
      memory_view (snd s) TrustedDir = memory_view plain_store TrustedDir)"
proof
  have honest: "honest_disk memory_disk memory_view" using memory_disk_works by (simp add: working_disk_def)
  have digits: "char_of (48 :: int) = CHR ''0''" "char_of (49 :: int) = CHR ''1''" "char_of (50 :: int) = CHR ''2''"
    by code_simp+
  have store: "holds_cert plain_pki (memory_view plain_store TrustedDir) fp name \<longleftrightarrow> name = ''plc.der'' \<and> fp = ''sha256:01''"
    for fp name
    by (auto simp: holds_cert_def memory_view_def plain_store_def parse_file_def plain_pki_def plain_cert_def
      calculateFingerprint_def hex_def hex_digit_def digits split: if_splits)
  have fps: "calculateFingerprint plain_pki (plain_cert [1]) = ''sha256:01''"
    "calculateFingerprint plain_pki (plain_cert [2]) = ''sha256:02''"
    by (simp_all add: calculateFingerprint_def plain_pki_def plain_cert_def hex_def hex_digit_def digits)
  have parse: "pk_ParseCertificate plain_pki bs = Inr (plain_cert bs)" for bs by (simp add: plain_pki_def)
  obtain r s where r: "ValidateServerCertificate plain_pki memory_disk [1] False ((), plain_store) = (Val r, s)"
    "(\<exists>name. holds_cert plain_pki (memory_view plain_store TrustedDir) (calculateFingerprint plain_pki (plain_cert [1])) name) \<longrightarrow> r = None"
    using only_trusted_certificates_accepted[OF honest parse[of "[1]"] list.distinct(2), of "()" plain_store] memory_disk_works by metis
  from r(2) have "r = None" unfolding fps store by simp
  with r(1) show "\<exists>s. ValidateServerCertificate plain_pki memory_disk [1] False ((), plain_store) = (Val None, s)" by blast
  obtain r' s' where r': "ValidateServerCertificate plain_pki memory_disk [2] False ((), plain_store) = (Val r', s')"
    "memory_view (snd s') TrustedDir = memory_view plain_store TrustedDir"
    "r' = None \<longrightarrow> (\<exists>name. holds_cert plain_pki (memory_view plain_store TrustedDir) (calculateFingerprint plain_pki (plain_cert [2])) name)"
    using only_trusted_certificates_accepted[OF honest parse[of "[2]"] list.distinct(2), of "()" plain_store] by metis
  from r'(3) obtain e where "r' = Some e" unfolding fps store by (cases r') auto
  with r'(1,2) show "\<exists>e s. ValidateServerCertificate plain_pki memory_disk [2] False ((), plain_store) = (Val (Some e), s) \<and>
      memory_view (snd s) TrustedDir = memory_view plain_store TrustedDir" by blast
qed

text \<open>Promoting by the fingerprint of a rejected file makes the certificate trusted.\<close>

lemma promotion_trusts:
  assumes "working_disk D view" "holds_cert K (view w RejectedDir) (normalizeFingerprint fingerprint) name"
  shows "\<exists>s. PromoteCert K D fingerprint (c, w) = (Val None, s) \<and>
    (\<exists>name. holds_cert K (view (snd s) TrustedDir) (normalizeFingerprint fingerprint) name)"
proof -
  let ?fp = "normalizeFingerprint fingerprint"
  have honest: "honest_disk D view" using assms(1) by (simp add: working_disk_def)
  have v: "view (snd (c, w)) = view w" by simp
  obtain r s where r: "call (dk_ReadDir D RejectedDir) (c, w) = (Val r, s)" "view (snd s) = view w"
    "listed D view (view w RejectedDir) r"
    using givesE[OF dir_is_listed[OF honest] v] by metis
  then obtain entries where e: "r = Inr entries" using assms(1) by (auto simp: listed_def)
  obtain found s' where f: "find_cert K D RejectedDir ?fp entries s = (Val found, s')" "view (snd s') = view w"
    "cert_found K D view (view w RejectedDir) ?fp entries found"
    using givesE[OF find_cert_finds[OF honest] r(2)] by metis
  obtain n where n: "found = Some n" "holds_cert K (view w RejectedDir) ?fp n"
    using listed_found[OF assms(1) r(3)[unfolded e] f(3)] assms(2) f(3) by (cases found) (auto simp: cert_found_def)
  then obtain content where content: "view (snd s') RejectedDir n = Some content" using f(2) by (auto simp: holds_cert_def)
  have rename: "fst (dk_Rename D RejectedDir TrustedDir n (snd s')) = None \<and>
      view (snd (dk_Rename D RejectedDir TrustedDir n (snd s'))) TrustedDir n = Some content"
    using assms(1) content unfolding working_disk_def by blast
  obtain w' where w': "dk_Rename D RejectedDir TrustedDir n (snd s') = (None, w')" "view w' TrustedDir n = Some content"
    using rename by (cases "dk_Rename D RejectedDir TrustedDir n (snd s')") auto
  have "PromoteCert K D fingerprint (c, w) = (Val None, (fst s', w'))"
  proof -
    obtain w1 where "dk_ReadDir D RejectedDir w = (Inr entries, w1)" and s: "s = (c, w1)"
      using r(1) e by (auto simp: call_def split: prod.splits)
    then show ?thesis
      using n(1) w'(1) by (cases s') (simp add: PromoteCert_def Let_def bnd_Val[where m = "find_cert K D RejectedDir ?fp entries", OF f(1)[unfolded s]] bnd_call ret_def)
  qed
  moreover have "holds_cert K (view w' TrustedDir) ?fp n"
    using n(2) content w'(2) f(2) by (auto simp: holds_cert_def)
  ultimately show ?thesis by auto
qed

section \<open>Certificates stay in the store\<close>

text \<open>A common name cannot name a file outside its directory.\<close>

lemma hex_digit_plain:
  assumes "0 \<le> n" "n < 16"
  shows "hex_digit n \<noteq> CHR ''/''"
proof
  assume "hex_digit n = CHR ''/''"
  then have "(of_char (hex_digit n) :: int) = of_char CHR ''/''" by simp
  then show False using assms by (auto simp: hex_digit_def split: if_splits)
qed

lemma hex_plain: "CHR ''/'' \<notin> set (hex bs)"
proof -
  have "hex_digit (uint b div 16) \<noteq> CHR ''/'' \<and> hex_digit (uint b mod 16) \<noteq> CHR ''/''" for b :: byte
  proof -
    have "uint b < 256" by (rule order.strict_trans2[OF uint_lt2p]) simp
    then have "uint b \<le> 255" by linarith
    then have "uint b div 16 \<le> 255 div 16" by (rule zdiv_mono1) simp
    then show ?thesis using hex_digit_plain[of "uint b div 16"] hex_digit_plain[of "uint b mod 16"]
      by (simp add: pos_imp_zdiv_nonneg_iff)
  qed
  then show ?thesis by (auto simp: hex_def dest: sym)
qed

lemma certFilename_stays_inside:
  "CHR ''/'' \<notin> set (certFilename cert (calculateFingerprint K cert)) \<and>
   certFilename cert (calculateFingerprint K cert) \<notin> {'''', ''.'', ''..''}"
proof -
  let ?fp = "calculateFingerprint K cert"
  have "set (take 8 (drop 7 ?fp)) \<subseteq> set (hex (pk_Sum256 K (x_Raw cert)))"
    by (auto simp: calculateFingerprint_def dest: in_set_takeD)
  then have "CHR ''/'' \<notin> set (take 8 (drop 7 ?fp))" using hex_plain by blast
  moreover have "CHR ''/'' \<notin> set (ReplaceAll (ReplaceAll s CHR ''/'' CHR ''_'') (char_of (92 :: nat)) CHR ''_'')" for s
    using set_ReplaceAll[of s "CHR ''/''" "CHR ''_''"]
      set_ReplaceAll[of "ReplaceAll s CHR ''/'' CHR ''_''" "char_of (92 :: nat)" "CHR ''_''"] by auto
  ultimately show ?thesis by (auto simp: certFilename_def Let_def append_eq_Cons_conv)
qed

end
