(* ===== verification/OpcuaClient.thy ===== *)
theory OpcuaClient
  imports OpcuaTrust GoHoare ModbusConversion
begin

text \<open>
  The OPC UA client of one server (\<open>adapter/opcua/client.go\<close>, \<open>conversion.go\<close>, \<open>types.go\<close>): its fields,
  the connection, node IDs and namespaces, conversion, and reading and writing with retries. The library
  \<open>gopcua\<close>, the clock, contexts, the random source and \<open>sync.Pool\<close> are the parameter \<open>ua_env\<close>, whose
  functions act on an abstract world; \<open>'n\<close> is a parsed node ID. A variant is the Go value it carries, one
  of the scalar types. Each method runs as one sequence: the client serialises its requests with \<open>opMu\<close>.
  Browsing is in \<open>OpcuaBrowse\<close>.
\<close>

unbundle bit_operations_syntax

section \<open>Fields\<close>

datatype session_state = SessionStateDisconnected | SessionStateConnecting | SessionStateSecureChannel
  | SessionStateActive | SessionStateError

record ua_stats =
  us_ReadCount :: u64
  us_WriteCount :: u64
  us_ErrorCount :: u64
  us_RetryCount :: u64
  us_SubscribeCount :: u64
  us_NotificationCount :: u64
  us_TotalReadTime :: int
  us_TotalWriteTime :: int

text \<open>
  \<open>ux_client\<close> and \<open>ux_trustStore\<close> say whether the field is not nil; a nil namespace array is empty.
\<close>

record 'n ua_client =
  ux_config :: ua_config
  ux_client :: bool
  ux_connected :: bool
  ux_sessionState :: session_state
  ux_lastError :: "gerror option"
  ux_lastUsed :: int
  ux_stats :: ua_stats
  ux_deviceID :: string
  ux_nodeCache :: "(string \<times> 'n) list"
  ux_namespaceMap :: "string \<rightharpoonup> u16"
  ux_namespaceArray :: "string list"
  ux_consecutiveFailures :: u32
  ux_trustStore :: bool
  ux_autoTrust :: bool

section \<open>What the client uses of the libraries\<close>

text \<open>A value as it is read, and as it is sent: only the parts its mask names are encoded.\<close>

record ua_value =
  uv_Value :: "goval option"
  uv_Status :: u32
  uv_SourceTimestamp :: int

record ua_written =
  uw_EncodingMask :: byte
  uw_Value :: goval
  uw_SourceTimestamp :: int

text \<open>
  \<open>ue_variant\<close> is the error of \<open>ua.NewVariant\<close>, if any; \<open>ue_jitter n\<close> is \<open>rand.Int64N\<close> for a positive
  \<open>n\<close>; \<open>ue_order\<close> is the order in which Go walks a map.
\<close>

record ('w, 'n, 'k) ua_env =
  ue_Now :: "'w \<Rightarrow> int \<times> 'w"
  ue_sleep :: "int \<Rightarrow> 'w \<Rightarrow> gerror option \<times> 'w"
  ue_jitter :: "int \<Rightarrow> 'w \<Rightarrow> int \<times> 'w"
  ue_poolGet :: "'w \<Rightarrow> data_point \<times> 'w"
  ue_pki :: "('w, 'k) pki"
  ue_disk :: "'w disk"
  ue_getEndpoints :: "ua_config \<Rightarrow> 'w \<Rightarrow> (gerror + endpoint list) \<times> 'w"
  ue_NewClient :: "string \<Rightarrow> 'k ua_option list \<Rightarrow> 'w \<Rightarrow> gerror option \<times> 'w"
  ue_Connect :: "int \<Rightarrow> 'w \<Rightarrow> gerror option \<times> 'w"
  ue_Close :: "'w \<Rightarrow> gerror option \<times> 'w"
  ue_NamespaceArray :: "'w \<Rightarrow> (gerror + string list) \<times> 'w"
  ue_Read :: "'n list \<Rightarrow> 'w \<Rightarrow> (gerror + ua_value list) \<times> 'w"
  ue_Write :: "('n \<times> ua_written) list \<Rightarrow> 'w \<Rightarrow> (gerror + u32 list) \<times> 'w"
  ue_ParseNodeID :: "string \<Rightarrow> gerror + 'n"
  ue_ParseExpandedNodeID :: "string \<Rightarrow> string list \<Rightarrow> gerror + 'n"
  ue_variant :: "goval \<Rightarrow> gerror option"
  ue_Sprint :: "goval \<Rightarrow> string"
  ue_arch :: arch
  ue_order :: "string list \<Rightarrow> 'w \<Rightarrow> string list \<times> 'w"

type_synonym ('w, 'n, 'a) ua = "('n ua_client \<times> 'w, 'a) prog"

definition StatusOK :: u32 where "StatusOK = 0"
definition StatusBad :: u32 where "StatusBad = 0x80000000"
definition StatusUncertain :: u32 where "StatusUncertain = 0x40000000"
definition DataValueValue :: byte where "DataValueValue = 1"

section \<open>Construction\<close>

definition ua_default :: "int \<Rightarrow> int \<Rightarrow> int" where
  "ua_default d n = (if n = 0 then d else n)"

definition ua_named :: "string \<Rightarrow> string \<Rightarrow> string" where
  "ua_named d s = (if s = '''' then d else s)"

definition ua_default_config :: "ua_config \<Rightarrow> ua_config" where
  "ua_default_config config =
     config\<lparr>oc_Timeout := ua_default 10000000000 (oc_Timeout config),
            oc_KeepAlive := ua_default 30000000000 (oc_KeepAlive config),
            oc_MaxRetries := ua_default 3 (oc_MaxRetries config),
            oc_RetryDelay := ua_default 500000000 (oc_RetryDelay config),
            oc_RequestTimeout := ua_default 5000000000 (oc_RequestTimeout config),
            oc_SessionTimeout := ua_default 1800000000000 (oc_SessionTimeout config),
            oc_SecurityPolicy := ua_named ''None'' (oc_SecurityPolicy config),
            oc_SecurityMode := ua_named ''None'' (oc_SecurityMode config),
            oc_AuthMode := ua_named ''Anonymous'' (oc_AuthMode config),
            oc_DefaultPublishingInterval := ua_default 1000000000 (oc_DefaultPublishingInterval config),
            oc_DefaultSamplingInterval := ua_default 500000000 (oc_DefaultSamplingInterval config),
            oc_DefaultQueueSize := (if oc_DefaultQueueSize config = 0 then 10 else oc_DefaultQueueSize config)\<rparr>"

definition ua_NewClient :: "string \<Rightarrow> ua_config \<Rightarrow> int \<Rightarrow> gerror + 'n ua_client" where
  "ua_NewClient deviceID config now =
     (if oc_EndpointURL config = '''' then Inl (Text ''OPC UA endpoint URL is required'')
      else Inr \<lparr>ux_config = ua_default_config config, ux_client = False, ux_connected = False,
                ux_sessionState = SessionStateDisconnected, ux_lastError = None, ux_lastUsed = now,
                ux_stats = \<lparr>us_ReadCount = 0, us_WriteCount = 0, us_ErrorCount = 0, us_RetryCount = 0,
                             us_SubscribeCount = 0, us_NotificationCount = 0, us_TotalReadTime = 0, us_TotalWriteTime = 0\<rparr>,
                ux_deviceID = deviceID, ux_nodeCache = [], ux_namespaceMap = Map.empty, ux_namespaceArray = [],
                ux_consecutiveFailures = 0, ux_trustStore = False, ux_autoTrust = False\<rparr>)"

section \<open>Namespaces\<close>

text \<open>A URI that occurs twice gets its last index; the index wraps to 16 bits.\<close>

definition namespace_map :: "string list \<Rightarrow> string \<rightharpoonup> u16" where
  "namespace_map uris = map_of (rev (zip uris (map word_of_nat [0..<length uris])))"

definition updateNamespaceTable :: "('w, 'n, 'k) ua_env \<Rightarrow> ('w, 'n, gerror option) ua" where
  "updateNamespaceTable E =
     bnd (field ux_client) (\<lambda>client.
     if \<not> client then ret (Some (Text ''client not connected''))
     else
       bnd (call (ue_NamespaceArray E)) (\<lambda>answer.
       case answer of
         Inl err \<Rightarrow> ret (Some (WrapW ''failed to fetch namespace array'' err))
       | Inr uris \<Rightarrow>
           bnd (upd (\<lambda>c. c\<lparr>ux_namespaceArray := uris, ux_namespaceMap := namespace_map uris\<rparr>)) (\<lambda>_. ret None)))"

definition RefreshNamespaceTable :: "('w, 'n, 'k) ua_env \<Rightarrow> ('w, 'n, gerror option) ua" where
  "RefreshNamespaceTable E = bnd (upd (ux_nodeCache_update (\<lambda>_. []))) (\<lambda>_. updateNamespaceTable E)"

definition GetNamespaceArray :: "'n ua_client \<Rightarrow> string list" where
  "GetNamespaceArray c = ux_namespaceArray c"

section \<open>Connection\<close>

definition ua_refuse :: "gerror \<Rightarrow> string \<Rightarrow> ('w, 'n, gerror + 'a) ua" where
  "ua_refuse err what =
     bnd (upd (\<lambda>c. c\<lparr>ux_lastError := Some err, ux_sessionState := SessionStateError\<rparr>)) (\<lambda>_.
     ret (Inl (WrapV (ConnE ErrConnectionFailed) (what @ error_text err))))"

text \<open>
  The options of the connection: from the endpoint that discovery selects, once the trust store accepts its
  certificate, or from the configuration, when discovery is off or fails.
\<close>

definition ua_options ::
  "('w, 'n, 'k) ua_env \<Rightarrow> ua_config \<Rightarrow> 'k security_config \<Rightarrow> ('w, 'n, gerror + 'k ua_option list) ua" where
  "ua_options E config sc =
     (if \<not> oc_AutoSelectEndpoint config then ret (Inr (BuildClientOptions sc))
      else
        bnd (DiscoverAndSelectEndpoint (ue_getEndpoints E) config) (\<lambda>discovered.
        case discovered of
          Inl err \<Rightarrow> ret (Inr (BuildClientOptions sc))
        | Inr ep \<Rightarrow>
            bnd (field (\<lambda>c. (ux_trustStore c, ux_autoTrust c))) (\<lambda>(trustStore, autoTrust).
            bnd (if trustStore \<and> ep_ServerCertificate ep \<noteq> []
                 then ValidateServerCertificate (ue_pki E) (ue_disk E) (ep_ServerCertificate ep) autoTrust
                 else ret None) (\<lambda>err.
            case err of
              Some e \<Rightarrow> ua_refuse e ''''
            | None \<Rightarrow> ret (Inr (BuildOptionsFromEndpoint ep sc))))))"

definition ua_dial :: "('w, 'n, 'k) ua_env \<Rightarrow> ua_config \<Rightarrow> 'k ua_option list \<Rightarrow> ('w, 'n, gerror option) ua" where
  "ua_dial E config opts =
     bnd (call (ue_NewClient E (oc_EndpointURL config)
       (opts @ [OptRequestTimeout (oc_RequestTimeout config), OptSessionTimeout (oc_SessionTimeout config)]))) (\<lambda>err.
     case err of
       Some e \<Rightarrow>
         bnd (upd (ux_lastError_update (\<lambda>_. Some e))) (\<lambda>_.
         ret (Some (WrapV (ConnE ErrConnectionFailed) (''failed to create client: '' @ error_text e))))
     | None \<Rightarrow>
         bnd (call (ue_Connect E (oc_Timeout config))) (\<lambda>err.
         case err of
           Some e \<Rightarrow>
             bnd (call (ue_Close E)) (\<lambda>_.
             bnd (ua_refuse e '''') (\<lambda>r. ret (case r of Inl err \<Rightarrow> Some err | Inr (u :: unit) \<Rightarrow> None)))
         | None \<Rightarrow>
             bnd (call (ue_Now E)) (\<lambda>now.
             bnd (upd (\<lambda>c. c\<lparr>ux_client := True, ux_connected := True, ux_sessionState := SessionStateActive,
                               ux_lastError := None, ux_lastUsed := now, ux_consecutiveFailures := 0\<rparr>)) (\<lambda>_.
             bnd (updateNamespaceTable E) (\<lambda>_.
             ret None)))))"

definition ua_Connect :: "('w, 'n, 'k) ua_env \<Rightarrow> ('w, 'n, gerror option) ua" where
  "ua_Connect E =
     bnd (field ux_connected) (\<lambda>connected.
     if connected then ret None
     else
       bnd (upd (ux_sessionState_update (\<lambda>_. SessionStateConnecting))) (\<lambda>_.
       bnd (field ux_config) (\<lambda>config.
       bnd (ValidateSecurityConfig (ue_pki E) config) (\<lambda>security.
       case security of
         Inl err \<Rightarrow>
           bnd (ua_refuse err ''security configuration error: '') (\<lambda>r.
           ret (case r of Inl err \<Rightarrow> Some err | Inr (u :: unit) \<Rightarrow> None))
       | Inr sc \<Rightarrow>
           bnd (ua_options E config sc) (\<lambda>opts.
           case opts of Inl err \<Rightarrow> ret (Some err) | Inr opts \<Rightarrow> ua_dial E config opts)))))"

definition ua_Disconnect :: "('w, 'n, 'k) ua_env \<Rightarrow> ('w, 'n, gerror option) ua" where
  "ua_Disconnect E =
     bnd (field ux_connected) (\<lambda>connected.
     if \<not> connected then ret None
     else
       bnd (field ux_client) (\<lambda>client.
       bnd (if client then call (ue_Close E) else ret None) (\<lambda>_.
       bnd (upd (\<lambda>c. c\<lparr>ux_connected := False, ux_sessionState := SessionStateDisconnected, ux_client := False,
                         ux_nodeCache := [], ux_namespaceMap := Map.empty, ux_namespaceArray := []\<rparr>)) (\<lambda>_.
       ret None))))"

definition ua_IsConnected :: "'n ua_client \<Rightarrow> bool" where
  "ua_IsConnected c = ux_connected c"

definition ua_GetSessionState :: "'n ua_client \<Rightarrow> session_state" where
  "ua_GetSessionState c = ux_sessionState c"

text \<open>\<open>TryLock\<close> succeeds: nothing else holds the lock in a sequence.\<close>

definition ua_reconnect :: "('w, 'n, 'k) ua_env \<Rightarrow> ('w, 'n, unit) ua" where
  "ua_reconnect E =
     bnd (field ux_connected) (\<lambda>connected.
     if connected then ret ()
     else
       bnd (upd (ux_sessionState_update (\<lambda>_. SessionStateConnecting))) (\<lambda>_.
       bnd (ua_Disconnect E) (\<lambda>_.
       bnd (ua_Connect E) (\<lambda>_. ret ()))))"

section \<open>Errors and counters\<close>

definition ua_isConnectionError :: "gerror \<Rightarrow> bool" where
  "ua_isConnectionError err \<longleftrightarrow>
     errors_is_eof err \<or>
     contains (error_text err)
       [''connection'', ''timeout'', ''closed'', ''refused'', ''reset'', ''broken pipe'', ''no route to host'']"

definition isTooManySessionsError :: "gerror \<Rightarrow> bool" where
  "isTooManySessionsError err =
     contains (error_text err) [''TooManySessions'', ''maximum number of sessions'', ''StatusBadTooManySessions'']"

definition ua_isRetryableError :: "gerror \<Rightarrow> bool" where
  "ua_isRetryableError err \<longleftrightarrow> \<not> isTooManySessionsError err \<and> ua_isConnectionError err"

definition ua_count :: "(ua_stats \<Rightarrow> ua_stats) \<Rightarrow> 'n ua_client \<Rightarrow> 'n ua_client" where
  "ua_count f c = c\<lparr>ux_stats := f (ux_stats c)\<rparr>"

definition ua_count_reads :: "nat \<Rightarrow> 'n ua_client \<Rightarrow> 'n ua_client" where
  "ua_count_reads n = ua_count (\<lambda>st. st\<lparr>us_ReadCount := us_ReadCount st + word_of_nat n\<rparr>)"

definition ua_count_write :: "'n ua_client \<Rightarrow> 'n ua_client" where
  "ua_count_write = ua_count (\<lambda>st. st\<lparr>us_WriteCount := us_WriteCount st + 1\<rparr>)"

definition ua_count_error :: "'n ua_client \<Rightarrow> 'n ua_client" where
  "ua_count_error = ua_count (\<lambda>st. st\<lparr>us_ErrorCount := us_ErrorCount st + 1\<rparr>)"

definition ua_count_retry :: "'n ua_client \<Rightarrow> 'n ua_client" where
  "ua_count_retry = ua_count (\<lambda>st. st\<lparr>us_RetryCount := us_RetryCount st + 1\<rparr>)"

definition ua_add_read_time :: "int \<Rightarrow> 'n ua_client \<Rightarrow> 'n ua_client" where
  "ua_add_read_time d = ua_count (\<lambda>st. st\<lparr>us_TotalReadTime := wrap64 (us_TotalReadTime st + d)\<rparr>)"

definition ua_add_write_time :: "int \<Rightarrow> 'n ua_client \<Rightarrow> 'n ua_client" where
  "ua_add_write_time d = ua_count (\<lambda>st. st\<lparr>us_TotalWriteTime := wrap64 (us_TotalWriteTime st + d)\<rparr>)"

definition ua_GetStats :: "'n ua_client \<Rightarrow> string \<rightharpoonup> u64" where
  "ua_GetStats c =
     (let st = ux_stats c in
      [''read_count'' \<mapsto> us_ReadCount st, ''write_count'' \<mapsto> us_WriteCount st, ''error_count'' \<mapsto> us_ErrorCount st,
       ''retry_count'' \<mapsto> us_RetryCount st, ''subscribe_count'' \<mapsto> us_SubscribeCount st,
       ''notification_count'' \<mapsto> us_NotificationCount st,
       ''total_read_ns'' \<mapsto> word_of_int (us_TotalReadTime st), ''total_write_ns'' \<mapsto> word_of_int (us_TotalWriteTime st)])"

definition ua_timed ::
  "('w, 'n, 'k) ua_env \<Rightarrow> (int \<Rightarrow> 'n ua_client \<Rightarrow> 'n ua_client) \<Rightarrow> ('w, 'n, 'a) ua \<Rightarrow> ('w, 'n, 'a) ua" where
  "ua_timed E add body =
     bnd (call (ue_Now E)) (\<lambda>startTime.
     deferred body (bnd (call (ue_Now E)) (\<lambda>now. upd (add (time_Sub now startTime)))))"

definition ua_touch :: "('w, 'n, 'k) ua_env \<Rightarrow> ('w, 'n, unit) ua" where
  "ua_touch E = bnd (call (ue_Now E)) (\<lambda>now. upd (ux_lastUsed_update (\<lambda>_. now)))"

definition ua_closed :: gerror where
  "ua_closed = Sentinel (ConnE ErrConnectionClosed)"

section \<open>Node IDs\<close>

definition parseExpandedNodeID :: "('w, 'n, 'k) ua_env \<Rightarrow> string list \<Rightarrow> string \<Rightarrow> gerror + 'n" where
  "parseExpandedNodeID E uris nodeIDStr =
     (if uris = [] then Inl (Text ''namespace table not available, cannot resolve URI-based NodeID'')
      else ue_ParseExpandedNodeID E nodeIDStr uris)"

definition resolveNamespaceURI :: "'n ua_client \<Rightarrow> string \<Rightarrow> gerror + u16" where
  "resolveNamespaceURI c uri =
     (case ux_namespaceMap c uri of
        Some idx \<Rightarrow> Inr idx
      | None \<Rightarrow> Inl (Text (''namespace URI '' @ quote uri @ '' not found in server's namespace table'')))"

text \<open>The part after the first semicolon, when there is one.\<close>

definition after_semicolon :: "string \<Rightarrow> string" where
  "after_semicolon s = (if CHR '';'' \<in> set s then drop 1 (dropWhile (\<lambda>ch. ch \<noteq> CHR '';'') s) else s)"

definition buildNodeIDWithNamespace :: "string \<Rightarrow> u16 \<Rightarrow> string" where
  "buildNodeIDWithNamespace nodeIDStr nsIndex =
     (let rest = (if prefix ''ns='' nodeIDStr \<or> prefix ''nsu='' nodeIDStr then after_semicolon nodeIDStr else nodeIDStr)
      in ''ns='' @ dec (uint nsIndex) @ '';'' @ rest)"

definition maxNodeCacheSize :: nat where
  "maxNodeCacheSize = 50000"

text \<open>A full cache loses a tenth of its entries, the first of the walk.\<close>

definition make_room :: "('w, 'n, 'k) ua_env \<Rightarrow> ('w, 'n, unit) ua" where
  "make_room E =
     bnd (field (\<lambda>c. map fst (ux_nodeCache c))) (\<lambda>keys.
     if length keys < maxNodeCacheSize then ret ()
     else
       bnd (call (ue_order E keys)) (\<lambda>keys.
       upd (ux_nodeCache_update (filter (\<lambda>(key, n). key \<notin> set (take (maxNodeCacheSize div 10) keys))))))"

definition getNodeID :: "('w, 'n, 'k) ua_env \<Rightarrow> string \<Rightarrow> ('w, 'n, gerror + 'n) ua" where
  "getNodeID E nodeIDStr =
     bnd (field (\<lambda>c. (map_of (ux_nodeCache c) nodeIDStr, ux_namespaceArray c))) (\<lambda>(cached, uris).
     case cached of
       Some n \<Rightarrow> ret (Inr n)
     | None \<Rightarrow>
         (case (if prefix ''nsu='' nodeIDStr then parseExpandedNodeID E uris nodeIDStr else ue_ParseNodeID E nodeIDStr) of
            Inl err \<Rightarrow>
              ret (Inl (WrapV (OpcuaE ErrOPCUAInvalidNodeID) (''invalid node ID '' @ nodeIDStr @ '': '' @ error_text err)))
          | Inr n \<Rightarrow>
              bnd (make_room E) (\<lambda>_.
              bnd (upd (ux_nodeCache_update (AList.update nodeIDStr n))) (\<lambda>_.
              ret (Inr n)))))"

definition getNodeIDForTag :: "('w, 'n, 'k) ua_env \<Rightarrow> tag \<Rightarrow> ('w, 'n, gerror + 'n) ua" where
  "getNodeIDForTag E t =
     (if tag_OPCNamespaceURI t = '''' then getNodeID E (tag_OPCNodeID t)
      else
        bnd (field (\<lambda>c. resolveNamespaceURI c (tag_OPCNamespaceURI t))) (\<lambda>idx.
        case idx of
          Inl err \<Rightarrow> ret (Inl (WrapW (''failed to resolve namespace URI '' @ quote (tag_OPCNamespaceURI t)) err))
        | Inr idx \<Rightarrow> getNodeID E (buildNodeIDWithNamespace (tag_OPCNodeID t) idx)))"

section \<open>Conversion\<close>

definition ua_applyScaling :: "goval \<Rightarrow> tag \<Rightarrow> goval" where
  "ua_applyScaling v t =
     (if unscaled t then v
      else case toFloat64 v of
        None \<Rightarrow> v
      | Some f \<Rightarrow> VFloat64 (f64_add (f64_mul f (tag_ScaleFactor t)) (tag_Offset t)))"

definition ua_reverseScaling :: "goval \<Rightarrow> tag \<Rightarrow> goval" where
  "ua_reverseScaling v t =
     (if f64_eq (tag_ScaleFactor t) f64_zero \<or> unscaled t then v
      else case toFloat64 v of
        None \<Rightarrow> v
      | Some f \<Rightarrow> VFloat64 (f64_div (f64_sub f (tag_Offset t)) (tag_ScaleFactor t)))"

definition statusCodeToQuality :: "u32 \<Rightarrow> quality" where
  "statusCodeToQuality status =
     (if status = StatusOK then QualityGood
      else if status = StatusBad then QualityBad
      else if status = StatusUncertain then QualityUncertain
      else if status AND 0x80000000 \<noteq> 0 then QualityBad
      else if status AND 0x40000000 \<noteq> 0 then QualityUncertain
      else QualityGood)"

definition no_conversion :: "goval \<Rightarrow> string \<Rightarrow> gerror" where
  "no_conversion v target = Text (''cannot convert '' @ type_name v @ '' to '' @ target)"

definition ua_convert :: "('w, 'n, 'k) ua_env \<Rightarrow> goval \<Rightarrow> tag \<Rightarrow> gerror + goval" where
  "ua_convert E v t =
     (let to_int = (\<lambda>name f. case toInt64 (ue_arch E) v of None \<Rightarrow> Inl (no_conversion v name) | Some i \<Rightarrow> Inr (f i))
      in case tag_DataType t of
           DataTypeBool \<Rightarrow> (case toBool v of None \<Rightarrow> Inl (no_conversion v ''bool'') | Some b \<Rightarrow> Inr (VBool b))
         | DataTypeInt16 \<Rightarrow> to_int ''int16'' (\<lambda>i. VInt16 (ucast i))
         | DataTypeUInt16 \<Rightarrow> to_int ''uint16'' (\<lambda>i. VUint16 (ucast i))
         | DataTypeInt32 \<Rightarrow> to_int ''int32'' (\<lambda>i. VInt32 (ucast i))
         | DataTypeUInt32 \<Rightarrow> to_int ''uint32'' (\<lambda>i. VUint32 (ucast i))
         | DataTypeInt64 \<Rightarrow> to_int ''int64'' VInt64
         | DataTypeUInt64 \<Rightarrow>
             (case toUint64 (ue_arch E) v of None \<Rightarrow> Inl (no_conversion v ''uint64'') | Some i \<Rightarrow> Inr (VUint64 i))
         | DataTypeFloat32 \<Rightarrow>
             (case toFloat64 v of None \<Rightarrow> Inl (no_conversion v ''float32'') | Some f \<Rightarrow> Inr (VFloat32 (f32_of_f64 f)))
         | DataTypeFloat64 \<Rightarrow>
             (case toFloat64 v of None \<Rightarrow> Inl (no_conversion v ''float64'') | Some f \<Rightarrow> Inr (VFloat64 f))
         | DataTypeString \<Rightarrow> Inr (VString (case v of VString s \<Rightarrow> s | _ \<Rightarrow> ue_Sprint E v))
         | _ \<Rightarrow> Inr v)"

definition valueToVariant :: "('w, 'n, 'k) ua_env \<Rightarrow> goval \<Rightarrow> tag \<Rightarrow> gerror + goval" where
  "valueToVariant E value t =
     (case ua_convert E (ua_reverseScaling value t) t of
        Inl err \<Rightarrow> Inl err
      | Inr v \<Rightarrow> (case ue_variant E v of Some err \<Rightarrow> Inl err | None \<Rightarrow> Inr v))"

section \<open>Points\<close>

definition ua_acquire :: "('w, 'n, 'k) ua_env \<Rightarrow> tag \<Rightarrow> goval \<Rightarrow> quality \<Rightarrow> ('w, 'n, data_point) ua" where
  "ua_acquire E t value q =
     bnd (field ux_deviceID) (\<lambda>deviceID.
     bnd (call (ue_poolGet E)) (\<lambda>pooled.
     bnd (call (ue_Now E)) (\<lambda>now.
     ret (AcquireDataPoint pooled now deviceID (tag_ID t) '''' value (tag_Unit t) q))))"

definition ua_createErrorDataPoint :: "('w, 'n, 'k) ua_env \<Rightarrow> tag \<Rightarrow> gerror \<Rightarrow> ('w, 'n, data_point) ua" where
  "ua_createErrorDataPoint E t err =
     ua_acquire E t VNil (if ua_isConnectionError err then QualityNotConnected else QualityBad)"

definition processReadResult :: "('w, 'n, 'k) ua_env \<Rightarrow> ua_value \<Rightarrow> tag \<Rightarrow> ('w, 'n, data_point) ua" where
  "processReadResult E result t =
     (let q = statusCodeToQuality (uv_Status result) in
      if q \<noteq> QualityGood then ua_acquire E t VNil q
      else
        let value = (case uv_Value result of None \<Rightarrow> VNil | Some v \<Rightarrow> v) in
        bnd (ua_acquire E t (ua_applyScaling value t) q) (\<lambda>dp.
        let dp = WithPriority (WithRawValue dp value) (tag_Priority t) in
        ret (if uv_SourceTimestamp result = zero_time then dp
             else WithSourceTimestamp dp (uv_SourceTimestamp result))))"

section \<open>Reading and writing one node\<close>

definition ua_failure :: "('w, 'n, unit) ua" where
  "ua_failure = upd (ux_consecutiveFailures_update (\<lambda>n. n + 1))"

definition ua_success :: "('w, 'n, unit) ua" where
  "ua_success = upd (ux_consecutiveFailures_update (\<lambda>_. 0))"

definition readNode :: "('w, 'n, 'k) ua_env \<Rightarrow> 'n \<Rightarrow> tag \<Rightarrow> ('w, 'n, gerror + data_point) ua" where
  "readNode E n t =
     bnd (field ux_client) (\<lambda>client.
     if \<not> client then ret (Inl ua_closed)
     else
       bnd (call (ue_Read E [n])) (\<lambda>answer.
       case answer of
         Inl err \<Rightarrow> bnd ua_failure (\<lambda>_. ret (Inl (WrapV (RWE ErrReadFailed) (error_text err))))
       | Inr [] \<Rightarrow> ret (Inl (WrapV (RWE ErrReadFailed) ''no results returned''))
       | Inr (result # _) \<Rightarrow>
           bnd ua_success (\<lambda>_.
           bnd (processReadResult E result t) (\<lambda>dp. ret (Inr dp)))))"

definition bad_write_status :: "u32 \<Rightarrow> gerror" where
  "bad_write_status status = WrapV (RWE ErrWriteFailed) (''status code '' @ dec (uint status))"

definition writeNode :: "('w, 'n, 'k) ua_env \<Rightarrow> 'n \<Rightarrow> goval \<Rightarrow> ('w, 'n, gerror option) ua" where
  "writeNode E n variant =
     bnd (field ux_client) (\<lambda>client.
     if \<not> client then ret (Some ua_closed)
     else
       bnd (call (ue_Write E [(n, \<lparr>uw_EncodingMask = DataValueValue, uw_Value = variant, uw_SourceTimestamp = zero_time\<rparr>)]))
         (\<lambda>answer.
       case answer of
         Inl err \<Rightarrow> bnd ua_failure (\<lambda>_. ret (Some (WrapV (RWE ErrWriteFailed) (error_text err))))
       | Inr [] \<Rightarrow> ret (Some (WrapV (RWE ErrWriteFailed) ''no results returned''))
       | Inr (status # _) \<Rightarrow>
           if status \<noteq> StatusOK then bnd ua_failure (\<lambda>_. ret (Some (bad_write_status status)))
           else bnd ua_success (\<lambda>_. ret None)))"

section \<open>One tag, with retries\<close>

text \<open>\<open>rand.Int64N\<close> panics unless its argument is positive.\<close>

definition ua_calculateBackoff :: "('w, 'n, 'k) ua_env \<Rightarrow> nat \<Rightarrow> ('w, 'n, int) ua" where
  "ua_calculateBackoff E attempt =
     bnd (field (\<lambda>c. oc_RetryDelay (ux_config c))) (\<lambda>retryDelay.
     let delay = wrap64 (retryDelay * wrap64 (2 ^ attempt));
         delay = (if 10000000000 < delay then 10000000000 else delay)
     in if tdiv delay 2 \<le> 0 then panic ''invalid argument to Int64N''
        else bnd (call (ue_jitter E (tdiv delay 2))) (\<lambda>jitter. ret (wrap64 (delay + (jitter - tdiv delay 4)))))"

definition ua_attempts :: "ua_config \<Rightarrow> nat list" where
  "ua_attempts config = [0..<nat (oc_MaxRetries config + 1)]"

definition ua_retry_wait :: "('w, 'n, 'k) ua_env \<Rightarrow> nat \<Rightarrow> ('w, 'n, gerror option) ua" where
  "ua_retry_wait E attempt =
     (if 0 < attempt then
        bnd (upd ua_count_retry) (\<lambda>_.
        bnd (ua_calculateBackoff E attempt) (\<lambda>delay.
        call (ue_sleep E delay)))
      else ret None)"

text \<open>How a retry loop is left: cancelled, with an error that is not retried, done, or with its last error.\<close>

datatype 'a ua_exit = UaCancelled gerror | UaFatal gerror | UaDone 'a | UaSpent "gerror option"

fun ua_retry ::
  "('w, 'n, 'k) ua_env \<Rightarrow> ('w, 'n, gerror + 'a) ua \<Rightarrow> gerror option \<Rightarrow> nat list \<Rightarrow> ('w, 'n, 'a ua_exit) ua" where
  "ua_retry E body prior [] = ret (UaSpent prior)"
| "ua_retry E body prior (attempt # rest) =
     bnd (ua_retry_wait E attempt) (\<lambda>cancelled.
     case cancelled of
       Some e \<Rightarrow> ret (UaCancelled e)
     | None \<Rightarrow>
         bnd body (\<lambda>result.
         case result of
           Inr a \<Rightarrow> ret (UaDone a)
         | Inl e \<Rightarrow>
             if \<not> ua_isRetryableError e then ret (UaFatal e)
             else bnd (if ua_isConnectionError e then ua_reconnect E else ret ()) (\<lambda>_.
               ua_retry E body (Some e) rest)))"

definition ua_read_failed :: "('w, 'n, 'k) ua_env \<Rightarrow> tag \<Rightarrow> gerror \<Rightarrow> ('w, 'n, data_point option \<times> gerror option) ua" where
  "ua_read_failed E t err =
     bnd (upd ua_count_error) (\<lambda>_.
     bnd (ua_createErrorDataPoint E t err) (\<lambda>dp. ret (Some dp, Some err)))"

definition ua_ReadTag :: "('w, 'n, 'k) ua_env \<Rightarrow> tag \<Rightarrow> ('w, 'n, data_point option \<times> gerror option) ua" where
  "ua_ReadTag E t =
     ua_timed E ua_add_read_time (
     bnd (ua_touch E) (\<lambda>_.
     bnd (field ux_connected) (\<lambda>connected.
     if \<not> connected then ret (None, Some ua_closed)
     else
       bnd (getNodeIDForTag E t) (\<lambda>node.
       case node of
         Inl err \<Rightarrow> ua_read_failed E t err
       | Inr n \<Rightarrow>
           bnd (field ux_config) (\<lambda>config.
           bnd (ua_retry E (readNode E n t) None (ua_attempts config)) (\<lambda>left.
           case left of
             UaCancelled e \<Rightarrow> ret (None, Some e)
           | UaFatal e \<Rightarrow> ua_read_failed E t e
           | UaSpent (Some e) \<Rightarrow> ua_read_failed E t e
           | UaSpent None \<Rightarrow> bnd (upd (ua_count_reads 1)) (\<lambda>_. ret (None, None))
           | UaDone dp \<Rightarrow> bnd (upd (ua_count_reads 1)) (\<lambda>_. ret (Some dp, None))))))))"

definition ua_not_writable :: "tag \<Rightarrow> gerror" where
  "ua_not_writable t = WrapV (RWE ErrWriteFailed) (''tag '' @ tag_ID t @ '' is not writable'')"

definition ua_write_body :: "('w, 'n, 'k) ua_env \<Rightarrow> 'n \<Rightarrow> goval \<Rightarrow> ('w, 'n, gerror + unit) ua" where
  "ua_write_body E n variant =
     bnd (writeNode E n variant) (\<lambda>err. ret (case err of Some e \<Rightarrow> Inl e | None \<Rightarrow> Inr ()))"

definition ua_WriteTag :: "('w, 'n, 'k) ua_env \<Rightarrow> tag \<Rightarrow> goval \<Rightarrow> ('w, 'n, gerror option) ua" where
  "ua_WriteTag E t value =
     ua_timed E ua_add_write_time (
     bnd (ua_touch E) (\<lambda>_.
     bnd (field ux_connected) (\<lambda>connected.
     if \<not> connected then ret (Some ua_closed)
     else if \<not> IsWritable t then ret (Some (ua_not_writable t))
     else
       bnd (getNodeIDForTag E t) (\<lambda>node.
       case node of
         Inl err \<Rightarrow> bnd (upd ua_count_error) (\<lambda>_. ret (Some err))
       | Inr n \<Rightarrow>
           (case valueToVariant E value t of
              Inl err \<Rightarrow>
                bnd (upd ua_count_error) (\<lambda>_. ret (Some (WrapV (RWE ErrWriteFailed) (error_text err))))
            | Inr variant \<Rightarrow>
                bnd (field ux_config) (\<lambda>config.
                bnd (ua_retry E (ua_write_body E n variant) None (ua_attempts config)) (\<lambda>left.
                case left of
                  UaCancelled e \<Rightarrow> ret (Some e)
                | UaFatal e \<Rightarrow> bnd (upd ua_count_error) (\<lambda>_. ret (Some e))
                | UaSpent (Some e) \<Rightarrow> bnd (upd ua_count_error) (\<lambda>_. ret (Some e))
                | UaSpent None \<Rightarrow> bnd (upd ua_count_write) (\<lambda>_. ret None)
                | UaDone u \<Rightarrow> bnd (upd ua_count_write) (\<lambda>_. ret None))))))))"

section \<open>Many tags\<close>

text \<open>The tags whose node ID resolves, with it, in order; the others are skipped.\<close>

fun resolve_tags :: "('w, 'n, 'k) ua_env \<Rightarrow> tag list \<Rightarrow> ('w, 'n, ('n \<times> tag) list) ua" where
  "resolve_tags E [] = ret []"
| "resolve_tags E (t # ts) =
     bnd (getNodeIDForTag E t) (\<lambda>node.
     bnd (resolve_tags E ts) (\<lambda>rest.
     ret (case node of Inl err \<Rightarrow> rest | Inr n \<Rightarrow> (n, t) # rest)))"

fun process_results :: "('w, 'n, 'k) ua_env \<Rightarrow> ua_value list \<Rightarrow> tag list \<Rightarrow> ('w, 'n, data_point list) ua" where
  "process_results E (result # results) (t # ts) =
     bnd (processReadResult E result t) (\<lambda>dp.
     bnd (process_results E results ts) (\<lambda>dps. ret (dp # dps)))"
| "process_results E results ts = ret []"

definition ua_ReadTags :: "('w, 'n, 'k) ua_env \<Rightarrow> tag list \<Rightarrow> ('w, 'n, gerror + data_point list) ua" where
  "ua_ReadTags E tags =
     (if tags = [] then ret (Inr [])
      else
        bnd (ua_touch E) (\<lambda>_.
        bnd (field ux_connected) (\<lambda>connected.
        if \<not> connected then ret (Inl ua_closed)
        else
          bnd (resolve_tags E tags) (\<lambda>valid.
          if valid = [] then ret (Inr [])
          else
            bnd (field ux_client) (\<lambda>client.
            if \<not> client then ret (Inl ua_closed)
            else
              bnd (call (ue_Read E (map fst valid))) (\<lambda>answer.
              case answer of
                Inl err \<Rightarrow>
                  bnd (upd ua_count_error) (\<lambda>_. ret (Inl (WrapV (RWE ErrReadFailed) (error_text err))))
              | Inr results \<Rightarrow>
                  bnd (process_results E results (map snd valid)) (\<lambda>dps.
                  bnd (upd (ua_count_reads (length dps))) (\<lambda>_. ret (Inr dps)))))))))"

record tag_write =
  tw_Tag :: tag
  tw_Value :: goval

text \<open>What becomes of one write: its error, or the node and the value to send.\<close>

definition prepare_write :: "('w, 'n, 'k) ua_env \<Rightarrow> tag_write \<Rightarrow> ('w, 'n, gerror + 'n \<times> ua_written) ua" where
  "prepare_write E wr =
     (if \<not> IsWritable (tw_Tag wr) then ret (Inl (ua_not_writable (tw_Tag wr)))
      else
        bnd (getNodeIDForTag E (tw_Tag wr)) (\<lambda>node.
        case node of
          Inl err \<Rightarrow> ret (Inl err)
        | Inr n \<Rightarrow>
            (case valueToVariant E (tw_Value wr) (tw_Tag wr) of
               Inl err \<Rightarrow> ret (Inl err)
             | Inr variant \<Rightarrow>
                 bnd (call (ue_Now E)) (\<lambda>now.
                 ret (Inr (n, \<lparr>uw_EncodingMask = 0, uw_Value = variant, uw_SourceTimestamp = now\<rparr>))))))"

fun prepare_ua_writes :: "('w, 'n, 'k) ua_env \<Rightarrow> tag_write list \<Rightarrow> ('w, 'n, (gerror + 'n \<times> ua_written) list) ua" where
  "prepare_ua_writes E [] = ret []"
| "prepare_ua_writes E (wr # wrs) =
     bnd (prepare_write E wr) (\<lambda>p. bnd (prepare_ua_writes E wrs) (\<lambda>ps. ret (p # ps)))"

text \<open>
  The statuses go to the prepared writes in order; those past the statuses have no error.
\<close>

fun settle_writes :: "u32 list \<Rightarrow> (gerror + 'n \<times> ua_written) list \<Rightarrow> gerror option list" where
  "settle_writes sts [] = []"
| "settle_writes sts (Inl err # ps) = Some err # settle_writes sts ps"
| "settle_writes [] (Inr p # ps) = None # settle_writes [] ps"
| "settle_writes (status # sts) (Inr p # ps) =
     (if status \<noteq> StatusOK then Some (bad_write_status status) else None) # settle_writes sts ps"

definition count_statuses :: "u32 list \<Rightarrow> 'n ua_client \<Rightarrow> 'n ua_client" where
  "count_statuses = fold (\<lambda>status. if status \<noteq> StatusOK then ua_count_error else ua_count_write)"

definition fail_writes :: "gerror \<Rightarrow> (gerror + 'n \<times> ua_written) list \<Rightarrow> gerror option list" where
  "fail_writes err = map (\<lambda>p. case p of Inl e \<Rightarrow> Some e | Inr _ \<Rightarrow> Some err)"

definition ua_WriteTags :: "('w, 'n, 'k) ua_env \<Rightarrow> tag_write list \<Rightarrow> ('w, 'n, gerror option list) ua" where
  "ua_WriteTags E writes =
     (if writes = [] then ret []
      else
        bnd (ua_touch E) (\<lambda>_.
        bnd (field ux_connected) (\<lambda>connected.
        if \<not> connected then ret (map (\<lambda>_. Some ua_closed) writes)
        else
          bnd (prepare_ua_writes E writes) (\<lambda>ps.
          let nodes = [p. Inr p \<leftarrow> ps] in
          if nodes = [] then ret (settle_writes [] ps)
          else
            bnd (field ux_client) (\<lambda>client.
            if \<not> client then ret (fail_writes ua_closed ps)
            else
              bnd (call (ue_Write E nodes)) (\<lambda>answer.
              case answer of
                Inl err \<Rightarrow>
                  bnd (upd ua_count_error) (\<lambda>_. ret (fail_writes (WrapV (RWE ErrWriteFailed) (error_text err)) ps))
              | Inr sts \<Rightarrow>
                  bnd (upd (count_statuses (take (length nodes) sts))) (\<lambda>_. ret (settle_writes sts ps))))))))"

end
