(* ===== verification/OpcuaClientProps.thy ===== *)
theory OpcuaClientProps
  imports OpcuaClient
begin

text \<open>
  What the operations of a connected OPC UA client leave alone, and that such a client never dials again.
  \<open>alike\<close> compares two programs on connected clients.
\<close>

section \<open>The fields of the connection agree\<close>

definition ua_sound :: "'n ua_client \<Rightarrow> bool" where
  "ua_sound c \<longleftrightarrow> ux_connected c = ux_client c \<and> (ux_connected c \<longrightarrow> ux_sessionState c = SessionStateActive)"

text \<open>What the operations of a connected client leave alone.\<close>

definition same_link :: "'n ua_client \<Rightarrow> 'n ua_client \<Rightarrow> bool" where
  "same_link c c' \<longleftrightarrow>
     ux_config c' = ux_config c \<and> ux_client c' = ux_client c \<and> ux_connected c' = ux_connected c \<and>
     ux_sessionState c' = ux_sessionState c \<and> ux_namespaceMap c' = ux_namespaceMap c \<and>
     ux_namespaceArray c' = ux_namespaceArray c \<and> ux_trustStore c' = ux_trustStore c \<and> ux_deviceID c' = ux_deviceID c"

abbreviation keeps_link :: "'n ua_client \<Rightarrow> ('w, 'n, 'a) ua \<Rightarrow> bool" where
  "keeps_link c m \<equiv> preserves (on_client (same_link c)) m"

lemma link_updates [preserving]:
  "keeps_link c (upd (ux_lastUsed_update f1))" "keeps_link c (upd (ux_nodeCache_update f2))"
  "keeps_link c (upd (ux_consecutiveFailures_update f3))" "keeps_link c (upd (ua_count_reads n))"
  "keeps_link c (upd ua_count_write)" "keeps_link c (upd ua_count_error)" "keeps_link c (upd ua_count_retry)"
  "keeps_link c (upd (ua_add_read_time i))" "keeps_link c (upd (ua_add_write_time i))"
  by (intro on_client_upd; simp add: same_link_def ua_count_reads_def ua_count_write_def ua_count_error_def
    ua_count_retry_def ua_add_read_time_def ua_add_write_time_def ua_count_def)+

lemma count_statuses_link [preserving]: "keeps_link c (upd (count_statuses sts))"
proof (rule on_client_upd)
  fix d
  assume "same_link c d"
  then show "same_link c (count_statuses sts d)"
    unfolding count_statuses_def
    by (induction sts arbitrary: d) (auto simp: same_link_def ua_count_error_def ua_count_write_def ua_count_def)
qed

lemma link_small [preserving]:
  "keeps_link c (ua_touch E)" "keeps_link c ua_failure" "keeps_link c ua_success"
  "keeps_link c (ua_acquire E t v q)" "keeps_link c (ua_createErrorDataPoint E t err)"
  "keeps_link c (ua_calculateBackoff E n)" "keeps_link c (make_room E)"
  unfolding ua_touch_def ua_failure_def ua_success_def ua_acquire_def ua_createErrorDataPoint_def
    ua_calculateBackoff_def make_room_def Let_def
  by (intro preserving)+

lemma link_points [preserving]: "keeps_link c (processReadResult E v t)"
  unfolding processReadResult_def Let_def by (intro preserving)

lemma link_nodes [preserving]: "keeps_link c (getNodeID E s)" "keeps_link c (getNodeIDForTag E t)"
proof -
  show "keeps_link c (getNodeID E s)" for s unfolding getNodeID_def by (intro preserving)
  then show "keeps_link c (getNodeIDForTag E t)" unfolding getNodeIDForTag_def by (intro preserving)
qed

lemma preserves_list [preserving]:
  "preserves P m \<Longrightarrow> (\<And>b bs. preserves P (g b bs)) \<Longrightarrow> preserves P (case x of [] \<Rightarrow> m | b # bs \<Rightarrow> g b bs)"
  by (simp split: list.split)

lemma link_one_node [preserving]:
  "keeps_link c (readNode E n t)" "keeps_link c (writeNode E n v)" "keeps_link c (ua_write_body E n v)"
  unfolding readNode_def ua_write_body_def writeNode_def by (intro preserving)+

lemma link_wait [preserving]: "keeps_link c (ua_retry_wait E n)"
  unfolding ua_retry_wait_def by (intro preserving)

lemma link_read_failed [preserving]: "keeps_link c (ua_read_failed E t err)"
  unfolding ua_read_failed_def by (intro preserving)

lemma link_resolve [preserving]: "keeps_link c (resolve_tags E ts)"
  by (induction ts) (auto intro!: preserving)

lemma link_results [preserving]: "keeps_link c (process_results E vs ts)"
  by (induction E vs ts rule: process_results.induct) (auto intro!: preserving)

lemma link_prepare [preserving]: "keeps_link c (prepare_ua_writes E wrs)"
proof (induction wrs)
  case (Cons wr wrs)
  have "keeps_link c (prepare_write E wr)" unfolding prepare_write_def by (intro preserving)
  with Cons show ?case by (auto intro!: preserving)
qed (auto intro!: preserving)

section \<open>A connected client does not dial\<close>

lemma reconnect_does_nothing: "ux_connected c \<Longrightarrow> ua_reconnect E (c, w) = (Val (), (c, w))"
  by (simp add: ua_reconnect_def run_simps ret_def)

text \<open>Two programs that do the same on connected clients; the first leaves them connected.\<close>

definition alike :: "('w, 'n, 'a) ua \<Rightarrow> ('w, 'n, 'a) ua \<Rightarrow> bool" where
  "alike m m' \<longleftrightarrow> (\<forall>s. ux_connected (fst s) \<longrightarrow> m s = m' s \<and> ux_connected (fst (snd (m s))))"

lemma alike_same:
  fixes m :: "('w, 'n, 'a) ua"
  assumes keep: "\<And>c. keeps_link c m"
  shows "alike m m"
  unfolding alike_def
proof (intro allI impI conjI)
  fix s :: "'n ua_client \<times> 'w"
  assume s: "ux_connected (fst s)"
  have "on_client (same_link (fst s)) (snd (m s))"
    by (rule preservesD[OF keep]) (simp add: on_client_def same_link_def)
  then show "ux_connected (fst (snd (m s)))" using s by (simp add: on_client_def same_link_def)
qed simp

lemma alike_ret: "alike (ret a) (ret a)"
  by (simp add: alike_def ret_def)

lemma alikeD: "alike m m' \<Longrightarrow> ux_connected (fst s) \<Longrightarrow> m s = (r, s') \<Longrightarrow> m' s = (r, s') \<and> ux_connected (fst s')"
  unfolding alike_def by (metis snd_conv)

lemma alike_bnd:
  fixes m :: "('w, 'n, 'a) ua" and f :: "'a \<Rightarrow> ('w, 'n, 'b) ua"
  assumes "alike m m'" "\<And>a. alike (f a) (f' a)"
  shows "alike (bnd m f) (bnd m' f')"
  unfolding alike_def
proof (intro allI impI)
  fix s :: "'n ua_client \<times> 'w" assume s: "ux_connected (fst s)"
  obtain r s1 where m: "m s = (r, s1)" by (cases "m s")
  note m' = alikeD[OF assms(1) s m]
  have "f a s1 = f' a s1" "ux_connected (fst (snd (f' a s1)))" for a
    using assms(2)[of a] m' by (cases s1; force simp: alike_def)+
  then show "bnd m f s = bnd m' f' s \<and> ux_connected (fst (snd (bnd m f s)))"
    using m m' by (cases r) (simp_all add: bnd_def)
qed

lemma alike_deferred:
  fixes m :: "('w, 'n, 'a) ua"
  assumes "alike m m'" "alike d d'"
  shows "alike (deferred m d) (deferred m' d')"
  unfolding alike_def
proof (intro allI impI)
  fix s :: "'n ua_client \<times> 'w" assume s: "ux_connected (fst s)"
  obtain r s1 where m: "m s = (r, s1)" by (cases "m s")
  note m' = alikeD[OF assms(1) s m]
  obtain q s2 where d: "d s1 = (q, s2)" by (cases "d s1")
  note d' = alikeD[OF assms(2) conjunct2[OF m'] d]
  show "deferred m d s = deferred m' d' s \<and> ux_connected (fst (snd (deferred m d s)))"
    using m m' d d' by (cases q) (auto simp: deferred_def)
qed

lemma alike_cases:
  "(b \<Longrightarrow> alike m m') \<Longrightarrow> (\<not> b \<Longrightarrow> alike n n') \<Longrightarrow> alike (if b then m else n) (if b then m' else n')"
  "alike m m' \<Longrightarrow> (\<And>a. alike (f a) (f' a)) \<Longrightarrow>
   alike (case x of None \<Rightarrow> m | Some a \<Rightarrow> f a) (case x of None \<Rightarrow> m' | Some a \<Rightarrow> f' a)"
  "(\<And>a. alike (g a) (g' a)) \<Longrightarrow> (\<And>b. alike (h b) (h' b)) \<Longrightarrow>
   alike (case y of Inl a \<Rightarrow> g a | Inr b \<Rightarrow> h b) (case y of Inl a \<Rightarrow> g' a | Inr b \<Rightarrow> h' b)"
  by (auto split: option.split sum.split)

lemma alike_exit:
  "(\<And>e. alike (f e) (f' e)) \<Longrightarrow> (\<And>e. alike (g e) (g' e)) \<Longrightarrow> (\<And>a. alike (h a) (h' a)) \<Longrightarrow>
   (\<And>r. alike (k r) (k' r)) \<Longrightarrow>
   alike (case x of UaCancelled e \<Rightarrow> f e | UaFatal e \<Rightarrow> g e | UaDone a \<Rightarrow> h a | UaSpent r \<Rightarrow> k r)
     (case x of UaCancelled e \<Rightarrow> f' e | UaFatal e \<Rightarrow> g' e | UaDone a \<Rightarrow> h' a | UaSpent r \<Rightarrow> k' r)"
  by (simp split: ua_exit.split)

lemma alike_reconnect: "alike (ua_reconnect E) (ua_reconnect E')"
  by (auto simp: alike_def reconnect_does_nothing)

text \<open>An environment whose server is dialled and closed in other ways.\<close>

abbreviation dials :: "(string \<Rightarrow> 'k ua_option list \<Rightarrow> 'w \<Rightarrow> gerror option \<times> 'w) \<Rightarrow> (int \<Rightarrow> 'w \<Rightarrow> gerror option \<times> 'w) \<Rightarrow>
  ('w \<Rightarrow> gerror option \<times> 'w) \<Rightarrow> ('w, 'n, 'k) ua_env \<Rightarrow> ('w, 'n, 'k) ua_env" where
  "dials new conn close E \<equiv> E\<lparr>ue_NewClient := new, ue_Connect := conn, ue_Close := close\<rparr>"

lemmas strong_cases = option.case_cong sum.case_cong list.case_cong data_type.case_cong if_cong

lemma dials_acquire: "ua_acquire (dials new conn close E) t v q = ua_acquire E t v q"
  by (simp add: ua_acquire_def)

lemma dials_result: "processReadResult (dials new conn close E) v t = processReadResult E v t"
  by (simp add: processReadResult_def dials_acquire Let_def)

lemma dials_nodes:
  "readNode (dials new conn close E) n t = readNode E n t"
  "writeNode (dials new conn close E) n v = writeNode E n v"
  "ua_write_body (dials new conn close E) n v = ua_write_body E n v"
proof -
  show "readNode (dials new conn close E) n t = readNode E n t"
    by (simp add: readNode_def dials_result cong: strong_cases)
  show "writeNode (dials new conn close E) n v = writeNode E n v" for n v
    by (simp add: writeNode_def cong: strong_cases)
  then show "ua_write_body (dials new conn close E) n v = ua_write_body E n v"
    by (simp add: ua_write_body_def)
qed

lemma dials_wait: "ua_retry_wait (dials new conn close E) n = ua_retry_wait E n"
  by (simp add: ua_retry_wait_def ua_calculateBackoff_def Let_def cong: strong_cases)

lemma dials_getNodeID: "getNodeIDForTag (dials new conn close E) t = getNodeIDForTag E t"
  by (simp add: getNodeIDForTag_def getNodeID_def make_room_def parseExpandedNodeID_def cong: strong_cases)

lemma dials_convert: "ua_convert (dials new conn close E) v t = ua_convert E v t"
  by (cases "tag_DataType t") (simp_all add: ua_convert_def Let_def cong: strong_cases split: goval.split)

lemma dials_rest:
  "ua_read_failed (dials new conn close E) t err = ua_read_failed E t err"
  "valueToVariant (dials new conn close E) v t = valueToVariant E v t"
  "ua_touch (dials new conn close E) = ua_touch E"
  "ua_timed (dials new conn close E) = ua_timed E"
  by (simp_all add: fun_eq_iff ua_read_failed_def ua_createErrorDataPoint_def dials_acquire valueToVariant_def dials_convert
    ua_touch_def ua_timed_def Let_def cong: strong_cases)

lemmas dials_same = dials_nodes dials_wait dials_getNodeID dials_rest

lemma alike_retry:
  assumes "\<And>c. keeps_link c body"
  shows "alike (ua_retry (dials new conn close E) body prior ns) (ua_retry E body prior ns)"
proof (induction ns arbitrary: prior)
  case Nil
  show ?case by (auto intro!: alike_same preserving)
next
  case (Cons n ns)
  have "alike body body" by (rule alike_same) (rule assms)
  moreover have "alike (ua_retry_wait E n) (ua_retry_wait E n)" by (rule alike_same) (rule preserving)
  ultimately show ?case
    unfolding ua_retry.simps dials_wait
    by (intro alike_bnd alike_cases alike_ret alike_reconnect Cons.IH)
qed

lemma alike_timed:
  fixes E :: "('w, 'n, 'k) ua_env"
  assumes "\<And>i c. keeps_link c (upd (add i) :: ('w, 'n, unit) ua)" "alike m m'"
  shows "alike (ua_timed E add m) (ua_timed E add m')"
proof -
  have now: "alike (call (ue_Now E)) (call (ue_Now E))" by (rule alike_same) (rule preserving)
  have "alike (bnd (call (ue_Now E)) (\<lambda>now. upd (add (time_Sub now n)))) (bnd (call (ue_Now E)) (\<lambda>now. upd (add (time_Sub now n))))"
    for n by (rule alike_same, intro preserving) (rule assms(1))
  then show ?thesis unfolding ua_timed_def
    by - (rule alike_bnd[OF now], rule alike_deferred[OF assms(2)])
qed


end
