(* ===== verification/OpcuaAnswers.thy ===== *)
theory OpcuaAnswers
  imports OpcuaClientProps "HOL-Library.Sublist"
begin

text \<open>
  What the batched operations of the OPC UA client answer, what they send, and what the connection keeps.
\<close>

section \<open>Batched reads and writes return\<close>

abbreviation answers :: "('w, 'n, 'a) ua \<Rightarrow> ('a \<Rightarrow> bool) \<Rightarrow> bool" where
  "answers m Q \<equiv> yields (\<lambda>s. True) m Q"

lemma answer_steps [yielding]:
  "answers (field f) (\<lambda>_. True)" "answers (upd g) (\<lambda>_. True)" "answers (call h) (\<lambda>_. True)"
  by (intro yields_field yields_upd yields_call; simp)+

lemma answers_then:
  "answers m (\<lambda>_. True) \<Longrightarrow> (\<And>a. answers (f a) Q) \<Longrightarrow> answers (bnd m f) Q"
  by (rule yields_bnd)

lemma answers_pair [yielding]: "(\<And>a b. x = (a, b) \<Longrightarrow> answers (f a b) Q) \<Longrightarrow> answers (case x of (a, b) \<Rightarrow> f a b) Q"
  by (simp split: prod.split)

lemma answers_nodes: "answers (make_room E) (\<lambda>_. True)" "answers (getNodeID E k) (\<lambda>_. True)" "answers (getNodeIDForTag E t) (\<lambda>_. True)"
proof -
  show room: "answers (make_room E) (\<lambda>_. True)"
    unfolding make_room_def by (intro answers_then yielding) simp_all
  show id: "answers (getNodeID E k) (\<lambda>_. True)" for k
    unfolding getNodeID_def by (intro answers_then yielding room) simp_all
  show "answers (getNodeIDForTag E t) (\<lambda>_. True)"
    unfolding getNodeIDForTag_def by (intro answers_then yielding id) simp_all
qed

lemma answers_touch: "answers (ua_touch E) (\<lambda>_. True)"
  unfolding ua_touch_def by (intro answers_then yielding)

lemma answers_acquire: "answers (ua_acquire E t v q) (\<lambda>dp. dp_TagID dp = tag_ID t)"
  unfolding ua_acquire_def by (intro answers_then yielding) (simp add: AcquireDataPoint_def Let_def)

lemma answers_result: "answers (processReadResult E v t) (\<lambda>dp. dp_TagID dp = tag_ID t)"
  unfolding processReadResult_def Let_def
  by (intro yielding answers_acquire yields_bnd[OF answers_acquire])
    (simp_all add: WithRawValue_def WithPriority_def WithSourceTimestamp_def)

lemma answers_resolve: "answers (resolve_tags E ts) (\<lambda>valid. subseq (map snd valid) ts)"
proof (induction ts)
  case (Cons t ts)
  then show ?case unfolding resolve_tags.simps
    by (intro answers_then answers_nodes yields_bnd[OF Cons]) (auto intro!: yielding split: sum.split)
qed (auto intro!: yielding)

lemma answers_results:
  "answers (process_results E vs ts) (\<lambda>dps. map dp_TagID dps = map tag_ID (take (length vs) ts))"
proof (induction E vs ts rule: process_results.induct)
  case (1 E v vs t ts)
  then show ?case unfolding process_results.simps
    by (intro yields_bnd[OF answers_result] yields_bnd[OF 1]) (auto intro!: yielding)
qed (auto intro!: yielding)

lemma part_of_tags: "subseq (map snd valid) tags \<Longrightarrow> subseq (map tag_ID (take n (map snd valid))) (map tag_ID tags)"
  by (metis subseq_map subseq_order.trans take_is_prefix prefix_imp_subseq)

text \<open>A batched read always returns: an error, or points of requested tags, in the order of the request and
  at most one for each.\<close>

theorem batched_read_answers_in_order:
  "\<exists>answer s'. ua_ReadTags E tags s = (Val answer, s') \<and>
     (case answer of Inl err \<Rightarrow> True | Inr dps \<Rightarrow> subseq (map dp_TagID dps) (map tag_ID tags))"
proof -
  have "answers (ua_ReadTags E tags)
    (\<lambda>answer. case answer of Inl err \<Rightarrow> True | Inr dps \<Rightarrow> subseq (map dp_TagID dps) (map tag_ID tags))"
    unfolding ua_ReadTags_def
    by (intro yields_bnd[OF answers_resolve] yields_bnd[OF answers_results] answers_then yielding answers_touch)
      (auto intro: part_of_tags)
  then show ?thesis unfolding yields_def by blast
qed

section \<open>What is sent\<close>

text \<open>The same node, with the mask of its encoded parts replaced.\<close>

definition with_mask :: "byte \<Rightarrow> 'n \<times> ua_written \<Rightarrow> 'n \<times> ua_written" where
  "with_mask m = (\<lambda>(n, v). (n, v\<lparr>uw_EncodingMask := m\<rparr>))"

lemma answers_prepare:
  "answers (prepare_write E wr) (\<lambda>p. case p of Inl e \<Rightarrow> True | Inr q \<Rightarrow> with_mask 0 q = q \<and> IsWritable (tw_Tag wr))"
  unfolding prepare_write_def by (intro answers_then yielding answers_nodes) (auto simp: with_mask_def)

lemma answers_prepares:
  "answers (prepare_ua_writes E wrs)
     (list_all2 (\<lambda>wr p. case p of Inl e \<Rightarrow> True | Inr q \<Rightarrow> with_mask 0 q = q \<and> IsWritable (tw_Tag wr)) wrs)"
proof (induction wrs)
  case (Cons wr wrs)
  then show ?case unfolding prepare_ua_writes.simps
    by (intro yields_bnd[OF answers_prepare] yields_bnd[OF Cons]) (auto intro!: yielding)
qed (auto intro!: yielding)

lemma settle_all2:
  assumes "list_all2 R wrs ps" "\<And>wr q. R wr (Inr q) \<Longrightarrow> W wr"
  shows "list_all2 (\<lambda>wr err. W wr \<or> err \<noteq> None) wrs (settle_writes sts ps)"
  using assms(1)
  by (induction sts ps arbitrary: wrs rule: settle_writes.induct)
    (auto simp: list_all2_Cons2 dest: assms(2))

lemma fail_all2:
  "list_all2 R wrs ps \<Longrightarrow> list_all2 (\<lambda>wr err. W wr \<or> err \<noteq> None) wrs (fail_writes e ps)"
  by (induction rule: list_all2_induct) (auto simp: fail_writes_def split: sum.split)

text \<open>A batched write always returns one result for each write, in order, and a tag that may not be written
  gets an error.\<close>

theorem batched_write_answers_each_write:
  "\<exists>errs s'. ua_WriteTags E writes s = (Val errs, s') \<and>
     list_all2 (\<lambda>wr err. IsWritable (tw_Tag wr) \<or> err \<noteq> None) writes errs"
proof -
  have "answers (ua_WriteTags E writes) (list_all2 (\<lambda>wr err. IsWritable (tw_Tag wr) \<or> err \<noteq> None) writes)"
    unfolding ua_WriteTags_def Let_def
    by (intro yields_bnd[OF answers_prepares] answers_then yielding answers_touch)
      (auto intro!: settle_all2 fail_all2 simp del: not_None_eq simp: list.rel_map list_all2_same)
  then show ?thesis unfolding yields_def by blast
qed

lemma answers_cong:
  assumes "answers m Q" "\<And>a. Q a \<Longrightarrow> f a = g a"
  shows "bnd m f = bnd m g"
proof
  fix s
  obtain a s' where "m s = (Val a, s')" "Q a" using assms(1) unfolding yields_def by blast
  then show "bnd m f s = bnd m g s" using assms(2) by (simp add: run_simps)
qed

lemma bnd_same: "(\<And>a. f a = g a) \<Longrightarrow> bnd m f = bnd m g"
  by (rule arg_cong[where f = "bnd m"]) (rule ext)

text \<open>A library that sets the masks to \<open>m\<close>.\<close>

abbreviation masking :: "byte \<Rightarrow> ('w, 'n, 'k) ua_env \<Rightarrow> ('w, 'n, 'k) ua_env" where
  "masking m E \<equiv> E\<lparr>ue_Write := \<lambda>nodes. ue_Write E (map (with_mask m) nodes)\<rparr>"

lemma masking_prepare: "prepare_ua_writes (masking m E) wrs = prepare_ua_writes E wrs"
proof (induction wrs)
  case (Cons wr wrs)
  have "getNodeIDForTag (masking m E) t = getNodeIDForTag E t" for t
    by (simp add: getNodeIDForTag_def getNodeID_def make_room_def parseExpandedNodeID_def cong: strong_cases)
  moreover have "ua_convert (masking m E) v t = ua_convert E v t" for v t
    by (cases "tag_DataType t") (simp_all add: ua_convert_def Let_def cong: strong_cases split: goval.split)
  ultimately have "prepare_write (masking m E) wr = prepare_write E wr"
    by (simp add: prepare_write_def valueToVariant_def cong: strong_cases)
  with Cons show ?case by simp
qed simp

lemma masked_nodes:
  "list_all2 (\<lambda>wr p. case p of Inl e \<Rightarrow> True | Inr q \<Rightarrow> with_mask m q = q \<and> P wr) wrs ps \<Longrightarrow>
   map (with_mask m) [p. Inr p \<leftarrow> ps] = [p. Inr p \<leftarrow> ps]"
  by (induction rule: list_all2_induct) (auto split: sum.splits)


section \<open>What the connection keeps\<close>

abbreviation keeps_sound :: "('w, 'n, 'a) ua \<Rightarrow> bool" where
  "keeps_sound m \<equiv> preserves (on_client ua_sound) m"

text \<open>A program that leaves the fields of the connection alone keeps them in agreement.\<close>

lemma sound_link:
  fixes m :: "('w, 'n, 'a) ua"
  assumes "\<And>c. keeps_link c m"
  shows "keeps_sound m"
proof (rule preservesI)
  fix s :: "'n ua_client \<times> 'w"
  assume s: "on_client ua_sound s"
  have "on_client (same_link (fst s)) (snd (m s))"
    by (rule preservesD[OF assms]) (simp add: on_client_def same_link_def)
  with s show "on_client ua_sound (snd (m s))" by (simp add: on_client_def same_link_def ua_sound_def)
qed

lemma sound_updates [preserving]:
  "keeps_sound (upd (ux_lastError_update f))"
  "keeps_sound (upd (\<lambda>c. c\<lparr>ux_namespaceArray := uris, ux_namespaceMap := nsm\<rparr>))"
  by (intro on_client_upd; simp add: ua_sound_def)+

lemma sound_updateNamespaceTable [preserving]: "keeps_sound (updateNamespaceTable E)"
  unfolding updateNamespaceTable_def by (intro preserving)

lemma sound_Refresh: "keeps_sound (RefreshNamespaceTable E)"
  unfolding RefreshNamespaceTable_def by (intro preserving sound_link)

lemma sound_Disconnect [preserving]: "keeps_sound (ua_Disconnect E)"
  unfolding ua_Disconnect_def
  by (intro preserving on_client_upd) (simp_all add: ua_sound_def)

text \<open>Connecting is the work of a client that is not connected: the state of its session is free meanwhile.\<close>

definition unlinked :: "'n ua_client \<Rightarrow> bool" where
  "unlinked c \<longleftrightarrow> \<not> ux_connected c \<and> \<not> ux_client c"

abbreviation keeps_unlinked :: "('w, 'n, 'a) ua \<Rightarrow> bool" where
  "keeps_unlinked m \<equiv> preserves (on_client unlinked) m"

lemma unlinked_updates [preserving]:
  "keeps_unlinked (upd (ux_lastError_update f))" "keeps_unlinked (upd (ux_sessionState_update g))"
  "keeps_unlinked (upd (\<lambda>c. c\<lparr>ux_lastError := e, ux_sessionState := st\<rparr>))"
  by (intro on_client_upd; simp add: unlinked_def)+

lemma unlinked_refuse [preserving]: "keeps_unlinked (ua_refuse e what)"
  unfolding ua_refuse_def by (intro preserving)

lemma sound_unlinked: "unlinked c \<Longrightarrow> ua_sound c"
  by (simp add: unlinked_def ua_sound_def)

lemma unlinked_find [preserving]: "keeps_unlinked (find_cert K D dir fp entries)"
  by (induction K D dir fp entries rule: find_cert.induct)
    (auto simp: readCert_def intro!: preserving)

lemma unlinked_is_in [preserving]: "keeps_unlinked (is_in K D dir cert)"
  unfolding is_in_def by (intro preserving)

lemma unlinked_load [preserving]: "(\<And>f. keeps_unlinked (load f)) \<Longrightarrow> keeps_unlinked (load_named what file load)"
  unfolding load_named_def by (intro preserving)

lemma unlinked_trust [preserving]:
  "keeps_unlinked (ValidateSecurityConfig K config)" "keeps_unlinked (DiscoverAndSelectEndpoint g config)"
  "keeps_unlinked (ValidateServerCertificate K D bytes auto)"
  unfolding ValidateSecurityConfig_def DiscoverAndSelectEndpoint_def ValidateServerCertificate_def
    IsTrusted_def IsRejected_def AddTrustedCert_def RejectCert_def save_cert_def
    loadCertificate_def loadPrivateKey_def Let_def
  by (intro preserving)+

lemma unlinked_options [preserving]: "keeps_unlinked (ua_options E config sc)"
  unfolding ua_options_def by (intro preserving)

definition connects :: "('w, 'n, 'a) ua \<Rightarrow> bool" where
  "connects m \<longleftrightarrow> (\<forall>s. on_client unlinked s \<longrightarrow> on_client ua_sound (snd (m s)))"

lemma connects_unlinked: "keeps_unlinked m \<Longrightarrow> connects m"
  by (auto simp: connects_def preserves_def on_client_def sound_unlinked)

lemma connects_bnd:
  fixes m :: "('w, 'n, 'a) ua"
  assumes "keeps_unlinked m" "\<And>a. connects (f a)"
  shows "connects (bnd m f)"
  unfolding connects_def
proof (intro allI impI)
  fix s :: "'n ua_client \<times> 'w" assume s: "on_client unlinked s"
  obtain r s' where m: "m s = (r, s')" by (cases "m s")
  have s': "on_client unlinked s'" using preservesD[OF assms(1) s] m by simp
  have "on_client ua_sound (snd (f a s'))" for a using assms(2) s' by (simp only: connects_def)
  then show "on_client ua_sound (snd (bnd m f s))"
    using s' m by (cases r) (auto simp: bnd_def on_client_def sound_unlinked)
qed

text \<open>The step that makes the connection, and what follows it.\<close>

lemma connects_upd:
  assumes "\<And>c. unlinked c \<Longrightarrow> ua_sound (f c)" "\<And>a. keeps_sound (k a)"
  shows "connects (bnd (upd f) k)"
  using assms by (auto simp: connects_def on_client_def preserves_def run_simps)

lemma connects_cases:
  "connects m \<Longrightarrow> (\<And>a. connects (f a)) \<Longrightarrow> connects (case x of None \<Rightarrow> m | Some a \<Rightarrow> f a)"
  "(\<And>a. connects (g a)) \<Longrightarrow> (\<And>b. connects (h b)) \<Longrightarrow> connects (case y of Inl a \<Rightarrow> g a | Inr b \<Rightarrow> h b)"
  by (auto split: option.split sum.split)

lemma connects_dial: "connects (ua_dial E config opts)"
  unfolding ua_dial_def
  by (intro connects_bnd connects_cases preserving connects_unlinked[OF preserves_bnd] connects_upd)
    (simp_all add: ua_sound_def unlinked_def)

lemma sound_Connect [preserving]: "keeps_sound (ua_Connect E)"
proof (rule preservesI)
  fix s :: "'a ua_client \<times> 'b" assume s: "on_client ua_sound s"
  define rest where "rest =
    bnd (upd (ux_sessionState_update (\<lambda>_. SessionStateConnecting))) (\<lambda>_.
    bnd (field ux_config) (\<lambda>config.
    bnd (ValidateSecurityConfig (ue_pki E) config) (\<lambda>security.
    case security of
      Inl err \<Rightarrow>
        bnd (ua_refuse err ''security configuration error: '') (\<lambda>r.
        ret (case r of Inl err \<Rightarrow> Some err | Inr (u :: unit) \<Rightarrow> None))
    | Inr sc \<Rightarrow>
        bnd (ua_options E config sc) (\<lambda>opts.
        case opts of Inl err \<Rightarrow> ret (Some err) | Inr opts \<Rightarrow> ua_dial E config opts))))"
  have rest: "connects rest"
    unfolding rest_def
    by (intro connects_bnd connects_cases connects_dial preserving connects_unlinked[OF preserves_bnd]
      connects_unlinked[OF preserves_ret])
  show "on_client ua_sound (snd (ua_Connect E s))"
  proof (cases "ux_connected (fst s)")
    case True
    with s show ?thesis by (cases s) (simp add: ua_Connect_def run_simps ret_def)
  next
    case False
    then have "ua_Connect E s = rest s" by (cases s) (simp add: ua_Connect_def run_simps rest_def)
    moreover have "on_client unlinked s" using s False by (auto simp: on_client_def unlinked_def ua_sound_def)
    ultimately show ?thesis using rest by (simp only: connects_def)
  qed
qed

lemma sound_reconnect [preserving]: "keeps_sound (ua_reconnect E)"
proof (rule preservesI)
  fix s :: "'a ua_client \<times> 'b" assume s: "on_client ua_sound s"
  define rest where "rest = bnd (ua_Disconnect E) (\<lambda>_. bnd (ua_Connect E) (\<lambda>_. ret ()))"
  have "keeps_sound rest" unfolding rest_def by (intro preserving)
  moreover have "on_client ua_sound (ux_sessionState_update g (fst s), snd s)" if "\<not> ux_connected (fst s)" for g
    using s that by (simp add: on_client_def ua_sound_def)
  ultimately show "on_client ua_sound (snd (ua_reconnect E s))"
    using s by (cases s) (simp add: ua_reconnect_def run_simps rest_def[symmetric] ret_def preservesD)
qed

lemma sound_retry [preserving]:
  assumes "\<And>c. keeps_link c body"
  shows "keeps_sound (ua_retry E body prior ns)"
  by (induction ns arbitrary: prior)
    (auto intro!: preserving sound_link[OF link_wait] sound_link[OF assms])

lemma preserves_exit [preserving]:
  "(\<And>e. preserves P (f e)) \<Longrightarrow> (\<And>e. preserves P (g e)) \<Longrightarrow> (\<And>a. preserves P (h a)) \<Longrightarrow>
   (\<And>r. preserves P (k r)) \<Longrightarrow>
   preserves P (case x of UaCancelled e \<Rightarrow> f e | UaFatal e \<Rightarrow> g e | UaDone a \<Rightarrow> h a | UaSpent r \<Rightarrow> k r)"
  by (simp split: ua_exit.split)

lemma sound_timed [preserving]:
  assumes "\<And>i. keeps_sound (upd (add i) :: ('w, 'n, unit) ua)" "keeps_sound m"
  shows "keeps_sound (ua_timed (E :: ('w, 'n, 'k) ua_env) add m)"
  unfolding ua_timed_def by (intro preserving assms)

lemma sound_one_tag: "keeps_sound (ua_ReadTag E t)" "keeps_sound (ua_WriteTag E t v)"
  unfolding ua_ReadTag_def ua_WriteTag_def
  by (intro preserving sound_link[OF link_read_failed] sound_link[OF link_small(1)] sound_link[OF link_nodes(2)]
    sound_link[OF link_updates(4)] sound_link[OF link_updates(5)] sound_link[OF link_updates(6)]
    sound_link[OF link_updates(8)] sound_link[OF link_updates(9)])+

lemma sound_many_tags: "keeps_sound (ua_ReadTags E ts)" "keeps_sound (ua_WriteTags E writes)"
  unfolding ua_ReadTags_def ua_WriteTags_def Let_def
  by (intro sound_link preserving)+

text \<open>C35. The fields of a client agree: whatever it is asked to do, it counts as connected exactly when it has a
  client of the library, and then its session is active.\<close>

theorem connection_fields_agree:
  "(case ua_NewClient deviceID config now of Inl err \<Rightarrow> True | Inr c \<Rightarrow> ua_sound c) \<and>
   keeps_sound (ua_Connect E) \<and> keeps_sound (ua_Disconnect E) \<and> keeps_sound (ua_reconnect E) \<and>
   keeps_sound (ua_ReadTag E t) \<and> keeps_sound (ua_WriteTag E t v) \<and> keeps_sound (ua_ReadTags E ts) \<and>
   keeps_sound (ua_WriteTags E writes) \<and> keeps_sound (RefreshNamespaceTable E)"
  by (simp add: sound_Connect sound_Disconnect sound_reconnect sound_one_tag sound_many_tags sound_Refresh
    ua_NewClient_def ua_sound_def)

section \<open>When the trust store is not asked\<close>

lemma other_disk_dials: "ua_dial (E\<lparr>ue_disk := D\<rparr>) config opts = ua_dial E config opts"
proof -
  have "updateNamespaceTable (E\<lparr>ue_disk := D\<rparr>) = updateNamespaceTable E" by (simp add: updateNamespaceTable_def cong: strong_cases)
  then show ?thesis by (simp add: ua_dial_def cong: strong_cases)
qed

text \<open>An environment in which discovery fails.\<close>

abbreviation undiscovered :: "gerror \<Rightarrow> (ua_config \<Rightarrow> 'w \<Rightarrow> 'w) \<Rightarrow> ('w, 'n, 'k) ua_env \<Rightarrow> ('w, 'n, 'k) ua_env" where
  "undiscovered err f E \<equiv> E\<lparr>ue_getEndpoints := \<lambda>config w. (Inl err, f config w)\<rparr>"

lemma other_disk_options:
  "\<not> oc_AutoSelectEndpoint config \<Longrightarrow> ua_options (E\<lparr>ue_disk := D\<rparr>) config sc = ua_options E config sc"
  "ua_options ((undiscovered err f E)\<lparr>ue_disk := D\<rparr>) config sc = ua_options (undiscovered err f E) config sc"
  by (simp_all add: ua_options_def fun_eq_iff split_paired_all DiscoverAndSelectEndpoint_def bnd_assoc run_simps)

lemma same_connection:
  assumes "\<And>sc. ua_options E' (ux_config c) sc = ua_options E (ux_config c) sc"
    "ua_dial E' (ux_config c) = ua_dial E (ux_config c)" "ue_pki E' = ue_pki E"
  shows "ua_Connect E' (c, w) = ua_Connect E (c, w)"
  by (simp add: ua_Connect_def run_simps assms cong: strong_cases)


end
