(* ===== verification/GoPartial.thy ===== *)
theory GoPartial
  imports PollingRegistry GoFocus GoHoare
begin

text \<open>
  Programs that may not return: running one on the world of an object, the total correctness of those
  that do return, and partial correctness.
\<close>

definition oworld :: "('w, 'a) oprog \<Rightarrow> ('c \<times> 'w, 'a) oprog" where
  "oworld m s = (case m (snd s) of None \<Rightarrow> None | Some (r, w) \<Rightarrow> Some (r, (fst s, w)))"

definition oon_left :: "('c, 'a) oprog \<Rightarrow> ('c \<times> 'w, 'a) oprog" where
  "oon_left m s = (case m (fst s) of None \<Rightarrow> None | Some (r, c) \<Rightarrow> Some (r, (c, snd s)))"

text \<open>From a state in \<open>P\<close>: if the program returns, \<open>Q\<close> holds; if it panics, \<open>I\<close> holds of what it leaves.\<close>

named_theorems partly_rules "partial correctness of programs that may not return"

definition partly :: "('s \<Rightarrow> bool) \<Rightarrow> ('s, 'a) oprog \<Rightarrow> ('a \<Rightarrow> 's \<Rightarrow> bool) \<Rightarrow> ('s \<Rightarrow> bool) \<Rightarrow> bool" where
  "partly P m Q I \<longleftrightarrow>
     (\<forall>s a s'. P s \<longrightarrow> m s = Some (Val a, s') \<longrightarrow> Q a s') \<and> (\<forall>s p s'. P s \<longrightarrow> m s = Some (Panic p, s') \<longrightarrow> I s')"

lemma partlyI:
  "(\<And>s a s'. P s \<Longrightarrow> m s = Some (Val a, s') \<Longrightarrow> Q a s') \<Longrightarrow>
   (\<And>s p s'. P s \<Longrightarrow> m s = Some (Panic p, s') \<Longrightarrow> I s') \<Longrightarrow> partly P m Q I"
  by (simp add: partly_def)

lemma partlyD:
  "partly P m Q I \<Longrightarrow> P s \<Longrightarrow> m s = Some (Val a, s') \<Longrightarrow> Q a s'"
  "partly P m Q I \<Longrightarrow> P s \<Longrightarrow> m s = Some (Panic p, s') \<Longrightarrow> I s'"
  by (simp_all add: partly_def)

lemma partly_obnd:
  assumes "partly P m R I" and "\<And>a. partly (R a) (f a) Q I"
  shows "partly P (obnd m f) Q I"
proof (rule partlyI)
  fix s b s' assume "P s" "obnd m f s = Some (Val b, s')"
  then show "Q b s'"
    using partlyD(1) [OF assms(2)] partlyD(1) [OF assms(1)]
    by (fastforce simp: obnd_def split: option.splits prod.splits run.splits)
next
  fix s p s' assume "P s" "obnd m f s = Some (Panic p, s')"
  then show "I s'"
    using partlyD(2) [OF assms(2)] partlyD [OF assms(1)]
    by (fastforce simp: obnd_def split: option.splits prod.splits run.splits)
qed

lemma partly_always: "keeps P m Q I \<Longrightarrow> partly P (always m) Q I"
  by (simp add: partly_def keeps_def always_def)

lemma partly_oworld [partly_rules]:
  assumes "\<And>c w a w'. P (c, w) \<Longrightarrow> m w = Some (Val a, w') \<Longrightarrow> Q a (c, w')"
    and "\<And>c w p w'. P (c, w) \<Longrightarrow> m w = Some (Panic p, w') \<Longrightarrow> I (c, w')"
  shows "partly P (oworld m) Q I"
  using assms by (fastforce simp: partly_def oworld_def split_paired_all split: option.splits)

lemma partly_if [partly_rules]:
  "(b \<Longrightarrow> partly P m Q I) \<Longrightarrow> (\<not> b \<Longrightarrow> partly P n Q I) \<Longrightarrow> partly P (if b then m else n) Q I"
  by simp

lemma partly_option [partly_rules]:
  "(x = None \<Longrightarrow> partly P m Q I) \<Longrightarrow> (\<And>b. x = Some b \<Longrightarrow> partly P (g b) Q I) \<Longrightarrow>
   partly P (case x of None \<Rightarrow> m | Some b \<Rightarrow> g b) Q I"
  by (simp split: option.split)

lemma partly_pre: "partly P' m Q I \<Longrightarrow> (\<And>s. P s \<Longrightarrow> P' s) \<Longrightarrow> partly P m Q I"
  unfolding partly_def by meson

lemma partly_post: "partly P m Q' I \<Longrightarrow> (\<And>a s. Q' a s \<Longrightarrow> Q a s) \<Longrightarrow> partly P m Q I"
  by (simp add: partly_def)

lemma partly_fact: "(\<And>s. P s \<Longrightarrow> F) \<Longrightarrow> (F \<Longrightarrow> partly P m Q I) \<Longrightarrow> partly P m Q I"
  unfolding partly_def by meson

lemma partly_ret [partly_rules]: "(\<And>s. P s \<Longrightarrow> Q a s) \<Longrightarrow> partly P (always (ret a)) Q I"
  by (simp add: partly_always keeps_ret)

lemma partly_upd [partly_rules]: "(\<And>c w. P (c, w) \<Longrightarrow> Q () (f c, w)) \<Longrightarrow> partly P (always (upd f)) Q I"
  by (simp add: partly_always keeps_upd)

lemma partly_field [partly_rules]: "(\<And>c w. P (c, w) \<Longrightarrow> Q (f c) (c, w)) \<Longrightarrow> partly P (always (field f)) Q I"
  by (simp add: partly_always keeps_field)

lemma partly_call [partly_rules]:
  "(\<And>c w a w'. P (c, w) \<Longrightarrow> g w = (a, w') \<Longrightarrow> Q a (c, w')) \<Longrightarrow> partly P (always (call g)) Q I"
  by (simp add: partly_always keeps_call)

text \<open>Running the forms.\<close>

lemma always_ret: "always (ret a) s = Some (Val a, s)"
  by (simp add: always_def ret_def)

lemma orun_simps [simp]:
  "obnd (always (ret a)) f = f a"
  "obnd (always (upd g)) h (c, w) = h () (g c, w)"
  "obnd (always (field k)) h' (c, w) = h' (k c) (c, w)"
  by (simp_all add: fun_eq_iff obnd_def always_def run_defs)


section \<open>Total correctness\<close>

text \<open>From a state in \<open>P\<close> the program returns, without a panic, and its value and the state satisfy \<open>Q\<close>.\<close>

named_theorems delivering "total correctness of programs that may not return"

definition delivers :: "('s \<Rightarrow> bool) \<Rightarrow> ('s, 'a) oprog \<Rightarrow> ('a \<Rightarrow> 's \<Rightarrow> bool) \<Rightarrow> bool" where
  "delivers P m Q \<longleftrightarrow> (\<forall>s. P s \<longrightarrow> (\<exists>a s'. m s = Some (Val a, s') \<and> Q a s'))"

lemma deliversI: "(\<And>s. P s \<Longrightarrow> \<exists>a s'. m s = Some (Val a, s') \<and> Q a s') \<Longrightarrow> delivers P m Q"
  by (simp add: delivers_def)

lemma deliversE:
  assumes "delivers P m Q" and "P s"
  obtains a s' where "m s = Some (Val a, s')" "Q a s'"
  using assms by (auto simp: delivers_def)

lemma delivers_pre: "delivers P' m Q \<Longrightarrow> (\<And>s. P s \<Longrightarrow> P' s) \<Longrightarrow> delivers P m Q"
  unfolding delivers_def by meson

lemma delivers_post: "delivers P m Q' \<Longrightarrow> (\<And>a s. Q' a s \<Longrightarrow> Q a s) \<Longrightarrow> delivers P m Q"
  unfolding delivers_def by meson

lemma delivers_obnd:
  assumes "delivers P m R" and "\<And>a. delivers (R a) (f a) Q"
  shows "delivers P (obnd m f) Q"
proof (rule deliversI)
  fix s assume "P s"
  with assms(1) obtain a s' where 1: "m s = Some (Val a, s')" "R a s'" by (rule deliversE)
  from assms(2) 1(2) obtain b s'' where "f a s' = Some (Val b, s'')" "Q b s''" by (rule deliversE)
  with 1 show "\<exists>a s'. obnd m f s = Some (Val a, s') \<and> Q a s'" by (simp add: obnd_def)
qed

lemma delivers_always: "gives P m Q \<Longrightarrow> delivers P (always m) Q"
  by (auto simp: delivers_def gives_def always_def)

lemma delivers_ret [delivering]: "(\<And>s. P s \<Longrightarrow> Q a s) \<Longrightarrow> delivers P (always (ret a)) Q"
  by (simp add: delivers_always gives_ret)

lemma delivers_upd [delivering]: "(\<And>c w. P (c, w) \<Longrightarrow> Q () (f c, w)) \<Longrightarrow> delivers P (always (upd f)) Q"
  by (simp add: delivers_always gives_upd)

lemma delivers_field [delivering]: "(\<And>c w. P (c, w) \<Longrightarrow> Q (f c) (c, w)) \<Longrightarrow> delivers P (always (field f)) Q"
  by (simp add: delivers_always gives_field)

lemma delivers_call [delivering]:
  "(\<And>c w a w'. P (c, w) \<Longrightarrow> g w = (a, w') \<Longrightarrow> Q a (c, w')) \<Longrightarrow> delivers P (always (call g)) Q"
  by (simp add: delivers_always gives_call)

lemma delivers_if [delivering]:
  "(b \<Longrightarrow> delivers P m Q) \<Longrightarrow> (\<not> b \<Longrightarrow> delivers P n Q) \<Longrightarrow> delivers P (if b then m else n) Q"
  by simp

lemma delivers_option [delivering]:
  "(x = None \<Longrightarrow> delivers P m Q) \<Longrightarrow> (\<And>b. x = Some b \<Longrightarrow> delivers P (g b) Q) \<Longrightarrow>
   delivers P (case x of None \<Rightarrow> m | Some b \<Rightarrow> g b) Q"
  by (simp split: option.split)

lemma delivers_fact: "(\<And>s. P s \<Longrightarrow> F) \<Longrightarrow> (F \<Longrightarrow> delivers P m Q) \<Longrightarrow> delivers P m Q"
  unfolding delivers_def by meson

text \<open>A program on the world: the object is what it was.\<close>

lemma delivers_oworld:
  assumes "\<And>c. delivers (\<lambda>w. P (c, w)) m (\<lambda>a w. Q a (c, w))"
  shows "delivers P (oworld m) Q"
proof (rule deliversI)
  fix s assume "P s"
  then have "P (fst s, snd s)" by simp
  from deliversE [OF assms this] obtain a w where "m (snd s) = Some (Val a, w)" "Q a (fst s, w)" by blast
  then show "\<exists>a s'. oworld m s = Some (Val a, s') \<and> Q a s'" by (simp add: oworld_def)
qed

end
