(* ===== verification/OpcuaBrowse.thy ===== *)
theory OpcuaBrowse
  imports OpcuaClient GoPartial
begin

text \<open>
  Browsing the address space of an OPC UA server (\<open>Browse\<close> and what it calls in \<open>adapter/opcua/client.go\<close>):
  a node's attributes, its children page by page, and the tree down to a depth. What a server answers is the
  parameter \<open>ua_browser\<close>. A server may hand out pages for ever, so browsing may not return.
\<close>

unbundle bit_operations_syntax

section \<open>What the client asks a server\<close>

datatype ua_attribute = AttributeIDDisplayName | AttributeIDBrowseName | AttributeIDNodeClass
  | AttributeIDDataType | AttributeIDAccessLevel

text \<open>The value of an attribute, by its type; \<open>AttrOther\<close> is any other value, nil pointers included.\<close>

datatype 'n ua_attr = AttrText string | AttrName string | AttrInt32 u32 | AttrNode 'n | AttrByte byte | AttrOther

datatype result_mask = BrowseResultMaskAll | BrowseResultMaskNodeClass

record 'n browse_request =
  bq_MaxReferences :: u32
  bq_Node :: 'n
  bq_ReferenceType :: 'n
  bq_ClassMask :: u32
  bq_ResultMask :: result_mask

record 'n browse_page =
  bp_Status :: u32
  bp_References :: "'n list"
  bp_Continuation :: bytes

record ('w, 'n) ua_browser =
  ub_ReadAttributes :: "'n \<Rightarrow> ua_attribute list \<Rightarrow> 'w \<Rightarrow> (gerror + (u32 \<times> 'n ua_attr) list) \<times> 'w"
  ub_Browse :: "'n browse_request \<Rightarrow> 'w \<Rightarrow> (gerror + 'n browse_page list) \<times> 'w"
  ub_BrowseNext :: "bytes \<Rightarrow> 'w \<Rightarrow> (gerror + 'n browse_page list) \<times> 'w"
  ub_String :: "'n \<Rightarrow> string"
  ub_Namespace :: "'n \<Rightarrow> u16"
  ub_IntID :: "'n \<Rightarrow> u32"
  ub_Numeric :: "u16 \<Rightarrow> u32 \<Rightarrow> 'n"

type_synonym ('w, 'n, 'a) uao = "('n ua_client \<times> 'w, 'a) oprog"

section \<open>Names\<close>

definition NodeClassObject :: u32 where "NodeClassObject = 1"
definition NodeClassVariable :: u32 where "NodeClassVariable = 2"
definition NodeClassMethod :: u32 where "NodeClassMethod = 4"
definition NodeClassObjectType :: u32 where "NodeClassObjectType = 8"
definition NodeClassVariableType :: u32 where "NodeClassVariableType = 16"
definition NodeClassReferenceType :: u32 where "NodeClassReferenceType = 32"
definition NodeClassDataType :: u32 where "NodeClassDataType = 64"
definition NodeClassView :: u32 where "NodeClassView = 128"

definition nodeClassToString :: "u32 \<Rightarrow> string" where
  "nodeClassToString nc =
     (if nc = NodeClassObject then ''Object''
      else if nc = NodeClassVariable then ''Variable''
      else if nc = NodeClassMethod then ''Method''
      else if nc = NodeClassObjectType then ''ObjectType''
      else if nc = NodeClassVariableType then ''VariableType''
      else if nc = NodeClassReferenceType then ''ReferenceType''
      else if nc = NodeClassDataType then ''DataType''
      else if nc = NodeClassView then ''View''
      else ''Unknown'')"

definition data_type_names :: "(u32 \<times> string) list" where
  "data_type_names =
     [(1, ''Boolean''), (2, ''SByte''), (3, ''Byte''), (4, ''Int16''), (5, ''UInt16''), (6, ''Int32''), (7, ''UInt32''),
      (8, ''Int64''), (9, ''UInt64''), (10, ''Float''), (11, ''Double''), (12, ''String''), (13, ''DateTime''),
      (14, ''Guid''), (15, ''ByteString''), (16, ''XmlElement''), (17, ''NodeId''), (19, ''StatusCode''),
      (21, ''LocalizedText''), (22, ''ExtensionObject''), (24, ''BaseDataType'')]"

definition dataTypeNodeIDToString :: "('w, 'n) ua_browser \<Rightarrow> 'n \<Rightarrow> string" where
  "dataTypeNodeIDToString B n =
     (if ub_Namespace B n \<noteq> 0 then ub_String B n
      else case map_of data_type_names (ub_IntID B n) of Some name \<Rightarrow> name | None \<Rightarrow> ub_String B n)"

definition joined :: "string list \<Rightarrow> string" where
  "joined parts = (case parts of [] \<Rightarrow> '''' | p # ps \<Rightarrow> p @ concat (map (\<lambda>q. '', '' @ q) ps))"

definition accessLevelToString :: "byte \<Rightarrow> string" where
  "accessLevelToString al =
     (let parts = (if al AND 1 \<noteq> 0 then [''Read''] else []) @ (if al AND 2 \<noteq> 0 then [''Write''] else []) @
                  (if al AND 4 \<noteq> 0 then [''HistoryRead''] else []) @ (if al AND 8 \<noteq> 0 then [''HistoryWrite''] else [])
      in if parts = [] then ''None'' else joined parts)"

section \<open>One node\<close>

record node_fields =
  nf_NodeID :: string
  nf_DisplayName :: string
  nf_BrowseName :: string
  nf_NodeClass :: u32
  nf_NodeClassName :: string
  nf_DataType :: string
  nf_AccessLevel :: string
  nf_HasChildren :: bool

datatype browse_result = BrowseResult (br_fields: node_fields) (br_Children: "browse_result list")

text \<open>The result at a position, if it is there and good.\<close>

definition good_attr :: "(u32 \<times> 'n ua_attr) list \<Rightarrow> nat \<Rightarrow> 'n ua_attr option" where
  "good_attr results i =
     (if i < length results \<and> fst (results ! i) = StatusOK then Some (snd (results ! i)) else None)"

definition set_node_attributes :: "(u32 \<times> 'n ua_attr) list \<Rightarrow> node_fields \<Rightarrow> node_fields" where
  "set_node_attributes results r =
     (let r = (case good_attr results 0 of Some (AttrText s) \<Rightarrow> r\<lparr>nf_DisplayName := s\<rparr> | _ \<Rightarrow> r);
          r = (case good_attr results 1 of Some (AttrName s) \<Rightarrow> r\<lparr>nf_BrowseName := s\<rparr> | _ \<Rightarrow> r)
      in case good_attr results 2 of
           Some (AttrInt32 nc) \<Rightarrow> r\<lparr>nf_NodeClass := nc, nf_NodeClassName := nodeClassToString nc\<rparr>
         | _ \<Rightarrow> r)"

definition set_variable_attributes :: "('w, 'n) ua_browser \<Rightarrow> (u32 \<times> 'n ua_attr) list \<Rightarrow> node_fields \<Rightarrow> node_fields" where
  "set_variable_attributes B results r =
     (let r = (case good_attr results 0 of Some (AttrNode n) \<Rightarrow> r\<lparr>nf_DataType := dataTypeNodeIDToString B n\<rparr> | _ \<Rightarrow> r)
      in case good_attr results 1 of Some (AttrByte al) \<Rightarrow> r\<lparr>nf_AccessLevel := accessLevelToString al\<rparr> | _ \<Rightarrow> r)"

text \<open>An error is only logged: the fields stay as they are.\<close>

definition read_attributes ::
  "('w, 'n) ua_browser \<Rightarrow> 'n \<Rightarrow> ua_attribute list \<Rightarrow> ((u32 \<times> 'n ua_attr) list \<Rightarrow> node_fields \<Rightarrow> node_fields) \<Rightarrow>
   node_fields \<Rightarrow> ('w, 'n, node_fields) ua" where
  "read_attributes B n attrs fill r =
     bnd (field ux_client) (\<lambda>client.
     if \<not> client then ret r
     else
       bnd (call (ub_ReadAttributes B n attrs)) (\<lambda>answer.
       ret (case answer of Inl err \<Rightarrow> r | Inr results \<Rightarrow> fill results r)))"

definition readNodeAttributes :: "('w, 'n) ua_browser \<Rightarrow> 'n \<Rightarrow> node_fields \<Rightarrow> ('w, 'n, node_fields) ua" where
  "readNodeAttributes B n =
     read_attributes B n [AttributeIDDisplayName, AttributeIDBrowseName, AttributeIDNodeClass] set_node_attributes"

definition readVariableAttributes :: "('w, 'n) ua_browser \<Rightarrow> 'n \<Rightarrow> node_fields \<Rightarrow> ('w, 'n, node_fields) ua" where
  "readVariableAttributes B n =
     read_attributes B n [AttributeIDDataType, AttributeIDAccessLevel] (set_variable_attributes B)"

definition node_of :: "('w, 'n) ua_browser \<Rightarrow> 'n \<Rightarrow> ('w, 'n, node_fields) ua" where
  "node_of B n =
     bnd (readNodeAttributes B n
       \<lparr>nf_NodeID = ub_String B n, nf_DisplayName = '''', nf_BrowseName = '''', nf_NodeClass = 0,
        nf_NodeClassName = '''', nf_DataType = '''', nf_AccessLevel = '''', nf_HasChildren = False\<rparr>) (\<lambda>r.
     if nf_NodeClass r = NodeClassVariable then readVariableAttributes B n r else ret r)"

section \<open>Children\<close>

definition browse_request_for :: "('w, 'n) ua_browser \<Rightarrow> u32 \<Rightarrow> result_mask \<Rightarrow> 'n \<Rightarrow> 'n browse_request" where
  "browse_request_for B maxRefs parts n =
     \<lparr>bq_MaxReferences = maxRefs, bq_Node = n, bq_ReferenceType = ub_Numeric B 0 33,
      bq_ClassMask = NodeClassObject OR NodeClassVariable OR NodeClassMethod, bq_ResultMask = parts\<rparr>"

definition checkHasChildren :: "('w, 'n) ua_browser \<Rightarrow> 'n \<Rightarrow> ('w, 'n, bool) ua" where
  "checkHasChildren B n =
     bnd (field ux_client) (\<lambda>client.
     if \<not> client then ret False
     else
       bnd (call (ub_Browse B (browse_request_for B 1 BrowseResultMaskNodeClass n))) (\<lambda>answer.
       ret (case answer of
         Inr (page # _) \<Rightarrow> bp_Status page = StatusOK \<and> bp_References page \<noteq> []
       | _ \<Rightarrow> False)))"

text \<open>The pages after a first one: an error or a bad status ends them.\<close>

partial_function (option) browse_rest ::
  "('w, 'n) ua_browser \<Rightarrow> bytes \<Rightarrow> 'n list \<Rightarrow> 'w \<Rightarrow> ('n list run \<times> 'w) option" where
  "browse_rest B point refs w =
     (if point = [] then Some (Val refs, w)
      else case ub_BrowseNext B point w of
        (Inr (page # pages), w') \<Rightarrow>
          if bp_Status page = StatusOK then browse_rest B (bp_Continuation page) (refs @ bp_References page) w'
          else Some (Val refs, w')
      | (_, w') \<Rightarrow> Some (Val refs, w'))"

definition browseChildren :: "('w, 'n) ua_browser \<Rightarrow> 'n \<Rightarrow> ('w, 'n, gerror + 'n list) uao" where
  "browseChildren B n =
     obnd (always (field ux_client)) (\<lambda>client.
     if \<not> client then always (ret (Inl ua_closed))
     else
       obnd (always (call (ub_Browse B (browse_request_for B 1000 BrowseResultMaskAll n)))) (\<lambda>answer.
       case answer of
         Inl err \<Rightarrow> always (ret (Inl err))
       | Inr [] \<Rightarrow> always (ret (Inr []))
       | Inr (page # _) \<Rightarrow>
           if bp_Status page \<noteq> StatusOK
           then always (ret (Inl (Text (''browse failed: status code '' @ dec (uint (bp_Status page))))))
           else
             obnd (oworld (browse_rest B (bp_Continuation page) (bp_References page))) (\<lambda>refs.
             always (ret (Inr refs)))))"

section \<open>The tree\<close>

text \<open>The children that can be browsed, in order; the others are only logged.\<close>

fun browse_each :: "('n \<Rightarrow> ('w, 'n, gerror + browse_result) uao) \<Rightarrow> 'n list \<Rightarrow> ('w, 'n, browse_result list) uao" where
  "browse_each browse [] = always (ret [])"
| "browse_each browse (child # children) =
     obnd (browse child) (\<lambda>result.
     obnd (browse_each browse children) (\<lambda>results.
     always (ret (case result of Inl err \<Rightarrow> results | Inr r \<Rightarrow> r # results))))"

text \<open>The first argument is what is left of the depth: \<open>maxDepth - currentDepth\<close>.\<close>

fun browseNode :: "('w, 'n) ua_browser \<Rightarrow> nat \<Rightarrow> 'n \<Rightarrow> ('w, 'n, gerror + browse_result) uao" where
  "browseNode B depth n =
     obnd (always (field ux_client)) (\<lambda>client.
     if \<not> client then always (ret (Inl ua_closed))
     else
       obnd (always (node_of B n)) (\<lambda>r.
       case depth of
         0 \<Rightarrow>
           obnd (always (checkHasChildren B n)) (\<lambda>has.
           always (ret (Inr (BrowseResult (r\<lparr>nf_HasChildren := has\<rparr>) []))))
       | Suc depth \<Rightarrow>
           obnd (browseChildren B n) (\<lambda>children.
           case children of
             Inl err \<Rightarrow> always (ret (Inr (BrowseResult r [])))
           | Inr children \<Rightarrow>
               obnd (browse_each (browseNode B depth) children) (\<lambda>results.
               always (ret (Inr (BrowseResult (r\<lparr>nf_HasChildren := children \<noteq> []\<rparr>) results)))))))"

definition ua_Browse ::
  "('w, 'n, 'k) ua_env \<Rightarrow> ('w, 'n) ua_browser \<Rightarrow> string \<Rightarrow> int \<Rightarrow> ('w, 'n, gerror + browse_result) uao" where
  "ua_Browse E B nodeID maxDepth =
     obnd (always (field ux_connected)) (\<lambda>connected.
     if \<not> connected then always (ret (Inl ua_closed))
     else
       obnd (always (ua_touch E)) (\<lambda>_.
       obnd (always (if nodeID = '''' then ret (Inr (ub_Numeric B 0 85)) else getNodeID E nodeID)) (\<lambda>start.
       case start of
         Inl err \<Rightarrow> always (ret (Inl (WrapW ''invalid node ID'' err)))
       | Inr n \<Rightarrow> browseNode B (nat (max 1 maxDepth)) n)))"

end
