(* ===== verification/OpcuaBrowseProps.thy ===== *)
theory OpcuaBrowseProps
  imports OpcuaBrowse
begin

text \<open>
  Browsing an OPC UA server returns when every sequence of pages ends, and then a tree no deeper than asked;
  it does not return when a server keeps handing out pages.
\<close>

section \<open>Browsing returns\<close>

definition returns :: "('s, 'a) oprog \<Rightarrow> bool" where
  "returns m \<longleftrightarrow> (\<forall>s. \<exists>out. m s = Some out)"

lemma returns_forms [intro!]:
  "returns (always m)"
  "(\<And>w. \<exists>out. g w = Some out) \<Longrightarrow> returns (oworld g)"
  by (auto simp: returns_def always_def oworld_def split: option.split)

lemma returns_obnd [intro]:
  assumes "returns m" "\<And>a. returns (f a)"
  shows "returns (obnd m f)"
  unfolding returns_def
proof
  fix s
  obtain r s' where "m s = Some (r, s')" using assms(1) unfolding returns_def by (metis surj_pair)
  then show "\<exists>out. obnd m f s = Some out" using assms(2) by (cases r) (auto simp: obnd_def returns_def)
qed

lemma returns_cases [intro]:
  "(b \<Longrightarrow> returns m) \<Longrightarrow> (\<not> b \<Longrightarrow> returns n) \<Longrightarrow> returns (if b then m else n)"
  "(\<And>a. returns (f a)) \<Longrightarrow> (\<And>b. returns (g b)) \<Longrightarrow> returns (case x of Inl a \<Rightarrow> f a | Inr b \<Rightarrow> g b)"
  "returns m \<Longrightarrow> (\<And>a as. returns (h a as)) \<Longrightarrow> returns (case xs of [] \<Rightarrow> m | a # as \<Rightarrow> h a as)"
  by (auto split: sum.split list.split)

text \<open>Every sequence of pages ends: each further page brings \<open>left\<close> down.\<close>

definition pages_end :: "('w, 'n) ua_browser \<Rightarrow> ('w \<Rightarrow> nat) \<Rightarrow> bool" where
  "pages_end B left \<longleftrightarrow>
     (\<forall>point w. case ub_BrowseNext B point w of
        (Inr (page # pages), w') \<Rightarrow> bp_Continuation page = [] \<or> left w' < left w
      | _ \<Rightarrow> True)"

lemma browse_rest_returns:
  assumes "pages_end B left"
  shows "\<exists>out. browse_rest B point refs w = Some out"
proof (induction "left w" arbitrary: point refs w rule: less_induct)
  case less
  obtain answer w' where step: "ub_BrowseNext B point w = (answer, w')" by (cases "ub_BrowseNext B point w")
  have end_here: "\<exists>out. browse_rest B [] refs w = Some out" for refs w by (subst browse_rest.simps) simp
  consider (page) page pages where "answer = Inr (page # pages)" | (other) "\<nexists>page pages. answer = Inr (page # pages)" by blast
  then show ?case
  proof cases
    case page
    then have "bp_Continuation page = [] \<or> left w' < left w"
      using assms step unfolding pages_end_def by (auto dest!: spec[of _ point] spec[of _ w])
    then have "\<exists>out. browse_rest B (bp_Continuation page) refs w' = Some out" for refs
      using less end_here by (metis (full_types))
    then show ?thesis using page step by (subst browse_rest.simps) auto
  next
    case other
    then show ?thesis using step by (subst browse_rest.simps) (auto split: sum.split list.split)
  qed
qed

lemma browseChildren_returns: "pages_end B left \<Longrightarrow> returns (browseChildren B n)"
  unfolding browseChildren_def by (intro returns_obnd returns_cases returns_forms browse_rest_returns)

lemma browse_each_returns: "(\<And>n. returns (browse n)) \<Longrightarrow> returns (browse_each browse ns)"
  by (induction ns) auto

lemma browseNode_returns: "pages_end B left \<Longrightarrow> returns (browseNode B depth n)"
proof (induction depth arbitrary: n)
  case 0
  show ?case by (subst browseNode.simps, simp only: nat.case) (intro returns_obnd returns_cases returns_forms)
next
  case (Suc depth)
  show ?case
    by (subst browseNode.simps, simp only: nat.case)
      (intro returns_obnd returns_cases returns_forms browseChildren_returns[OF Suc.prems] browse_each_returns Suc.IH Suc.prems)
qed

text \<open>C39. Browsing returns when every sequence of pages of the server ends.\<close>

theorem browsing_returns:
  assumes "pages_end B left"
  shows "\<exists>out. ua_Browse E B nodeID maxDepth s = Some out"
proof -
  have "returns (ua_Browse E B nodeID maxDepth)"
    unfolding ua_Browse_def by (intro returns_obnd returns_cases returns_forms browseNode_returns[OF assms])
  then show ?thesis unfolding returns_def by (rule spec)
qed

text \<open>A server whose world counts the pages it still has.\<close>

definition paged_browser :: "(nat, nat) ua_browser" where
  "paged_browser =
     \<lparr>ub_ReadAttributes = \<lambda>n attrs w. (Inr [], w),
      ub_Browse = \<lambda>rq w. (Inr [\<lparr>bp_Status = StatusOK, bp_References = [7], bp_Continuation = [1]\<rparr>], 3),
      ub_BrowseNext = \<lambda>point w.
        (Inr [\<lparr>bp_Status = StatusOK, bp_References = [w], bp_Continuation = (if w = 0 then [] else [1])\<rparr>], w - 1),
      ub_String = \<lambda>n. '''', ub_Namespace = \<lambda>n. 0, ub_IntID = \<lambda>n. 0, ub_Numeric = \<lambda>ns i. unat i\<rparr>"

theorem browsing_returns_witness:
  "\<forall>(E :: (nat, nat, unit) ua_env) s. \<exists>out. ua_Browse E paged_browser '''' 2 s = Some out"
proof -
  have "pages_end paged_browser id" by (simp add: pages_end_def paged_browser_def)
  then show ?thesis by (intro allI) (rule browsing_returns)
qed

section \<open>Endless pages\<close>

text \<open>A server that answers every request with a page and a continuation point.\<close>

abbreviation endless ::
  "'n list \<Rightarrow> byte \<Rightarrow> ('n browse_request \<Rightarrow> 'w \<Rightarrow> 'w) \<Rightarrow> (bytes \<Rightarrow> 'w \<Rightarrow> 'w) \<Rightarrow> ('w, 'n) ua_browser \<Rightarrow> ('w, 'n) ua_browser" where
  "endless refs b f g B \<equiv>
     B\<lparr>ub_Browse := \<lambda>rq w. (Inr [\<lparr>bp_Status = StatusOK, bp_References = refs, bp_Continuation = [b]\<rparr>], f rq w),
       ub_BrowseNext := \<lambda>point w. (Inr [\<lparr>bp_Status = StatusOK, bp_References = refs, bp_Continuation = [b]\<rparr>], g point w)\<rparr>"

lemma endless_rest: "browse_rest (endless refs b f g B) [b] rs w = None"
proof (rule ccontr)
  assume "browse_rest (endless refs b f g B) [b] rs w \<noteq> None"
  then obtain out where out: "browse_rest (endless refs b f g B) [b] rs w = Some out" by blast
  have "B' = endless refs b f g B \<longrightarrow> point \<noteq> [b]" if "browse_rest B' point rs w = Some out" for B' point rs w out
  proof (rule browse_rest.raw_induct [where P = "\<lambda>B' point rs w out. B' = endless refs b f g B \<longrightarrow> point \<noteq> [b]", OF _ that])
    fix h B' point rs w out
    assume IH: "\<And>B' point rs w out. h B' point rs w = Some out \<Longrightarrow> B' = endless refs b f g B \<longrightarrow> point \<noteq> [b]"
      and eq: "(if point = [] then Some (Val rs, w)
        else case ub_BrowseNext B' point w of
          (Inr (page # pages), w') \<Rightarrow>
            if bp_Status page = StatusOK then h B' (bp_Continuation page) (rs @ bp_References page) w' else Some (Val rs, w')
        | (_, w') \<Rightarrow> Some (Val rs, w')) = Some out"
    show "B' = endless refs b f g B \<longrightarrow> point \<noteq> [b]"
      using eq IH[of B' "[b]" "rs @ refs" "g [b] w" out] by auto
  qed
  with out show False by blast
qed

lemma read_attributes_run: "\<exists>r' w'. read_attributes B n attrs fill r (c, w) = (Val r', (c, w'))"
  by (cases "ub_ReadAttributes B n attrs w") (simp add: read_attributes_def run_simps ret_def)

lemma node_of_run: "\<exists>r w'. node_of B n (c, w) = (Val r, (c, w'))"
proof -
  obtain r w1 where r: "readNodeAttributes B n
       \<lparr>nf_NodeID = ub_String B n, nf_DisplayName = '''', nf_BrowseName = '''', nf_NodeClass = 0,
        nf_NodeClassName = '''', nf_DataType = '''', nf_AccessLevel = '''', nf_HasChildren = False\<rparr> (c, w) = (Val r, (c, w1))"
    unfolding readNodeAttributes_def using read_attributes_run by metis
  obtain r' w2 where "readVariableAttributes B n r (c, w1) = (Val r', (c, w2))"
    unfolding readVariableAttributes_def using read_attributes_run by metis
  with r show ?thesis by (simp add: node_of_def run_simps ret_def)
qed

text \<open>A server that always answers with another page keeps a connected client browsing for ever.\<close>

theorem endless_pages_never_return:
  "ua_Browse E (endless refs b f g B) '''' maxDepth (c\<lparr>ux_connected := True, ux_client := True\<rparr>, w) = None"
proof -
  let ?B = "endless refs b f g B"
  have children: "browseChildren ?B n (c, w) = None" if "ux_client c" for n c w
    using that by (simp add: browseChildren_def obnd_def always_def run_simps field_def call_def oworld_def endless_rest)
  have node: "browseNode ?B (Suc depth) n (c, w) = None" if "ux_client c" for depth n c w
    using node_of_run[of ?B n c w] that
    by (auto simp: obnd_def always_def field_def children)
  obtain depth where depth: "nat (max 1 maxDepth) = Suc depth" by (cases "nat (max 1 maxDepth)") auto
  show ?thesis
    by (simp add: ua_Browse_def obnd_def always_def field_def ua_touch_def run_simps depth ret_def node del: browseNode.simps
      split: prod.split)
qed

section \<open>The tree\<close>

text \<open>No deeper than \<open>depth\<close>; only a node marked so has children, and only a variable has a data type or an access level.\<close>

fun tree_within :: "nat \<Rightarrow> browse_result \<Rightarrow> bool" where
  "tree_within depth (BrowseResult r children) \<longleftrightarrow>
     (nf_NodeClass r = NodeClassVariable \<or> nf_DataType r = '''' \<and> nf_AccessLevel r = '''') \<and>
     (children = [] \<or> nf_HasChildren r \<and> 0 < depth \<and> list_all (tree_within (depth - 1)) children)"

definition fields_fit :: "node_fields \<Rightarrow> bool" where
  "fields_fit r \<longleftrightarrow> nf_NodeClass r = NodeClassVariable \<or> nf_DataType r = '''' \<and> nf_AccessLevel r = ''''"

abbreviation mostly :: "('s, 'a) oprog \<Rightarrow> ('a \<Rightarrow> bool) \<Rightarrow> bool" where
  "mostly m Q \<equiv> partly (\<lambda>s. True) m (\<lambda>a s. Q a) (\<lambda>s. True)"

lemma mostly_obnd: "mostly m R \<Longrightarrow> (\<And>a. R a \<Longrightarrow> mostly (f a) Q) \<Longrightarrow> mostly (obnd m f) Q"
  by (rule partly_obnd[where R = "\<lambda>a s. R a"]) (auto simp: partly_def)

lemma mostly_any: "mostly m (\<lambda>a. True)"
  by (simp add: partly_def)

lemma mostly_ret: "Q a \<Longrightarrow> mostly (always (ret a)) Q"
  by (simp add: partly_def always_def ret_def)

lemma mostly_sum:
  "(\<And>a. x = Inl a \<Longrightarrow> mostly (f a) Q) \<Longrightarrow> (\<And>b. x = Inr b \<Longrightarrow> mostly (g b) Q) \<Longrightarrow>
   mostly (case x of Inl a \<Rightarrow> f a | Inr b \<Rightarrow> g b) Q"
  by (simp split: sum.split)

lemma always_bnd: "always (bnd m f) = obnd (always m) (\<lambda>a. always (f a))"
  by (auto simp: fun_eq_iff obnd_def always_def bnd_def split: prod.split run.split)

lemma read_attributes_fields:
  "mostly (always (read_attributes B n attrs fill r)) (\<lambda>r'. r' = r \<or> (\<exists>results. r' = fill results r))"
  unfolding read_attributes_def always_bnd if_distrib[of always]
  by (intro mostly_obnd[OF mostly_any] partly_if mostly_ret) (auto split: sum.split)

lemma set_fields:
  "nf_DataType (set_node_attributes results r) = nf_DataType r"
  "nf_AccessLevel (set_node_attributes results r) = nf_AccessLevel r"
  "nf_NodeClass (set_variable_attributes B results r) = nf_NodeClass r"
  by (simp_all add: set_node_attributes_def set_variable_attributes_def Let_def split: option.split ua_attr.split)

lemma node_of_fits: "mostly (always (node_of B n)) fields_fit"
  unfolding node_of_def always_bnd if_distrib[of always] readNodeAttributes_def readVariableAttributes_def
  by (rule mostly_obnd[OF read_attributes_fields], rule partly_if, rule partly_post[OF read_attributes_fields])
    (auto simp: fields_fit_def set_fields intro!: mostly_ret)

lemma browse_each_all:
  assumes "\<And>n. mostly (browse n) (\<lambda>a. case a of Inl e \<Rightarrow> True | Inr r \<Rightarrow> P r)"
  shows "mostly (browse_each browse ns) (\<lambda>rs. list_all P rs \<and> (ns = [] \<longrightarrow> rs = []))"
proof (induction ns)
  case (Cons n ns)
  show ?case unfolding browse_each.simps
    by (intro mostly_obnd[OF assms] mostly_obnd[OF Cons] mostly_ret) (auto split: sum.splits)
qed (simp add: mostly_ret)

lemma browseNode_within: "mostly (browseNode B depth n) (\<lambda>a. case a of Inl e \<Rightarrow> True | Inr r \<Rightarrow> tree_within depth r)"
proof (induction depth arbitrary: n)
  case 0
  show ?case
    by (subst browseNode.simps, simp only: nat.case, intro mostly_obnd[OF node_of_fits] mostly_obnd[OF mostly_any] partly_if mostly_ret)
      (auto simp: fields_fit_def)
next
  case (Suc depth)
  show ?case
    by (subst browseNode.simps, simp only: nat.case,
      intro mostly_obnd[OF node_of_fits] mostly_obnd[OF browse_each_all[OF Suc]] mostly_obnd[OF mostly_any] partly_if mostly_sum mostly_ret)
      (auto simp: fields_fit_def list_all_iff)
qed

text \<open>C40. What browsing answers is a tree no deeper than asked, and at least one level, whose nodes with children say so
  and whose other nodes than variables have neither a data type nor an access level.\<close>

theorem browsing_answers_a_tree:
  "case ua_Browse E B nodeID maxDepth s of
     Some (Val (Inr r), s') \<Rightarrow> tree_within (nat (max 1 maxDepth)) r
   | _ \<Rightarrow> True"
proof -
  have "mostly (ua_Browse E B nodeID maxDepth) (\<lambda>a. case a of Inl e \<Rightarrow> True | Inr r \<Rightarrow> tree_within (nat (max 1 maxDepth)) r)"
    unfolding ua_Browse_def
    by (intro mostly_obnd[OF mostly_any] partly_if mostly_sum mostly_ret browseNode_within) simp_all
  then show ?thesis by (cases s) (auto simp: partly_def split: option.split run.split sum.splits)
qed

end
