(* ===== verification/OpcuaSubscription.thy ===== *)
theory OpcuaSubscription
  imports OpcuaAnswers Polling GoFocus
begin

text \<open>
  Subscriptions of an OPC UA client (\<open>adapter/opcua/subscription.go\<close>): one per device, with the items it
  monitors, the goroutine that handles its notifications, and the last value of each tag. The subscriptions
  of \<open>gopcua\<close> and the handler of the data are the parameter \<open>sub_env\<close>. A method runs as one sequence; an
  event of a goroutine is an operation of its own. Waiting for a goroutine that has been told to stop is no step.
\<close>

section \<open>Fields\<close>

record subscription_config =
  sf_PublishInterval :: int
  sf_SamplingInterval :: int
  sf_QueueSize :: u32
  sf_DiscardOldest :: bool
  sf_DeadbandType :: string
  sf_DeadbandValue :: f64

definition DefaultSubscriptionConfig :: subscription_config where
  "DefaultSubscriptionConfig =
     \<lparr>sf_PublishInterval = 1000000000, sf_SamplingInterval = 500000000, sf_QueueSize = 10, sf_DiscardOldest = True,
      sf_DeadbandType = ''None'', sf_DeadbandValue = f64_zero\<rparr>"

text \<open>
  \<open>su_opcuaSub\<close>: the field is not nil. \<open>su_done\<close>, \<open>su_closed\<close>: the channels \<open>doneCh\<close> and \<open>notifyCh\<close> are closed.
  \<open>su_handling\<close>: the goroutine of the handler runs.
\<close>

record subscription =
  su_ID :: u32
  su_Device :: device
  su_Tags :: "string \<rightharpoonup> tag"
  su_TagList :: "tag list"
  su_MonitoredItems :: "(string \<times> u32) list"
  su_LastValues :: "(string \<times> data_point) list"
  su_opcuaSub :: bool
  su_done :: bool
  su_closed :: bool
  su_handling :: bool
  su_publishInterval :: int
  su_active :: bool

text \<open>\<open>sm_cancelled\<close>: the context of the manager.\<close>

record 'n subscription_manager =
  sm_client :: "'n ua_client"
  sm_subscriptions :: "(string \<times> subscription) list"
  sm_publishInterval :: int
  sm_queueSize :: u32
  sm_running :: bool
  sm_cancelled :: bool

definition NewSubscriptionManager :: "'n ua_client \<Rightarrow> 'n subscription_manager" where
  "NewSubscriptionManager client =
     \<lparr>sm_client = client, sm_subscriptions = [], sm_publishInterval = 1000000000, sm_queueSize = 10,
      sm_running = False, sm_cancelled = False\<rparr>"

section \<open>What it uses of the library\<close>

record 'n monitor_request =
  mq_Node :: 'n
  mq_ClientHandle :: u32
  mq_SamplingInterval :: f64
  mq_QueueSize :: u32
  mq_DiscardOldest :: bool
  mq_Filter :: "(u32 \<times> f64) option"

record monitored_item =
  mi_ClientHandle :: u32
  mi_Value :: "ua_value option"

datatype notification = NoValue | DataChange "monitored_item option list" | EventList

text \<open>
  A result of \<open>sb_Monitor\<close> is a status and the ID of the monitored item; there may be no answer at all.
\<close>

record ('w, 'n) sub_env =
  sb_Subscribe :: "bool \<Rightarrow> int \<Rightarrow> 'w \<Rightarrow> (gerror + u32) \<times> 'w"
  sb_Monitor :: "bool \<Rightarrow> u32 \<Rightarrow> 'n monitor_request list \<Rightarrow> 'w \<Rightarrow> (gerror + (u32 \<times> u32) list option) \<times> 'w"
  sb_Cancel :: "bool \<Rightarrow> u32 \<Rightarrow> 'w \<Rightarrow> gerror option \<times> 'w"
  sb_dataHandler :: "(data_point \<Rightarrow> 'w \<Rightarrow> unit \<times> 'w) option"
  sb_order :: "string list \<Rightarrow> 'w \<Rightarrow> string list \<times> 'w"

type_synonym ('w, 'n, 'a) sub = "('n subscription_manager \<times> 'w, 'a) prog"

definition on_ua :: "('w, 'n, 'a) ua \<Rightarrow> ('w, 'n, 'a) sub" where
  "on_ua = focus (\<lambda>sm. Some (sm_client sm)) (\<lambda>c sm. sm\<lparr>sm_client := c\<rparr>)"

definition subscription_at :: "string \<Rightarrow> 'n subscription_manager \<Rightarrow> subscription option" where
  "subscription_at i sm = map_of (sm_subscriptions sm) i"

definition on_subscription :: "string \<Rightarrow> (subscription \<Rightarrow> subscription) \<Rightarrow> ('w, 'n, unit) sub" where
  "on_subscription i f = upd (\<lambda>sm. sm\<lparr>sm_subscriptions := update_entry i f (sm_subscriptions sm)\<rparr>)"

definition delete_subscription :: "string \<Rightarrow> ('w, 'n, unit) sub" where
  "delete_subscription i = upd (\<lambda>sm. sm\<lparr>sm_subscriptions := AList.delete i (sm_subscriptions sm)\<rparr>)"

section \<open>Starting\<close>

definition sm_Start :: "('w, 'n, gerror option) sub" where
  "sm_Start =
     bnd (field sm_running) (\<lambda>running.
     if running then ret None
     else
       bnd (field (\<lambda>sm. ua_IsConnected (sm_client sm))) (\<lambda>connected.
       if \<not> connected then ret (Some ua_closed)
       else bnd (upd (sm_running_update (\<lambda>_. True))) (\<lambda>_. ret None)))"

section \<open>Creating a subscription\<close>

definition deadband_filter :: "subscription_config \<Rightarrow> (u32 \<times> f64) option" where
  "deadband_filter config =
     (if sf_DeadbandType config = ''Absolute'' then Some (1, sf_DeadbandValue config)
      else if sf_DeadbandType config = ''Percent'' then Some (2, sf_DeadbandValue config)
      else None)"

text \<open>The tags whose node ID resolves, with it, in order; the namespace URI of a tag is not looked at.\<close>

fun monitored_tags :: "('w, 'n, 'k) ua_env \<Rightarrow> tag list \<Rightarrow> ('w, 'n, ('n \<times> tag) list) ua" where
  "monitored_tags E [] = ret []"
| "monitored_tags E (t # ts) =
     bnd (getNodeID E (tag_OPCNodeID t)) (\<lambda>node.
     bnd (monitored_tags E ts) (\<lambda>rest.
     ret (case node of Inl err \<Rightarrow> rest | Inr n \<Rightarrow> (n, t) # rest)))"

text \<open>The handles count the requests, not the tags.\<close>

definition monitor_request_for :: "subscription_config \<Rightarrow> nat \<Rightarrow> 'n \<Rightarrow> 'n monitor_request" where
  "monitor_request_for config h n =
     \<lparr>mq_Node = n, mq_ClientHandle = word_of_nat h,
      mq_SamplingInterval = f64_of_int (tdiv (sf_SamplingInterval config) 1000000),
      mq_QueueSize = sf_QueueSize config, mq_DiscardOldest = sf_DiscardOldest config,
      mq_Filter = (if sf_DeadbandType config \<noteq> ''None'' \<and> f64_lt f64_zero (sf_DeadbandValue config)
                   then deadband_filter config else None)\<rparr>"

definition monitor_requests :: "subscription_config \<Rightarrow> 'n list \<Rightarrow> 'n monitor_request list" where
  "monitor_requests config nodes = map (\<lambda>h. monitor_request_for config h (nodes ! h)) [0..<length nodes]"

text \<open>Result \<open>i\<close> is filed under tag \<open>i\<close> of the list.\<close>

definition monitored_items :: "tag list \<Rightarrow> (u32 \<times> u32) list \<Rightarrow> (string \<times> u32) list" where
  "monitored_items tags results =
     fold (\<lambda>(t, status, item). if status = StatusOK then AList.update (tag_ID t) item else id) (zip tags results) []"

definition subscription_failed :: "string \<Rightarrow> gerror \<Rightarrow> gerror" where
  "subscription_failed what err = WrapV (OpcuaE ErrOPCUASubscriptionFailed) (what @ error_text err)"

definition createOPCSubscription ::
  "('w, 'n, 'k) ua_env \<Rightarrow> ('w, 'n) sub_env \<Rightarrow> string \<Rightarrow> tag list \<Rightarrow> subscription_config \<Rightarrow> ('w, 'n, gerror option) sub" where
  "createOPCSubscription E B i tags config =
     bnd (field (\<lambda>sm. (ua_IsConnected (sm_client sm), ux_client (sm_client sm), sm_cancelled sm))) (\<lambda>(connected, client, cancelled).
     if \<not> connected \<or> \<not> client then ret (Some ua_closed)
     else
       bnd (call (sb_Subscribe B cancelled (sf_PublishInterval config))) (\<lambda>answer.
       case answer of
         Inl err \<Rightarrow> ret (Some (subscription_failed ''failed to create subscription: '' err))
       | Inr subID \<Rightarrow>
           bnd (on_subscription i (\<lambda>su. su\<lparr>su_opcuaSub := True, su_ID := subID\<rparr>)) (\<lambda>_.
           bnd (on_ua (monitored_tags E tags)) (\<lambda>valid.
           if valid = [] then
             bnd (call (sb_Cancel B cancelled subID)) (\<lambda>_. ret (Some (Text ''no valid tags to monitor'')))
           else
             bnd (call (sb_Monitor B cancelled subID (monitor_requests config (map fst valid)))) (\<lambda>answer.
             case answer of
               Inl err \<Rightarrow>
                 bnd (call (sb_Cancel B cancelled subID)) (\<lambda>_.
                 ret (Some (subscription_failed ''failed to create monitored items: '' err)))
             | Inr results \<Rightarrow>
                 bnd (on_subscription i (\<lambda>su. su\<lparr>su_handling := True,
                   su_MonitoredItems := (case results of None \<Rightarrow> [] | Some rs \<Rightarrow> monitored_items tags rs)\<rparr>)) (\<lambda>_.
                 ret None))))))"

definition new_subscription :: "device \<Rightarrow> tag list \<Rightarrow> subscription_config \<Rightarrow> subscription" where
  "new_subscription d tags config =
     \<lparr>su_ID = 0, su_Device = d, su_Tags = map_of (rev (map (\<lambda>t. (tag_ID t, t)) tags)), su_TagList = tags,
      su_MonitoredItems = [], su_LastValues = [], su_opcuaSub = False, su_done = False, su_closed = False,
      su_handling = False, su_publishInterval = sf_PublishInterval config, su_active = False\<rparr>"

definition add_subscription ::
  "('w, 'n, 'k) ua_env \<Rightarrow> ('w, 'n) sub_env \<Rightarrow> device \<Rightarrow> tag list \<Rightarrow> subscription_config \<Rightarrow> ('w, 'n, gerror option) sub" where
  "add_subscription E B d tags config =
     bnd (upd (\<lambda>sm. sm\<lparr>sm_subscriptions := AList.update (dev_ID d) (new_subscription d tags config) (sm_subscriptions sm)\<rparr>)) (\<lambda>_.
     bnd (createOPCSubscription E B (dev_ID d) tags config) (\<lambda>err.
     case err of
       Some e \<Rightarrow> bnd (delete_subscription (dev_ID d)) (\<lambda>_. ret (Some e))
     | None \<Rightarrow> bnd (on_subscription (dev_ID d) (su_active_update (\<lambda>_. True))) (\<lambda>_. ret None)))"

section \<open>Removing one\<close>

text \<open>Closing a closed channel panics. The goroutine ends before the second channel is closed.\<close>

definition unsubscribeDeviceLocked :: "('w, 'n) sub_env \<Rightarrow> string \<Rightarrow> ('w, 'n, gerror option) sub" where
  "unsubscribeDeviceLocked B i =
     bnd (field (\<lambda>sm. (subscription_at i sm, sm_cancelled sm))) (\<lambda>(sub, cancelled).
     case sub of
       None \<Rightarrow> ret (Some (Sentinel (ServiceE ErrDeviceNotFound)))
     | Some su \<Rightarrow>
         if su_done su then panic ''close of closed channel''
         else
           bnd (on_subscription i (\<lambda>su. su\<lparr>su_active := False, su_done := True\<rparr>)) (\<lambda>_.
           bnd (if su_opcuaSub su then call (sb_Cancel B cancelled (su_ID su)) else ret None) (\<lambda>_.
           bnd (on_subscription i (su_handling_update (\<lambda>_. False))) (\<lambda>_.
           if su_closed su then panic ''close of closed channel''
           else
             bnd (on_subscription i (su_closed_update (\<lambda>_. True))) (\<lambda>_.
             bnd (delete_subscription i) (\<lambda>_.
             ret None))))))"

definition sm_Unsubscribe :: "('w, 'n) sub_env \<Rightarrow> string \<Rightarrow> ('w, 'n, gerror option) sub" where
  "sm_Unsubscribe = unsubscribeDeviceLocked"

fun unsubscribe_each :: "('w, 'n) sub_env \<Rightarrow> string list \<Rightarrow> ('w, 'n, unit) sub" where
  "unsubscribe_each B [] = ret ()"
| "unsubscribe_each B (i # is) = bnd (unsubscribeDeviceLocked B i) (\<lambda>_. unsubscribe_each B is)"

definition sm_Stop :: "('w, 'n) sub_env \<Rightarrow> ('w, 'n, gerror option) sub" where
  "sm_Stop B =
     bnd (field sm_running) (\<lambda>running.
     if \<not> running then ret None
     else
       bnd (upd (\<lambda>sm. sm\<lparr>sm_cancelled := True, sm_running := False\<rparr>)) (\<lambda>_.
       bnd (field (\<lambda>sm. map fst (sm_subscriptions sm))) (\<lambda>ids.
       bnd (call (sb_order B ids)) (\<lambda>ids.
       bnd (unsubscribe_each B ids) (\<lambda>_.
       bnd (upd (sm_subscriptions_update (\<lambda>_. []))) (\<lambda>_.
       ret None))))))"

definition updateSubscriptionLocked ::
  "('w, 'n, 'k) ua_env \<Rightarrow> ('w, 'n) sub_env \<Rightarrow> device \<Rightarrow> tag list \<Rightarrow> subscription_config \<Rightarrow> ('w, 'n, gerror option) sub" where
  "updateSubscriptionLocked E B d tags config =
     bnd (unsubscribeDeviceLocked B (dev_ID d)) (\<lambda>err.
     if err \<noteq> None \<and> err \<noteq> Some (Sentinel (ServiceE ErrDeviceNotFound)) then ret err
     else add_subscription E B d tags config)"

definition sm_Subscribe ::
  "('w, 'n, 'k) ua_env \<Rightarrow> ('w, 'n) sub_env \<Rightarrow> device \<Rightarrow> tag list \<Rightarrow> subscription_config \<Rightarrow> ('w, 'n, gerror option) sub" where
  "sm_Subscribe E B d tags config =
     bnd (field sm_running) (\<lambda>running.
     if \<not> running then ret (Some (Sentinel (ServiceE ErrServiceNotStarted)))
     else
       bnd (field (subscription_at (dev_ID d))) (\<lambda>sub.
       if sub \<noteq> None then updateSubscriptionLocked E B d tags config
       else add_subscription E B d tags config))"

section \<open>Notifications\<close>

definition tag_of_handle :: "tag list \<Rightarrow> u32 \<Rightarrow> tag option" where
  "tag_of_handle tags h = (if unat h < length tags then Some (tags ! unat h) else None)"

definition count_notification :: "'n ua_client \<Rightarrow> 'n ua_client" where
  "count_notification = ua_count (\<lambda>st. st\<lparr>us_NotificationCount := us_NotificationCount st + 1\<rparr>)"

definition processDataChange ::
  "('w, 'n, 'k) ua_env \<Rightarrow> ('w, 'n) sub_env \<Rightarrow> string \<Rightarrow> monitored_item option \<Rightarrow> ('w, 'n, unit) sub" where
  "processDataChange E B i item =
     bnd (field (subscription_at i)) (\<lambda>sub.
     case sub of
       None \<Rightarrow> ret ()
     | Some su \<Rightarrow>
         (case item of
            None \<Rightarrow> ret ()
          | Some it \<Rightarrow>
              (case mi_Value it of
                 None \<Rightarrow> ret ()
               | Some v \<Rightarrow>
                   (case tag_of_handle (su_TagList su) (mi_ClientHandle it) of
                      None \<Rightarrow> ret ()
                    | Some t \<Rightarrow>
                        bnd (on_ua (processReadResult E v t)) (\<lambda>dp.
                        let dp = dp\<lparr>dp_Topic := topicForTag (dev_UNSPrefix (su_Device su)) t\<rparr> in
                        bnd (on_subscription i (su_LastValues_update (AList.update (tag_ID t) dp))) (\<lambda>_.
                        bnd (case sb_dataHandler B of None \<Rightarrow> ret () | Some h \<Rightarrow> call (h dp)) (\<lambda>_.
                        on_ua (upd count_notification))))))))"

fun process_changes ::
  "('w, 'n, 'k) ua_env \<Rightarrow> ('w, 'n) sub_env \<Rightarrow> string \<Rightarrow> monitored_item option list \<Rightarrow> ('w, 'n, unit) sub" where
  "process_changes E B i [] = ret ()"
| "process_changes E B i (item # items) = bnd (processDataChange E B i item) (\<lambda>_. process_changes E B i items)"

definition processNotification ::
  "('w, 'n, 'k) ua_env \<Rightarrow> ('w, 'n) sub_env \<Rightarrow> string \<Rightarrow> notification \<Rightarrow> ('w, 'n, unit) sub" where
  "processNotification E B i notif = (case notif of DataChange items \<Rightarrow> process_changes E B i items | _ \<Rightarrow> ret ())"

datatype sub_event = ContextDone | DoneSignal | NotifyClosed | Notified notification

text \<open>One turn of the handler's loop; the result says whether it goes on.\<close>

definition handle_event ::
  "('w, 'n, 'k) ua_env \<Rightarrow> ('w, 'n) sub_env \<Rightarrow> string \<Rightarrow> sub_event \<Rightarrow> ('w, 'n, bool) sub" where
  "handle_event E B i ev =
     (case ev of
        Notified notif \<Rightarrow>
          bnd (field (\<lambda>sm. case subscription_at i sm of None \<Rightarrow> False | Some su \<Rightarrow> su_active su)) (\<lambda>active.
          if \<not> active then ret True
          else bnd (processNotification E B i notif) (\<lambda>_. ret True))
      | _ \<Rightarrow> bnd (on_subscription i (su_handling_update (\<lambda>_. False))) (\<lambda>_. ret False))"

fun handleNotifications ::
  "('w, 'n, 'k) ua_env \<Rightarrow> ('w, 'n) sub_env \<Rightarrow> string \<Rightarrow> sub_event list \<Rightarrow> ('w, 'n, unit) sub" where
  "handleNotifications E B i [] = ret ()"
| "handleNotifications E B i (ev # evs) =
     bnd (handle_event E B i ev) (\<lambda>more. if more then handleNotifications E B i evs else ret ())"

section \<open>Looking\<close>

definition sm_GetLastValue :: "string \<Rightarrow> string \<Rightarrow> 'n subscription_manager \<Rightarrow> data_point option" where
  "sm_GetLastValue deviceID tagID sm =
     (case subscription_at deviceID sm of None \<Rightarrow> None | Some su \<Rightarrow> map_of (su_LastValues su) tagID)"

record subscription_stats =
  ss_Total :: nat
  ss_Active :: nat
  ss_MonitoredItems :: nat
  ss_Running :: bool

definition sm_Stats :: "'n subscription_manager \<Rightarrow> subscription_stats" where
  "sm_Stats sm =
     (let subs = map snd (sm_subscriptions sm) in
      \<lparr>ss_Total = length subs, ss_Active = length (filter su_active subs),
       ss_MonitoredItems = sum_list (map (\<lambda>su. length (su_MonitoredItems su)) subs), ss_Running = sm_running sm\<rparr>)"

end
