(* ===== verification/OpcuaSubProps.thy ===== *)
theory OpcuaSubProps
  imports OpcuaSubscription
begin

text \<open>
  What the subscription manager keeps: its channels are closed once, its items and values belong to the
  subscribed tags, and every operation returns; and which tag a notified value is filed under.
\<close>

section \<open>Which tag a value is filed under\<close>

lemma answers_monitored: "answers (monitored_tags E ts) (\<lambda>valid. subseq (map snd valid) ts)"
proof (induction ts)
  case (Cons t ts)
  then show ?case unfolding monitored_tags.simps
    by (intro answers_then answers_nodes yields_bnd[OF Cons]) (auto intro!: yielding split: sum.split)
qed (auto intro!: yielding)

lemma prefix_nth: "prefix xs ys \<longleftrightarrow> length xs \<le> length ys \<and> (\<forall>i<length xs. xs ! i = ys ! i)"
proof (intro iffI conjI)
  assume "length xs \<le> length ys \<and> (\<forall>i<length xs. xs ! i = ys ! i)"
  then have "take (length xs) ys = xs" by (intro nth_equalityI) auto
  then show "prefix xs ys" by (metis take_is_prefix)
qed (auto simp: prefix_def nth_append)

text \<open>C920. The requests carry the handles 0, 1, 2 and so on, and each reaches the tag it was made for if, and only if,
  no tag was skipped before the last request: a tag whose node ID does not resolve shifts the values of all
  that follow it to other tags.\<close>

theorem values_reach_their_tags:
  assumes "length tags < 2 ^ 32"
  shows "\<exists>valid s'. monitored_tags E tags s = (Val valid, s') \<and>
     map mq_Node (monitor_requests config (map fst valid)) = map fst valid \<and>
     ((\<forall>h<length valid. tag_of_handle tags (mq_ClientHandle (monitor_requests config (map fst valid) ! h)) = Some (snd (valid ! h)))
      \<longleftrightarrow> prefix (map snd valid) tags)"
proof -
  obtain valid s' where run: "monitored_tags E tags s = (Val valid, s')" "subseq (map snd valid) tags"
    using answers_monitored[of E tags] unfolding yields_def by blast
  have len: "length valid \<le> length tags" using list_emb_length[OF run(2)] by simp
  have nodes: "map mq_Node (monitor_requests config (map fst valid)) = map fst valid"
    by (intro nth_equalityI) (simp_all add: monitor_requests_def monitor_request_for_def)
  have handle: "tag_of_handle tags (mq_ClientHandle (monitor_requests config (map fst valid) ! h)) = Some (tags ! h)"
    if "h < length valid" for h
    using that len assms
    by (simp add: monitor_requests_def monitor_request_for_def tag_of_handle_def unat_of_nat take_bit_nat_eq_self)
  have "(\<forall>h<length valid. Some (tags ! h) = Some (snd (valid ! h))) \<longleftrightarrow> prefix (map snd valid) tags"
    using len by (auto simp: prefix_nth)
  then show ?thesis using run(1) nodes handle by auto
qed

text \<open>One tag whose node ID does not parse, and one that does: the value of the second is filed under the first.\<close>

lemma second_tag_monitored:
  "tag_OPCNodeID t = ''bad'' \<Longrightarrow> tag_OPCNodeID u = ''i=5'' \<Longrightarrow> ux_nodeCache c = [] \<Longrightarrow>
   \<exists>s'. monitored_tags (E\<lparr>ue_ParseNodeID := \<lambda>i. if i = ''bad'' then Inl (Text i) else Inr n\<rparr>) [t, u] (c, w) = (Val [(n, u)], s')"
  by (simp add: getNodeID_def make_room_def maxNodeCacheSize_def run_simps ret_def)

theorem values_reach_their_tags_witness:
  "\<forall>(E :: (nat, nat, unit) ua_env) c w t u config.
     (\<exists>valid s'. monitored_tags E [t, u] (c, w) = (Val valid, s') \<and>
       map mq_Node (monitor_requests config (map fst valid)) = map fst valid \<and>
       ((\<forall>h<length valid. tag_of_handle [t, u] (mq_ClientHandle (monitor_requests config (map fst valid) ! h)) = Some (snd (valid ! h)))
        \<longleftrightarrow> prefix (map snd valid) [t, u])) \<and>
     (\<exists>s'. monitored_tags (E\<lparr>ue_ParseNodeID := \<lambda>i. if i = ''bad'' then Inl (Text i) else Inr 5\<rparr>)
         [t\<lparr>tag_OPCNodeID := ''bad''\<rparr>, u\<lparr>tag_OPCNodeID := ''i=5''\<rparr>] (c\<lparr>ux_nodeCache := []\<rparr>, w) =
       (Val [(5, u\<lparr>tag_OPCNodeID := ''i=5''\<rparr>)], s')) \<and>
     tag_of_handle [t, u] (mq_ClientHandle (monitor_requests config [5 :: nat] ! 0)) = Some t"
proof (intro allI conjI)
  fix E :: "(nat, nat, unit) ua_env" and c w t u config
  show "\<exists>s'. monitored_tags (E\<lparr>ue_ParseNodeID := \<lambda>i. if i = ''bad'' then Inl (Text i) else Inr 5\<rparr>)
      [t\<lparr>tag_OPCNodeID := ''bad''\<rparr>, u\<lparr>tag_OPCNodeID := ''i=5''\<rparr>] (c\<lparr>ux_nodeCache := []\<rparr>, w) =
    (Val [(5, u\<lparr>tag_OPCNodeID := ''i=5''\<rparr>)], s')"
    by (rule second_tag_monitored) simp_all
  show "tag_of_handle [t, u] (mq_ClientHandle (monitor_requests config [5 :: nat] ! 0)) = Some t"
    by (simp add: monitor_requests_def monitor_request_for_def tag_of_handle_def)
qed (rule values_reach_their_tags, simp)

section \<open>The invariant\<close>

definition subscription_ok :: "string \<Rightarrow> subscription \<Rightarrow> bool" where
  "subscription_ok i su \<longleftrightarrow>
     i = dev_ID (su_Device su) \<and> \<not> su_done su \<and> \<not> su_closed su \<and>
     fst ` set (su_MonitoredItems su) \<subseteq> tag_ID ` set (su_TagList su) \<and>
     (\<forall>(k, dp)\<in>set (su_LastValues su). k \<in> tag_ID ` set (su_TagList su) \<and> dp_TagID dp = k)"

definition subs_ok :: "'n subscription_manager \<Rightarrow> bool" where
  "subs_ok sm \<longleftrightarrow>
     distinct (map fst (sm_subscriptions sm)) \<and> (\<forall>(i, su)\<in>set (sm_subscriptions sm). subscription_ok i su)"

text \<open>A manager that does not run has no subscriptions.\<close>

definition manager_ok :: "'n subscription_manager \<Rightarrow> bool" where
  "manager_ok sm \<longleftrightarrow> subs_ok sm \<and> (sm_running sm \<or> sm_subscriptions sm = [])"

text \<open>With a subscription for these tags under the key.\<close>

definition subs_for :: "string \<Rightarrow> tag list \<Rightarrow> 'n subscription_manager \<Rightarrow> bool" where
  "subs_for i tags sm \<longleftrightarrow> subs_ok sm \<and> (\<exists>su. subscription_at i sm = Some su \<and> su_TagList su = tags)"

lemma subs_ok_entry: "subs_ok sm \<Longrightarrow> subscription_at i sm = Some su \<Longrightarrow> subscription_ok i su"
  unfolding subs_ok_def subscription_at_def by (auto dest: map_of_SomeD)

lemma subs_ok_update:
  assumes "subs_ok sm" "\<And>su. subscription_at i sm = Some su \<Longrightarrow> subscription_ok i (f su)"
  shows "subs_ok (sm\<lparr>sm_subscriptions := update_entry i f (sm_subscriptions sm)\<rparr>)"
proof -
  have "subscription_ok j (f su)" if "(j, su) \<in> set (sm_subscriptions sm)" "j = i" for j su
    using assms that unfolding subs_ok_def subscription_at_def by auto
  then show ?thesis using assms(1) unfolding subs_ok_def update_entry_def by (auto simp: comp_def case_prod_beta)
qed

lemma subs_ok_delete: "subs_ok sm \<Longrightarrow> subs_ok (sm\<lparr>sm_subscriptions := AList.delete i (sm_subscriptions sm)\<rparr>)"
  unfolding subs_ok_def using set_delete[of i "sm_subscriptions sm"] by (auto intro: distinct_delete)

lemma at_update: "subscription_at j (sm\<lparr>sm_subscriptions := update_entry i f (sm_subscriptions sm)\<rparr>) =
  (if j = i then map_option f (subscription_at i sm) else subscription_at j sm)"
  by (simp add: subscription_at_def map_of_update_entry)

lemma keys_update: "fst ` set (AList.update k v al) = insert k (fst ` set al)"
  by (induction al) auto

lemma monitored_items_tags: "fst ` set (monitored_items tags results) \<subseteq> tag_ID ` set tags"
proof -
  define put :: "tag \<times> u32 \<times> u32 \<Rightarrow> (string \<times> u32) list \<Rightarrow> (string \<times> u32) list"
    where "put = (\<lambda>(t, status, item). if status = StatusOK then AList.update (tag_ID t) item else id)"
  have one: "fst ` set (put x al) \<subseteq> insert (tag_ID (fst x)) (fst ` set al)" for x al
    by (cases x) (auto simp: put_def keys_update)
  have "fst ` set (fold put xs al) \<subseteq> fst ` set al \<union> tag_ID ` fst ` set xs" for xs al
  proof (induction xs arbitrary: al)
    case (Cons x xs)
    have "fst ` set (fold put xs (put x al)) \<subseteq> insert (tag_ID (fst x)) (fst ` set al) \<union> tag_ID ` fst ` set xs"
      by (rule order_trans[OF Cons Un_mono[OF one order_refl]])
    then show ?case by simp
  qed simp
  from this[of "zip tags results" "[]"]
  have "fst ` set (monitored_items tags results) \<subseteq> tag_ID ` fst ` set (zip tags results)"
    by (simp only: monitored_items_def put_def list.set image_empty Un_empty_left)
  also have "\<dots> \<subseteq> tag_ID ` set tags" by (intro image_mono subsetI) (auto dest: set_zip_leftD)
  finally show ?thesis .
qed

lemma subs_ok_client: "subs_ok (sm\<lparr>sm_client := c\<rparr>) = subs_ok sm" "subs_for i tags (sm\<lparr>sm_client := c\<rparr>) = subs_for i tags sm"
  by (simp_all add: subs_ok_def subs_for_def subscription_at_def)

section \<open>Every operation keeps it and returns\<close>

text \<open>A method of the client that returns, run on the manager's client.\<close>

lemma gives_on_ua:
  fixes m :: "('w, 'n, 'a) ua"
  assumes "answers m Q" "\<And>sm c. P sm \<Longrightarrow> P (sm\<lparr>sm_client := c\<rparr>)"
  shows "gives (on_client P) (on_ua m) (\<lambda>a s. on_client P s \<and> Q a)"
proof (rule givesI)
  fix s :: "'n subscription_manager \<times> 'w" assume P: "on_client P s"
  obtain a c w where "m (sm_client (fst s), snd s) = (Val a, (c, w))" "Q a"
    using assms(1) unfolding yields_def by (metis surj_pair)
  with P assms(2) show "\<exists>a s'. on_ua m s = (Val a, s') \<and> on_client P s' \<and> Q a"
    by (simp add: on_ua_def focus_def on_client_def)
qed

text \<open>The steps of the methods; what follows a step starts from the same invariant.\<close>

lemma gives_keep:
  "gives (on_client P) m (\<lambda>a s. on_client P s \<and> R a) \<Longrightarrow> (\<And>a. R a \<Longrightarrow> gives (on_client P) (f a) Q) \<Longrightarrow>
   gives (on_client P) (bnd m f) Q"
  by (rule gives_bnd[where R = "\<lambda>a s. on_client P s \<and> R a"]) (auto simp: gives_def)

lemma gives_library: "(\<And>a. gives (on_client P) (f a) Q) \<Longrightarrow> gives (on_client P) (bnd (call g) f) Q"
  by (rule gives_ask) (simp_all add: on_client_def)

lemma gives_changed:
  "(\<And>c. P c \<Longrightarrow> P' (g c)) \<Longrightarrow> gives (on_client P') (f ()) Q \<Longrightarrow> gives (on_client P) (bnd (upd g) f) Q"
  by (rule gives_bnd[where R = "\<lambda>a. on_client P'"]) (auto intro!: gives_upd simp: on_client_def)

lemma gives_step:
  "(\<And>c. P c \<Longrightarrow> P (g c)) \<Longrightarrow> gives (on_client P) (f ()) Q \<Longrightarrow> gives (on_client P) (bnd (upd g) f) Q"
  by (rule gives_changed)

lemma gives_look:
  "(\<And>a. gives (on_client (\<lambda>c. P c \<and> g c = a)) (f a) Q) \<Longrightarrow> gives (on_client P) (bnd (field g) f) Q"
  by (rule gives_read) (simp add: on_client_def[abs_def])

lemma gives_peek: "(\<And>a. gives (on_client P) (f a) Q) \<Longrightarrow> gives (on_client P) (bnd (field g) f) Q"
  by (rule gives_look, rule gives_pre, assumption) (simp add: on_client_def)

lemma gives_pair: "(\<And>a b. x = (a, b) \<Longrightarrow> gives P (f a b) Q) \<Longrightarrow> gives P (case x of (a, b) \<Rightarrow> f a b) Q"
  by (simp split: prod.split)

lemma gives_sum:
  "(\<And>a. x = Inl a \<Longrightarrow> gives P (f a) Q) \<Longrightarrow> (\<And>b. x = Inr b \<Longrightarrow> gives P (g b) Q) \<Longrightarrow>
   gives P (case x of Inl a \<Rightarrow> f a | Inr b \<Rightarrow> g b) Q"
  by (simp split: sum.split)

text \<open>Removing a subscription.\<close>

definition subs_without :: "string \<Rightarrow> 'n subscription_manager \<Rightarrow> bool" where
  "subs_without i sm \<longleftrightarrow> subs_ok sm \<and> subscription_at i sm = None"

lemma subs_ok_without: "subs_ok sm \<Longrightarrow> subs_without i (sm\<lparr>sm_subscriptions := AList.delete i (sm_subscriptions sm)\<rparr>)"
  by (simp add: subs_without_def subs_ok_delete subscription_at_def delete_conv')

lemma delete_update_entry: "AList.delete i (update_entry i f al) = AList.delete i al"
  by (induction al) (auto simp: update_entry_def AList.delete_eq)

definition dropped :: "string \<Rightarrow> 'n subscription_manager \<Rightarrow> 'n subscription_manager" where
  "dropped i sm = sm\<lparr>sm_subscriptions := AList.delete i (sm_subscriptions sm)\<rparr>"

lemma dropped_simps [simp]:
  "sm_running (dropped i sm) = sm_running sm" "sm_subscriptions (dropped i sm) = AList.delete i (sm_subscriptions sm)"
  by (simp_all add: dropped_def)

lemma dropped_ok: "subs_ok sm \<Longrightarrow> subs_ok (dropped i sm)"
  by (simp add: dropped_def subs_ok_delete)

text \<open>The channels of a subscription are open, so that nothing panics.\<close>

lemma unsubscribe_run:
  assumes "subs_ok sm"
  shows "\<exists>w'. unsubscribeDeviceLocked B i (sm, w) =
    (Val (if subscription_at i sm = None then Some (Sentinel (ServiceE ErrDeviceNotFound)) else None), (dropped i sm, w'))"
proof (cases "subscription_at i sm")
  case None
  then have "AList.delete i (sm_subscriptions sm) = sm_subscriptions sm"
    by (simp add: subscription_at_def map_of_eq_None_iff delete_notin_dom)
  with None show ?thesis by (simp add: unsubscribeDeviceLocked_def run_simps ret_def dropped_def)
next
  case (Some su)
  with subs_ok_entry[OF assms] have open_channels: "\<not> su_done su" "\<not> su_closed su" by (auto simp: subscription_ok_def)
  then show ?thesis
    using Some
    by (auto simp: unsubscribeDeviceLocked_def run_simps ret_def on_subscription_def delete_subscription_def dropped_def
      delete_update_entry bnd_assoc split: prod.split)
qed

lemma unsubscribe_gives:
  fixes B :: "('w, 'n) sub_env"
  assumes "\<And>sm. P sm \<Longrightarrow> subs_ok sm"
  shows "gives (on_client P) (unsubscribeDeviceLocked B i)
    (\<lambda>err. on_client (\<lambda>sm. (\<exists>sm'. P sm' \<and> sm = dropped i sm') \<and> (err = None \<or> err = Some (Sentinel (ServiceE ErrDeviceNotFound)))))"
proof (rule givesI)
  fix s :: "'n subscription_manager \<times> 'w" assume P: "on_client P s"
  then have "P (fst s)" by (simp add: on_client_def)
  with unsubscribe_run[OF assms[OF this], of B i "snd s"]
  show "\<exists>a s'. unsubscribeDeviceLocked B i s = (Val a, s') \<and>
    on_client (\<lambda>sm. (\<exists>sm'. P sm' \<and> sm = dropped i sm') \<and> (a = None \<or> a = Some (Sentinel (ServiceE ErrDeviceNotFound)))) s'"
    by (auto simp: on_client_def)
qed

text \<open>Creating the subscription on the server.\<close>

lemma subs_for_update:
  assumes "subs_for i tags sm"
    "\<And>su. subscription_ok i su \<Longrightarrow> su_TagList su = tags \<Longrightarrow> subscription_ok i (f su) \<and> su_TagList (f su) = tags"
  shows "subs_for i tags (sm\<lparr>sm_subscriptions := update_entry i f (sm_subscriptions sm)\<rparr>)"
  using assms subs_ok_entry[of sm i] unfolding subs_for_def by (auto simp: at_update intro!: subs_ok_update)

lemma subs_for_items: "fst ` set (case results of None \<Rightarrow> [] | Some rs \<Rightarrow> monitored_items tags rs) \<subseteq> tag_ID ` set tags"
  using monitored_items_tags by (cases results) auto

lemma createOPCSubscription_gives:
  "gives (on_client (subs_for i tags)) (createOPCSubscription E B i tags config) (\<lambda>err. on_client (subs_for i tags))"
  unfolding createOPCSubscription_def on_subscription_def
  by (intro gives_peek gives_pair gives_if gives_sum gives_library gives_step gives_ret
    gives_keep[OF gives_on_ua[OF answers_monitored]] subs_for_update conjI)
    (use subs_for_items in \<open>auto simp: subs_ok_client subscription_ok_def\<close>)

text \<open>What an answer says of the device's subscription.\<close>

definition subscribed :: "string \<Rightarrow> tag list \<Rightarrow> gerror option \<Rightarrow> 'n subscription_manager \<Rightarrow> bool" where
  "subscribed i tags err sm \<longleftrightarrow> subs_ok sm \<and>
     (case err of
        None \<Rightarrow> \<exists>su. subscription_at i sm = Some su \<and> su_active su \<and> su_TagList su = tags
      | Some e \<Rightarrow> subscription_at i sm = None)"

lemma subs_for_new:
  assumes "subs_ok sm" "sm_running sm"
  shows "subs_for (dev_ID d) tags
    (sm\<lparr>sm_subscriptions := AList.update (dev_ID d) (new_subscription d tags config) (sm_subscriptions sm)\<rparr>)"
proof -
  have new: "subscription_ok (dev_ID d) (new_subscription d tags config)"
    by (simp add: subscription_ok_def new_subscription_def)
  have "subscription_ok i su"
    if "(i, su) \<in> set (AList.update (dev_ID d) (new_subscription d tags config) (sm_subscriptions sm))" for i su
    using subsetD[OF set_update that] new assms(1) by (auto simp: subs_ok_def)
  then show ?thesis
    using assms by (auto simp: subs_for_def subs_ok_def subscription_at_def update_conv' distinct_update new_subscription_def)
qed

lemma subscribed_outcomes:
  "subs_for i tags sm \<Longrightarrow>
   subscribed i tags None (sm\<lparr>sm_subscriptions := update_entry i (su_active_update (\<lambda>_. True)) (sm_subscriptions sm)\<rparr>)"
  "subs_for i tags sm \<Longrightarrow> subscribed i tags (Some e) (sm\<lparr>sm_subscriptions := AList.delete i (sm_subscriptions sm)\<rparr>)"
proof -
  assume "subs_for i tags sm"
  then obtain su where su: "subs_ok sm" "subscription_at i sm = Some su" "su_TagList su = tags" by (auto simp: subs_for_def)
  with subs_ok_entry[OF su(1,2)]
  show "subscribed i tags None (sm\<lparr>sm_subscriptions := update_entry i (su_active_update (\<lambda>_. True)) (sm_subscriptions sm)\<rparr>)"
    by (auto simp: subscribed_def at_update subscription_ok_def intro!: subs_ok_update)
  show "subscribed i tags (Some e) (sm\<lparr>sm_subscriptions := AList.delete i (sm_subscriptions sm)\<rparr>)"
    using subs_ok_without[OF su(1), of i] by (simp add: subscribed_def subs_without_def)
qed

lemma add_subscription_gives:
  "gives (on_client (\<lambda>sm. subs_ok sm \<and> sm_running sm)) (add_subscription E B d tags config)
     (\<lambda>err. on_client (subscribed (dev_ID d) tags err))"
proof -
  have finished: "gives (on_client (subs_for (dev_ID d) tags))
    (case err of
       Some e \<Rightarrow> bnd (delete_subscription (dev_ID d)) (\<lambda>_. ret (Some e))
     | None \<Rightarrow> bnd (on_subscription (dev_ID d) (su_active_update (\<lambda>_. True))) (\<lambda>_. ret None))
    (\<lambda>err. on_client (subscribed (dev_ID d) tags err))" for err
    unfolding delete_subscription_def on_subscription_def
    by (cases err)
      (auto intro!: gives_changed[where P' = "subscribed (dev_ID d) tags err"] gives_ret subscribed_outcomes)
  show ?thesis
    unfolding add_subscription_def
    by (intro gives_changed[where P' = "subs_for (dev_ID d) tags"] gives_bnd[OF createOPCSubscription_gives] finished)
      (simp add: subs_for_new)
qed

lemma subscribed_gives:
  "gives (on_client (\<lambda>sm. subs_ok sm \<and> sm_running sm)) (sm_Subscribe E B d tags config)
     (\<lambda>err. on_client (subscribed (dev_ID d) tags err))"
proof -
  have added: "gives (on_client (\<lambda>sm. (\<exists>sm'. (subs_ok sm' \<and> sm_running sm') \<and> sm = dropped (dev_ID d) sm') \<and> F))
    (add_subscription E B d tags config) (\<lambda>err. on_client (subscribed (dev_ID d) tags err))" for F
    by (rule gives_pre[OF add_subscription_gives]) (auto simp: on_client_def dropped_ok)
  have again: "gives (on_client (\<lambda>sm. subs_ok sm \<and> sm_running sm)) (updateSubscriptionLocked E B d tags config)
    (\<lambda>err. on_client (subscribed (dev_ID d) tags err))"
    unfolding updateSubscriptionLocked_def
    by (rule gives_bnd[OF unsubscribe_gives], simp, rule gives_if, rule gives_ret, force simp: on_client_def, rule added)
  show ?thesis
    unfolding sm_Subscribe_def
    by (rule gives_look, rule gives_if, rule gives_ret, simp add: on_client_def, rule gives_peek, rule gives_if)
      (auto intro: gives_pre[OF again] gives_pre[OF add_subscription_gives] simp: on_client_def)
qed

text \<open>
  C921. Subscribing a device always returns and leaves the manager sound: with a subscription for the
  requested tags that is active, or with an error and no subscription of the device, the earlier one included.
\<close>

theorem subscribing_leaves_one_or_none:
  "gives (on_client (\<lambda>sm. subs_ok sm \<and> sm_running sm)) (sm_Subscribe E B d tags config)
     (\<lambda>err. on_client (subscribed (dev_ID d) tags err))"
  by (rule subscribed_gives)

section \<open>Stopping\<close>

lemma unsubscribe_each_run: "subs_ok sm \<Longrightarrow> \<exists>sm' w'. unsubscribe_each B is (sm, w) = (Val (), (sm', w')) \<and>
  subs_ok sm' \<and> sm_running sm' = sm_running sm"
proof (induction "is" arbitrary: sm w)
  case (Cons i "is")
  obtain w1 r where "unsubscribeDeviceLocked B i (sm, w) = (Val r, (dropped i sm, w1))"
    using unsubscribe_run[OF Cons.prems] by metis
  with Cons.IH[OF dropped_ok[OF Cons.prems]] show ?case by (simp add: run_simps)
qed (simp add: ret_def)

lemma unsubscribe_each_gives:
  fixes B :: "('w, 'n) sub_env"
  shows "gives (on_client (\<lambda>sm. subs_ok sm \<and> \<not> sm_running sm)) (unsubscribe_each B is)
    (\<lambda>u. on_client (\<lambda>sm. subs_ok sm \<and> \<not> sm_running sm))"
proof (rule givesI)
  fix s :: "'n subscription_manager \<times> 'w" assume "on_client (\<lambda>sm. subs_ok sm \<and> \<not> sm_running sm) s"
  then have "subs_ok (fst s)" "\<not> sm_running (fst s)" by (simp_all add: on_client_def)
  with unsubscribe_each_run[OF this(1), of B "is" "snd s"]
  show "\<exists>a s'. unsubscribe_each B is s = (Val a, s') \<and> on_client (\<lambda>sm. subs_ok sm \<and> \<not> sm_running sm) s'"
    by (auto simp: on_client_def)
qed

lemma Stop_gives:
  "gives (on_client manager_ok) (sm_Stop B) (\<lambda>err. on_client (\<lambda>sm. manager_ok sm \<and> sm_subscriptions sm = []))"
  unfolding sm_Stop_def
  by (rule gives_look, rule gives_if, rule gives_ret, force simp: on_client_def manager_ok_def,
    rule gives_changed[where P' = "\<lambda>sm. subs_ok sm \<and> \<not> sm_running sm"], force simp: manager_ok_def subs_ok_def,
    rule gives_peek, rule gives_library, rule gives_bnd[OF unsubscribe_each_gives],
    rule gives_changed[where P' = "\<lambda>sm. manager_ok sm \<and> sm_subscriptions sm = []"])
    (auto simp: manager_ok_def subs_ok_def intro: gives_ret)

section \<open>Notifications\<close>

lemma manager_ok_client: "manager_ok (sm\<lparr>sm_client := c\<rparr>) = manager_ok sm"
  by (simp add: manager_ok_def subs_ok_client)

lemma manager_ok_update:
  assumes "manager_ok sm" "\<And>su. subscription_at i sm = Some su \<Longrightarrow> subscription_ok i su \<Longrightarrow> subscription_ok i (f su)"
  shows "manager_ok (sm\<lparr>sm_subscriptions := update_entry i f (sm_subscriptions sm)\<rparr>)"
  using assms subs_ok_entry[of sm i] subs_ok_update[of sm i f] by (auto simp: manager_ok_def update_entry_def)

lemma last_value_ok:
  assumes "subscription_ok i su" "t \<in> set (su_TagList su)" "dp_TagID dp = tag_ID t"
  shows "subscription_ok i (su_LastValues_update (AList.update (tag_ID t) dp) su)"
proof -
  have "k \<in> tag_ID ` set (su_TagList su) \<and> dp_TagID dp' = k"
    if "(k, dp') \<in> set (AList.update (tag_ID t) dp (su_LastValues su))" for k dp'
    using subsetD[OF set_update that] assms by (auto simp: subscription_ok_def)
  then show ?thesis using assms(1) by (auto simp: subscription_ok_def)
qed

lemma value_filed_gives:
  assumes "t \<in> set (su_TagList su)" "dp_TagID dp = tag_ID t"
  shows "gives (on_client (\<lambda>sm. manager_ok sm \<and> subscription_at i sm = Some su))
    (bnd (on_subscription i (su_LastValues_update (AList.update (tag_ID t) dp))) (\<lambda>_.
     bnd (case sb_dataHandler B of None \<Rightarrow> ret () | Some h \<Rightarrow> call (h dp)) (\<lambda>_.
     on_ua (upd count_notification)))) (\<lambda>u. on_client manager_ok)"
proof -
  have counted: "gives (on_client manager_ok) (on_ua (upd count_notification)) (\<lambda>u. on_client manager_ok)"
    by (rule gives_post[OF gives_on_ua]) (auto intro: answer_steps simp: manager_ok_client)
  have handed: "gives (on_client manager_ok) (bnd (case sb_dataHandler B of None \<Rightarrow> ret () | Some h \<Rightarrow> call (h dp)) (\<lambda>_.
     on_ua (upd count_notification))) (\<lambda>u. on_client manager_ok)"
    by (cases "sb_dataHandler B") (auto intro: gives_library counted)
  show ?thesis
    unfolding on_subscription_def
    by (rule gives_changed[where P' = manager_ok, rotated], rule handed) (use assms in \<open>auto intro!: manager_ok_update last_value_ok\<close>)
qed

lemma processDataChange_gives:
  "gives (on_client manager_ok) (processDataChange E B i item) (\<lambda>u. on_client manager_ok)"
  unfolding processDataChange_def Let_def
proof (rule gives_look, rule gives_option)
  fix sub :: "subscription option" and su assume [simp]: "sub = Some su"
  have filed: "gives (on_client (\<lambda>sm. manager_ok sm \<and> subscription_at i sm = Some su))
     (bnd (on_ua (processReadResult E v t)) (\<lambda>dp.
      bnd (on_subscription i (su_LastValues_update (AList.update (tag_ID t) (dp\<lparr>dp_Topic := topicForTag (dev_UNSPrefix (su_Device su)) t\<rparr>)))) (\<lambda>_.
      bnd (case sb_dataHandler B of None \<Rightarrow> ret () | Some h \<Rightarrow> call (h (dp\<lparr>dp_Topic := topicForTag (dev_UNSPrefix (su_Device su)) t\<rparr>))) (\<lambda>_.
      on_ua (upd count_notification))))) (\<lambda>u. on_client manager_ok)"
    if "tag_of_handle (su_TagList su) h = Some t" for v t h
    by (rule gives_keep[OF gives_on_ua[OF answers_result]], simp add: manager_ok_client subscription_at_def, rule value_filed_gives)
      (use that in \<open>auto simp: tag_of_handle_def split: if_splits\<close>)
  show "gives (on_client (\<lambda>sm. manager_ok sm \<and> subscription_at i sm = sub))
     (case item of None \<Rightarrow> ret ()
      | Some it \<Rightarrow> (case mi_Value it of None \<Rightarrow> ret ()
        | Some v \<Rightarrow> (case tag_of_handle (su_TagList su) (mi_ClientHandle it) of None \<Rightarrow> ret ()
          | Some t \<Rightarrow>
              bnd (on_ua (processReadResult E v t)) (\<lambda>dp.
              bnd (on_subscription i (su_LastValues_update (AList.update (tag_ID t) (dp\<lparr>dp_Topic := topicForTag (dev_UNSPrefix (su_Device su)) t\<rparr>)))) (\<lambda>_.
              bnd (case sb_dataHandler B of None \<Rightarrow> ret () | Some h \<Rightarrow> call (h (dp\<lparr>dp_Topic := topicForTag (dev_UNSPrefix (su_Device su)) t\<rparr>))) (\<lambda>_.
              on_ua (upd count_notification))))))) (\<lambda>u. on_client manager_ok)"
    by (auto intro!: gives_ret filed simp: on_client_def split: option.split)
qed (auto intro: gives_ret simp: on_client_def)

lemma process_changes_gives:
  "gives (on_client manager_ok) (process_changes E B i items) (\<lambda>u. on_client manager_ok)"
  by (induction items) (auto intro: gives_ret gives_bnd[OF processDataChange_gives])

lemma handle_event_gives:
  "gives (on_client manager_ok) (handle_event E B i ev) (\<lambda>more. on_client manager_ok)"
proof -
  have stopped: "gives (on_client manager_ok) (bnd (on_subscription i (su_handling_update (\<lambda>_. False))) (\<lambda>_. ret False))
    (\<lambda>more. on_client manager_ok)"
    unfolding on_subscription_def
    by (rule gives_step) (auto intro!: manager_ok_update gives_ret simp: subscription_ok_def)
  have notified: "gives (on_client manager_ok) (processNotification E B i notif) (\<lambda>u. on_client manager_ok)" for notif
    unfolding processNotification_def by (cases notif) (auto intro: gives_ret process_changes_gives)
  show ?thesis
    unfolding handle_event_def
    by (cases ev) (auto intro!: stopped gives_peek gives_if gives_ret gives_bnd[OF notified])
qed

text \<open>Subscribing does not start or stop the manager.\<close>

lemma running_kept [preserving]:
  "preserves (on_client (\<lambda>sm. sm_running sm = b)) (on_ua m)"
  "preserves (on_client (\<lambda>sm. sm_running sm = b)) (on_subscription i f)"
  "preserves (on_client (\<lambda>sm. sm_running sm = b)) (delete_subscription i)"
  "preserves (on_client (\<lambda>sm. sm_running sm = b)) (upd (sm_subscriptions_update g))"
proof -
  show "preserves (on_client (\<lambda>sm. sm_running sm = b)) (on_ua m)"
    unfolding on_ua_def by (rule focus_preserves, rule exI[of _ "\<lambda>_. True"]) (auto simp: preserves_def on_client_def)
qed (auto simp: on_subscription_def delete_subscription_def intro!: on_client_upd)

lemma Subscribe_keeps_running: "preserves (on_client (\<lambda>sm. sm_running sm = b)) (sm_Subscribe E B d tags config)"
  unfolding sm_Subscribe_def updateSubscriptionLocked_def unsubscribeDeviceLocked_def add_subscription_def createOPCSubscription_def
  by (intro preserving; auto intro!: on_client_upd)

lemma gives_split: "gives (\<lambda>s. P s \<and> R s) m Q \<Longrightarrow> gives (\<lambda>s. P s \<and> \<not> R s) m Q \<Longrightarrow> gives P m Q"
  unfolding gives_def by blast

lemma gives_preserves: "gives P m Q \<Longrightarrow> preserves R m \<Longrightarrow> gives (\<lambda>s. P s \<and> R s) m (\<lambda>a s. Q a s \<and> R s)"
  by (fastforce simp: gives_def preserves_def)

lemma Start_gives: "gives (on_client manager_ok) sm_Start (\<lambda>err. on_client manager_ok)"
  unfolding sm_Start_def
  by (intro gives_peek gives_if gives_step gives_ret) (auto simp: manager_ok_def subs_ok_def)

lemma Unsubscribe_gives: "gives (on_client manager_ok) (sm_Unsubscribe B i) (\<lambda>err. on_client manager_ok)"
  unfolding sm_Unsubscribe_def
  by (rule gives_post[OF unsubscribe_gives]) (auto simp: manager_ok_def on_client_def dropped_ok)

lemma Subscribe_gives:
  "gives (on_client manager_ok) (sm_Subscribe E B d tags config) (\<lambda>err. on_client manager_ok)"
proof (rule gives_split[where R = "\<lambda>s. sm_running (fst s)"])
  have "gives (\<lambda>s. on_client (\<lambda>sm. subs_ok sm \<and> sm_running sm) s \<and> on_client (\<lambda>sm. sm_running sm = True) s)
    (sm_Subscribe E B d tags config)
    (\<lambda>err s. on_client (subscribed (dev_ID d) tags err) s \<and> on_client (\<lambda>sm. sm_running sm = True) s)"
    by (rule gives_preserves[OF subscribed_gives Subscribe_keeps_running])
  then show "gives (\<lambda>s. on_client manager_ok s \<and> sm_running (fst s)) (sm_Subscribe E B d tags config) (\<lambda>err. on_client manager_ok)"
    by (rule gives_weaken) (auto simp: on_client_def manager_ok_def subscribed_def)
  show "gives (\<lambda>s. on_client manager_ok s \<and> \<not> sm_running (fst s)) (sm_Subscribe E B d tags config) (\<lambda>err. on_client manager_ok)"
    by (auto simp: gives_def sm_Subscribe_def run_simps ret_def)
qed

lemma new_manager_ok: "manager_ok (NewSubscriptionManager c)"
  by (simp add: manager_ok_def subs_ok_def NewSubscriptionManager_def)

text \<open>What a program that always returns in the invariant does to it.\<close>

lemma gives_keeps_invariant: "gives (on_client P) m (\<lambda>a. on_client P) \<Longrightarrow> preserves (on_client P) m"
  by (rule preservesI) (auto elim!: givesE)

lemmas manager_preserving =
  Start_gives[THEN gives_keeps_invariant] Subscribe_gives[THEN gives_keeps_invariant]
  Unsubscribe_gives[THEN gives_keeps_invariant] handle_event_gives[THEN gives_keeps_invariant]

lemma Stop_preserves: "preserves (on_client manager_ok) (sm_Stop B)"
  by (rule gives_keeps_invariant, rule gives_post[OF Stop_gives]) (simp add: on_client_def)

text \<open>
  C922. A manager with its subscriptions stays sound under every operation and every event of its handlers, and
  none of them panics: the channels of a subscription are open as long as it is registered, its monitored items
  and its last values belong to its tags, and a manager that does not run has no subscriptions.
\<close>

theorem subscriptions_stay_sound:
  "manager_ok (NewSubscriptionManager c) \<and>
   gives (on_client manager_ok) sm_Start (\<lambda>err. on_client manager_ok) \<and>
   gives (on_client manager_ok) (sm_Subscribe E B d tags config) (\<lambda>err. on_client manager_ok) \<and>
   gives (on_client manager_ok) (sm_Unsubscribe B i) (\<lambda>err. on_client manager_ok) \<and>
   gives (on_client manager_ok) (sm_Stop B) (\<lambda>err. on_client (\<lambda>sm. manager_ok sm \<and> sm_subscriptions sm = [])) \<and>
   gives (on_client manager_ok) (handle_event E B i ev) (\<lambda>more. on_client manager_ok)"
  by (intro conjI new_manager_ok Start_gives Subscribe_gives Unsubscribe_gives Stop_gives handle_event_gives)

end
