(* ===== verification/OpcuaSession.thy ===== *)
theory OpcuaSession
  imports OpcuaSubProps OpcuaBrowseProps S7Pool
begin

text \<open>
  The sessions of the OPC UA pool (\<open>adapter/opcua/session.go\<close>), its settings and the settings of the clients
  and breakers it creates (the head of \<open>pool.go\<close>): devices with the same endpoint key share a session.
  A breaker is the package \<open>gobreaker\<close>, as for the other pools. The maps of monitored items, of recovery
  state and of missed sequence numbers, which nothing fills, are left out.
\<close>

section \<open>Fields\<close>

record ua_pool_config =
  op_MaxConnections :: int
  op_IdleTimeout :: int
  op_HealthCheckPeriod :: int
  op_ConnectionTimeout :: int
  op_RetryAttempts :: int
  op_RetryDelay :: int
  op_CircuitBreakerName :: string
  op_DefaultSecurityPolicy :: string
  op_DefaultSecurityMode :: string
  op_DefaultAuthMode :: string
  op_MaxNodesPerRead :: int
  op_MaxNodesPerWrite :: int
  op_MaxNodesPerBrowse :: int
  op_MaxGlobalInFlight :: int
  op_BrownoutThreshold :: f64
  op_PriorityQueueSize :: int
  op_TrustStorePath :: string
  op_AutoAcceptUntrusted :: bool
  op_CertExpirationWarningDays :: int
  op_NumWorkers :: int
  op_MaxInFlightPerEndpoint :: int
  op_MaxQueuedPerEndpoint :: int
  op_StartupJitterMax :: int
  op_WarmupRampDuration :: int
  op_MaxTTL :: int

text \<open>\<open>se_devices\<close> are the keys of the session's map; the bindings themselves are those of the pool.\<close>

record ('n, 'b, 'h) ua_session =
  se_client :: "'n ua_client"
  se_endpointKey :: string
  se_endpointURL :: string
  se_breaker :: 'b
  se_devices :: "string list"
  se_createdAt :: int
  se_lastError :: "gerror option"
  se_connectFailures :: int
  se_nextReconnectAt :: int
  se_manager :: "('n subscription_manager \<times> 'h) option"
  se_lastPublishTime :: int
  se_hasActiveSubscriptions :: bool
  se_maxInFlight :: int

record 'b device_binding =
  db_DeviceID :: string
  db_Device :: device
  db_EndpointKey :: string
  db_breaker :: 'b

section \<open>Settings\<close>

definition f64_0_8 :: f64 where
  "f64_0_8 = 0x3FE999999999999A"

definition ua_DefaultPoolConfig :: "int \<Rightarrow> ua_pool_config" where
  "ua_DefaultPoolConfig cpus =
     \<lparr>op_MaxConnections = 100, op_IdleTimeout = 300000000000, op_HealthCheckPeriod = 30000000000,
      op_ConnectionTimeout = 15000000000, op_RetryAttempts = 3, op_RetryDelay = 500000000,
      op_CircuitBreakerName = ''opcua-pool'', op_DefaultSecurityPolicy = ''None'', op_DefaultSecurityMode = ''None'',
      op_DefaultAuthMode = ''Anonymous'', op_MaxNodesPerRead = 500, op_MaxNodesPerWrite = 100, op_MaxNodesPerBrowse = 1000,
      op_MaxGlobalInFlight = 1000, op_BrownoutThreshold = f64_0_8, op_PriorityQueueSize = 1000, op_TrustStorePath = '''',
      op_AutoAcceptUntrusted = False, op_CertExpirationWarningDays = 30, op_NumWorkers = cpus * 2,
      op_MaxInFlightPerEndpoint = 100, op_MaxQueuedPerEndpoint = 200, op_StartupJitterMax = 5000000000,
      op_WarmupRampDuration = 30000000000, op_MaxTTL = 0\<rparr>"

definition ua_pool_defaults :: "int \<Rightarrow> ua_pool_config \<Rightarrow> ua_pool_config" where
  "ua_pool_defaults cpus config =
     (let config = config\<lparr>op_MaxConnections := default_int 100 (op_MaxConnections config),
            op_IdleTimeout := default_int 300000000000 (op_IdleTimeout config),
            op_HealthCheckPeriod := default_int 30000000000 (op_HealthCheckPeriod config),
            op_ConnectionTimeout := default_int 15000000000 (op_ConnectionTimeout config),
            op_MaxNodesPerRead := default_int 500 (op_MaxNodesPerRead config),
            op_MaxNodesPerWrite := default_int 100 (op_MaxNodesPerWrite config),
            op_MaxGlobalInFlight := default_int 1000 (op_MaxGlobalInFlight config),
            op_BrownoutThreshold :=
              (if f64_eq (op_BrownoutThreshold config) f64_zero then f64_0_8 else op_BrownoutThreshold config),
            op_PriorityQueueSize := default_int 1000 (op_PriorityQueueSize config),
            op_NumWorkers := default_int (cpus * 2) (op_NumWorkers config)\<rparr>
      in config\<lparr>op_MaxInFlightPerEndpoint :=
           default_int (tdiv (op_MaxGlobalInFlight config) 10) (op_MaxInFlightPerEndpoint config)\<rparr>)"

definition device_url :: "connection_config \<Rightarrow> string" where
  "device_url conn =
     (if conn_OPCEndpointURL conn = '''' then ''opc.tcp://'' @ conn_Host conn @ '':'' @ dec (conn_Port conn)
      else conn_OPCEndpointURL conn)"

text \<open>\<open>hash8\<close>: the first eight bytes of the SHA-256 of a text, in hexadecimal; \<open>content\<close>: of the certificate file.\<close>

definition ua_named_or :: "string \<Rightarrow> string \<Rightarrow> string" where
  "ua_named_or d s = (if s \<noteq> '''' then s else d)"

definition endpoint_key_of :: "(string \<Rightarrow> string) \<Rightarrow> ua_pool_config \<Rightarrow> connection_config \<Rightarrow> string option \<Rightarrow> string" where
  "endpoint_key_of hash8 config conn content =
     (let secPolicy = ua_named_or (op_DefaultSecurityPolicy config) (conn_OPCSecurityPolicy conn);
          secMode = ua_named_or (op_DefaultSecurityMode config) (conn_OPCSecurityMode conn);
          authMode = ua_named_or (op_DefaultAuthMode config) (conn_OPCAuthMode conn);
          authHash = (if conn_OPCUsername conn \<noteq> '''' then hash8 (conn_OPCUsername conn @ '':'' @ conn_OPCPassword conn) else '''');
          certHash = (if conn_OPCCertFile conn \<noteq> ''''
                      then hash8 (case content of Some bytes \<Rightarrow> bytes | None \<Rightarrow> conn_OPCCertFile conn) else '''')
      in device_url conn @ ''|'' @ secPolicy @ ''|'' @ secMode @ ''|'' @ authMode @ ''|'' @ authHash @ ''|'' @ certHash)"

definition ua_client_settings :: "ua_pool_config \<Rightarrow> device \<Rightarrow> ua_config" where
  "ua_client_settings config d =
     (let conn = dev_Connection d in
      \<lparr>oc_EndpointURL = device_url conn,
       oc_SecurityPolicy = ua_named_or (op_DefaultSecurityPolicy config) (conn_OPCSecurityPolicy conn),
       oc_SecurityMode = ua_named_or (op_DefaultSecurityMode config) (conn_OPCSecurityMode conn),
       oc_AuthMode = ua_named_or (op_DefaultAuthMode config) (conn_OPCAuthMode conn),
       oc_Username = conn_OPCUsername conn, oc_Password = conn_OPCPassword conn,
       oc_CertificateFile = conn_OPCCertFile conn, oc_PrivateKeyFile = conn_OPCKeyFile conn,
       oc_ServerCertificateFile = conn_OPCServerCertFile conn,
       oc_InsecureSkipVerify = conn_OPCInsecureSkipVerify conn,
       oc_AutoSelectEndpoint = conn_OPCAutoSelectEndpoint conn,
       oc_ApplicationName = conn_OPCApplicationName conn, oc_ApplicationURI = conn_OPCApplicationURI conn,
       oc_Timeout = op_ConnectionTimeout config, oc_KeepAlive = 30000000000, oc_MaxRetries = op_RetryAttempts config,
       oc_RetryDelay = op_RetryDelay config,
       oc_RequestTimeout = default_int 5000000000 (conn_Timeout conn), oc_SessionTimeout = 0,
       oc_DefaultPublishingInterval = 0, oc_DefaultSamplingInterval = 0, oc_DefaultQueueSize = 0\<rparr>)"

section \<open>Breakers\<close>

text \<open>The failure ratio of the device breaker is not used; its trip is on consecutive failures.\<close>

definition endpoint_breaker_settings :: "string \<Rightarrow> breaker_settings" where
  "endpoint_breaker_settings epKey =
     \<lparr>br_Name = ''opcua-endpoint-'' @ take 32 epKey, br_MaxRequests = 3, br_Interval = 60000000000,
      br_Timeout = 60000000000, br_failureThreshold = 5, br_failureRatio = f64_0_6\<rparr>"

definition endpoint_ReadyToTrip :: "breaker_counts \<Rightarrow> bool" where
  "endpoint_ReadyToTrip counts =
     (let ratio = f64_div (f64_of_int (uint (ct_TotalFailures counts))) (f64_of_int (uint (ct_Requests counts)))
      in 5 \<le> ct_Requests counts \<and> f64_ge ratio f64_0_6)"

definition device_breaker_settings :: "device \<Rightarrow> breaker_settings" where
  "device_breaker_settings d =
     (let base = \<lparr>br_Name = ''opcua-device-'' @ dev_ID d, br_MaxRequests = 1, br_Interval = 30000000000,
                  br_Timeout = 15000000000, br_failureThreshold = 5, br_failureRatio = f64_zero\<rparr>
      in case conn_CircuitBreaker (dev_Connection d) of
           None \<Rightarrow> base
         | Some cb \<Rightarrow>
             base\<lparr>br_MaxRequests := (if 0 < cb_MaxRequests cb then cb_MaxRequests cb else 1),
                  br_Interval := (if 0 < cb_Interval cb then cb_Interval cb else 30000000000),
                  br_Timeout := (if 0 < cb_Timeout cb then cb_Timeout cb else 15000000000),
                  br_failureThreshold := (if 0 < cb_FailureThreshold cb then cb_FailureThreshold cb else 5)\<rparr>)"

section \<open>Reconnection\<close>

definition se_canAttemptReconnect :: "('n, 'b, 'h) ua_session \<Rightarrow> int \<Rightarrow> bool" where
  "se_canAttemptReconnect se now \<longleftrightarrow> se_nextReconnectAt se = zero_time \<or> se_nextReconnectAt se \<le> now"

definition ua_base_delay :: "int \<Rightarrow> gerror \<Rightarrow> int" where
  "ua_base_delay baseDelay err =
     (let baseDelay = (if baseDelay < 1000000000 then 1000000000 else baseDelay) in
      if isTooManySessionsError err then 60000000000
      else if contains (error_text err) [''EOF''] then 30000000000
      else if baseDelay < 5000000000 then 5000000000
      else baseDelay)"

definition se_recordConnectResult :: "int \<Rightarrow> gerror option \<Rightarrow> int \<Rightarrow> ('n, 'b, 'h) ua_session \<Rightarrow> ('n, 'b, 'h) ua_session" where
  "se_recordConnectResult now err baseDelay se =
     (case err of
        None \<Rightarrow> se\<lparr>se_lastError := None, se_connectFailures := 0, se_nextReconnectAt := zero_time\<rparr>
      | Some g \<Rightarrow>
          let failures = wrap64 (se_connectFailures se + 1) in
          se\<lparr>se_lastError := Some g, se_connectFailures := failures,
             se_nextReconnectAt := now + reconnect_delay (ua_base_delay baseDelay g) failures\<rparr>)"

definition hasRecentActivity :: "('n, 'b, 'h) ua_session \<Rightarrow> int \<Rightarrow> int \<Rightarrow> bool" where
  "hasRecentActivity se idleTimeout now \<longleftrightarrow>
     time_Sub now (ux_lastUsed (se_client se)) < idleTimeout \<or>
     se_hasActiveSubscriptions se \<and> time_Sub now (se_lastPublishTime se) < idleTimeout"

section \<open>Classes of errors\<close>

text \<open>The functions exist, but nothing calls them.\<close>

definition IsDeviceError :: "gerror option \<Rightarrow> bool" where
  "IsDeviceError err =
     (case err of
        None \<Rightarrow> False
      | Some e \<Rightarrow>
          contains (error_text e)
            [''BadNodeId'', ''BadNodeID'', ''node not found'', ''unknown node'', ''BadUserAccessDenied'', ''BadNotWritable'',
             ''BadNotReadable'', ''access denied'', ''BadTypeMismatch'', ''BadOutOfRange'', ''BadDataEncodingInvalid'',
             ''type mismatch'', ''conversion'', ''BadAttributeIdInvalid'', ''BadIndexRangeInvalid'', ''BadBrowseNameInvalid'',
             ''BadWriteNotSupported'', ''write rejected'', ''BadNoEntryExists''])"

definition IsEndpointError :: "gerror option \<Rightarrow> bool" where
  "IsEndpointError err =
     (case err of
        None \<Rightarrow> False
      | Some e \<Rightarrow>
          contains (error_text e)
            [''connection'', ''timeout'', ''closed'', ''refused'', ''reset'', ''broken pipe'', ''no route to host'', ''EOF'',
             ''SecureChannel'', ''BadSecureChannel'', ''certificate'', ''TooManySessions'', ''BadTooManyOperations'',
             ''BadServerTooBusy'', ''BadSessionId'', ''BadSessionClosed'', ''session''])"

end
