(* ===== verification/OpcuaPool.thy ===== *)
theory OpcuaPool
  imports OpcuaSession
begin

text \<open>
  The OPC UA pool (\<open>adapter/opcua/pool.go\<close> and the pool's half of \<open>health.go\<close>): devices bound to the
  sessions of their endpoints, a breaker for each endpoint and each device, subscriptions, the cache of browse
  results, the background ticks. Load shaping, the steps of \<open>OpcuaLoad\<close>, is seen from one call as a decision:
  its operation runs, runs with nobody waiting for it, or does not run. A method runs as one sequence.
\<close>

section \<open>Fields\<close>

text \<open>\<open>uq_done\<close>: the channel \<open>done\<close> is closed. \<open>uq_trustStore\<close>: the pointer is not nil.\<close>

record ('n, 'b, 'h) ua_pool =
  uq_config :: ua_pool_config
  uq_sessions :: "(string \<times> ('n, 'b, 'h) ua_session) list"
  uq_devices :: "(string \<times> 'b device_binding) list"
  uq_closed :: bool
  uq_done :: bool
  uq_browseCache :: "(string \<times> browse_result \<times> int) list"
  uq_browseCacheTTL :: int
  uq_trustStore :: bool
  uq_autoTrust :: bool

datatype load_decision = LoadRun | LoadAbandoned gerror | LoadRefused gerror

text \<open>
  \<open>pv_sub h\<close>: subscriptions whose values go to the handler \<open>h\<close>. \<open>pv_load\<close>: the decision for a priority and a
  session. The breakers are as in \<open>S7Pool\<close>.
\<close>

record ('w, 'n, 'k, 'b, 'h) ua_pool_env =
  pv_ua :: "('w, 'n, 'k) ua_env"
  pv_sub :: "'h \<Rightarrow> ('w, 'n) sub_env"
  pv_browser :: "('w, 'n) ua_browser"
  pv_hash8 :: "string \<Rightarrow> string"
  pv_ReadFile :: "string \<Rightarrow> 'w \<Rightarrow> (gerror + string) \<times> 'w"
  pv_load :: "int \<Rightarrow> string \<Rightarrow> 'w \<Rightarrow> load_decision \<times> 'w"
  pv_newBreaker :: "breaker_settings \<Rightarrow> 'b"
  pv_admit :: "'b \<Rightarrow> 'w \<Rightarrow> (refusal option \<times> 'b) \<times> 'w"
  pv_record :: "bool \<Rightarrow> 'b \<Rightarrow> 'w \<Rightarrow> 'b \<times> 'w"
  pv_state :: "'b \<Rightarrow> 'w \<Rightarrow> (breaker_state \<times> 'b) \<times> 'w"
  pv_order :: "string list \<Rightarrow> 'w \<Rightarrow> string list \<times> 'w"
  pv_cpus :: int

type_synonym ('w, 'n, 'b, 'h, 'a) uap = "(('n, 'b, 'h) ua_pool \<times> 'w, 'a) prog"

definition ua_NewConnectionPool :: "int \<Rightarrow> ua_pool_config \<Rightarrow> ('n, 'b, 'h) ua_pool" where
  "ua_NewConnectionPool cpus config =
     \<lparr>uq_config = ua_pool_defaults cpus config, uq_sessions = [], uq_devices = [], uq_closed = False, uq_done = False,
      uq_browseCache = [], uq_browseCacheTTL = 60000000000, uq_trustStore = False, uq_autoTrust = False\<rparr>"

definition SetTrustStore :: "bool \<Rightarrow> bool \<Rightarrow> ('w, 'n, 'b, 'h, unit) uap" where
  "SetTrustStore ts autoTrust = upd (\<lambda>p. p\<lparr>uq_trustStore := ts, uq_autoTrust := autoTrust\<rparr>)"

section \<open>Entries\<close>

definition session_at :: "string \<Rightarrow> ('n, 'b, 'h) ua_pool \<Rightarrow> ('n, 'b, 'h) ua_session option" where
  "session_at k p = map_of (uq_sessions p) k"

definition binding_at :: "string \<Rightarrow> ('n, 'b, 'h) ua_pool \<Rightarrow> 'b device_binding option" where
  "binding_at i p = map_of (uq_devices p) i"

definition set_session :: "string \<Rightarrow> (('n, 'b, 'h) ua_session \<Rightarrow> ('n, 'b, 'h) ua_session) \<Rightarrow> ('n, 'b, 'h) ua_pool \<Rightarrow> ('n, 'b, 'h) ua_pool" where
  "set_session k f p = p\<lparr>uq_sessions := update_entry k f (uq_sessions p)\<rparr>"

definition set_binding :: "string \<Rightarrow> ('b device_binding \<Rightarrow> 'b device_binding) \<Rightarrow> ('n, 'b, 'h) ua_pool \<Rightarrow> ('n, 'b, 'h) ua_pool" where
  "set_binding i f p = p\<lparr>uq_devices := update_entry i f (uq_devices p)\<rparr>"

definition delete_session :: "string \<Rightarrow> ('n, 'b, 'h) ua_pool \<Rightarrow> ('n, 'b, 'h) ua_pool" where
  "delete_session k p = p\<lparr>uq_sessions := AList.delete k (uq_sessions p)\<rparr>"

definition delete_binding :: "string \<Rightarrow> ('n, 'b, 'h) ua_pool \<Rightarrow> ('n, 'b, 'h) ua_pool" where
  "delete_binding i p = p\<lparr>uq_devices := AList.delete i (uq_devices p)\<rparr>"

definition leave_session :: "string \<Rightarrow> ('n, 'b, 'h) ua_session \<Rightarrow> ('n, 'b, 'h) ua_session" where
  "leave_session i = se_devices_update (filter (\<lambda>j. j \<noteq> i))"

text \<open>A method of the client of a session, and of its subscription manager, which has the same client.\<close>

definition on_session :: "string \<Rightarrow> ('w, 'n, 'a) ua \<Rightarrow> ('w, 'n, 'b, 'h, 'a) uap" where
  "on_session k = focus (\<lambda>p. map_option se_client (session_at k p)) (\<lambda>c. set_session k (se_client_update (\<lambda>_. c)))"

definition manager_of :: "('n, 'b, 'h) ua_session \<Rightarrow> 'n subscription_manager option" where
  "manager_of se = map_option (\<lambda>(sm, h). sm\<lparr>sm_client := se_client se\<rparr>) (se_manager se)"

definition put_manager :: "'n subscription_manager \<Rightarrow> ('n, 'b, 'h) ua_session \<Rightarrow> ('n, 'b, 'h) ua_session" where
  "put_manager sm se = se\<lparr>se_client := sm_client sm, se_manager := map_option (\<lambda>(_, h). (sm, h)) (se_manager se)\<rparr>"

definition on_manager :: "string \<Rightarrow> ('w, 'n, 'a) sub \<Rightarrow> ('w, 'n, 'b, 'h, 'a) uap" where
  "on_manager k = focus (\<lambda>p. Option.bind (session_at k p) manager_of) (\<lambda>sm. set_session k (put_manager sm))"

definition pool_now :: "('w, 'n, 'k, 'b, 'h) ua_pool_env \<Rightarrow> ('w, 'n, 'b, 'h, int) uap" where
  "pool_now P = call (ue_Now (pv_ua P))"

definition walk_sessions :: "('w, 'n, 'k, 'b, 'h) ua_pool_env \<Rightarrow> ('w, 'n, 'b, 'h, string list) uap" where
  "walk_sessions P = bnd (field (\<lambda>p. map fst (uq_sessions p))) (\<lambda>ks. call (pv_order P ks))"

definition device_not_found :: gerror where
  "device_not_found = Sentinel (ServiceE ErrDeviceNotFound)"

section \<open>Getting a client\<close>

definition endpointKey :: "('w, 'n, 'k, 'b, 'h) ua_pool_env \<Rightarrow> device \<Rightarrow> ('w, 'n, 'b, 'h, string) uap" where
  "endpointKey P d =
     bnd (field uq_config) (\<lambda>config.
     bnd (if conn_OPCCertFile (dev_Connection d) \<noteq> ''''
          then bnd (call (pv_ReadFile P (conn_OPCCertFile (dev_Connection d)))) (\<lambda>r.
            ret (case r of Inl err \<Rightarrow> None | Inr content \<Rightarrow> Some content))
          else ret None) (\<lambda>content.
     ret (endpoint_key_of (pv_hash8 P) config (dev_Connection d) content)))"

definition new_binding :: "('w, 'n, 'k, 'b, 'h) ua_pool_env \<Rightarrow> device \<Rightarrow> string \<Rightarrow> 'b device_binding" where
  "new_binding P d epKey =
     \<lparr>db_DeviceID = dev_ID d, db_Device = d, db_EndpointKey = epKey,
      db_breaker = pv_newBreaker P (device_breaker_settings d)\<rparr>"

definition bind_device :: "('w, 'n, 'k, 'b, 'h) ua_pool_env \<Rightarrow> device \<Rightarrow> string \<Rightarrow> ('n, 'b, 'h) ua_pool \<Rightarrow> ('n, 'b, 'h) ua_pool" where
  "bind_device P d epKey p =
     (set_session epKey (se_devices_update (\<lambda>ds. ds @ [dev_ID d])) p)
       \<lparr>uq_devices := AList.update (dev_ID d) (new_binding P d epKey) (uq_devices p)\<rparr>"

definition ClearBrowseCacheForEndpoint :: "string \<Rightarrow> ('n, 'b, 'h) ua_pool \<Rightarrow> ('n, 'b, 'h) ua_pool" where
  "ClearBrowseCacheForEndpoint epKey p =
     p\<lparr>uq_browseCache := filter (\<lambda>(key, e). \<not> prefix (epKey @ ''|'') key) (uq_browseCache p)\<rparr>"

definition ClearBrowseCache :: "('n, 'b, 'h) ua_pool \<Rightarrow> ('n, 'b, 'h) ua_pool" where
  "ClearBrowseCache p = p\<lparr>uq_browseCache := []\<rparr>"

text \<open>Connect the client of a session and note the outcome.\<close>

definition connect_session :: "('w, 'n, 'k, 'b, 'h) ua_pool_env \<Rightarrow> string \<Rightarrow> int \<Rightarrow> ('w, 'n, 'b, 'h, gerror option) uap" where
  "connect_session P epKey now =
     bnd (on_session epKey (ua_Connect (pv_ua P))) (\<lambda>err.
     bnd (upd (\<lambda>p. set_session epKey (se_recordConnectResult now err (op_RetryDelay (uq_config p))) p)) (\<lambda>_.
     ret err))"

definition backoff_error :: "gerror option \<Rightarrow> gerror" where
  "backoff_error lastError =
     (case lastError of
        Some e \<Rightarrow> WrapV (ConnE ErrConnectionFailed) (''reconnect backoff active: '' @ error_text e)
      | None \<Rightarrow> WrapV (ConnE ErrConnectionFailed) ''reconnect backoff active'')"

text \<open>Results of these methods: the key of the session whose client it is.\<close>

definition getClientFromExistingSession ::
  "('w, 'n, 'k, 'b, 'h) ua_pool_env \<Rightarrow> device \<Rightarrow> string \<Rightarrow> ('n, 'b, 'h) ua_session \<Rightarrow> ('w, 'n, 'b, 'h, gerror + string) uap" where
  "getClientFromExistingSession P d epKey se =
     bnd (if dev_ID d \<in> set (se_devices se) then ret () else upd (bind_device P d epKey)) (\<lambda>_.
     if ua_IsConnected (se_client se) then ret (Inr epKey)
     else
       bnd (pool_now P) (\<lambda>now.
       if \<not> se_canAttemptReconnect se now then ret (Inl (backoff_error (se_lastError se)))
       else
         bnd (connect_session P epKey now) (\<lambda>err.
         case err of
           Some e \<Rightarrow> ret (Inl e)
         | None \<Rightarrow>
             bnd (upd (ClearBrowseCacheForEndpoint (se_endpointKey se))) (\<lambda>_.
             ret (Inr epKey)))))"

definition newClientForEndpoint ::
  "('w, 'n, 'k, 'b, 'h) ua_pool_env \<Rightarrow> device \<Rightarrow> ('w, 'n, 'b, 'h, gerror + 'n ua_client) uap" where
  "newClientForEndpoint P d =
     bnd (field (\<lambda>p. (uq_config p, uq_trustStore p, uq_autoTrust p))) (\<lambda>(config, trustStore, autoTrust).
     bnd (pool_now P) (\<lambda>now.
     ret (case ua_NewClient (dev_ID d) (ua_client_settings config d) now of
            Inl err \<Rightarrow> Inl err
          | Inr c \<Rightarrow> Inr (if trustStore then c\<lparr>ux_trustStore := True, ux_autoTrust := autoTrust\<rparr> else c))))"

definition new_session ::
  "('w, 'n, 'k, 'b, 'h) ua_pool_env \<Rightarrow> ua_pool_config \<Rightarrow> 'n ua_client \<Rightarrow> device \<Rightarrow> string \<Rightarrow> int \<Rightarrow> ('n, 'b, 'h) ua_session" where
  "new_session P config client d epKey now =
     \<lparr>se_client = client, se_endpointKey = epKey, se_endpointURL = oc_EndpointURL (ux_config client),
      se_breaker = pv_newBreaker P (endpoint_breaker_settings epKey), se_devices = [dev_ID d], se_createdAt = now,
      se_lastError = None, se_connectFailures = 0, se_nextReconnectAt = zero_time, se_manager = None,
      se_lastPublishTime = zero_time, se_hasActiveSubscriptions = False,
      se_maxInFlight = op_MaxInFlightPerEndpoint config\<rparr>"

definition createNewSession ::
  "('w, 'n, 'k, 'b, 'h) ua_pool_env \<Rightarrow> device \<Rightarrow> string \<Rightarrow> ('w, 'n, 'b, 'h, gerror + string) uap" where
  "createNewSession P d epKey =
     bnd (newClientForEndpoint P d) (\<lambda>created.
     case created of
       Inl err \<Rightarrow> ret (Inl err)
     | Inr client \<Rightarrow>
         bnd (pool_now P) (\<lambda>now.
         bnd (upd (\<lambda>p. p\<lparr>
             uq_sessions := AList.update epKey (new_session P (uq_config p) client d epKey now) (uq_sessions p),
             uq_devices := AList.update (dev_ID d) (new_binding P d epKey) (uq_devices p)\<rparr>)) (\<lambda>_.
         bnd (pool_now P) (\<lambda>now.
         bnd (connect_session P epKey now) (\<lambda>err.
         ret (case err of Some e \<Rightarrow> Inl e | None \<Rightarrow> Inr epKey))))))"

text \<open>A device whose endpoint has changed leaves its old session.\<close>

definition leave_endpoint :: "string \<Rightarrow> string \<Rightarrow> ('n, 'b, 'h) ua_pool \<Rightarrow> ('n, 'b, 'h) ua_pool" where
  "leave_endpoint i epKey p =
     (case binding_at i p of
        None \<Rightarrow> p
      | Some b \<Rightarrow>
          if db_EndpointKey b = epKey then p
          else delete_binding i (set_session (db_EndpointKey b) (leave_session i) p))"

definition ua_GetClient :: "('w, 'n, 'k, 'b, 'h) ua_pool_env \<Rightarrow> device \<Rightarrow> ('w, 'n, 'b, 'h, gerror + string) uap" where
  "ua_GetClient P d =
     bnd (field uq_closed) (\<lambda>closed.
     if closed then ret (Inl (Sentinel (ServiceE ErrServiceStopped)))
     else
       bnd (endpointKey P d) (\<lambda>epKey.
       bnd (upd (leave_endpoint (dev_ID d) epKey)) (\<lambda>_.
       bnd (field (\<lambda>p. (session_at epKey p, op_MaxConnections (uq_config p) \<le> int (length (uq_sessions p))))) (\<lambda>(session, full).
       case session of
         Some se \<Rightarrow> getClientFromExistingSession P d epKey se
       | None \<Rightarrow>
           if full then ret (Inl (Sentinel (ConnE ErrPoolExhausted)))
           else createNewSession P d epKey))))"

text \<open>The binding of a device and the session it names.\<close>

definition getSessionForDevice :: "string \<Rightarrow> ('n, 'b, 'h) ua_pool \<Rightarrow> (string \<times> ('n, 'b, 'h) ua_session) option" where
  "getSessionForDevice i p =
     (case binding_at i p of
        None \<Rightarrow> None
      | Some b \<Rightarrow> (case session_at (db_EndpointKey b) p of None \<Rightarrow> None | Some se \<Rightarrow> Some (db_EndpointKey b, se)))"

definition getDeviceBinding :: "string \<Rightarrow> ('n, 'b, 'h) ua_pool \<Rightarrow> 'b device_binding option" where
  "getDeviceBinding = binding_at"

section \<open>Requests through two breakers\<close>

definition record_endpoint :: "('w, 'n, 'k, 'b, 'h) ua_pool_env \<Rightarrow> string \<Rightarrow> bool \<Rightarrow> ('w, 'n, 'b, 'h, unit) uap" where
  "record_endpoint P k success =
     bnd (field (session_at k)) (\<lambda>session.
     case session of
       None \<Rightarrow> ret ()
     | Some se \<Rightarrow>
         bnd (call (pv_record P success (se_breaker se))) (\<lambda>b. upd (set_session k (se_breaker_update (\<lambda>_. b)))))"

definition record_device :: "('w, 'n, 'k, 'b, 'h) ua_pool_env \<Rightarrow> string \<Rightarrow> bool \<Rightarrow> ('w, 'n, 'b, 'h, unit) uap" where
  "record_device P i success =
     bnd (field (binding_at i)) (\<lambda>binding.
     case binding of
       None \<Rightarrow> ret ()
     | Some db \<Rightarrow>
         bnd (call (pv_record P success (db_breaker db))) (\<lambda>b. upd (set_binding i (db_breaker_update (\<lambda>_. b)))))"

definition admit_endpoint :: "('w, 'n, 'k, 'b, 'h) ua_pool_env \<Rightarrow> string \<Rightarrow> ('w, 'n, 'b, 'h, refusal option) uap" where
  "admit_endpoint P k =
     bnd (field (session_at k)) (\<lambda>session.
     case session of
       None \<Rightarrow> panic ''nil pointer dereference''
     | Some se \<Rightarrow>
         bnd (call (pv_admit P (se_breaker se))) (\<lambda>(refused, b).
         bnd (upd (set_session k (se_breaker_update (\<lambda>_. b)))) (\<lambda>_.
         ret refused)))"

definition admit_device :: "('w, 'n, 'k, 'b, 'h) ua_pool_env \<Rightarrow> string \<Rightarrow> ('w, 'n, 'b, 'h, refusal option) uap" where
  "admit_device P i =
     bnd (field (binding_at i)) (\<lambda>binding.
     case binding of
       None \<Rightarrow> panic ''nil pointer dereference''
     | Some db \<Rightarrow>
         bnd (call (pv_admit P (db_breaker db))) (\<lambda>(refused, b).
         bnd (upd (set_binding i (db_breaker_update (\<lambda>_. b)))) (\<lambda>_.
         ret refused)))"

definition endpoint_state :: "('w, 'n, 'k, 'b, 'h) ua_pool_env \<Rightarrow> string \<Rightarrow> ('w, 'n, 'b, 'h, breaker_state) uap" where
  "endpoint_state P k =
     bnd (field (session_at k)) (\<lambda>session.
     case session of
       None \<Rightarrow> panic ''nil pointer dereference''
     | Some se \<Rightarrow>
         bnd (call (pv_state P (se_breaker se))) (\<lambda>(st, b).
         bnd (upd (set_session k (se_breaker_update (\<lambda>_. b)))) (\<lambda>_.
         ret st)))"

definition device_state :: "('w, 'n, 'k, 'b, 'h) ua_pool_env \<Rightarrow> string \<Rightarrow> ('w, 'n, 'b, 'h, breaker_state) uap" where
  "device_state P i =
     bnd (field (binding_at i)) (\<lambda>binding.
     case binding of
       None \<Rightarrow> panic ''nil pointer dereference''
     | Some db \<Rightarrow>
         bnd (call (pv_state P (db_breaker db))) (\<lambda>(st, b).
         bnd (upd (set_binding i (db_breaker_update (\<lambda>_. b)))) (\<lambda>_.
         ret st)))"

text \<open>\<open>breaker.Execute\<close> inside \<open>breaker.Execute\<close>: the outer breaker counts what the inner one answers.\<close>

definition execute_device ::
  "('w, 'n, 'k, 'b, 'h) ua_pool_env \<Rightarrow> string \<Rightarrow> string \<Rightarrow> ('w, 'n, 'a \<times> gerror option) ua \<Rightarrow>
   ('w, 'n, 'b, 'h, refusal + 'a \<times> gerror option) uap" where
  "execute_device P k i request =
     bnd (admit_device P i) (\<lambda>refused.
     case refused of
       Some r \<Rightarrow> ret (Inl r)
     | None \<Rightarrow>
         bnd_run (on_session k request) (\<lambda>r. case r of
           Val (a, err) \<Rightarrow> bnd (record_device P i (err = None)) (\<lambda>_. ret (Inr (a, err)))
         | Panic p \<Rightarrow> bnd (record_device P i False) (\<lambda>_. panic p)))"

definition succeeded :: "refusal + 'a \<times> gerror option \<Rightarrow> bool" where
  "succeeded result = (case result of Inl r \<Rightarrow> False | Inr (a, err) \<Rightarrow> err = None)"

definition execute_endpoint ::
  "('w, 'n, 'k, 'b, 'h) ua_pool_env \<Rightarrow> string \<Rightarrow> string \<Rightarrow> ('w, 'n, 'a \<times> gerror option) ua \<Rightarrow>
   ('w, 'n, 'b, 'h, refusal + 'a \<times> gerror option) uap" where
  "execute_endpoint P k i request =
     bnd (admit_endpoint P k) (\<lambda>refused.
     case refused of
       Some r \<Rightarrow> ret (Inl r)
     | None \<Rightarrow>
         bnd_run (execute_device P k i request) (\<lambda>r. case r of
           Val result \<Rightarrow> bnd (record_endpoint P k (succeeded result)) (\<lambda>_. ret result)
         | Panic p \<Rightarrow> bnd (record_endpoint P k False) (\<lambda>_. panic p)))"

definition executeWithTwoTierBreaker ::
  "('w, 'n, 'k, 'b, 'h) ua_pool_env \<Rightarrow> string \<Rightarrow> string \<Rightarrow> 'a \<Rightarrow> ('w, 'n, 'a \<times> gerror option) ua \<Rightarrow>
   ('w, 'n, 'b, 'h, 'a \<times> gerror option) uap" where
  "executeWithTwoTierBreaker P k i nothing request =
     bnd (execute_endpoint P k i request) (\<lambda>result.
     case result of
       Inr (a, None) \<Rightarrow> ret (a, None)
     | Inr (a, Some e) \<Rightarrow> ret (nothing, Some e)
     | Inl TooManyRequests \<Rightarrow> ret (nothing, Some too_many_requests)
     | Inl OpenState \<Rightarrow>
         bnd (endpoint_state P k) (\<lambda>st.
         if st = BreakerOpen then ret (nothing, Some (WrapV (ConnE ErrCircuitBreakerOpen) ''endpoint breaker open''))
         else
           bnd (device_state P i) (\<lambda>st.
           if st = BreakerOpen
           then ret (nothing, Some (WrapV (ConnE ErrCircuitBreakerOpen) (''device breaker open for '' @ i)))
           else ret (nothing, Some (Sentinel (ConnE ErrCircuitBreakerOpen))))))"

text \<open>
  What the request methods share: the client, the session and the binding of the device, the load, the breakers.
  When nobody waits any more the operation runs all the same and its outcome is lost.
\<close>

definition ua_guarded ::
  "('w, 'n, 'k, 'b, 'h) ua_pool_env \<Rightarrow> device \<Rightarrow> int \<Rightarrow> 'a \<Rightarrow> ('w, 'n, 'a \<times> gerror option) ua \<Rightarrow>
   ('w, 'n, 'b, 'h, 'a \<times> gerror option) uap" where
  "ua_guarded P d priority nothing request =
     bnd (ua_GetClient P d) (\<lambda>client.
     case client of
       Inl err \<Rightarrow> ret (nothing, Some err)
     | Inr epKey \<Rightarrow>
         bnd (field (\<lambda>p. (getSessionForDevice (dev_ID d) p, getDeviceBinding (dev_ID d) p))) (\<lambda>(session, binding).
         case (session, binding) of
           (Some (k, se), Some db) \<Rightarrow>
             bnd (call (pv_load P priority k)) (\<lambda>decision.
             case decision of
               LoadRefused e \<Rightarrow> ret (nothing, Some e)
             | LoadRun \<Rightarrow> executeWithTwoTierBreaker P k (dev_ID d) nothing request
             | LoadAbandoned e \<Rightarrow>
                 bnd (executeWithTwoTierBreaker P k (dev_ID d) nothing request) (\<lambda>_. ret (nothing, Some e)))
         | _ \<Rightarrow> ret (nothing, Some device_not_found)))"

definition highest_priority :: "int \<Rightarrow> tag list \<Rightarrow> int" where
  "highest_priority = foldl (\<lambda>priority t. if priority < uint (tag_Priority t) then uint (tag_Priority t) else priority)"

function read_batches ::
  "('w, 'n, 'k) ua_env \<Rightarrow> nat \<Rightarrow> tag list \<Rightarrow> data_point list \<Rightarrow> ('w, 'n, data_point list \<times> gerror option) ua" where
  "read_batches E n ts results =
     (if ts = [] then ret (results, None)
      else if n = 0 then panic ''slice bounds out of range''
      else
        bnd (ua_ReadTags E (take n ts)) (\<lambda>answer.
        case answer of
          Inl err \<Rightarrow> ret ([], Some err)
        | Inr dps \<Rightarrow> read_batches E n (drop n ts) (results @ dps)))"
  by pat_completeness auto
termination by (relation "measure (\<lambda>(E, n, ts, results). length ts)") auto

definition read_within :: "('w, 'n, 'k) ua_env \<Rightarrow> int \<Rightarrow> tag list \<Rightarrow> ('w, 'n, data_point list \<times> gerror option) ua" where
  "read_within E maxNodes ts =
     (if int (length ts) \<le> maxNodes
      then bnd (ua_ReadTags E ts) (\<lambda>answer. ret (case answer of Inl err \<Rightarrow> ([], Some err) | Inr dps \<Rightarrow> (dps, None)))
      else read_batches E (nat maxNodes) ts [])"

definition ua_pool_ReadTags ::
  "('w, 'n, 'k, 'b, 'h) ua_pool_env \<Rightarrow> device \<Rightarrow> tag list \<Rightarrow> ('w, 'n, 'b, 'h, data_point list \<times> gerror option) uap" where
  "ua_pool_ReadTags P d ts =
     bnd (field (\<lambda>p. op_MaxNodesPerRead (uq_config p))) (\<lambda>maxNodes.
     ua_guarded P d (highest_priority 0 ts) [] (read_within (pv_ua P) maxNodes ts))"

definition ua_pool_ReadTag ::
  "('w, 'n, 'k, 'b, 'h) ua_pool_env \<Rightarrow> device \<Rightarrow> tag \<Rightarrow> ('w, 'n, 'b, 'h, data_point option \<times> gerror option) uap" where
  "ua_pool_ReadTag P d t = ua_guarded P d (uint (tag_Priority t)) None (ua_ReadTag (pv_ua P) t)"

definition ua_pool_WriteTag ::
  "('w, 'n, 'k, 'b, 'h) ua_pool_env \<Rightarrow> device \<Rightarrow> tag \<Rightarrow> goval \<Rightarrow> ('w, 'n, 'b, 'h, unit \<times> gerror option) uap" where
  "ua_pool_WriteTag P d t v =
     ua_guarded P d (highest_priority 1 [t]) () (bnd (ua_WriteTag (pv_ua P) t v) (\<lambda>err. ret ((), err)))"

text \<open>The request itself has no error, so that the breakers count every batch as a success.\<close>

definition ua_pool_WriteTags ::
  "('w, 'n, 'k, 'b, 'h) ua_pool_env \<Rightarrow> device \<Rightarrow> tag_write list \<Rightarrow> ('w, 'n, 'b, 'h, gerror option list) uap" where
  "ua_pool_WriteTags P d writes =
     bnd (ua_guarded P d 1 [] (bnd (ua_WriteTags (pv_ua P) writes) (\<lambda>errs. ret (errs, None)))) (\<lambda>(errs, err).
     ret (case err of Some e \<Rightarrow> replicate (length writes) (Some e) | None \<Rightarrow> errs))"

end
