(* ===== verification/OpcuaPoolCare.thy ===== *)
theory OpcuaPoolCare
  imports OpcuaPool
begin

text \<open>
  The rest of the OPC UA pool (\<open>adapter/opcua/pool.go\<close>, \<open>health.go\<close>): subscriptions of devices, browsing
  through the cache, removal and closing, health, the ticks that reconnect and that reap.
\<close>

section \<open>Subscriptions\<close>

definition device_subscription_config :: "device \<Rightarrow> subscription_config" where
  "device_subscription_config d =
     (let conn = dev_Connection d; config = DefaultSubscriptionConfig in
      config\<lparr>sf_PublishInterval :=
               (if 0 < conn_OPCPublishInterval conn then conn_OPCPublishInterval conn else sf_PublishInterval config),
             sf_SamplingInterval :=
               (if 0 < conn_OPCSamplingInterval conn then conn_OPCSamplingInterval conn else sf_SamplingInterval config)\<rparr>)"

definition wrap_error :: "string \<Rightarrow> gerror option \<Rightarrow> gerror option" where
  "wrap_error what = map_option (WrapW what)"

text \<open>The manager of a session is made for the first device; its handler is that device's.\<close>

definition ensure_manager :: "string \<Rightarrow> 'h \<Rightarrow> ('n, 'b, 'h) ua_session \<Rightarrow> ('w, 'n, 'b, 'h, gerror option) uap" where
  "ensure_manager k handler se =
     (if se_manager se \<noteq> None then ret None
      else
        let mgr = NewSubscriptionManager (se_client se) in
        if \<not> ua_IsConnected (se_client se)
        then ret (Some (WrapW ''failed to start subscription manager'' ua_closed))
        else
          bnd (upd (set_session k (se_manager_update (\<lambda>_. Some (mgr\<lparr>sm_running := True\<rparr>, handler))))) (\<lambda>_. ret None))"

definition session_handler :: "string \<Rightarrow> 'h \<Rightarrow> ('n, 'b, 'h) ua_pool \<Rightarrow> 'h" where
  "session_handler k handler p =
     (case Option.bind (session_at k p) se_manager of Some (_, h) \<Rightarrow> h | None \<Rightarrow> handler)"

definition SubscribeDevice ::
  "('w, 'n, 'k, 'b, 'h) ua_pool_env \<Rightarrow> device \<Rightarrow> tag list \<Rightarrow> 'h \<Rightarrow> ('w, 'n, 'b, 'h, gerror option) uap" where
  "SubscribeDevice P d tags handler =
     bnd (ua_GetClient P d) (\<lambda>client.
     case client of
       Inl err \<Rightarrow> ret (Some (WrapW ''failed to get client for subscription'' err))
     | Inr epKey \<Rightarrow>
         bnd (field (getSessionForDevice (dev_ID d))) (\<lambda>session.
         case session of
           None \<Rightarrow> ret (Some device_not_found)
         | Some (k, se) \<Rightarrow>
             bnd (ensure_manager k handler se) (\<lambda>err.
             case err of
               Some e \<Rightarrow> ret (Some e)
             | None \<Rightarrow>
                 bnd (field (session_handler k handler)) (\<lambda>h.
                 bnd (on_manager k (sm_Subscribe (pv_ua P) (pv_sub P h) d tags (device_subscription_config d))) (\<lambda>err.
                 case err of
                   Some e \<Rightarrow> ret (Some e)
                 | None \<Rightarrow>
                     bnd (pool_now P) (\<lambda>now.
                     bnd (upd (set_session k (\<lambda>se. se\<lparr>se_hasActiveSubscriptions := True, se_lastPublishTime := now\<rparr>))) (\<lambda>_.
                     ret None)))))))"

definition UnsubscribeDevice ::
  "('w, 'n, 'k, 'b, 'h) ua_pool_env \<Rightarrow> string \<Rightarrow> ('w, 'n, 'b, 'h, gerror option) uap" where
  "UnsubscribeDevice P i =
     bnd (field (getSessionForDevice i)) (\<lambda>session.
     case session of
       None \<Rightarrow> ret (Some device_not_found)
     | Some (k, se) \<Rightarrow>
         (case se_manager se of
            None \<Rightarrow> ret None
          | Some (sm, h) \<Rightarrow>
              bnd (on_manager k (sm_Unsubscribe (pv_sub P h) i)) (\<lambda>err.
              case err of
                Some e \<Rightarrow> ret (Some e)
              | None \<Rightarrow>
                  bnd (on_manager k (field sm_Stats)) (\<lambda>stats.
                  bnd (upd (set_session k (se_hasActiveSubscriptions_update (\<lambda>_. 0 < ss_Active stats)))) (\<lambda>_.
                  ret None)))))"

text \<open>An event of the handler of a device's subscription.\<close>

definition subscription_event ::
  "('w, 'n, 'k, 'b, 'h) ua_pool_env \<Rightarrow> string \<Rightarrow> string \<Rightarrow> sub_event \<Rightarrow> ('w, 'n, 'b, 'h, bool) uap" where
  "subscription_event P k i ev =
     bnd (field (session_at k)) (\<lambda>session.
     case session of
       None \<Rightarrow> ret False
     | Some se \<Rightarrow>
         (case se_manager se of
            None \<Rightarrow> ret False
          | Some (sm, h) \<Rightarrow> on_manager k (handle_event (pv_ua P) (pv_sub P h) i ev)))"

section \<open>Browsing\<close>

text \<open>A method of the client of a session that may not return.\<close>

definition on_session_o :: "string \<Rightarrow> ('w, 'n, 'a) uao \<Rightarrow> (('n, 'b, 'h) ua_pool \<times> 'w, 'a) oprog" where
  "on_session_o k m s =
     (case session_at k (fst s) of
        None \<Rightarrow> Some (Panic ''nil pointer dereference'', s)
      | Some se \<Rightarrow>
          (case m (se_client se, snd s) of
             None \<Rightarrow> None
           | Some (r, (c, w)) \<Rightarrow> Some (r, (set_session k (se_client_update (\<lambda>_. c)) (fst s), w))))"

definition browse_key :: "string \<Rightarrow> string \<Rightarrow> int \<Rightarrow> string" where
  "browse_key epKey nodeID maxDepth = epKey @ ''|'' @ nodeID @ ''|'' @ dec maxDepth"

text \<open>A cached result that has expired is removed.\<close>

definition cached_browse :: "('w, 'n, 'k, 'b, 'h) ua_pool_env \<Rightarrow> string \<Rightarrow> ('w, 'n, 'b, 'h, browse_result option) uap" where
  "cached_browse P key =
     bnd (field (\<lambda>p. map_of (uq_browseCache p) key)) (\<lambda>cached.
     case cached of
       None \<Rightarrow> ret None
     | Some (result, expires) \<Rightarrow>
         bnd (pool_now P) (\<lambda>now.
         if now < expires then ret (Some result)
         else bnd (upd (\<lambda>p. p\<lparr>uq_browseCache := AList.delete key (uq_browseCache p)\<rparr>)) (\<lambda>_. ret None)))"

text \<open>Only the endpoint's breaker guards a browse.\<close>

definition execute_browse ::
  "('w, 'n, 'k, 'b, 'h) ua_pool_env \<Rightarrow> string \<Rightarrow> string \<Rightarrow> int \<Rightarrow>
   (('n, 'b, 'h) ua_pool \<times> 'w, gerror + browse_result) oprog" where
  "execute_browse P k nodeID maxDepth =
     obnd (always (admit_endpoint P k)) (\<lambda>refused.
     case refused of
       Some OpenState \<Rightarrow> always (ret (Inl (WrapV (ConnE ErrCircuitBreakerOpen) ''endpoint breaker open'')))
     | Some TooManyRequests \<Rightarrow> always (ret (Inl too_many_requests))
     | None \<Rightarrow>
         obnd (on_session_o k (ua_Browse (pv_ua P) (pv_browser P) nodeID maxDepth)) (\<lambda>answer.
         obnd (always (record_endpoint P k (case answer of Inl e \<Rightarrow> False | Inr r \<Rightarrow> True))) (\<lambda>_.
         always (ret answer))))"

definition BrowseNodes ::
  "('w, 'n, 'k, 'b, 'h) ua_pool_env \<Rightarrow> string \<Rightarrow> string \<Rightarrow> int \<Rightarrow> (('n, 'b, 'h) ua_pool \<times> 'w, gerror + browse_result) oprog" where
  "BrowseNodes P i nodeID maxDepth =
     obnd (always (field (\<lambda>p. (getSessionForDevice i p, getDeviceBinding i p)))) (\<lambda>(session, binding).
     case (session, binding) of
       (Some (k, se), Some db) \<Rightarrow>
         obnd (always (cached_browse P (browse_key (db_EndpointKey db) nodeID maxDepth))) (\<lambda>cached.
         case cached of
           Some result \<Rightarrow> always (ret (Inr result))
         | None \<Rightarrow>
             obnd (execute_browse P k nodeID maxDepth) (\<lambda>answer.
             case answer of
               Inl err \<Rightarrow> always (ret (Inl err))
             | Inr result \<Rightarrow>
                 obnd (always (pool_now P)) (\<lambda>now.
                 obnd (always (upd (\<lambda>p. p\<lparr>uq_browseCache :=
                   AList.update (browse_key (db_EndpointKey db) nodeID maxDepth) (result, now + uq_browseCacheTTL p)
                     (uq_browseCache p)\<rparr>))) (\<lambda>_.
                 always (ret (Inr result))))))
     | _ \<Rightarrow> always (ret (Inl device_not_found)))"

section \<open>Removal and closing\<close>

text \<open>The last device of a session takes the session with it, and leaves its subscription manager running.\<close>

definition ua_RemoveClient :: "('w, 'n, 'k, 'b, 'h) ua_pool_env \<Rightarrow> string \<Rightarrow> ('w, 'n, 'b, 'h, gerror option) uap" where
  "ua_RemoveClient P i =
     bnd (field (binding_at i)) (\<lambda>binding.
     case binding of
       None \<Rightarrow> ret (Some device_not_found)
     | Some db \<Rightarrow>
         bnd (field (session_at (db_EndpointKey db))) (\<lambda>session.
         case session of
           None \<Rightarrow> bnd (upd (delete_binding i)) (\<lambda>_. ret None)
         | Some se \<Rightarrow>
             bnd (upd (set_session (db_EndpointKey db) (leave_session i))) (\<lambda>_.
             bnd (upd (delete_binding i)) (\<lambda>_.
             if se_devices (leave_session i se) = [] then
               bnd (on_session (db_EndpointKey db) (ua_Disconnect (pv_ua P))) (\<lambda>err.
               bnd (upd (delete_session (db_EndpointKey db))) (\<lambda>_.
               ret None))
             else ret None))))"

text \<open>Stop the manager of a session, if it has one, and drop it.\<close>

definition stop_manager :: "('w, 'n, 'k, 'b, 'h) ua_pool_env \<Rightarrow> string \<Rightarrow> ('w, 'n, 'b, 'h, unit) uap" where
  "stop_manager P k =
     bnd (field (\<lambda>p. Option.bind (session_at k p) se_manager)) (\<lambda>mgr.
     case mgr of
       None \<Rightarrow> ret ()
     | Some (sm, h) \<Rightarrow>
         bnd (on_manager k (sm_Stop (pv_sub P h))) (\<lambda>_.
         upd (set_session k (se_manager_update (\<lambda>_. None)))))"

fun close_sessions ::
  "('w, 'n, 'k, 'b, 'h) ua_pool_env \<Rightarrow> string list \<Rightarrow> gerror option \<Rightarrow> ('w, 'n, 'b, 'h, gerror option) uap" where
  "close_sessions P [] lastErr = ret lastErr"
| "close_sessions P (k # ks) lastErr =
     bnd (stop_manager P k) (\<lambda>_.
     bnd (on_session k (ua_Disconnect (pv_ua P))) (\<lambda>err.
     close_sessions P ks (case err of Some e \<Rightarrow> Some e | None \<Rightarrow> lastErr)))"

text \<open>The workers and the two loops have ended when the queues are closed.\<close>

definition ua_pool_Close :: "('w, 'n, 'k, 'b, 'h) ua_pool_env \<Rightarrow> ('w, 'n, 'b, 'h, gerror option) uap" where
  "ua_pool_Close P =
     bnd (upd (uq_closed_update (\<lambda>_. True))) (\<lambda>_.
     bnd (field uq_done) (\<lambda>done.
     if done then panic ''close of closed channel''
     else
       bnd (upd (uq_done_update (\<lambda>_. True))) (\<lambda>_.
       bnd (walk_sessions P) (\<lambda>ks.
       bnd (close_sessions P ks None) (\<lambda>lastErr.
       bnd (upd (\<lambda>p. p\<lparr>uq_sessions := [], uq_devices := []\<rparr>)) (\<lambda>_.
       ret lastErr))))))"

section \<open>Health\<close>

definition ua_HealthCheck :: "('n, 'b, 'h) ua_pool \<Rightarrow> gerror option" where
  "ua_HealthCheck p = (if uq_closed p then Some (Sentinel (ServiceE ErrServiceStopped)) else None)"

record ua_pool_stats =
  uz_TotalSessions :: nat
  uz_ActiveSessions :: nat
  uz_TotalDevices :: nat
  uz_MaxSessions :: int

definition ua_pool_Stats :: "('n, 'b, 'h) ua_pool \<Rightarrow> ua_pool_stats" where
  "ua_pool_Stats p =
     \<lparr>uz_TotalSessions = length (uq_sessions p),
      uz_ActiveSessions = length (filter (\<lambda>(k, se). ua_IsConnected (se_client se)) (uq_sessions p)),
      uz_TotalDevices = length (uq_devices p), uz_MaxSessions = op_MaxConnections (uq_config p)\<rparr>"

record ua_device_health =
  uh_DeviceID :: string
  uh_EndpointKey :: string
  uh_Connected :: bool
  uh_EndpointBreakerOpen :: bool
  uh_DeviceBreakerOpen :: bool
  uh_CircuitBreakerOpen :: bool
  uh_LastError :: "gerror option"
  uh_SessionState :: session_state
  uh_DevicesOnSession :: nat

definition GetDeviceHealth ::
  "('w, 'n, 'k, 'b, 'h) ua_pool_env \<Rightarrow> string \<Rightarrow> ('w, 'n, 'b, 'h, ua_device_health option) uap" where
  "GetDeviceHealth P i =
     bnd (field (getSessionForDevice i)) (\<lambda>session.
     case session of
       None \<Rightarrow> ret None
     | Some (k, se) \<Rightarrow>
         bnd (endpoint_state P k) (\<lambda>st1.
         bnd (device_state P i) (\<lambda>st2.
         ret (Some \<lparr>uh_DeviceID = i, uh_EndpointKey = take 50 k, uh_Connected = ua_IsConnected (se_client se),
                   uh_EndpointBreakerOpen = (st1 = BreakerOpen), uh_DeviceBreakerOpen = (st2 = BreakerOpen),
                   uh_CircuitBreakerOpen = (st1 = BreakerOpen \<or> st2 = BreakerOpen), uh_LastError = se_lastError se,
                   uh_SessionState = ua_GetSessionState (se_client se), uh_DevicesOnSession = length (se_devices se)\<rparr>))))"

record ua_session_health =
  ui_EndpointKey :: string
  ui_EndpointURL :: string
  ui_Connected :: bool
  ui_CircuitBreakerOpen :: bool
  ui_LastError :: "gerror option"
  ui_SessionState :: session_state
  ui_DeviceIDs :: "string list"

definition GetSessionHealth ::
  "('w, 'n, 'k, 'b, 'h) ua_pool_env \<Rightarrow> string \<Rightarrow> ('w, 'n, 'b, 'h, ua_session_health option) uap" where
  "GetSessionHealth P k =
     bnd (field (session_at k)) (\<lambda>session.
     case session of
       None \<Rightarrow> ret None
     | Some se \<Rightarrow>
         bnd (call (pv_order P (se_devices se))) (\<lambda>deviceIDs.
         bnd (endpoint_state P k) (\<lambda>st.
         ret (Some \<lparr>ui_EndpointKey = k, ui_EndpointURL = se_endpointURL se, ui_Connected = ua_IsConnected (se_client se),
                   ui_CircuitBreakerOpen = (st = BreakerOpen), ui_LastError = se_lastError se,
                   ui_SessionState = ua_GetSessionState (se_client se), ui_DeviceIDs = deviceIDs\<rparr>))))"

fun sessions_health ::
  "('w, 'n, 'k, 'b, 'h) ua_pool_env \<Rightarrow> string list \<Rightarrow> ('w, 'n, 'b, 'h, ua_session_health list) uap" where
  "sessions_health P [] = ret []"
| "sessions_health P (k # ks) =
     bnd (GetSessionHealth P k) (\<lambda>h.
     bnd (sessions_health P ks) (\<lambda>hs.
     ret (case h of None \<Rightarrow> hs | Some h \<Rightarrow> h # hs)))"

definition GetAllSessionsHealth ::
  "('w, 'n, 'k, 'b, 'h) ua_pool_env \<Rightarrow> ('w, 'n, 'b, 'h, ua_session_health list) uap" where
  "GetAllSessionsHealth P = bnd (walk_sessions P) (sessions_health P)"

section \<open>Ticks\<close>

definition checkSessionHealth :: "('w, 'n, 'k, 'b, 'h) ua_pool_env \<Rightarrow> string \<Rightarrow> ('w, 'n, 'b, 'h, unit) uap" where
  "checkSessionHealth P k =
     bnd (field (session_at k)) (\<lambda>session.
     case session of
       None \<Rightarrow> ret ()
     | Some se \<Rightarrow>
         bnd (endpoint_state P k) (\<lambda>st.
         if st = BreakerOpen then ret ()
         else if ua_IsConnected (se_client se) then ret ()
         else
           bnd (pool_now P) (\<lambda>now.
           if \<not> se_canAttemptReconnect se now then ret ()
           else bnd (connect_session P k now) (\<lambda>err. ret ()))))"

fun check_each :: "('w, 'n, 'k, 'b, 'h) ua_pool_env \<Rightarrow> string list \<Rightarrow> ('w, 'n, 'b, 'h, unit) uap" where
  "check_each P [] = ret ()"
| "check_each P (k # ks) = bnd (checkSessionHealth P k) (\<lambda>_. check_each P ks)"

definition ua_health_tick :: "('w, 'n, 'k, 'b, 'h) ua_pool_env \<Rightarrow> ('w, 'n, 'b, 'h, unit) uap" where
  "ua_health_tick P =
     bnd (field uq_closed) (\<lambda>closed.
     if closed then ret ()
     else bnd (walk_sessions P) (check_each P))"

definition reapable :: "ua_pool_config \<Rightarrow> ('n, 'b, 'h) ua_session \<Rightarrow> int \<Rightarrow> int \<Rightarrow> bool" where
  "reapable config se now1 now2 \<longleftrightarrow>
     \<not> hasRecentActivity se (op_IdleTimeout config) now1 \<or>
     0 < op_MaxTTL config \<and> op_MaxTTL config < time_Sub now2 (se_createdAt se)"

text \<open>The second pass: which sessions to reap. The clock of the lifetimes is read once.\<close>

fun to_reap :: "('w, 'n, 'k, 'b, 'h) ua_pool_env \<Rightarrow> int \<Rightarrow> string list \<Rightarrow> ('w, 'n, 'b, 'h, string list) uap" where
  "to_reap P now [] = ret []"
| "to_reap P now (k # ks) =
     bnd (pool_now P) (\<lambda>now1.
     bnd (field (\<lambda>p. case session_at k p of None \<Rightarrow> False | Some se \<Rightarrow> reapable (uq_config p) se now1 now)) (\<lambda>reap.
     bnd (to_reap P now ks) (\<lambda>rest.
     ret (if reap then k # rest else rest))))"

text \<open>Only the bindings that still belong to the session go.\<close>

definition drop_binding :: "string \<Rightarrow> string \<Rightarrow> ('n, 'b, 'h) ua_pool \<Rightarrow> ('n, 'b, 'h) ua_pool" where
  "drop_binding k i p =
     (case binding_at i p of
        None \<Rightarrow> p
      | Some db \<Rightarrow> if db_EndpointKey db = k then delete_binding i p else p)"

definition drop_bindings :: "string \<Rightarrow> string list \<Rightarrow> ('n, 'b, 'h) ua_pool \<Rightarrow> ('n, 'b, 'h) ua_pool" where
  "drop_bindings k = fold (drop_binding k)"

definition reap_session :: "('w, 'n, 'k, 'b, 'h) ua_pool_env \<Rightarrow> string \<Rightarrow> ('w, 'n, 'b, 'h, unit) uap" where
  "reap_session P k =
     bnd (field (\<lambda>p. (session_at k p, uq_config p))) (\<lambda>(session, config).
     case session of
       None \<Rightarrow> ret ()
     | Some se \<Rightarrow>
         bnd (pool_now P) (\<lambda>now1.
         bnd (if 0 < op_MaxTTL config then pool_now P else ret now1) (\<lambda>now2.
         if \<not> reapable config se now1 now2 then ret ()
         else
           bnd (stop_manager P k) (\<lambda>_.
           bnd (on_session k (ua_Disconnect (pv_ua P))) (\<lambda>_.
           bnd (upd (drop_bindings k (se_devices se))) (\<lambda>_.
           upd (delete_session k)))))))"

fun reap_sessions :: "('w, 'n, 'k, 'b, 'h) ua_pool_env \<Rightarrow> string list \<Rightarrow> ('w, 'n, 'b, 'h, unit) uap" where
  "reap_sessions P [] = ret ()"
| "reap_sessions P (k # ks) = bnd (reap_session P k) (\<lambda>_. reap_sessions P ks)"

definition reapIdleSessions :: "('w, 'n, 'k, 'b, 'h) ua_pool_env \<Rightarrow> ('w, 'n, 'b, 'h, unit) uap" where
  "reapIdleSessions P =
     bnd (walk_sessions P) (\<lambda>ks.
     bnd (pool_now P) (\<lambda>now.
     bnd (to_reap P now ks) (reap_sessions P)))"

definition ua_reaper_tick :: "('w, 'n, 'k, 'b, 'h) ua_pool_env \<Rightarrow> ('w, 'n, 'b, 'h, unit) uap" where
  "ua_reaper_tick P =
     bnd (field uq_closed) (\<lambda>closed. if closed then ret () else reapIdleSessions P)"

end
