(* ===== verification/DomainText.thy ===== *)
theory DomainText
  imports Device
begin

text \<open>
  The strings of the domain's enumerations. In the source an enumeration is a string type, so converting
  to and from \<open>string\<close> is free; here the conversions pick the constructor and give its text.
\<close>

definition protocol_of :: "string \<Rightarrow> protocol" where
  "protocol_of s =
     (if s = ''modbus-tcp'' then ProtocolModbusTCP
      else if s = ''modbus-rtu'' then ProtocolModbusRTU
      else if s = ''opcua'' then ProtocolOPCUA
      else if s = ''s7'' then ProtocolS7
      else if s = ''mqtt'' then ProtocolMQTT
      else ProtocolOther s)"

definition data_type_of :: "string \<Rightarrow> data_type" where
  "data_type_of s =
     (if s = ''bool'' then DataTypeBool
      else if s = ''int16'' then DataTypeInt16
      else if s = ''uint16'' then DataTypeUInt16
      else if s = ''int32'' then DataTypeInt32
      else if s = ''uint32'' then DataTypeUInt32
      else if s = ''int64'' then DataTypeInt64
      else if s = ''uint64'' then DataTypeUInt64
      else if s = ''float32'' then DataTypeFloat32
      else if s = ''float64'' then DataTypeFloat64
      else if s = ''string'' then DataTypeString
      else DataTypeOther s)"

definition register_type_of :: "string \<Rightarrow> register_type" where
  "register_type_of s =
     (if s = ''coil'' then RegisterTypeCoil
      else if s = ''discrete_input'' then RegisterTypeDiscreteInput
      else if s = ''holding_register'' then RegisterTypeHoldingRegister
      else if s = ''input_register'' then RegisterTypeInputRegister
      else RegisterTypeOther s)"

primrec byte_order_text :: "byte_order \<Rightarrow> string" where
  "byte_order_text ByteOrderBigEndian = ''big_endian''"
| "byte_order_text ByteOrderLittleEndian = ''little_endian''"
| "byte_order_text ByteOrderMidBigEndian = ''mid_big''"
| "byte_order_text ByteOrderMidLitEndian = ''mid_little''"
| "byte_order_text (ByteOrderOther s) = s"

definition byte_order_of :: "string \<Rightarrow> byte_order" where
  "byte_order_of s =
     (if s = ''big_endian'' then ByteOrderBigEndian
      else if s = ''little_endian'' then ByteOrderLittleEndian
      else if s = ''mid_big'' then ByteOrderMidBigEndian
      else if s = ''mid_little'' then ByteOrderMidLitEndian
      else ByteOrderOther s)"

primrec access_mode_text :: "access_mode \<Rightarrow> string" where
  "access_mode_text AccessModeReadOnly = ''read''"
| "access_mode_text AccessModeWriteOnly = ''write''"
| "access_mode_text AccessModeReadWrite = ''readwrite''"
| "access_mode_text (AccessModeOther s) = s"

definition access_mode_of :: "string \<Rightarrow> access_mode" where
  "access_mode_of s =
     (if s = ''read'' then AccessModeReadOnly
      else if s = ''write'' then AccessModeWriteOnly
      else if s = ''readwrite'' then AccessModeReadWrite
      else AccessModeOther s)"

primrec deadband_type_text :: "deadband_type \<Rightarrow> string" where
  "deadband_type_text DeadbandTypeNone = ''none''"
| "deadband_type_text DeadbandTypeAbsolute = ''absolute''"
| "deadband_type_text DeadbandTypePercent = ''percent''"
| "deadband_type_text (DeadbandTypeOther s) = s"

definition deadband_type_of :: "string \<Rightarrow> deadband_type" where
  "deadband_type_of s =
     (if s = ''none'' then DeadbandTypeNone
      else if s = ''absolute'' then DeadbandTypeAbsolute
      else if s = ''percent'' then DeadbandTypePercent
      else DeadbandTypeOther s)"

text \<open>
  A value is plain when it is what its text converts to: every value that came from a string is. The
  datatypes also hold values like \<open>ProtocolOther ''s7''\<close>, which the program has no way to make.
\<close>

lemma text_of [simp]:
  "protocol_text (protocol_of s) = s" "data_type_text (data_type_of s) = s"
  "register_type_text (register_type_of s) = s" "byte_order_text (byte_order_of s) = s"
  "access_mode_text (access_mode_of s) = s" "deadband_type_text (deadband_type_of s) = s"
  by (simp_all add: protocol_of_def data_type_of_def register_type_of_def byte_order_of_def
      access_mode_of_def deadband_type_of_def)

lemma of_text [simp]:
  "protocol_of ''modbus-tcp'' = ProtocolModbusTCP" "protocol_of ''modbus-rtu'' = ProtocolModbusRTU"
  "protocol_of ''opcua'' = ProtocolOPCUA" "protocol_of ''s7'' = ProtocolS7"
  "byte_order_of '''' = ByteOrderOther ''''" "access_mode_of '''' = AccessModeOther ''''"
  "protocol_of '''' = ProtocolOther ''''" "register_type_of '''' = RegisterTypeOther ''''"
  "data_type_of '''' = DataTypeOther ''''" "deadband_type_of '''' = DeadbandTypeOther ''''"
  by (simp_all add: protocol_of_def byte_order_of_def access_mode_of_def register_type_of_def
      data_type_of_def deadband_type_of_def)

definition plain_tag :: "tag \<Rightarrow> bool" where
  "plain_tag t \<longleftrightarrow>
     data_type_of (data_type_text (tag_DataType t)) = tag_DataType t \<and>
     register_type_of (register_type_text (tag_RegisterType t)) = tag_RegisterType t \<and>
     byte_order_of (byte_order_text (tag_ByteOrder t)) = tag_ByteOrder t \<and>
     access_mode_of (access_mode_text (tag_AccessMode t)) = tag_AccessMode t \<and>
     deadband_type_of (deadband_type_text (tag_DeadbandType t)) = tag_DeadbandType t"

definition plain_device :: "device \<Rightarrow> bool" where
  "plain_device d \<longleftrightarrow>
     protocol_of (protocol_text (dev_Protocol d)) = dev_Protocol d \<and> (\<forall>t\<in>set (dev_Tags d). plain_tag t)"

end
