(* ===== verification/GoDuration.thy ===== *)
theory GoDuration
  imports GoDigits GoFloat
begin

text \<open>
  The text of a \<open>time.Duration\<close>: \<open>String\<close> and \<open>time.ParseDuration\<close> of the standard library, which the
  configuration files and the configuration messages go through, and the theorem that the second reads
  back what the first writes. A duration is an \<open>int64\<close> of nanoseconds; the parser's \<open>uint64\<close> sums are kept
  with their overflow checks, its fractions are \<open>float64\<close> as in the library.
\<close>

section \<open>Parsing\<close>

text \<open>\<open>leadingInt\<close>: too large a number is an error.\<close>

definition leadingInt :: "string \<Rightarrow> (int \<times> string) option" where
  "leadingInt s =
     (let ds = takeWhile is_digit s
      in if 2 ^ 63 < digits_value ds then None else Some (digits_value ds, dropWhile is_digit s))"

text \<open>\<open>leadingFraction\<close>: the digits that still fit, and the power of ten they are divided by.\<close>

fun fraction_digits :: "string \<Rightarrow> int \<Rightarrow> f64 \<Rightarrow> int \<times> f64" where
  "fraction_digits [] x scale = (x, scale)"
| "fraction_digits (c # s) x scale =
     (let y = x * 10 + digit_value c
      in if (2 ^ 63 - 1) div 10 < x \<or> 2 ^ 63 < y then (x, scale)
         else fraction_digits s y (f64_mul scale (f64_of_int 10)))"

definition leadingFraction :: "string \<Rightarrow> int \<times> f64 \<times> string" where
  "leadingFraction s =
     (case fraction_digits (takeWhile is_digit s) 0 (f64_of_int 1) of (x, scale) \<Rightarrow> (x, scale, dropWhile is_digit s))"

text \<open>\<open>unitMap\<close>; the two signs for micro are the bytes C2 B5 and CE BC.\<close>

definition unit_of :: "string \<Rightarrow> int option" where
  "unit_of u =
     (if u = ''ns'' then Some 1
      else if u = ''us'' \<or> u = [CHR 0xC2, CHR 0xB5, CHR ''s''] \<or> u = [CHR 0xCE, CHR 0xBC, CHR ''s''] then Some 1000
      else if u = ''ms'' then Some 1000000
      else if u = ''s'' then Some 1000000000
      else if u = ''m'' then Some 60000000000
      else if u = ''h'' then Some 3600000000000
      else None)"

text \<open>\<open>uint64\<close> of a \<open>float64\<close> that is in its range; the fractions of a unit always are.\<close>

definition float_part :: "int \<Rightarrow> int \<Rightarrow> f64 \<Rightarrow> int" where
  "float_part f unit scale =
     (case fp_trunc (decode64 (f64_mul (f64_of_int f) (f64_div (f64_of_int unit) scale))) of
        Some i \<Rightarrow> i mod 2 ^ 64
      | None \<Rightarrow> 0)"

definition unit_char :: "char \<Rightarrow> bool" where
  "unit_char c \<longleftrightarrow> c \<noteq> CHR ''.'' \<and> \<not> is_digit c"

text \<open>One number with its unit: what it adds, and the rest.\<close>

definition parse_component :: "string \<Rightarrow> (int \<times> string) option" where
  "parse_component s =
     (if s = [] \<or> \<not> (hd s = CHR ''.'' \<or> is_digit (hd s)) then None
      else case leadingInt s of
        None \<Rightarrow> None
      | Some (v, r) \<Rightarrow>
          (let pre = (length r \<noteq> length s);
               (f, scale, r', post) =
                 (case r of
                    [] \<Rightarrow> (0, f64_of_int 1, r, False)
                  | c # r1 \<Rightarrow>
                      if c = CHR ''.''
                      then (case leadingFraction r1 of (f, scale, r2) \<Rightarrow> (f, scale, r2, length r1 \<noteq> length r2))
                      else (0, f64_of_int 1, r, False))
           in if \<not> pre \<and> \<not> post then None
              else case unit_of (takeWhile unit_char r') of
                None \<Rightarrow> None
              | Some unit \<Rightarrow>
                  if 2 ^ 63 div unit < v then None
                  else
                    (let v1 = v * unit;
                         v2 = (if 0 < f then (v1 + float_part f unit scale) mod 2 ^ 64 else v1)
                     in if 0 < f \<and> 2 ^ 63 < v2 then None else Some (v2, dropWhile unit_char r'))))"

lemma dropWhile_unit: "unit_of (takeWhile unit_char s) = Some u \<Longrightarrow> length (dropWhile unit_char s) < length s"
  by (cases s) (auto simp: unit_of_def le_imp_less_Suc length_dropWhile_le split: if_splits)

lemma parse_component_shorter:
  assumes "parse_component s = Some (v, r)"
  shows "length r < length s"
proof -
  have unit: "length (dropWhile unit_char t) < length s"
    if "unit_of (takeWhile unit_char t) = Some u" "length t \<le> length s" for t u
    using dropWhile_unit [OF that(1)] that(2) by simp
  have drop: "length (dropWhile is_digit t) \<le> n" if "length t \<le> n" for t n
    using length_dropWhile_le [of is_digit t] that by simp
  from assms obtain w r0 where r0: "leadingInt s = Some (w, r0)" "length r0 \<le> length s"
    by (auto simp: parse_component_def leadingInt_def Let_def drop split: if_splits option.splits)
  show ?thesis
  proof (cases "r0 \<noteq> [] \<and> hd r0 = CHR ''.''")
    case True
    then obtain r1 where "r0 = CHR ''.'' # r1" by (cases r0) auto
    with assms r0 show ?thesis
      by (auto simp: parse_component_def leadingFraction_def Let_def intro!: unit drop split: if_splits option.splits prod.splits)
  next
    case False
    with assms r0 have "\<exists>u. unit_of (takeWhile unit_char r0) = Some u \<and> r = dropWhile unit_char r0"
      by (cases r0) (auto simp: parse_component_def Let_def simp del: takeWhile.simps dropWhile.simps
          split: if_splits option.splits)
    with r0(2) show ?thesis by (auto intro: unit)
  qed
qed

function parse_components :: "string \<Rightarrow> int \<Rightarrow> int option" where
  "parse_components s d =
     (if s = [] then Some d
      else case parse_component s of
        None \<Rightarrow> None
      | Some (v, r) \<Rightarrow>
          (let d' = (d + v) mod 2 ^ 64 in if 2 ^ 63 < d' then None else parse_components r d'))"
  by pat_completeness auto
termination by (relation "measure (length \<circ> fst)") (auto dest: parse_component_shorter)

declare parse_components.simps [simp del]

definition ParseDuration :: "string \<Rightarrow> int option" where
  "ParseDuration s =
     (let neg = (s \<noteq> [] \<and> hd s = CHR ''-'');
          r = (if s \<noteq> [] \<and> (hd s = CHR ''-'' \<or> hd s = CHR ''+'') then tl s else s)
      in if r = ''0'' then Some 0
         else if r = [] then None
         else case parse_components r 0 of
           None \<Rightarrow> None
         | Some d \<Rightarrow> if neg then Some (- d) else if 2 ^ 63 - 1 < d then None else Some d)"

section \<open>Writing\<close>

text \<open>The last \<open>k\<close> digits of a number.\<close>

fun last_digits :: "nat \<Rightarrow> int \<Rightarrow> string" where
  "last_digits 0 v = []"
| "last_digits (Suc k) v = last_digits k (v div 10) @ [char_of (48 + v mod 10)]"

text \<open>\<open>fmtFrac\<close>: a dot and the digits up to the last one that is not 0, or nothing.\<close>

definition frac_text :: "nat \<Rightarrow> int \<Rightarrow> string" where
  "frac_text prec v =
     (let ds = rev (dropWhile (\<lambda>c. c = CHR ''0'') (rev (last_digits prec v)))
      in if ds = [] then [] else CHR ''.'' # ds)"

definition amount_text :: "nat \<Rightarrow> int \<Rightarrow> string \<Rightarrow> string" where
  "amount_text prec u name = dec (u div 10 ^ prec) @ frac_text prec (u mod 10 ^ prec) @ name"

text \<open>From one second on: hours, minutes and seconds, with leading zero parts left out.\<close>

definition clock_text :: "int \<Rightarrow> string" where
  "clock_text u =
     (let secs = u div 10 ^ 9;
          mins = secs div 60;
          hours = mins div 60;
          s = dec (secs mod 60) @ frac_text 9 (u mod 10 ^ 9) @ ''s''
      in if mins = 0 then s
         else if hours = 0 then dec (mins mod 60) @ ''m'' @ s
         else dec hours @ ''h'' @ dec (mins mod 60) @ ''m'' @ s)"

definition duration_text :: "int \<Rightarrow> string" where
  "duration_text u =
     (if u = 0 then ''0s''
      else if u < 10 ^ 3 then amount_text 0 u ''ns''
      else if u < 10 ^ 6 then amount_text 3 u [CHR 0xC2, CHR 0xB5, CHR ''s'']
      else if u < 10 ^ 9 then amount_text 6 u ''ms''
      else clock_text u)"

definition Duration_String :: "int \<Rightarrow> string" where
  "Duration_String d = (if d < 0 then CHR ''-'' # duration_text (- d) else duration_text d)"

section \<open>Exact arithmetic of small integers\<close>

lemma bitlen_mult:
  assumes "0 < a" and "0 < c"
  shows "bitlen (a * c) = bitlen a + bitlen c \<or> bitlen (a * c) = bitlen a + bitlen c - 1"
proof -
  note A = bitlen_bounds [OF assms(1)] and C = bitlen_bounds [OF assms(2)]
  have pos: "0 < a * c" using assms by simp
  have "a * c < 2 ^ nat (bitlen a) * 2 ^ nat (bitlen c)"
    using A C assms by (intro mult_strict_mono) auto
  also have "\<dots> = 2 ^ nat (bitlen a + bitlen c)" using A C by (simp add: nat_add_distrib power_add)
  finally have up: "bitlen (a * c) \<le> bitlen a + bitlen c" using bitlen_le [OF pos] A C by fastforce
  have "2 ^ nat (bitlen a - 1) * 2 ^ nat (bitlen c - 1) \<le> a * c"
    using A C assms by (intro mult_mono) auto
  then have "2 ^ (nat (bitlen a - 1) + nat (bitlen c - 1)) < (2::int) ^ nat (bitlen (a * c))"
    using bitlen_bounds [OF pos] by (simp add: power_add)
  then have "nat (bitlen a - 1) + nat (bitlen c - 1) < nat (bitlen (a * c))" by simp
  with up A C show ?thesis by linarith
qed

text \<open>Rounding an exact quotient.\<close>

lemma rnd_ratio:
  assumes a: "0 < a" "a < 2 ^ 53" and c: "0 < c"
  shows "rnd F64 s (a * c) c = rnd F64 s a 1"
proof -
  let ?l = "bitlen a"
  have l: "0 < ?l" "?l \<le> 53" "2 ^ nat (?l - 1) \<le> a" "a < 2 ^ nat ?l"
    using bitlen_bounds [OF a(1)] bitlen_le [of a 53] a by auto
  have size: "2 ^ nat (?l - 1 - e) \<le> a * 2 ^ nat (- e) \<and> a * 2 ^ nat (- e) < 2 ^ nat (?l - e)" if "e \<le> 0" for e
  proof -
    have "2 ^ nat (?l - 1) * 2 ^ nat (- e) \<le> a * 2 ^ nat (- e)" "a * 2 ^ nat (- e) < 2 ^ nat ?l * 2 ^ nat (- e)"
      using l by simp_all
    moreover have "nat (?l - 1 - e) = nat (?l - 1) + nat (- e)" "nat (?l - e) = nat ?l + nat (- e)"
      using l(1) that by simp_all
    ultimately show ?thesis by (simp add: power_add)
  qed
  have main: "rnd F64 s (a * d) d = Fin s (a * 2 ^ nat (53 - ?l)) (?l - 53)" if d: "0 < d" for d
  proof -
    define e0 where "e0 = max (emin F64) (bitlen (a * d) - bitlen d - int (Suc (frac_bits F64)))"
    have e0: "e0 = ?l - 53 \<or> e0 = ?l - 54"
      using bitlen_mult [OF a(1) d] l by (auto simp: e0_def)
    then have neg: "e0 \<le> 0" using l by auto
    have sc: "scaled (a * d) d e = (a * 2 ^ nat (- e) * d, d)" if "e \<le> 0" for e
      using that by (cases "e = 0") (simp_all add: scaled_def)
    have qd: "quot (a * 2 ^ k * d, d) = a * 2 ^ k" "round_even (a * 2 ^ k * d, d) = a * 2 ^ k" for k
      using d by (simp_all add: quot_def round_even_def Let_def)
    have e1: "(if quot (scaled (a * d) d e0) < 2 ^ 53 then e0 else e0 + 1) = ?l - 53"
      using e0 size [OF neg] l by (auto simp: sc [OF neg] qd)
    have small: "a * 2 ^ nat (53 - ?l) < 2 ^ 53" using size [of "?l - 53"] l by simp
    have "a * d \<noteq> 0" using a d by simp
    then have "rnd F64 s (a * d) d = (let m = round_even (scaled (a * d) d (?l - 53));
         me = (if m = 2 ^ 53 then (2 ^ 52, ?l - 53 + 1) else (m, ?l - 53))
       in if 971 < snd me then Inf s else Fin s (fst me) (snd me))"
      unfolding rnd_def Let_def e0_def [symmetric] using e1 by simp
    also have "\<dots> = Fin s (a * 2 ^ nat (53 - ?l)) (?l - 53)"
      using l small by (simp add: sc qd)
    finally show ?thesis .
  qed
  from main [of c] main [of 1] c show ?thesis by simp
qed

lemma decode_of_int:
  assumes "0 < n" and "n < 2 ^ 53"
  obtains k where "decode64 (f64_of_int n) = Fin False (n * 2 ^ k) (- int k)"
proof -
  note ex = rnd_int_exact [OF assms]
  let ?e = "if n * 2 ^ nat (- (bitlen n - 54)) < 2 ^ 53 then bitlen n - 54 else bitlen n - 54 + 1"
  have n: "(n < 0) = False" "\<bar>n\<bar> = n" using assms(1) by simp_all
  have "decode64 (f64_of_int n) = Fin False (n * 2 ^ nat (- ?e)) ?e"
    unfolding f64_of_int_def fp_of_int_def n ex(1) by (rule decode64_encode64 [OF ex(2)])
  moreover have "- int (nat (- ?e)) = ?e" using ex(3) by simp
  ultimately have "decode64 (f64_of_int n) = Fin False (n * 2 ^ nat (- ?e)) (- int (nat (- ?e)))" by (simp only:)
  then show ?thesis by (rule that)
qed

lemma f64_mul_int:
  assumes "0 < a" and "0 < b" and "a * b < 2 ^ 53"
  shows "f64_mul (f64_of_int a) (f64_of_int b) = f64_of_int (a * b)"
proof -
  have "a * 1 \<le> a * b" "1 * b \<le> a * b" using assms by (intro mult_mono; simp)+
  then have "a < 2 ^ 53" "b < 2 ^ 53" using assms(3) by simp_all
  then obtain i j where d: "decode64 (f64_of_int a) = Fin False (a * 2 ^ i) (- int i)"
    "decode64 (f64_of_int b) = Fin False (b * 2 ^ j) (- int j)"
    using decode_of_int assms(1,2) by metis
  have "frac_of (a * 2 ^ i * (b * 2 ^ j)) (- int i + - int j) = (a * b * 2 ^ (i + j), 2 ^ (i + j))"
    by (cases "i + j = 0") (auto simp: frac_of_def power_add nat_add_distrib)
  with rnd_ratio [of "a * b" "2 ^ (i + j)" False] assms have
    "fp_mul F64 (decode64 (f64_of_int a)) (decode64 (f64_of_int b)) = rnd F64 False (a * b) 1"
    by (simp add: d)
  moreover have "(a * b < 0) = False" "\<bar>a * b\<bar> = a * b" using assms(1,2) by (simp_all add: not_less)
  ultimately show ?thesis unfolding f64_mul_def by (simp add: f64_of_int_def [of "a * b"] fp_of_int_def)
qed

lemma f64_div_int:
  assumes "0 < a" and "0 < b" and "a * b < 2 ^ 53"
  shows "f64_div (f64_of_int (a * b)) (f64_of_int b) = f64_of_int a"
proof -
  have "a * 1 \<le> a * b" "1 * b \<le> a * b" using assms by (intro mult_mono; simp)+
  then have small: "a < 2 ^ 53" "b < 2 ^ 53" using assms(3) by simp_all
  then obtain i j where d: "decode64 (f64_of_int (a * b)) = Fin False (a * b * 2 ^ i) (- int i)"
    "decode64 (f64_of_int b) = Fin False (b * 2 ^ j) (- int j)"
    using decode_of_int assms by (metis mult_pos_pos)
  have "fp_div F64 (decode64 (f64_of_int (a * b))) (decode64 (f64_of_int b)) = rnd F64 False (a * (b * 2 ^ max i j)) (b * 2 ^ max i j)"
  proof (cases "i \<le> j")
    case True
    then have "frac_of (a * b * 2 ^ i) (- int i - - int j) = (a * b * 2 ^ j, 1)"
      by (simp add: frac_of_def nat_diff_distrib flip: power_add)
    with True assms show ?thesis by (simp add: d max_def mult.assoc)
  next
    case False
    then have "frac_of (a * b * 2 ^ i) (- int i - - int j) = (a * b * 2 ^ i, 2 ^ (i - j))"
      by (simp add: frac_of_def nat_diff_distrib)
    then have "fp_div F64 (decode64 (f64_of_int (a * b))) (decode64 (f64_of_int b)) =
        rnd F64 False (a * b * 2 ^ i) (2 ^ (i - j) * (b * 2 ^ j))"
      using assms by (simp add: d)
    also have "2 ^ (i - j) * (b * 2 ^ j) = b * (2::int) ^ i"
      using False by (simp add: mult.left_commute flip: power_add)
    finally show ?thesis using False by (simp add: max_def mult.assoc)
  qed
  also have "\<dots> = rnd F64 False a 1" using assms(1,2) small(1) by (intro rnd_ratio) simp_all
  finally show ?thesis using assms(1) by (simp add: f64_div_def f64_of_int_def fp_of_int_def)
qed

section \<open>Written digits\<close>

lemma digits_value_append: "digits_value (s @ t) = digits_value s * 10 ^ length t + digits_value t"
proof (induction t rule: rev_induct)
  case Nil
  then show ?case by (simp add: digits_value_def)
next
  case (snoc c t)
  then show ?case by (simp add: digits_value_snoc algebra_simps flip: append_assoc)
qed

lemma digits_value_Cons: "digits_value (c # s) = digit_value c * 10 ^ length s + digits_value s"
  using digits_value_append [of "[c]" s] by (simp add: digits_value_def [of "[c]"])

lemma digits_value_nonneg: "list_all is_digit s \<Longrightarrow> 0 \<le> digits_value s"
  by (induction s rule: rev_induct) (auto simp: digits_value_snoc digit_value_def is_digit_def Let_def digits_value_def [of "[]"])

lemma digits_value_zeros: "digits_value (replicate j CHR ''0'') = 0"
  by (induction j) (simp_all add: digits_value_def [of "[]"] digits_value_Cons digit_value_def)

lemma last_digits_ok:
  "0 \<le> v \<Longrightarrow> v < 10 ^ k \<Longrightarrow>
   list_all is_digit (last_digits k v) \<and> digits_value (last_digits k v) = v \<and> length (last_digits k v) = k"
proof (induction k arbitrary: v)
  case 0
  then show ?case by (simp add: digits_value_def)
next
  case (Suc k)
  have "v div 10 < 10 ^ k" using Suc.prems by simp
  with Suc.IH [of "v div 10"] Suc.prems(1) digit_char [of "v mod 10"] show ?case
    by (simp add: digits_value_snoc)
qed

lemma last_digits_0: "last_digits k 0 = replicate k CHR ''0''"
proof (induction k)
  case (Suc k)
  have "char_of (48 :: int) = CHR ''0''" by code_simp
  with Suc show ?case by (simp add: replicate_append_same)
qed simp

text \<open>The written fraction: nothing for 0, else digits with the value of the fraction.\<close>

lemma frac_text_cases:
  assumes "0 \<le> v" and "v < 10 ^ prec"
  obtains "v = 0" "frac_text prec v = []"
  | ds where "0 < digits_value ds" "list_all is_digit ds" "length ds \<le> prec"
    "digits_value ds * 10 ^ (prec - length ds) = v" "frac_text prec v = CHR ''.'' # ds"
proof (cases "v = 0")
  case True
  then show ?thesis using that(1) by (simp add: frac_text_def last_digits_0)
next
  case False
  let ?z = "\<lambda>c. c = CHR ''0''"
  let ?L = "last_digits prec v"
  define ds where "ds = rev (dropWhile ?z (rev ?L))"
  define zs where "zs = rev (takeWhile ?z (rev ?L))"
  have L: "?L = ds @ zs" unfolding ds_def zs_def by (metis rev_append rev_rev_ident takeWhile_dropWhile_id)
  have "\<forall>c\<in>set zs. c = CHR ''0''" using set_takeWhileD [of _ ?z "rev ?L"] by (auto simp: zs_def)
  then have zs: "zs = replicate (length zs) CHR ''0''" by (simp add: replicate_eqI)
  note ok = last_digits_ok [OF assms]
  have "length ds + length zs = prec" using ok by (simp add: L)
  then have len: "length zs = prec - length ds" by simp
  have val: "digits_value ds * 10 ^ (prec - length ds) = v"
    using ok digits_value_zeros [of "length zs"] zs by (simp add: L digits_value_append len)
  moreover have "0 < digits_value ds"
    using val False digits_value_nonneg [of ds] ok by (cases "digits_value ds = 0") (auto simp: L)
  moreover from this have "ds \<noteq> []" by (auto simp: digits_value_def)
  then have "frac_text prec v = CHR ''.'' # ds" by (simp add: frac_text_def ds_def)
  moreover have "list_all is_digit ds" "length ds \<le> prec" using ok by (simp_all add: L)
  ultimately show ?thesis by (intro that(2))
qed

section \<open>Reading a fraction\<close>

lemma fraction_digits_value:
  "list_all is_digit ds \<Longrightarrow> 0 \<le> x \<Longrightarrow> x < 10 ^ j \<Longrightarrow> j + length ds \<le> 15 \<Longrightarrow>
   fraction_digits ds x (f64_of_int (10 ^ j)) = (x * 10 ^ length ds + digits_value ds, f64_of_int (10 ^ (j + length ds)))"
proof (induction ds arbitrary: x j)
  case Nil
  then show ?case by (simp add: digits_value_def)
next
  case (Cons c ds)
  let ?y = "x * 10 + digit_value c"
  have d: "0 \<le> digit_value c" "digit_value c < 10" using Cons.prems(1) by (simp_all add: digit_value_def is_digit_def Let_def)
  have y: "0 \<le> ?y" "?y < 10 ^ Suc j" using d Cons.prems(2,3) by simp_all
  have "(10::int) ^ Suc j \<le> 10 ^ 15" using Cons.prems(4) by (intro power_increasing) simp_all
  with y have "?y < 10 ^ 15" by simp
  with d Cons.prems(2) have small: "\<not> (2 ^ 63 - 1) div 10 < x" "\<not> 2 ^ 63 < ?y" by simp_all
  have "(10::int) ^ Suc j < 2 ^ 53" using \<open>10 ^ Suc j \<le> 10 ^ 15\<close> by simp
  with f64_mul_int [of "10 ^ j" 10] have step: "f64_mul (f64_of_int (10 ^ j)) (f64_of_int 10) = f64_of_int (10 ^ Suc j)"
    by (simp add: mult.commute)
  from Cons.IH [of ?y "Suc j"] Cons.prems y have
    "fraction_digits ds ?y (f64_of_int (10 ^ Suc j)) = (?y * 10 ^ length ds + digits_value ds, f64_of_int (10 ^ (Suc j + length ds)))"
    by simp
  with small show ?case by (simp add: Let_def step digits_value_Cons algebra_simps)
qed

lemma float_part_value:
  assumes "0 < f" and "f * 10 ^ (prec - k) = v" and "v < 10 ^ prec" and "k \<le> prec" and "prec \<le> 9"
  shows "float_part f (10 ^ prec) (f64_of_int (10 ^ k)) = v"
proof -
  have p: "(10::int) ^ prec = 10 ^ (prec - k) * 10 ^ k" using assms(4) by (simp flip: power_add)
  have "(10::int) ^ prec \<le> 10 ^ 9" using assms(5) by (intro power_increasing) simp_all
  then have small: "(10::int) ^ prec < 2 ^ 53" "v < 2 ^ 53" using assms(3) by simp_all
  have "0 < v" using assms(1,2) by auto
  have "f64_div (f64_of_int (10 ^ prec)) (f64_of_int (10 ^ k)) = f64_of_int (10 ^ (prec - k))"
    using f64_div_int [of "10 ^ (prec - k)" "10 ^ k"] small(1) by (simp add: p)
  moreover have "f64_mul (f64_of_int f) (f64_of_int (10 ^ (prec - k))) = f64_of_int v"
    using f64_mul_int [of f "10 ^ (prec - k)"] assms(1,2) small(2) by simp
  ultimately show ?thesis using fp_trunc_of_int [of v] small(2) \<open>0 < v\<close> by (simp add: float_part_def)
qed

section \<open>What is written is read back\<close>

lemma dec_digits_chars:
  assumes "0 \<le> n" and "n < 10 ^ 20"
  shows "list_all is_digit (dec n)" "digits_value (dec n) = n" "dec n \<noteq> []"
  using dec_digits_ok [of n 20] assms by (simp_all add: dec_def)

lemma span_digits:
  assumes "list_all is_digit ds" and "t = [] \<or> \<not> is_digit (hd t)"
  shows "takeWhile is_digit (ds @ t) = ds" "dropWhile is_digit (ds @ t) = t"
  using assms by (cases t; simp add: list_all_iff takeWhile_append2 dropWhile_append2)+

lemma span_unit:
  assumes "list_all unit_char name" and "rest = [] \<or> \<not> unit_char (hd rest)"
  shows "takeWhile unit_char (name @ rest) = name" "dropWhile unit_char (name @ rest) = rest"
  using assms by (cases rest; simp add: list_all_iff takeWhile_append2 dropWhile_append2)+

text \<open>One part of a written duration; only a fraction of a decimal unit is written.\<close>

definition part_ok :: "nat \<Rightarrow> int \<Rightarrow> int \<Rightarrow> int \<Rightarrow> string \<Rightarrow> bool" where
  "part_ok prec n v unit name \<longleftrightarrow>
     0 \<le> n \<and> 0 \<le> v \<and> v < 10 ^ prec \<and> prec \<le> 9 \<and> (v \<noteq> 0 \<longrightarrow> unit = 10 ^ prec) \<and> 0 < unit \<and>
     unit_of name = Some unit \<and> list_all unit_char name \<and> n * unit + v \<le> 2 ^ 63"

lemma parse_part:
  assumes ok: "part_ok prec n v unit name" and rest: "rest = [] \<or> \<not> unit_char (hd rest)"
  shows "parse_component (dec n @ frac_text prec v @ name @ rest) = Some (n * unit + v, rest)"
proof -
  from ok have u: "unit_of name = Some unit" "list_all unit_char name" and pos: "0 \<le> n" "0 < unit" "0 \<le> v"
    by (simp_all add: part_ok_def)
  have "name \<noteq> []" using u(1) by (auto simp: unit_of_def)
  with u(2) have name: "hd (name @ rest) \<noteq> CHR ''.''" "\<not> is_digit (hd (name @ rest))" "name @ rest \<noteq> []"
    by (cases name; simp add: unit_char_def)+
  have "n * unit \<le> 2 ^ 63" using ok by (simp add: part_ok_def)
  then have fits: "\<not> 2 ^ 63 div unit < n"
    using pos zdiv_mono1 [of "n * unit" "2 ^ 63" unit] by simp
  have "n * 1 \<le> n * unit" using pos by (intro mult_left_mono) simp_all
  with \<open>n * unit \<le> 2 ^ 63\<close> have n: "n \<le> 2 ^ 63" "n < 10 ^ 20" by simp_all
  note d = dec_digits_chars [OF pos(1) n(2)]
  let ?t = "frac_text prec v @ name @ rest"
  have t: "?t = [] \<or> \<not> is_digit (hd ?t)"
    using name by (cases "frac_text prec v") (auto simp: frac_text_def is_digit_def Let_def split: if_splits)
  have lead: "leadingInt (dec n @ ?t) = Some (n, ?t)"
    using n(1) d(2) span_digits [OF d(1) t] by (simp add: leadingInt_def)
  have head: "dec n @ ?t \<noteq> []" "is_digit (hd (dec n @ ?t))" using d by (cases "dec n"; simp)+
  have longer: "length ?t \<noteq> length (dec n @ ?t)" using d(3) by simp
  from ok have "0 \<le> v" "v < 10 ^ prec" by (simp_all add: part_ok_def)
  then show ?thesis
  proof (cases rule: frac_text_cases)
    case 1
    then have "?t = name @ rest" by simp
    with name lead head longer fits u span_unit [OF u(2) rest] 1 show ?thesis
      by (cases "name @ rest") (auto simp: parse_component_def Let_def)
  next
    case (2 ds)
    then have "v \<noteq> 0" by auto
    with ok have unit: "unit = 10 ^ prec" "prec \<le> 9" "v < 10 ^ prec" "n * unit + v \<le> 2 ^ 63"
      by (auto simp: part_ok_def)
    have frac: "leadingFraction (ds @ name @ rest) = (digits_value ds, f64_of_int (10 ^ length ds), name @ rest)"
      using fraction_digits_value [of ds 0 0] span_digits [of ds "name @ rest"] 2 name(2) unit(2)
      by (simp add: leadingFraction_def)
    have val: "float_part (digits_value ds) unit (f64_of_int (10 ^ length ds)) = v"
      unfolding unit(1) using 2 unit(2,3) by (intro float_part_value)
    have t2: "?t = CHR ''.'' # ds @ name @ rest" using 2 by simp
    have sum: "(n * unit + v) mod 2 ^ 64 = n * unit + v" "\<not> 2 ^ 63 < n * unit + v"
      using unit(4) pos by simp_all
    show ?thesis
      using lead head longer fits u span_unit [OF u(2) rest] frac val sum 2(1)
      by (simp add: parse_component_def Let_def t2)
  qed
qed

lemma parse_next:
  assumes "part_ok prec n v unit name" and "rest = [] \<or> \<not> unit_char (hd rest)"
    and "0 \<le> d" and "d + (n * unit + v) \<le> 2 ^ 63"
  shows "parse_components (dec n @ frac_text prec v @ name @ rest) d = parse_components rest (d + (n * unit + v))"
proof -
  have "0 \<le> n * unit + v" using assms(1) by (simp add: part_ok_def)
  with assms(3,4) have "(d + (n * unit + v)) mod 2 ^ 64 = d + (n * unit + v)" "\<not> 2 ^ 63 < d + (n * unit + v)"
    by simp_all
  moreover have "name \<noteq> []" using assms(1) by (auto simp: part_ok_def unit_of_def)
  ultimately show ?thesis
    by (subst parse_components.simps) (simp add: parse_part [OF assms(1,2)] Let_def)
qed

lemma parse_end: "parse_components [] d = Some d"
  by (subst parse_components.simps) simp

lemma amount_read:
  assumes "0 \<le> u" and "u < 10 ^ 9" and "prec \<le> 9" and "unit_of name = Some (10 ^ prec)" and "list_all unit_char name"
  shows "parse_components (amount_text prec u name) 0 = Some u"
proof -
  have u: "u div 10 ^ prec * 10 ^ prec + u mod 10 ^ prec = u" by (rule div_mult_mod_eq)
  with assms have "part_ok prec (u div 10 ^ prec) (u mod 10 ^ prec) (10 ^ prec) name"
    by (simp add: part_ok_def pos_imp_zdiv_nonneg_iff)
  from parse_next [OF this, of "[]" 0] assms(1,2) u show ?thesis
    by (simp add: amount_text_def parse_end)
qed

lemma clock_read:
  assumes "0 \<le> u" and "u \<le> 2 ^ 63"
  shows "parse_components (clock_text u) 0 = Some u"
proof -
  define secs mins h m s v where "secs = u div 10 ^ 9" and "mins = secs div 60" and "h = mins div 60"
    and "m = mins mod 60" and "s = secs mod 60" and "v = u mod 10 ^ 9"
  have p: "(10::int) ^ 9 = 1000000000" by simp
  have u: "h * 3600000000000 + m * 60000000000 + (s * 1000000000 + v) = u"
    using div_mult_mod_eq [of u 1000000000] div_mult_mod_eq [of secs 60] div_mult_mod_eq [of mins 60]
    unfolding h_def m_def s_def v_def mins_def secs_def p by linarith
  have nn: "0 \<le> h" "0 \<le> m" "0 \<le> s" "0 \<le> v" "m < 60" "s < 60" "v < 10 ^ 9"
    using assms(1) by (simp_all add: h_def m_def s_def v_def mins_def secs_def pos_imp_zdiv_nonneg_iff)
  have sum: "s * 1000000000 + v \<le> 2 ^ 63" "m * 60000000000 \<le> 2 ^ 63" "h * 3600000000000 \<le> 2 ^ 63"
    using u nn assms(2) by linarith+
  have chars: "list_all unit_char ''s''" "list_all unit_char ''m''" "list_all unit_char ''h''" by code_simp+
  have units: "part_ok 9 s v 1000000000 ''s''" "part_ok 0 m 0 60000000000 ''m''" "part_ok 0 h 0 3600000000000 ''h''"
    using nn sum chars by (simp_all add: part_ok_def unit_of_def)
  have start: "\<not> unit_char (hd (dec n @ t))" if "0 \<le> n" "n < 60" for n t
    using dec_digits_chars [of n] that by (cases "dec n") (auto simp: unit_char_def)
  have none: "frac_text 0 0 = []" by (simp add: frac_text_def)
  let ?S = "dec s @ frac_text 9 v @ ''s''"
  have sread: "parse_components ?S d = Some (d + (s * 1000000000 + v))" if "0 \<le> d" "d + (s * 1000000000 + v) \<le> 2 ^ 63" for d
    using parse_next [OF units(1), of "[]" d] that by (simp add: parse_end)
  have mread: "parse_components (dec m @ ''m'' @ ?S) d = Some (d + m * 60000000000 + (s * 1000000000 + v))"
    if d: "0 \<le> d" "d + m * 60000000000 + (s * 1000000000 + v) \<le> 2 ^ 63" for d
  proof -
    have "d + m * 60000000000 \<le> 2 ^ 63" "0 \<le> d + m * 60000000000" using d nn by linarith+
    with parse_next [OF units(2), of ?S d] start [OF nn(3,6)] sread [of "d + m * 60000000000"] d show ?thesis
      by (simp add: none)
  qed
  have hread: "parse_components (dec h @ ''h'' @ dec m @ ''m'' @ ?S) 0 = Some u"
  proof -
    have "0 \<le> h * 3600000000000" "h * 3600000000000 + m * 60000000000 + (s * 1000000000 + v) \<le> 2 ^ 63"
      using nn u assms(2) by linarith+
    with parse_next [OF units(3), of "dec m @ ''m'' @ ?S" 0] start [OF nn(2,5)] mread [of "h * 3600000000000"] sum u
    show ?thesis by (simp add: none)
  qed
  have written: "clock_text u = (if mins = 0 then ?S else if h = 0 then dec m @ ''m'' @ ?S else dec h @ ''h'' @ dec m @ ''m'' @ ?S)"
    by (simp add: clock_text_def Let_def secs_def mins_def h_def m_def s_def v_def)
  have "mins = 0 \<Longrightarrow> h = 0 \<and> m = 0" by (simp add: h_def m_def)
  then show ?thesis
    using sread [of 0] mread [of 0] hread u nn sum assms(2) unfolding written by auto
qed

section \<open>Reading back what was written\<close>

text \<open>The text starts with a digit and is longer than that, so no sign is taken off it.\<close>

definition starts_dec :: "string \<Rightarrow> bool" where
  "starts_dec s \<longleftrightarrow> (\<exists>c r. s = c # r \<and> is_digit c \<and> r \<noteq> [])"

lemma starts_decI: "0 \<le> n \<Longrightarrow> n < 10 ^ 20 \<Longrightarrow> t \<noteq> [] \<Longrightarrow> starts_dec (dec n @ t)"
  using dec_digits_chars [of n] by (cases "dec n") (auto simp: starts_dec_def)

lemma starts_dec_if: "(P \<Longrightarrow> starts_dec s) \<Longrightarrow> (\<not> P \<Longrightarrow> starts_dec t) \<Longrightarrow> starts_dec (if P then s else t)"
  by simp

lemma starts_dec_cases:
  assumes "starts_dec s"
  shows "s \<noteq> []" "s \<noteq> ''0''" "hd s \<noteq> CHR ''-''" "hd s \<noteq> CHR ''+''"
  using assms by (auto simp: starts_dec_def is_digit_def)

lemma div_small: "0 \<le> u \<Longrightarrow> u \<le> 2 ^ 63 \<Longrightarrow> 0 < k \<Longrightarrow> 0 \<le> u div k \<and> u div k \<le> 2 ^ 63" for u k :: int
  using zdiv_mono2 [of u 1 k] by (simp add: pos_imp_zdiv_nonneg_iff)

lemma amount_start: "0 \<le> u \<Longrightarrow> u \<le> 2 ^ 63 \<Longrightarrow> name \<noteq> [] \<Longrightarrow> starts_dec (amount_text k u name)"
  using div_small [of u "10 ^ k"] by (auto simp: amount_text_def intro!: starts_decI)

lemma clock_start:
  assumes "0 \<le> u" and "u \<le> 2 ^ 63"
  shows "starts_dec (clock_text u)"
proof -
  define secs where "secs = u div 10 ^ 9"
  have secs: "0 \<le> secs" "secs \<le> 2 ^ 63" using div_small [OF assms, of "10 ^ 9"] by (simp_all add: secs_def)
  have h0: "0 \<le> secs div 60 div 60" using secs(1) by (simp add: pos_imp_zdiv_nonneg_iff)
  have "secs div 60 \<le> secs" using secs(1) div_small [of secs 60] zdiv_mono2 [of secs 1 60] by simp
  moreover have "secs div 60 div 60 \<le> secs div 60" using secs(1) zdiv_mono2 [of "secs div 60" 1 60]
    by (simp add: pos_imp_zdiv_nonneg_iff)
  moreover have "(2::int) ^ 63 < 10 ^ 20" by simp
  ultimately have h1: "secs div 60 div 60 < 10 ^ 20" using secs(2) by linarith
  have m0: "0 \<le> n mod 60" for n :: int by simp
  have m1: "n mod 60 < 10 ^ 20" for n :: int
  proof -
    have "n mod 60 < 60" "(60::int) < 10 ^ 20" by simp_all
    then show ?thesis by linarith
  qed
  have hours: "starts_dec (dec (secs div 60 div 60) @ c # t)" for c t by (rule starts_decI [OF h0 h1]) (rule list.distinct)
  have rest: "starts_dec (dec (n mod 60) @ x @ c # t)" for n x c t by (rule starts_decI [OF m0 m1]) (cases x; rule list.distinct | simp)+
  have two: "starts_dec (dec (n mod 60) @ c # t)" for n c t using rest [of n "[]" c t] by (simp only: append_Nil)
  show ?thesis
    unfolding clock_text_def Let_def secs_def [symmetric]
    by (rule starts_dec_if, rule rest, rule starts_dec_if) (simp_all only: append_Cons append_Nil hours two)
qed

lemma duration_text_start: "0 \<le> u \<Longrightarrow> u \<le> 2 ^ 63 \<Longrightarrow> starts_dec (duration_text u)"
  using amount_start clock_start starts_decI [of 0 "''s''"]
  by (simp add: duration_text_def starts_dec_def is_digit_def)

lemma duration_text_read:
  assumes "0 \<le> u" and "u \<le> 2 ^ 63"
  shows "parse_components (duration_text u) 0 = Some u"
proof -
  have units: "unit_of ''ns'' = Some (10 ^ 0)" "unit_of [CHR 0xC2, CHR 0xB5, CHR ''s''] = Some (10 ^ 3)"
    "unit_of ''ms'' = Some (10 ^ 6)" by (simp_all add: unit_of_def)
  have names: "list_all unit_char ''ns''" "list_all unit_char [CHR 0xC2, CHR 0xB5, CHR ''s'']" "list_all unit_char ''ms''"
    by code_simp+
  have "clock_text 0 = ''0s''" by code_simp
  then have zero: "parse_components ''0s'' 0 = Some 0" using clock_read [of 0] by simp
  consider "u = 0" | "0 < u" "u < 10 ^ 3" | "10 ^ 3 \<le> u" "u < 10 ^ 6" | "10 ^ 6 \<le> u" "u < 10 ^ 9" | "10 ^ 9 \<le> u"
    using assms(1) by linarith
  then show ?thesis
  proof cases
    case 1 with zero show ?thesis by (simp add: duration_text_def)
  next
    case 2 with amount_read [OF assms(1) _ _ units(1) names(1)] show ?thesis by (simp add: duration_text_def)
  next
    case 3 with amount_read [OF assms(1) _ _ units(2) names(2)] show ?thesis by (simp add: duration_text_def)
  next
    case 4 with amount_read [OF assms(1) _ _ units(3) names(3)] show ?thesis by (simp add: duration_text_def)
  next
    case 5 with clock_read [OF assms] show ?thesis by (simp add: duration_text_def)
  qed
qed

lemma ParseDuration_String:
  assumes "- (2 ^ 63) \<le> d" and "d < 2 ^ 63"
  shows "ParseDuration (Duration_String d) = Some d"
proof -
  note start = starts_dec_cases [OF duration_text_start]
  show ?thesis
  proof (cases "d < 0")
    case True
    with assms have "0 \<le> - d" "- d \<le> 2 ^ 63" by auto
    with start [of "- d"] duration_text_read [of "- d"] True show ?thesis
      by (simp add: ParseDuration_def Duration_String_def)
  next
    case False
    with start [of d] duration_text_read [of d] assms show ?thesis
      by (simp add: ParseDuration_def Duration_String_def)
  qed
qed

end
