(* ===== verification/DeviceConfig.thy ===== *)
theory DeviceConfig
  imports DomainText GoDuration
begin

text \<open>
  The device file of the gateway (\<open>internal/adapter/config/devices.go\<close>): the YAML records, their
  conversion to and from the domain's devices, and loading and saving the file. The YAML library and the
  file system are parameters: \<open>config_io\<close> holds the four calls the code makes of them.
\<close>

section \<open>The records of the file\<close>

record tag_config =
  yt_ID :: string
  yt_Name :: string
  yt_Description :: string
  yt_DataType :: string
  yt_ScaleFactor :: f64
  yt_Offset :: f64
  yt_Unit :: string
  yt_TopicSuffix :: string
  yt_PollInterval :: string
  yt_DeadbandType :: string
  yt_DeadbandValue :: f64
  yt_Enabled :: bool
  yt_AccessMode :: string
  yt_Metadata :: "(string \<times> string) list"
  yt_Address :: int
  yt_RegisterType :: string
  yt_ByteOrder :: string
  yt_RegisterCount :: int
  yt_BitPosition :: "int option"
  yt_OPCNodeID :: string
  yt_S7Address :: string

record conn_config =
  yc_Host :: string
  yc_Port :: int
  yc_Timeout :: string
  yc_RetryCount :: int
  yc_RetryDelay :: string
  yc_SlaveID :: int
  yc_OPCEndpointURL :: string
  yc_OPCSecurityPolicy :: string
  yc_OPCSecurityMode :: string
  yc_OPCAuthMode :: string
  yc_OPCUsername :: string
  yc_OPCPassword :: string
  yc_OPCCertFile :: string
  yc_OPCKeyFile :: string
  yc_OPCServerCertFile :: string
  yc_OPCInsecureSkipVerify :: bool
  yc_OPCAutoSelectEndpoint :: bool
  yc_OPCApplicationName :: string
  yc_OPCApplicationURI :: string
  yc_OPCUseSubscriptions :: "bool option"
  yc_OPCPublishInterval :: string
  yc_OPCSamplingInterval :: string
  yc_S7Rack :: int
  yc_S7Slot :: int

record device_config =
  yd_ID :: string
  yd_Name :: string
  yd_Description :: string
  yd_Protocol :: string
  yd_Enabled :: bool
  yd_UNSPrefix :: string
  yd_PollInterval :: string
  yd_Connection :: conn_config
  yd_Tags :: "tag_config list"
  yd_Metadata :: "(string \<times> string) list"

record devices_file =
  yf_Version :: string
  yf_Devices :: "device_config list"

section \<open>Loading\<close>

text \<open>What the code says of a device it refuses.\<close>

datatype device_config_error = NoHost | NoPort | BadSlaveID int | NoEndpointURL | NegativeRack | NegativeSlot
  | BadTimeout | BadRetryDelay | BadPublishInterval | BadSamplingInterval | BadPollInterval
  | BadTag string | Invalid gerror

datatype config_error = ReadFailed gerror | ParseFailed gerror | DuplicateID string nat nat
  | DeviceError string device_config_error | MarshalFailed gerror | WriteFailed gerror

definition validateConnectionConfig :: "device_config \<Rightarrow> device_config_error option" where
  "validateConnectionConfig dc =
     (let c = yd_Connection dc in
      case protocol_of (yd_Protocol dc) of
        ProtocolModbusTCP \<Rightarrow>
          (if yc_Host c = '''' then Some NoHost
           else if yc_Port c = 0 then Some NoPort
           else if yc_SlaveID c < 1 \<or> 247 < yc_SlaveID c then Some (BadSlaveID (yc_SlaveID c))
           else None)
      | ProtocolModbusRTU \<Rightarrow>
          (if yc_Host c = '''' then Some NoHost
           else if yc_Port c = 0 then Some NoPort
           else if yc_SlaveID c < 1 \<or> 247 < yc_SlaveID c then Some (BadSlaveID (yc_SlaveID c))
           else None)
      | ProtocolOPCUA \<Rightarrow> if yc_OPCEndpointURL c = '''' then Some NoEndpointURL else None
      | ProtocolS7 \<Rightarrow>
          (if yc_Host c = '''' then Some NoHost
           else if yc_S7Rack c < 0 then Some NegativeRack
           else if yc_S7Slot c < 0 then Some NegativeSlot
           else None)
      | _ \<Rightarrow> None)"

text \<open>A duration that may be left out.\<close>

definition duration_or :: "int \<Rightarrow> string \<Rightarrow> int option" where
  "duration_or fallback s = (if s = '''' then Some fallback else ParseDuration s)"

definition convertTagConfig :: "tag_config \<Rightarrow> tag option" where
  "convertTagConfig tc =
     (if yt_PollInterval tc \<noteq> '''' \<and> ParseDuration (yt_PollInterval tc) = None then None
      else Some
       \<lparr>tag_ID = yt_ID tc,
        tag_Name = yt_Name tc,
        tag_Description = yt_Description tc,
        tag_Address = word_of_int (yt_Address tc),
        tag_RegisterType = register_type_of (yt_RegisterType tc),
        tag_DataType = data_type_of (yt_DataType tc),
        tag_ByteOrder = (if yt_ByteOrder tc = '''' then ByteOrderBigEndian else byte_order_of (yt_ByteOrder tc)),
        tag_RegisterCount = (let n = word_of_int (yt_RegisterCount tc) in if n = 0 then 1 else n),
        tag_BitPosition = map_option word_of_int (yt_BitPosition tc),
        tag_ScaleFactor = (if f64_eq (yt_ScaleFactor tc) f64_zero then f64_one else yt_ScaleFactor tc),
        tag_Offset = yt_Offset tc,
        tag_Unit = yt_Unit tc,
        tag_TopicSuffix = yt_TopicSuffix tc,
        tag_PollInterval = (if yt_PollInterval tc = '''' then None else ParseDuration (yt_PollInterval tc)),
        tag_DeadbandType = deadband_type_of (yt_DeadbandType tc),
        tag_DeadbandValue = yt_DeadbandValue tc,
        tag_Enabled = yt_Enabled tc,
        tag_AccessMode = (if yt_AccessMode tc = '''' then AccessModeReadOnly else access_mode_of (yt_AccessMode tc)),
        tag_Priority = 0,
        tag_OPCNodeID = yt_OPCNodeID tc,
        tag_OPCNamespaceURI = '''',
        tag_OPCNamespaceIndex = 0,
        tag_S7Area = S7AreaOther '''',
        tag_S7DBNumber = 0,
        tag_S7Offset = 0,
        tag_S7BitOffset = 0,
        tag_S7Address = yt_S7Address tc,
        tag_Metadata = yt_Metadata tc\<rparr>)"

text \<open>The loop over the tags stops at the first one that does not convert, with its ID.\<close>

fun convert_tags :: "tag_config list \<Rightarrow> (string, tag list) res" where
  "convert_tags [] = Ok []"
| "convert_tags (tc # tcs) =
     (case convertTagConfig tc of
        None \<Rightarrow> Err (yt_ID tc)
      | Some t \<Rightarrow> (case convert_tags tcs of Ok ts \<Rightarrow> Ok (t # ts) | r \<Rightarrow> r))"

definition opcUseSubscriptions :: "device_config \<Rightarrow> bool" where
  "opcUseSubscriptions dc =
     (case yc_OPCUseSubscriptions (yd_Connection dc) of
        Some b \<Rightarrow> b
      | None \<Rightarrow> protocol_of (yd_Protocol dc) = ProtocolOPCUA)"

text \<open>The device that the code builds once every text is converted; the fields it does not set are zero.\<close>

definition built_connection :: "device_config \<Rightarrow> int \<Rightarrow> int \<Rightarrow> int \<Rightarrow> int \<Rightarrow> connection_config" where
  "built_connection dc timeout retryDelay publish sampling =
     (let c = yd_Connection dc in
       \<lparr>conn_Host = yc_Host c,
        conn_Port = yc_Port c,
        conn_Timeout = timeout,
        conn_RetryCount = yc_RetryCount c,
        conn_RetryDelay = retryDelay,
        conn_SlaveID = word_of_int (yc_SlaveID c),
        conn_SerialPort = '''', conn_BaudRate = 0, conn_DataBits = 0, conn_Parity = '''', conn_StopBits = 0,
        conn_OPCEndpointURL = yc_OPCEndpointURL c,
        conn_OPCSecurityPolicy = yc_OPCSecurityPolicy c,
        conn_OPCSecurityMode = yc_OPCSecurityMode c,
        conn_OPCAuthMode = yc_OPCAuthMode c,
        conn_OPCUsername = yc_OPCUsername c,
        conn_OPCPassword = yc_OPCPassword c,
        conn_OPCCertFile = yc_OPCCertFile c,
        conn_OPCKeyFile = yc_OPCKeyFile c,
        conn_OPCServerCertFile = yc_OPCServerCertFile c,
        conn_OPCInsecureSkipVerify = yc_OPCInsecureSkipVerify c,
        conn_OPCAutoSelectEndpoint = yc_OPCAutoSelectEndpoint c,
        conn_OPCApplicationName = yc_OPCApplicationName c,
        conn_OPCApplicationURI = yc_OPCApplicationURI c,
        conn_OPCPublishInterval = publish,
        conn_OPCSamplingInterval = sampling,
        conn_OPCUseSubscriptions = opcUseSubscriptions dc,
        conn_S7Rack = yc_S7Rack c,
        conn_S7Slot = yc_S7Slot c,
        conn_S7PDUSize = 0, conn_S7Timeout = 0, conn_CircuitBreaker = None\<rparr>)"

text \<open>\<open>created\<close> and \<open>updated\<close> are the two readings of the clock.\<close>

definition built_device :: "device_config \<Rightarrow> connection_config \<Rightarrow> tag list \<Rightarrow> int \<Rightarrow> int \<Rightarrow> int \<Rightarrow> device" where
  "built_device dc conn tags poll created updated =
     \<lparr>dev_ID = yd_ID dc,
      dev_Name = yd_Name dc,
      dev_Description = yd_Description dc,
      dev_Protocol = protocol_of (yd_Protocol dc),
      dev_Connection = conn,
      dev_Tags = tags,
      dev_PollInterval = poll,
      dev_Enabled = yd_Enabled dc,
      dev_UNSPrefix = yd_UNSPrefix dc,
      dev_Metadata = yd_Metadata dc,
      dev_CreatedAt = created,
      dev_UpdatedAt = updated,
      dev_ConfigVersion = 0, dev_ActiveConfigVersion = 0, dev_LastKnownGoodVersion = 0\<rparr>"

definition convertDeviceConfig :: "device_config \<Rightarrow> int \<Rightarrow> int \<Rightarrow> (device_config_error, device) res" where
  "convertDeviceConfig dc created updated =
     (let c = yd_Connection dc in
      case duration_or 5000000000 (yc_Timeout c) of
        None \<Rightarrow> Err BadTimeout
      | Some timeout \<Rightarrow>
      (case duration_or 100000000 (yc_RetryDelay c) of
        None \<Rightarrow> Err BadRetryDelay
      | Some retryDelay \<Rightarrow>
      (case duration_or 0 (yc_OPCPublishInterval c) of
        None \<Rightarrow> Err BadPublishInterval
      | Some publish \<Rightarrow>
      (case duration_or 0 (yc_OPCSamplingInterval c) of
        None \<Rightarrow> Err BadSamplingInterval
      | Some sampling \<Rightarrow>
      (case convert_tags (yd_Tags dc) of
        Err tagID \<Rightarrow> Err (BadTag tagID)
      | Crash m \<Rightarrow> Crash m
      | Ok tags \<Rightarrow>
      (case duration_or 1000000000 (yd_PollInterval dc) of
        None \<Rightarrow> Err BadPollInterval
      | Some poll \<Rightarrow>
          (case Validate_device (built_device dc (built_connection dc timeout retryDelay publish sampling) tags poll created updated) of
             (Some e, _) \<Rightarrow> Err (Invalid e)
           | (None, d) \<Rightarrow> Ok d)))))))"

text \<open>
  The loop of \<open>LoadDevices\<close>: \<open>seen\<close> has the index of each ID met before. The clock is read twice for each
  device that is built.
\<close>

fun load_each :: "(nat \<Rightarrow> int) \<Rightarrow> (string \<rightharpoonup> nat) \<Rightarrow> nat \<Rightarrow> device_config list \<Rightarrow> (config_error, device list) res" where
  "load_each clock seen idx [] = Ok []"
| "load_each clock seen idx (dc # dcs) =
     (case seen (yd_ID dc) of
        Some prev \<Rightarrow> Err (DuplicateID (yd_ID dc) idx prev)
      | None \<Rightarrow>
         (case validateConnectionConfig dc of
            Some e \<Rightarrow> Err (DeviceError (yd_ID dc) e)
          | None \<Rightarrow>
             (case convertDeviceConfig dc (clock (2 * idx)) (clock (2 * idx + 1)) of
                Err e \<Rightarrow> Err (DeviceError (yd_ID dc) e)
              | Crash m \<Rightarrow> Crash m
              | Ok d \<Rightarrow>
                 (case load_each clock (seen(yd_ID dc \<mapsto> idx)) (Suc idx) dcs of
                    Ok ds \<Rightarrow> Ok (d # ds)
                  | r \<Rightarrow> r))))"

text \<open>
  \<open>os.ReadFile\<close>, \<open>os.WriteFile\<close> (on a state \<open>'w\<close> of the file system), \<open>yaml.Unmarshal\<close> and
  \<open>yaml.Marshal\<close>.
\<close>

record 'w config_io =
  io_read :: "'w \<Rightarrow> string \<Rightarrow> gerror + string"
  io_write :: "'w \<Rightarrow> string \<Rightarrow> string \<Rightarrow> gerror option \<times> 'w"
  io_unmarshal :: "string \<Rightarrow> gerror + devices_file"
  io_marshal :: "devices_file \<Rightarrow> gerror + string"

definition LoadDevices :: "'w config_io \<Rightarrow> (nat \<Rightarrow> int) \<Rightarrow> 'w \<Rightarrow> string \<Rightarrow> (config_error, device list) res" where
  "LoadDevices io clock w path =
     (case io_read io w path of
        Inl e \<Rightarrow> Err (ReadFailed e)
      | Inr text \<Rightarrow>
         (case io_unmarshal io text of
            Inl e \<Rightarrow> Err (ParseFailed e)
          | Inr file \<Rightarrow> load_each clock Map.empty 0 (yf_Devices file)))"

section \<open>Saving\<close>

definition durationToString :: "int \<Rightarrow> string" where
  "durationToString d = (if d = 0 then '''' else Duration_String d)"

definition convertToTagConfig :: "tag \<Rightarrow> tag_config" where
  "convertToTagConfig t =
     \<lparr>yt_ID = tag_ID t,
      yt_Name = tag_Name t,
      yt_Description = tag_Description t,
      yt_DataType = data_type_text (tag_DataType t),
      yt_ScaleFactor = tag_ScaleFactor t,
      yt_Offset = tag_Offset t,
      yt_Unit = tag_Unit t,
      yt_TopicSuffix = tag_TopicSuffix t,
      yt_PollInterval = (case tag_PollInterval t of None \<Rightarrow> '''' | Some d \<Rightarrow> Duration_String d),
      yt_DeadbandType = deadband_type_text (tag_DeadbandType t),
      yt_DeadbandValue = tag_DeadbandValue t,
      yt_Enabled = tag_Enabled t,
      yt_AccessMode = access_mode_text (tag_AccessMode t),
      yt_Metadata = tag_Metadata t,
      yt_Address = uint (tag_Address t),
      yt_RegisterType = register_type_text (tag_RegisterType t),
      yt_ByteOrder = byte_order_text (tag_ByteOrder t),
      yt_RegisterCount = uint (tag_RegisterCount t),
      yt_BitPosition = map_option uint (tag_BitPosition t),
      yt_OPCNodeID = tag_OPCNodeID t,
      yt_S7Address = tag_S7Address t\<rparr>"

definition convertToConnConfig :: "connection_config \<Rightarrow> conn_config" where
  "convertToConnConfig c =
     \<lparr>yc_Host = conn_Host c,
      yc_Port = conn_Port c,
      yc_Timeout = Duration_String (conn_Timeout c),
      yc_RetryCount = conn_RetryCount c,
      yc_RetryDelay = Duration_String (conn_RetryDelay c),
      yc_SlaveID = uint (conn_SlaveID c),
      yc_OPCEndpointURL = conn_OPCEndpointURL c,
      yc_OPCSecurityPolicy = conn_OPCSecurityPolicy c,
      yc_OPCSecurityMode = conn_OPCSecurityMode c,
      yc_OPCAuthMode = conn_OPCAuthMode c,
      yc_OPCUsername = conn_OPCUsername c,
      yc_OPCPassword = conn_OPCPassword c,
      yc_OPCCertFile = conn_OPCCertFile c,
      yc_OPCKeyFile = conn_OPCKeyFile c,
      yc_OPCServerCertFile = conn_OPCServerCertFile c,
      yc_OPCInsecureSkipVerify = conn_OPCInsecureSkipVerify c,
      yc_OPCAutoSelectEndpoint = conn_OPCAutoSelectEndpoint c,
      yc_OPCApplicationName = conn_OPCApplicationName c,
      yc_OPCApplicationURI = conn_OPCApplicationURI c,
      yc_OPCUseSubscriptions = Some (conn_OPCUseSubscriptions c),
      yc_OPCPublishInterval = durationToString (conn_OPCPublishInterval c),
      yc_OPCSamplingInterval = durationToString (conn_OPCSamplingInterval c),
      yc_S7Rack = conn_S7Rack c,
      yc_S7Slot = conn_S7Slot c\<rparr>"

definition convertToDeviceConfig :: "device \<Rightarrow> device_config" where
  "convertToDeviceConfig d =
     \<lparr>yd_ID = dev_ID d,
      yd_Name = dev_Name d,
      yd_Description = dev_Description d,
      yd_Protocol = protocol_text (dev_Protocol d),
      yd_Enabled = dev_Enabled d,
      yd_UNSPrefix = dev_UNSPrefix d,
      yd_PollInterval = Duration_String (dev_PollInterval d),
      yd_Connection = convertToConnConfig (dev_Connection d),
      yd_Tags = map convertToTagConfig (dev_Tags d),
      yd_Metadata = dev_Metadata d\<rparr>"

definition saved_file :: "device list \<Rightarrow> devices_file" where
  "saved_file ds = \<lparr>yf_Version = ''1.0'', yf_Devices = map convertToDeviceConfig ds\<rparr>"

definition SaveDevices :: "'w config_io \<Rightarrow> 'w \<Rightarrow> string \<Rightarrow> device list \<Rightarrow> config_error option \<times> 'w" where
  "SaveDevices io w path ds =
     (case io_marshal io (saved_file ds) of
        Inl e \<Rightarrow> (Some (MarshalFailed e), w)
      | Inr text \<Rightarrow>
         (case io_write io w path text of
            (Some e, w') \<Rightarrow> (Some (WriteFailed e), w')
          | (None, w') \<Rightarrow> (None, w')))"

section \<open>What a file can load to\<close>

text \<open>A device that came from a file: its connection passed the checks, and its validation changes nothing.\<close>

definition config_connection_ok :: "device \<Rightarrow> bool" where
  "config_connection_ok d =
     (let c = dev_Connection d in
      case dev_Protocol d of
        ProtocolModbusTCP \<Rightarrow> conn_Host c \<noteq> '''' \<and> conn_Port c \<noteq> 0 \<and> 1 \<le> conn_SlaveID c \<and> conn_SlaveID c \<le> 247
      | ProtocolModbusRTU \<Rightarrow> conn_Host c \<noteq> '''' \<and> conn_Port c \<noteq> 0 \<and> 1 \<le> conn_SlaveID c \<and> conn_SlaveID c \<le> 247
      | ProtocolOPCUA \<Rightarrow> conn_OPCEndpointURL c \<noteq> ''''
      | ProtocolS7 \<Rightarrow> conn_Host c \<noteq> '''' \<and> 0 \<le> conn_S7Rack c \<and> 0 \<le> conn_S7Slot c
      | _ \<Rightarrow> True)"

lemma ValidateForProtocol_fixed:
  assumes "ValidateForProtocol p t = Ok t'"
  shows "ValidateForProtocol p t' = Ok t'"
proof (cases "p = ProtocolModbusTCP \<or> p = ProtocolModbusRTU")
  case True
  with assms show ?thesis by (blast intro: validate_idempotent)
next
  case False
  have twice: "default_scale (default_scale t) = default_scale t" by (simp add: default_scale_def)
  have same: "tag_ID (default_scale t) = tag_ID t" "tag_Name (default_scale t) = tag_Name t"
    "tag_TopicSuffix (default_scale t) = tag_TopicSuffix t" "tag_DataType (default_scale t) = tag_DataType t"
    "tag_OPCNodeID (default_scale t) = tag_OPCNodeID t" "tag_S7Address (default_scale t) = tag_S7Address t"
    by (simp_all add: default_scale_def)
  from False assms show ?thesis
    by (cases p) (auto simp: ValidateForProtocol_def twice same split: if_splits)
qed

lemma validate_tags_fixed:
  "snd (validate_tags p ts) = None \<Longrightarrow> validate_tags p (fst (validate_tags p ts)) = (fst (validate_tags p ts), None)"
  by (induction p ts rule: validate_tags.induct)
    (auto simp: Let_def ValidateForProtocol_fixed prod_eq_iff split: res.splits)

lemma Validate_device_fixed:
  assumes "Validate_device d = (None, d')"
  shows "Validate_device d' = (None, d')"
proof -
  note ok = Validate_device_ok [OF assms]
  have "fst (validate_tags (dev_Protocol d) (dev_Tags d)) \<noteq> []"
    using ok(5) validate_tags_length [of "dev_Protocol d" "dev_Tags d"] by (metis length_0_conv)
  then show ?thesis
    using assms validate_tags_fixed [OF ok(1)]
    by (auto simp: Validate_device_def Let_def split: if_splits option.splits)
qed

lemma Validate_device_keeps:
  assumes "Validate_device d = (None, d')"
  shows "dev_ID d' = dev_ID d" "dev_Protocol d' = dev_Protocol d" "dev_Connection d' = dev_Connection d"
  using Validate_device_ok(2) [OF assms] by simp_all

lemma convertDeviceConfig_ok:
  assumes "convertDeviceConfig dc created updated = Ok d"
  obtains timeout retryDelay publish sampling tags poll where
    "Validate_device (built_device dc (built_connection dc timeout retryDelay publish sampling) tags poll created updated) = (None, d)"
    "convert_tags (yd_Tags dc) = Ok tags"
  using assms by (auto simp: convertDeviceConfig_def Let_def split: option.splits res.splits prod.splits)

lemma converted_connection_ok:
  assumes "validateConnectionConfig dc = None" and "convertDeviceConfig dc created updated = Ok d"
  shows "config_connection_ok d \<and> dev_ID d = yd_ID dc \<and> Validate_device d = (None, d)"
proof -
  from assms(2) obtain a b p q tags poll where
    v: "Validate_device (built_device dc (built_connection dc a b p q) tags poll created updated) = (None, d)"
    by (rule convertDeviceConfig_ok)
  have slave: "1 \<le> (word_of_int i :: byte) \<and> (word_of_int i :: byte) \<le> 247" if "1 \<le> i" "i \<le> 247" for i
    using that by (simp add: word_le_def uint_word_of_int)
  from Validate_device_keeps [OF v] Validate_device_fixed [OF v] assms(1) slave show ?thesis
    by (auto simp: config_connection_ok_def validateConnectionConfig_def built_device_def built_connection_def Let_def not_less
        split: protocol.splits if_splits)
qed

lemma load_each_ok:
  assumes "load_each clock seen idx dcs = Ok ds"
  shows "map dev_ID ds = map yd_ID dcs \<and> distinct (map dev_ID ds) \<and>
    (\<forall>d\<in>set ds. dev_ID d \<notin> dom seen \<and> config_connection_ok d \<and> Validate_device d = (None, d))"
  using assms
proof (induction clock seen idx dcs arbitrary: ds rule: load_each.induct)
  case (2 clock seen idx dc dcs)
  from 2(2) obtain d ds' where step: "seen (yd_ID dc) = None" "validateConnectionConfig dc = None"
    "convertDeviceConfig dc (clock (2 * idx)) (clock (2 * idx + 1)) = Ok d"
    "load_each clock (seen(yd_ID dc \<mapsto> idx)) (Suc idx) dcs = Ok ds'" "ds = d # ds'"
    by (auto split: option.splits res.splits)
  note d = converted_connection_ok [OF step(2,3)]
  note IH = 2(1) [OF step(1-4)]
  have fresh: "\<forall>e\<in>set ds'. dev_ID e \<noteq> dev_ID d \<and> seen (dev_ID e) = None"
    using IH d by (auto simp: dom_def split: if_splits)
  then have "dev_ID d \<notin> dev_ID ` set ds'" by force
  moreover have "distinct (map dev_ID ds')" and same: "map dev_ID ds' = map yd_ID dcs" using IH by blast+
  moreover have "yd_ID ` set dcs = dev_ID ` set ds'" using arg_cong [OF same, of set] by simp
  ultimately have "distinct (map dev_ID ds)" by (simp add: step(5))
  moreover have "map dev_ID ds = map yd_ID (dc # dcs)" using same d by (simp add: step(5))
  moreover have "\<forall>e\<in>set ds. dev_ID e \<notin> dom seen \<and> config_connection_ok e \<and> Validate_device e = (None, e)"
    using IH d step(1) fresh by (simp add: step(5) domIff)
  ultimately show ?case by blast
qed simp

section \<open>What a save and a load keep\<close>

text \<open>The fields the file does not have come back as zero, and the empty texts as their defaults.\<close>

definition restored_tag :: "tag \<Rightarrow> tag" where
  "restored_tag t = t\<lparr>
     tag_ByteOrder := (if tag_ByteOrder t = ByteOrderOther '''' then ByteOrderBigEndian else tag_ByteOrder t),
     tag_RegisterCount := (if tag_RegisterCount t = 0 then 1 else tag_RegisterCount t),
     tag_ScaleFactor := (if f64_eq (tag_ScaleFactor t) f64_zero then f64_one else tag_ScaleFactor t),
     tag_AccessMode := (if tag_AccessMode t = AccessModeOther '''' then AccessModeReadOnly else tag_AccessMode t),
     tag_Priority := 0, tag_OPCNamespaceURI := '''', tag_OPCNamespaceIndex := 0,
     tag_S7Area := S7AreaOther '''', tag_S7DBNumber := 0, tag_S7Offset := 0, tag_S7BitOffset := 0\<rparr>"

definition restored_connection :: "connection_config \<Rightarrow> connection_config" where
  "restored_connection c = c\<lparr>
     conn_SerialPort := '''', conn_BaudRate := 0, conn_DataBits := 0, conn_Parity := '''', conn_StopBits := 0,
     conn_S7PDUSize := 0, conn_S7Timeout := 0, conn_CircuitBreaker := None\<rparr>"

definition restored_device :: "int \<Rightarrow> int \<Rightarrow> device \<Rightarrow> device" where
  "restored_device created updated d = d\<lparr>
     dev_Connection := restored_connection (dev_Connection d), dev_Tags := map restored_tag (dev_Tags d),
     dev_CreatedAt := created, dev_UpdatedAt := updated,
     dev_ConfigVersion := 0, dev_ActiveConfigVersion := 0, dev_LastKnownGoodVersion := 0\<rparr>"

text \<open>A duration is an \<open>int64\<close>.\<close>

definition int64 :: "int \<Rightarrow> bool" where
  "int64 i \<longleftrightarrow> - (2 ^ 63) \<le> i \<and> i < 2 ^ 63"

definition int64_device :: "device \<Rightarrow> bool" where
  "int64_device d \<longleftrightarrow>
     int64 (dev_PollInterval d) \<and> int64 (conn_Timeout (dev_Connection d)) \<and> int64 (conn_RetryDelay (dev_Connection d)) \<and>
     int64 (conn_OPCPublishInterval (dev_Connection d)) \<and> int64 (conn_OPCSamplingInterval (dev_Connection d)) \<and>
     (\<forall>t\<in>set (dev_Tags d). case tag_PollInterval t of None \<Rightarrow> True | Some p \<Rightarrow> int64 p)"

definition saveable :: "device \<Rightarrow> bool" where
  "saveable d \<longleftrightarrow> plain_device d \<and> int64_device d \<and> config_connection_ok d \<and> Validate_device d = (None, d)"

lemma Duration_String_nonempty [simp]: "int64 d \<Longrightarrow> Duration_String d \<noteq> ''''"
  using starts_dec_cases(1) [OF duration_text_start, of d] by (auto simp: Duration_String_def int64_def)

lemma read_duration [simp]:
  assumes "int64 d"
  shows "ParseDuration (Duration_String d) = Some d" "duration_or k (Duration_String d) = Some d"
    "duration_or 0 (durationToString d) = Some d"
  using assms ParseDuration_String [of d] Duration_String_nonempty [OF assms]
  by (auto simp: int64_def duration_or_def durationToString_def)

lemma byte_order_text_empty: "byte_order_of (byte_order_text b) = b \<Longrightarrow> byte_order_text b = '''' \<longleftrightarrow> b = ByteOrderOther ''''"
  by (cases b) auto

lemma access_mode_text_empty: "access_mode_of (access_mode_text b) = b \<Longrightarrow> access_mode_text b = '''' \<longleftrightarrow> b = AccessModeOther ''''"
  by (cases b) auto

lemma tag_config_round_trip:
  assumes "plain_tag t" and "case tag_PollInterval t of None \<Rightarrow> True | Some p \<Rightarrow> int64 p"
  shows "convertTagConfig (convertToTagConfig t) = Some (restored_tag t)"
proof -
  let ?u = "convertToTagConfig t"
  have poll: "yt_PollInterval ?u = '''' \<and> tag_PollInterval t = None \<or>
      yt_PollInterval ?u \<noteq> '''' \<and> ParseDuration (yt_PollInterval ?u) = tag_PollInterval t \<and> tag_PollInterval t \<noteq> None"
    using assms(2) by (cases "tag_PollInterval t") (simp_all add: convertToTagConfig_def)
  have texts: "yt_ByteOrder ?u = '''' \<longleftrightarrow> tag_ByteOrder t = ByteOrderOther ''''"
    "yt_AccessMode ?u = '''' \<longleftrightarrow> tag_AccessMode t = AccessModeOther ''''"
    "byte_order_of (yt_ByteOrder ?u) = tag_ByteOrder t" "access_mode_of (yt_AccessMode ?u) = tag_AccessMode t"
    "data_type_of (yt_DataType ?u) = tag_DataType t" "register_type_of (yt_RegisterType ?u) = tag_RegisterType t"
    "deadband_type_of (yt_DeadbandType ?u) = tag_DeadbandType t"
    using assms(1) byte_order_text_empty access_mode_text_empty by (simp_all add: convertToTagConfig_def plain_tag_def)
  have words: "word_of_int (yt_Address ?u) = tag_Address t" "word_of_int (yt_RegisterCount ?u) = tag_RegisterCount t"
    "map_option word_of_int (yt_BitPosition ?u) = tag_BitPosition t"
    by (simp_all add: convertToTagConfig_def option.map_comp comp_def option.map_ident)
  have kept: "yt_ID ?u = tag_ID t" "yt_Name ?u = tag_Name t" "yt_Description ?u = tag_Description t"
    "yt_ScaleFactor ?u = tag_ScaleFactor t" "yt_Offset ?u = tag_Offset t" "yt_Unit ?u = tag_Unit t"
    "yt_TopicSuffix ?u = tag_TopicSuffix t" "yt_DeadbandValue ?u = tag_DeadbandValue t" "yt_Enabled ?u = tag_Enabled t"
    "yt_Metadata ?u = tag_Metadata t" "yt_OPCNodeID ?u = tag_OPCNodeID t" "yt_S7Address ?u = tag_S7Address t"
    by (simp_all add: convertToTagConfig_def)
  from poll have "\<not> (yt_PollInterval ?u \<noteq> '''' \<and> ParseDuration (yt_PollInterval ?u) = None)"
    "(if yt_PollInterval ?u = '''' then None else ParseDuration (yt_PollInterval ?u)) = tag_PollInterval t"
    by auto
  then show ?thesis
    unfolding convertTagConfig_def
    by (simp only: if_False option.inject texts words kept Let_def)
      (rule tag.equality; simp add: restored_tag_def)
qed

lemma convert_tags_round_trip:
  assumes "\<forall>t\<in>set ts. plain_tag t \<and> (case tag_PollInterval t of None \<Rightarrow> True | Some p \<Rightarrow> int64 p)"
  shows "convert_tags (map convertToTagConfig ts) = Ok (map restored_tag ts)"
  using assms by (induction ts) (auto simp: tag_config_round_trip)

text \<open>What comes back passes validation as it is.\<close>

lemma restored_tag_valid:
  assumes "ValidateForProtocol p t = Ok t"
  shows "ValidateForProtocol p (restored_tag t) = Ok (restored_tag t)"
proof -
  have same: "tag_ID (restored_tag t) = tag_ID t" "tag_Name (restored_tag t) = tag_Name t"
    "tag_TopicSuffix (restored_tag t) = tag_TopicSuffix t" "tag_DataType (restored_tag t) = tag_DataType t"
    "tag_OPCNodeID (restored_tag t) = tag_OPCNodeID t" "tag_S7Address (restored_tag t) = tag_S7Address t"
    by (simp_all add: restored_tag_def)
  have scale: "default_scale (restored_tag t) = restored_tag t" by (simp add: default_scale_def restored_tag_def)
  show ?thesis
  proof (cases "p = ProtocolModbusTCP \<or> p = ProtocolModbusRTU")
    case True
    then have r: "modbus_ready t" by (rule validate_ready) (rule assms)
    have "ExpectedRegisterCount (restored_tag t) = ExpectedRegisterCount t"
      by (simp add: ExpectedRegisterCount_def restored_tag_def)
    with r have "modbus_ready (restored_tag t)"
      by (auto simp: modbus_ready_def restored_tag_def)
    from validate_modbus_ready [OF this] True assms same scale show ?thesis
      by (auto simp: ValidateForProtocol_def split: if_splits res.splits)
  next
    case False
    with assms show ?thesis by (cases p) (auto simp: ValidateForProtocol_def same scale split: if_splits)
  qed
qed

lemma restored_device_valid:
  assumes "Validate_device d = (None, d)"
  shows "Validate_device (restored_device c u d) = (None, restored_device c u d)"
proof -
  have tags: "validate_tags p (map restored_tag ts) = (map restored_tag ts, None)"
    if "validate_tags p ts = (ts, None)" for p ts
    using that
    by (induction ts) (auto simp: Let_def restored_tag_valid prod_eq_iff split: res.splits)
  note ok = Validate_device_ok [OF assms]
  have "dev_Tags d = fst (validate_tags (dev_Protocol d) (dev_Tags d))"
    using arg_cong [OF ok(2), of dev_Tags] by simp
  with ok(1) have "validate_tags (dev_Protocol d) (dev_Tags d) = (dev_Tags d, None)" by (simp add: prod_eq_iff)
  from tags [OF this] assms show ?thesis
    by (simp add: Validate_device_def restored_device_def Let_def split: if_splits option.splits)
qed

lemma device_config_round_trip:
  assumes "saveable d"
  shows "convertDeviceConfig (convertToDeviceConfig d) c u = Ok (restored_device c u d)"
proof -
  let ?dc = "convertToDeviceConfig d" and ?c = "dev_Connection d"
  note ok = assms [unfolded saveable_def plain_device_def int64_device_def]
  have texts: "duration_or k (yc_Timeout (yd_Connection ?dc)) = Some (conn_Timeout ?c)"
    "duration_or k (yc_RetryDelay (yd_Connection ?dc)) = Some (conn_RetryDelay ?c)"
    "duration_or 0 (yc_OPCPublishInterval (yd_Connection ?dc)) = Some (conn_OPCPublishInterval ?c)"
    "duration_or 0 (yc_OPCSamplingInterval (yd_Connection ?dc)) = Some (conn_OPCSamplingInterval ?c)"
    "duration_or k (yd_PollInterval ?dc) = Some (dev_PollInterval d)" for k
    using ok by (simp_all add: convertToDeviceConfig_def convertToConnConfig_def)
  have tags: "convert_tags (yd_Tags ?dc) = Ok (map restored_tag (dev_Tags d))"
    using convert_tags_round_trip [of "dev_Tags d"] ok by (simp add: convertToDeviceConfig_def)
  have conn: "built_connection ?dc (conn_Timeout ?c) (conn_RetryDelay ?c) (conn_OPCPublishInterval ?c) (conn_OPCSamplingInterval ?c)
      = restored_connection ?c"
    by (rule connection_config.equality)
      (simp_all add: built_connection_def restored_connection_def convertToDeviceConfig_def convertToConnConfig_def
        opcUseSubscriptions_def)
  have dev: "built_device ?dc (restored_connection ?c) (map restored_tag (dev_Tags d)) (dev_PollInterval d) c u
      = restored_device c u d"
    by (rule device.equality) (use ok in \<open>simp_all add: built_device_def restored_device_def convertToDeviceConfig_def\<close>)
  show ?thesis
    using restored_device_valid [of d c u] ok by (simp add: convertDeviceConfig_def Let_def texts tags conn dev)
qed

lemma saved_connection_valid:
  assumes "saveable d"
  shows "validateConnectionConfig (convertToDeviceConfig d) = None"
proof -
  have word: "1 \<le> uint b \<and> uint b \<le> 247" if "1 \<le> b" "b \<le> 247" for b :: byte
    using that by (simp add: word_le_def)
  from assms show ?thesis
    by (auto simp: saveable_def plain_device_def config_connection_ok_def validateConnectionConfig_def convertToDeviceConfig_def
        convertToConnConfig_def Let_def not_less dest: word split: protocol.splits)
qed

text \<open>The devices in order, each with its two readings of the clock.\<close>

fun restored_from :: "(nat \<Rightarrow> int) \<Rightarrow> nat \<Rightarrow> device list \<Rightarrow> device list" where
  "restored_from clock idx [] = []"
| "restored_from clock idx (d # ds) =
     restored_device (clock (2 * idx)) (clock (2 * idx + 1)) d # restored_from clock (Suc idx) ds"

lemma load_saved:
  assumes "\<forall>d\<in>set ds. saveable d \<and> seen (dev_ID d) = None" and "distinct (map dev_ID ds)"
  shows "load_each clock seen idx (map convertToDeviceConfig ds) = Ok (restored_from clock idx ds)"
  using assms
proof (induction ds arbitrary: seen idx)
  case (Cons d ds)
  have ID: "yd_ID (convertToDeviceConfig d) = dev_ID d" by (simp add: convertToDeviceConfig_def)
  from Cons(3) have "dev_ID d \<notin> dev_ID ` set ds" by simp
  then have "\<forall>e\<in>set ds. dev_ID e \<noteq> dev_ID d" by (metis imageI)
  with Cons(2) have "\<forall>e\<in>set ds. saveable e \<and> (seen(dev_ID d \<mapsto> idx)) (dev_ID e) = None" by simp
  from Cons(1) [OF this, of "Suc idx"] Cons(2,3) show ?case
    by (simp add: ID saved_connection_valid device_config_round_trip fun_upd_def)
qed simp

text \<open>A file system of one file, and a YAML library that only knows the file of one device.\<close>

definition demo_device :: device where
  "demo_device = sample_device\<lparr>dev_Tags := [sample_ready]\<rparr>"

definition demo_io :: "string option config_io" where
  "demo_io =
     \<lparr>io_read = (\<lambda>w path. case w of Some content \<Rightarrow> Inr content | None \<Rightarrow> Inl (Text ''no such file'')),
      io_write = (\<lambda>w path content. (None, Some content)),
      io_unmarshal = (\<lambda>content. Inr (saved_file [demo_device])),
      io_marshal = (\<lambda>file. Inr ''devices'')\<rparr>"

lemma demo_saveable: "saveable demo_device"
proof -
  have "plain_tag sample_ready" by code_simp
  moreover have "Validate_device demo_device = (None, demo_device)"
    using Validate_device_fixed [OF sample_device_validates] by (simp add: demo_device_def)
  ultimately show ?thesis
    by (simp add: saveable_def plain_device_def int64_device_def int64_def config_connection_ok_def demo_device_def
        sample_device_def sample_connection_def sample_ready_def sample_tag_def)
qed

lemma demo_loads: "LoadDevices demo_io (\<lambda>_. 7) (Some ''devices'') ''f'' = Ok [restored_device 7 7 demo_device]"
  using load_saved [of "[demo_device]" Map.empty "\<lambda>_. 7" 0] demo_saveable
  by (simp add: LoadDevices_def demo_io_def saved_file_def)

text \<open>
  The devices that loading a file returns have one ID each, in the order of the file; every one
  passed the checks of its protocol (a Modbus unit is between 1 and 247 after its conversion to a byte
  too) and its own validation, with the defaults filled in, so that validating it again changes nothing.
\<close>

theorem loaded_devices_are_valid:
  assumes "LoadDevices io clock w path = Ok ds"
  shows "\<exists>text file. io_read io w path = Inr text \<and> io_unmarshal io text = Inr file \<and>
    map dev_ID ds = map yd_ID (yf_Devices file) \<and> distinct (map dev_ID ds) \<and>
    list_all (\<lambda>d. config_connection_ok d \<and> Validate_device d = (None, d)) ds"
proof -
  from assms obtain content loaded where "io_read io w path = Inr content" "io_unmarshal io content = Inr loaded"
    "load_each clock Map.empty 0 (yf_Devices loaded) = Ok ds"
    by (auto simp: LoadDevices_def split: sum.splits)
  with load_each_ok show ?thesis by (force simp: list_all_iff)
qed

theorem loaded_devices_are_valid_witness:
  "distinct (map dev_ID [restored_device 7 7 demo_device]) \<and>
   list_all (\<lambda>d. config_connection_ok d \<and> Validate_device d = (None, d)) [restored_device 7 7 demo_device]"
  using loaded_devices_are_valid [OF demo_loads] by blast

text \<open>
  C902. Loading what was saved gives back the devices that were saved, in their order, except for what the
  file does not hold: the serial settings, the S7 PDU size and timeout, the circuit breaker, a tag's
  priority, OPC UA namespace and direct S7 address and the versions come back as zero, the two times are
  those of the load, and an empty access mode comes back as read-only.
\<close>

theorem load_returns_what_was_saved:
  assumes "SaveDevices io w path ds = (None, w')"
    and "\<And>content. io_write io w path content = (None, w') \<Longrightarrow> io_read io w' path = Inr content"
    and "\<And>content. io_marshal io (saved_file ds) = Inr content \<Longrightarrow> io_unmarshal io content = Inr (saved_file ds)"
    and "distinct (map dev_ID ds)" and "list_all saveable ds"
  shows "LoadDevices io clock w' path = Ok (restored_from clock 0 ds)"
proof -
  from assms(1) obtain content where "io_marshal io (saved_file ds) = Inr content" "io_write io w path content = (None, w')"
    by (auto simp: SaveDevices_def split: sum.splits prod.splits option.splits)
  moreover from assms(5) have "\<forall>d\<in>set ds. saveable d \<and> Map.empty (dev_ID d) = (None :: nat option)"
    by (simp add: list_all_iff)
  ultimately show ?thesis
    using assms(2,3) load_saved [OF _ assms(4)] by (simp add: LoadDevices_def saved_file_def)
qed

theorem load_returns_what_was_saved_witness:
  "LoadDevices demo_io (\<lambda>_. 7) (Some ''devices'') ''f'' = Ok (restored_from (\<lambda>_. 7) 0 [demo_device])"
  by (rule load_returns_what_was_saved [where w = None])
    (simp_all add: SaveDevices_def demo_io_def demo_saveable)

text \<open>A tag without an access mode is writable when its registers are; after a save and a load it is not.\<close>

lemma restored_tag_loses_writes:
  "IsWritable sample_ready \<and> \<not> IsWritable (restored_tag sample_ready)"
  by (simp add: IsWritable_def restored_tag_def sample_ready_def sample_tag_def)

end
