(* ===== verification/DeviceManager.thy ===== *)
theory DeviceManager
  imports GoPartial DeviceConfig
begin

text \<open>
  The gateway's registry of configured devices, \<open>MQTTDeviceManager\<close>
  (\<open>internal/service/config_subscriber.go\<close>): a map of devices behind a lock, the callbacks that start
  and stop polling, and the YAML cache. Each change starts a goroutine that writes the cache; it takes
  a snapshot of the map under the read lock and writes it later, so the writes of two changes may come
  in either order. \<open>mg_pending\<close> counts the goroutines that have no snapshot yet, \<open>mg_snapshots\<close> holds
  those of the goroutines about to write.
\<close>

record manager =
  mg_devices :: "(string \<times> device) list"
  mg_cachePath :: string
  mg_pending :: nat
  mg_snapshots :: "device list list"

text \<open>\<open>SetCallbacks\<close>; a nil callback is not called.\<close>

record 'w callbacks =
  cb_onAdd :: "(device \<Rightarrow> ('w, gerror option) oprog) option"
  cb_onEdit :: "(device \<Rightarrow> ('w, gerror option) oprog) option"
  cb_onDelete :: "(string \<Rightarrow> ('w, gerror option) oprog) option"

type_synonym ('w, 'a) managing = "(manager \<times> 'w, 'a) oprog"

definition NewMQTTDeviceManager :: "string \<Rightarrow> manager" where
  "NewMQTTDeviceManager path = \<lparr>mg_devices = [], mg_cachePath = path, mg_pending = 0, mg_snapshots = []\<rparr>"

definition SetCallbacks ::
  "(device \<Rightarrow> ('w, gerror option) oprog) option \<Rightarrow> (device \<Rightarrow> ('w, gerror option) oprog) option \<Rightarrow>
   (string \<Rightarrow> ('w, gerror option) oprog) option \<Rightarrow> 'w callbacks" where
  "SetCallbacks add edit del = \<lparr>cb_onAdd = add, cb_onEdit = edit, cb_onDelete = del\<rparr>"

section \<open>The map\<close>

definition GetDevice :: "manager \<Rightarrow> string \<Rightarrow> device option" where
  "GetDevice m i = map_of (mg_devices m) i"

text \<open>The walk over the map is in any order; here it is the order of the list.\<close>

definition GetDevices :: "manager \<Rightarrow> device list" where
  "GetDevices m = map snd (mg_devices m)"

definition DeviceCount :: "manager \<Rightarrow> nat" where
  "DeviceCount m = length (mg_devices m)"

definition put_device :: "device \<Rightarrow> manager \<Rightarrow> manager" where
  "put_device d m = m\<lparr>mg_devices := AList.update (dev_ID d) d (mg_devices m)\<rparr>"

definition drop_device :: "string \<Rightarrow> manager \<Rightarrow> manager" where
  "drop_device i m = m\<lparr>mg_devices := AList.delete i (mg_devices m)\<rparr>"

definition called :: "('a \<Rightarrow> ('w, gerror option) oprog) option \<Rightarrow> 'a \<Rightarrow> ('w, gerror option) managing" where
  "called cb x = (case cb of None \<Rightarrow> always (ret None) | Some f \<Rightarrow> oworld (f x))"

text \<open>\<open>go m.persistCache()\<close>, and the successful return after it.\<close>

definition go_persist :: "('w, gerror option) managing" where
  "go_persist = obnd (always (upd (mg_pending_update Suc))) (\<lambda>_. always (ret None))"

text \<open>\<open>onAdd\<close> is called with the device in the map; where it fails the device is taken out again.\<close>

definition announce_add :: "'w callbacks \<Rightarrow> device \<Rightarrow> ('w, gerror option) managing" where
  "announce_add C d =
     obnd (called (cb_onAdd C) d) (\<lambda>err.
     case err of
       Some e \<Rightarrow> obnd (always (upd (drop_device (dev_ID d)))) (\<lambda>_. always (ret (Some e)))
     | None \<Rightarrow> go_persist)"

definition UpdateDeviceFromConfig :: "'w callbacks \<Rightarrow> device \<Rightarrow> ('w, gerror option) managing" where
  "UpdateDeviceFromConfig C d =
     obnd (always (field (\<lambda>m. map_of (mg_devices m) (dev_ID d)))) (\<lambda>entry.
     obnd (always (upd (put_device d))) (\<lambda>_.
     case entry of
       None \<Rightarrow> announce_add C d
     | Some old \<Rightarrow>
         obnd (called (cb_onEdit C) d) (\<lambda>err.
         case err of
           Some e \<Rightarrow> always (ret (Some e))
         | None \<Rightarrow> go_persist)))"

definition AddDeviceFromConfig :: "'w callbacks \<Rightarrow> device \<Rightarrow> ('w, gerror option) managing" where
  "AddDeviceFromConfig C d =
     obnd (always (field (\<lambda>m. map_of (mg_devices m) (dev_ID d)))) (\<lambda>entry.
     case entry of
       Some old \<Rightarrow> UpdateDeviceFromConfig C d
     | None \<Rightarrow> obnd (always (upd (put_device d))) (\<lambda>_. announce_add C d))"

definition DeleteDeviceByID :: "'w callbacks \<Rightarrow> string \<Rightarrow> ('w, gerror option) managing" where
  "DeleteDeviceByID C i =
     obnd (always (field (\<lambda>m. map_of (mg_devices m) i))) (\<lambda>entry.
     case entry of
       None \<Rightarrow> always (ret None)
     | Some old \<Rightarrow>
         obnd (always (upd (drop_device i))) (\<lambda>_.
         obnd (called (cb_onDelete C) i) (\<lambda>err.
         case err of
           Some e \<Rightarrow> always (ret (Some e))
         | None \<Rightarrow> go_persist)))"

section \<open>The cache\<close>

definition LoadCache :: "'w config_io \<Rightarrow> (nat \<Rightarrow> int) \<Rightarrow> (manager \<times> 'w, nat) prog" where
  "LoadCache io clock =
     bnd (field mg_cachePath) (\<lambda>path.
     if path = '''' then ret 0
     else
       bnd (call (\<lambda>w. (LoadDevices io clock w path, w))) (\<lambda>loaded.
       case loaded of
         Err e \<Rightarrow> ret 0
       | Crash p \<Rightarrow> panic p
       | Ok ds \<Rightarrow> bnd (upd (fold put_device ds)) (\<lambda>_. ret (length ds))))"

text \<open>
  The two steps of \<open>persistCache\<close> in a goroutine: the snapshot, in the order \<open>walk\<close> of the map walk, and
  the write of the snapshot that the \<open>k\<close>th waiting goroutine holds.
\<close>

definition take_snapshot :: "(device list \<Rightarrow> device list) \<Rightarrow> (manager \<times> 'w, unit) prog" where
  "take_snapshot walk =
     bnd (field mg_pending) (\<lambda>n.
     if n = 0 then ret ()
     else
       bnd (upd (\<lambda>m. m\<lparr>mg_pending := mg_pending m - 1\<rparr>)) (\<lambda>_.
       bnd (field mg_cachePath) (\<lambda>path.
       if path = '''' then ret ()
       else upd (\<lambda>m. m\<lparr>mg_snapshots := mg_snapshots m @ [walk (map snd (mg_devices m))]\<rparr>))))"

definition write_snapshot :: "'w config_io \<Rightarrow> nat \<Rightarrow> (manager \<times> 'w, unit) prog" where
  "write_snapshot io k =
     bnd (field mg_snapshots) (\<lambda>waiting.
     if length waiting \<le> k then ret ()
     else
       bnd (field mg_cachePath) (\<lambda>path.
       bnd (upd (\<lambda>m. m\<lparr>mg_snapshots := take k waiting @ drop (Suc k) waiting\<rparr>)) (\<lambda>_.
       bnd (call (\<lambda>w. SaveDevices io w path (waiting ! k))) (\<lambda>err. ret ()))))"

end
