(* ===== verification/ConfigSubscriber.thy ===== *)
theory ConfigSubscriber
  imports GoPartial DeviceConfig
begin

text \<open>
  The subscriber to the configuration that gateway-core publishes
  (\<open>internal/service/config_subscriber.go\<close>): the wire format and its conversion to the domain, the
  handlers of the three kinds of message, starting, stopping and the request for a full sync. The
  registry of devices is behind an interface, a record of its five methods; the broker's client, the JSON
  decoder and the clock are parameters.
\<close>

section \<open>The wire format\<close>

record wire_connection =
  wn_Host :: string
  wn_Port :: int
  wn_Timeout :: string
  wn_RetryCount :: "int option"
  wn_RetryDelay :: string
  wn_SlaveID :: "int option"
  wn_SecurityPolicy :: string
  wn_SecurityMode :: string
  wn_AuthMode :: string
  wn_Username :: string
  wn_Password :: string
  wn_EndpointURL :: string
  wn_UseSubscriptions :: "bool option"
  wn_Rack :: "int option"
  wn_Slot :: "int option"
  wn_PDUSize :: "int option"

record wire_tag =
  wt_ID :: string
  wt_Name :: string
  wt_Description :: string
  wt_Address :: string
  wt_DataType :: string
  wt_Enabled :: bool
  wt_ScaleFactor :: f64
  wt_Offset :: f64
  wt_ClampMin :: "f64 option"
  wt_ClampMax :: "f64 option"
  wt_Unit :: string
  wt_DeadbandType :: string
  wt_DeadbandValue :: f64
  wt_AccessMode :: string
  wt_Priority :: byte
  wt_ByteOrder :: string
  wt_RegisterType :: string
  wt_RegisterCount :: "u16 option"
  wt_OPCNodeID :: string
  wt_OPCNamespaceURI :: string
  wt_S7Address :: string
  wt_TopicSuffix :: string

record wire_device =
  wd_ID :: string
  wd_Name :: string
  wd_Description :: string
  wd_Protocol :: string
  wd_Enabled :: bool
  wd_Connection :: wire_connection
  wd_UNSPrefix :: string
  wd_PollInterval :: string
  wd_Tags :: "wire_tag list"
  wd_ConfigVersion :: u32

record 'a notification =
  no_Action :: string
  no_Timestamp :: string
  no_Data :: 'a

section \<open>Conversion to the domain\<close>

definition mapWireProtocol :: "string \<Rightarrow> protocol" where
  "mapWireProtocol s =
     (if s = ''modbus_tcp'' then ProtocolModbusTCP
      else if s = ''modbus_rtu'' then ProtocolModbusRTU
      else if s = ''opcua'' then ProtocolOPCUA
      else if s = ''s7'' then ProtocolS7
      else if s = ''mqtt'' then ProtocolMQTT
      else protocol_of s)"

definition parseDuration :: "string \<Rightarrow> int \<Rightarrow> int" where
  "parseDuration s fallback =
     (if s = '''' then fallback else case ParseDuration s of Some d \<Rightarrow> d | None \<Rightarrow> fallback)"

text \<open>\<open>strconv.ParseUint\<close> in base 10 for 16 bits.\<close>

definition ParseUint16 :: "string \<Rightarrow> u16 option" where
  "ParseUint16 s =
     (if s \<noteq> [] \<and> list_all is_digit s \<and> digits_value s < 2 ^ 16 then Some (word_of_int (digits_value s)) else None)"

definition WireTagToDomain :: "wire_tag \<Rightarrow> tag" where
  "WireTagToDomain wt =
     \<lparr>tag_ID = wt_ID wt,
      tag_Name = wt_Name wt,
      tag_Description = wt_Description wt,
      tag_Address = (case ParseUint16 (wt_Address wt) of Some a \<Rightarrow> a | None \<Rightarrow> 0),
      tag_RegisterType = register_type_of (wt_RegisterType wt),
      tag_DataType = data_type_of (wt_DataType wt),
      tag_ByteOrder = byte_order_of (wt_ByteOrder wt),
      tag_RegisterCount = (case wt_RegisterCount wt of Some n \<Rightarrow> n | None \<Rightarrow> 0),
      tag_BitPosition = None,
      tag_ScaleFactor = wt_ScaleFactor wt,
      tag_Offset = wt_Offset wt,
      tag_Unit = wt_Unit wt,
      tag_TopicSuffix = wt_TopicSuffix wt,
      tag_PollInterval = None,
      tag_DeadbandType = deadband_type_of (wt_DeadbandType wt),
      tag_DeadbandValue = wt_DeadbandValue wt,
      tag_Enabled = wt_Enabled wt,
      tag_AccessMode = access_mode_of (wt_AccessMode wt),
      tag_Priority = wt_Priority wt,
      tag_OPCNodeID = wt_OPCNodeID wt,
      tag_OPCNamespaceURI = wt_OPCNamespaceURI wt,
      tag_OPCNamespaceIndex = 0,
      tag_S7Area = S7AreaOther '''',
      tag_S7DBNumber = 0, tag_S7Offset = 0, tag_S7BitOffset = 0,
      tag_S7Address = wt_S7Address wt,
      tag_Metadata = []\<rparr>"

definition zero_connection :: connection_config where
  "zero_connection =
     \<lparr>conn_Host = '''', conn_Port = 0, conn_Timeout = 0, conn_RetryCount = 0, conn_RetryDelay = 0,
      conn_SlaveID = 0, conn_SerialPort = '''', conn_BaudRate = 0, conn_DataBits = 0, conn_Parity = '''',
      conn_StopBits = 0, conn_OPCEndpointURL = '''', conn_OPCSecurityPolicy = '''', conn_OPCSecurityMode = '''',
      conn_OPCAuthMode = '''', conn_OPCUsername = '''', conn_OPCPassword = '''', conn_OPCCertFile = '''',
      conn_OPCKeyFile = '''', conn_OPCServerCertFile = '''', conn_OPCInsecureSkipVerify = False,
      conn_OPCAutoSelectEndpoint = False, conn_OPCApplicationName = '''', conn_OPCApplicationURI = '''',
      conn_OPCPublishInterval = 0, conn_OPCSamplingInterval = 0, conn_OPCUseSubscriptions = False,
      conn_S7Rack = 0, conn_S7Slot = 0, conn_S7PDUSize = 0, conn_S7Timeout = 0, conn_CircuitBreaker = None\<rparr>"

definition or_zero :: "int option \<Rightarrow> int" where
  "or_zero i = (case i of Some n \<Rightarrow> n | None \<Rightarrow> 0)"

definition WireConnectionToDomain :: "wire_connection \<Rightarrow> protocol \<Rightarrow> connection_config" where
  "WireConnectionToDomain wc p =
     (let cc = zero_connection\<lparr>
           conn_Host := wn_Host wc,
           conn_Port := wn_Port wc,
           conn_Timeout := parseDuration (wn_Timeout wc) (10 * 10 ^ 9),
           conn_RetryCount := or_zero (wn_RetryCount wc),
           conn_RetryDelay := (if wn_RetryDelay wc = '''' then 0 else parseDuration (wn_RetryDelay wc) 0)\<rparr>
      in case p of
        ProtocolModbusTCP \<Rightarrow> cc\<lparr>conn_SlaveID := (case wn_SlaveID wc of Some i \<Rightarrow> word_of_int i | None \<Rightarrow> 0)\<rparr>
      | ProtocolModbusRTU \<Rightarrow> cc\<lparr>conn_SlaveID := (case wn_SlaveID wc of Some i \<Rightarrow> word_of_int i | None \<Rightarrow> 0)\<rparr>
      | ProtocolOPCUA \<Rightarrow> cc\<lparr>
          conn_OPCSecurityPolicy := wn_SecurityPolicy wc,
          conn_OPCSecurityMode := wn_SecurityMode wc,
          conn_OPCAuthMode := wn_AuthMode wc,
          conn_OPCUsername := wn_Username wc,
          conn_OPCPassword := wn_Password wc,
          conn_OPCEndpointURL := wn_EndpointURL wc,
          conn_OPCUseSubscriptions := (wn_UseSubscriptions wc = Some True)\<rparr>
      | ProtocolS7 \<Rightarrow> cc\<lparr>
          conn_S7Rack := or_zero (wn_Rack wc),
          conn_S7Slot := or_zero (wn_Slot wc),
          conn_S7PDUSize := or_zero (wn_PDUSize wc)\<rparr>
      | _ \<Rightarrow> cc)"

definition WireDeviceToDomain :: "wire_device \<Rightarrow> int \<Rightarrow> int \<Rightarrow> device" where
  "WireDeviceToDomain wd created updated =
     \<lparr>dev_ID = wd_ID wd,
      dev_Name = wd_Name wd,
      dev_Description = wd_Description wd,
      dev_Protocol = mapWireProtocol (wd_Protocol wd),
      dev_Connection = WireConnectionToDomain (wd_Connection wd) (mapWireProtocol (wd_Protocol wd)),
      dev_Tags = map WireTagToDomain (wd_Tags wd),
      dev_PollInterval = parseDuration (wd_PollInterval wd) (10 ^ 9),
      dev_Enabled = wd_Enabled wd,
      dev_UNSPrefix = wd_UNSPrefix wd,
      dev_Metadata = [],
      dev_CreatedAt = created,
      dev_UpdatedAt = updated,
      dev_ConfigVersion = wd_ConfigVersion wd,
      dev_ActiveConfigVersion = 0,
      dev_LastKnownGoodVersion = 0\<rparr>"

section \<open>The interface of the registry\<close>

text \<open>\<open>DeviceRegistrar\<close>, on a state \<open>'s\<close>; the two lookups do not change it.\<close>

record 's registrar =
  rg_GetDevice :: "'s \<Rightarrow> string \<Rightarrow> device option"
  rg_GetDevices :: "'s \<Rightarrow> device list"
  rg_Add :: "device \<Rightarrow> ('s, gerror option) oprog"
  rg_Update :: "device \<Rightarrow> ('s, gerror option) oprog"
  rg_Delete :: "string \<Rightarrow> ('s, gerror option) oprog"

record config_subscriber_config =
  cc_TopicPrefix :: string
  cc_SyncRequestTopic :: string
  cc_QoS :: byte
  cc_SyncRequestDelay :: int

definition DefaultConfigSubscriberConfig :: config_subscriber_config where
  "DefaultConfigSubscriberConfig =
     \<lparr>cc_TopicPrefix = ''$nexus/config'', cc_SyncRequestTopic = ''$nexus/config/sync/request'', cc_QoS = 1,
      cc_SyncRequestDelay = 2 * 10 ^ 9\<rparr>"

text \<open>
  What the subscriber calls: the registry, the broker's client (a call gives whether its token completed
  in time, and the token's error), the decoder of each message, the payload of a sync request, the clock.
\<close>

record 's config_env =
  ce_registrar :: "'s registrar"
  ce_SubscribeMultiple :: "(string \<times> byte) list \<Rightarrow> 's \<Rightarrow> (bool \<times> gerror option) \<times> 's"
  ce_UnsubscribeAll :: "string list \<Rightarrow> 's \<Rightarrow> unit \<times> 's"
  ce_PublishConfig :: "string \<Rightarrow> byte \<Rightarrow> bool \<Rightarrow> string \<Rightarrow> 's \<Rightarrow> (bool \<times> gerror option) \<times> 's"
  ce_Sleep :: "int \<Rightarrow> 's \<Rightarrow> unit \<times> 's"
  ce_SyncPayload :: "int \<Rightarrow> string"
  ce_ParseDevice :: "string \<Rightarrow> wire_device notification option"
  ce_ParseBulk :: "string \<Rightarrow> (wire_device list) notification option"
  ce_ParseTag :: "string \<Rightarrow> wire_tag notification option"
  ce_Clock :: "'s \<Rightarrow> int \<times> 's"

record config_subscriber =
  cs_config :: config_subscriber_config
  cs_running :: bool
  cs_devicesReceived :: u64
  cs_tagsReceived :: u64
  cs_errorsTotal :: u64
  cs_lastSyncAt :: "int option"

type_synonym ('s, 'a) configuring = "(config_subscriber \<times> 's, 'a) oprog"

definition NewConfigSubscriber :: "config_subscriber_config \<Rightarrow> config_subscriber" where
  "NewConfigSubscriber config =
     \<lparr>cs_config = config, cs_running = False, cs_devicesReceived = 0, cs_tagsReceived = 0, cs_errorsTotal = 0,
      cs_lastSyncAt = None\<rparr>"

text \<open>The counters and the time of the last sync, zero before the first.\<close>

definition cs_Stats :: "config_subscriber \<Rightarrow> u64 \<times> u64 \<times> u64 \<times> int" where
  "cs_Stats cs =
     (cs_devicesReceived cs, cs_tagsReceived cs, cs_errorsTotal cs,
      case cs_lastSyncAt cs of Some t \<Rightarrow> t | None \<Rightarrow> zero_time)"

definition count_config_error :: "('s, unit) configuring" where
  "count_config_error = always (upd (\<lambda>cs. cs\<lparr>cs_errorsTotal := cs_errorsTotal cs + 1\<rparr>))"

text \<open>An error of the registry is counted; the counter goes unchanged otherwise.\<close>

definition counting_errors :: "('s, gerror option) oprog \<Rightarrow> ('s, unit) configuring" where
  "counting_errors m =
     obnd (oworld m) (\<lambda>err. case err of Some e \<Rightarrow> count_config_error | None \<Rightarrow> always (ret ()))"

definition converted :: "'s config_env \<Rightarrow> wire_device \<Rightarrow> (device \<Rightarrow> ('s, unit) configuring) \<Rightarrow> ('s, unit) configuring" where
  "converted E wd f =
     obnd (always (call (ce_Clock E))) (\<lambda>created.
     obnd (always (call (ce_Clock E))) (\<lambda>updated. f (WireDeviceToDomain wd created updated)))"

definition applyDeviceCreate :: "'s config_env \<Rightarrow> wire_device \<Rightarrow> ('s, unit) configuring" where
  "applyDeviceCreate E wd = converted E wd (\<lambda>d. counting_errors (rg_Add (ce_registrar E) d))"

definition applyDeviceUpdate :: "'s config_env \<Rightarrow> wire_device \<Rightarrow> ('s, unit) configuring" where
  "applyDeviceUpdate E wd = converted E wd (\<lambda>d. counting_errors (rg_Update (ce_registrar E) d))"

definition applyDeviceDelete :: "'s config_env \<Rightarrow> string \<Rightarrow> ('s, unit) configuring" where
  "applyDeviceDelete E i = counting_errors (rg_Delete (ce_registrar E) i)"

section \<open>The handlers\<close>

definition count_received :: "('s, unit) configuring" where
  "count_received = always (upd (\<lambda>cs. cs\<lparr>cs_devicesReceived := cs_devicesReceived cs + 1\<rparr>))"

definition handleDeviceChange :: "'s config_env \<Rightarrow> string \<Rightarrow> string \<Rightarrow> ('s, unit) configuring" where
  "handleDeviceChange E topic payload =
     (case ce_ParseDevice E payload of
        None \<Rightarrow> count_config_error
      | Some n \<Rightarrow>
          obnd count_received (\<lambda>_.
          if no_Action n = ''create'' then applyDeviceCreate E (no_Data n)
          else if no_Action n = ''update'' then applyDeviceUpdate E (no_Data n)
          else if no_Action n = ''delete'' then applyDeviceDelete E (wd_ID (no_Data n))
          else always (ret ())))"

definition sync_device :: "'s config_env \<Rightarrow> wire_device \<Rightarrow> ('s, unit) configuring" where
  "sync_device E wd =
     obnd count_received (\<lambda>_.
     obnd (always (call (\<lambda>s. (rg_GetDevice (ce_registrar E) s (wd_ID wd), s)))) (\<lambda>known.
     case known of
       Some old \<Rightarrow> applyDeviceUpdate E wd
     | None \<Rightarrow> applyDeviceCreate E wd))"

fun sync_each :: "'s config_env \<Rightarrow> wire_device list \<Rightarrow> ('s, unit) configuring" where
  "sync_each E [] = always (ret ())"
| "sync_each E (wd # wds) = obnd (sync_device E wd) (\<lambda>_. sync_each E wds)"

text \<open>The devices that are there and did not come, in the order \<open>GetDevices\<close> gave them.\<close>

fun drop_stale :: "'s config_env \<Rightarrow> string set \<Rightarrow> device list \<Rightarrow> ('s, unit) configuring" where
  "drop_stale E incoming [] = always (ret ())"
| "drop_stale E incoming (d # ds) =
     obnd (if dev_ID d \<in> incoming then always (ret ()) else applyDeviceDelete E (dev_ID d)) (\<lambda>_.
     drop_stale E incoming ds)"

definition handleBulkDevices :: "'s config_env \<Rightarrow> string \<Rightarrow> ('s, unit) configuring" where
  "handleBulkDevices E payload =
     (case ce_ParseBulk E payload of
        None \<Rightarrow> count_config_error
      | Some n \<Rightarrow>
          obnd (always (call (ce_Clock E))) (\<lambda>now.
          obnd (always (upd (\<lambda>cs. cs\<lparr>cs_lastSyncAt := Some now\<rparr>))) (\<lambda>_.
          obnd (sync_each E (no_Data n)) (\<lambda>_.
          obnd (always (call (\<lambda>s. (rg_GetDevices (ce_registrar E) s, s)))) (\<lambda>present.
          drop_stale E (set (map wd_ID (no_Data n))) present)))))"

text \<open>Creating and updating a tag are the same: the first tag with its ID is replaced, or it is appended.\<close>

fun upsert_tag :: "tag \<Rightarrow> tag list \<Rightarrow> tag list" where
  "upsert_tag t [] = [t]"
| "upsert_tag t (u # us) = (if tag_ID u = tag_ID t then t # us else u # upsert_tag t us)"

definition change_tags :: "string \<Rightarrow> tag \<Rightarrow> tag list \<Rightarrow> tag list" where
  "change_tags action t ts =
     (if action = ''create'' \<or> action = ''update'' then upsert_tag t ts
      else if action = ''delete'' then filter (\<lambda>u. tag_ID u \<noteq> tag_ID t) ts
      else ts)"

definition handleTagChange :: "'s config_env \<Rightarrow> string \<Rightarrow> string \<Rightarrow> ('s, unit) configuring" where
  "handleTagChange E topic payload =
     (let parts = Split topic CHR ''/'' in
      if length parts < 5 then always (ret ())
      else case ce_ParseTag E payload of
        None \<Rightarrow> count_config_error
      | Some n \<Rightarrow>
          obnd (always (upd (\<lambda>cs. cs\<lparr>cs_tagsReceived := cs_tagsReceived cs + 1\<rparr>))) (\<lambda>_.
          obnd (always (call (\<lambda>s. (rg_GetDevice (ce_registrar E) s (parts ! (length parts - 2)), s)))) (\<lambda>known.
          case known of
            None \<Rightarrow> always (ret ())
          | Some d \<Rightarrow>
              obnd (always (call (ce_Clock E))) (\<lambda>now.
              counting_errors (rg_Update (ce_registrar E)
                (d\<lparr>dev_Tags := change_tags (no_Action n) (WireTagToDomain (no_Data n)) (dev_Tags d),
                   dev_UpdatedAt := now\<rparr>))))))"

definition cs_handleMessage :: "'s config_env \<Rightarrow> string \<Rightarrow> string \<Rightarrow> ('s, unit) configuring" where
  "cs_handleMessage E topic payload =
     (if payload = '''' then always (ret ())
      else
        obnd (always (field (\<lambda>cs. cc_TopicPrefix (cs_config cs)))) (\<lambda>pre.
        if topic = pre @ ''/devices/bulk'' then handleBulkDevices E payload
        else if prefix (pre @ ''/devices/'') topic then handleDeviceChange E topic payload
        else if prefix (pre @ ''/tags/'') topic then handleTagChange E topic payload
        else always (ret ())))"

section \<open>Starting and stopping\<close>

definition device_topic :: "config_subscriber_config \<Rightarrow> string" where
  "device_topic c = cc_TopicPrefix c @ ''/devices/+''"

definition tag_topic :: "config_subscriber_config \<Rightarrow> string" where
  "tag_topic c = cc_TopicPrefix c @ ''/tags/+/+''"

text \<open>\<open>True\<close>: a goroutine for the sync request is started.\<close>

definition cs_Start :: "'s config_env \<Rightarrow> ('s, gerror option \<times> bool) configuring" where
  "cs_Start E =
     obnd (always (field (\<lambda>cs. (cs_running cs, cs_config cs)))) (\<lambda>(running, c).
     if running then always (ret (Some (Text ''config subscriber already running''), False))
     else
       obnd (always (call (ce_SubscribeMultiple E [(device_topic c, cc_QoS c), (tag_topic c, cc_QoS c)]))) (\<lambda>(intime, err).
       if \<not> intime then always (ret (Some (Text ''timeout subscribing to config topics''), False))
       else case err of
         Some e \<Rightarrow> always (ret (Some (WrapW ''failed to subscribe to config topics'' e), False))
       | None \<Rightarrow> obnd (always (upd (cs_running_update (\<lambda>_. True)))) (\<lambda>_. always (ret (None, True)))))"

definition cs_Stop :: "'s config_env \<Rightarrow> ('s, unit) configuring" where
  "cs_Stop E =
     obnd (always (field (\<lambda>cs. (cs_running cs, cs_config cs)))) (\<lambda>(running, c).
     if \<not> running then always (ret ())
     else
       obnd (always (call (ce_UnsubscribeAll E [device_topic c, tag_topic c]))) (\<lambda>_.
       always (upd (cs_running_update (\<lambda>_. False)))))"

text \<open>Its outcome is only logged.\<close>

definition requestSync :: "'s config_env \<Rightarrow> ('s, unit) configuring" where
  "requestSync E =
     obnd (always (field cs_config)) (\<lambda>c.
     obnd (always (call (ce_Sleep E (cc_SyncRequestDelay c)))) (\<lambda>_.
     obnd (always (call (ce_Clock E))) (\<lambda>now.
     obnd (always (call (ce_PublishConfig E (cc_SyncRequestTopic c) (cc_QoS c) False (ce_SyncPayload E now)))) (\<lambda>_.
     always (ret ())))))"

text \<open>The last device of the message with an ID, and the map that only has those.\<close>

definition latest :: "wire_device list \<Rightarrow> string \<Rightarrow> wire_device option" where
  "latest wds i = map_of (rev (map (\<lambda>wd. (wd_ID wd, wd)) wds)) i"

definition holds_latest :: "wire_device list \<Rightarrow> (string \<rightharpoonup> device) \<Rightarrow> bool" where
  "holds_latest wds m \<longleftrightarrow>
     (\<forall>i wd. latest wds i = Some wd \<longrightarrow> (\<exists>c u. m i = Some (WireDeviceToDomain wd c u)))"

text \<open>The registry's state and the errors counted, over a handler.\<close>

definition store_at ::
  "('s \<Rightarrow> string \<rightharpoonup> device) \<Rightarrow> ('s \<Rightarrow> bool) \<Rightarrow> u64 \<Rightarrow> ((string \<rightharpoonup> device) \<Rightarrow> bool) \<Rightarrow> config_subscriber \<times> 's \<Rightarrow> bool" where
  "store_at get good k P st \<longleftrightarrow> good (snd st) \<and> P (get (snd st)) \<and> cs_errorsTotal (fst st) = k"

lemma store_at_run:
  assumes "delivers (store_at get good k P) f (\<lambda>_. store_at get good k Q)" and "good s" and "P (get s)"
    and "k = cs_errorsTotal cs"
  shows "\<exists>a cs' s'. f (cs, s) = Some (Val a, (cs', s')) \<and> good s' \<and> Q (get s') \<and> cs_errorsTotal cs' = cs_errorsTotal cs"
proof -
  have "store_at get good k P (cs, s)" using assms(2-4) by (simp add: store_at_def)
  from deliversE [OF assms(1) this] obtain a st where "f (cs, s) = Some (Val a, st)" "store_at get good k Q st" by blast
  with assms(4) show ?thesis by (cases st) (auto simp: store_at_def)
qed

section \<open>A registry that answers\<close>

text \<open>
  What the subscriber relies on: the registry is a map from IDs to devices; it takes every device that is
  acceptable, puts it under its ID and returns no error, and it forgets what it is told to forget. Reading
  the clock changes nothing of it.
\<close>

locale device_source =
  fixes E :: "'s config_env" and good :: "'s \<Rightarrow> bool" and acceptable :: "device \<Rightarrow> bool"
  assumes clock: "good s \<Longrightarrow> good (snd (ce_Clock E s)) \<and>
      rg_GetDevice (ce_registrar E) (snd (ce_Clock E s)) = rg_GetDevice (ce_registrar E) s"
    and listed: "good s \<Longrightarrow> d \<in> set (rg_GetDevices (ce_registrar E) s) \<longleftrightarrow> rg_GetDevice (ce_registrar E) s (dev_ID d) = Some d"
    and keyed: "good s \<Longrightarrow> rg_GetDevice (ce_registrar E) s i = Some d \<Longrightarrow> dev_ID d = i"
    and added: "acceptable d \<Longrightarrow> delivers (\<lambda>s. good s \<and> rg_GetDevice (ce_registrar E) s = m \<and> m (dev_ID d) = None)
      (rg_Add (ce_registrar E) d)
      (\<lambda>err s. good s \<and> rg_GetDevice (ce_registrar E) s = m(dev_ID d \<mapsto> d) \<and> err = None)"
    and updated: "acceptable d \<Longrightarrow> delivers (\<lambda>s. good s \<and> rg_GetDevice (ce_registrar E) s = m)
      (rg_Update (ce_registrar E) d)
      (\<lambda>err s. good s \<and> rg_GetDevice (ce_registrar E) s = m(dev_ID d \<mapsto> d) \<and> err = None)"
    and deleted: "delivers (\<lambda>s. good s \<and> rg_GetDevice (ce_registrar E) s = m) (rg_Delete (ce_registrar E) i)
      (\<lambda>err s. good s \<and> rg_GetDevice (ce_registrar E) s = m(i := None) \<and> err = None)"
begin

abbreviation known :: "'s \<Rightarrow> string \<Rightarrow> device option" where
  "known \<equiv> rg_GetDevice (ce_registrar E)"

abbreviation held :: "u64 \<Rightarrow> ((string \<rightharpoonup> device) \<Rightarrow> bool) \<Rightarrow> config_subscriber \<times> 's \<Rightarrow> bool" where
  "held \<equiv> store_at known good"

lemma store_at_clock: "held k P (cs, s) \<Longrightarrow> ce_Clock E s = (t, s') \<Longrightarrow> held k P (cs, s')"
  using clock [of s] by (simp add: store_at_def)

lemma counting_errors_ok:
  assumes "\<And>m. P m \<Longrightarrow> delivers (\<lambda>s. good s \<and> known s = m) f (\<lambda>err s. good s \<and> Q (known s) \<and> err = None)"
  shows "delivers (held k P) (counting_errors f) (\<lambda>_. held k Q)"
  unfolding counting_errors_def
proof (rule delivers_obnd)
  show "delivers (held k P) (oworld f) (\<lambda>err st. held k Q st \<and> err = None)"
  proof (rule delivers_oworld, rule deliversI)
    fix c s assume "held k P (c, s)"
    then have s: "P (known s)" "good s \<and> known s = known s" "cs_errorsTotal c = k" by (simp_all add: store_at_def)
    from deliversE [OF assms [OF s(1)] s(2)] obtain err s' where
      "f s = Some (Val err, s')" "good s'" "Q (known s')" "err = None" by blast
    with s(3) show "\<exists>err s'. f s = Some (Val err, s') \<and> held k Q (c, s') \<and> err = None" by (simp add: store_at_def)
  qed
qed (auto simp: delivers_def always_ret split: option.split)

lemma converted_ok:
  assumes "\<And>c u. delivers (held k P) (f (WireDeviceToDomain wd c u)) (\<lambda>_. held k Q)"
  shows "delivers (held k P) (converted E wd f) (\<lambda>_. held k Q)"
  unfolding converted_def
  by (rule delivers_obnd [where R = "\<lambda>_. held k P"], rule delivers_call, erule (1) store_at_clock,
      rule delivers_obnd [where R = "\<lambda>_. held k P"], rule delivers_call, erule (1) store_at_clock, rule assms)

lemma create_ok:
  assumes "\<And>c u. acceptable (WireDeviceToDomain wd c u)"
    and "\<And>m c u. P m \<Longrightarrow> m (wd_ID wd) = None \<and> Q (m(wd_ID wd \<mapsto> WireDeviceToDomain wd c u))"
  shows "delivers (held k P) (applyDeviceCreate E wd) (\<lambda>_. held k Q)"
  unfolding applyDeviceCreate_def
proof (intro converted_ok counting_errors_ok)
  fix c u m assume m: "P m"
  have "dev_ID (WireDeviceToDomain wd c u) = wd_ID wd" by (simp add: WireDeviceToDomain_def)
  with delivers_post [OF added [OF assms(1) [of c u], of m]] assms(2) [OF m]
  show "delivers (\<lambda>s. good s \<and> known s = m) (rg_Add (ce_registrar E) (WireDeviceToDomain wd c u))
      (\<lambda>err s. good s \<and> Q (known s) \<and> err = None)"
    by simp
qed

lemma update_ok:
  assumes "acceptable d" and "\<And>m. P m \<Longrightarrow> Q (m(dev_ID d \<mapsto> d))"
  shows "delivers (held k P) (counting_errors (rg_Update (ce_registrar E) d)) (\<lambda>_. held k Q)"
  by (rule counting_errors_ok, rule delivers_post [OF updated [OF assms(1)]]) (use assms(2) in auto)

lemma applyDeviceUpdate_ok:
  assumes "\<And>c u. acceptable (WireDeviceToDomain wd c u)"
    and "\<And>m c u. P m \<Longrightarrow> Q (m(wd_ID wd \<mapsto> WireDeviceToDomain wd c u))"
  shows "delivers (held k P) (applyDeviceUpdate E wd) (\<lambda>_. held k Q)"
proof -
  have "dev_ID (WireDeviceToDomain wd c u) = wd_ID wd" for c u by (simp add: WireDeviceToDomain_def)
  then show ?thesis
    unfolding applyDeviceUpdate_def by (intro converted_ok update_ok assms(1)) (simp add: assms(2))
qed

lemma applyDeviceDelete_ok:
  assumes "\<And>m. P m \<Longrightarrow> Q (m(i := None))"
  shows "delivers (held k P) (applyDeviceDelete E i) (\<lambda>_. held k Q)"
  unfolding applyDeviceDelete_def
  by (rule counting_errors_ok, rule delivers_post [OF deleted]) (use assms in auto)

lemma known_read:
  assumes "\<And>m. P m \<Longrightarrow> Q (m i) m"
  shows "delivers (held k P) (always (call (\<lambda>s. (known s i, s)))) (\<lambda>r. held k (Q r))"
  by (rule delivers_call) (use assms in \<open>auto simp: store_at_def\<close>)

lemma counted_ok:
  assumes "\<And>cs. cs_errorsTotal (f cs) = cs_errorsTotal cs"
  shows "delivers (held k P) (always (upd f)) (\<lambda>_. held k P)"
  by (rule delivers_upd) (simp add: store_at_def assms)

lemma sync_device_ok:
  assumes "\<And>c u. acceptable (WireDeviceToDomain wd c u)"
    and "\<And>m c u. P m \<Longrightarrow> Q (m(wd_ID wd \<mapsto> WireDeviceToDomain wd c u))"
  shows "delivers (held k P) (sync_device E wd) (\<lambda>_. held k Q)"
  unfolding sync_device_def count_received_def
proof (rule delivers_obnd [where R = "\<lambda>_. held k P"])
  fix a :: unit
  show "delivers (held k P)
      (obnd (always (call (\<lambda>s. (known s (wd_ID wd), s))))
        (\<lambda>known. case known of None \<Rightarrow> applyDeviceCreate E wd | Some old \<Rightarrow> applyDeviceUpdate E wd)) (\<lambda>_. held k Q)"
  proof (rule delivers_obnd [where R = "\<lambda>r. held k (\<lambda>m. P m \<and> m (wd_ID wd) = r)"], rule known_read)
    fix r
    show "delivers (held k (\<lambda>m. P m \<and> m (wd_ID wd) = r))
        (case r of None \<Rightarrow> applyDeviceCreate E wd | Some old \<Rightarrow> applyDeviceUpdate E wd) (\<lambda>_. held k Q)"
      by (rule delivers_option; intro create_ok applyDeviceUpdate_ok assms) (auto simp: assms(2))
  qed simp
qed (rule counted_ok, simp)

lemma holds_latest_Nil: "holds_latest [] = (\<lambda>_. True)"
  by (simp add: holds_latest_def latest_def fun_eq_iff)

lemma sync_each_ok:
  assumes "\<And>wd c u. wd \<in> set wds \<Longrightarrow> acceptable (WireDeviceToDomain wd c u)"
  shows "delivers (held k (holds_latest seen)) (sync_each E wds) (\<lambda>_. held k (holds_latest (seen @ wds)))"
  using assms
proof (induction wds arbitrary: seen)
  case Nil
  then show ?case by (simp add: delivers_ret)
next
  case (Cons wd wds)
  have "holds_latest (seen @ [wd]) (m(wd_ID wd \<mapsto> WireDeviceToDomain wd c u))" if "holds_latest seen m" for m c u
    using that by (auto simp: holds_latest_def latest_def)
  then have "delivers (held k (holds_latest seen)) (sync_device E wd) (\<lambda>_. held k (holds_latest (seen @ [wd])))"
    using Cons.prems by (intro sync_device_ok) simp_all
  from delivers_obnd [OF this] Cons.IH [of "seen @ [wd]"] Cons.prems show ?case by simp
qed

lemma drop_stale_ok:
  assumes "\<And>m i. P m \<Longrightarrow> i \<notin> incoming \<Longrightarrow> P (m(i := None))"
  shows "delivers (held k (\<lambda>m. P m \<and> dom m \<subseteq> incoming \<union> set (map dev_ID ds))) (drop_stale E incoming ds)
    (\<lambda>_. held k (\<lambda>m. P m \<and> dom m \<subseteq> incoming))"
proof (induction ds)
  case Nil
  then show ?case by (simp add: delivers_ret)
next
  case (Cons d ds)
  have "delivers (held k (\<lambda>m. P m \<and> dom m \<subseteq> incoming \<union> set (map dev_ID (d # ds))))
      (if dev_ID d \<in> incoming then always (ret ()) else applyDeviceDelete E (dev_ID d))
      (\<lambda>_. held k (\<lambda>m. P m \<and> dom m \<subseteq> incoming \<union> set (map dev_ID ds)))"
  proof (rule delivers_if)
    assume "dev_ID d \<in> incoming"
    then show "delivers (held k (\<lambda>m. P m \<and> dom m \<subseteq> incoming \<union> set (map dev_ID (d # ds)))) (always (ret ()))
        (\<lambda>_. held k (\<lambda>m. P m \<and> dom m \<subseteq> incoming \<union> set (map dev_ID ds)))"
      by (intro delivers_ret) (auto simp: store_at_def)
  next
    assume "dev_ID d \<notin> incoming"
    then show "delivers (held k (\<lambda>m. P m \<and> dom m \<subseteq> incoming \<union> set (map dev_ID (d # ds)))) (applyDeviceDelete E (dev_ID d))
        (\<lambda>_. held k (\<lambda>m. P m \<and> dom m \<subseteq> incoming \<union> set (map dev_ID ds)))"
      using assms [of _ "dev_ID d"] by (intro applyDeviceDelete_ok) auto
  qed
  from delivers_obnd [OF this Cons.IH] show ?case by simp
qed

lemma holds_latest_drop:
  assumes "holds_latest wds m" and "i \<notin> set (map wd_ID wds)"
  shows "holds_latest wds (m(i := None))"
proof -
  have "latest wds i = None" using assms(2) by (auto simp: latest_def map_of_eq_None_iff)
  with assms(1) show ?thesis by (auto simp: holds_latest_def)
qed

lemma bulk_ok:
  assumes "ce_ParseBulk E payload = Some n"
    and "\<And>wd c u. wd \<in> set (no_Data n) \<Longrightarrow> acceptable (WireDeviceToDomain wd c u)"
  shows "delivers (held k (\<lambda>_. True)) (handleBulkDevices E payload)
    (\<lambda>_. held k (\<lambda>m. holds_latest (no_Data n) m \<and> dom m \<subseteq> set (map wd_ID (no_Data n))))"
proof -
  let ?wds = "no_Data n"
  let ?in = "set (map wd_ID ?wds)"
  have 1: "delivers (held k (\<lambda>_. True)) (always (call (ce_Clock E))) (\<lambda>_. held k (\<lambda>_. True))"
    by (rule delivers_call) (erule (1) store_at_clock)
  have 2: "delivers (held k (\<lambda>_. True)) (always (upd (\<lambda>cs. cs\<lparr>cs_lastSyncAt := Some now\<rparr>))) (\<lambda>_. held k (\<lambda>_. True))" for now
    by (rule counted_ok) simp
  have 3: "delivers (held k (\<lambda>_. True)) (sync_each E ?wds) (\<lambda>_. held k (holds_latest ?wds))"
    using sync_each_ok [of ?wds k "[]"] assms(2) by (simp add: holds_latest_Nil)
  have 4: "delivers (held k (holds_latest ?wds)) (always (call (\<lambda>s. (rg_GetDevices (ce_registrar E) s, s))))
      (\<lambda>ds. held k (\<lambda>m. holds_latest ?wds m \<and> dom m \<subseteq> ?in \<union> set (map dev_ID ds)))"
  proof (rule delivers_call)
    fix cs s ds s' assume s: "held k (holds_latest ?wds) (cs, s)" "(rg_GetDevices (ce_registrar E) s, s) = (ds, s')"
    then have good: "good s" by (simp add: store_at_def)
    have "dom (known s) \<subseteq> set (map dev_ID (rg_GetDevices (ce_registrar E) s))"
    proof
      fix i assume "i \<in> dom (known s)"
      then obtain d where d: "known s i = Some d" by blast
      with keyed [OF good d] listed [OF good, of d] show "i \<in> set (map dev_ID (rg_GetDevices (ce_registrar E) s))" by auto
    qed
    with s show "held k (\<lambda>m. holds_latest ?wds m \<and> dom m \<subseteq> ?in \<union> set (map dev_ID ds)) (cs, s')"
      by (auto simp: store_at_def)
  qed
  have 5: "delivers (held k (\<lambda>m. holds_latest ?wds m \<and> dom m \<subseteq> ?in \<union> set (map dev_ID ds))) (drop_stale E ?in ds)
      (\<lambda>_. held k (\<lambda>m. holds_latest ?wds m \<and> dom m \<subseteq> ?in))" for ds
    by (rule drop_stale_ok) (rule holds_latest_drop)
  show ?thesis
    unfolding handleBulkDevices_def assms(1) option.case
    by (intro delivers_obnd [OF 1] delivers_obnd [OF 2] delivers_obnd [OF 3] delivers_obnd [OF 4] 5)
qed

lemma tag_change_ok:
  assumes "Split topic CHR ''/'' = pre @ [i, t]" and "3 \<le> length pre" and "ce_ParseTag E payload = Some n"
    and "\<And>now. acceptable (d\<lparr>dev_Tags := change_tags (no_Action n) (WireTagToDomain (no_Data n)) (dev_Tags d), dev_UpdatedAt := now\<rparr>)"
  shows "delivers (held k (\<lambda>m. m = before \<and> m i = Some d)) (handleTagChange E topic payload)
    (\<lambda>_. held k (\<lambda>m. \<exists>now. m = before(i \<mapsto>
      d\<lparr>dev_Tags := change_tags (no_Action n) (WireTagToDomain (no_Data n)) (dev_Tags d), dev_UpdatedAt := now\<rparr>)))"
proof -
  let ?d = "\<lambda>now. d\<lparr>dev_Tags := change_tags (no_Action n) (WireTagToDomain (no_Data n)) (dev_Tags d), dev_UpdatedAt := now\<rparr>"
  let ?P = "\<lambda>m. m = before \<and> m i = Some d" and ?Q = "\<lambda>m. \<exists>now. m = before(i \<mapsto> ?d now)"
  have topic: "length (Split topic CHR ''/'') = Suc (Suc (length pre))"
    "Split topic CHR ''/'' ! length pre = i" by (simp_all add: assms(1) nth_append)
  have 1: "delivers (held k ?P) (always (upd (\<lambda>cs. cs\<lparr>cs_tagsReceived := cs_tagsReceived cs + 1\<rparr>))) (\<lambda>_. held k ?P)"
    by (rule counted_ok) simp
  have 2: "delivers (held k ?P) (always (call (\<lambda>s. (known s i, s)))) (\<lambda>r. held k (\<lambda>m. r = Some d \<and> ?P m))"
    by (rule known_read) simp
  have 3: "delivers (held k ?P) (always (call (ce_Clock E))) (\<lambda>_. held k ?P)"
    by (rule delivers_call) (erule (1) store_at_clock)
  have 4: "delivers (held k ?P) (counting_errors (rg_Update (ce_registrar E) (?d now))) (\<lambda>_. held k ?Q)" for now
  proof (rule counting_errors_ok, rule deliversI)
    fix m s assume m: "?P m" and s: "good s \<and> known s = m"
    then have "dev_ID d = i" using keyed by blast
    from deliversE [OF updated [OF assms(4) [of now], of m] s] obtain err s' where
      "rg_Update (ce_registrar E) (?d now) s = Some (Val err, s')" "good s'" "known s' = m(dev_ID (?d now) \<mapsto> ?d now)" "err = None"
      by blast
    with m \<open>dev_ID d = i\<close> show "\<exists>err s'. rg_Update (ce_registrar E) (?d now) s = Some (Val err, s') \<and> good s' \<and> ?Q (known s') \<and> err = None"
      by auto
  qed
  have 5: "delivers (held k (\<lambda>m. r = Some d \<and> ?P m))
      (case r of None \<Rightarrow> always (ret ()) | Some d \<Rightarrow> obnd (always (call (ce_Clock E))) (\<lambda>now.
         counting_errors (rg_Update (ce_registrar E)
           (d\<lparr>dev_Tags := change_tags (no_Action n) (WireTagToDomain (no_Data n)) (dev_Tags d), dev_UpdatedAt := now\<rparr>))))
      (\<lambda>_. held k ?Q)" for r
  proof (rule delivers_fact [where F = "r = Some d"])
    assume "r = Some d"
    with delivers_obnd [OF 3 4] show "delivers (held k (\<lambda>m. r = Some d \<and> ?P m))
      (case r of None \<Rightarrow> always (ret ()) | Some d \<Rightarrow> obnd (always (call (ce_Clock E))) (\<lambda>now.
         counting_errors (rg_Update (ce_registrar E)
           (d\<lparr>dev_Tags := change_tags (no_Action n) (WireTagToDomain (no_Data n)) (dev_Tags d), dev_UpdatedAt := now\<rparr>))))
      (\<lambda>_. held k ?Q)" by simp
  qed (simp add: store_at_def)
  have body: "handleTagChange E topic payload =
      obnd (always (upd (\<lambda>cs. cs\<lparr>cs_tagsReceived := cs_tagsReceived cs + 1\<rparr>))) (\<lambda>_.
      obnd (always (call (\<lambda>s. (known s i, s)))) (\<lambda>r.
      case r of None \<Rightarrow> always (ret ()) | Some d \<Rightarrow> obnd (always (call (ce_Clock E))) (\<lambda>now.
         counting_errors (rg_Update (ce_registrar E)
           (d\<lparr>dev_Tags := change_tags (no_Action n) (WireTagToDomain (no_Data n)) (dev_Tags d), dev_UpdatedAt := now\<rparr>)))))"
    using assms(2) by (simp add: handleTagChange_def Let_def topic assms(3))
  show ?thesis unfolding body by (rule delivers_obnd [OF 1 delivers_obnd [OF 2 5]])
qed

end

end
