(* ===== verification/GatewayConfig.thy ===== *)
theory GatewayConfig
  imports DeviceManager ConfigSubscriber CommandProps
begin

text \<open>
  The configuration path of the gateway (\<open>cmd/gateway/main.go\<close>): the callbacks that the device manager
  calls, over the protocol manager, the polling service and the command handler, and the subscriber over
  that manager. A sync brings the manager, the registry of pollers and the command handler to the devices
  that came; a callback that refuses an edit leaves them apart.
\<close>

section \<open>The callbacks\<close>

text \<open>The polling service with its world, and the command handler once it is made.\<close>

type_synonym 'w gateway = "(polling_service \<times> 'w) \<times> command_handler option"

definition tell_handler :: "(command_handler \<Rightarrow> command_handler) \<Rightarrow> ('w gateway, unit) prog" where
  "tell_handler f g = (Val (), (fst g, map_option f (snd g)))"

definition on_add :: "'w polling_env \<Rightarrow> 's protocol_manager \<Rightarrow> device \<Rightarrow> ('w gateway, gerror option) oprog" where
  "on_add E pm d =
     (if GetPool pm (dev_Protocol d) = None then always (ret (Some not_supported))
      else
        obnd (oon_left (RegisterDevice E d)) (\<lambda>err.
        case err of
          Some e \<Rightarrow> always (ret (Some e))
        | None \<Rightarrow> obnd (always (tell_handler (AddDevice d))) (\<lambda>_. always (ret None))))"

definition on_edit :: "'w polling_env \<Rightarrow> 's protocol_manager \<Rightarrow> device \<Rightarrow> ('w gateway, gerror option) oprog" where
  "on_edit E pm d =
     (if GetPool pm (dev_Protocol d) = None then always (ret (Some not_supported))
      else
        obnd (oon_left (ReplaceDevice E d)) (\<lambda>err.
        case err of
          Some e \<Rightarrow> always (ret (Some e))
        | None \<Rightarrow> obnd (always (tell_handler (AddDevice d))) (\<lambda>_. always (ret None))))"

definition on_delete :: "'w polling_env \<Rightarrow> string \<Rightarrow> ('w gateway, gerror option) oprog" where
  "on_delete E i =
     obnd (oon_left (always (UnregisterDevice E i))) (\<lambda>err.
     obnd (always (tell_handler (RemoveDevice i))) (\<lambda>_. always (ret None)))"

definition gateway_callbacks :: "'w polling_env \<Rightarrow> 's protocol_manager \<Rightarrow> 'w gateway callbacks" where
  "gateway_callbacks E pm = SetCallbacks (Some (on_add E pm)) (Some (on_edit E pm)) (Some (on_delete E))"

text \<open>The devices of the cache are registered before polling starts; an error is only logged.\<close>

fun register_cached :: "'w polling_env \<Rightarrow> 's protocol_manager \<Rightarrow> device list \<Rightarrow> (polling_service \<times> 'w, unit) oprog" where
  "register_cached E pm [] = always (ret ())"
| "register_cached E pm (d # ds) =
     (if GetPool pm (dev_Protocol d) = None then register_cached E pm ds
      else obnd (RegisterDevice E d) (\<lambda>_. register_cached E pm ds))"

definition manager_registrar :: "'w callbacks \<Rightarrow> (manager \<times> 'w) registrar" where
  "manager_registrar C =
     \<lparr>rg_GetDevice = (\<lambda>s. GetDevice (fst s)), rg_GetDevices = (\<lambda>s. GetDevices (fst s)),
      rg_Add = AddDeviceFromConfig C, rg_Update = UpdateDeviceFromConfig C, rg_Delete = DeleteDeviceByID C\<rparr>"

definition gateway_clock :: "('w \<Rightarrow> int \<times> 'w) \<Rightarrow> manager \<times> 'w gateway \<Rightarrow> int \<times> manager \<times> 'w gateway" where
  "gateway_clock now s =
     (case s of (m, ((ps, w), h)) \<Rightarrow> (case now w of (t, w') \<Rightarrow> (t, (m, ((ps, w'), h)))))"

text \<open>The subscriber's environment \<open>B\<close> with the manager as its registry.\<close>

definition gateway_env ::
  "'w polling_env \<Rightarrow> 's protocol_manager \<Rightarrow> ('w \<Rightarrow> int \<times> 'w) \<Rightarrow> (manager \<times> 'w gateway) config_env \<Rightarrow>
   (manager \<times> 'w gateway) config_env" where
  "gateway_env E pm now B =
     B\<lparr>ce_registrar := manager_registrar (gateway_callbacks E pm), ce_Clock := gateway_clock now\<rparr>"

section \<open>When the parts agree\<close>

definition manager_ok :: "manager \<Rightarrow> bool" where
  "manager_ok m \<longleftrightarrow> distinct (map fst (mg_devices m)) \<and> list_all (\<lambda>(i, d). dev_ID d = i) (mg_devices m)"

definition polled :: "polling_service \<Rightarrow> string \<Rightarrow> device option" where
  "polled s i = map_option dpo_device (map_of (ps_devices s) i)"

text \<open>The devices to poll: those that are enabled.\<close>

definition enabled_of :: "(string \<rightharpoonup> device) \<Rightarrow> string \<rightharpoonup> device" where
  "enabled_of m i = (case m i of Some d \<Rightarrow> if dev_Enabled d then Some d else None | None \<Rightarrow> None)"

definition no_subscription :: "polling_service \<Rightarrow> bool" where
  "no_subscription s \<longleftrightarrow> list_all (\<lambda>e. \<not> dpo_subscribed (snd e)) (ps_devices s)"

definition handler_knows :: "(string \<rightharpoonup> device) \<Rightarrow> command_handler option \<Rightarrow> bool" where
  "handler_knows m h \<longleftrightarrow>
     (case h of None \<Rightarrow> True
      | Some c \<Rightarrow> ch_devices c = m \<and> ch_tagByID c = (\<lambda>i. map_option buildTagIndex (m i)))"

definition gateway_agrees :: "(string \<rightharpoonup> device) \<Rightarrow> 'w gateway \<Rightarrow> bool" where
  "gateway_agrees m g \<longleftrightarrow>
     polled (fst (fst g)) = enabled_of m \<and> no_subscription (fst (fst g)) \<and> handler_knows m (snd g)"

text \<open>
  The manager's map is one entry per device under its ID, the pollers are those of its enabled devices,
  each with the manager's configuration, none by subscription, and the command handler writes to the same
  devices and tags.
\<close>

definition gateway_ok :: "manager \<times> 'w gateway \<Rightarrow> bool" where
  "gateway_ok s \<longleftrightarrow> manager_ok (fst s) \<and> gateway_agrees (map_of (mg_devices (fst s))) (snd s)"

text \<open>A device that the gateway can poll: its protocol has a pool, and it is not an OPC UA subscription.\<close>

definition pollable :: "'w polling_env \<Rightarrow> 's protocol_manager \<Rightarrow> device \<Rightarrow> bool" where
  "pollable E pm d \<longleftrightarrow> GetPool pm (dev_Protocol d) \<noteq> None \<and> subscription_of E d = None"

section \<open>What the callbacks do\<close>

text \<open>A poller that is not a subscription starts at once.\<close>

lemma start_polled:
  assumes "subscription_of E (dpo_device dp) = None"
  shows "\<exists>n b. startDevicePoller E ((s, dp), w) = Some (Val (), ((s\<lparr>ps_spawned := n\<rparr>, dp\<lparr>dpo_running := b\<rparr>), w))"
proof (cases "dpo_running dp")
  case True
  then have "dp\<lparr>dpo_running := True\<rparr> = dp" by simp
  with True show ?thesis
    by (subst startDevicePoller.simps) (auto simp: start_pass_def Let_def intro!: exI [of _ "ps_spawned s"] exI [of _ True])
next
  case False
  with assms show ?thesis by (subst startDevicePoller.simps) (auto simp: start_pass_def Let_def)
qed

lemma polled_set: "polled (set_poller i dp s) = (polled s)(i \<mapsto> dpo_device dp)"
  by (simp add: polled_def set_poller_def AList.update_conv' fun_eq_iff)

lemma polled_delete: "polled (s\<lparr>ps_devices := AList.delete i (ps_devices s)\<rparr>) = (polled s)(i := None)"
  by (simp add: polled_def AList.delete_conv' fun_eq_iff)

lemma polled_spawned: "polled (s\<lparr>ps_spawned := n\<rparr>) = polled s" "no_subscription (s\<lparr>ps_spawned := n\<rparr>) = no_subscription s"
  by (simp_all add: polled_def no_subscription_def fun_eq_iff)

lemma no_subscription_set: "no_subscription s \<Longrightarrow> \<not> dpo_subscribed dp \<Longrightarrow> no_subscription (set_poller i dp s)"
  using set_AList_update [of i dp "ps_devices s"] by (auto simp: no_subscription_def set_poller_def list_all_iff)

lemma no_subscription_delete: "no_subscription s \<Longrightarrow> no_subscription (s\<lparr>ps_devices := AList.delete i (ps_devices s)\<rparr>)"
  by (auto simp: no_subscription_def list_all_iff AList.delete_eq)

lemma no_subscription_entry: "no_subscription s \<Longrightarrow> map_of (ps_devices s) i = Some dp \<Longrightarrow> \<not> dpo_subscribed dp"
  by (auto simp: no_subscription_def list_all_iff dest!: map_of_SomeD)

text \<open>Starting the poller of an entry leaves the pollers as they are.\<close>

lemma on_entry_start:
  assumes "subscription_of E (dpo_device dp) = None" and "no_subscription s" and "\<not> dpo_subscribed dp"
  shows "\<exists>s'. on_entry i (startDevicePoller E) dp (s, w) = Some (Val (), (s', w)) \<and>
    polled s' = (polled s)(i \<mapsto> dpo_device dp) \<and> no_subscription s'"
proof -
  obtain n b where "startDevicePoller E ((s, dp), w) = Some (Val (), ((s\<lparr>ps_spawned := n\<rparr>, dp\<lparr>dpo_running := b\<rparr>), w))"
    using start_polled [OF assms(1)] by blast
  with assms(2,3) show ?thesis
    by (simp add: on_entry_def polled_set polled_spawned no_subscription_set)
qed

lemma restart_polled:
  assumes "subscription_of E (dpo_device dp) = None" and "no_subscription s" and "\<not> dpo_subscribed dp"
  shows "\<exists>s' w'. on_entry i (restart E) dp (s, w) = Some (Val (), (s', w')) \<and>
    polled s' = (polled s)(i \<mapsto> dpo_device dp) \<and> no_subscription s'"
proof -
  obtain exited w0 where exits: "po_exits E (dev_ID (dpo_device dp)) w = (exited, w0)" by fastforce
  obtain dp1 w1 where stop: "stopAndResetPoller E ((s, dp), w) = (Val (), ((s, dp1), w1))"
    "dpo_device dp1 = dpo_device dp" "dpo_subscribed dp1 = dpo_subscribed dp"
    by (cases "dpo_running dp")
      (auto simp: stopAndResetPoller_def poller_def on_poller_def run_defs exits)
  obtain n b where "startDevicePoller E ((s, dp1), w1) = Some (Val (), ((s\<lparr>ps_spawned := n\<rparr>, dp1\<lparr>dpo_running := b\<rparr>), w1))"
    using start_polled [of E dp1 s w1] assms(1) stop(2) by metis
  with stop assms(2,3) show ?thesis
    by (simp add: on_entry_def restart_def obnd_def always_def polled_set polled_spawned no_subscription_set)
qed

lemma RegisterDevice_polls:
  assumes "subscription_of E d = None" and "no_subscription s" and "polled s (dev_ID d) = None"
  shows "\<exists>s'. RegisterDevice E d (s, w) = Some (Val None, (s', w)) \<and>
    polled s' = (polled s)(dev_ID d := if dev_Enabled d then Some d else None) \<and> no_subscription s'"
proof -
  let ?s = "set_poller (dev_ID d) (new_poller d) s"
  have new: "dpo_device (new_poller d) = d" "\<not> dpo_subscribed (new_poller d)" by (simp_all add: new_poller_def)
  have s: "polled ?s = (polled s)(dev_ID d \<mapsto> d)" "no_subscription ?s"
    using assms(2) new by (simp_all add: polled_set no_subscription_set)
  obtain s' where run: "on_entry (dev_ID d) (startDevicePoller E) (new_poller d) (?s, w) = Some (Val (), (s', w))"
    "polled s' = (polled ?s)(dev_ID d \<mapsto> dpo_device (new_poller d))" "no_subscription s'"
    using on_entry_start [of E "new_poller d" ?s "dev_ID d" w] assms(1) new s by auto
  have same: "(polled s)(dev_ID d := None) = polled s" using assms(3) by auto
  from assms(3) have "map_of (ps_devices s) (dev_ID d) = None" by (simp add: polled_def)
  with run new s assms(2) same show ?thesis
    by (simp add: RegisterDevice_def Let_def obnd_def always_ret)
qed

lemma ReplaceDevice_polls:
  assumes "subscription_of E d = None" and "no_subscription s"
  shows "\<exists>s' w'. ReplaceDevice E d (s, w) = Some (Val None, (s', w')) \<and>
    polled s' = (polled s)(dev_ID d := if dev_Enabled d then Some d else None) \<and> no_subscription s'"
proof (cases "map_of (ps_devices s) (dev_ID d)")
  case None
  then have "polled s (dev_ID d) = None" by (simp add: polled_def)
  from RegisterDevice_polls [OF assms this, of w] None show ?thesis by (auto simp: ReplaceDevice_def)
next
  case (Some dp)
  let ?dp = "dp\<lparr>dpo_device := d\<rparr>"
  let ?s = "set_poller (dev_ID d) ?dp s"
  have unsub: "\<not> dpo_subscribed dp" by (rule no_subscription_entry [OF assms(2) Some])
  have s: "polled ?s = (polled s)(dev_ID d \<mapsto> d)" "no_subscription ?s"
    using assms(2) unsub by (simp_all add: polled_set no_subscription_set)
  obtain s' w' where run: "on_entry (dev_ID d) (restart E) ?dp (?s, w) = Some (Val (), (s', w'))"
    "polled s' = (polled ?s)(dev_ID d \<mapsto> dpo_device ?dp)" "no_subscription s'"
    using restart_polled [of E ?dp ?s "dev_ID d" w] assms(1) unsub s by auto
  show ?thesis
  proof (cases "dev_Enabled d")
    case True
    with Some unsub assms(1) run s show ?thesis by (simp add: ReplaceDevice_def Let_def obnd_def always_ret)
  next
    case False
    with Some unsub assms(2) show ?thesis
      by (simp add: ReplaceDevice_def remove_poller_def always_def run_simps polled_delete no_subscription_delete)
  qed
qed

lemma UnregisterDevice_polls:
  assumes "no_subscription s"
  shows "\<exists>err s'. UnregisterDevice E i (s, w) = (Val err, (s', w)) \<and> polled s' = (polled s)(i := None) \<and> no_subscription s'"
proof (cases "map_of (ps_devices s) i")
  case None
  then have "(polled s)(i := None) = polled s" by (auto simp: polled_def fun_eq_iff)
  with None assms show ?thesis by (simp add: UnregisterDevice_def run_simps)
next
  case (Some dp)
  with no_subscription_entry [OF assms Some] assms show ?thesis
    by (simp add: UnregisterDevice_def remove_poller_def run_simps polled_delete no_subscription_delete)
qed

text \<open>The three callbacks, from a gateway that agrees with the map \<open>m\<close>.\<close>

lemma handler_knows_add:
  "handler_knows m h \<Longrightarrow> handler_knows (m(dev_ID d \<mapsto> d)) (map_option (AddDevice d) h)"
  by (cases h) (auto simp: handler_knows_def AddDevice_def fun_eq_iff)

lemma handler_knows_remove: "handler_knows m h \<Longrightarrow> handler_knows (m(i := None)) (map_option (RemoveDevice i) h)"
  by (cases h) (auto simp: handler_knows_def RemoveDevice_def fun_eq_iff)

lemma enabled_of_update:
  "(enabled_of m)(dev_ID d := if dev_Enabled d then Some d else None) = enabled_of (m(dev_ID d \<mapsto> d))"
  "(enabled_of m)(i := None) = enabled_of (m(i := None))"
  by (auto simp: enabled_of_def fun_eq_iff)

lemma on_add_agrees:
  assumes "pollable E pm d" and "gateway_agrees m g" and "m (dev_ID d) = None"
  shows "\<exists>g'. on_add E pm d g = Some (Val None, g') \<and> gateway_agrees (m(dev_ID d \<mapsto> d)) g'"
proof -
  obtain ps w h where g: "g = ((ps, w), h)" by (metis surj_pair)
  with assms have ps: "polled ps = enabled_of m" "no_subscription ps" "handler_knows m h"
    by (simp_all add: gateway_agrees_def)
  with assms(3) have "polled ps (dev_ID d) = None" by (simp add: enabled_of_def)
  from RegisterDevice_polls [OF _ ps(2) this, of E w] assms(1) obtain ps' where
    "RegisterDevice E d (ps, w) = Some (Val None, (ps', w))"
    "polled ps' = (polled ps)(dev_ID d := if dev_Enabled d then Some d else None)" "no_subscription ps'"
    by (auto simp: pollable_def)
  with assms(1) ps show ?thesis
    by (simp add: g on_add_def pollable_def oon_left_def obnd_def always_def tell_handler_def run_defs
        gateway_agrees_def enabled_of_update handler_knows_add)
qed

lemma on_edit_agrees:
  assumes "pollable E pm d" and "gateway_agrees m g"
  shows "\<exists>g'. on_edit E pm d g = Some (Val None, g') \<and> gateway_agrees (m(dev_ID d \<mapsto> d)) g'"
proof -
  obtain ps w h where g: "g = ((ps, w), h)" by (metis surj_pair)
  with assms have ps: "polled ps = enabled_of m" "no_subscription ps" "handler_knows m h"
    by (simp_all add: gateway_agrees_def)
  from ReplaceDevice_polls [OF _ ps(2), of E d w] assms(1) obtain ps' w' where
    "ReplaceDevice E d (ps, w) = Some (Val None, (ps', w'))"
    "polled ps' = (polled ps)(dev_ID d := if dev_Enabled d then Some d else None)" "no_subscription ps'"
    by (auto simp: pollable_def)
  with assms(1) ps show ?thesis
    by (simp add: g on_edit_def pollable_def oon_left_def obnd_def always_def tell_handler_def run_defs
        gateway_agrees_def enabled_of_update handler_knows_add)
qed

lemma on_delete_agrees:
  assumes "gateway_agrees m g"
  shows "\<exists>g'. on_delete E i g = Some (Val None, g') \<and> gateway_agrees (m(i := None)) g'"
proof -
  obtain ps w h where g: "g = ((ps, w), h)" by (metis surj_pair)
  with assms have ps: "polled ps = enabled_of m" "no_subscription ps" "handler_knows m h"
    by (simp_all add: gateway_agrees_def)
  from UnregisterDevice_polls [OF ps(2), of E i w] obtain err ps' where
    "UnregisterDevice E i (ps, w) = (Val err, (ps', w))" "polled ps' = (polled ps)(i := None)" "no_subscription ps'"
    by blast
  with ps show ?thesis
    by (simp add: g on_delete_def oon_left_def obnd_def always_def tell_handler_def run_defs
        gateway_agrees_def enabled_of_update handler_knows_remove)
qed

section \<open>The manager over the callbacks\<close>

lemma manager_ok_put: "manager_ok m \<Longrightarrow> manager_ok (put_device d m)"
  using set_AList_update [of "dev_ID d" d "mg_devices m"]
  by (auto simp: manager_ok_def put_device_def distinct_update list_all_iff)

lemma manager_ok_drop: "manager_ok m \<Longrightarrow> manager_ok (drop_device i m)"
  using distinct_delete [of "mg_devices m" i] by (auto simp: manager_ok_def drop_device_def list_all_iff AList.delete_eq)

lemma map_of_devices:
  "map_of (mg_devices (put_device d m)) = (map_of (mg_devices m))(dev_ID d \<mapsto> d)"
  "map_of (mg_devices (drop_device i m)) = (map_of (mg_devices m))(i := None)"
  by (simp_all add: put_device_def drop_device_def AList.update_conv' AList.delete_conv' fun_eq_iff)

lemma manager_ok_listed:
  assumes "manager_ok m"
  shows "d \<in> set (GetDevices m) \<longleftrightarrow> GetDevice m (dev_ID d) = Some d"
  using assms
  by (force simp: manager_ok_def GetDevices_def GetDevice_def list_all_iff map_of_eq_Some_iff image_iff dest: map_of_SomeD)

lemma GetDevice_map: "GetDevice m = map_of (mg_devices m)"
  by (simp add: GetDevice_def fun_eq_iff)

lemma go_persist_run: "go_persist (m, w) = Some (Val None, (mg_pending_update Suc m, w))"
  by (simp add: go_persist_def always_ret)

lemma announce_add_agrees:
  assumes "pollable E pm d" and "gateway_agrees m0 g" and "m0 (dev_ID d) = None" and "manager_ok m"
    and "map_of (mg_devices m) = m0(dev_ID d \<mapsto> d)"
  shows "\<exists>s'. announce_add (gateway_callbacks E pm) d (m, g) = Some (Val None, s') \<and> gateway_ok s' \<and>
    GetDevice (fst s') = m0(dev_ID d \<mapsto> d)"
proof -
  from on_add_agrees [OF assms(1-3)] obtain g' where
    "on_add E pm d g = Some (Val None, g')" "gateway_agrees (m0(dev_ID d \<mapsto> d)) g'" by blast
  with assms(4,5) show ?thesis
    by (simp add: announce_add_def called_def gateway_callbacks_def SetCallbacks_def obnd_def [of "oworld _"] oworld_def
        go_persist_run gateway_ok_def manager_ok_def GetDevice_map)
qed

lemma AddDevice_agrees:
  assumes "pollable E pm d" and "gateway_ok (m, g)" and "GetDevice m (dev_ID d) = None"
  shows "\<exists>s'. AddDeviceFromConfig (gateway_callbacks E pm) d (m, g) = Some (Val None, s') \<and> gateway_ok s' \<and>
    GetDevice (fst s') = (GetDevice m)(dev_ID d \<mapsto> d)"
proof -
  from assms(2) have ok: "manager_ok m" "gateway_agrees (map_of (mg_devices m)) g" by (simp_all add: gateway_ok_def)
  from announce_add_agrees [OF assms(1) ok(2) _ manager_ok_put [OF ok(1), of d] map_of_devices(1)] assms(3)
  show ?thesis by (simp add: AddDeviceFromConfig_def GetDevice_map)
qed

lemma UpdateDevice_agrees:
  assumes "pollable E pm d" and "gateway_ok (m, g)"
  shows "\<exists>s'. UpdateDeviceFromConfig (gateway_callbacks E pm) d (m, g) = Some (Val None, s') \<and> gateway_ok s' \<and>
    GetDevice (fst s') = (GetDevice m)(dev_ID d \<mapsto> d)"
proof (cases "map_of (mg_devices m) (dev_ID d)")
  from assms(2) have ok: "manager_ok m" "gateway_agrees (map_of (mg_devices m)) g" by (simp_all add: gateway_ok_def)
  note put = manager_ok_put [OF ok(1), of d]
  {
    case None
    from announce_add_agrees [OF assms(1) ok(2) _ put map_of_devices(1)] None
    show ?thesis by (simp add: UpdateDeviceFromConfig_def GetDevice_map)
  next
    case (Some old)
    from on_edit_agrees [OF assms(1) ok(2)] obtain g' where
      "on_edit E pm d g = Some (Val None, g')" "gateway_agrees ((map_of (mg_devices m))(dev_ID d \<mapsto> d)) g'" by blast
    with Some put show ?thesis
      by (simp add: UpdateDeviceFromConfig_def called_def gateway_callbacks_def SetCallbacks_def obnd_def [of "oworld _"]
          oworld_def go_persist_run gateway_ok_def manager_ok_def GetDevice_map map_of_devices)
  }
qed

lemma DeleteDevice_agrees:
  assumes "gateway_ok (m, g)"
  shows "\<exists>s'. DeleteDeviceByID (gateway_callbacks E pm) i (m, g) = Some (Val None, s') \<and> gateway_ok s' \<and>
    GetDevice (fst s') = (GetDevice m)(i := None)"
proof (cases "map_of (mg_devices m) i")
  case None
  then have "(map_of (mg_devices m))(i := None) = map_of (mg_devices m)" by auto
  with None assms show ?thesis by (simp add: DeleteDeviceByID_def always_ret GetDevice_map)
next
  case (Some old)
  from assms have ok: "manager_ok m" "gateway_agrees (map_of (mg_devices m)) g" by (simp_all add: gateway_ok_def)
  from on_delete_agrees [OF ok(2)] obtain g' where
    "on_delete E i g = Some (Val None, g')" "gateway_agrees ((map_of (mg_devices m))(i := None)) g'" by blast
  with Some manager_ok_drop [OF ok(1), of i] show ?thesis
    by (simp add: DeleteDeviceByID_def called_def gateway_callbacks_def SetCallbacks_def obnd_def [of "oworld _"]
        oworld_def go_persist_run gateway_ok_def manager_ok_def GetDevice_map map_of_devices)
qed

section \<open>The subscriber over the manager\<close>

lemma gateway_env_simps [simp]:
  "ce_registrar (gateway_env E pm now B) = manager_registrar (gateway_callbacks E pm)"
  "ce_Clock (gateway_env E pm now B) = gateway_clock now"
  "ce_ParseBulk (gateway_env E pm now B) = ce_ParseBulk B" "ce_ParseTag (gateway_env E pm now B) = ce_ParseTag B"
  "ce_ParseDevice (gateway_env E pm now B) = ce_ParseDevice B"
  by (simp_all add: gateway_env_def)

lemma gateway_clock_ok:
  "gateway_ok s \<Longrightarrow> gateway_ok (snd (gateway_clock now s)) \<and> fst (snd (gateway_clock now s)) = fst s"
  by (auto simp: gateway_clock_def gateway_ok_def gateway_agrees_def split: prod.split)

interpretation gateway: device_source "gateway_env E pm now B" gateway_ok "pollable E pm" for E pm now B
proof unfold_locales
  fix s :: "manager \<times> 'a gateway" and d i
  assume s: "gateway_ok s"
  then show "d \<in> set (rg_GetDevices (ce_registrar (gateway_env E pm now B)) s) \<longleftrightarrow>
      rg_GetDevice (ce_registrar (gateway_env E pm now B)) s (dev_ID d) = Some d"
    by (simp add: manager_registrar_def gateway_ok_def manager_ok_listed)
  show "gateway_ok (snd (ce_Clock (gateway_env E pm now B) s)) \<and>
      rg_GetDevice (ce_registrar (gateway_env E pm now B)) (snd (ce_Clock (gateway_env E pm now B) s)) =
      rg_GetDevice (ce_registrar (gateway_env E pm now B)) s"
    using gateway_clock_ok [OF s, of now] by (simp add: manager_registrar_def)
  show "dev_ID d = i" if "rg_GetDevice (ce_registrar (gateway_env E pm now B)) s i = Some d"
    using that s by (auto simp: manager_registrar_def gateway_ok_def manager_ok_def list_all_iff GetDevice_def dest!: map_of_SomeD)
next
  fix d m assume d: "pollable E pm d"
  show "delivers (\<lambda>s. gateway_ok s \<and> rg_GetDevice (ce_registrar (gateway_env E pm now B)) s = m \<and> m (dev_ID d) = None)
      (rg_Add (ce_registrar (gateway_env E pm now B)) d)
      (\<lambda>err s. gateway_ok s \<and> rg_GetDevice (ce_registrar (gateway_env E pm now B)) s = m(dev_ID d \<mapsto> d) \<and> err = None)"
    using AddDevice_agrees [OF d] by (intro deliversI) (fastforce simp: manager_registrar_def)
  show "delivers (\<lambda>s. gateway_ok s \<and> rg_GetDevice (ce_registrar (gateway_env E pm now B)) s = m)
      (rg_Update (ce_registrar (gateway_env E pm now B)) d)
      (\<lambda>err s. gateway_ok s \<and> rg_GetDevice (ce_registrar (gateway_env E pm now B)) s = m(dev_ID d \<mapsto> d) \<and> err = None)"
    using UpdateDevice_agrees [OF d] by (intro deliversI) (fastforce simp: manager_registrar_def)
next
  fix i m
  show "delivers (\<lambda>s. gateway_ok s \<and> rg_GetDevice (ce_registrar (gateway_env E pm now B)) s = m)
      (rg_Delete (ce_registrar (gateway_env E pm now B)) i)
      (\<lambda>err s. gateway_ok s \<and> rg_GetDevice (ce_registrar (gateway_env E pm now B)) s = m(i := None) \<and> err = None)"
    using DeleteDevice_agrees by (intro deliversI) (fastforce simp: manager_registrar_def)
qed

text \<open>
  C28. A full sync of devices that the gateway can poll always returns, counts no error, and leaves the
  gateway with exactly those devices: of the devices with one ID the last one of the message, converted to
  the domain, and no device whose ID did not come. The pollers are then those of the enabled devices, each
  with the new configuration, and the command handler writes to the same devices.
\<close>

theorem bulk_sync_reconciles:
  assumes "gateway_ok s" and "payload \<noteq> ''''" and "ce_ParseBulk B payload = Some n"
    and "list_all (\<lambda>wd. \<forall>c u. pollable E pm (WireDeviceToDomain wd c u)) (no_Data n)"
  shows "\<exists>cs' s'. cs_handleMessage (gateway_env E pm now B) (cc_TopicPrefix (cs_config cs) @ ''/devices/bulk'') payload (cs, s) =
      Some (Val (), (cs', s')) \<and>
    gateway_ok s' \<and> cs_errorsTotal cs' = cs_errorsTotal cs \<and>
    holds_latest (no_Data n) (GetDevice (fst s')) \<and>
    dom (GetDevice (fst s')) \<subseteq> set (map wd_ID (no_Data n))"
proof -
  have "delivers (store_at (rg_GetDevice (ce_registrar (gateway_env E pm now B))) gateway_ok (cs_errorsTotal cs) (\<lambda>_. True)) (handleBulkDevices (gateway_env E pm now B) payload)
      (\<lambda>_. store_at (rg_GetDevice (ce_registrar (gateway_env E pm now B))) gateway_ok (cs_errorsTotal cs) (\<lambda>m. holds_latest (no_Data n) m \<and> dom m \<subseteq> set (map wd_ID (no_Data n))))"
    by (rule gateway.bulk_ok) (use assms(3,4) in \<open>auto simp: list_all_iff\<close>)
  from store_at_run [OF this assms(1)] obtain u :: unit and cs' s' where
    "handleBulkDevices (gateway_env E pm now B) payload (cs, s) = Some (Val u, (cs', s'))" "gateway_ok s'"
    "holds_latest (no_Data n) (GetDevice (fst s'))" "dom (GetDevice (fst s')) \<subseteq> set (map wd_ID (no_Data n))"
    "cs_errorsTotal cs' = cs_errorsTotal cs"
    by (fastforce simp: manager_registrar_def)
  with assms(2) show ?thesis by (simp add: cs_handleMessage_def)
qed

text \<open>
  C29. A change of one tag of a known device that stays pollable always returns, counts no error, and
  changes that device alone: its tags are those of before with the tag put in the place of the first one
  with its ID or at the end, or without the tags of that ID, and its poller and the command handler have
  the new tags.
\<close>

theorem tag_change_reaches_the_poller:
  assumes "gateway_ok s" and "Split topic CHR ''/'' = pre @ [i, t]" and "3 \<le> length pre"
    and "ce_ParseTag B payload = Some n" and "GetDevice (fst s) i = Some d"
    and "\<And>now. pollable E pm
      (d\<lparr>dev_Tags := change_tags (no_Action n) (WireTagToDomain (no_Data n)) (dev_Tags d), dev_UpdatedAt := now\<rparr>)"
  shows "\<exists>cs' s' at. handleTagChange (gateway_env E pm now B) topic payload (cs, s) = Some (Val (), (cs', s')) \<and>
    gateway_ok s' \<and> cs_errorsTotal cs' = cs_errorsTotal cs \<and>
    GetDevice (fst s') = (GetDevice (fst s))(i \<mapsto>
      d\<lparr>dev_Tags := change_tags (no_Action n) (WireTagToDomain (no_Data n)) (dev_Tags d), dev_UpdatedAt := at\<rparr>)"
proof -
  note run = gateway.tag_change_ok [OF assms(2,3), where E = E and pm = pm and now = now and B = B and payload = payload and n = n and d = d
      and k = "cs_errorsTotal cs" and before = "GetDevice (fst s)"]
  have "ce_ParseTag (gateway_env E pm now B) payload = Some n" using assms(4) by simp
  from store_at_run [OF run [OF this assms(6)] assms(1)] assms(5) show ?thesis
    by (fastforce simp: manager_registrar_def)
qed

section \<open>A concrete gateway\<close>

definition demo_wire_tag :: wire_tag where
  "demo_wire_tag =
     \<lparr>wt_ID = ''t1'', wt_Name = ''Temp'', wt_Description = '''', wt_Address = ''10'', wt_DataType = ''int32'',
      wt_Enabled = True, wt_ScaleFactor = 0, wt_Offset = 0, wt_ClampMin = None, wt_ClampMax = None, wt_Unit = ''C'',
      wt_DeadbandType = ''none'', wt_DeadbandValue = 0, wt_AccessMode = '''', wt_Priority = 0, wt_ByteOrder = '''',
      wt_RegisterType = ''holding_register'', wt_RegisterCount = None, wt_OPCNodeID = '''', wt_OPCNamespaceURI = '''',
      wt_S7Address = '''', wt_TopicSuffix = ''temp''\<rparr>"

definition demo_wire_connection :: wire_connection where
  "demo_wire_connection =
     \<lparr>wn_Host = ''plc'', wn_Port = 502, wn_Timeout = ''10s'', wn_RetryCount = None, wn_RetryDelay = '''',
      wn_SlaveID = Some 1, wn_SecurityPolicy = '''', wn_SecurityMode = '''', wn_AuthMode = '''', wn_Username = '''',
      wn_Password = '''', wn_EndpointURL = '''', wn_UseSubscriptions = None, wn_Rack = None, wn_Slot = None,
      wn_PDUSize = None\<rparr>"

definition demo_wire_device :: wire_device where
  "demo_wire_device =
     \<lparr>wd_ID = ''plc1'', wd_Name = ''PLC'', wd_Description = '''', wd_Protocol = ''modbus_tcp'', wd_Enabled = True,
      wd_Connection = demo_wire_connection, wd_UNSPrefix = ''plant/line1'', wd_PollInterval = ''0s'',
      wd_Tags = [demo_wire_tag], wd_ConfigVersion = 1\<rparr>"

type_synonym demo_world = "nat connection_pool \<times> int"

definition demo_config_env :: "(manager \<times> demo_world gateway) config_env" where
  "demo_config_env =
     \<lparr>ce_registrar = manager_registrar (SetCallbacks None None None),
      ce_SubscribeMultiple = (\<lambda>filters s. ((True, None), s)), ce_UnsubscribeAll = (\<lambda>topics s. ((), s)),
      ce_PublishConfig = (\<lambda>topic qos retained payload s. ((True, None), s)), ce_Sleep = (\<lambda>d s. ((), s)),
      ce_SyncPayload = (\<lambda>t. ''sync''),
      ce_ParseDevice = (\<lambda>payload. Some \<lparr>no_Action = ''create'', no_Timestamp = '''', no_Data = demo_wire_device\<rparr>),
      ce_ParseBulk = (\<lambda>payload. Some \<lparr>no_Action = ''bulk'', no_Timestamp = '''', no_Data = [demo_wire_device]\<rparr>),
      ce_ParseTag = (\<lambda>payload. Some \<lparr>no_Action = ''delete'', no_Timestamp = '''', no_Data = demo_wire_tag\<rparr>),
      ce_Clock = (\<lambda>s. (0, s))\<rparr>"

definition demo_clock :: "demo_world \<Rightarrow> int \<times> demo_world" where
  "demo_clock w = (0, w)"

definition demo_start :: "manager \<times> demo_world gateway" where
  "demo_start = (NewMQTTDeviceManager '''', ((sample_service, (sample_pool 2, 0)), None))"

definition demo_polling :: "demo_world polling_env" where
  "demo_polling = sample_polling_env dead_env"

definition demo_pools :: "unit protocol_manager" where
  "demo_pools = RegisterPool ProtocolModbusTCP
     \<lparr>pp_ReadTags = (\<lambda>d tags. ret ([], None)), pp_ReadTag = (\<lambda>d t. ret (None, None)), pp_WriteTag = (\<lambda>d t v. ret None),
      pp_Close = ret None, pp_HealthCheck = ret None\<rparr> NewProtocolManager"

lemma demo_start_ok: "gateway_ok demo_start"
  by (simp add: gateway_ok_def demo_start_def NewMQTTDeviceManager_def manager_ok_def gateway_agrees_def polled_def
      enabled_of_def no_subscription_def handler_knows_def sample_service_def NewPollingService_def fun_eq_iff)

lemma demo_pollable: "dev_Protocol d = ProtocolModbusTCP \<Longrightarrow> pollable demo_polling demo_pools d"
  by (simp add: pollable_def demo_pools_def RegisterPool_def NewProtocolManager_def GetPool_def subscription_of_def)

lemma demo_device_protocol: "dev_Protocol (WireDeviceToDomain demo_wire_device c u) = ProtocolModbusTCP"
  by (simp add: WireDeviceToDomain_def demo_wire_device_def mapWireProtocol_def)

theorem bulk_sync_reconciles_witness:
  "\<exists>cs' s'. cs_handleMessage (gateway_env demo_polling demo_pools demo_clock demo_config_env) 
      (cc_TopicPrefix (cs_config (NewConfigSubscriber DefaultConfigSubscriberConfig)) @ ''/devices/bulk'') ''x''
      (NewConfigSubscriber DefaultConfigSubscriberConfig, demo_start) = Some (Val (), (cs', s')) \<and>
    gateway_ok s' \<and> cs_errorsTotal cs' = cs_errorsTotal (NewConfigSubscriber DefaultConfigSubscriberConfig) \<and>
    holds_latest [demo_wire_device] (GetDevice (fst s')) \<and>
    dom (GetDevice (fst s')) \<subseteq> set (map wd_ID [demo_wire_device])"
  using bulk_sync_reconciles [of demo_start "''x''" demo_config_env
      "\<lparr>no_Action = ''bulk'', no_Timestamp = '''', no_Data = [demo_wire_device]\<rparr>" demo_polling demo_pools
      demo_clock "NewConfigSubscriber DefaultConfigSubscriberConfig"]
  by (simp add: demo_start_ok demo_config_env_def demo_pollable demo_device_protocol)

definition demo_running :: "manager \<times> demo_world gateway" where
  "demo_running =
     (put_device polled_device (NewMQTTDeviceManager ''''),
      ((set_poller ''plc1'' (new_poller polled_device) sample_service, (sample_pool 2, 0)), None))"

lemma polled_device_fields: "dev_ID polled_device = ''plc1''" "dev_Enabled polled_device" "dev_Protocol polled_device = ProtocolModbusTCP"
  by (simp_all add: polled_device_def sample_device_def)

lemma demo_running_ok: "gateway_ok demo_running"
  by (simp add: gateway_ok_def demo_running_def NewMQTTDeviceManager_def manager_ok_def gateway_agrees_def polled_def
      enabled_of_def no_subscription_def handler_knows_def sample_service_def NewPollingService_def put_device_def
      set_poller_def new_poller_def polled_device_fields fun_eq_iff)

theorem tag_change_reaches_the_poller_witness:
  "\<exists>cs' s' at. handleTagChange (gateway_env demo_polling demo_pools demo_clock demo_config_env) ''c/d/tags/plc1/t1'' ''x''
      (NewConfigSubscriber DefaultConfigSubscriberConfig, demo_running) = Some (Val (), (cs', s')) \<and>
    gateway_ok s' \<and> cs_errorsTotal cs' = cs_errorsTotal (NewConfigSubscriber DefaultConfigSubscriberConfig) \<and>
    GetDevice (fst s') = (GetDevice (fst demo_running))(''plc1'' \<mapsto>
      polled_device\<lparr>dev_Tags := change_tags ''delete'' (WireTagToDomain demo_wire_tag) (dev_Tags polled_device), dev_UpdatedAt := at\<rparr>)"
  using tag_change_reaches_the_poller [of demo_running "''c/d/tags/plc1/t1''" "[''c'', ''d'', ''tags'']" "''plc1''" "''t1''"
      demo_config_env "''x''" "\<lparr>no_Action = ''delete'', no_Timestamp = '''', no_Data = demo_wire_tag\<rparr>" polled_device
      demo_polling demo_pools demo_clock "NewConfigSubscriber DefaultConfigSubscriberConfig", OF demo_running_ok]
  by (simp add: demo_config_env_def demo_pollable polled_device_fields demo_running_def NewMQTTDeviceManager_def
      put_device_def GetDevice_def)

section \<open>Where the parts come apart\<close>



text \<open>
  Devices from the broker are not validated. A poll interval of zero is refused by \<open>Validate\<close>, and
  \<open>time.NewTicker\<close> in the poller's goroutine panics on it, but a sync starts polling such a device.
\<close>

lemma unvalidated_interval_is_polled:
  "fst (Validate_device (WireDeviceToDomain demo_wire_device c u)) = Some (Sentinel (DeviceE ErrPollIntervalTooShort)) \<and>
   dev_PollInterval (WireDeviceToDomain demo_wire_device c u) = 0 \<and>
   pollable demo_polling demo_pools (WireDeviceToDomain demo_wire_device c u)"
proof -
  have "ParseDuration ''0s'' = Some 0" by code_simp
  then show ?thesis
    by (simp add: demo_pollable demo_device_protocol)
      (simp add: Validate_device_def WireDeviceToDomain_def demo_wire_device_def parseDuration_def mapWireProtocol_def)
qed

end
