(* ===== verification/ConfigCache.thy ===== *)
theory ConfigCache
  imports GatewayConfig
begin

text \<open>
  The YAML cache over a restart: what a manager with an empty map gets from the file that a change wrote,
  and two writes of the cache that come in the wrong order.
\<close>

lemma fold_put_device:
  "distinct (map dev_ID ds) \<Longrightarrow>
     map_of (mg_devices (fold put_device ds m)) i =
       (case map_of (map (\<lambda>d. (dev_ID d, d)) ds) i of Some d \<Rightarrow> Some d | None \<Rightarrow> map_of (mg_devices m) i)"
proof (induction ds arbitrary: m)
  case (Cons d ds)
  then have "map_of (map (\<lambda>d. (dev_ID d, d)) ds) (dev_ID d) = None"
    by (auto simp: map_of_eq_None_iff comp_def)
  with Cons show ?case by (auto simp: map_of_devices split: option.split)
qed simp

text \<open>The restored devices by ID.\<close>

lemma restored_IDs: "map dev_ID (restored_from clock k ds) = map dev_ID ds" "length (restored_from clock k ds) = length ds"
  by (induction ds arbitrary: k) (simp_all add: restored_device_def)

lemma restored_lookup:
  "\<exists>c u. map_of (map (\<lambda>d. (dev_ID d, d)) (restored_from clock k ds)) i =
     map_option (restored_device c u) (map_of (map (\<lambda>d. (dev_ID d, d)) ds) i)"
proof (induction ds arbitrary: k)
  case (Cons d ds)
  have "dev_ID (restored_device c u d) = dev_ID d" for c u by (simp add: restored_device_def)
  with Cons.IH [of "Suc k"] show ?case by (cases "dev_ID d = i") auto
qed simp

lemma manager_ok_lookup:
  assumes "manager_ok m" and "mset ds = mset (GetDevices m)"
  shows "distinct (map dev_ID ds)" "map_of (map (\<lambda>d. (dev_ID d, d)) ds) i = GetDevice m i"
proof -
  have keys: "map fst (mg_devices m) = map dev_ID (GetDevices m)"
    using assms(1) by (auto simp: manager_ok_def GetDevices_def list_all_iff)
  then have d: "distinct (map dev_ID (GetDevices m))" using assms(1) by (simp add: manager_ok_def)
  have "mset (map dev_ID ds) = mset (map dev_ID (GetDevices m))" using assms(2) by simp
  with d show dist: "distinct (map dev_ID ds)" by (metis mset_eq_imp_distinct_iff)
  have "set ds = set (GetDevices m)" using assms(2) by (rule mset_eq_setD)
  moreover have "distinct (map fst (map (\<lambda>d. (dev_ID d, d)) ds))" using dist by (simp add: comp_def)
  ultimately have "map_of (map (\<lambda>d. (dev_ID d, d)) ds) i = Some d \<longleftrightarrow> GetDevice m i = Some d" for d
    using manager_ok_listed [OF assms(1), of d] assms(1)
    by (auto simp: map_of_eq_Some_iff GetDevice_def manager_ok_def list_all_iff dest!: map_of_SomeD)
  then show "map_of (map (\<lambda>d. (dev_ID d, d)) ds) i = GetDevice m i"
    by (metis not_None_eq)
qed


definition demo_manager :: manager where
  "demo_manager = (put_device demo_device (NewMQTTDeviceManager ''f''))\<lparr>mg_pending := 1\<rparr>"

lemma demo_manager_fields:
  "GetDevices demo_manager = [demo_device]" "mg_pending demo_manager = 1" "mg_snapshots demo_manager = []"
  "mg_cachePath demo_manager = ''f''" "manager_ok demo_manager"
  by (simp_all add: demo_manager_def put_device_def NewMQTTDeviceManager_def GetDevices_def manager_ok_def)


text \<open>
  Two changes one after the other start two goroutines. When the goroutine with the older snapshot writes
  last, the cache has the devices of before the last change, and nothing is left that would write it again.
\<close>

lemma older_snapshot_written_last:
  assumes "mg_snapshots m = [old, new]" and "mg_pending m = 0"
    and "SaveDevices io w (mg_cachePath m) new = (None, w1)" and "SaveDevices io w1 (mg_cachePath m) old = (None, w2)"
  shows "bnd (write_snapshot io 1) (\<lambda>_. write_snapshot io 0) (m, w) = (Val (), (m\<lparr>mg_snapshots := []\<rparr>, w2))"
  using assms by (simp add: write_snapshot_def run_defs)

end
