(* ===== verification/Spec2Isabelle.thy ===== *)
theory Spec2Isabelle
  imports Prelude GoFloat GoErrors GoValue GoStrings Domain Device DataPoint
    ModbusConversion ModbusBatch GoProg ModbusClient ModbusRead ModbusReports
    ModbusReadProps ModbusWrite ModbusRetry ModbusPool ProtocolManager
    Polling PollingProps PollingRegistry
  PollerLoop Publisher PublisherProps GoHoare Commands CommandProps GatewayPoll
  IngestPayload IngestWriter IngestWriterProps IngestPipeline Ingestion S7Address
  S7Conversion S7Batch S7Client S7Bulk S7ClientProps S7Memory S7Reports GoFocus S7Pool
  OpcuaLoad OpcuaSecurity OpcuaTrust OpcuaClient OpcuaClientProps OpcuaAnswers OpcuaBrowse OpcuaBrowseProps OpcuaSubscription OpcuaSubProps OpcuaSession OpcuaPool OpcuaPoolCare GoDigits DomainText GoDuration DeviceConfig GoPartial DeviceManager ConfigSubscriber GatewayConfig ConfigCache
begin

text \<open>
  Verification of the IIoT gateway.
\<close>

end
